(* ===== verification/Prelude.thy ===== *)
theory Prelude
  imports Main "HOL-Library.Word" "HOL-Library.Sublist"
begin

text \<open>
  What every component shares: Go's \<open>error\<close> values (the sentinels of the domain packages
  and what \<open>fmt.Errorf\<close> makes of them), sequential error checks, fallible results, points
  in time, and generic list lemmas.
\<close>

declare Let_def [simp]

section \<open>Errors\<close>

text \<open>
  The sentinel errors the packages declare with \<open>errors.New\<close>, one constructor each. An
  error value either wraps a sentinel, so that \<open>errors.Is\<close> finds it, or is plain text.
  The string is the rendered message.
\<close>

datatype sentinel =
    Execution_ErrInvalid | Execution_ErrNotFound | Execution_ErrConflict
  | Execution_ErrNoQueued | Execution_ErrNotQueued
  | Deployment_ErrInvalid | Deployment_ErrNotFound | Deployment_ErrNotReady
  | Deployment_ErrNoQueued
  | Build_ErrInvalid | Build_ErrNotFound | Build_ErrNotReady
  | Build_ErrInvalidStorageKey
  | File_ErrExists | File_ErrNotFound
  | Files_ErrByteLimitExceeded | Files_ErrUnsafeArchive | Files_ErrTooManyArchiveFiles
  | Files_ErrArchiveTooLarge
  | Io_ErrNoProgress | Io_ErrShortWrite
  | Organization_ErrInvalid | Organization_ErrNotFound | Organization_ErrConflict
  | Organization_ErrNotMember | Organization_ErrOwnerLocked | Organization_ErrAlreadyOwner
  | Organization_ErrInviteSpent | Organization_ErrInviteStale | Organization_ErrInviteAddress
  | Context_DeadlineExceeded | Context_Canceled
  | Worker_ErrHandlerFailed | Worker_ErrResultTooLarge
  | App_ErrInvalid | App_ErrNotFound | App_ErrConflict
  | Project_ErrInvalid | Project_ErrNotFound | Project_ErrConflict
  | Account_ErrInvalid | Account_ErrNotFound | Account_ErrConflict
  | Session_ErrAccountNotFound | Session_ErrAccountDisabled | Session_ErrSessionNotFound
  | Session_ErrSessionExpired | Session_ErrNoOrganization | Session_ErrPasswordTooShort
  | Session_ErrPasswordTooLong | Session_ErrPasswordNotUTF8 | Session_ErrHashMalformed
  | Service_ErrInvalidCredentials | Service_ErrUnknownExecutionToken | Github_ErrInvalid
  | Github_ErrNoInstallation | Github_ErrNotConnected | Github_ErrNoWebhookSecret
  | Github_ErrSignature | Github_ErrNotConfigured | Github_ErrNotFound
  | Github_ErrForbidden | Github_ErrSourceTooBig | Browser_ErrInvalid
  | Browser_ErrNotFound | Browser_ErrConflict | Browser_ErrSessionNotFound
  | Browser_ErrUnavailable

primrec sentinel_text :: "sentinel \<Rightarrow> string" where
  "sentinel_text Execution_ErrInvalid = ''invalid execution''"
| "sentinel_text Execution_ErrNotFound = ''execution not found''"
| "sentinel_text Execution_ErrConflict = ''execution state conflict''"
| "sentinel_text Execution_ErrNoQueued = ''no queued execution''"
| "sentinel_text Execution_ErrNotQueued = ''execution is not queued''"
| "sentinel_text Deployment_ErrInvalid = ''invalid deployment''"
| "sentinel_text Deployment_ErrNotFound = ''deployment not found''"
| "sentinel_text Deployment_ErrNotReady = ''deployment is not ready''"
| "sentinel_text Deployment_ErrNoQueued = ''no queued deployment''"
| "sentinel_text Build_ErrInvalid = ''invalid build''"
| "sentinel_text Build_ErrNotFound = ''build not found''"
| "sentinel_text Build_ErrNotReady = ''build is not ready''"
| "sentinel_text Build_ErrInvalidStorageKey = ''invalid storage key''"
| "sentinel_text File_ErrExists = ''artifact object already exists''"
| "sentinel_text File_ErrNotFound = ''artifact object not found''"
| "sentinel_text Files_ErrByteLimitExceeded = ''artifact byte limit exceeded''"
| "sentinel_text Files_ErrUnsafeArchive = ''unsafe artifact archive''"
| "sentinel_text Files_ErrTooManyArchiveFiles = ''artifact archive has too many entries''"
| "sentinel_text Files_ErrArchiveTooLarge = ''artifact archive exceeds expanded-byte limit''"
| "sentinel_text Io_ErrNoProgress = ''multiple Read calls return no data or error''"
| "sentinel_text Io_ErrShortWrite = ''short write''"
| "sentinel_text Organization_ErrInvalid = ''invalid organization request''"
| "sentinel_text Organization_ErrNotFound = ''organization resource not found''"
| "sentinel_text Organization_ErrConflict = ''organization resource conflict''"
| "sentinel_text Organization_ErrNotMember = ''caller is not a member of this organization''"
| "sentinel_text Organization_ErrOwnerLocked =
     ''the owner's membership cannot be changed or removed''"
| "sentinel_text Organization_ErrAlreadyOwner = ''this account already owns an organization''"
| "sentinel_text Organization_ErrInviteSpent =
     ''invitation has already been accepted or revoked''"
| "sentinel_text Organization_ErrInviteStale = ''invitation has expired''"
| "sentinel_text Organization_ErrInviteAddress =
     ''invitation was issued to a different address''"
| "sentinel_text Context_DeadlineExceeded = ''context deadline exceeded''"
| "sentinel_text Context_Canceled = ''context canceled''"
| "sentinel_text Worker_ErrHandlerFailed = ''worker: handler failed''"
| "sentinel_text Worker_ErrResultTooLarge = ''worker: handler result is too large''"
| "sentinel_text App_ErrInvalid = ''invalid app''"
| "sentinel_text App_ErrNotFound = ''app not found''"
| "sentinel_text App_ErrConflict = ''app conflict''"
| "sentinel_text Project_ErrInvalid = ''invalid project''"
| "sentinel_text Project_ErrNotFound = ''project not found''"
| "sentinel_text Project_ErrConflict = ''project conflict''"
| "sentinel_text Account_ErrInvalid = ''invalid account request''"
| "sentinel_text Account_ErrNotFound = ''account resource not found''"
| "sentinel_text Account_ErrConflict = ''account resource conflict''"
| "sentinel_text Session_ErrAccountNotFound = ''account not found''"
| "sentinel_text Session_ErrAccountDisabled = ''account is disabled''"
| "sentinel_text Session_ErrSessionNotFound = ''session not found''"
| "sentinel_text Session_ErrSessionExpired = ''session has expired''"
| "sentinel_text Session_ErrNoOrganization = ''account belongs to no organization''"
| "sentinel_text Session_ErrPasswordTooShort = ''password must be at least 6 characters''"
| "sentinel_text Session_ErrPasswordTooLong = ''password must be at most 72 bytes''"
| "sentinel_text Session_ErrPasswordNotUTF8 = ''password must be valid UTF-8''"
| "sentinel_text Session_ErrHashMalformed = ''password hash is malformed''"
| "sentinel_text Service_ErrInvalidCredentials = ''invalid username or password''"
| "sentinel_text Service_ErrUnknownExecutionToken = ''execution token is not valid''"
| "sentinel_text Github_ErrInvalid = ''invalid github record''"
| "sentinel_text Github_ErrNoInstallation = ''no github installation for this organization''"
| "sentinel_text Github_ErrNotConnected = ''app is not connected to a repository''"
| "sentinel_text Github_ErrNoWebhookSecret = ''github webhook secret is not configured''"
| "sentinel_text Github_ErrSignature = ''github delivery signature is not valid''"
| "sentinel_text Github_ErrNotConfigured = ''github integration is not configured''"
| "sentinel_text Github_ErrNotFound = ''github repository or ref not found''"
| "sentinel_text Github_ErrForbidden =
     ''the installation does not grant access to this repository''"
| "sentinel_text Github_ErrSourceTooBig = ''github source exceeds the configured limit''"
| "sentinel_text Browser_ErrInvalid = ''invalid browser profile request''"
| "sentinel_text Browser_ErrNotFound = ''browser profile not found''"
| "sentinel_text Browser_ErrConflict = ''browser profile conflict''"
| "sentinel_text Browser_ErrSessionNotFound = ''browser session not found''"
| "sentinel_text Browser_ErrUnavailable = ''browser is unavailable''"

datatype error = Plain string | Wrap sentinel string

primrec error_text :: "error \<Rightarrow> string" where
  "error_text (Plain msg) = msg"
| "error_text (Wrap s msg) = msg"

text \<open>\<open>errors.Is(err, sentinel)\<close>.\<close>

primrec errors_is :: "error \<Rightarrow> sentinel \<Rightarrow> bool" where
  "errors_is (Plain msg) s = False"
| "errors_is (Wrap s' msg) s = (s' = s)"

text \<open>A bare sentinel; \<open>fmt.Errorf("%w: detail", sentinel)\<close>; \<open>fmt.Errorf("prefix: %w", err)\<close>.\<close>

definition Bare :: "sentinel \<Rightarrow> error" where
  "Bare s = Wrap s (sentinel_text s)"

definition wrapf :: "sentinel \<Rightarrow> string \<Rightarrow> error" where
  "wrapf s detail = Wrap s (sentinel_text s @ '': '' @ detail)"

primrec annotate :: "string \<Rightarrow> error \<Rightarrow> error" where
  "annotate pre (Plain msg) = Plain (pre @ '': '' @ msg)"
| "annotate pre (Wrap s msg) = Wrap s (pre @ '': '' @ msg)"

lemma errors_is_Bare [simp]: "errors_is (Bare s) s' = (s = s')"
  by (simp add: Bare_def)

lemma errors_is_wrapf [simp]: "errors_is (wrapf s d) s' = (s = s')"
  by (simp add: wrapf_def)

lemma errors_is_annotate [simp]: "errors_is (annotate p e) s = errors_is e s"
  by (cases e) simp_all

text \<open>
  A Go \<open>error\<close> return is an option: \<open>None\<close> is \<open>nil\<close>. A validation function runs its
  checks in order and returns the first error.
\<close>

type_synonym go_err = "error option"

type_synonym 'a result = "error + 'a"

definition guard :: "bool \<Rightarrow> error \<Rightarrow> go_err" where
  "guard c e = (if c then Some e else None)"

fun first_err :: "go_err list \<Rightarrow> go_err" where
  "first_err [] = None"
| "first_err (Some e # es) = Some e"
| "first_err (None # es) = first_err es"

definition rethrow :: "sentinel \<Rightarrow> go_err \<Rightarrow> go_err" where
  "rethrow s err = map_option (\<lambda>e. wrapf s (error_text e)) err"

lemma guard_None [simp]: "guard c e = None \<longleftrightarrow> \<not> c"
  by (simp add: guard_def)

lemma guard_Some [simp]: "guard c e = Some e' \<longleftrightarrow> c \<and> e' = e"
  by (auto simp: guard_def)

lemma guard_True [simp]: "guard True e = Some e"
  by (simp add: guard_def)

lemma guard_False [simp]: "guard False e = None"
  by (simp add: guard_def)

lemma first_err_Cons_None [simp]:
  "first_err (x # xs) = None \<longleftrightarrow> x = None \<and> first_err xs = None"
  by (cases x) simp_all

lemma first_err_append:
  "first_err (xs @ ys) = (case first_err xs of None \<Rightarrow> first_err ys | Some e \<Rightarrow> Some e)"
  by (induction xs rule: first_err.induct) simp_all

lemma first_err_None_iff: "first_err xs = None \<longleftrightarrow> (\<forall>x \<in> set xs. x = None)"
  by (induction xs) simp_all

lemma first_err_Some_mem: "first_err xs = Some e \<Longrightarrow> Some e \<in> set xs"
  by (induction xs rule: first_err.induct) auto

lemma rethrow_None [simp]: "rethrow s err = None \<longleftrightarrow> err = None"
  by (simp add: rethrow_def)

text \<open>
  Sequencing of fallible computations: \<open>if err != nil { return err }\<close> between them, and
  the conversion of an error check into a result.
\<close>

definition rbind :: "'a result \<Rightarrow> ('a \<Rightarrow> 'b result) \<Rightarrow> 'b result" where
  "rbind r f = (case r of Inl e \<Rightarrow> Inl e | Inr x \<Rightarrow> f x)"

definition check :: "go_err \<Rightarrow> 'a result \<Rightarrow> 'a result" where
  "check err k = (case err of Some e \<Rightarrow> Inl e | None \<Rightarrow> k)"

lemma rbind_simps [simp]:
  "rbind (Inl e) f = Inl e"
  "rbind (Inr x) f = f x"
  by (simp_all add: rbind_def)

lemma check_simps [simp]:
  "check None k = k"
  "check (Some e) k = Inl e"
  by (simp_all add: check_def)

lemma rbind_Inr_iff: "rbind r f = Inr y \<longleftrightarrow> (\<exists>x. r = Inr x \<and> f x = Inr y)"
  by (cases r) simp_all

lemma check_Inr_iff [simp]: "check err k = Inr y \<longleftrightarrow> err = None \<and> k = Inr y"
  by (cases err) simp_all

section \<open>Time\<close>

text \<open>
  \<open>time.Time\<close> as nanoseconds since Go's zero time, which is what \<open>IsZero\<close> tests.
  \<open>postgresTime\<close> of the repositories truncates to the microseconds a timestamptz keeps.
\<close>

type_synonym time = int

definition is_zero :: "time \<Rightarrow> bool" where
  "is_zero t \<longleftrightarrow> t = 0"

definition time_truncate :: "time \<Rightarrow> int \<Rightarrow> time" where
  "time_truncate t d = (if d \<le> 0 then t else t - t mod d)"

definition microsecond :: int where
  "microsecond = 1000"

definition second :: int where
  "second = 1000000000"

section \<open>Collections of rules\<close>

named_theorems validate_defs \<open>the checks a validation function runs\<close>
named_theorems step_defs \<open>the operations of a component's state machine\<close>

end
