(* ===== verification/GoStrings.thy ===== *)
theory GoStrings
  imports Prelude
begin

text \<open>
  What the sources use of Go's string type and of the packages \<open>unicode/utf8\<close>,
  \<open>unicode\<close>, \<open>strings\<close> and \<open>path\<close>. A Go string is a sequence of bytes, here a list
  of \<open>char\<close>; its runes are read off by UTF-8 decoding.
\<close>

section \<open>Bytes and UTF-8\<close>

definition byte_val :: "char \<Rightarrow> nat" where
  "byte_val c = of_char c"

lemma byte_val_less [simp]: "byte_val c < 256"
  by (simp add: byte_val_def)

lemma byte_val_inject [simp]: "byte_val c = byte_val d \<longleftrightarrow> c = d"
  by (simp add: byte_val_def)

definition is_cont :: "char \<Rightarrow> bool" where
  "is_cont c \<longleftrightarrow> 128 \<le> byte_val c \<and> byte_val c \<le> 191"

text \<open>
  One step of decoding: the rune at the front and the bytes it takes, or \<open>None\<close> where
  the bytes are not the encoding of a rune (overlong forms and surrogates are not).
\<close>

fun utf8_next :: "string \<Rightarrow> (nat \<times> nat) option" where
  "utf8_next [] = None"
| "utf8_next (a # s) =
     (let x = byte_val a in
      if x < 128 then Some (x, 1)
      else if 194 \<le> x \<and> x \<le> 223 then
        (case s of
           b # _ \<Rightarrow> if is_cont b then Some ((x - 192) * 64 + (byte_val b - 128), 2) else None
         | _ \<Rightarrow> None)
      else if 224 \<le> x \<and> x \<le> 239 then
        (case s of
           b # c # _ \<Rightarrow>
             if is_cont b \<and> is_cont c
                \<and> (x = 224 \<longrightarrow> 160 \<le> byte_val b) \<and> (x = 237 \<longrightarrow> byte_val b \<le> 159)
             then Some ((x - 224) * 4096 + (byte_val b - 128) * 64 + (byte_val c - 128), 3)
             else None
         | _ \<Rightarrow> None)
      else if 240 \<le> x \<and> x \<le> 244 then
        (case s of
           b # c # d # _ \<Rightarrow>
             if is_cont b \<and> is_cont c \<and> is_cont d
                \<and> (x = 240 \<longrightarrow> 144 \<le> byte_val b) \<and> (x = 244 \<longrightarrow> byte_val b \<le> 143)
             then Some ((x - 240) * 262144 + (byte_val b - 128) * 4096
                        + (byte_val c - 128) * 64 + (byte_val d - 128), 4)
             else None
         | _ \<Rightarrow> None)
      else None)"

declare utf8_next.simps [simp del]

lemma utf8_next_Nil [simp]: "utf8_next [] = None"
  by (simp add: utf8_next.simps)

lemma utf8_next_width: "utf8_next s = Some (r, w) \<Longrightarrow> 1 \<le> w \<and> w \<le> length s"
  by (cases s) (auto simp: utf8_next.simps Let_def split: if_splits list.splits)

lemma utf8_next_ascii [simp]:
  "byte_val a < 128 \<Longrightarrow> utf8_next (a # s) = Some (byte_val a, 1)"
  by (simp add: utf8_next.simps Let_def)

text \<open>\<open>utf8.ValidString\<close>, and the runes \<open>range\<close> visits: an invalid byte is U+FFFD.\<close>

function valid_utf8 :: "string \<Rightarrow> bool" where
  "valid_utf8 s =
     (if s = [] then True
      else case utf8_next s of None \<Rightarrow> False | Some (r, w) \<Rightarrow> valid_utf8 (drop w s))"
  by pat_completeness auto
termination
  by (relation "measure length") (auto dest!: utf8_next_width)

function runes :: "string \<Rightarrow> nat list" where
  "runes s =
     (if s = [] then []
      else case utf8_next s of
             None \<Rightarrow> 65533 # runes (tl s)
           | Some (r, w) \<Rightarrow> r # runes (drop w s))"
  by pat_completeness auto
termination
  by (relation "measure length") (auto dest!: utf8_next_width)

declare valid_utf8.simps [simp del] runes.simps [simp del]

lemma valid_utf8_Nil [simp]: "valid_utf8 []"
  by (simp add: valid_utf8.simps)

lemma runes_Nil [simp]: "runes [] = []"
  by (simp add: runes.simps)

definition is_ascii :: "string \<Rightarrow> bool" where
  "is_ascii s \<longleftrightarrow> list_all (\<lambda>c. byte_val c < 128) s"

lemma is_ascii_simps [simp]:
  "is_ascii []"
  "is_ascii (c # s) \<longleftrightarrow> byte_val c < 128 \<and> is_ascii s"
  "is_ascii (s @ t) \<longleftrightarrow> is_ascii s \<and> is_ascii t"
  by (simp_all add: is_ascii_def)

lemma valid_utf8_ascii_Cons [simp]:
  "byte_val c < 128 \<Longrightarrow> valid_utf8 (c # s) = valid_utf8 s"
  by (simp add: valid_utf8.simps [of "c # s"])

lemma runes_ascii_Cons [simp]:
  "byte_val c < 128 \<Longrightarrow> runes (c # s) = byte_val c # runes s"
  by (simp add: runes.simps [of "c # s"])

lemma is_ascii_valid_utf8: "is_ascii s \<Longrightarrow> valid_utf8 s"
  by (induction s) auto

lemma is_ascii_runes: "is_ascii s \<Longrightarrow> runes s = map byte_val s"
  by (induction s) auto

text \<open>A rune below 128 can only come from the byte with that value.\<close>

lemma utf8_next_small:
  "utf8_next (c # s) = Some (r, w) \<Longrightarrow> r < 128 \<Longrightarrow> r = byte_val c \<and> w = 1"
  by (auto simp: utf8_next.simps Let_def is_cont_def split: if_splits list.splits)

text \<open>Conversely every byte below 128 shows up as a rune: it is no continuation byte.\<close>

lemma utf8_next_drop_bytes:
  assumes "utf8_next s = Some (r, w)" and "c \<in> set (take w s)" and "byte_val c < 128"
  shows "r = byte_val c \<and> w = 1"
  using assms by (cases s) (auto simp: utf8_next.simps Let_def is_cont_def
      split: if_splits list.splits)

lemma ascii_byte_in_runes:
  "c \<in> set s \<Longrightarrow> byte_val c < 128 \<Longrightarrow> byte_val c \<in> set (runes s)"
proof (induction s rule: runes.induct)
  case (1 s)
  show ?case
  proof (cases "utf8_next s")
    case None
    from 1(3) have "s \<noteq> []" by auto
    with None have rs: "runes s = 65533 # runes (tl s)" by (subst runes.simps) simp
    from \<open>s \<noteq> []\<close> obtain a t where s: "s = a # t" by (cases s) auto
    with None 1(4) have "c \<noteq> a" using utf8_next_ascii [of a t] by auto
    with 1(3) s have "c \<in> set (tl s)" by auto
    with 1(1) None \<open>s \<noteq> []\<close> 1(4) rs show ?thesis by auto
  next
    case (Some p)
    obtain r w where p: "p = (r, w)" by force
    from 1(3) have ne: "s \<noteq> []" by auto
    with Some p have rs: "runes s = r # runes (drop w s)" by (subst runes.simps) simp
    show ?thesis
    proof (cases "c \<in> set (take w s)")
      case True
      with Some p 1(4) have "r = byte_val c" using utf8_next_drop_bytes by blast
      then show ?thesis using rs by simp
    next
      case False
      with 1(3) have "c \<in> set (drop w s)"
        by (metis Un_iff append_take_drop_id set_append)
      with 1(2) [OF ne Some p [symmetric]] 1(4) rs show ?thesis by simp
    qed
  qed
qed

text \<open>
  What a string becomes when \<open>json.Marshal\<close> writes it and \<open>json.Unmarshal\<close> reads it back:
  every byte that is not part of a rune is replaced by the three bytes of U+FFFD.
\<close>

definition rune_error_bytes :: string where
  "rune_error_bytes = [CHR 0xEF, CHR 0xBF, CHR 0xBD]"

function sanitize :: "string \<Rightarrow> string" where
  "sanitize s =
     (if s = [] then []
      else case utf8_next s of
             None \<Rightarrow> rune_error_bytes @ sanitize (tl s)
           | Some (r, w) \<Rightarrow> take w s @ sanitize (drop w s))"
  by pat_completeness auto
termination
  by (relation "measure length") (auto dest!: utf8_next_width)

declare sanitize.simps [simp del]

lemma sanitize_Nil [simp]: "sanitize [] = []"
  by (simp add: sanitize.simps)

lemma sanitize_valid: "valid_utf8 s \<Longrightarrow> sanitize s = s"
proof (induction s rule: valid_utf8.induct)
  case (1 s)
  show ?case
  proof (cases "s = []")
    case False
    with 1(2) obtain r w where n: "utf8_next s = Some (r, w)"
      by (subst (asm) valid_utf8.simps) (auto split: option.splits)
    with False 1(2) have "valid_utf8 (drop w s)" by (subst (asm) valid_utf8.simps) simp
    with 1(1) [OF False n] n have "sanitize (drop w s) = drop w s" by simp
    with False n show ?thesis by (subst sanitize.simps) simp
  qed simp
qed

lemma sanitize_length: "length s \<le> length (sanitize s)"
proof (induction s rule: sanitize.induct)
  case (1 s)
  show ?case
  proof (cases "utf8_next s")
    case None
    with 1(1) show ?thesis
      by (subst sanitize.simps) (auto simp: rune_error_bytes_def)
  next
    case (Some p)
    obtain r w where p: "p = (r, w)" by force
    show ?thesis
    proof (cases "s = []")
      case False
      with 1(2) [OF False Some p [symmetric]] Some p show ?thesis
        by (subst sanitize.simps) (use utf8_next_width [of s r w] in auto)
    qed simp
  qed
qed

lemma sanitize_grows: "\<not> valid_utf8 s \<Longrightarrow> length s + 2 \<le> length (sanitize s)"
proof (induction s rule: sanitize.induct)
  case (1 s)
  from 1(3) have ne: "s \<noteq> []" by auto
  show ?case
  proof (cases "utf8_next s")
    case None
    with ne sanitize_length [of "tl s"] show ?thesis
      by (subst sanitize.simps) (auto simp: rune_error_bytes_def)
  next
    case (Some p)
    obtain r w where p: "p = (r, w)" by force
    with Some ne 1(3) have "\<not> valid_utf8 (drop w s)" by (simp add: valid_utf8.simps [of s])
    with 1(2) [OF ne Some p [symmetric]] Some p ne show ?thesis
      by (subst sanitize.simps) (use utf8_next_width [of s r w] in auto)
  qed
qed

section \<open>Package unicode\<close>

text \<open>
  \<open>unicode.IsControl\<close> (category Cc, all of it in Latin-1) and \<open>unicode.IsSpace\<close>
  (the White_Space property).
\<close>

definition is_control :: "nat \<Rightarrow> bool" where
  "is_control r \<longleftrightarrow> r < 32 \<or> (127 \<le> r \<and> r < 160)"

definition is_space :: "nat \<Rightarrow> bool" where
  "is_space r \<longleftrightarrow>
     (9 \<le> r \<and> r \<le> 13) \<or> r = 32 \<or> r = 133 \<or> r = 160 \<or> r = 5760
     \<or> (8192 \<le> r \<and> r \<le> 8202) \<or> r = 8232 \<or> r = 8233 \<or> r = 8239 \<or> r = 8287 \<or> r = 12288"

definition has_control :: "string \<Rightarrow> bool" where
  "has_control s \<longleftrightarrow> list_ex is_control (runes s)"

section \<open>Package strings\<close>

text \<open>
  The encodings of the white space runes. \<open>strings.TrimSpace\<close> removes them from both ends:
  the rune decoded at the front (at the back) is white space exactly when the string
  starts (ends) with one of these byte sequences.
\<close>

definition space_encodings :: "string list" where
  "space_encodings =
     [[CHR 0x09], [CHR 0x0A], [CHR 0x0B], [CHR 0x0C], [CHR 0x0D], [CHR 0x20],
      [CHR 0xC2, CHR 0x85], [CHR 0xC2, CHR 0xA0], [CHR 0xE1, CHR 0x9A, CHR 0x80],
      [CHR 0xE2, CHR 0x80, CHR 0x80], [CHR 0xE2, CHR 0x80, CHR 0x81],
      [CHR 0xE2, CHR 0x80, CHR 0x82], [CHR 0xE2, CHR 0x80, CHR 0x83],
      [CHR 0xE2, CHR 0x80, CHR 0x84], [CHR 0xE2, CHR 0x80, CHR 0x85],
      [CHR 0xE2, CHR 0x80, CHR 0x86], [CHR 0xE2, CHR 0x80, CHR 0x87],
      [CHR 0xE2, CHR 0x80, CHR 0x88], [CHR 0xE2, CHR 0x80, CHR 0x89],
      [CHR 0xE2, CHR 0x80, CHR 0x8A], [CHR 0xE2, CHR 0x80, CHR 0xA8],
      [CHR 0xE2, CHR 0x80, CHR 0xA9], [CHR 0xE2, CHR 0x80, CHR 0xAF],
      [CHR 0xE2, CHR 0x81, CHR 0x9F], [CHR 0xE3, CHR 0x80, CHR 0x80]]"

definition leading_space :: "string \<Rightarrow> string option" where
  "leading_space s = find (\<lambda>e. prefix e s) space_encodings"

definition trailing_space :: "string \<Rightarrow> string option" where
  "trailing_space s = find (\<lambda>e. suffix e s) space_encodings"

lemma space_encodings_nonempty: "e \<in> set space_encodings \<Longrightarrow> e \<noteq> []"
  by (auto simp: space_encodings_def)

lemma Nil_not_space_encoding [simp]: "[] \<notin> set space_encodings"
  using space_encodings_nonempty by blast

lemma find_Some_mem: "find P xs = Some x \<Longrightarrow> x \<in> set xs \<and> P x"
  by (auto simp: find_Some_iff)

lemma leading_space_Some:
  "leading_space s = Some e \<Longrightarrow> e \<in> set space_encodings \<and> prefix e s \<and> e \<noteq> [] \<and> s \<noteq> []"
  using space_encodings_nonempty by (auto simp: leading_space_def dest!: find_Some_mem)

lemma trailing_space_Some:
  "trailing_space s = Some e \<Longrightarrow> e \<in> set space_encodings \<and> suffix e s \<and> e \<noteq> [] \<and> s \<noteq> []"
  using space_encodings_nonempty by (auto simp: trailing_space_def dest!: find_Some_mem)

function trim_left_space :: "string \<Rightarrow> string" where
  "trim_left_space s =
     (case leading_space s of None \<Rightarrow> s | Some e \<Rightarrow> trim_left_space (drop (length e) s))"
  by pat_completeness auto
termination
  by (relation "measure length") (auto dest!: leading_space_Some)

function trim_right_space :: "string \<Rightarrow> string" where
  "trim_right_space s =
     (case trailing_space s of
        None \<Rightarrow> s | Some e \<Rightarrow> trim_right_space (take (length s - length e) s))"
  by pat_completeness auto
termination
  by (relation "measure length") (auto dest!: trailing_space_Some simp: suffix_length_le)

declare trim_left_space.simps [simp del] trim_right_space.simps [simp del]

definition trim_space :: "string \<Rightarrow> string" where
  "trim_space s = trim_right_space (trim_left_space s)"

lemma trim_left_suffix: "suffix (trim_left_space s) s"
proof (induction s rule: trim_left_space.induct)
  case (1 s)
  show ?case
  proof (cases "leading_space s")
    case None
    then show ?thesis by (subst trim_left_space.simps) simp
  next
    case (Some e)
    with 1 have "suffix (trim_left_space (drop (length e) s)) (drop (length e) s)" by simp
    then have "suffix (trim_left_space (drop (length e) s)) s"
      using suffix_drop suffix_order.trans by blast
    with Some show ?thesis by (subst trim_left_space.simps) simp
  qed
qed

lemma trim_right_prefix: "prefix (trim_right_space s) s"
proof (induction s rule: trim_right_space.induct)
  case (1 s)
  show ?case
  proof (cases "trailing_space s")
    case None
    then show ?thesis by (subst trim_right_space.simps) simp
  next
    case (Some e)
    with 1 have "prefix (trim_right_space (take (length s - length e) s))
        (take (length s - length e) s)" by simp
    then have "prefix (trim_right_space (take (length s - length e) s)) s"
      using take_is_prefix prefix_order.trans by blast
    with Some show ?thesis by (subst trim_right_space.simps) simp
  qed
qed

lemma set_trim_space: "set (trim_space s) \<subseteq> set s"
  unfolding trim_space_def
  using trim_left_suffix [of s] trim_right_prefix [of "trim_left_space s"]
  by (meson set_mono_prefix set_mono_suffix subset_trans)

lemma length_trim_space: "length (trim_space s) \<le> length s"
  unfolding trim_space_def
  using trim_left_suffix [of s] trim_right_prefix [of "trim_left_space s"]
  by (meson le_trans prefix_length_le suffix_length_le)

text \<open>A trimmed string neither starts nor ends with white space, so trimming is idempotent.\<close>

lemma leading_space_trim_left [simp]: "leading_space (trim_left_space s) = None"
proof (induction s rule: trim_left_space.induct)
  case (1 s)
  then show ?case
    by (subst trim_left_space.simps) (auto split: option.split)
qed

lemma trailing_space_trim_right [simp]: "trailing_space (trim_right_space s) = None"
proof (induction s rule: trim_right_space.induct)
  case (1 s)
  then show ?case
    by (subst trim_right_space.simps) (auto split: option.split)
qed

lemma leading_space_None_iff:
  "leading_space s = None \<longleftrightarrow> (\<forall>e \<in> set space_encodings. \<not> prefix e s)"
  by (auto simp: leading_space_def find_None_iff)

lemma leading_space_prefix:
  "leading_space s = None \<Longrightarrow> prefix t s \<Longrightarrow> leading_space t = None"
  unfolding leading_space_None_iff using prefix_order.trans by blast

lemma leading_space_trim [simp]: "leading_space (trim_space s) = None"
  unfolding trim_space_def
  using leading_space_prefix [OF leading_space_trim_left trim_right_prefix] .

lemma trailing_space_trim [simp]: "trailing_space (trim_space s) = None"
  by (simp add: trim_space_def)

lemma trim_space_id: "leading_space s = None \<Longrightarrow> trailing_space s = None \<Longrightarrow> trim_space s = s"
  by (simp add: trim_space_def trim_left_space.simps [of s] trim_right_space.simps [of s])

lemma trim_space_idem [simp]: "trim_space (trim_space s) = trim_space s"
  by (rule trim_space_id) simp_all

lemma trim_space_Nil [simp]: "trim_space [] = []"
  using length_trim_space [of "[]"] by simp

text \<open>
  A string that starts with something other than white space does not trim to nothing:
  what \<open>trim_right_space\<close> removes is made of white space, its first byte included.
\<close>

lemma trim_right_Nil_leading:
  "trim_right_space s = [] \<Longrightarrow> s \<noteq> [] \<Longrightarrow> leading_space s \<noteq> None"
proof (induction s rule: trim_right_space.induct)
  case (1 s)
  from 1(2,3) obtain e where e: "trailing_space s = Some e"
    by (cases "trailing_space s") (simp_all add: trim_right_space.simps [of s])
  then have mem: "e \<in> set space_encodings" "suffix e s" by (auto dest: trailing_space_Some)
  let ?t = "take (length s - length e) s"
  have t: "trim_right_space ?t = []" using 1(2) trim_right_space.simps [of s] e by simp
  show ?case
  proof (cases "?t = []")
    case True
    with 1(3) mem(2) have "s = e" by (auto simp: suffix_def)
    with mem(1) show ?thesis by (auto simp: leading_space_None_iff)
  next
    case False
    with 1(1) [OF e t] have "leading_space ?t \<noteq> None" by simp
    then show ?thesis using leading_space_prefix [OF _ take_is_prefix] by metis
  qed
qed

lemma trim_space_nonempty: "leading_space s = None \<Longrightarrow> s \<noteq> [] \<Longrightarrow> trim_space s \<noteq> []"
  using trim_right_Nil_leading [of s]
  by (auto simp: trim_space_def trim_left_space.simps [of s])

lemma trim_space_blank_iff: "trim_space s = [] \<longleftrightarrow> trim_left_space s = []"
  using trim_right_Nil_leading [of "trim_left_space s"] trim_right_prefix [of "trim_left_space s"]
  by (auto simp: trim_space_def)

text \<open>The bytes an encoding of white space can start or end with.\<close>

lemma space_encoding_hd:
  "e \<in> set space_encodings \<Longrightarrow>
     byte_val (hd e) \<in> {9, 10, 11, 12, 13, 32, 194, 225, 226, 227}"
  by (auto simp: space_encodings_def byte_val_def)

lemma space_encoding_last:
  "e \<in> set space_encodings \<Longrightarrow> byte_val (last e) \<in> {9, 10, 11, 12, 13, 32} \<union> {128..191}"
  by (auto simp: space_encodings_def byte_val_def)

lemma leading_space_hd:
  "byte_val c \<notin> {9, 10, 11, 12, 13, 32, 194, 225, 226, 227} \<Longrightarrow> leading_space (c # s) = None"
  unfolding leading_space_None_iff
  by (metis hd_Cons_tl list.sel(1) prefix_Cons space_encoding_hd space_encodings_nonempty)

lemma trailing_space_last:
  "byte_val c \<notin> {9, 10, 11, 12, 13, 32} \<union> {128..191} \<Longrightarrow> trailing_space (s @ [c]) = None"
  unfolding trailing_space_def find_None_iff
  by (metis append_butlast_last_id last_snoc suffix_snoc space_encoding_last
      space_encodings_nonempty)

definition visible_ascii :: "string \<Rightarrow> bool" where
  "visible_ascii s \<longleftrightarrow> list_all (\<lambda>c. 33 \<le> byte_val c \<and> byte_val c < 127) s"

lemma visible_ascii_simps [simp]:
  "visible_ascii []"
  "visible_ascii (c # s) \<longleftrightarrow> 33 \<le> byte_val c \<and> byte_val c < 127 \<and> visible_ascii s"
  "visible_ascii (s @ t) \<longleftrightarrow> visible_ascii s \<and> visible_ascii t"
  by (auto simp: visible_ascii_def)

lemma visible_ascii_is_ascii: "visible_ascii s \<Longrightarrow> is_ascii s"
  by (induction s) auto

lemma visible_ascii_trim: "visible_ascii s \<Longrightarrow> trim_space s = s"
proof -
  assume v: "visible_ascii s"
  have "leading_space s = None"
    using v by (cases s) (simp_all add: leading_space_hd leading_space_None_iff
        space_encodings_nonempty)
  moreover have "trailing_space s = None"
  proof (cases s rule: rev_cases)
    case Nil
    then show ?thesis
      by (simp add: trailing_space_def find_None_iff space_encodings_nonempty)
  next
    case (snoc t c)
    with v show ?thesis by (simp add: trailing_space_last)
  qed
  ultimately show ?thesis by (rule trim_space_id)
qed

lemma visible_ascii_no_control: "visible_ascii s \<Longrightarrow> \<not> has_control s"
  by (auto simp: has_control_def is_ascii_runes visible_ascii_is_ascii list_ex_iff is_control_def
      visible_ascii_def list_all_iff)

text \<open>
  \<open>strings.Split(s, sep)\<close> for a one byte separator, \<open>strings.Cut\<close>, \<open>strings.Join\<close>,
  \<open>strings.Contains\<close> of one byte, \<open>strings.HasPrefix\<close> and \<open>HasSuffix\<close>.
\<close>

fun split_on :: "char \<Rightarrow> string \<Rightarrow> string list" where
  "split_on d [] = [[]]"
| "split_on d (c # s) =
     (if c = d then [] # split_on d s
      else case split_on d s of [] \<Rightarrow> [[c]] | p # ps \<Rightarrow> (c # p) # ps)"

fun join_with :: "string \<Rightarrow> string list \<Rightarrow> string" where
  "join_with sep [] = []"
| "join_with sep [p] = p"
| "join_with sep (p # q # ps) = p @ sep @ join_with sep (q # ps)"

fun cut :: "char \<Rightarrow> string \<Rightarrow> string \<times> string \<times> bool" where
  "cut d [] = ([], [], False)"
| "cut d (c # s) =
     (if c = d then ([], s, True) else let (b, a, f) = cut d s in (c # b, a, f))"

definition has_prefix :: "string \<Rightarrow> string \<Rightarrow> bool" where
  "has_prefix s p \<longleftrightarrow> take (length p) s = p"

definition has_suffix :: "string \<Rightarrow> string \<Rightarrow> bool" where
  "has_suffix s p \<longleftrightarrow> length p \<le> length s \<and> drop (length s - length p) s = p"

definition contains_any :: "string \<Rightarrow> string \<Rightarrow> bool" where
  "contains_any s cs \<longleftrightarrow> list_ex (\<lambda>c. c \<in> set cs) s"

lemma split_on_not_Nil [simp]: "split_on d s \<noteq> []"
  by (cases s) (auto split: list.split)

lemma join_split [simp]: "join_with [d] (split_on d s) = s"
proof (induction s)
  case (Cons c s)
  obtain p ps where ps: "split_on d s = p # ps" by (cases "split_on d s") auto
  show ?case
  proof (cases "c = d")
    case True
    with ps Cons show ?thesis by simp
  next
    case False
    with ps Cons show ?thesis by (cases ps) simp_all
  qed
qed simp

lemma split_on_no_sep: "p \<in> set (split_on d s) \<Longrightarrow> d \<notin> set p"
proof (induction s arbitrary: p)
  case (Cons c s)
  obtain q qs where qs: "split_on d s = q # qs" by (cases "split_on d s") auto
  with Cons show ?case by (auto split: if_splits)
qed simp

lemma split_on_single: "d \<notin> set p \<Longrightarrow> split_on d p = [p]"
  by (induction p) auto

lemma split_on_append:
  "d \<notin> set p \<Longrightarrow> split_on d (p @ d # s) = p # split_on d s"
  by (induction p) auto

lemma split_on_append_sep: "split_on d (t @ d # s) = split_on d t @ split_on d s"
proof (induction t)
  case (Cons c t)
  obtain p ps where "split_on d t = p # ps" by (cases "split_on d t") auto
  with Cons show ?case by simp
qed simp

lemma split_join:
  "ps \<noteq> [] \<Longrightarrow> (\<forall>p \<in> set ps. d \<notin> set p) \<Longrightarrow> split_on d (join_with [d] ps) = ps"
  by (induction "[d]" ps rule: join_with.induct) (auto simp: split_on_single split_on_append)

lemma has_prefix_iff: "has_prefix s p \<longleftrightarrow> prefix p s"
  by (metis has_prefix_def prefix_def append_take_drop_id append_eq_conv_conj)

lemma has_suffix_iff: "has_suffix s p \<longleftrightarrow> suffix p s"
  unfolding has_suffix_def suffix_def
  by (metis append_eq_conv_conj append_take_drop_id diff_add_inverse2 le_add2 length_append)

lemma cut_spec:
  "cut d s = (b, a, f) \<Longrightarrow>
     d \<notin> set b \<and> (if f then s = b @ d # a else s = b \<and> a = [] \<and> d \<notin> set s)"
  by (induction s arbitrary: b a f) (auto split: if_splits prod.splits)

end
