(* ===== verification/GoPaths.thy ===== *)
theory GoPaths
  imports GoStrings
begin

text \<open>
  The lexical path functions of Go's \<open>path\<close> and \<open>path/filepath\<close> (on a Unix host, where
  \<open>FromSlash\<close> is the identity), and comparison of \<open>strings.ToUpper\<close> and
  \<open>strings.ToLower\<close> results with ASCII literals.
\<close>

section \<open>Case folding against ASCII literals\<close>

text \<open>
  Outside ASCII only U+0131 and U+017F have an ASCII upper case and only U+0130 and
  U+212A an ASCII lower case. A rune that maps to no ASCII rune is kept as it is: the
  results here are only ever compared with ASCII text.
\<close>

definition rune_upper :: "nat \<Rightarrow> nat" where
  "rune_upper r =
     (if 97 \<le> r \<and> r \<le> 122 then r - 32 else if r = 305 then 73 else if r = 383 then 83 else r)"

definition rune_lower :: "nat \<Rightarrow> nat" where
  "rune_lower r =
     (if 65 \<le> r \<and> r \<le> 90 then r + 32 else if r = 304 then 105 else if r = 8490 then 107 else r)"

definition upper_is :: "string \<Rightarrow> string \<Rightarrow> bool" where
  "upper_is s lit \<longleftrightarrow> map rune_upper (runes s) = map byte_val lit"

definition lower_is :: "string \<Rightarrow> string \<Rightarrow> bool" where
  "lower_is s lit \<longleftrightarrow> map rune_lower (runes s) = map byte_val lit"

section \<open>path.Clean and path.Dir\<close>

definition sl :: char where
  "sl = CHR 0x2F"

fun clean_components :: "bool \<Rightarrow> string list \<Rightarrow> string list \<Rightarrow> string list" where
  "clean_components rooted acc [] = rev acc"
| "clean_components rooted acc (p # ps) =
     (if p = [] \<or> p = ''.'' then clean_components rooted acc ps
      else if p = ''..'' then
        (case acc of
           [] \<Rightarrow> if rooted then clean_components rooted [] ps
                 else clean_components rooted [''..''] ps
         | a # as \<Rightarrow> if a = ''..'' then clean_components rooted (''..'' # acc) ps
                     else clean_components rooted as ps)
      else clean_components rooted (p # acc) ps)"

definition is_abs :: "string \<Rightarrow> bool" where
  "is_abs s \<longleftrightarrow> has_prefix s [sl]"

definition path_clean :: "string \<Rightarrow> string" where
  "path_clean s =
     (if s = [] then ''.''
      else let body = join_with [sl] (clean_components (is_abs s) [] (split_on sl s)) in
        if is_abs s then sl # body else if body = [] then ''.'' else body)"

definition path_dir :: "string \<Rightarrow> string" where
  "path_dir s =
     (let ps = split_on sl s in
      if length ps = 1 then path_clean []
      else path_clean (join_with [sl] (butlast ps) @ [sl]))"

text \<open>A component that is neither empty nor special and has no separator survives cleaning.\<close>

definition normal_component :: "string \<Rightarrow> bool" where
  "normal_component p \<longleftrightarrow> p \<noteq> [] \<and> p \<noteq> ''.'' \<and> p \<noteq> ''..'' \<and> sl \<notin> set p"

lemma normal_componentD:
  "normal_component p \<Longrightarrow> p \<noteq> [] \<and> p \<noteq> ''.'' \<and> p \<noteq> ''..'' \<and> sl \<notin> set p"
  by (simp add: normal_component_def)

lemma clean_components_normal:
  "list_all normal_component ps \<Longrightarrow> clean_components r acc ps = rev acc @ ps"
  by (induction ps arbitrary: acc) (auto dest: normal_componentD)

lemma clean_components_append_normal:
  "list_all normal_component ps \<Longrightarrow>
     clean_components r acc (ps @ qs) = clean_components r (rev ps @ acc) qs"
  by (induction ps arbitrary: acc) (auto dest: normal_componentD)

lemma join_with_Nil_iff:
  "ps \<noteq> [] \<Longrightarrow> list_all normal_component ps \<Longrightarrow> join_with [sl] ps \<noteq> []"
  by (induction "[sl]" ps rule: join_with.induct) (auto dest: normal_componentD)

lemma join_with_hd:
  "ps \<noteq> [] \<Longrightarrow> list_all normal_component ps \<Longrightarrow> hd (join_with [sl] ps) \<noteq> sl"
  by (induction "[sl]" ps rule: join_with.induct)
     (auto dest!: normal_componentD simp: hd_append dest: list.set_sel(1))

lemma is_abs_join:
  "ps \<noteq> [] \<Longrightarrow> list_all normal_component ps \<Longrightarrow> \<not> is_abs (join_with [sl] ps)"
  using join_with_hd [of ps] join_with_Nil_iff [of ps]
  by (cases "join_with [sl] ps") (auto simp: is_abs_def has_prefix_def)

lemma split_join_normal:
  "ps \<noteq> [] \<Longrightarrow> list_all normal_component ps \<Longrightarrow> split_on sl (join_with [sl] ps) = ps"
  by (rule split_join) (auto simp: list_all_iff normal_component_def)

text \<open>A relative path whose components are all normal is already clean.\<close>

lemma path_clean_normal:
  assumes "ps \<noteq> []" and "list_all normal_component ps"
  shows "path_clean (join_with [sl] ps) = join_with [sl] ps"
  using assms join_with_Nil_iff [OF assms] is_abs_join [OF assms] split_join_normal [OF assms]
  by (simp add: path_clean_def clean_components_normal)

section \<open>filepath.Join and filepath.Rel\<close>

definition filepath_join :: "string \<Rightarrow> string \<Rightarrow> string" where
  "filepath_join a b =
     (if a = [] \<and> b = [] then []
      else if a = [] then path_clean b
      else if b = [] then path_clean a
      else path_clean (a @ [sl] @ b))"

text \<open>The components of a cleaned path; \<open>"."\<close> has none.\<close>

definition path_parts :: "string \<Rightarrow> string list" where
  "path_parts s = clean_components (is_abs s) [] (split_on sl s)"

fun strip_common :: "string list \<Rightarrow> string list \<Rightarrow> string list \<times> string list" where
  "strip_common (a # as) (b # bs) =
     (if a = b then strip_common as bs else (a # as, b # bs))"
| "strip_common as bs = (as, bs)"

text \<open>
  \<open>filepath.Rel(base, target)\<close>: \<open>None\<close> is its error, for paths of which only one is
  absolute and for a base that climbs above the common part.
\<close>

definition filepath_rel :: "string \<Rightarrow> string \<Rightarrow> string option" where
  "filepath_rel base target =
     (if path_clean base = path_clean target then Some ''.''
      else if is_abs base \<noteq> is_abs target then None
      else let (b, t) = strip_common (path_parts base) (path_parts target) in
        if b \<noteq> [] \<and> hd b = ''..'' then None
        else Some (join_with [sl] (replicate (length b) ''..'' @ t)))"

text \<open>A cleaned absolute directory, by its components.\<close>

definition abs_path :: "string list \<Rightarrow> string" where
  "abs_path cs = sl # join_with [sl] cs"

lemma is_abs_abs_path [simp]: "is_abs (abs_path cs)"
  by (simp add: abs_path_def is_abs_def has_prefix_def)

lemma join_with_append:
  "ps \<noteq> [] \<Longrightarrow> qs \<noteq> [] \<Longrightarrow> join_with sep (ps @ qs) = join_with sep ps @ sep @ join_with sep qs"
proof (induction sep ps rule: join_with.induct)
  case (2 sep p)
  then show ?case by (cases qs) simp_all
qed simp_all

lemma split_abs_path:
  "list_all normal_component cs \<Longrightarrow>
     split_on sl (abs_path cs) = [] # (if cs = [] then [[]] else cs)"
  by (auto simp: abs_path_def split_join_normal)

lemma path_parts_abs_path:
  "list_all normal_component cs \<Longrightarrow> path_parts (abs_path cs) = cs"
  by (simp add: path_parts_def split_abs_path clean_components_normal)

lemma path_clean_abs_path:
  "list_all normal_component cs \<Longrightarrow> path_clean (abs_path cs) = abs_path cs"
proof -
  assume cs: "list_all normal_component cs"
  have "abs_path cs \<noteq> []" by (simp add: abs_path_def)
  with cs show ?thesis
    by (simp add: path_clean_def split_abs_path clean_components_normal) (simp add: abs_path_def)
qed

lemma filepath_join_abs:
  assumes cs: "list_all normal_component cs" and ps: "ps \<noteq> []" "list_all normal_component ps"
  shows "filepath_join (abs_path cs) (join_with [sl] ps) = abs_path (cs @ ps)"
proof -
  let ?j = "abs_path cs @ [sl] @ join_with [sl] ps"
  have ne: "join_with [sl] ps \<noteq> []" using ps by (rule join_with_Nil_iff)
  have abs: "is_abs ?j" by (simp add: abs_path_def is_abs_def has_prefix_def)
  have sp: "split_on sl ?j = [] # (if cs = [] then [[]] else cs) @ ps"
  proof (cases "cs = []")
    case True
    with ps show ?thesis by (simp add: abs_path_def split_join_normal)
  next
    case False
    have "?j = sl # join_with [sl] (cs @ ps)"
      using False ps(1) by (simp add: abs_path_def join_with_append)
    with False cs ps show ?thesis by (simp add: split_join_normal)
  qed
  have "clean_components True [] (split_on sl ?j) = cs @ ps"
    using sp cs ps(2) by (simp add: clean_components_normal)
  then have "path_clean ?j = abs_path (cs @ ps)"
    using abs by (simp add: path_clean_def Let_def) (simp add: abs_path_def)
  moreover have "abs_path cs \<noteq> []" by (simp add: abs_path_def)
  ultimately show ?thesis using ne by (simp add: filepath_join_def)
qed

lemma strip_common_append: "strip_common cs (cs @ ps) = ([], ps)"
  by (induction cs) (cases ps, simp_all)

lemma abs_path_inject:
  assumes "list_all normal_component cs" "list_all normal_component ds"
  shows "abs_path cs = abs_path ds \<longleftrightarrow> cs = ds"
  using path_parts_abs_path assms by metis

lemma filepath_rel_below:
  assumes cs: "list_all normal_component cs" and ps: "ps \<noteq> []" "list_all normal_component ps"
  shows "filepath_rel (abs_path cs) (abs_path (cs @ ps)) = Some (join_with [sl] ps)"
proof -
  have all: "list_all normal_component (cs @ ps)" using cs ps(2) by simp
  have ne: "path_clean (abs_path cs) \<noteq> path_clean (abs_path (cs @ ps))"
    using cs ps(1) all by (simp add: path_clean_abs_path abs_path_inject)
  show ?thesis
    using ne cs all
    by (simp add: filepath_rel_def path_parts_abs_path strip_common_append)
qed

end
