(* ===== verification/Ids.thy ===== *)
theory Ids
  imports GoPaths
begin

text \<open>
  Package \<open>internal/ids\<close>: minting of record identifiers (a prefix, a 48 bit time stamp and
  80 random bits in Crockford's base 32) and the validation every record runs its
  identifiers through. Identifiers become storage keys and file names, so the theorems say
  what a valid one cannot contain, that every minted one is valid, and that minted
  identifiers decode and sort by their time.
\<close>

section \<open>Minting\<close>

definition crockford :: string where
  "crockford = ''0123456789ABCDEFGHJKMNPQRSTVWXYZ''"

definition validatePrefix :: "string \<Rightarrow> go_err" where
  "validatePrefix p =
     first_err [
       guard (p = [] \<or> length p > 8)
         (Plain ''ID prefix must contain 1 to 8 lowercase letters''),
       guard (\<not> list_all (\<lambda>r. 97 \<le> r \<and> r \<le> 122) (runes p))
         (Plain ''ID prefix must contain only lowercase ASCII letters'')]"

text \<open>The six time stamp bytes, most significant first: \<open>byte(millis >> 40)\<close> and so on.\<close>

definition time_bytes :: "64 word \<Rightarrow> 8 word list" where
  "time_bytes millis = map (\<lambda>k. ucast (drop_bit k millis)) [40, 32, 24, 16, 8, 0]"

text \<open>\<open>big.Int.SetBytes\<close>: big endian.\<close>

definition set_bytes :: "8 word list \<Rightarrow> nat" where
  "set_bytes bs = foldl (\<lambda>v b. v * 256 + unat b) 0 bs"

text \<open>The loop over \<open>encoded\<close> from its last index down, dividing by 32.\<close>

fun encode32 :: "nat \<Rightarrow> nat \<Rightarrow> string \<Rightarrow> string" where
  "encode32 0 v acc = acc"
| "encode32 (Suc k) v acc = encode32 k (v div 32) (crockford ! (v mod 32) # acc)"

text \<open>\<open>ids.New\<close>, given the clock reading and what \<open>rand.Read\<close> returned for its ten bytes.\<close>

definition ids_New :: "string \<Rightarrow> 64 word \<Rightarrow> 8 word list result \<Rightarrow> string result" where
  "ids_New p millis rand =
     check (validatePrefix p)
       (rbind rand (\<lambda>bytes.
          Inr (p @ ''_'' @ encode32 26 (set_bytes (time_bytes millis @ bytes)) [])))"

section \<open>Validation\<close>

definition safe_rune :: "nat \<Rightarrow> bool" where
  "safe_rune r \<longleftrightarrow>
     (97 \<le> r \<and> r \<le> 122) \<or> (65 \<le> r \<and> r \<le> 90) \<or> (48 \<le> r \<and> r \<le> 57) \<or> r = 95 \<or> r = 45 \<or> r = 46"

definition device_names :: "string list" where
  "device_names =
     [''CON'', ''PRN'', ''AUX'', ''NUL'',
      ''COM1'', ''COM2'', ''COM3'', ''COM4'', ''COM5'', ''COM6'', ''COM7'', ''COM8'', ''COM9'',
      ''LPT1'', ''LPT2'', ''LPT3'', ''LPT4'', ''LPT5'', ''LPT6'', ''LPT7'', ''LPT8'', ''LPT9'']"

definition windowsDeviceName :: "string \<Rightarrow> bool" where
  "windowsDeviceName v =
     list_ex (\<lambda>d. upper_is (takeWhile (\<lambda>c. c \<noteq> CHR ''.'') v) d) device_names"

definition ids_Validate :: "string \<Rightarrow> string \<Rightarrow> go_err" where
  "ids_Validate field v =
     first_err [
       guard (v = [] \<or> length v > 255 \<or> \<not> valid_utf8 v \<or> v \<noteq> trim_space v
              \<or> v = ''.'' \<or> v = ''..'')
         (Plain (field @ '' is invalid'')),
       guard (\<not> list_all safe_rune (runes v)) (Plain (field @ '' contains an unsafe character'')),
       guard (windowsDeviceName v) (Plain (field @ '' uses a reserved device name''))]"

section \<open>What a valid identifier is\<close>

definition safe_char :: "char \<Rightarrow> bool" where
  "safe_char c \<longleftrightarrow> safe_rune (byte_val c)"

definition valid_id :: "string \<Rightarrow> bool" where
  "valid_id v \<longleftrightarrow>
     1 \<le> length v \<and> length v \<le> 255 \<and> v \<noteq> ''.'' \<and> v \<noteq> ''..''
     \<and> list_all safe_char v \<and> \<not> windowsDeviceName v"

lemma runes_small_ascii: "list_all (\<lambda>r. r < 128) (runes s) \<Longrightarrow> is_ascii s"
proof (induction s rule: runes.induct)
  case (1 s)
  show ?case
  proof (cases s)
    case (Cons c t)
    show ?thesis
    proof (cases "utf8_next s")
      case None
      with Cons 1(3) show ?thesis by (simp add: runes.simps [of "c # t"])
    next
      case (Some p)
      obtain r w where p: "p = (r, w)" by force
      have rs: "runes s = r # runes (drop w s)" using Some p Cons by (subst runes.simps) simp
      with 1(3) have r: "r < 128" by simp
      have rw: "r = byte_val c" "w = 1" using utf8_next_small [of c t r w] Some p Cons r by simp_all
      have "is_ascii (drop w s)" using 1(2) [OF _ Some p [symmetric]] Cons rs 1(3) by simp
      with Cons rw r show ?thesis by simp
    qed
  qed simp
qed

lemma list_all_safe_runes: "list_all safe_rune (runes v) \<longleftrightarrow> list_all safe_char v"
proof
  assume a: "list_all safe_rune (runes v)"
  then have "list_all (\<lambda>r. r < 128) (runes v)" by (auto simp: list_all_iff safe_rune_def)
  then have "is_ascii v" by (rule runes_small_ascii)
  then show "list_all safe_char v" using a by (simp add: is_ascii_runes list_all_iff safe_char_def)
next
  assume a: "list_all safe_char v"
  then have "is_ascii v"
    by (auto simp: is_ascii_def list_all_iff safe_char_def safe_rune_def)
  then show "list_all safe_rune (runes v)"
    using a by (simp add: is_ascii_runes list_all_iff safe_char_def)
qed

lemma safe_chars_visible: "list_all safe_char v \<Longrightarrow> visible_ascii v"
  by (auto simp: visible_ascii_def list_all_iff safe_char_def safe_rune_def)

text \<open>Validation accepts exactly the valid identifiers, whatever the field is called.\<close>

lemma ids_Validate_None_iff [simp]: "ids_Validate field v = None \<longleftrightarrow> valid_id v"
proof -
  have "list_all safe_char v \<Longrightarrow> valid_utf8 v \<and> trim_space v = v"
    by (simp add: safe_chars_visible visible_ascii_trim is_ascii_valid_utf8 visible_ascii_is_ascii)
  then show ?thesis
    by (auto simp: ids_Validate_def valid_id_def list_all_safe_runes Suc_le_eq)
qed

lemma safe_char_not_sl: "safe_char c \<Longrightarrow> c \<noteq> sl"
  by (auto simp: safe_char_def safe_rune_def sl_def byte_val_def)

text \<open>A valid identifier is a single path component that no cleaning changes.\<close>

lemma valid_id_normal_component: "valid_id v \<Longrightarrow> normal_component v"
  by (auto simp: valid_id_def normal_component_def list_all_iff dest: safe_char_not_sl)

lemma valid_id_visible: "valid_id v \<Longrightarrow> visible_ascii v"
  by (simp add: valid_id_def safe_chars_visible)

lemma valid_id_length: "valid_id v \<Longrightarrow> 1 \<le> length v \<and> length v \<le> 255"
  by (simp add: valid_id_def)

section \<open>Minted identifiers\<close>

lemma length_crockford [simp]: "length crockford = 32"
  by (simp add: crockford_def)

lemma crockford_safe: "c \<in> set crockford \<Longrightarrow> safe_char c \<and> c \<noteq> CHR ''.''"
  by (auto simp: crockford_def safe_char_def safe_rune_def byte_val_def)

lemma encode32_append: "encode32 k v acc = encode32 k v [] @ acc"
proof (induction k arbitrary: v acc)
  case (Suc k)
  show ?case using Suc [of "v div 32" "crockford ! (v mod 32) # acc"]
      Suc [of "v div 32" "[crockford ! (v mod 32)]"] by simp
qed simp

lemma length_encode32 [simp]: "length (encode32 k v acc) = k + length acc"
  by (induction k arbitrary: v acc) simp_all

lemma set_encode32: "set (encode32 k v acc) \<subseteq> set crockford \<union> set acc"
proof (induction k arbitrary: v acc)
  case (Suc k)
  have "crockford ! (v mod 32) \<in> set crockford" by (rule nth_mem) simp
  with Suc [of "v div 32" "crockford ! (v mod 32) # acc"] show ?case by auto
qed simp

lemma encode32_safe: "list_all safe_char (encode32 k v [])"
  using set_encode32 [of k v "[]"] crockford_safe by (auto simp: list_all_iff)

lemma lower_prefix_chars:
  assumes "list_all (\<lambda>r. 97 \<le> r \<and> r \<le> 122) (runes p)"
  shows "list_all (\<lambda>c. 97 \<le> byte_val c \<and> byte_val c \<le> 122) p"
proof -
  have "is_ascii p" using assms by (intro runes_small_ascii) (auto simp: list_all_iff)
  with assms show ?thesis by (simp add: is_ascii_runes list_all_iff)
qed

lemma long_not_device: "CHR ''.'' \<notin> set v \<Longrightarrow> is_ascii v \<Longrightarrow> length v > 4 \<Longrightarrow> \<not> windowsDeviceName v"
proof
  assume a: "CHR ''.'' \<notin> set v" "is_ascii v" "length v > 4" and w: "windowsDeviceName v"
  have "takeWhile (\<lambda>c. c \<noteq> CHR ''.'') v = v" using a(1) by (auto simp: takeWhile_eq_all_conv)
  with w obtain d where d: "d \<in> set device_names" "upper_is v d"
    by (auto simp: windowsDeviceName_def list_ex_iff)
  then have "length v = length d"
    using a(2) by (metis is_ascii_runes length_map upper_is_def)
  moreover have "length d \<le> 4" using d(1) by (auto simp: device_names_def)
  ultimately show False using a(3) by simp
qed

lemma minted_valid_id:
  assumes "validatePrefix p = None"
  shows "valid_id (p @ ''_'' @ encode32 26 n [])"
proof -
  let ?v = "p @ ''_'' @ encode32 26 n []"
  have p: "p \<noteq> []" "length p \<le> 8" "list_all (\<lambda>c. 97 \<le> byte_val c \<and> byte_val c \<le> 122) p"
    using assms by (auto simp: validatePrefix_def dest: lower_prefix_chars)
  then have ps: "list_all safe_char p" by (auto simp: list_all_iff safe_char_def safe_rune_def)
  have us: "safe_char (CHR ''_'')" by (simp add: safe_char_def safe_rune_def byte_val_def)
  have all: "list_all safe_char ?v" using ps us encode32_safe [of 26 n] by simp
  have "CHR ''.'' \<notin> set p" using p(3) by (auto simp: list_all_iff byte_val_def)
  moreover have "CHR ''.'' \<notin> set (encode32 26 n [])"
    using set_encode32 [of 26 n "[]"] crockford_safe by auto
  ultimately have dot: "CHR ''.'' \<notin> set ?v" by simp
  then have "\<not> windowsDeviceName ?v"
    using visible_ascii_is_ascii [OF safe_chars_visible [OF all]] by (intro long_not_device) auto
  moreover have "?v \<noteq> ''.''" "?v \<noteq> ''..''" using dot by (metis list.set_intros(1))+
  ultimately show ?thesis using all p(1,2) by (simp add: valid_id_def)
qed

text \<open>
  The inverse of the encoding: the position of each character in the alphabet, most
  significant first.
\<close>

definition digit32 :: "char \<Rightarrow> nat" where
  "digit32 c = length (takeWhile (\<lambda>d. d \<noteq> c) crockford)"

definition decode32 :: "string \<Rightarrow> nat" where
  "decode32 s = foldl (\<lambda>v c. v * 32 + digit32 c) 0 s"

lemma distinct_crockford: "distinct crockford"
  by (simp add: crockford_def)

lemma digit32_nth: "i < 32 \<Longrightarrow> digit32 (crockford ! i) = i"
proof -
  assume i: "i < 32"
  have "takeWhile (\<lambda>d. d \<noteq> crockford ! i) crockford = take i crockford"
    using i distinct_crockford
    by (intro takeWhile_eq_take_P_nth) (auto simp: nth_eq_iff_index_eq)
  with i show ?thesis by (simp add: digit32_def)
qed

lemma decode32_snoc: "decode32 (s @ [c]) = decode32 s * 32 + digit32 c"
  by (simp add: decode32_def)

lemma decode_encode32: "decode32 (encode32 k v []) = v mod 32 ^ k"
proof (induction k arbitrary: v)
  case 0
  then show ?case by (simp add: decode32_def)
next
  case (Suc k)
  have "decode32 (encode32 (Suc k) v []) = (v div 32) mod 32 ^ k * 32 + v mod 32"
    using Suc [of "v div 32"] encode32_append [of k "v div 32" "[crockford ! (v mod 32)]"]
    by (simp add: decode32_snoc digit32_nth)
  also have "\<dots> = v mod 32 ^ Suc k"
    by (simp add: mod_mult2_eq mult.commute)
  finally show ?case .
qed

lemma set_bytes_snoc: "set_bytes (bs @ [b]) = set_bytes bs * 256 + unat b"
  by (simp add: set_bytes_def)

lemma set_bytes_bound: "set_bytes bs < 256 ^ length bs"
proof (induction bs rule: rev_induct)
  case (snoc b bs)
  have "unat b < 256" using unsigned_less [of b] by simp
  with snoc show ?case by (simp add: set_bytes_snoc)
qed (simp add: set_bytes_def)

lemma set_bytes_append:
  "set_bytes (as @ bs) = set_bytes as * 256 ^ length bs + set_bytes bs"
proof (induction bs rule: rev_induct)
  case (snoc b bs)
  then show ?case using set_bytes_snoc [of "as @ bs" b] set_bytes_snoc [of bs b]
    by (simp add: algebra_simps)
qed (simp add: set_bytes_def)

lemma byte_shift_split:
  "(n div 2 ^ (k + 8)) mod 2 ^ j * 256 + (n div 2 ^ k) mod 256 = (n div 2 ^ k) mod 2 ^ (j + 8)"
  for n :: nat
proof -
  have "(n div 2 ^ k) mod (256 * 2 ^ j)
      = 256 * ((n div 2 ^ k) div 256 mod 2 ^ j) + (n div 2 ^ k) mod 256"
    by (rule mod_mult2_eq)
  then show ?thesis by (simp add: power_add div_mult2_eq mult.commute)
qed

lemma unat_byte_of: "unat (ucast (drop_bit k m) :: 8 word) = (unat (m :: 64 word) div 2 ^ k) mod 256"
proof -
  have "unat (ucast (drop_bit k m) :: 8 word) = unat (drop_bit k m) mod 256"
    by (simp only: unsigned_ucast_eq take_bit_eq_mod) simp
  also have "unat (drop_bit k m) = drop_bit k (take_bit LENGTH(64) (unat m))"
    by (rule unsigned_drop_bit_eq)
  also have "take_bit LENGTH(64) (unat m) = unat m"
  proof -
    have "unat m < 2 ^ 64" using unsigned_less [of m] by simp
    then show ?thesis by (simp add: take_bit_nat_eq_self)
  qed
  also have "drop_bit k (unat m) = unat m div 2 ^ k"
    by (rule drop_bit_eq_div)
  finally show ?thesis .
qed

lemma set_bytes_time: "set_bytes (time_bytes m) = unat m mod 2 ^ 48"
proof -
  let ?n = "unat m"
  have "set_bytes (time_bytes m) =
      (((((?n div 2 ^ 40) mod 256 * 256 + (?n div 2 ^ 32) mod 256) * 256
        + (?n div 2 ^ 24) mod 256) * 256 + (?n div 2 ^ 16) mod 256) * 256
        + (?n div 2 ^ 8) mod 256) * 256 + (?n div 2 ^ 0) mod 256"
    by (simp only: set_bytes_def time_bytes_def list.map foldl.simps unat_byte_of) simp
  also have "\<dots> = ?n mod 2 ^ 48"
    using byte_shift_split [of ?n 32 8] byte_shift_split [of ?n 24 16]
      byte_shift_split [of ?n 16 24] byte_shift_split [of ?n 8 32] byte_shift_split [of ?n 0 40]
    by simp
  finally show ?thesis .
qed

text \<open>The value a minted identifier encodes, and what its bytes decode back to.\<close>

lemma mint_value_bound:
  "length bytes = 10 \<Longrightarrow> set_bytes (time_bytes m @ bytes) < 32 ^ 26"
  using set_bytes_bound [of "time_bytes m @ bytes"] by (simp add: time_bytes_def)

lemma mint_value_time:
  "length bytes = 10 \<Longrightarrow> set_bytes (time_bytes m @ bytes) div 2 ^ 80 = unat m mod 2 ^ 48"
  using set_bytes_bound [of bytes] by (simp add: set_bytes_append set_bytes_time)

definition byte_less :: "(char \<times> char) set" where
  "byte_less = {(a, b). byte_val a < byte_val b}"

lemma crockford_sorted: "sorted_wrt (\<lambda>a b. byte_val a < byte_val b) crockford"
  by (simp add: crockford_def byte_val_def)

lemma crockford_mono: "i < j \<Longrightarrow> j < 32 \<Longrightarrow> (crockford ! i, crockford ! j) \<in> byte_less"
  using sorted_wrt_nth_less [OF crockford_sorted, of i j] by (simp add: byte_less_def)

lemma encode32_mono:
  "v < w \<Longrightarrow> w < 32 ^ k \<Longrightarrow> (encode32 k v [], encode32 k w []) \<in> lexord byte_less"
proof (induction k arbitrary: v w)
  case (Suc k)
  let ?a = "encode32 k (v div 32) []" and ?b = "encode32 k (w div 32) []"
  have e: "encode32 (Suc k) v [] = ?a @ [crockford ! (v mod 32)]"
    "encode32 (Suc k) w [] = ?b @ [crockford ! (w mod 32)]"
    using encode32_append [of k "v div 32" "[crockford ! (v mod 32)]"]
      encode32_append [of k "w div 32" "[crockford ! (w mod 32)]"] by simp_all
  show ?case
  proof (cases "v div 32 < w div 32")
    case True
    moreover have "w div 32 < 32 ^ k" using Suc.prems(2) by (simp add: less_mult_imp_div_less)
    ultimately have "(?a, ?b) \<in> lexord byte_less" by (rule Suc.IH)
    then show ?thesis unfolding e by (rule lexord_sufI) simp
  next
    case False
    with Suc.prems(1) have eq: "v div 32 = w div 32" using div_le_mono [of v w 32] by simp
    have "v mod 32 < w mod 32"
      using Suc.prems(1) eq mult_div_mod_eq [of 32 v] mult_div_mod_eq [of 32 w] by linarith
    then show ?thesis unfolding e eq
      by (intro lexord_append_leftI) (simp add: crockford_mono)
  qed
qed simp

section \<open>Properties\<close>

text \<open>
  C40: every identifier \<open>ids.New\<close> mints passes \<open>ids.Validate\<close>, whatever the prefix it
  accepted, the clock and the random bytes: it can be stored, used in a storage key and
  used as a file name.
\<close>

theorem ids_New_valid:
  assumes "ids_New p millis rand = Inr v"
  shows "ids_Validate field v = None"
  using assms minted_valid_id by (auto simp: ids_New_def rbind_Inr_iff)

theorem ids_New_valid_witness:
  "ids_New ''exe'' 1767225600000 (Inr (replicate 10 7)) =
     Inr (''exe_'' @ encode32 26 (set_bytes (time_bytes 1767225600000 @ replicate 10 7)) [])
   \<and> ids_Validate ''execution_id''
       (''exe_'' @ encode32 26 (set_bytes (time_bytes 1767225600000 @ replicate 10 7)) []) = None"
proof -
  have h: "ids_New ''exe'' 1767225600000 (Inr (replicate 10 7)) =
     Inr (''exe_'' @ encode32 26 (set_bytes (time_bytes 1767225600000 @ replicate 10 7)) [])"
    by (simp add: ids_New_def validatePrefix_def byte_val_def)
  show ?thesis using h ids_New_valid [OF h] by blast
qed

text \<open>
  Identifiers minted under one prefix sort, byte by byte, in the order of the
  milliseconds they were minted at, for every clock reading below 2^48.
\<close>

lemma ids_New_time_ordered:
  assumes "ids_New p m1 (Inr r1) = Inr v1" and "ids_New p m2 (Inr r2) = Inr v2"
    and "length r1 = 10" and "length r2 = 10"
    and "unat m1 < unat m2" and "unat m2 < 2 ^ 48"
  shows "(v1, v2) \<in> lexord byte_less"
proof -
  let ?n1 = "set_bytes (time_bytes m1 @ r1)" and ?n2 = "set_bytes (time_bytes m2 @ r2)"
  have "?n1 div 2 ^ 80 < ?n2 div 2 ^ 80"
    using mint_value_time [OF assms(3), of m1] mint_value_time [OF assms(4), of m2] assms(5,6)
    by simp
  then have "?n1 < ?n2" using div_le_mono not_less by metis
  then have "(encode32 26 ?n1 [], encode32 26 ?n2 []) \<in> lexord byte_less"
    using mint_value_bound [OF assms(4)] by (rule encode32_mono)
  then have "(p @ ''_'' @ encode32 26 ?n1 [], p @ ''_'' @ encode32 26 ?n2 []) \<in> lexord byte_less"
    by (intro lexord_append_leftI)
  then show ?thesis using assms(1,2) by (simp add: ids_New_def)
qed

text \<open>
  The 26 characters after the prefix decode to the number that was encoded: the time
  stamp modulo 2^48 is its high part and the ten random bytes its low part, so nothing
  \<open>rand.Read\<close> returned is lost.
\<close>

lemma ids_New_roundtrip:
  assumes "ids_New p m (Inr bytes) = Inr v" and "length bytes = 10"
  shows "decode32 (drop (length p + 1) v) = (unat m mod 2 ^ 48) * 2 ^ 80 + set_bytes bytes"
proof -
  let ?n = "set_bytes (time_bytes m @ bytes)"
  have "drop (length p + 1) v = encode32 26 ?n []"
    using assms(1) by (auto simp: ids_New_def)
  then have "decode32 (drop (length p + 1) v) = ?n"
    using mint_value_bound [OF assms(2), of m] by (simp add: decode_encode32)
  then show ?thesis using assms(2) by (simp add: set_bytes_append set_bytes_time)
qed

end
