(* ===== verification/Builds.thy ===== *)
theory Builds
  imports Ids
begin

text \<open>
  Package \<open>internal/domain/build\<close>: runtimes, storage keys, artifacts, builds and the
  detection of a runtime from the names at a source root. A build is immutable once
  sealed; the theorems say what a sealed one guarantees the worker that unpacks it, and
  that a valid storage key is a clean relative path no store can be led out of.
\<close>

section \<open>Runtimes\<close>

datatype runtime =
    RuntimePython | RuntimeRust | RuntimeGo | RuntimeRuby | RuntimeNode
  | RuntimeOther string

fun runtime_Compiled :: "runtime \<Rightarrow> bool" where
  "runtime_Compiled r \<longleftrightarrow> r = RuntimeRust \<or> r = RuntimeGo"

declare runtime_Compiled.simps [simp del]

fun runtime_Valid :: "runtime \<Rightarrow> bool" where
  "runtime_Valid (RuntimeOther s) = False"
| "runtime_Valid r = True"

text \<open>\<open>ParseRuntime\<close>: the trimmed and lowered text is one of the five names.\<close>

definition runtime_names :: "(string \<times> runtime) list" where
  "runtime_names =
     [(''python'', RuntimePython), (''rust'', RuntimeRust), (''go'', RuntimeGo),
      (''ruby'', RuntimeRuby), (''node'', RuntimeNode)]"

definition ParseRuntime :: "string \<Rightarrow> runtime result" where
  "ParseRuntime raw =
     (case find (\<lambda>(n, r). lower_is (trim_space raw) n) runtime_names of
        Some (n, r) \<Rightarrow> Inr r
      | None \<Rightarrow> Inl (wrapf Build_ErrInvalid ''runtime must be python, rust, go, ruby or node''))"

section \<open>Storage keys\<close>

definition ValidateStorageKey :: "string \<Rightarrow> go_err" where
  "ValidateStorageKey k =
     first_err [
       guard (k = [] \<or> length k > 1024 \<or> \<not> valid_utf8 k)
         (wrapf Build_ErrInvalidStorageKey ''key must be between 1 and 1024 bytes''),
       guard (k \<noteq> trim_space k \<or> has_prefix k [sl] \<or> has_suffix k [sl]
              \<or> contains_any k [CHR 0x5C, CHR 0x00])
         (wrapf Build_ErrInvalidStorageKey ''key must be a clean relative slash path''),
       guard (has_control k)
         (wrapf Build_ErrInvalidStorageKey ''key contains a control character''),
       guard (list_ex (\<lambda>c. c = [] \<or> c = ''.'' \<or> c = ''..'') (split_on sl k))
         (wrapf Build_ErrInvalidStorageKey ''key contains an unsafe path component''),
       guard (path_clean k \<noteq> k)
         (wrapf Build_ErrInvalidStorageKey ''key is not canonical'')]"

definition StorageKeyFor :: "string \<Rightarrow> string \<Rightarrow> string" where
  "StorageKeyFor buildID artifactID = buildID @ [sl] @ artifactID @ ''.zip''"

text \<open>Every component of a valid key is an ordinary name.\<close>

lemma storage_key_components:
  assumes "ValidateStorageKey k = None"
  shows "list_all normal_component (split_on sl k)"
  using assms split_on_no_sep
  by (fastforce simp: ValidateStorageKey_def list_all_iff list_ex_iff normal_component_def)

text \<open>With the component check in place the last check never fires: such a key is canonical.\<close>

lemma storage_key_canonical_check_redundant:
  assumes "list_all normal_component (split_on sl k)"
  shows "path_clean k = k"
  using path_clean_normal [OF split_on_not_Nil assms] by simp

lemma valid_storage_keyI:
  assumes "ps \<noteq> []" and "list_all normal_component ps" and "list_all visible_ascii ps"
    and "list_all (\<lambda>p. CHR 0x5C \<notin> set p) ps" and "length (join_with [sl] ps) \<le> 1024"
  shows "ValidateStorageKey (join_with [sl] ps) = None"
proof -
  let ?k = "join_with [sl] ps"
  have vis: "visible_ascii ?k" using assms(3)
    by (induction "[sl]" ps rule: join_with.induct) (auto simp: sl_def byte_val_def)
  have bs: "CHR 0x5C \<notin> set ?k" using assms(4)
    by (induction "[sl]" ps rule: join_with.induct) (auto simp: sl_def)
  have nul: "CHR 0x00 \<notin> set ?k"
    using vis by (auto simp: visible_ascii_def list_all_iff byte_val_def)
  have ne: "?k \<noteq> []" using join_with_Nil_iff assms(1,2) .
  have sp: "split_on sl ?k = ps" using split_join_normal assms(1,2) .
  have pre: "\<not> has_prefix ?k [sl]" using is_abs_join [OF assms(1,2)] by (simp add: is_abs_def)
  have suf: "\<not> has_suffix ?k [sl]"
  proof
    assume "has_suffix ?k [sl]"
    then obtain t where t: "?k = t @ sl # []" by (auto simp: has_suffix_iff suffix_def)
    have "[] \<in> set (split_on sl (t @ sl # []))"
      by (simp only: split_on_append_sep) simp
    with sp t assms(2) show False by (auto simp: list_all_iff normal_component_def)
  qed
  have comps: "\<not> list_ex (\<lambda>c. c = [] \<or> c = ''.'' \<or> c = ''..'') ps"
    using assms(2) by (auto simp: list_all_iff list_ex_iff normal_component_def)
  show ?thesis
    using ne assms(5) vis bs nul pre suf comps sp storage_key_canonical_check_redundant [of ?k]
      assms(2)
    by (simp add: ValidateStorageKey_def visible_ascii_trim visible_ascii_no_control
        is_ascii_valid_utf8 visible_ascii_is_ascii contains_any_def list_ex_iff)
       metis
qed

lemma zip_name_normal:
  assumes "valid_id a"
  shows "normal_component (a @ ''.zip'') \<and> visible_ascii (a @ ''.zip'')
    \<and> CHR 0x5C \<notin> set (a @ ''.zip'')"
proof -
  have "sl \<notin> set a" "visible_ascii a" "list_all safe_char a" "a \<noteq> []"
    using assms valid_id_normal_component valid_id_visible
    by (auto simp: normal_component_def valid_id_def)
  moreover have "\<not> safe_char (CHR 0x5C)" by (simp add: safe_char_def safe_rune_def byte_val_def)
  ultimately show ?thesis
    by (auto simp: normal_component_def sl_def byte_val_def list_all_iff append_eq_Cons_conv)
qed

section \<open>Artifacts\<close>

record artifact =
  art_ID :: string
  art_Name :: string
  art_SizeBytes :: int
  art_SHA256 :: string
  art_StorageKey :: string
  art_CreatedAt :: time

definition LayerCode :: string where
  "LayerCode = ''code''"

definition LayerInstall :: string where
  "LayerInstall = ''install''"

text \<open>\<open>build.ValidateIdentifier\<close>.\<close>

definition build_ValidateIdentifier :: "string \<Rightarrow> string \<Rightarrow> go_err" where
  "build_ValidateIdentifier field v = rethrow Build_ErrInvalid (ids_Validate field v)"

definition layer_rune :: "nat \<Rightarrow> bool" where
  "layer_rune r \<longleftrightarrow> r = 45 \<or> r = 95 \<or> (97 \<le> r \<and> r \<le> 122) \<or> (48 \<le> r \<and> r \<le> 57)"

definition validateLayerName :: "string \<Rightarrow> go_err" where
  "validateLayerName n =
     first_err [
       guard (n = [] \<or> length n > 32)
         (wrapf Build_ErrInvalid ''artifact name must contain 1 to 32 bytes''),
       guard (\<not> list_all layer_rune (runes n))
         (wrapf Build_ErrInvalid
            ''artifact name must be lowercase letters, digits, dash or underscore''),
       guard (has_prefix n ''-'' \<or> has_prefix n ''_'')
         (wrapf Build_ErrInvalid ''artifact name is malformed'')]"

definition hex_rune :: "nat \<Rightarrow> bool" where
  "hex_rune r \<longleftrightarrow> (48 \<le> r \<and> r \<le> 57) \<or> (97 \<le> r \<and> r \<le> 102)"

definition ValidateArtifact :: "artifact \<Rightarrow> go_err" where
  "ValidateArtifact a =
     first_err [
       build_ValidateIdentifier ''artifact_id'' (art_ID a),
       validateLayerName (art_Name a),
       guard (art_SizeBytes a < 0 \<or> length (art_SHA256 a) \<noteq> 64 \<or> is_zero (art_CreatedAt a))
         (wrapf Build_ErrInvalid ''artifact metadata is incomplete''),
       guard (\<not> list_all hex_rune (runes (art_SHA256 a)))
         (wrapf Build_ErrInvalid ''artifact digest is invalid''),
       map_option (\<lambda>e. wrapf Build_ErrInvalid (''artifact storage handle: '' @ error_text e))
         (ValidateStorageKey (art_StorageKey a))]"

section \<open>Builds\<close>

record build =
  bld_ID :: string
  bld_AppID :: string
  bld_DeploymentID :: string
  bld_Runtime :: runtime
  bld_SourceSHA256 :: string
  bld_Artifacts :: "artifact list"
  bld_CreatedAt :: time

text \<open>
  The loop of \<open>Build.Validate\<close> over the artifacts, with the set of names seen so far: the
  first invalid artifact or repeated name ends it.
\<close>

fun validate_layers :: "string list \<Rightarrow> artifact list \<Rightarrow> string list result" where
  "validate_layers names [] = Inr names"
| "validate_layers names (a # as) =
     check (ValidateArtifact a)
       (if art_Name a \<in> set names
        then Inl (wrapf Build_ErrInvalid (''build has two '' @ art_Name a @ '' layers''))
        else validate_layers (art_Name a # names) as)"

definition build_Validate :: "build \<Rightarrow> go_err" where
  "build_Validate b =
     first_err [
       build_ValidateIdentifier ''build_id'' (bld_ID b),
       build_ValidateIdentifier ''app_id'' (bld_AppID b),
       build_ValidateIdentifier ''deployment_id'' (bld_DeploymentID b),
       guard (\<not> runtime_Valid (bld_Runtime b))
         (wrapf Build_ErrInvalid ''build runtime is invalid''),
       guard (length (bld_SourceSHA256 b) \<noteq> 64)
         (wrapf Build_ErrInvalid ''build source digest is invalid''),
       guard (is_zero (bld_CreatedAt b))
         (wrapf Build_ErrInvalid ''build creation time is required''),
       (case validate_layers [] (bld_Artifacts b) of
          Inl e \<Rightarrow> Some e
        | Inr names \<Rightarrow>
            first_err [
              guard (LayerCode \<notin> set names)
                (wrapf Build_ErrInvalid ''a build requires a code layer''),
              guard (LayerInstall \<in> set names \<and> runtime_Compiled (bld_Runtime b))
                (wrapf Build_ErrInvalid ''a compiled build has no install layer'')])]"

definition build_New ::
  "string \<Rightarrow> string \<Rightarrow> string \<Rightarrow> runtime \<Rightarrow> string \<Rightarrow> artifact list \<Rightarrow> time \<Rightarrow> build result"
where
  "build_New buildID appID deploymentID rt sha artifacts now =
     (let b = \<lparr>bld_ID = buildID, bld_AppID = appID, bld_DeploymentID = deploymentID,
               bld_Runtime = rt, bld_SourceSHA256 = sha, bld_Artifacts = artifacts,
               bld_CreatedAt = now\<rparr>
      in check (build_Validate b) (Inr b))"

text \<open>\<open>Build.Layer\<close>: the first artifact of that name.\<close>

definition build_Layer :: "build \<Rightarrow> string \<Rightarrow> artifact option" where
  "build_Layer b name = find (\<lambda>a. art_Name a = name) (bld_Artifacts b)"

lemma build_Layer_None_iff:
  "build_Layer b name = None \<longleftrightarrow> name \<notin> art_Name ` set (bld_Artifacts b)"
  by (auto simp: build_Layer_def find_None_iff)

lemma build_ValidateIdentifier_None [simp]:
  "build_ValidateIdentifier field v = None \<longleftrightarrow> valid_id v"
  by (simp add: build_ValidateIdentifier_def)

lemma validate_layers_Inr:
  "validate_layers names as = Inr ns \<Longrightarrow>
     ns = rev (map art_Name as) @ names \<and> (\<forall>a \<in> set as. ValidateArtifact a = None)
     \<and> distinct (map art_Name as) \<and> (\<forall>a \<in> set as. art_Name a \<notin> set names)"
  by (induction as arbitrary: names) (fastforce split: if_splits)+

lemma validate_layers_complete:
  "\<forall>a \<in> set as. ValidateArtifact a = None \<Longrightarrow> distinct (map art_Name as) \<Longrightarrow>
     \<forall>a \<in> set as. art_Name a \<notin> set names \<Longrightarrow>
     validate_layers names as = Inr (rev (map art_Name as) @ names)"
proof (induction as arbitrary: names)
  case (Cons a as)
  have "\<forall>b \<in> set as. art_Name b \<notin> set (art_Name a # names)"
    using Cons.prems(2,3) by (auto simp: image_iff)
  with Cons show ?case by simp
qed simp

text \<open>What \<open>Build.Validate\<close> checks, without the loop.\<close>

definition build_ok :: "build \<Rightarrow> bool" where
  "build_ok b \<longleftrightarrow>
     valid_id (bld_ID b) \<and> valid_id (bld_AppID b) \<and> valid_id (bld_DeploymentID b)
     \<and> runtime_Valid (bld_Runtime b) \<and> length (bld_SourceSHA256 b) = 64
     \<and> \<not> is_zero (bld_CreatedAt b)
     \<and> (\<forall>a \<in> set (bld_Artifacts b). ValidateArtifact a = None)
     \<and> distinct (map art_Name (bld_Artifacts b))
     \<and> LayerCode \<in> art_Name ` set (bld_Artifacts b)
     \<and> (runtime_Compiled (bld_Runtime b) \<longrightarrow> LayerInstall \<notin> art_Name ` set (bld_Artifacts b))"

lemma build_Validate_None_iff [simp]: "build_Validate b = None \<longleftrightarrow> build_ok b"
proof (cases "validate_layers [] (bld_Artifacts b)")
  case (Inl e)
  then have "\<not> ((\<forall>a \<in> set (bld_Artifacts b). ValidateArtifact a = None)
      \<and> distinct (map art_Name (bld_Artifacts b)))"
    using validate_layers_complete [of "bld_Artifacts b" "[]"] by auto
  with Inl show ?thesis by (auto simp: build_Validate_def build_ok_def)
next
  case (Inr ns)
  with validate_layers_Inr [OF Inr] show ?thesis
    by (auto simp: build_Validate_def build_ok_def)
qed

section \<open>Runtime detection\<close>

definition markers :: "(string \<times> runtime) list" where
  "markers =
     [(''Cargo.toml'', RuntimeRust), (''go.mod'', RuntimeGo), (''Gemfile'', RuntimeRuby),
      (''package.json'', RuntimeNode), (''requirements.txt'', RuntimePython)]"

definition script_extensions :: "(string \<times> runtime) list" where
  "script_extensions =
     [(''.py'', RuntimePython), (''.rb'', RuntimeRuby), (''.ts'', RuntimeNode),
      (''.js'', RuntimeNode)]"

definition root_name :: "string \<Rightarrow> string" where
  "root_name name =
     (let c = path_clean (map (\<lambda>x. if x = CHR 0x5C then sl else x) name) in
      if has_prefix c ''./'' then drop 2 c else c)"

definition root_names :: "string list \<Rightarrow> string list" where
  "root_names names = filter (\<lambda>c. sl \<notin> set c) (map root_name names)"

text \<open>From the last dot on.\<close>

definition extension_of :: "string \<Rightarrow> string option" where
  "extension_of c =
     (if CHR ''.'' \<in> set c then Some (CHR ''.'' # rev (takeWhile (\<lambda>x. x \<noteq> CHR ''.'') (rev c)))
      else None)"

text \<open>
  \<open>DetectRuntime\<close>. The last loop ranges over a Go map, whose iteration order is
  unspecified: the order is the argument \<open>order\<close>, any arrangement of
  \<open>script_extensions\<close>.
\<close>

definition DetectRuntime :: "(string \<times> runtime) list \<Rightarrow> string list \<Rightarrow> runtime result" where
  "DetectRuntime order names =
     (let roots = root_names names; exts = List.map_filter extension_of roots in
      case find (\<lambda>(n, r). n \<in> set roots) markers of
        Some (n, r) \<Rightarrow> Inr r
      | None \<Rightarrow>
          (case find (\<lambda>(e, r). e \<in> set exts) order of
             Some (e, r) \<Rightarrow> Inr r
           | None \<Rightarrow> Inl (wrapf Build_ErrInvalid
               ''no Cargo.toml, go.mod, Gemfile, package.json or requirements.txt at the repository root'')))"

section \<open>Properties\<close>

text \<open>
  A key \<open>ValidateStorageKey\<close> accepts is a relative path, equal to its own
  \<open>path.Clean\<close>, of ordinary components: none is empty, \<open>"."\<close> or \<open>".."\<close>, and it holds no
  control character, backslash or NUL. The check for a canonical key that the function
  ends with can never be the one that fails.
\<close>

lemma storage_key_safe:
  assumes "ValidateStorageKey k = None"
  shows "list_all normal_component (split_on sl k) \<and> join_with [sl] (split_on sl k) = k
    \<and> path_clean k = k \<and> \<not> is_abs k \<and> \<not> has_control k \<and> CHR 0x5C \<notin> set k \<and> CHR 0x00 \<notin> set k"
proof -
  have comps: "list_all normal_component (split_on sl k)"
    using assms by (rule storage_key_components)
  have "\<not> is_abs k" "\<not> has_control k" "CHR 0x5C \<notin> set k" "CHR 0x00 \<notin> set k"
    using assms by (auto simp: ValidateStorageKey_def is_abs_def contains_any_def list_ex_iff)
  then show ?thesis using comps storage_key_canonical_check_redundant [OF comps] by simp
qed

text \<open>
  The key a deployer stores a layer under is always one every store accepts: for valid
  build and artifact identifiers \<open>StorageKeyFor\<close> is a valid storage key.
\<close>

lemma StorageKeyFor_valid:
  assumes "ids_Validate ''bld_id'' b = None" and "ids_Validate ''art_id'' a = None"
  shows "ValidateStorageKey (StorageKeyFor b a) = None"
proof -
  have b: "normal_component b" "visible_ascii b" "length b \<le> 255"
    and a: "length a \<le> 255" and ids: "valid_id b" "valid_id a"
    using assms valid_id_normal_component valid_id_visible valid_id_length by auto
  have "CHR 0x5C \<notin> set b"
    using ids(1) by (auto simp: valid_id_def list_all_iff safe_char_def safe_rune_def byte_val_def)
  then have "ValidateStorageKey (join_with [sl] [b, a @ ''.zip'']) = None"
    using b a zip_name_normal [OF ids(2)] by (intro valid_storage_keyI) simp_all
  then show ?thesis by (simp add: StorageKeyFor_def)
qed

text \<open>
  A build \<open>build.New\<close> seals has exactly the artifacts it was given, no two layers of
  one name, a code layer that \<open>Layer\<close> finds, no install layer when its runtime is
  compiled, and every artifact at a storage key each store accepts.
\<close>

lemma build_New_sealed:
  assumes "build_New bid aid did rt sha artifacts now = Inr b"
  shows "bld_Artifacts b = artifacts \<and> distinct (map art_Name artifacts)
    \<and> (\<exists>a \<in> set artifacts. build_Layer b LayerCode = Some a \<and> art_Name a = LayerCode)
    \<and> (runtime_Compiled rt \<longrightarrow> build_Layer b LayerInstall = None)
    \<and> (\<forall>a \<in> set artifacts. ValidateStorageKey (art_StorageKey a) = None \<and> 0 \<le> art_SizeBytes a)"
proof -
  have ok: "build_ok b" and f: "bld_Artifacts b = artifacts" "bld_Runtime b = rt"
    using assms by (auto simp: build_New_def)
  have "build_Layer b LayerCode \<noteq> None"
    using ok by (simp add: build_Layer_None_iff build_ok_def)
  then obtain a where a: "build_Layer b LayerCode = Some a" by auto
  then have "a \<in> set artifacts \<and> art_Name a = LayerCode"
    using f(1) by (auto simp: build_Layer_def dest!: find_Some_mem)
  moreover have "runtime_Compiled rt \<longrightarrow> build_Layer b LayerInstall = None"
    using ok f by (simp add: build_Layer_None_iff build_ok_def)
  ultimately show ?thesis using a ok f by (auto simp: build_ok_def ValidateArtifact_def)
qed

definition sample_artifact :: artifact where
  "sample_artifact =
     \<lparr>art_ID = ''art_2'', art_Name = ''code'', art_SizeBytes = 3,
      art_SHA256 = replicate 64 CHR ''a'', art_StorageKey = ''bld_1/art_2.zip'',
      art_CreatedAt = 7\<rparr>"

lemma sample_artifact_valid: "ValidateArtifact sample_artifact = None"
proof -
  have "ValidateStorageKey (join_with [sl] [''bld_1'', ''art_2.zip'']) = None"
    by (rule valid_storage_keyI) (simp_all add: normal_component_def sl_def byte_val_def)
  moreover have "runes (replicate n CHR ''a'') = replicate n 97" for n
    by (induction n) (simp_all add: byte_val_def)
  ultimately show ?thesis
    by (simp add: ValidateArtifact_def sample_artifact_def sl_def validateLayerName_def
        valid_id_def safe_char_def safe_rune_def byte_val_def windowsDeviceName_def
        device_names_def upper_is_def layer_rune_def hex_rune_def is_zero_def has_prefix_def
        list_all_iff)
qed

text \<open>
  Detection is decided by the first manifest of the marker list found at the source
  root, whatever order the map of script extensions is visited in; without a manifest the
  answer is one of the script runtimes whose extension occurs at the root.
\<close>

lemma DetectRuntime_manifest:
  "(case find (\<lambda>(n, r). n \<in> set (root_names names)) markers of
      Some (n, r) \<Rightarrow> DetectRuntime order names = Inr r
    | None \<Rightarrow> (\<forall>r. DetectRuntime order names = Inr r \<longrightarrow>
        (\<exists>e. (e, r) \<in> set order
            \<and> e \<in> set (List.map_filter extension_of (root_names names)))))"
proof (cases "find (\<lambda>(n, r). n \<in> set (root_names names)) markers")
  case None
  then show ?thesis
    by (auto simp: DetectRuntime_def Let_def split: option.splits dest!: find_Some_mem)
qed (auto simp: DetectRuntime_def)

text \<open>
  For a source with scripts of two languages and no manifest the detected runtime
  depends on the unspecified iteration order of the extension map: the same names give
  Python in one order and Node in another.
\<close>

lemma DetectRuntime_order_dependent:
  "DetectRuntime script_extensions [''main.py'', ''app.js''] = Inr RuntimePython
   \<and> DetectRuntime (rev script_extensions) [''main.py'', ''app.js''] = Inr RuntimeNode"
  by code_simp

end
