(* ===== verification/GoJson.thy ===== *)
theory GoJson
  imports GoStrings
begin

text \<open>
  What the sources use of \<open>encoding/json\<close> on raw messages: \<open>json.RawMessage\<close> values (nil
  or bytes) and \<open>json.Valid\<close>, the syntax checker of the package as the byte at a time
  state machine it is.
\<close>

section \<open>Raw messages\<close>

type_synonym raw = "string option"

definition raw_bytes :: "raw \<Rightarrow> string" where
  "raw_bytes r = (case r of None \<Rightarrow> [] | Some bs \<Rightarrow> bs)"

text \<open>\<open>append(json.RawMessage(nil), r...)\<close>: a copy, nil when there is nothing to copy.\<close>

definition append_nil :: "raw \<Rightarrow> raw" where
  "append_nil r = (if raw_bytes r = [] then None else Some (raw_bytes r))"

lemma raw_bytes_simps [simp]: "raw_bytes None = []" "raw_bytes (Some bs) = bs"
  by (simp_all add: raw_bytes_def)

lemma raw_bytes_append_nil [simp]: "raw_bytes (append_nil r) = raw_bytes r"
  by (simp add: append_nil_def)

lemma append_nil_None [simp]: "append_nil r = None \<longleftrightarrow> raw_bytes r = []"
  by (simp add: append_nil_def)

lemma append_nil_idem [simp]: "append_nil (append_nil r) = append_nil r"
  by (simp add: append_nil_def)

section \<open>The JSON scanner\<close>

datatype json_ctx = ObjectKey | ObjectValue | ArrayValue

datatype json_state =
    BeginValue | BeginValueOrEmpty | BeginStringOrEmpty | BeginString | EndValue | EndTop
  | InString | InStringEsc | InStringEscU nat
  | Neg | Num0 | Num1 | Dot | Dot0 | NumE | NumESign | NumE0
  | Literal string

type_synonym json_conf = "json_state \<times> json_ctx list"

definition json_space :: "char \<Rightarrow> bool" where
  "json_space c \<longleftrightarrow> c = CHR 0x20 \<or> c = CHR 0x09 \<or> c = CHR 0x0D \<or> c = CHR 0x0A"

definition is_digit :: "char \<Rightarrow> bool" where
  "is_digit c \<longleftrightarrow> 48 \<le> byte_val c \<and> byte_val c \<le> 57"

definition is_hex :: "char \<Rightarrow> bool" where
  "is_hex c \<longleftrightarrow> is_digit c \<or> (97 \<le> byte_val c \<and> byte_val c \<le> 102)
     \<or> (65 \<le> byte_val c \<and> byte_val c \<le> 70)"

definition maxNestingDepth :: nat where
  "maxNestingDepth = 10000"

definition json_push :: "json_ctx \<Rightarrow> json_ctx list \<Rightarrow> json_state \<Rightarrow> json_conf option" where
  "json_push ctx st k = (if length st < maxNestingDepth then Some (k, ctx # st) else None)"

definition json_pop :: "json_ctx list \<Rightarrow> json_conf" where
  "json_pop st = (if st = [] then EndTop else EndValue, st)"

fun json_end_value :: "char \<Rightarrow> json_ctx list \<Rightarrow> json_conf option" where
  "json_end_value c [] = (if json_space c then Some (EndTop, []) else None)"
| "json_end_value c (ctx # st) =
     (if json_space c then Some (EndValue, ctx # st)
      else case ctx of
        ObjectKey \<Rightarrow> if c = CHR '':'' then Some (BeginValue, ObjectValue # st) else None
      | ObjectValue \<Rightarrow>
          if c = CHR '','' then Some (BeginString, ObjectKey # st)
          else if c = CHR 0x7D then Some (json_pop st) else None
      | ArrayValue \<Rightarrow>
          if c = CHR '','' then Some (BeginValue, ArrayValue # st)
          else if c = CHR 0x5D then Some (json_pop st) else None)"

definition json_begin_value :: "char \<Rightarrow> json_ctx list \<Rightarrow> json_conf option" where
  "json_begin_value c st =
     (if json_space c then Some (BeginValue, st)
      else if c = CHR 0x7B then json_push ObjectKey st BeginStringOrEmpty
      else if c = CHR 0x5B then json_push ArrayValue st BeginValueOrEmpty
      else if c = CHR 0x22 then Some (InString, st)
      else if c = CHR ''-'' then Some (Neg, st)
      else if c = CHR ''0'' then Some (Num0, st)
      else if c = CHR ''t'' then Some (Literal ''rue'', st)
      else if c = CHR ''f'' then Some (Literal ''alse'', st)
      else if c = CHR ''n'' then Some (Literal ''ull'', st)
      else if is_digit c then Some (Num1, st)
      else None)"

definition json_begin_string :: "char \<Rightarrow> json_ctx list \<Rightarrow> json_conf option" where
  "json_begin_string c st =
     (if json_space c then Some (BeginString, st)
      else if c = CHR 0x22 then Some (InString, st) else None)"

definition json_num0 :: "char \<Rightarrow> json_ctx list \<Rightarrow> json_conf option" where
  "json_num0 c st =
     (if c = CHR ''.'' then Some (Dot, st)
      else if c = CHR ''e'' \<or> c = CHR ''E'' then Some (NumE, st)
      else json_end_value c st)"

definition json_esign :: "char \<Rightarrow> json_ctx list \<Rightarrow> json_conf option" where
  "json_esign c st = (if is_digit c then Some (NumE0, st) else None)"

fun json_step :: "char \<Rightarrow> json_conf \<Rightarrow> json_conf option" where
  "json_step c (BeginValue, st) = json_begin_value c st"
| "json_step c (BeginValueOrEmpty, st) =
     (if json_space c then Some (BeginValueOrEmpty, st)
      else if c = CHR 0x5D then json_end_value c st
      else json_begin_value c st)"
| "json_step c (BeginStringOrEmpty, st) =
     (if json_space c then Some (BeginStringOrEmpty, st)
      else if c = CHR 0x7D then
        (case st of [] \<Rightarrow> None | ctx # st' \<Rightarrow> json_end_value c (ObjectValue # st'))
      else json_begin_string c st)"
| "json_step c (BeginString, st) = json_begin_string c st"
| "json_step c (EndValue, st) = json_end_value c st"
| "json_step c (EndTop, st) = (if json_space c then Some (EndTop, st) else None)"
| "json_step c (InString, st) =
     (if c = CHR 0x22 then Some (EndValue, st)
      else if c = CHR 0x5C then Some (InStringEsc, st)
      else if byte_val c < 32 then None else Some (InString, st))"
| "json_step c (InStringEsc, st) =
     (if c \<in> {CHR ''b'', CHR ''f'', CHR ''n'', CHR ''r'', CHR ''t'', CHR 0x5C, CHR ''/'', CHR 0x22}
      then Some (InString, st)
      else if c = CHR ''u'' then Some (InStringEscU 4, st) else None)"
| "json_step c (InStringEscU n, st) =
     (if is_hex c then Some (if n \<le> 1 then InString else InStringEscU (n - 1), st) else None)"
| "json_step c (Neg, st) =
     (if c = CHR ''0'' then Some (Num0, st) else if is_digit c then Some (Num1, st) else None)"
| "json_step c (Num1, st) = (if is_digit c then Some (Num1, st) else json_num0 c st)"
| "json_step c (Num0, st) = json_num0 c st"
| "json_step c (Dot, st) = (if is_digit c then Some (Dot0, st) else None)"
| "json_step c (Dot0, st) =
     (if is_digit c then Some (Dot0, st)
      else if c = CHR ''e'' \<or> c = CHR ''E'' then Some (NumE, st)
      else json_end_value c st)"
| "json_step c (NumE, st) =
     (if c = CHR ''+'' \<or> c = CHR ''-'' then Some (NumESign, st) else json_esign c st)"
| "json_step c (NumESign, st) = json_esign c st"
| "json_step c (NumE0, st) =
     (if is_digit c then Some (NumE0, st) else json_end_value c st)"
| "json_step c (Literal w, st) =
     (case w of
        [] \<Rightarrow> json_end_value c st
      | d # ds \<Rightarrow>
          if c = d then Some (if ds = [] then EndValue else Literal ds, st) else None)"

fun json_run :: "string \<Rightarrow> json_conf \<Rightarrow> json_conf option" where
  "json_run [] conf = Some conf"
| "json_run (c # s) conf =
     (case json_step c conf of None \<Rightarrow> None | Some conf' \<Rightarrow> json_run s conf')"

text \<open>
  \<open>json.Valid\<close>: the bytes, then the blank the scanner feeds itself at the end of the input,
  must leave it after a complete top level value.
\<close>

definition json_valid :: "string \<Rightarrow> bool" where
  "json_valid s =
     (case json_run (s @ [CHR 0x20]) (BeginValue, []) of
        None \<Rightarrow> False | Some (k, st) \<Rightarrow> k = EndTop)"

lemma json_valid_nonempty: "json_valid s \<Longrightarrow> s \<noteq> []"
  by (auto simp: json_valid_def json_begin_value_def json_space_def)

lemma json_valid_not_Nil [simp]: "\<not> json_valid []"
  using json_valid_nonempty by blast

lemma json_valid_null [simp]: "json_valid ''null''"
  by (simp add: json_valid_def json_begin_value_def json_space_def is_digit_def byte_val_def)

end
