(* ===== verification/Lifecycle.thy ===== *)
theory Lifecycle
  imports Prelude
begin

text \<open>
  The contract the two stored state machines of the system share, executions and
  deployments: steps keep a record valid and its identity fixed, never move it back to an
  earlier stage, and leave the outcome of a finished record alone. What holds of a single
  step is lifted here, once, to whole histories.
\<close>

locale lifecycle =
  fixes step :: "'r \<Rightarrow> 'r \<Rightarrow> bool"
    and ok :: "'r \<Rightarrow> bool"
    and ident :: "'r \<Rightarrow> 'i"
    and rank :: "'r \<Rightarrow> nat"
    and final :: "'r \<Rightarrow> bool"
    and outcome :: "'r \<Rightarrow> 'o"
  assumes step_ok: "step r n \<Longrightarrow> ok r \<Longrightarrow> ok n"
    and step_ident: "step r n \<Longrightarrow> ident n = ident r"
    and step_rank: "step r n \<Longrightarrow> rank r \<le> rank n"
    and step_final: "step r n \<Longrightarrow> final r \<Longrightarrow> final n \<and> outcome n = outcome r"
begin

lemma history_ok: "step\<^sup>*\<^sup>* r n \<Longrightarrow> ok r \<Longrightarrow> ok n"
  by (induction rule: rtranclp_induct) (auto intro: step_ok)

lemma history_ident: "step\<^sup>*\<^sup>* r n \<Longrightarrow> ident n = ident r"
  by (induction rule: rtranclp_induct) (auto dest: step_ident)

lemma history_rank: "step\<^sup>*\<^sup>* r n \<Longrightarrow> rank r \<le> rank n"
  by (induction rule: rtranclp_induct) (auto dest: step_rank)

lemma history_final: "step\<^sup>*\<^sup>* r n \<Longrightarrow> final r \<Longrightarrow> final n \<and> outcome n = outcome r"
  by (induction rule: rtranclp_induct) (auto dest: step_final)

text \<open>Two finished records of one history have the same outcome: there is only one ending.\<close>

lemma history_one_outcome:
  assumes "step\<^sup>*\<^sup>* r n" and "step\<^sup>*\<^sup>* n m" and "final n"
  shows "final m \<and> outcome m = outcome n"
  using history_final [OF assms(2,3)] .

end

end
