(* ===== verification/Executions.thy ===== *)
theory Executions
  imports Ids GoJson Lifecycle
begin

text \<open>
  Package \<open>internal/domain/execution\<close>: the durable record of one invocation and its life,
  queued, running, then succeeded or failed. Operations with a pointer receiver return the
  record they leave behind together with the error, because Go keeps the changes also when
  the closing validation fails. The theorems give each operation's outcome on every
  branch, show that the operations keep the record valid and its pinned fields fixed, and
  that they only ever make the transitions \<open>ValidateTransitionTo\<close> accepts.
\<close>

section \<open>Records\<close>

datatype exec_status =
    StatusQueued | StatusRunning | StatusSucceeded | StatusFailed | StatusOther string

fun exec_Valid_status :: "exec_status \<Rightarrow> bool" where
  "exec_Valid_status (StatusOther s) = False"
| "exec_Valid_status st = True"

definition Terminal :: "exec_status \<Rightarrow> bool" where
  "Terminal st \<longleftrightarrow> st = StatusSucceeded \<or> st = StatusFailed"

record failure =
  fail_Code :: string
  fail_Message :: string

definition bad_failure :: "failure \<Rightarrow> bool" where
  "bad_failure f \<longleftrightarrow>
     fail_Code f = [] \<or> length (fail_Code f) > 128
     \<or> trim_space (fail_Message f) = [] \<or> length (fail_Message f) > 4096"

definition exec_failure_Validate :: "failure \<Rightarrow> go_err" where
  "exec_failure_Validate f =
     guard (bad_failure f) (wrapf Execution_ErrInvalid ''failure metadata is invalid'')"

definition MaxLogBytes :: nat where
  "MaxLogBytes = 262144"

definition MaxInlineOutputBytes :: nat where
  "MaxInlineOutputBytes = 4194304"

record execution =
  exe_ID :: string
  exe_ProjectID :: string
  exe_AppID :: string
  exe_BuildID :: string
  exe_Status :: exec_status
  exe_Input :: raw
  exe_Output :: raw
  exe_Failure :: "failure option"
  exe_Logs :: string
  exe_CreatedAt :: time
  exe_StartedAt :: "time option"
  exe_FinishedAt :: "time option"
  exe_RerunOf :: string

section \<open>Validation\<close>

definition exec_id_checks :: "execution \<Rightarrow> go_err list" where
  "exec_id_checks r =
     map (\<lambda>(field, v). rethrow Execution_ErrInvalid (ids_Validate field v))
       ([(''project_id'', exe_ProjectID r), (''execution_id'', exe_ID r),
         (''app_id'', exe_AppID r), (''build_id'', exe_BuildID r)]
        @ (if exe_RerunOf r \<noteq> [] then [(''rerun_of_execution_id'', exe_RerunOf r)] else []))"

definition exec_status_checks :: "execution \<Rightarrow> go_err" where
  "exec_status_checks r =
     (case exe_Status r of
        StatusQueued \<Rightarrow>
          guard (exe_StartedAt r \<noteq> None \<or> exe_FinishedAt r \<noteq> None \<or> exe_Output r \<noteq> None
                 \<or> exe_Failure r \<noteq> None \<or> exe_Logs r \<noteq> [])
            (wrapf Execution_ErrInvalid ''queued execution contains terminal state'')
      | StatusRunning \<Rightarrow>
          guard (exe_StartedAt r = None \<or> exe_FinishedAt r \<noteq> None \<or> exe_Output r \<noteq> None
                 \<or> exe_Failure r \<noteq> None)
            (wrapf Execution_ErrInvalid ''running execution state is invalid'')
      | StatusSucceeded \<Rightarrow>
          first_err [
            guard (exe_StartedAt r = None \<or> exe_FinishedAt r = None
                   \<or> \<not> json_valid (raw_bytes (exe_Output r)) \<or> exe_Failure r \<noteq> None)
              (wrapf Execution_ErrInvalid ''succeeded execution state is invalid''),
            guard (length (raw_bytes (exe_Output r)) > MaxInlineOutputBytes)
              (wrapf Execution_ErrInvalid ''execution output exceeds what a row carries'')]
      | StatusFailed \<Rightarrow>
          guard (exe_StartedAt r = None \<or> exe_FinishedAt r = None \<or> exe_Output r \<noteq> None
                 \<or> exe_Failure r = None)
            (wrapf Execution_ErrInvalid ''failed execution state is invalid'')
      | StatusOther s \<Rightarrow> None)"

definition exec_Validate :: "execution \<Rightarrow> go_err" where
  "exec_Validate r =
     first_err (exec_id_checks r @ [
       guard (\<not> exec_Valid_status (exe_Status r) \<or> is_zero (exe_CreatedAt r)
              \<or> \<not> json_valid (raw_bytes (exe_Input r)))
         (wrapf Execution_ErrInvalid ''execution metadata is invalid''),
       exec_status_checks r,
       guard (length (exe_Logs r) > MaxLogBytes)
         (wrapf Execution_ErrInvalid ''execution logs exceed the persistence bound''),
       guard (case exe_StartedAt r of None \<Rightarrow> False | Some s \<Rightarrow> s < exe_CreatedAt r)
         (wrapf Execution_ErrInvalid ''execution start time is invalid''),
       guard (case exe_FinishedAt r of
                None \<Rightarrow> False
              | Some f \<Rightarrow> (case exe_StartedAt r of None \<Rightarrow> True | Some s \<Rightarrow> f < s))
         (wrapf Execution_ErrInvalid ''execution finish time is invalid''),
       (case exe_Failure r of None \<Rightarrow> None | Some f \<Rightarrow> exec_failure_Validate f)])"

section \<open>Operations\<close>

definition exec_New ::
  "string \<Rightarrow> string \<Rightarrow> string \<Rightarrow> string \<Rightarrow> raw \<Rightarrow> time \<Rightarrow> execution result"
where
  "exec_New i projectID appID buildID inp now =
     (let r = \<lparr>exe_ID = i, exe_ProjectID = projectID, exe_AppID = appID, exe_BuildID = buildID,
               exe_Status = StatusQueued, exe_Input = append_nil inp, exe_Output = None,
               exe_Failure = None, exe_Logs = [], exe_CreatedAt = now, exe_StartedAt = None,
               exe_FinishedAt = None, exe_RerunOf = []\<rparr>
      in check (exec_Validate r) (Inr r))"

definition exec_Rerun :: "execution \<Rightarrow> string \<Rightarrow> time \<Rightarrow> execution result" where
  "exec_Rerun r i now =
     (if \<not> Terminal (exe_Status r)
      then Inl (wrapf Execution_ErrInvalid ''only a finished execution can be rerun'')
      else let n = \<lparr>exe_ID = i, exe_ProjectID = exe_ProjectID r, exe_AppID = exe_AppID r,
                    exe_BuildID = exe_BuildID r, exe_Status = StatusQueued,
                    exe_Input = append_nil (exe_Input r), exe_Output = None,
                    exe_Failure = None, exe_Logs = [], exe_CreatedAt = now,
                    exe_StartedAt = None, exe_FinishedAt = None, exe_RerunOf = exe_ID r\<rparr>
           in check (exec_Validate n) (Inr n))"

definition claimed :: "execution \<Rightarrow> time \<Rightarrow> execution" where
  "claimed r now =
     r\<lparr>exe_Status := StatusRunning, exe_StartedAt := Some now, exe_FinishedAt := None,
       exe_Output := None, exe_Failure := None, exe_Logs := []\<rparr>"

definition exec_Claim :: "execution \<Rightarrow> time \<Rightarrow> execution \<times> go_err" where
  "exec_Claim r now =
     (if exe_Status r \<noteq> StatusQueued then (r, Some (wrapf Execution_ErrNotQueued (exe_ID r)))
      else if is_zero now
      then (r, Some (wrapf Execution_ErrInvalid ''claim time is required''))
      else (claimed r now, exec_Validate (claimed r now)))"

definition succeeded :: "execution \<Rightarrow> raw \<Rightarrow> string \<Rightarrow> time \<Rightarrow> execution" where
  "succeeded r out logs now =
     r\<lparr>exe_Status := StatusSucceeded, exe_Output := append_nil out, exe_Failure := None,
       exe_Logs := logs, exe_FinishedAt := Some now\<rparr>"

definition exec_Succeed :: "execution \<Rightarrow> raw \<Rightarrow> string \<Rightarrow> time \<Rightarrow> execution \<times> go_err" where
  "exec_Succeed r out logs now =
     (if exe_Status r \<noteq> StatusRunning
      then (r, Some (wrapf Execution_ErrConflict ''only a running execution can succeed''))
      else (succeeded r out logs now, exec_Validate (succeeded r out logs now)))"

definition failed :: "execution \<Rightarrow> failure \<Rightarrow> string \<Rightarrow> time \<Rightarrow> execution" where
  "failed r f logs now =
     r\<lparr>exe_Status := StatusFailed, exe_Output := None, exe_Failure := Some f,
       exe_Logs := logs, exe_FinishedAt := Some now\<rparr>"

definition exec_Fail :: "execution \<Rightarrow> failure \<Rightarrow> string \<Rightarrow> time \<Rightarrow> execution \<times> go_err" where
  "exec_Fail r f logs now =
     (if exe_Status r \<noteq> StatusRunning
      then (r, Some (wrapf Execution_ErrConflict ''only a running execution can fail''))
      else (failed r f logs now, exec_Validate (failed r f logs now)))"

definition exec_ValidateTransitionTo :: "execution \<Rightarrow> execution \<Rightarrow> go_err" where
  "exec_ValidateTransitionTo r n =
     first_err [
       guard (exe_Status r \<noteq> StatusRunning \<or> \<not> Terminal (exe_Status n))
         (wrapf Execution_ErrConflict
            ''execution must transition from running to a terminal status''),
       guard (exe_ID r \<noteq> exe_ID n \<or> exe_ProjectID r \<noteq> exe_ProjectID n
              \<or> exe_AppID r \<noteq> exe_AppID n \<or> exe_BuildID r \<noteq> exe_BuildID n
              \<or> exe_RerunOf r \<noteq> exe_RerunOf n \<or> exe_CreatedAt r \<noteq> exe_CreatedAt n
              \<or> raw_bytes (exe_Input r) \<noteq> raw_bytes (exe_Input n)
              \<or> exe_StartedAt r = None \<or> exe_StartedAt n = None
              \<or> exe_StartedAt r \<noteq> exe_StartedAt n)
         (wrapf Execution_ErrConflict ''immutable execution metadata changed'')]"

definition exec_Clone :: "execution \<Rightarrow> execution" where
  "exec_Clone r = r\<lparr>exe_Input := append_nil (exe_Input r), exe_Output := append_nil (exe_Output r)\<rparr>"

lemmas exec_op_defs = exec_Claim_def exec_Succeed_def exec_Fail_def
  claimed_def succeeded_def failed_def

section \<open>What a valid record is\<close>

text \<open>The identity of an execution: what no operation on it may change.\<close>

definition same_identity :: "execution \<Rightarrow> execution \<Rightarrow> bool" where
  "same_identity r n \<longleftrightarrow>
     exe_ID r = exe_ID n \<and> exe_ProjectID r = exe_ProjectID n \<and> exe_AppID r = exe_AppID n
     \<and> exe_BuildID r = exe_BuildID n \<and> exe_RerunOf r = exe_RerunOf n
     \<and> exe_CreatedAt r = exe_CreatedAt n \<and> raw_bytes (exe_Input r) = raw_bytes (exe_Input n)"

definition exec_identity_ok :: "execution \<Rightarrow> bool" where
  "exec_identity_ok r \<longleftrightarrow>
     valid_id (exe_ProjectID r) \<and> valid_id (exe_ID r) \<and> valid_id (exe_AppID r)
     \<and> valid_id (exe_BuildID r) \<and> (exe_RerunOf r \<noteq> [] \<longrightarrow> valid_id (exe_RerunOf r))
     \<and> \<not> is_zero (exe_CreatedAt r) \<and> json_valid (raw_bytes (exe_Input r))"

text \<open>What each status claims of the other fields.\<close>

definition exec_state_ok :: "execution \<Rightarrow> bool" where
  "exec_state_ok r \<longleftrightarrow>
     (case exe_Status r of
        StatusQueued \<Rightarrow>
          exe_StartedAt r = None \<and> exe_FinishedAt r = None \<and> exe_Output r = None
          \<and> exe_Failure r = None \<and> exe_Logs r = []
      | StatusRunning \<Rightarrow>
          (\<exists>s. exe_StartedAt r = Some s \<and> exe_CreatedAt r \<le> s)
          \<and> exe_FinishedAt r = None \<and> exe_Output r = None \<and> exe_Failure r = None
      | StatusSucceeded \<Rightarrow>
          (\<exists>s f. exe_StartedAt r = Some s \<and> exe_FinishedAt r = Some f
                 \<and> exe_CreatedAt r \<le> s \<and> s \<le> f)
          \<and> json_valid (raw_bytes (exe_Output r))
          \<and> length (raw_bytes (exe_Output r)) \<le> MaxInlineOutputBytes \<and> exe_Failure r = None
      | StatusFailed \<Rightarrow>
          (\<exists>s f. exe_StartedAt r = Some s \<and> exe_FinishedAt r = Some f
                 \<and> exe_CreatedAt r \<le> s \<and> s \<le> f)
          \<and> exe_Output r = None \<and> (\<exists>f. exe_Failure r = Some f \<and> \<not> bad_failure f)
      | StatusOther s \<Rightarrow> False)"

definition exec_ok :: "execution \<Rightarrow> bool" where
  "exec_ok r \<longleftrightarrow> exec_identity_ok r \<and> exec_state_ok r \<and> length (exe_Logs r) \<le> MaxLogBytes"

lemma exec_id_checks_None:
  "first_err (exec_id_checks r @ es) = None \<longleftrightarrow>
     valid_id (exe_ProjectID r) \<and> valid_id (exe_ID r) \<and> valid_id (exe_AppID r)
     \<and> valid_id (exe_BuildID r) \<and> (exe_RerunOf r \<noteq> [] \<longrightarrow> valid_id (exe_RerunOf r))
     \<and> first_err es = None"
  by (auto simp: exec_id_checks_def)

text \<open>\<open>Execution.Validate\<close> accepts exactly these records.\<close>

lemma exec_Validate_None_iff [simp]: "exec_Validate r = None \<longleftrightarrow> exec_ok r"
  unfolding exec_Validate_def exec_id_checks_None exec_ok_def exec_identity_ok_def
    exec_state_ok_def exec_status_checks_def exec_failure_Validate_def
  by (cases "exe_Status r"; cases "exe_StartedAt r"; cases "exe_FinishedAt r";
      cases "exe_Failure r") (auto simp: MaxLogBytes_def)

lemma same_identity_ok: "same_identity r n \<Longrightarrow> exec_identity_ok n = exec_identity_ok r"
  by (auto simp: same_identity_def exec_identity_ok_def)

lemma same_identity_refl [simp]: "same_identity r r"
  by (simp add: same_identity_def)

lemma same_identity_trans: "same_identity a b \<Longrightarrow> same_identity b c \<Longrightarrow> same_identity a c"
  by (simp add: same_identity_def)

lemma same_identity_ops [simp]:
  "same_identity r (claimed r now)"
  "same_identity r (succeeded r out logs now)"
  "same_identity r (failed r f logs now)"
  "same_identity r (exec_Clone r)"
  by (simp_all add: same_identity_def claimed_def succeeded_def failed_def exec_Clone_def)

text \<open>The outcome of the operations on a valid record, as conditions on the arguments.\<close>

lemma claimed_ok:
  assumes "exec_ok r" and "exe_Status r = StatusQueued"
  shows "exec_ok (claimed r now) \<longleftrightarrow> exe_CreatedAt r \<le> now"
  using assms same_identity_ok [of r "claimed r now"]
  by (auto simp: exec_ok_def exec_state_ok_def) (auto simp: claimed_def)

lemma succeeded_ok:
  assumes "exec_ok r" and "exe_Status r = StatusRunning"
  shows "exec_ok (succeeded r out logs now) \<longleftrightarrow>
     json_valid (raw_bytes out) \<and> length (raw_bytes out) \<le> MaxInlineOutputBytes
     \<and> length logs \<le> MaxLogBytes \<and> the (exe_StartedAt r) \<le> now"
  using assms same_identity_ok [of r "succeeded r out logs now"]
  by (auto simp: exec_ok_def exec_state_ok_def) (auto simp: succeeded_def)

lemma failed_ok:
  assumes "exec_ok r" and "exe_Status r = StatusRunning"
  shows "exec_ok (failed r f logs now) \<longleftrightarrow>
     \<not> bad_failure f \<and> length logs \<le> MaxLogBytes \<and> the (exe_StartedAt r) \<le> now"
  using assms same_identity_ok [of r "failed r f logs now"]
  by (auto simp: exec_ok_def exec_state_ok_def) (auto simp: failed_def)

lemma exec_Clone_ok [simp]: "exec_ok r \<Longrightarrow> exec_ok (exec_Clone r)"
  by (auto simp: exec_ok_def exec_identity_ok_def exec_state_ok_def exec_Clone_def append_nil_def
      raw_bytes_def split: exec_status.splits)

lemma exec_Clone_eq: "exec_ok r \<Longrightarrow> exec_Clone r = r"
  by (cases "exe_Input r"; cases "exe_Output r"; cases "exe_Status r")
     (auto simp: exec_ok_def exec_identity_ok_def exec_state_ok_def exec_Clone_def append_nil_def)

section \<open>The life of an execution\<close>

text \<open>
  One step of the record's life is one operation that returned no error. The two branches
  that finish an execution are the only ones that leave \<open>running\<close>.
\<close>

inductive exec_step :: "execution \<Rightarrow> execution \<Rightarrow> bool" where
  claim: "exec_Claim r now = (n, None) \<Longrightarrow> exec_step r n"
| succeed: "exec_Succeed r out logs now = (n, None) \<Longrightarrow> exec_step r n"
| fail: "exec_Fail r f logs now = (n, None) \<Longrightarrow> exec_step r n"

inductive_cases exec_stepE: "exec_step r n"

definition exec_ident :: "execution \<Rightarrow> string \<times> string \<times> string \<times> string \<times> string \<times> time \<times> string" where
  "exec_ident r =
     (exe_ID r, exe_ProjectID r, exe_AppID r, exe_BuildID r, exe_RerunOf r, exe_CreatedAt r,
      raw_bytes (exe_Input r))"

definition exec_rank :: "execution \<Rightarrow> nat" where
  "exec_rank r =
     (case exe_Status r of StatusQueued \<Rightarrow> 0 | StatusRunning \<Rightarrow> 1 | _ \<Rightarrow> 2)"

definition exec_final :: "execution \<Rightarrow> bool" where
  "exec_final r \<longleftrightarrow> Terminal (exe_Status r)"

lemma exec_ident_iff: "exec_ident n = exec_ident r \<longleftrightarrow> same_identity r n"
  by (auto simp: exec_ident_def same_identity_def)

lemma exec_Claim_NoneD:
  "exec_Claim r now = (n, None) \<Longrightarrow>
     exe_Status r = StatusQueued \<and> \<not> is_zero now \<and> n = claimed r now \<and> exec_ok n"
  by (auto simp: exec_Claim_def split: if_splits)

lemma exec_Succeed_NoneD:
  "exec_Succeed r out logs now = (n, None) \<Longrightarrow>
     exe_Status r = StatusRunning \<and> n = succeeded r out logs now \<and> exec_ok n"
  by (auto simp: exec_Succeed_def split: if_splits)

lemma exec_Fail_NoneD:
  "exec_Fail r f logs now = (n, None) \<Longrightarrow>
     exe_Status r = StatusRunning \<and> n = failed r f logs now \<and> exec_ok n"
  by (auto simp: exec_Fail_def split: if_splits)

lemma exec_step_cases:
  "exec_step r n \<Longrightarrow>
     same_identity r n \<and> exec_ok n
     \<and> ((exe_Status r = StatusQueued \<and> exe_Status n = StatusRunning)
        \<or> (exe_Status r = StatusRunning \<and> Terminal (exe_Status n)
            \<and> exe_StartedAt n = exe_StartedAt r))"
  by (erule exec_stepE)
     (auto dest!: exec_Claim_NoneD exec_Succeed_NoneD exec_Fail_NoneD simp: Terminal_def,
      auto simp: claimed_def succeeded_def failed_def)

interpretation exec_life: lifecycle exec_step exec_ok exec_ident exec_rank exec_final "\<lambda>r. r"
proof
  fix r n assume s: "exec_step r n"
  show "exec_ok r \<Longrightarrow> exec_ok n" using exec_step_cases [OF s] by simp
  show "exec_ident n = exec_ident r" using exec_step_cases [OF s] by (simp add: exec_ident_iff)
  show "exec_rank r \<le> exec_rank n"
    using exec_step_cases [OF s] by (auto simp: exec_rank_def Terminal_def)
  show "exec_final r \<Longrightarrow> exec_final n \<and> n = r"
    using exec_step_cases [OF s] by (auto simp: exec_final_def Terminal_def)
qed

section \<open>Properties\<close>

text \<open>
  Along any history of successful claims, successes and failures a record that started
  valid stays valid, keeps its identifier, app, build, input, creation time and rerun link,
  never returns to an earlier stage, and is never touched again once finished.
\<close>

lemma execution_history:
  assumes "exec_step\<^sup>*\<^sup>* r n" and "exec_ok r"
  shows "exec_Validate n = None \<and> exec_ident n = exec_ident r \<and> exec_rank r \<le> exec_rank n
    \<and> (Terminal (exe_Status r) \<longrightarrow> n = r)"
  using exec_life.history_ok [OF assms] exec_life.history_ident [OF assms(1)]
    exec_life.history_rank [OF assms(1)] exec_life.history_final [OF assms(1)]
  by (simp add: exec_final_def)

definition sample_exec :: execution where
  "sample_exec =
     \<lparr>exe_ID = ''exe_1'', exe_ProjectID = ''prj_1'', exe_AppID = ''app_1'',
      exe_BuildID = ''bld_1'', exe_Status = StatusQueued, exe_Input = Some ''null'',
      exe_Output = None, exe_Failure = None, exe_Logs = [], exe_CreatedAt = 10,
      exe_StartedAt = None, exe_FinishedAt = None, exe_RerunOf = []\<rparr>"

lemmas id_eval = valid_id_def safe_char_def safe_rune_def byte_val_def windowsDeviceName_def
  device_names_def upper_is_def

lemma sample_exec_ok: "exec_ok sample_exec"
  by (simp add: exec_ok_def exec_identity_ok_def exec_state_ok_def sample_exec_def is_zero_def
      id_eval)

lemma sample_exec_status [simp]:
  "exe_Status sample_exec = StatusQueued" "exe_CreatedAt sample_exec = 10"
  by (simp_all add: sample_exec_def)

lemma sample_claim: "exec_Claim sample_exec 20 = (claimed sample_exec 20, None)"
  using claimed_ok [OF sample_exec_ok, of 20] by (simp add: exec_Claim_def is_zero_def)

lemma sample_claimed_ok: "exec_ok (claimed sample_exec 20)"
  using sample_claim by (simp add: exec_Claim_def is_zero_def)

lemma sample_claimed_fields [simp]:
  "exe_Status (claimed sample_exec 20) = StatusRunning"
  "exe_StartedAt (claimed sample_exec 20) = Some 20"
  by (simp_all add: claimed_def)

text \<open>
  \<open>Claim\<close> on a valid record. It succeeds exactly when the record is queued and the claim
  time is set and not before the creation time; the result is a valid running record with
  that start time and nothing left of an earlier attempt. A record that is not queued is
  left as it was and the error is \<open>ErrNotQueued\<close>.
\<close>

lemma Claim_spec:
  assumes "exec_ok r"
  shows "(snd (exec_Claim r now) = None \<longleftrightarrow>
            exe_Status r = StatusQueued \<and> \<not> is_zero now \<and> exe_CreatedAt r \<le> now)
    \<and> (snd (exec_Claim r now) = None \<longrightarrow>
         (let n = fst (exec_Claim r now) in
          exec_ok n \<and> exe_Status n = StatusRunning \<and> exe_StartedAt n = Some now
          \<and> exe_Logs n = [] \<and> same_identity r n))
    \<and> (exe_Status r \<noteq> StatusQueued \<longrightarrow>
         exec_Claim r now = (r, Some (wrapf Execution_ErrNotQueued (exe_ID r))))"
  using claimed_ok [OF assms, of now]
  by (auto simp: exec_Claim_def) (auto simp: claimed_def)

text \<open>
  Finishing a valid running record. \<open>Succeed\<close> and \<open>Fail\<close> report an error exactly when
  the output is not JSON or larger than a row carries (respectively the failure is
  incomplete), the logs exceed the bound, or the finish time precedes the start; otherwise
  the finished record is one \<open>ValidateTransitionTo\<close> accepts as a successor of the running
  one.
\<close>

lemma finish_spec:
  assumes "exec_ok r" and "exe_Status r = StatusRunning"
  shows "(snd (exec_Succeed r out logs now) = None \<longleftrightarrow>
            json_valid (raw_bytes out) \<and> length (raw_bytes out) \<le> MaxInlineOutputBytes
            \<and> length logs \<le> MaxLogBytes \<and> the (exe_StartedAt r) \<le> now)
    \<and> (snd (exec_Fail r f logs now) = None \<longleftrightarrow>
            \<not> bad_failure f \<and> length logs \<le> MaxLogBytes \<and> the (exe_StartedAt r) \<le> now)
    \<and> exec_ValidateTransitionTo r (fst (exec_Succeed r out logs now)) = None
    \<and> exec_ValidateTransitionTo r (fst (exec_Fail r f logs now)) = None"
proof -
  have "exe_StartedAt r \<noteq> None"
    using assms by (auto simp: exec_ok_def exec_state_ok_def)
  then show ?thesis
    using succeeded_ok [OF assms] failed_ok [OF assms] assms(2)
    by (simp add: exec_Succeed_def exec_Fail_def exec_ValidateTransitionTo_def)
       (simp add: succeeded_def failed_def Terminal_def)
qed

text \<open>
  A rerun exists only for a finished execution and repeats it exactly: it is a valid
  queued record of the same project, app and build with the same input bytes, and it
  names the execution it repeats.
\<close>

lemma Rerun_repeats:
  assumes "exec_Rerun r i now = Inr n"
  shows "Terminal (exe_Status r) \<and> exec_Validate n = None \<and> exe_Status n = StatusQueued
    \<and> exe_ID n = i \<and> exe_RerunOf n = exe_ID r \<and> exe_ProjectID n = exe_ProjectID r
    \<and> exe_AppID n = exe_AppID r \<and> exe_BuildID n = exe_BuildID r
    \<and> raw_bytes (exe_Input n) = raw_bytes (exe_Input r)"
  using assms by (auto simp: exec_Rerun_def split: if_splits)

end
