(* ===== verification/Database.thy ===== *)
theory Database
  imports Builds Executions
begin

text \<open>
  The tables the repositories of \<open>internal/repository/database\<close> read and write, and what
  they rely on of PostgreSQL. The server itself is not part of the repository: the
  canonical text its jsonb type gives a document (or its refusal), the stored size of a
  jsonb value and the collation of text are the fields of a parameter \<open>pg\<close>. A statement
  that fails leaves the tables as they were, and so does a transaction that is rolled back.
\<close>

record pgsql =
  pg_jsonb :: "string \<Rightarrow> string option"
  pg_size :: "string \<Rightarrow> nat"
  pg_le :: "string \<Rightarrow> string \<Rightarrow> bool"

text \<open>\<open>repository.go\<close>: \<open>postgresTime\<close>, \<open>postgresLimit\<close>, \<open>nullableString\<close>, \<open>advisoryKey\<close>.\<close>

definition postgresTime :: "time \<Rightarrow> time" where
  "postgresTime t = time_truncate t microsecond"

definition postgresLimit :: "int \<Rightarrow> 32 word" where
  "postgresLimit limit = (if limit \<le> 0 then 2147483647 else word_of_int limit)"

definition nullableString :: "string \<Rightarrow> string option" where
  "nullableString v = (if v = [] then None else Some v)"

definition advisoryKey :: "string list \<Rightarrow> string" where
  "advisoryKey parts = join_with [sl] parts"

definition requireOneRow :: "nat \<Rightarrow> string \<Rightarrow> go_err" where
  "requireOneRow affected message = guard (affected \<noteq> 1) (Plain message)"

text \<open>
  \<open>ORDER BY created_at, id\<close>, by insertion; ties are broken by the collation of the server,
  a total order of text.
\<close>

fun insert_by :: "('a \<Rightarrow> 'a \<Rightarrow> bool) \<Rightarrow> 'a \<Rightarrow> 'a list \<Rightarrow> 'a list" where
  "insert_by le x [] = [x]"
| "insert_by le x (y # ys) = (if le x y then x # y # ys else y # insert_by le x ys)"

definition order_by :: "('a \<Rightarrow> 'a \<Rightarrow> bool) \<Rightarrow> 'a list \<Rightarrow> 'a list" where
  "order_by le xs = foldr (insert_by le) xs []"

definition older :: "pgsql \<Rightarrow> ('a \<Rightarrow> time) \<Rightarrow> ('a \<Rightarrow> string) \<Rightarrow> 'a \<Rightarrow> 'a \<Rightarrow> bool" where
  "older pg created ident x y \<longleftrightarrow>
     created x < created y \<or> (created x = created y \<and> pg_le pg (ident x) (ident y))"

definition collation :: "pgsql \<Rightarrow> bool" where
  "collation pg \<longleftrightarrow>
     (\<forall>a b. pg_le pg a b \<or> pg_le pg b a)
     \<and> (\<forall>a b c. pg_le pg a b \<longrightarrow> pg_le pg b c \<longrightarrow> pg_le pg a c)"

text \<open>
  What a column keeps: timestamptz drops the nanoseconds, text refuses bytes that are not
  UTF-8 and the NUL character.
\<close>

definition pg_time :: "time \<Rightarrow> time" where
  "pg_time t = time_truncate t microsecond"

definition pg_text_ok :: "string \<Rightarrow> bool" where
  "pg_text_ok s \<longleftrightarrow> valid_utf8 s \<and> CHR 0x00 \<notin> set s"

text \<open>
  The row of an execution. The failure column holds the JSON of the record; what is read
  back is the failure with its strings sanitized, and jsonb refuses an escaped NUL.
\<close>

record exec_row =
  xr_id :: string
  xr_app_id :: string
  xr_build_id :: string
  xr_status :: exec_status
  xr_input :: string
  xr_output :: "string option"
  xr_failure :: "failure option"
  xr_logs :: string
  xr_created_at :: time
  xr_started_at :: "time option"
  xr_finished_at :: "time option"
  xr_rerun_of :: "string option"
  xr_version :: int

definition pg_failure :: "failure \<Rightarrow> failure option" where
  "pg_failure f =
     (if CHR 0x00 \<in> set (fail_Code f) \<or> CHR 0x00 \<in> set (fail_Message f) then None
      else Some \<lparr>fail_Code = sanitize (fail_Code f), fail_Message = sanitize (fail_Message f)\<rparr>)"

text \<open>
  The tables executions hang from: \<open>apps.project_id\<close>, \<open>projects.organization_id\<close> and the
  builds, then the executions in no particular order.
\<close>

record db =
  db_app_project :: "string \<Rightarrow> string option"
  db_project_org :: "string \<Rightarrow> string option"
  db_builds :: "build list"
  db_executions :: "exec_row list"

lemma time_truncate_le: "0 < d \<Longrightarrow> time_truncate t d \<le> t"
  by (simp add: time_truncate_def)

lemma time_truncate_mono: "0 < d \<Longrightarrow> s \<le> t \<Longrightarrow> time_truncate s d \<le> time_truncate t d"
proof -
  assume d: "0 < d" and "s \<le> t"
  then have "d * (s div d) \<le> d * (t div d)" by (simp add: zdiv_mono1)
  then show ?thesis using d by (simp add: time_truncate_def minus_mod_eq_mult_div)
qed

lemma time_truncate_idem [simp]: "time_truncate (time_truncate t d) d = time_truncate t d"
  by (simp add: time_truncate_def minus_mod_eq_mult_div)

lemma pg_time_mono: "s \<le> t \<Longrightarrow> pg_time s \<le> pg_time t"
  by (simp add: pg_time_def time_truncate_mono microsecond_def)

lemma pg_time_idem [simp]: "pg_time (pg_time t) = pg_time t"
  by (simp add: pg_time_def)

lemma postgresTime_pg_time [simp]: "pg_time (postgresTime t) = postgresTime t"
  by (simp add: pg_time_def postgresTime_def)

lemma set_insert_by [simp]: "set (insert_by le x ys) = insert x (set ys)"
  by (induction ys) auto

lemma length_insert_by [simp]: "length (insert_by le x ys) = Suc (length ys)"
  by (induction ys) auto

lemma order_by_simps [simp]:
  "order_by le [] = []" "order_by le (x # xs) = insert_by le x (order_by le xs)"
  by (simp_all add: order_by_def)

lemma set_order_by [simp]: "set (order_by le xs) = set xs"
  by (induction xs) auto

lemma length_order_by [simp]: "length (order_by le xs) = length xs"
  by (induction xs) auto

lemma order_by_Nil_iff [simp]: "order_by le xs = [] \<longleftrightarrow> xs = []"
  by (metis set_empty set_order_by)

lemma order_by_Cons_mem: "order_by le xs = x # ys \<Longrightarrow> x \<in> set xs"
  by (metis list.set_intros(1) set_order_by)

lemma older_trans:
  assumes "collation pg" and "older pg c i x y" and "older pg c i y z"
  shows "older pg c i x z"
proof -
  have "pg_le pg (i x) (i z)" if "pg_le pg (i x) (i y)" "pg_le pg (i y) (i z)"
    using that assms(1) unfolding collation_def by meson
  then show ?thesis using assms(2,3) unfolding older_def by linarith
qed

lemma older_total:
  assumes "collation pg" shows "older pg c i x y \<or> older pg c i y x"
proof -
  have "pg_le pg (i x) (i y) \<or> pg_le pg (i y) (i x)"
    using assms unfolding collation_def by meson
  then show ?thesis unfolding older_def by linarith
qed

lemma sorted_insert_by:
  assumes "collation pg"
  shows "sorted_wrt (older pg c i) ys \<Longrightarrow> sorted_wrt (older pg c i) (insert_by (older pg c i) x ys)"
proof (induction ys)
  case (Cons y ys)
  then have "older pg c i x z" if "older pg c i x y" "z \<in> set ys" for z
    using older_trans [OF assms that(1), of z] that(2) by simp
  then show ?case using Cons older_total [OF assms, of c i x y] by auto
qed simp

lemma sorted_order_by: "collation pg \<Longrightarrow> sorted_wrt (older pg c i) (order_by (older pg c i) xs)"
  by (induction xs) (auto intro: sorted_insert_by)

lemma order_by_head:
  assumes "collation pg" and "order_by (older pg c i) xs = x # ys"
  shows "x \<in> set xs \<and> (\<forall>y \<in> set xs. older pg c i x y)"
proof -
  have xs: "set xs = insert x (set ys)" using assms(2) by (metis list.set(2) set_order_by)
  moreover have "\<forall>y \<in> set ys. older pg c i x y"
    using sorted_order_by [OF assms(1), of c i xs] assms(2) by simp
  ultimately show ?thesis using older_total [OF assms(1), of c i x x] by auto
qed

lemma order_by_last:
  assumes "collation pg" and "rev (order_by (older pg c i) xs) = x # ys"
  shows "x \<in> set xs \<and> (\<forall>y \<in> set xs. older pg c i y x)"
proof -
  have rows: "order_by (older pg c i) xs = rev ys @ [x]" using assms(2) by (simp add: rev_eq_Cons_iff)
  then have xs: "set xs = insert x (set ys)" by (metis set_order_by list.set(2) rev.simps(2) set_rev)
  moreover have "\<forall>y \<in> set ys. older pg c i y x"
    using sorted_order_by [OF assms(1), of c i xs] unfolding rows by (simp add: sorted_wrt_append)
  ultimately show ?thesis using older_total [OF assms(1), of c i x x] by auto
qed

section \<open>Properties\<close>

text \<open>
  A time stamp \<open>postgresTime\<close> minted survives the database unchanged, so the start
  time a worker holds is the one \<open>ValidateTransitionTo\<close> reads back; it is never later than
  the clock it came from, loses less than a microsecond, and keeps the order of clocks.
\<close>

lemma postgresTime_stable:
  "pg_time (postgresTime t) = postgresTime t
   \<and> postgresTime t \<le> t \<and> t - postgresTime t < microsecond
   \<and> (s \<le> t \<longrightarrow> postgresTime s \<le> postgresTime t)"
proof (intro conjI)
  show "postgresTime t \<le> t" "t - postgresTime t < microsecond"
    by (simp_all add: postgresTime_def microsecond_def time_truncate_def)
  show "s \<le> t \<longrightarrow> postgresTime s \<le> postgresTime t"
    by (simp add: postgresTime_def time_truncate_mono microsecond_def)
qed simp

text \<open>
  The advisory lock of a deployment is its own: for identifiers \<open>ids.Validate\<close> accepts,
  two lists of parts give one key only if they are the same list.
\<close>

lemma advisoryKey_injective:
  assumes "ps \<noteq> []" and "qs \<noteq> []"
    and "\<forall>p \<in> set ps. ids_Validate field p = None" and "\<forall>q \<in> set qs. ids_Validate field q = None"
    and "advisoryKey ps = advisoryKey qs"
  shows "ps = qs"
proof -
  have "list_all normal_component ps" "list_all normal_component qs"
    using assms(3,4) valid_id_normal_component by (auto simp: list_all_iff)
  then have "split_on sl (advisoryKey ps) = ps" "split_on sl (advisoryKey qs) = qs"
    using assms(1,2) by (simp_all add: advisoryKey_def split_join_normal)
  then show ?thesis using assms(5) by metis
qed

end
