(* ===== verification/Sha256.thy ===== *)
theory Sha256
  imports GoStrings "HOL-Library.Word"
begin

unbundle bit_operations_syntax

text \<open>
  \<open>crypto/sha256\<close> and \<open>encoding/hex\<close> as the stores use them: the digest of a byte string, in
  lower-case hexadecimal. The definitions follow FIPS 180-4 and compute.
\<close>

definition sha_K :: "32 word list" where
  "sha_K =
     [1116352408, 1899447441, 3049323471, 3921009573, 961987163, 1508970993, 2453635748, 2870763221,
      3624381080, 310598401, 607225278, 1426881987, 1925078388, 2162078206, 2614888103, 3248222580,
      3835390401, 4022224774, 264347078, 604807628, 770255983, 1249150122, 1555081692, 1996064986,
      2554220882, 2821834349, 2952996808, 3210313671, 3336571891, 3584528711, 113926993, 338241895,
      666307205, 773529912, 1294757372, 1396182291, 1695183700, 1986661051, 2177026350, 2456956037,
      2730485921, 2820302411, 3259730800, 3345764771, 3516065817, 3600352804, 4094571909, 275423344,
      430227734, 506948616, 659060556, 883997877, 958139571, 1322822218, 1537002063, 1747873779,
      1955562222, 2024104815, 2227730452, 2361852424, 2428436474, 2756734187, 3204031479, 3329325298]"

type_synonym sha_state =
  "32 word \<times> 32 word \<times> 32 word \<times> 32 word \<times> 32 word \<times> 32 word \<times> 32 word \<times> 32 word"

definition sha_init :: sha_state where
  "sha_init = (1779033703, 3144134277, 1013904242, 2773480762, 1359893119, 2600822924, 528734635, 1541459225)"

definition sha_small :: "nat \<Rightarrow> nat \<Rightarrow> nat \<Rightarrow> 32 word \<Rightarrow> 32 word" where
  "sha_small a b c w = word_rotr a w XOR word_rotr b w XOR drop_bit c w"

definition sha_big :: "nat \<Rightarrow> nat \<Rightarrow> nat \<Rightarrow> 32 word \<Rightarrow> 32 word" where
  "sha_big a b c w = word_rotr a w XOR word_rotr b w XOR word_rotr c w"

text \<open>The message schedule, newest word first.\<close>

fun sha_extend :: "nat \<Rightarrow> 32 word list \<Rightarrow> 32 word list" where
  "sha_extend 0 ws = ws"
| "sha_extend (Suc n) ws =
     sha_extend n ((sha_small 17 19 10 (ws ! 1) + ws ! 6 + sha_small 7 18 3 (ws ! 14) + ws ! 15) # ws)"

fun sha_round :: "sha_state \<Rightarrow> 32 word \<times> 32 word \<Rightarrow> sha_state" where
  "sha_round (a, b, c, d, e, f, g, h) (k, w) =
     (let t1 = h + sha_big 6 11 25 e + ((e AND f) XOR (NOT e AND g)) + k + w;
          t2 = sha_big 2 13 22 a + ((a AND b) XOR (a AND c) XOR (b AND c))
      in (t1 + t2, a, b, c, d + t1, e, f, g))"

fun sha_add :: "sha_state \<Rightarrow> sha_state \<Rightarrow> sha_state" where
  "sha_add (a, b, c, d, e, f, g, h) (a', b', c', d', e', f', g', h') =
     (a + a', b + b', c + c', d + d', e + e', f + f', g + g', h + h')"

definition sha_block :: "sha_state \<Rightarrow> 32 word list \<Rightarrow> sha_state" where
  "sha_block st ws = sha_add st (foldl sha_round st (zip sha_K (rev (sha_extend 48 (rev ws)))))"

definition sha_bytes :: "nat \<Rightarrow> nat \<Rightarrow> nat list" where
  "sha_bytes n v = map (\<lambda>i. v div 256 ^ i mod 256) (rev [0..<n])"

definition sha_pad :: "nat list \<Rightarrow> nat list" where
  "sha_pad m =
     m @ [128] @ replicate ((119 - length m mod 64) mod 64) 0 @ sha_bytes 8 (8 * length m)"

fun sha_words :: "nat list \<Rightarrow> 32 word list" where
  "sha_words (a # b # c # d # r) =
     word_of_nat (((a * 256 + b) * 256 + c) * 256 + d) # sha_words r"
| "sha_words r = []"

fun sha_blocks :: "nat \<Rightarrow> 32 word list \<Rightarrow> 32 word list list" where
  "sha_blocks 0 ws = []"
| "sha_blocks (Suc n) ws = take 16 ws # sha_blocks n (drop 16 ws)"

fun sha_digest :: "sha_state \<Rightarrow> nat list" where
  "sha_digest (a, b, c, d, e, f, g, h) = concat (map (sha_bytes 4 \<circ> unat) [a, b, c, d, e, f, g, h])"

definition hex_digits :: string where
  "hex_digits = ''0123456789abcdef''"

definition hex_encode :: "nat list \<Rightarrow> string" where
  "hex_encode bs = concat (map (\<lambda>b. [hex_digits ! (b div 16), hex_digits ! (b mod 16)]) bs)"

definition sha256_hex :: "string \<Rightarrow> string" where
  "sha256_hex s =
     (let m = sha_pad (map byte_val s); ws = sha_words m
      in hex_encode (sha_digest (foldl sha_block sha_init (sha_blocks (length m div 64) ws))))"

text \<open>A digest is 64 lower-case hexadecimal digits, which is what \<open>ValidateArtifact\<close> asks for.\<close>

lemma length_hex_encode [simp]: "length (hex_encode bs) = 2 * length bs"
  by (induction bs) (simp_all add: hex_encode_def)

lemma length_sha256_hex [simp]: "length (sha256_hex s) = 64"
proof -
  obtain st where st: "sha256_hex s = hex_encode (sha_digest st)" by (auto simp: sha256_hex_def)
  have "length (sha_digest st) = 32"
    by (cases st rule: sha_digest.cases) (simp add: sha_bytes_def)
  then show ?thesis by (simp add: st)
qed

lemma sha_digest_byte: "b \<in> set (sha_digest st) \<Longrightarrow> b < 256"
  by (cases st rule: sha_digest.cases) (auto simp: sha_bytes_def)

lemma hex_encode_digits:
  assumes "\<forall>b \<in> set bs. b < 256"
  shows "set (hex_encode bs) \<subseteq> set hex_digits"
proof -
  have "hex_digits ! i \<in> set hex_digits" if "i < 16" for i
    using that by (intro nth_mem) (simp add: hex_digits_def)
  then show ?thesis using assms by (auto simp: hex_encode_def)
qed

lemma set_sha256_hex: "set (sha256_hex s) \<subseteq> set hex_digits"
  unfolding sha256_hex_def Let_def by (rule hex_encode_digits) (auto dest: sha_digest_byte)

end
