(* ===== verification/Accounts.thy ===== *)
theory Accounts
  imports Database Sha256
begin

text \<open>
  The domain packages of identity and tenancy: \<open>internal/domain/account\<close> (users, API keys,
  their secrets), \<open>internal/domain/organization\<close> (roles, organizations, members, invites),
  \<open>internal/domain/session\<close> (passwords, sessions) and \<open>internal/domain/auth\<close> (principals).
  Lower-casing and case folding are spelled out on ASCII, as the fast paths of package
  \<open>strings\<close> have them; the Unicode tables beyond ASCII, the server's \<open>lower\<close> and the quoting
  of \<open>%q\<close> are fields of the parameter \<open>lt\<close>. Random bytes and bcrypt are arguments.
\<close>

record letters =
  lt_lower :: "string \<Rightarrow> string"
  lt_fold :: "string \<Rightarrow> string \<Rightarrow> bool"
  lt_sql_lower :: "string \<Rightarrow> string"
  lt_quote :: "string \<Rightarrow> string"

definition ascii_lower :: "char \<Rightarrow> char" where
  "ascii_lower c = (if 65 \<le> byte_val c \<and> byte_val c \<le> 90 then char_of (byte_val c + 32) else c)"

definition ToLower :: "letters \<Rightarrow> string \<Rightarrow> string" where
  "ToLower lt s = (if is_ascii s then map ascii_lower s else lt_lower lt s)"

definition EqualFold :: "letters \<Rightarrow> string \<Rightarrow> string \<Rightarrow> bool" where
  "EqualFold lt a b =
     (if is_ascii a \<and> is_ascii b then map ascii_lower a = map ascii_lower b else lt_fold lt a b)"

definition Sum256 :: "string \<Rightarrow> nat list" where
  "Sum256 s =
     (let m = sha_pad (map byte_val s)
      in sha_digest (foldl sha_block sha_init (sha_blocks (length m div 64) (sha_words m))))"

type_synonym rand = "8 word list result"

definition EncodeToString :: "8 word list \<Rightarrow> string" where
  "EncodeToString bs = hex_encode (map unat bs)"

section \<open>Users\<close>

definition NormalizeEmail :: "letters \<Rightarrow> string \<Rightarrow> string" where
  "NormalizeEmail lt email = ToLower lt (trim_space email)"

definition ValidEmail :: "string \<Rightarrow> bool" where
  "ValidEmail email \<longleftrightarrow>
     3 \<le> length email \<and> length email \<le> 320 \<and> valid_utf8 email
     \<and> (let (local, domain, found) = cut (CHR ''@'') email
        in found \<and> local \<noteq> [] \<and> domain \<noteq> [] \<and> CHR ''@'' \<notin> set domain
           \<and> CHR ''.'' \<in> set domain \<and> \<not> has_prefix domain ''.'' \<and> \<not> has_suffix domain ''.'')
     \<and> list_all (\<lambda>r. \<not> is_space r \<and> \<not> is_control r) (runes email)"

record user =
  usr_ID :: string
  usr_Email :: string
  usr_Disabled :: bool
  usr_CreatedAt :: time
  usr_UpdatedAt :: time

definition user_Validate :: "user \<Rightarrow> go_err" where
  "user_Validate u = guard (\<not> ValidEmail (usr_Email u)) (wrapf Account_ErrInvalid ''email is invalid'')"

definition NewUser :: "letters \<Rightarrow> string \<Rightarrow> string \<Rightarrow> time \<Rightarrow> user result" where
  "NewUser lt i email now =
     (let u = \<lparr>usr_ID = i, usr_Email = NormalizeEmail lt email, usr_Disabled = False,
               usr_CreatedAt = now, usr_UpdatedAt = now\<rparr>
      in check (user_Validate u) (Inr u))"

definition user_Apply ::
  "letters \<Rightarrow> user \<Rightarrow> string option \<Rightarrow> bool option \<Rightarrow> time \<Rightarrow> user \<times> go_err"
where
  "user_Apply lt u email disabled now =
     (if email = None \<and> disabled = None
      then (u, Some (wrapf Account_ErrInvalid ''user update is empty''))
      else let u1 = (case email of None \<Rightarrow> u | Some e \<Rightarrow> u\<lparr>usr_Email := NormalizeEmail lt e\<rparr>);
               u2 = (case disabled of None \<Rightarrow> u1 | Some b \<Rightarrow> u1\<lparr>usr_Disabled := b\<rparr>);
               u3 = u2\<lparr>usr_UpdatedAt := now\<rparr>
           in (u3, user_Validate u3))"

section \<open>API keys\<close>

definition knownScopes :: "string list" where
  "knownScopes =
     [''*'', ''users:read'', ''users:write'', ''api_keys:read'', ''api_keys:write'',
      ''projects:read'', ''projects:write'', ''apps:read'', ''apps:write'',
      ''builds:read'', ''deployments:read'', ''deployments:write'',
      ''executions:read'', ''executions:write'']"

record key =
  key_ID :: string
  key_OrganizationID :: string
  key_UserID :: string
  key_Name :: string
  key_Prefix :: string
  key_Scopes :: "string list"
  key_CreatedAt :: time
  key_RevokedAt :: "time option"

text \<open>The order of \<open>slices.Sort\<close> on strings, byte by byte.\<close>

fun byte_le :: "string \<Rightarrow> string \<Rightarrow> bool" where
  "byte_le [] t = True"
| "byte_le (c # s) [] = False"
| "byte_le (c # s) (d # t) = (byte_val c < byte_val d \<or> (c = d \<and> byte_le s t))"

fun normalize_scopes :: "string list \<Rightarrow> string list \<Rightarrow> string list" where
  "normalize_scopes acc [] = acc"
| "normalize_scopes acc (s # ss) =
     (let s' = trim_space s
      in normalize_scopes (if s' \<in> set acc then acc else acc @ [s']) ss)"

definition NormalizeScopes :: "string list \<Rightarrow> string list" where
  "NormalizeScopes scopes = order_by byte_le (normalize_scopes [] scopes)"

definition key_Validate :: "letters \<Rightarrow> key \<Rightarrow> go_err" where
  "key_Validate lt k =
     first_err
       ([guard (key_OrganizationID k = []) (wrapf Account_ErrInvalid ''key requires an organization''),
         guard (key_Name k = [] \<or> length (key_Name k) > 128)
           (wrapf Account_ErrInvalid ''key name must contain 1 to 128 bytes''),
         guard (length (key_Scopes k) > 32)
           (wrapf Account_ErrInvalid ''a key may carry at most 32 scopes'')]
        @ map (\<lambda>s. guard (s \<notin> set knownScopes)
                 (wrapf Account_ErrInvalid (''unknown scope '' @ lt_quote lt s))) (key_Scopes k))"

definition NewKey ::
  "letters \<Rightarrow> string \<Rightarrow> string \<Rightarrow> string \<Rightarrow> string \<Rightarrow> string list \<Rightarrow> time \<Rightarrow> key result"
where
  "NewKey lt i organizationID userID name scopes now =
     (let k = \<lparr>key_ID = i, key_OrganizationID = trim_space organizationID,
               key_UserID = trim_space userID, key_Name = trim_space name, key_Prefix = [],
               key_Scopes = NormalizeScopes scopes, key_CreatedAt = now, key_RevokedAt = None\<rparr>
      in check (key_Validate lt k) (Inr k))"

record keyCredential =
  kc_ID :: string
  kc_OrganizationID :: string
  kc_Scopes :: "string list"
  kc_Digest :: "nat list"

definition SecretPrefix :: "string \<Rightarrow> string option" where
  "SecretPrefix raw =
     (let (pre, rest, found) = cut (CHR ''.'') (trim_space raw)
      in if \<not> found \<or> pre = [] then None else Some pre)"

definition HashSecret :: "string \<Rightarrow> nat list" where
  "HashSecret raw = Sum256 raw"

text \<open>The two reads of \<open>crypto/rand\<close>, of 6 and of 32 bytes, are the arguments.\<close>

definition MintSecret :: "rand \<Rightarrow> rand \<Rightarrow> (string \<times> string) result" where
  "MintSecret prefixRaw secretRaw =
     (case prefixRaw of
        Inl e \<Rightarrow> Inl (annotate ''generate key prefix'' e)
      | Inr p \<Rightarrow>
          (case secretRaw of
             Inl e \<Rightarrow> Inl (annotate ''generate key secret'' e)
           | Inr s \<Rightarrow>
               let pre = ''neu_live_'' @ EncodeToString p
               in Inr (pre, pre @ ''.'' @ EncodeToString s)))"

definition credential_Matches :: "keyCredential \<Rightarrow> string \<Rightarrow> bool" where
  "credential_Matches c raw \<longleftrightarrow> length (kc_Digest c) = 32 \<and> kc_Digest c = Sum256 raw"

section \<open>Organizations, members and invitations\<close>

type_synonym role = string

definition RoleAdmin :: role where "RoleAdmin = ''admin''"

definition RoleOperator :: role where "RoleOperator = ''operator''"

definition RoleViewer :: role where "RoleViewer = ''viewer''"

definition role_Scopes :: "role \<Rightarrow> string list" where
  "role_Scopes r =
     (if r = RoleAdmin then [''*'']
      else if r = RoleOperator then
        [''projects:read'', ''apps:read'', ''apps:write'', ''builds:read'', ''deployments:read'',
         ''deployments:write'', ''executions:read'', ''executions:write'',
         ''browser_profiles:read'', ''browser_profiles:write'']
      else if r = RoleViewer then
        [''projects:read'', ''apps:read'', ''builds:read'', ''deployments:read'',
         ''executions:read'', ''users:read'', ''api_keys:read'', ''browser_profiles:read'']
      else [])"

definition role_Valid :: "role \<Rightarrow> bool" where
  "role_Valid r \<longleftrightarrow> r = RoleAdmin \<or> r = RoleOperator \<or> r = RoleViewer"

definition ParseRole :: "letters \<Rightarrow> string \<Rightarrow> role result" where
  "ParseRole lt raw =
     (let r = ToLower lt (trim_space raw)
      in if role_Valid r then Inr r
         else Inl (wrapf Organization_ErrInvalid
                (''unknown role '' @ lt_quote lt raw @ '' (expected admin, operator, or viewer)'')))"

record organization =
  org_ID :: string
  org_OwnerUserID :: string
  org_Name :: string
  org_CreatedAt :: time
  org_UpdatedAt :: time

definition org_Validate :: "organization \<Rightarrow> go_err" where
  "org_Validate r =
     first_err
       [guard (org_OwnerUserID r = [])
          (wrapf Organization_ErrInvalid ''organization requires an owner''),
        guard (length (org_Name r) < 1 \<or> length (org_Name r) > 120)
          (wrapf Organization_ErrInvalid ''name must contain 1 to 120 characters'')]"

definition org_New :: "string \<Rightarrow> string \<Rightarrow> string \<Rightarrow> time \<Rightarrow> organization result" where
  "org_New i ownerUserID name now =
     (let r = \<lparr>org_ID = i, org_OwnerUserID = trim_space ownerUserID, org_Name = trim_space name,
               org_CreatedAt = now, org_UpdatedAt = now\<rparr>
      in check (org_Validate r) (Inr r))"

definition org_Rename :: "organization \<Rightarrow> string \<Rightarrow> time \<Rightarrow> organization \<times> go_err" where
  "org_Rename r name now =
     (let r' = r\<lparr>org_Name := trim_space name, org_UpdatedAt := now\<rparr> in (r', org_Validate r'))"

record member =
  mem_OrganizationID :: string
  mem_UserID :: string
  mem_Email :: string
  mem_Role :: role
  mem_Owner :: bool
  mem_CreatedAt :: time
  mem_UpdatedAt :: time

definition member_Validate :: "member \<Rightarrow> go_err" where
  "member_Validate m =
     first_err
       [guard (mem_OrganizationID m = [] \<or> mem_UserID m = [])
          (wrapf Organization_ErrInvalid ''membership requires an organization and a user''),
        guard (\<not> role_Valid (mem_Role m))
          (wrapf Organization_ErrInvalid ''role must be admin, operator, or viewer'')]"

record invite =
  inv_ID :: string
  inv_OrganizationID :: string
  inv_Email :: string
  inv_Role :: role
  inv_InvitedBy :: string
  inv_CreatedAt :: time
  inv_ExpiresAt :: time
  inv_AcceptedAt :: "time option"
  inv_RevokedAt :: "time option"

definition InviteTTL :: int where
  "InviteTTL = 7 * 24 * 3600 * second"

definition invite_Validate :: "invite \<Rightarrow> go_err" where
  "invite_Validate r =
     first_err
       [guard (inv_OrganizationID r = [])
          (wrapf Organization_ErrInvalid ''invitation requires an organization''),
        guard (inv_Email r = []) (wrapf Organization_ErrInvalid ''invitation requires an email''),
        guard (\<not> role_Valid (inv_Role r))
          (wrapf Organization_ErrInvalid ''role must be admin, operator, or viewer'')]"

definition NewInvite ::
  "letters \<Rightarrow> string \<Rightarrow> string \<Rightarrow> string \<Rightarrow> role \<Rightarrow> string \<Rightarrow> time \<Rightarrow> invite result"
where
  "NewInvite lt i organizationID email r invitedBy now =
     (let v = \<lparr>inv_ID = i, inv_OrganizationID = trim_space organizationID,
               inv_Email = ToLower lt (trim_space email), inv_Role = r,
               inv_InvitedBy = trim_space invitedBy, inv_CreatedAt = now,
               inv_ExpiresAt = now + InviteTTL, inv_AcceptedAt = None, inv_RevokedAt = None\<rparr>
      in check (invite_Validate v) (Inr v))"

definition Pending :: "invite \<Rightarrow> bool" where
  "Pending r \<longleftrightarrow> inv_AcceptedAt r = None \<and> inv_RevokedAt r = None"

definition Redeemable :: "letters \<Rightarrow> invite \<Rightarrow> string \<Rightarrow> time \<Rightarrow> go_err" where
  "Redeemable lt r email now =
     first_err
       [guard (\<not> Pending r) (Bare Organization_ErrInviteSpent),
        guard (\<not> now < inv_ExpiresAt r) (Bare Organization_ErrInviteStale),
        guard (\<not> EqualFold lt (trim_space email) (inv_Email r)) (Bare Organization_ErrInviteAddress)]"

definition NewInviteToken :: "rand \<Rightarrow> string result" where
  "NewInviteToken raw =
     (case raw of Inl e \<Rightarrow> Inl (annotate ''generate invitation token'' e) | Inr bs \<Rightarrow> Inr (EncodeToString bs))"

definition InviteDigest :: "string \<Rightarrow> nat list" where
  "InviteDigest token = Sum256 (trim_space token)"

section \<open>Passwords and sessions\<close>

definition MinimumPasswordLength :: nat where "MinimumPasswordLength = 6"

definition MaximumPasswordBytes :: nat where "MaximumPasswordBytes = 72"

definition ValidatePassword :: "string \<Rightarrow> go_err" where
  "ValidatePassword password =
     first_err
       [guard (\<not> valid_utf8 password) (Bare Session_ErrPasswordNotUTF8),
        guard (length (runes password) < MinimumPasswordLength) (Bare Session_ErrPasswordTooShort),
        guard (length password > MaximumPasswordBytes) (Bare Session_ErrPasswordTooLong)]"

text \<open>
  bcrypt, from \<open>golang.org/x/crypto\<close>: hashing (with its salt) and comparison, which reports a
  mismatch, a password it cannot hash, or a hash it cannot read.
\<close>

datatype verdict = BcMatch | BcMismatch | BcTooLong | BcOther string

record bcrypt =
  bc_generate :: "string \<Rightarrow> string result"
  bc_compare :: "string \<Rightarrow> string \<Rightarrow> verdict"

definition HashPassword :: "bcrypt \<Rightarrow> string \<Rightarrow> string result" where
  "HashPassword bc password =
     check (ValidatePassword password)
       (case bc_generate bc password of
          Inl e \<Rightarrow> Inl (annotate ''hash password'' e) | Inr h \<Rightarrow> Inr h)"

definition VerifyPassword :: "bcrypt \<Rightarrow> string \<Rightarrow> string \<Rightarrow> bool result" where
  "VerifyPassword bc encoded password =
     (case bc_compare bc encoded password of
        BcMatch \<Rightarrow> Inr True
      | BcMismatch \<Rightarrow> Inr False
      | BcTooLong \<Rightarrow> Inr False
      | BcOther msg \<Rightarrow> Inl (wrapf Session_ErrHashMalformed msg))"

record account =
  acc_ID :: string
  acc_Email :: string
  acc_PasswordHash :: string
  acc_Disabled :: bool
  acc_CreatedAt :: time

definition account_Authenticate :: "bcrypt \<Rightarrow> account \<Rightarrow> string \<Rightarrow> bool result" where
  "account_Authenticate bc a password =
     (if acc_Disabled a then Inr False else VerifyPassword bc (acc_PasswordHash a) password)"

record session =
  ses_AccountID :: string
  ses_Email :: string
  ses_OrganizationID :: string
  ses_Role :: role
  ses_CreatedAt :: time
  ses_ExpiresAt :: time

definition session_Expired :: "session \<Rightarrow> time \<Rightarrow> bool" where
  "session_Expired s now \<longleftrightarrow> \<not> now < ses_ExpiresAt s"

definition NewToken :: "rand \<Rightarrow> string result" where
  "NewToken raw =
     (case raw of Inl e \<Rightarrow> Inl (annotate ''generate session token'' e) | Inr bs \<Rightarrow> Inr (EncodeToString bs))"

section \<open>Principals\<close>

datatype kind = KindAPIKey | KindSession

record principal =
  pr_Kind :: kind
  pr_KeyID :: string
  pr_UserID :: string
  pr_Email :: string
  pr_OrganizationID :: string
  pr_Scopes :: "string list"

definition ScopeAll :: string where "ScopeAll = ''*''"

definition HasScope :: "principal \<Rightarrow> string \<Rightarrow> bool" where
  "HasScope p required \<longleftrightarrow> list_ex (\<lambda>scope. scope = ScopeAll \<or> scope = required) (pr_Scopes p)"

definition BearerToken :: "letters \<Rightarrow> string \<Rightarrow> string option" where
  "BearerToken lt header =
     (let (scheme, token, found) = cut (CHR '' '') (trim_space header)
      in if \<not> found \<or> \<not> EqualFold lt scheme ''Bearer'' \<or> token = [] \<or> CHR '' '' \<in> set token
         then None else Some token)"

end
