(* ===== verification/Identity.thy ===== *)
theory Identity
  imports Accounts "HOL-Library.State_Monad"
begin

text \<open>
  Who a browser claims to be (internal/domain/browser/identity.go and catalog.go): the identity
  record and its validation, the embedded catalogue, and the seeded draw of an identity from
  it. The draw threads the state of a 64-bit linear congruential generator.
\<close>

section \<open>Records\<close>

text \<open>
  A finite \<open>float32\<close> as mantissa and negated exponent: \<open>(m, k)\<close> is m divided by 2 to the k.
\<close>

type_synonym f32 = "int \<times> nat"

record platform =
  pf_Bitness :: string
  pf_Architecture :: string
  pf_NavigatorPlatform :: string
  pf_Version :: string

record screen =
  sc_LogicalWidth :: "32 word"
  sc_LogicalHeight :: "32 word"
  sc_OriginalWidth :: "32 word"
  sc_OriginalHeight :: "32 word"
  sc_DensityPixelRatio :: f32

record gpu =
  gp_Vendor :: string
  gp_WebGLRenderer :: string
  gp_WebGLVendor :: string

record identity =
  id_DeviceModel :: string
  id_HasBattery :: bool
  id_HasMouse :: bool
  id_HasTouch :: bool
  id_OS :: string
  id_OSVersion :: string
  id_Platform :: platform
  id_Browser :: string
  id_BrowserVersion :: "32 word list"
  id_Screen :: screen
  id_HardwareConcurrency :: "32 word"
  id_Memory :: "32 word"
  id_GPU :: gpu
  id_Geo :: string
  id_Language :: "string list"
  id_HistoryCount :: "32 word option"
  id_Proxy :: string
  id_Timezone :: string

definition BrowserChrome :: string where "BrowserChrome = ''chrome''"

definition BrowserSafari :: string where "BrowserSafari = ''safari''"

definition browser_Valid :: "string \<Rightarrow> bool" where
  "browser_Valid b \<longleftrightarrow> b \<in> {BrowserChrome, BrowserSafari}"

definition ParseBrowser :: "letters \<Rightarrow> string \<Rightarrow> string result" where
  "ParseBrowser lt raw =
     (let v = ToLower lt (trim_space raw) in
      if \<not> browser_Valid v
      then Inl (wrapf Browser_ErrInvalid (''unknown browser '' @ raw @ '' (expected chrome or safari)''))
      else Inr v)"

definition os_Valid :: "string \<Rightarrow> bool" where
  "os_Valid v \<longleftrightarrow> v \<in> set [''Windows'', ''Macintosh'', ''Linux'', ''Android'', ''Ios'']"

definition geo_Valid :: "string \<Rightarrow> bool" where
  "geo_Valid v \<longleftrightarrow>
     v \<in> set [''US'', ''UK'', ''JP'', ''DE'', ''FR'', ''CA'', ''AU'', ''IN'', ''BR'',
              ''KR'', ''IT'', ''ES'', ''NL'', ''PL'', ''SE'', ''MX'', ''SG'', ''ZA'']"

definition identity_Validate :: "identity \<Rightarrow> go_err" where
  "identity_Validate r =
     first_err [
       guard (\<not> os_Valid (id_OS r)) (wrapf Browser_ErrInvalid ''identity os is invalid''),
       guard (\<not> browser_Valid (id_Browser r)) (wrapf Browser_ErrInvalid ''identity browser is invalid''),
       guard (\<not> geo_Valid (id_Geo r)) (wrapf Browser_ErrInvalid ''identity geo is invalid''),
       guard (trim_space (id_OSVersion r) = []) (wrapf Browser_ErrInvalid ''identity requires an os version''),
       guard (trim_space (pf_NavigatorPlatform (id_Platform r)) = [] \<or> trim_space (pf_Version (id_Platform r)) = [])
         (wrapf Browser_ErrInvalid ''identity platform is incomplete''),
       guard (id_BrowserVersion r = []) (wrapf Browser_ErrInvalid ''identity requires a browser version''),
       guard (id_Language r = []) (wrapf Browser_ErrInvalid ''identity requires at least one language''),
       guard (id_HardwareConcurrency r = 0 \<or> id_Memory r = 0) (wrapf Browser_ErrInvalid ''identity hardware is invalid''),
       guard (let s = id_Screen r in
              sc_LogicalWidth s = 0 \<or> sc_LogicalHeight s = 0 \<or> sc_OriginalWidth s = 0 \<or> sc_OriginalHeight s = 0
              \<or> fst (sc_DensityPixelRatio s) \<le> 0)
         (wrapf Browser_ErrInvalid ''identity screen is invalid''),
       guard (let g = id_GPU r in gp_Vendor g = [] \<or> gp_WebGLRenderer g = [] \<or> gp_WebGLVendor g = [])
         (wrapf Browser_ErrInvalid ''identity gpu is incomplete'')]"

section \<open>The catalogue\<close>

record catalog_os_version =
  cv_OSVersion :: string
  cv_PlatformVersions :: "string list"

record catalog_gpu =
  cg_Vendor :: string
  cg_WebGLRenderer :: string
  cg_WebGLVendor :: string

record catalog_os =
  co_OS :: string
  co_FormFactor :: string
  co_NavigatorPlatform :: string
  co_Bitness :: string
  co_Architecture :: string
  co_Browsers :: "string list"
  co_Versions :: "catalog_os_version list"
  co_GPUs :: "catalog_gpu list"

record catalog_device =
  cd_Name :: string
  cd_OS :: string
  cd_Browsers :: "string list"
  cd_Models :: "string list"
  cd_Versions :: "catalog_os_version list"
  cd_NavigatorPlatforms :: "string list"
  cd_Screen :: screen
  cd_HardwareConcurrency :: "32 word list"
  cd_Memory :: "32 word list"
  cd_GPUs :: "catalog_gpu list"

record catalog_browser =
  cb_Browser :: string
  cb_Versions :: "string list"

record catalog_screen =
  cs_Width :: "32 word"
  cs_Height :: "32 word"
  cs_Share :: f32

record catalog_geo =
  ce_Code :: string
  ce_Languages :: "string list"
  ce_Timezone :: string

record catalog =
  ca_OperatingSystems :: "catalog_os list"
  ca_Devices :: "catalog_device list"
  ca_Browsers :: "catalog_browser list"
  ca_Screens :: "catalog_screen list"
  ca_DensityPixelRatios :: "f32 list"
  ca_HardwareConcurrency :: "32 word list"
  ca_Memory :: "32 word list"
  ca_Geos :: "catalog_geo list"

text \<open>The embedded file catalog.json, decoded; the shares and ratios as the nearest \<open>float32\<close>.\<close>

definition IdentityCatalog :: catalog where
  "IdentityCatalog =
     \<lparr>ca_OperatingSystems =
        [\<lparr>co_OS = ''Linux'', co_FormFactor = ''desktop'', co_NavigatorPlatform = ''Linux x86_64'', co_Bitness = ''64'', co_Architecture = ''x86'',
          co_Browsers = [''chrome''], co_Versions = [\<lparr>cv_OSVersion = ''26.04'', cv_PlatformVersions = [''7.0.0'']\<rparr>],
          co_GPUs = [\<lparr>cg_Vendor = ''Intel Inc.'',
             cg_WebGLRenderer = ''ANGLE (Intel, Mesa Intel(R) UHD Graphics 620 (KBL GT2), OpenGL 4.6 (Core Profile) Mesa 26.0.3-1ubuntu1)'',
             cg_WebGLVendor = ''Google Inc. (Intel)''\<rparr>,
            \<lparr>cg_Vendor = ''AMD'',
             cg_WebGLRenderer = ''ANGLE (AMD, AMD Radeon Graphics (radeonsi, renoir, LLVM 21.1.8, DRM 3.63, 7.0.0-29-generic), OpenGL 4.6 (Core Profile) Mesa 26.0.3-1ubuntu1)'',
             cg_WebGLVendor = ''Google Inc. (AMD)''\<rparr>]\<rparr>],
      ca_Devices = [],
      ca_Browsers = [\<lparr>cb_Browser = ''chrome'', cb_Versions = [''151.0.7922.169'']\<rparr>],
      ca_Screens =
        [\<lparr>cs_Width = 1920, cs_Height = 1080, cs_Share = (14984151, 19)\<rparr>,
         \<lparr>cs_Width = 1366, cs_Height = 768, cs_Share = (1336279, 16)\<rparr>,
         \<lparr>cs_Width = 1536, cs_Height = 864, cs_Share = (6474957, 19)\<rparr>,
         \<lparr>cs_Width = 1280, cs_Height = 720, cs_Share = (4535091, 19)\<rparr>,
         \<lparr>cs_Width = 1440, cs_Height = 900, cs_Share = (7287603, 20)\<rparr>,
         \<lparr>cs_Width = 1600, cs_Height = 900, cs_Share = (2186281, 19)\<rparr>,
         \<lparr>cs_Width = 1280, cs_Height = 1024, cs_Share = (3533701, 20)\<rparr>,
         \<lparr>cs_Width = 768, cs_Height = 1024, cs_Share = (2317353, 20)\<rparr>,
         \<lparr>cs_Width = 1024, cs_Height = 768, cs_Share = (12624855, 22)\<rparr>,
         \<lparr>cs_Width = 1280, cs_Height = 800, cs_Share = (15686697, 23)\<rparr>,
         \<lparr>cs_Width = 1680, cs_Height = 1050, cs_Share = (14092861, 23)\<rparr>,
         \<lparr>cs_Width = 810, cs_Height = 1080, cs_Share = (2747269, 21)\<rparr>,
         \<lparr>cs_Width = 1360, cs_Height = 768, cs_Share = (8975811, 23)\<rparr>,
         \<lparr>cs_Width = 800, cs_Height = 600, cs_Share = (2222981, 21)\<rparr>,
         \<lparr>cs_Width = 360, cs_Height = 800, cs_Share = (7381975, 23)\<rparr>,
         \<lparr>cs_Width = 1920, cs_Height = 1200, cs_Share = (1614807, 21)\<rparr>,
         \<lparr>cs_Width = 1024, cs_Height = 1366, cs_Share = (5200937, 23)\<rparr>,
         \<lparr>cs_Width = 834, cs_Height = 1112, cs_Share = (9059697, 24)\<rparr>,
         \<lparr>cs_Width = 2048, cs_Height = 1152, cs_Share = (1090519, 21)\<rparr>],
      ca_DensityPixelRatios = [(1, 0), (5, 2), (3, 1), (2, 0)],
      ca_HardwareConcurrency = [4, 6, 2, 8, 12, 3, 10, 16, 1, 18, 5, 14, 24, 32],
      ca_Memory = [8, 4, 2, 1],
      ca_Geos =
        [\<lparr>ce_Code = ''US'', ce_Languages = [''en-US'', ''en''], ce_Timezone = ''America/New_York''\<rparr>,
         \<lparr>ce_Code = ''UK'', ce_Languages = [''en-GB'', ''en''], ce_Timezone = ''Europe/London''\<rparr>,
         \<lparr>ce_Code = ''JP'', ce_Languages = [''ja-JP'', ''ja'', ''en''], ce_Timezone = ''Asia/Tokyo''\<rparr>,
         \<lparr>ce_Code = ''DE'', ce_Languages = [''de-DE'', ''de'', ''en''], ce_Timezone = ''Europe/Berlin''\<rparr>,
         \<lparr>ce_Code = ''FR'', ce_Languages = [''fr-FR'', ''fr'', ''en''], ce_Timezone = ''Europe/Paris''\<rparr>,
         \<lparr>ce_Code = ''CA'', ce_Languages = [''en-CA'', ''en'', ''fr-CA'', ''fr''], ce_Timezone = ''America/Toronto''\<rparr>,
         \<lparr>ce_Code = ''AU'', ce_Languages = [''en-AU'', ''en''], ce_Timezone = ''Australia/Sydney''\<rparr>,
         \<lparr>ce_Code = ''IN'', ce_Languages = [''en-IN'', ''en'', ''hi-IN'', ''hi''], ce_Timezone = ''Asia/Kolkata''\<rparr>,
         \<lparr>ce_Code = ''BR'', ce_Languages = [''pt-BR'', ''pt'', ''en''], ce_Timezone = ''America/Sao_Paulo''\<rparr>,
         \<lparr>ce_Code = ''KR'', ce_Languages = [''ko-KR'', ''ko'', ''en''], ce_Timezone = ''Asia/Seoul''\<rparr>,
         \<lparr>ce_Code = ''IT'', ce_Languages = [''it-IT'', ''it'', ''en''], ce_Timezone = ''Europe/Rome''\<rparr>,
         \<lparr>ce_Code = ''ES'', ce_Languages = [''es-ES'', ''es'', ''en''], ce_Timezone = ''Europe/Madrid''\<rparr>,
         \<lparr>ce_Code = ''NL'', ce_Languages = [''nl-NL'', ''nl'', ''en''], ce_Timezone = ''Europe/Amsterdam''\<rparr>,
         \<lparr>ce_Code = ''PL'', ce_Languages = [''pl-PL'', ''pl'', ''en''], ce_Timezone = ''Europe/Warsaw''\<rparr>,
         \<lparr>ce_Code = ''SE'', ce_Languages = [''sv-SE'', ''sv'', ''en''], ce_Timezone = ''Europe/Stockholm''\<rparr>,
         \<lparr>ce_Code = ''MX'', ce_Languages = [''es-MX'', ''es'', ''en''], ce_Timezone = ''America/Mexico_City''\<rparr>,
         \<lparr>ce_Code = ''SG'', ce_Languages = [''en-SG'', ''en''], ce_Timezone = ''Asia/Singapore''\<rparr>,
         \<lparr>ce_Code = ''ZA'', ce_Languages = [''en-ZA'', ''en''], ce_Timezone = ''Africa/Johannesburg''\<rparr>]\<rparr>"

section \<open>Drawing an identity\<close>

text \<open>
  \<open>picker\<close>: the generator starts from the first eight bytes of the seed's digest and is
  advanced before every choice; the index is its upper 31 bits modulo the length.
\<close>

definition picker :: "string \<Rightarrow> 64 word" where
  "picker seed = foldl (\<lambda>n b. n * 256 + word_of_nat b) 0 (take 8 (Sum256 seed))"

definition next_index :: "64 word \<Rightarrow> nat \<Rightarrow> nat \<times> 64 word" where
  "next_index state n =
     (if n = 0 then (0, state)
      else let state' = state * 6364136223846793005 + 1442695040888963407 in
        (unat (drop_bit 33 state') mod n, state'))"

definition draw :: "'a list \<Rightarrow> (64 word, 'a) state" where
  "draw xs = State (\<lambda>st. case next_index st (length xs) of (i, st') \<Rightarrow> (xs ! i, st'))"

text \<open>\<open>strconv.ParseUint(part, 10, 32)\<close>: one or more decimal digits below 2 to the 32.\<close>

definition digits_value :: "string \<Rightarrow> nat" where
  "digits_value s = foldl (\<lambda>n c. 10 * n + (byte_val c - 48)) 0 s"

definition parse_uint32 :: "string \<Rightarrow> 32 word option" where
  "parse_uint32 s =
     (if s = [] \<or> list_ex (\<lambda>c. byte_val c < 48 \<or> 57 < byte_val c) s \<or> digits_value s \<ge> 2 ^ 32 then None
      else Some (word_of_nat (digits_value s)))"

definition versionNumbers :: "string \<Rightarrow> 32 word list" where
  "versionNumbers version = List.map_filter (\<lambda>part. parse_uint32 (trim_space part)) (split_on (CHR ''.'') version)"

definition browserVersionsFor :: "catalog \<Rightarrow> string \<Rightarrow> string list" where
  "browserVersionsFor cat browser =
     (case find (\<lambda>b. cb_Browser b = browser) (ca_Browsers cat) of None \<Rightarrow> [] | Some b \<Rightarrow> cb_Versions b)"

text \<open>
  \<open>uint32(float32(n) * ratio)\<close>: the integer and the product are rounded to the 24 bits of a
  mantissa, half to even, and the fraction is dropped.
\<close>

fun bit_length :: "nat \<Rightarrow> nat" where
  "bit_length n = (if n = 0 then 0 else Suc (bit_length (n div 2)))"

declare bit_length.simps [simp del]

definition round24 :: "nat \<Rightarrow> nat" where
  "round24 n =
     (let sh = bit_length n - 24; q = n div 2 ^ sh; r = n mod 2 ^ sh in
      if sh = 0 then n
      else if 2 * r > 2 ^ sh \<or> 2 * r = 2 ^ sh \<and> odd q then (q + 1) * 2 ^ sh else q * 2 ^ sh)"

definition scale :: "32 word \<Rightarrow> f32 \<Rightarrow> 32 word" where
  "scale n ratio = word_of_nat (round24 (round24 (unat n) * nat (fst ratio)) div 2 ^ snd ratio)"

definition desktops :: "catalog \<Rightarrow> string \<Rightarrow> catalog_os list" where
  "desktops cat browser =
     filter (\<lambda>s. co_FormFactor s = ''desktop'' \<and> co_Versions s \<noteq> [] \<and> co_Browsers s \<noteq> []
               \<and> (browser = [] \<or> browser \<in> set (co_Browsers s)))
       (ca_OperatingSystems cat)"

definition assemble ::
  "catalog_os \<Rightarrow> catalog_os_version \<Rightarrow> string \<Rightarrow> catalog_screen \<Rightarrow> f32 \<Rightarrow> catalog_geo \<Rightarrow> catalog_gpu
     \<Rightarrow> string \<Rightarrow> string \<Rightarrow> 32 word \<Rightarrow> 32 word \<Rightarrow> identity"
where
  "assemble system release browser display ratio geo adapter version number cores mem =
     \<lparr>id_DeviceModel = [], id_HasBattery = False, id_HasMouse = True, id_HasTouch = False,
      id_OS = co_OS system, id_OSVersion = cv_OSVersion release,
      id_Platform = \<lparr>pf_Bitness = co_Bitness system, pf_Architecture = co_Architecture system,
                     pf_NavigatorPlatform = co_NavigatorPlatform system, pf_Version = version\<rparr>,
      id_Browser = browser, id_BrowserVersion = versionNumbers number,
      id_Screen = \<lparr>sc_LogicalWidth = cs_Width display, sc_LogicalHeight = cs_Height display,
                   sc_OriginalWidth = scale (cs_Width display) ratio,
                   sc_OriginalHeight = scale (cs_Height display) ratio, sc_DensityPixelRatio = ratio\<rparr>,
      id_HardwareConcurrency = cores, id_Memory = mem,
      id_GPU = \<lparr>gp_Vendor = cg_Vendor adapter, gp_WebGLRenderer = cg_WebGLRenderer adapter,
                gp_WebGLVendor = cg_WebGLVendor adapter\<rparr>,
      id_Geo = ce_Code geo, id_Language = ce_Languages geo, id_HistoryCount = None, id_Proxy = [],
      id_Timezone = ce_Timezone geo\<rparr>"

text \<open>
  The choices in the order the source makes them. An empty list of platform versions is the one
  index that is not guarded; the panic of the index expression is an error here.
\<close>

definition draw_identity :: "catalog \<Rightarrow> catalog_os list \<Rightarrow> string \<Rightarrow> (64 word, identity result) state" where
  "draw_identity cat systems requested = do {
     system \<leftarrow> draw systems;
     release \<leftarrow> draw (co_Versions system);
     browser \<leftarrow> (if requested = [] then draw (co_Browsers system) else State_Monad.return requested);
     display \<leftarrow> draw (ca_Screens cat);
     ratio \<leftarrow> draw (ca_DensityPixelRatios cat);
     geo \<leftarrow> draw (ca_Geos cat);
     let versions = browserVersionsFor cat browser;
     if co_GPUs system = [] \<or> versions = []
     then State_Monad.return (Inl (wrapf Browser_ErrInvalid
       (''the identity catalog offers no '' @ browser @ '' on '' @ co_OS system)))
     else do {
       adapter \<leftarrow> draw (co_GPUs system);
       if cv_PlatformVersions release = []
       then State_Monad.return (Inl (Plain ''runtime error: index out of range''))
       else do {
         version \<leftarrow> draw (cv_PlatformVersions release);
         number \<leftarrow> draw versions;
         cores \<leftarrow> draw (ca_HardwareConcurrency cat);
         mem \<leftarrow> draw (ca_Memory cat);
         let i = assemble system release browser display ratio geo adapter version number cores mem;
         State_Monad.return (check (identity_Validate i) (Inr i))
       }
     }
   }"

definition DefaultIdentity :: "catalog \<Rightarrow> string \<Rightarrow> string \<Rightarrow> identity result" where
  "DefaultIdentity cat seed browser =
     (let systems = desktops cat browser in
      if systems = [] \<or> ca_Screens cat = [] \<or> ca_DensityPixelRatios cat = [] \<or> ca_Geos cat = []
         \<or> ca_HardwareConcurrency cat = [] \<or> ca_Memory cat = []
      then Inl (wrapf Browser_ErrInvalid (''the identity catalog offers no '' @ browser @ '' desktop''))
      else fst (run_state (draw_identity cat systems browser) (picker seed)))"

definition EphemeralIdentity :: "catalog \<Rightarrow> string result \<Rightarrow> string \<Rightarrow> identity result" where
  "EphemeralIdentity cat seed browser =
     (case seed of
        Inl e \<Rightarrow> Inl (annotate ''seed an ephemeral identity'' e)
      | Inr bytes \<Rightarrow> DefaultIdentity cat bytes browser)"

section \<open>What a draw can give\<close>

text \<open>The laws of the draw: every choice is an element of its list.\<close>

lemma draw_pred: "xs \<noteq> [] \<Longrightarrow> (\<And>x. x \<in> set xs \<Longrightarrow> P x) \<Longrightarrow> pred_state P (draw xs)"
  by (intro pred_stateI) (auto simp: draw_def next_index_def)

lemma return_pred: "P x \<Longrightarrow> pred_state P (State_Monad.return x)"
  by (intro pred_stateI) simp

lemmas drawing = bind_predI draw_pred return_pred

text \<open>
  An identity as the catalogue allows it: one desktop system with one of its own releases,
  platform versions, cards and browsers, and one country with its own languages and clock.
\<close>

definition coherent :: "catalog \<Rightarrow> identity \<Rightarrow> bool" where
  "coherent cat i \<longleftrightarrow>
     (\<exists>s \<in> set (ca_OperatingSystems cat). \<exists>r \<in> set (co_Versions s). \<exists>g \<in> set (co_GPUs s). \<exists>e \<in> set (ca_Geos cat).
        co_FormFactor s = ''desktop'' \<and> id_OS i = co_OS s \<and> id_OSVersion i = cv_OSVersion r
      \<and> pf_Version (id_Platform i) \<in> set (cv_PlatformVersions r)
      \<and> pf_NavigatorPlatform (id_Platform i) = co_NavigatorPlatform s
      \<and> id_Browser i \<in> set (co_Browsers s)
      \<and> (\<exists>n \<in> set (browserVersionsFor cat (id_Browser i)). id_BrowserVersion i = versionNumbers n)
      \<and> id_GPU i = \<lparr>gp_Vendor = cg_Vendor g, gp_WebGLRenderer = cg_WebGLRenderer g, gp_WebGLVendor = cg_WebGLVendor g\<rparr>
      \<and> id_Geo i = ce_Code e \<and> id_Language i = ce_Languages e \<and> id_Timezone i = ce_Timezone e)"

text \<open>What a catalogue must offer for every draw to validate, as a check that runs.\<close>

definition system_ok :: "catalog \<Rightarrow> string \<Rightarrow> catalog_os \<Rightarrow> bool" where
  "system_ok cat browser s \<longleftrightarrow>
     os_Valid (co_OS s) \<and> trim_space (co_NavigatorPlatform s) \<noteq> [] \<and> co_GPUs s \<noteq> []
   \<and> list_all (\<lambda>g. cg_Vendor g \<noteq> [] \<and> cg_WebGLRenderer g \<noteq> [] \<and> cg_WebGLVendor g \<noteq> []) (co_GPUs s)
   \<and> list_all (\<lambda>r. trim_space (cv_OSVersion r) \<noteq> [] \<and> cv_PlatformVersions r \<noteq> []
                 \<and> list_all (\<lambda>v. trim_space v \<noteq> []) (cv_PlatformVersions r)) (co_Versions s)
   \<and> list_all (\<lambda>b. browser_Valid b \<and> browserVersionsFor cat b \<noteq> []
                 \<and> list_all (\<lambda>n. versionNumbers n \<noteq> []) (browserVersionsFor cat b))
       (if browser = [] then co_Browsers s else [browser])"

definition screen_ok :: "f32 list \<Rightarrow> catalog_screen \<Rightarrow> bool" where
  "screen_ok ratios d \<longleftrightarrow>
     cs_Width d \<noteq> 0 \<and> cs_Height d \<noteq> 0
   \<and> list_all (\<lambda>r. 0 < fst r \<and> scale (cs_Width d) r \<noteq> 0 \<and> scale (cs_Height d) r \<noteq> 0) ratios"

definition catalog_ok :: "catalog \<Rightarrow> string \<Rightarrow> bool" where
  "catalog_ok cat browser \<longleftrightarrow>
     desktops cat browser \<noteq> [] \<and> list_all (system_ok cat browser) (desktops cat browser)
   \<and> ca_Screens cat \<noteq> [] \<and> ca_DensityPixelRatios cat \<noteq> []
   \<and> list_all (screen_ok (ca_DensityPixelRatios cat)) (ca_Screens cat)
   \<and> ca_Geos cat \<noteq> [] \<and> list_all (\<lambda>e. geo_Valid (ce_Code e) \<and> ce_Languages e \<noteq> []) (ca_Geos cat)
   \<and> ca_HardwareConcurrency cat \<noteq> [] \<and> 0 \<notin> set (ca_HardwareConcurrency cat)
   \<and> ca_Memory cat \<noteq> [] \<and> 0 \<notin> set (ca_Memory cat)"

lemma assemble_valid:
  assumes "system_ok cat requested s" and "r \<in> set (co_Versions s)" and "g \<in> set (co_GPUs s)"
    and "v \<in> set (cv_PlatformVersions r)" and "b \<in> set (if requested = [] then co_Browsers s else [requested])"
    and "n \<in> set (browserVersionsFor cat b)" and "screen_ok ratios d" and "ratio \<in> set ratios"
    and "geo_Valid (ce_Code e) \<and> ce_Languages e \<noteq> []" and "cores \<noteq> 0" and "mem \<noteq> 0"
  shows "identity_Validate (assemble s r b d ratio e g v n cores mem) = None"
  using assms unfolding system_ok_def screen_ok_def list_all_iff by (auto simp: identity_Validate_def assemble_def)

lemma assemble_coherent:
  assumes "s \<in> set (desktops cat requested)" and "r \<in> set (co_Versions s)" and "g \<in> set (co_GPUs s)"
    and "v \<in> set (cv_PlatformVersions r)" and "b \<in> set (if requested = [] then co_Browsers s else [requested])"
    and "n \<in> set (browserVersionsFor cat b)" and "e \<in> set (ca_Geos cat)"
  shows "coherent cat (assemble s r b d ratio e g v n cores mem) \<and> (requested \<noteq> [] \<longrightarrow> id_Browser (assemble s r b d ratio e g v n cores mem) = requested)"
proof -
  have "s \<in> set (ca_OperatingSystems cat)" "co_FormFactor s = ''desktop''" "b \<in> set (co_Browsers s)"
    using assms(1,5) by (auto simp: desktops_def split: if_splits)
  then show ?thesis using assms(2-7) unfolding coherent_def
    by (intro conjI bexI [of _ s] bexI [of _ r] bexI [of _ g] bexI [of _ e]) (auto simp: assemble_def split: if_splits)
qed

lemma draw_identity_ok:
  assumes "catalog_ok cat requested"
  shows "pred_state (\<lambda>res. \<exists>i. res = Inr i \<and> identity_Validate i = None \<and> coherent cat i \<and> (requested \<noteq> [] \<longrightarrow> id_Browser i = requested))
    (draw_identity cat (desktops cat requested) requested)"
proof -
  note ok = assms [unfolded catalog_ok_def list_all_iff]
  have sys: "system_ok cat requested s" "co_Versions s \<noteq> []" "co_Browsers s \<noteq> []" if "s \<in> set (desktops cat requested)" for s
    using ok that by (auto simp: desktops_def)
  have rel: "co_GPUs s \<noteq> []" "\<And>r. r \<in> set (co_Versions s) \<Longrightarrow> cv_PlatformVersions r \<noteq> []"
    "\<And>b. b \<in> set (if requested = [] then co_Browsers s else [requested]) \<Longrightarrow> browserVersionsFor cat b \<noteq> []"
    if "s \<in> set (desktops cat requested)" for s
    using sys(1) [OF that] unfolding system_ok_def list_all_iff by auto
  have kind: "pred_state (\<lambda>b. b \<in> set (if requested = [] then co_Browsers s else [requested]))
      (if requested = [] then draw (co_Browsers s) else State_Monad.return requested)"
    if "s \<in> set (desktops cat requested)" for s
    using sys(3) [OF that] by (auto intro: drawing)
  have kind': "pred_state P (if requested = [] then draw (co_Browsers s) else State_Monad.return requested)"
    if "s \<in> set (desktops cat requested)" "\<And>b. b \<in> set (if requested = [] then co_Browsers s else [requested]) \<Longrightarrow> P b" for s P
    using kind [OF that(1)] that(2) by (rule state.pred_mono_strong) (auto simp: set_state_iff)
  have valid: "identity_Validate (assemble s r b d ratio e g v n cores mem) = None"
    if "s \<in> set (desktops cat requested)" "r \<in> set (co_Versions s)" "b \<in> set (if requested = [] then co_Browsers s else [requested])"
      "d \<in> set (ca_Screens cat)" "ratio \<in> set (ca_DensityPixelRatios cat)" "e \<in> set (ca_Geos cat)" "g \<in> set (co_GPUs s)"
      "v \<in> set (cv_PlatformVersions r)" "n \<in> set (browserVersionsFor cat b)" "cores \<in> set (ca_HardwareConcurrency cat)"
      "mem \<in> set (ca_Memory cat)" for s r b d ratio e g v n cores mem
    by (rule assemble_valid [OF sys(1) [OF that(1)] that(2,7,8,3,9) _ that(5)]) (use ok that in auto)
  show ?thesis unfolding draw_identity_def
    apply (rule bind_predI, rule draw_pred, simp add: ok)
    apply (rule bind_predI, rule draw_pred, simp add: sys)
    apply (rule bind_predI, rule kind', assumption)
    apply (rule bind_predI, rule draw_pred, simp add: ok)+
    subgoal for s r b d ratio e
      using rel [of s] by (simp, intro drawing)
        (use ok sys [of s] in \<open>auto simp: valid assemble_coherent\<close>)
    done
qed

lemma DefaultIdentity_ok:
  assumes "catalog_ok cat requested"
  shows "\<exists>i. DefaultIdentity cat seed requested = Inr i \<and> identity_Validate i = None \<and> coherent cat i
    \<and> (requested \<noteq> [] \<longrightarrow> id_Browser i = requested)"
proof -
  have "desktops cat requested \<noteq> []" "ca_Screens cat \<noteq> []" "ca_DensityPixelRatios cat \<noteq> []" "ca_Geos cat \<noteq> []"
    "ca_HardwareConcurrency cat \<noteq> []" "ca_Memory cat \<noteq> []"
    using assms by (simp_all add: catalog_ok_def)
  then show ?thesis using pred_state_run_state [OF draw_identity_ok [OF assms], of "picker seed"]
    by (simp add: DefaultIdentity_def)
qed

text \<open>The embedded catalogue offers Chrome and no Safari.\<close>

lemma bit_length_le: "n < 2 ^ k \<Longrightarrow> bit_length n \<le> k"
proof (induction k arbitrary: n)
  case (Suc k)
  then have "n div 2 < 2 ^ k" by auto
  then show ?case using Suc.IH [of "n div 2"] by (simp add: bit_length.simps [of n])
qed (simp add: bit_length.simps)

lemma round24_small: "n < 2 ^ 24 \<Longrightarrow> round24 n = n"
  using bit_length_le [of n 24] by (simp add: round24_def)

lemma scale_nonzero:
  assumes "0 < m" and "2 ^ k \<le> unat n * nat m" and "unat n * nat m < 2 ^ 24"
  shows "scale n (m, k) \<noteq> 0"
proof -
  have "1 \<le> nat m" using assms(1) by simp
  then have "unat n < 2 ^ 24" using assms(3) by (intro le_less_trans [OF _ assms(3)]) simp
  then have "round24 (unat n) = unat n" "round24 (unat n * nat m) = unat n * nat m"
    using assms(3) round24_small by blast+
  then have s: "scale n (m, k) = word_of_nat (unat n * nat m div 2 ^ k)" by (simp add: scale_def)
  have "0 < unat n * nat m div 2 ^ k" using assms(2) by (simp add: div_greater_zero_iff)
  moreover have "unat n * nat m div 2 ^ k < 2 ^ LENGTH(32)"
    using assms(3) by (intro le_less_trans [OF div_le_dividend]) simp
  ultimately show ?thesis unfolding s using word_of_nat_eq_0_iff by (metis nat_dvd_not_less)
qed

lemma embedded_screens: "list_all (screen_ok (ca_DensityPixelRatios IdentityCatalog)) (ca_Screens IdentityCatalog)"
  by (simp add: IdentityCatalog_def screen_ok_def scale_nonzero)

lemma embedded_geos: "list_all (\<lambda>e. geo_Valid (ce_Code e) \<and> ce_Languages e \<noteq> []) (ca_Geos IdentityCatalog)"
  by (simp add: IdentityCatalog_def geo_Valid_def)

lemma embedded_version: "versionNumbers ''151.0.7922.169'' = [151, 0, 7922, 169]"
proof -
  have "trim_space ''151'' = ''151''" "trim_space ''0'' = ''0''" "trim_space ''7922'' = ''7922''" "trim_space ''169'' = ''169''"
    by code_simp+
  then show ?thesis by (simp add: versionNumbers_def List.map_filter_def parse_uint32_def digits_value_def byte_val_def)
qed

lemma embedded_desktops:
  "desktops IdentityCatalog [] = ca_OperatingSystems IdentityCatalog"
  "desktops IdentityCatalog BrowserChrome = ca_OperatingSystems IdentityCatalog"
  "browserVersionsFor IdentityCatalog BrowserChrome = [''151.0.7922.169'']"
  by (simp_all add: desktops_def IdentityCatalog_def browserVersionsFor_def BrowserChrome_def)

lemma embedded_systems:
  "list_all (system_ok IdentityCatalog []) (ca_OperatingSystems IdentityCatalog)"
  "list_all (system_ok IdentityCatalog BrowserChrome) (ca_OperatingSystems IdentityCatalog)"
proof -
  have "list_all (\<lambda>s. os_Valid (co_OS s) \<and> trim_space (co_NavigatorPlatform s) \<noteq> [] \<and> co_GPUs s \<noteq> []
     \<and> list_all (\<lambda>g. cg_Vendor g \<noteq> [] \<and> cg_WebGLRenderer g \<noteq> [] \<and> cg_WebGLVendor g \<noteq> []) (co_GPUs s)
     \<and> list_all (\<lambda>r. trim_space (cv_OSVersion r) \<noteq> [] \<and> cv_PlatformVersions r \<noteq> []
                   \<and> list_all (\<lambda>v. trim_space v \<noteq> []) (cv_PlatformVersions r)) (co_Versions s)
     \<and> co_Browsers s = [BrowserChrome]) (ca_OperatingSystems IdentityCatalog)"
    by code_simp
  moreover have "browser_Valid BrowserChrome" "BrowserChrome \<noteq> []" by (simp_all add: browser_Valid_def BrowserChrome_def)
  ultimately show "list_all (system_ok IdentityCatalog []) (ca_OperatingSystems IdentityCatalog)"
    "list_all (system_ok IdentityCatalog BrowserChrome) (ca_OperatingSystems IdentityCatalog)"
    using embedded_desktops(3) embedded_version by (auto simp: list_all_iff system_ok_def)
qed

lemma embedded_ok: "catalog_ok IdentityCatalog []" "catalog_ok IdentityCatalog BrowserChrome"
  using embedded_screens embedded_geos embedded_systems
  by (simp_all add: catalog_ok_def embedded_desktops) (simp_all add: IdentityCatalog_def)

lemma embedded_no_safari: "desktops IdentityCatalog BrowserSafari = []"
  by code_simp

lemma DefaultIdentity_safari:
  "DefaultIdentity IdentityCatalog seed BrowserSafari = Inl (wrapf Browser_ErrInvalid ''the identity catalog offers no safari desktop'')"
  using embedded_no_safari by (simp add: DefaultIdentity_def BrowserSafari_def)

text \<open>
  The seed reaches the draw only through eight bytes of its digest, so there are seeds that
  share an identity.
\<close>

lemma identities_collide:
  "\<exists>seed seed'. seed \<noteq> seed' \<and> DefaultIdentity cat seed browser = DefaultIdentity cat seed' browser"
proof -
  have "\<not> inj picker"
    using finite_imageD [of picker UNIV] infinite_UNIV_listI finite_subset [OF subset_UNIV, of "range picker"] by auto
  then obtain a b where "a \<noteq> b" "picker a = picker b" by (auto simp: inj_on_def)
  then show ?thesis by (intro exI [of _ a] exI [of _ b]) (simp add: DefaultIdentity_def)
qed

section \<open>Properties\<close>

text \<open>
  C23: a profile that chooses no identity gets a coherent one. Whatever the seed, the draw from
  the embedded catalogue succeeds, validates, and combines one desktop system with its own
  release, platform version, card and browser, and one country with its own languages and
  clock; asked for Chrome it is Chrome.
\<close>

theorem default_identity_coherent:
  "(\<exists>i. DefaultIdentity IdentityCatalog seed [] = Inr i \<and> identity_Validate i = None \<and> coherent IdentityCatalog i)
   \<and> (\<exists>i. DefaultIdentity IdentityCatalog seed BrowserChrome = Inr i \<and> identity_Validate i = None
          \<and> coherent IdentityCatalog i \<and> id_Browser i = BrowserChrome)"
  using DefaultIdentity_ok [OF embedded_ok(1), of seed] DefaultIdentity_ok [OF embedded_ok(2), of seed]
  by (auto simp: BrowserChrome_def)

end
