(* ===== verification/Deployments.thy ===== *)
theory Deployments
  imports Builds Lifecycle
begin

text \<open>
  Package \<open>internal/domain/deployment\<close>: a deployment goes from queued through building and
  publishing to ready or failed. Its operations do not validate the record they leave, so
  what they keep valid depends on the clock and, for \<open>MarkReady\<close>, on the build: those
  conditions are the premises of the step relation.
\<close>

section \<open>Records\<close>

datatype dep_status =
    DepQueued | DepBuilding | DepPublishing | DepReady | DepFailed | DepOther string

fun dep_Valid_status :: "dep_status \<Rightarrow> bool" where
  "dep_Valid_status (DepOther s) = False"
| "dep_Valid_status st = True"

definition Running :: "dep_status \<Rightarrow> bool" where
  "Running st \<longleftrightarrow> st = DepQueued \<or> st = DepBuilding \<or> st = DepPublishing"

definition stages :: "dep_status \<Rightarrow> dep_status option" where
  "stages = [DepQueued \<mapsto> DepBuilding, DepBuilding \<mapsto> DepPublishing]"

definition dep_status_text :: "dep_status \<Rightarrow> string" where
  "dep_status_text st =
     (case st of DepQueued \<Rightarrow> ''queued'' | DepBuilding \<Rightarrow> ''building''
      | DepPublishing \<Rightarrow> ''publishing'' | DepReady \<Rightarrow> ''ready'' | DepFailed \<Rightarrow> ''failed''
      | DepOther s \<Rightarrow> s)"

record dep_failure =
  df_Code :: string
  df_Message :: string

record deployment =
  dep_ID :: string
  dep_ProjectID :: string
  dep_AppID :: string
  dep_Runtime :: runtime
  dep_Status :: dep_status
  dep_CommitSHA :: string
  dep_GitRef :: string
  dep_Build :: "build option"
  dep_Failure :: "dep_failure option"
  dep_Logs :: string
  dep_StartedAt :: "time option"
  dep_FinishedAt :: "time option"
  dep_CreatedAt :: time
  dep_UpdatedAt :: time

definition dep_MaxLogBytes :: nat where
  "dep_MaxLogBytes = 262144"

section \<open>Validation\<close>

definition dep_ValidateIdentifier :: "string \<Rightarrow> string \<Rightarrow> go_err" where
  "dep_ValidateIdentifier field v = rethrow Deployment_ErrInvalid (ids_Validate field v)"

definition bad_dep_failure :: "dep_failure \<Rightarrow> bool" where
  "bad_dep_failure f \<longleftrightarrow>
     df_Code f = [] \<or> length (df_Code f) > 128
     \<or> trim_space (df_Message f) = [] \<or> length (df_Message f) > 4096"

definition validateFailure :: "dep_failure option \<Rightarrow> go_err" where
  "validateFailure fl =
     (case fl of
        None \<Rightarrow> None
      | Some f \<Rightarrow>
          guard (bad_dep_failure f) (wrapf Deployment_ErrInvalid ''failure metadata is invalid''))"

definition validateTiming :: "deployment \<Rightarrow> go_err" where
  "validateTiming r =
     first_err [
       guard (case dep_StartedAt r of None \<Rightarrow> False | Some s \<Rightarrow> s < dep_CreatedAt r)
         (wrapf Deployment_ErrInvalid ''deployment start time is invalid''),
       guard (case dep_FinishedAt r of
                None \<Rightarrow> False
              | Some f \<Rightarrow> f < dep_CreatedAt r
                  \<or> (case dep_StartedAt r of None \<Rightarrow> False | Some s \<Rightarrow> f < s))
         (wrapf Deployment_ErrInvalid ''deployment finish time is invalid'')]"

definition outcome_status_checks :: "deployment \<Rightarrow> go_err" where
  "outcome_status_checks r =
     (case dep_Status r of
        DepQueued \<Rightarrow>
          guard (dep_StartedAt r \<noteq> None)
            (wrapf Deployment_ErrInvalid ''a queued deployment has not started'')
      | DepBuilding \<Rightarrow>
          guard (dep_StartedAt r = None)
            (wrapf Deployment_ErrInvalid ''a running deployment has a start time'')
      | DepPublishing \<Rightarrow>
          guard (dep_StartedAt r = None)
            (wrapf Deployment_ErrInvalid ''a running deployment has a start time'')
      | DepReady \<Rightarrow>
          guard (dep_Build r = None \<or> dep_FinishedAt r = None)
            (wrapf Deployment_ErrInvalid ''a ready deployment has a build'')
      | DepFailed \<Rightarrow>
          first_err [
            guard (dep_Failure r = None \<or> dep_FinishedAt r = None)
              (wrapf Deployment_ErrInvalid ''a failed deployment requires failure metadata''),
            guard (dep_Build r \<noteq> None)
              (wrapf Deployment_ErrInvalid ''a failed deployment produced no build'')]
      | DepOther s \<Rightarrow> None)"

definition validateOutcome :: "deployment \<Rightarrow> go_err" where
  "validateOutcome r =
     first_err [
       guard (Running (dep_Status r)
              \<and> (dep_Build r \<noteq> None \<or> dep_Failure r \<noteq> None \<or> dep_FinishedAt r \<noteq> None))
         (wrapf Deployment_ErrInvalid ''a running deployment has not finished''),
       outcome_status_checks r,
       (case dep_Build r of
          None \<Rightarrow> None
        | Some b \<Rightarrow>
            first_err [
              rethrow Deployment_ErrInvalid (build_Validate b),
              guard (bld_Runtime b \<noteq> dep_Runtime r)
                (wrapf Deployment_ErrInvalid ''build metadata is inconsistent''),
              guard (bld_CreatedAt b < dep_CreatedAt r)
                (wrapf Deployment_ErrInvalid ''build creation time is invalid'')])]"

definition dep_Validate :: "deployment \<Rightarrow> go_err" where
  "dep_Validate r =
     first_err [
       dep_ValidateIdentifier ''project_id'' (dep_ProjectID r),
       dep_ValidateIdentifier ''deployment_id'' (dep_ID r),
       dep_ValidateIdentifier ''app_id'' (dep_AppID r),
       guard (\<not> runtime_Valid (dep_Runtime r))
         (wrapf Deployment_ErrInvalid ''deployment runtime is invalid''),
       guard (\<not> dep_Valid_status (dep_Status r))
         (wrapf Deployment_ErrInvalid ''deployment status is invalid''),
       guard (is_zero (dep_CreatedAt r) \<or> is_zero (dep_UpdatedAt r)
              \<or> dep_UpdatedAt r < dep_CreatedAt r)
         (wrapf Deployment_ErrInvalid ''deployment timestamps are invalid''),
       guard (length (dep_Logs r) > dep_MaxLogBytes)
         (wrapf Deployment_ErrInvalid ''deployment logs exceed the cap''),
       validateTiming r,
       validateOutcome r,
       validateFailure (dep_Failure r)]"

definition ValidateRecovery :: "time \<Rightarrow> dep_failure \<Rightarrow> go_err" where
  "ValidateRecovery now f =
     first_err [
       guard (is_zero now) (wrapf Deployment_ErrInvalid ''recovery time is required''),
       validateFailure (Some f)]"

section \<open>Operations\<close>

definition FromGit :: "deployment \<Rightarrow> string \<Rightarrow> string \<Rightarrow> deployment" where
  "FromGit r commitSHA ref =
     r\<lparr>dep_CommitSHA := trim_space commitSHA, dep_GitRef := trim_space ref\<rparr>"

definition dep_New ::
  "string \<Rightarrow> string \<Rightarrow> string \<Rightarrow> runtime \<Rightarrow> time \<Rightarrow> deployment result"
where
  "dep_New deploymentID projectID appID rt now =
     (let r = \<lparr>dep_ID = deploymentID, dep_ProjectID = projectID, dep_AppID = appID,
               dep_Runtime = rt, dep_Status = DepQueued, dep_CommitSHA = [], dep_GitRef = [],
               dep_Build = None, dep_Failure = None, dep_Logs = [], dep_StartedAt = None,
               dep_FinishedAt = None, dep_CreatedAt = now, dep_UpdatedAt = now\<rparr>
      in check (dep_Validate r) (Inr r))"

definition Advance :: "deployment \<Rightarrow> time \<Rightarrow> deployment \<times> go_err" where
  "Advance r now =
     (case stages (dep_Status r) of
        None \<Rightarrow> (r, Some (wrapf Deployment_ErrInvalid
                  (''deployment '' @ dep_ID r @ '' cannot advance from ''
                   @ dep_status_text (dep_Status r))))
      | Some following \<Rightarrow>
          (r\<lparr>dep_StartedAt := (if following = DepBuilding then Some now else dep_StartedAt r),
             dep_Status := following, dep_UpdatedAt := now\<rparr>, None))"

definition already_finished :: "deployment \<Rightarrow> error" where
  "already_finished r =
     wrapf Deployment_ErrInvalid (''deployment '' @ dep_ID r @ '' is already finished'')"

definition MarkReady :: "deployment \<Rightarrow> build \<Rightarrow> time \<Rightarrow> deployment \<times> go_err" where
  "MarkReady r produced now =
     (if \<not> Running (dep_Status r) then (r, Some (already_finished r))
      else case build_Validate produced of
        Some e \<Rightarrow> (r, Some e)
      | None \<Rightarrow>
          (r\<lparr>dep_Build := Some produced, dep_Failure := None, dep_Status := DepReady,
             dep_FinishedAt := Some now, dep_UpdatedAt := now\<rparr>, None))"

definition dep_failed :: "deployment \<Rightarrow> dep_failure \<Rightarrow> time \<Rightarrow> deployment" where
  "dep_failed r f now =
     r\<lparr>dep_Failure := Some f, dep_Status := DepFailed, dep_FinishedAt := Some now,
       dep_UpdatedAt := now\<rparr>"

definition dep_Fail :: "deployment \<Rightarrow> dep_failure \<Rightarrow> time \<Rightarrow> deployment \<times> go_err" where
  "dep_Fail r f now =
     (if \<not> Running (dep_Status r) then (r, Some (already_finished r))
      else case validateFailure (Some f) of
        Some e \<Rightarrow> (r, Some e)
      | None \<Rightarrow> (dep_failed r f now, None))"

definition FailInterrupted :: "deployment \<Rightarrow> time \<Rightarrow> dep_failure \<Rightarrow> deployment \<times> bool" where
  "FailInterrupted r now f =
     (if \<not> Running (dep_Status r) then (r, False) else (dep_failed r f now, True))"

text \<open>\<open>Log\<close> keeps the tail.\<close>

definition dep_Log :: "deployment \<Rightarrow> string \<Rightarrow> deployment" where
  "dep_Log r output =
     (if output = [] then r
      else let combined = dep_Logs r @ output in
        r\<lparr>dep_Logs :=
            (if length combined > dep_MaxLogBytes
             then drop (length combined - dep_MaxLogBytes) combined else combined)\<rparr>)"

section \<open>What a valid record is\<close>

definition dep_identity_ok :: "deployment \<Rightarrow> bool" where
  "dep_identity_ok r \<longleftrightarrow>
     valid_id (dep_ProjectID r) \<and> valid_id (dep_ID r) \<and> valid_id (dep_AppID r)
     \<and> runtime_Valid (dep_Runtime r) \<and> \<not> is_zero (dep_CreatedAt r)"

definition dep_times_ok :: "deployment \<Rightarrow> bool" where
  "dep_times_ok r \<longleftrightarrow>
     \<not> is_zero (dep_UpdatedAt r) \<and> dep_CreatedAt r \<le> dep_UpdatedAt r
     \<and> (\<forall>s. dep_StartedAt r = Some s \<longrightarrow> dep_CreatedAt r \<le> s)
     \<and> (\<forall>f. dep_FinishedAt r = Some f \<longrightarrow> dep_CreatedAt r \<le> f
          \<and> (\<forall>s. dep_StartedAt r = Some s \<longrightarrow> s \<le> f))"

definition dep_build_ok :: "deployment \<Rightarrow> build \<Rightarrow> bool" where
  "dep_build_ok r b \<longleftrightarrow>
     build_ok b \<and> bld_Runtime b = dep_Runtime r \<and> dep_CreatedAt r \<le> bld_CreatedAt b"

definition dep_outcome_ok :: "deployment \<Rightarrow> bool" where
  "dep_outcome_ok r \<longleftrightarrow>
     (case dep_Status r of
        DepQueued \<Rightarrow> dep_StartedAt r = None \<and> dep_Build r = None \<and> dep_Failure r = None
          \<and> dep_FinishedAt r = None
      | DepReady \<Rightarrow> (\<exists>b. dep_Build r = Some b \<and> dep_build_ok r b) \<and> dep_FinishedAt r \<noteq> None
          \<and> (\<forall>f. dep_Failure r = Some f \<longrightarrow> \<not> bad_dep_failure f)
      | DepFailed \<Rightarrow> (\<exists>f. dep_Failure r = Some f \<and> \<not> bad_dep_failure f) \<and> dep_FinishedAt r \<noteq> None
          \<and> dep_Build r = None
      | DepOther s \<Rightarrow> False
      | _ \<Rightarrow> dep_StartedAt r \<noteq> None \<and> dep_Build r = None \<and> dep_Failure r = None
          \<and> dep_FinishedAt r = None)"

definition dep_ok :: "deployment \<Rightarrow> bool" where
  "dep_ok r \<longleftrightarrow>
     dep_identity_ok r \<and> dep_times_ok r \<and> dep_outcome_ok r
     \<and> length (dep_Logs r) \<le> dep_MaxLogBytes"

lemma dep_ValidateIdentifier_None [simp]:
  "dep_ValidateIdentifier field v = None \<longleftrightarrow> valid_id v"
  by (simp add: dep_ValidateIdentifier_def)

lemma validateTiming_None:
  "validateTiming r = None \<longleftrightarrow>
     (\<forall>s. dep_StartedAt r = Some s \<longrightarrow> dep_CreatedAt r \<le> s)
     \<and> (\<forall>f. dep_FinishedAt r = Some f \<longrightarrow> dep_CreatedAt r \<le> f
          \<and> (\<forall>s. dep_StartedAt r = Some s \<longrightarrow> s \<le> f))"
  by (cases "dep_StartedAt r"; cases "dep_FinishedAt r") (auto simp: validateTiming_def)

lemma validateOutcome_None:
  "dep_Valid_status (dep_Status r) \<and> validateOutcome r = None \<and> validateFailure (dep_Failure r) = None
     \<longleftrightarrow> dep_outcome_ok r"
  by (cases "dep_Status r"; cases "dep_Build r"; cases "dep_Failure r")
     (auto simp: validateOutcome_def outcome_status_checks_def validateFailure_def Running_def
        dep_outcome_ok_def dep_build_ok_def)

lemma dep_Validate_None_iff [simp]: "dep_Validate r = None \<longleftrightarrow> dep_ok r"
  using validateOutcome_None [of r] validateTiming_None [of r]
  by (auto simp: dep_Validate_def dep_ok_def dep_identity_ok_def dep_times_ok_def)

section \<open>The life of a deployment\<close>

inductive dep_step :: "deployment \<Rightarrow> deployment \<Rightarrow> bool" where
  from_git: "dep_step r (FromGit r sha ref)"
| log: "dep_step r (dep_Log r output)"
| advance: "Advance r now = (n, None) \<Longrightarrow> dep_UpdatedAt r \<le> now \<Longrightarrow> \<not> is_zero now \<Longrightarrow> dep_step r n"
| ready: "MarkReady r b now = (n, None) \<Longrightarrow> dep_UpdatedAt r \<le> now \<Longrightarrow> \<not> is_zero now \<Longrightarrow>
    bld_Runtime b = dep_Runtime r \<Longrightarrow> dep_CreatedAt r \<le> bld_CreatedAt b \<Longrightarrow> dep_step r n"
| fail: "dep_Fail r f now = (n, None) \<Longrightarrow> dep_UpdatedAt r \<le> now \<Longrightarrow> \<not> is_zero now \<Longrightarrow> dep_step r n"
| interrupted: "FailInterrupted r now f = (n, True) \<Longrightarrow> ValidateRecovery now f = None \<Longrightarrow>
    dep_UpdatedAt r \<le> now \<Longrightarrow> dep_step r n"

inductive_cases dep_stepE: "dep_step r n"

definition dep_inv :: "deployment \<Rightarrow> bool" where
  "dep_inv r \<longleftrightarrow> dep_ok r \<and> (\<forall>s. dep_StartedAt r = Some s \<longrightarrow> s \<le> dep_UpdatedAt r)"

definition dep_ident :: "deployment \<Rightarrow> string \<times> string \<times> string \<times> runtime \<times> time" where
  "dep_ident r = (dep_ID r, dep_ProjectID r, dep_AppID r, dep_Runtime r, dep_CreatedAt r)"

definition dep_rank :: "deployment \<Rightarrow> nat" where
  "dep_rank r =
     (case dep_Status r of DepQueued \<Rightarrow> 0 | DepBuilding \<Rightarrow> 1 | DepPublishing \<Rightarrow> 2 | _ \<Rightarrow> 3)"

definition dep_finished :: "deployment \<Rightarrow> bool" where
  "dep_finished r \<longleftrightarrow> \<not> Running (dep_Status r)"

definition dep_outcome ::
  "deployment \<Rightarrow> dep_status \<times> build option \<times> dep_failure option \<times> time option \<times> time option \<times> time"
where
  "dep_outcome r =
     (dep_Status r, dep_Build r, dep_Failure r, dep_StartedAt r, dep_FinishedAt r, dep_UpdatedAt r)"

lemmas dep_ok_defs = dep_inv_def dep_ok_def dep_identity_ok_def dep_times_ok_def dep_outcome_ok_def
  dep_build_ok_def

lemma Advance_NoneD:
  assumes "Advance r now = (n, None)"
  shows "(dep_Status r = DepQueued \<and> n = r\<lparr>dep_StartedAt := Some now, dep_Status := DepBuilding, dep_UpdatedAt := now\<rparr>)
    \<or> (dep_Status r = DepBuilding \<and> n = r\<lparr>dep_Status := DepPublishing, dep_UpdatedAt := now\<rparr>)"
  using assms by (auto simp: Advance_def stages_def split: if_splits)

lemma MarkReady_NoneD:
  "MarkReady r b now = (n, None) \<Longrightarrow> Running (dep_Status r) \<and> build_ok b
     \<and> n = r\<lparr>dep_Build := Some b, dep_Failure := None, dep_Status := DepReady,
             dep_FinishedAt := Some now, dep_UpdatedAt := now\<rparr>"
  by (auto simp: MarkReady_def split: if_splits option.splits)

lemma dep_Fail_NoneD:
  "dep_Fail r f now = (n, None) \<Longrightarrow>
     Running (dep_Status r) \<and> \<not> bad_dep_failure f \<and> n = dep_failed r f now"
  by (auto simp: dep_Fail_def validateFailure_def split: if_splits option.splits)

lemma FailInterrupted_TrueD:
  "FailInterrupted r now f = (n, True) \<Longrightarrow> Running (dep_Status r) \<and> n = dep_failed r f now"
  by (auto simp: FailInterrupted_def split: if_splits)

lemma ValidateRecovery_None [simp]:
  "ValidateRecovery now f = None \<longleftrightarrow> \<not> is_zero now \<and> \<not> bad_dep_failure f"
  by (auto simp: ValidateRecovery_def validateFailure_def)

lemma keep_tail_append:
  "(let t = drop (length xs - k) xs @ ys in drop (length t - k) t)
     = drop (length (xs @ ys) - k) (xs @ ys)"
proof -
  have tail: "drop (length zs - k) zs = rev (take k (rev zs))" for zs :: "'a list"
    by (simp add: take_rev)
  show ?thesis by (simp only: Let_def tail rev_append rev_rev_ident take_append take_take length_rev)
     (simp add: min_def)
qed

lemma dep_Log_fields:
  "\<exists>l. dep_Log r out = r\<lparr>dep_Logs := l\<rparr> \<and> (length (dep_Logs r) \<le> dep_MaxLogBytes \<longrightarrow> length l \<le> dep_MaxLogBytes)"
  by (cases "out = []")
     (auto simp: dep_Log_def intro: exI [of _ "dep_Logs r"])

lemma dep_failed_inv:
  assumes "dep_inv r" and "Running (dep_Status r)" and "\<not> bad_dep_failure f"
    and "dep_UpdatedAt r \<le> now" and "\<not> is_zero now"
  shows "dep_inv (dep_failed r f now)"
  using assms by (auto simp: dep_ok_defs dep_failed_def Running_def split: dep_status.splits)

lemma dep_step_inv: "dep_step r n \<Longrightarrow> dep_inv r \<Longrightarrow> dep_inv n"
proof (erule dep_stepE)
  assume inv: "dep_inv r"
  show "dep_inv n" if "n = FromGit r sha ref" for sha ref
    using inv that by (simp add: dep_ok_defs FromGit_def split: dep_status.splits)
  show "dep_inv n" if log: "n = dep_Log r out" for out
  proof -
    obtain l where "n = r\<lparr>dep_Logs := l\<rparr>" "length l \<le> dep_MaxLogBytes"
      using dep_Log_fields [of r out] log inv unfolding dep_inv_def dep_ok_def by metis
    then show ?thesis using inv by (simp add: dep_ok_defs split: dep_status.splits)
  qed
  show "dep_inv n" if "Advance r now = (n, None)" "dep_UpdatedAt r \<le> now" "\<not> is_zero now" for now
    using Advance_NoneD [OF that(1)] that inv by (auto simp: dep_ok_defs)
  show "dep_inv n" if "MarkReady r b now = (n, None)" "dep_UpdatedAt r \<le> now" "\<not> is_zero now"
    "bld_Runtime b = dep_Runtime r" "dep_CreatedAt r \<le> bld_CreatedAt b" for b now
    using MarkReady_NoneD [OF that(1)] that inv by (auto simp: dep_ok_defs)
  show "dep_inv n" if "dep_Fail r f now = (n, None)" "dep_UpdatedAt r \<le> now" "\<not> is_zero now" for f now
    using dep_Fail_NoneD [OF that(1)] that inv dep_failed_inv by blast
  show "dep_inv n" if "FailInterrupted r now f = (n, True)" "ValidateRecovery now f = None"
    "dep_UpdatedAt r \<le> now" for f now
    using FailInterrupted_TrueD [OF that(1)] that inv dep_failed_inv by simp
qed

text \<open>Every step is a change of text, or leaves a running stage for a later one.\<close>

lemma dep_step_moves:
  "dep_step r n \<Longrightarrow>
     dep_ident n = dep_ident r
     \<and> (dep_outcome n = dep_outcome r \<or> (Running (dep_Status r) \<and> dep_rank r < dep_rank n))"
proof (erule dep_stepE)
  fix out assume "n = dep_Log r out"
  then show ?thesis using dep_Log_fields [of r out] by (auto simp: dep_ident_def dep_outcome_def)
qed (auto dest!: Advance_NoneD MarkReady_NoneD dep_Fail_NoneD FailInterrupted_TrueD
      simp: dep_ident_def dep_outcome_def dep_rank_def Running_def dep_failed_def FromGit_def)

interpretation dep_life: lifecycle dep_step dep_inv dep_ident dep_rank dep_finished dep_outcome
proof
  fix r n assume s: "dep_step r n"
  show "dep_inv r \<Longrightarrow> dep_inv n" using dep_step_inv [OF s] .
  show "dep_ident n = dep_ident r" using dep_step_moves [OF s] by simp
  show "dep_rank r \<le> dep_rank n"
    using dep_step_moves [OF s] by (auto simp: dep_outcome_def dep_rank_def)
  show "dep_finished r \<Longrightarrow> dep_finished n \<and> dep_outcome n = dep_outcome r"
    using dep_step_moves [OF s] by (auto simp: dep_finished_def dep_outcome_def)
qed

lemma dep_New_inv: "dep_New i p a rt now = Inr r \<Longrightarrow> dep_inv r"
  by (auto simp: dep_New_def dep_inv_def)

section \<open>Properties\<close>

text \<open>
  A deployment \<open>New\<close> made stays valid along every history of its operations, as long as
  the clock does not run backwards and the build handed to it is one of its own runtime
  made after it; its identity never changes, its stage never goes back, and once it is
  ready or failed its outcome and its times are fixed: only log text can still be added.
\<close>

lemma deployment_history:
  assumes "dep_New i p a rt now = Inr r0" and "dep_step\<^sup>*\<^sup>* r0 r" and "dep_step\<^sup>*\<^sup>* r n"
  shows "dep_Validate n = None \<and> dep_ident n = dep_ident r0 \<and> dep_rank r \<le> dep_rank n
    \<and> (\<not> Running (dep_Status r) \<longrightarrow> dep_outcome n = dep_outcome r)"
proof -
  have h: "dep_step\<^sup>*\<^sup>* r0 n" using assms(2,3) by simp
  have "dep_inv n" using dep_life.history_ok [OF h] dep_New_inv [OF assms(1)] by blast
  then show ?thesis
    using dep_life.history_ident [OF h] dep_life.history_rank [OF assms(3)]
      dep_life.history_final [OF assms(3)]
    by (auto simp: dep_inv_def dep_finished_def)
qed

definition sample_dep :: deployment where
  "sample_dep =
     \<lparr>dep_ID = ''dep_1'', dep_ProjectID = ''prj_1'', dep_AppID = ''app_1'', dep_Runtime = RuntimeGo,
      dep_Status = DepQueued, dep_CommitSHA = [], dep_GitRef = [], dep_Build = None,
      dep_Failure = None, dep_Logs = [], dep_StartedAt = None, dep_FinishedAt = None,
      dep_CreatedAt = 10, dep_UpdatedAt = 10\<rparr>"

text \<open>
  However the toolchain's output is cut into writes, \<open>Log\<close> keeps the same text: the
  last 262144 bytes of everything written.
\<close>

lemma Log_keeps_tail:
  assumes "length (dep_Logs r) \<le> dep_MaxLogBytes"
  shows "dep_Logs (foldl dep_Log r chunks)
    = (let all = dep_Logs r @ concat chunks in drop (length all - dep_MaxLogBytes) all)"
  using assms
proof (induction chunks arbitrary: r)
  case (Cons c cs)
  have l: "dep_Logs (dep_Log r c) = drop (length (dep_Logs r @ c) - dep_MaxLogBytes) (dep_Logs r @ c)"
    using Cons.prems by (auto simp: dep_Log_def)
  then have "length (dep_Logs (dep_Log r c)) \<le> dep_MaxLogBytes" by simp
  from Cons.IH [OF this] show ?case
    using keep_tail_append [of "dep_Logs r @ c" dep_MaxLogBytes "concat cs"]
    by (simp only: l foldl_Cons concat.simps append_assoc Let_def)
qed simp

end
