(* ===== verification/DeploymentRepo.thy ===== *)
theory DeploymentRepo
  imports Database Deployments
begin

text \<open>
  \<open>internal/repository/database/build.go\<close> and \<open>deployment.go\<close>: builds, written once, and
  deployments, each with the build its identifier leads to. The tables extend those of the
  executions. A build's artifacts are strings \<open>ValidateArtifact\<close> accepted, which their JSON
  column keeps as they are; times lose their nanoseconds.
\<close>

record dep_row =
  dr_id :: string
  dr_app_id :: string
  dr_runtime :: runtime
  dr_status :: dep_status
  dr_commit_sha :: "string option"
  dr_git_ref :: "string option"
  dr_failure :: "dep_failure option"
  dr_logs :: string
  dr_started_at :: "time option"
  dr_finished_at :: "time option"
  dr_created_at :: time
  dr_updated_at :: time
  dr_version :: int

record ddb = db +
  dd_active_build :: "string \<Rightarrow> string option"
  dd_deployments :: "dep_row list"

section \<open>Builds\<close>

definition stored_build :: "build \<Rightarrow> build" where
  "stored_build b = b\<lparr>bld_CreatedAt := pg_time (bld_CreatedAt b)\<rparr>"

text \<open>\<open>Save\<close>: a build identifier that is taken is left alone without an error; one build per deployment.\<close>

definition buildrepo_Save :: "ddb \<Rightarrow> build \<Rightarrow> ddb \<times> go_err" where
  "buildrepo_Save d b =
     (case build_Validate b of
        Some e \<Rightarrow> (d, Some e)
      | None \<Rightarrow>
          if \<not> pg_text_ok (bld_SourceSHA256 b) \<or> length (runes (bld_SourceSHA256 b)) \<noteq> 64
          then (d, Some (Plain ''save build''))
          else if bld_ID b \<in> bld_ID ` set (db_builds d) then (d, None)
          else if bld_DeploymentID b \<in> bld_DeploymentID ` set (db_builds d)
                  \<or> db_app_project d (bld_AppID b) = None
                  \<or> bld_DeploymentID b \<notin> dr_id ` set (dd_deployments d)
          then (d, Some (Plain ''save build''))
          else (d\<lparr>db_builds := db_builds d @ [stored_build b]\<rparr>, None))"

definition buildrepo_GetByID :: "'a db_scheme \<Rightarrow> string \<Rightarrow> build result" where
  "buildrepo_GetByID d i =
     (case build_ValidateIdentifier ''build_id'' i of
        Some e \<Rightarrow> Inl e
      | None \<Rightarrow>
          (case find (\<lambda>b. bld_ID b = i) (db_builds d) of
             None \<Rightarrow> Inl (wrapf Build_ErrNotFound i)
           | Some b \<Rightarrow> Inr b))"

definition build_org :: "ddb \<Rightarrow> build \<Rightarrow> string option" where
  "build_org d b =
     (case db_app_project d (bld_AppID b) of None \<Rightarrow> None | Some p \<Rightarrow> db_project_org d p)"

definition buildrepo_Get :: "ddb \<Rightarrow> string \<Rightarrow> string \<Rightarrow> build result" where
  "buildrepo_Get d org i =
     (case build_ValidateIdentifier ''build_id'' i of
        Some e \<Rightarrow> Inl e
      | None \<Rightarrow>
          (case find (\<lambda>b. build_org d b = Some org \<and> bld_ID b = i) (db_builds d) of
             None \<Rightarrow> Inl (wrapf Build_ErrNotFound i)
           | Some b \<Rightarrow> Inr b))"

definition buildrepo_ByDeployment :: "ddb \<Rightarrow> string \<Rightarrow> build result" where
  "buildrepo_ByDeployment d i =
     (case build_ValidateIdentifier ''deployment_id'' i of
        Some e \<Rightarrow> Inl e
      | None \<Rightarrow>
          (case find (\<lambda>b. bld_DeploymentID b = i) (db_builds d) of
             None \<Rightarrow> Inl (wrapf Build_ErrNotFound (''for '' @ i))
           | Some b \<Rightarrow> Inr b))"

definition buildrepo_List ::
  "pgsql \<Rightarrow> ddb \<Rightarrow> string \<Rightarrow> string \<Rightarrow> string \<Rightarrow> int \<Rightarrow> build list result"
where
  "buildrepo_List pg d org appID deploymentID limit =
     check (if appID = [] then None else build_ValidateIdentifier ''app_id'' appID)
       (check (if deploymentID = [] then None
               else build_ValidateIdentifier ''deployment_id'' deploymentID)
         (Inr (take (unat (postgresLimit limit))
            (rev (order_by (older pg bld_CreatedAt bld_ID)
               (filter (\<lambda>b. build_org d b = Some org \<and> (appID = [] \<or> bld_AppID b = appID)
                          \<and> (deploymentID = [] \<or> bld_DeploymentID b = deploymentID))
                  (db_builds d)))))))"

definition runnable_builds :: "ddb \<Rightarrow> string \<Rightarrow> string \<Rightarrow> build list" where
  "runnable_builds d org appID =
     filter (\<lambda>b. build_org d b = Some org \<and> bld_AppID b = appID
                \<and> (case dd_active_build d appID of None \<Rightarrow> True | Some i \<Rightarrow> bld_ID b = i))
       (db_builds d)"

definition ActiveForApp :: "pgsql \<Rightarrow> ddb \<Rightarrow> string \<Rightarrow> string \<Rightarrow> (build \<times> string) result" where
  "ActiveForApp pg d org appID =
     (case build_ValidateIdentifier ''app_id'' appID of
        Some e \<Rightarrow> Inl e
      | None \<Rightarrow>
          (case rev (order_by (older pg bld_CreatedAt bld_ID) (runnable_builds d org appID)) of
             [] \<Rightarrow> Inl (wrapf Build_ErrNotReady (''app '' @ appID @ '' has no build to run''))
           | b # _ \<Rightarrow>
               Inr (b, case db_app_project d (bld_AppID b) of None \<Rightarrow> [] | Some p \<Rightarrow> p)))"

section \<open>Deployments\<close>

definition pg_dep_failure :: "dep_failure option \<Rightarrow> dep_failure option option" where
  "pg_dep_failure fl =
     (case fl of
        None \<Rightarrow> Some None
      | Some f \<Rightarrow>
          if CHR 0x00 \<in> set (df_Code f) \<or> CHR 0x00 \<in> set (df_Message f) then None
          else Some (Some \<lparr>df_Code = sanitize (df_Code f), df_Message = sanitize (df_Message f)\<rparr>))"

text \<open>The parameters as bound, with the constraints every proposed row has to meet.\<close>

definition encode_dep :: "deployment \<Rightarrow> int \<Rightarrow> dep_row option" where
  "encode_dep r v =
     (case pg_dep_failure (dep_Failure r) of
        None \<Rightarrow> None
      | Some fl \<Rightarrow>
          if pg_text_ok (dep_Logs r) \<and> pg_text_ok (dep_CommitSHA r) \<and> pg_text_ok (dep_GitRef r)
             \<and> length (dep_Logs r) \<le> 262144
             \<and> (dep_CommitSHA r = [] \<or> length (runes (dep_CommitSHA r)) = 40)
             \<and> (dep_GitRef r = [] \<or> dep_CommitSHA r \<noteq> [])
             \<and> runtime_Valid (dep_Runtime r) \<and> dep_Valid_status (dep_Status r)
          then Some \<lparr>dr_id = dep_ID r, dr_app_id = dep_AppID r, dr_runtime = dep_Runtime r,
                     dr_status = dep_Status r, dr_commit_sha = nullableString (dep_CommitSHA r),
                     dr_git_ref = nullableString (dep_GitRef r), dr_failure = fl,
                     dr_logs = dep_Logs r, dr_started_at = map_option pg_time (dep_StartedAt r),
                     dr_finished_at = map_option pg_time (dep_FinishedAt r),
                     dr_created_at = pg_time (dep_CreatedAt r),
                     dr_updated_at = pg_time (dep_UpdatedAt r), dr_version = v\<rparr>
          else None)"

definition conflict_update :: "dep_row \<Rightarrow> dep_row \<Rightarrow> bool" where
  "conflict_update x n \<longleftrightarrow>
     dr_app_id x = dr_app_id n \<and> (Running (dr_status x) \<or> dr_status x = dr_status n)"

definition saveDeployment :: "ddb \<Rightarrow> deployment \<Rightarrow> ddb \<times> go_err" where
  "saveDeployment d r =
     (case encode_dep r 1 of
        None \<Rightarrow> (d, Some (Plain ''save deployment''))
      | Some n \<Rightarrow>
          (case find (\<lambda>x. dr_id x = dep_ID r) (dd_deployments d) of
             None \<Rightarrow>
               if db_app_project d (dep_AppID r) = None
               then (d, Some (Plain ''save deployment''))
               else (d\<lparr>dd_deployments := dd_deployments d @ [n]\<rparr>, None)
           | Some x \<Rightarrow>
               if conflict_update x n
               then (d\<lparr>dd_deployments := map (\<lambda>y. if dr_id y = dep_ID r
                          then n\<lparr>dr_version := dr_version y + 1\<rparr> else y) (dd_deployments d)\<rparr>, None)
               else (d, requireOneRow 0 ''deployment changed concurrently'')))"

definition deprepo_Save :: "ddb \<Rightarrow> deployment \<Rightarrow> ddb \<times> go_err" where
  "deprepo_Save d r =
     (case dep_Validate r of Some e \<Rightarrow> (d, Some e) | None \<Rightarrow> saveDeployment d r)"

definition dep_record :: "ddb \<Rightarrow> dep_row \<Rightarrow> build option \<Rightarrow> deployment" where
  "dep_record d x b =
     \<lparr>dep_ID = dr_id x,
      dep_ProjectID = (case db_app_project d (dr_app_id x) of None \<Rightarrow> [] | Some p \<Rightarrow> p),
      dep_AppID = dr_app_id x, dep_Runtime = dr_runtime x, dep_Status = dr_status x,
      dep_CommitSHA = (case dr_commit_sha x of None \<Rightarrow> [] | Some v \<Rightarrow> v),
      dep_GitRef = (case dr_git_ref x of None \<Rightarrow> [] | Some v \<Rightarrow> v),
      dep_Build = b, dep_Failure = dr_failure x, dep_Logs = dr_logs x,
      dep_StartedAt = dr_started_at x, dep_FinishedAt = dr_finished_at x,
      dep_CreatedAt = dr_created_at x, dep_UpdatedAt = dr_updated_at x\<rparr>"

definition dep_row_org :: "ddb \<Rightarrow> dep_row \<Rightarrow> string option" where
  "dep_row_org d x =
     (case db_app_project d (dr_app_id x) of None \<Rightarrow> None | Some p \<Rightarrow> db_project_org d p)"

definition dep_visible :: "ddb \<Rightarrow> string \<Rightarrow> string \<Rightarrow> dep_row \<Rightarrow> bool" where
  "dep_visible d org i x \<longleftrightarrow>
     dr_id x = i \<and> db_app_project d (dr_app_id x) \<noteq> None \<and> (org = [] \<or> dep_row_org d x = Some org)"

definition loadDeployment :: "ddb \<Rightarrow> string \<Rightarrow> string \<Rightarrow> deployment result" where
  "loadDeployment d org i =
     (case dep_ValidateIdentifier ''deployment_id'' i of
        Some e \<Rightarrow> Inl e
      | None \<Rightarrow>
          (case find (dep_visible d org i) (dd_deployments d) of
             None \<Rightarrow> Inl (wrapf Deployment_ErrNotFound i)
           | Some x \<Rightarrow>
               (case buildrepo_ByDeployment d (dr_id x) of
                  Inl e \<Rightarrow>
                    if errors_is e Build_ErrNotFound
                    then (case dep_Validate (dep_record d x None) of
                            Some e' \<Rightarrow> Inl (annotate ''invalid persisted deployment'' e')
                          | None \<Rightarrow> Inr (dep_record d x None))
                    else Inl e
                | Inr b \<Rightarrow>
                    (case dep_Validate (dep_record d x (Some b)) of
                       Some e' \<Rightarrow> Inl (annotate ''invalid persisted deployment'' e')
                     | None \<Rightarrow> Inr (dep_record d x (Some b))))))"

definition deprepo_GetByIDUnscoped :: "ddb \<Rightarrow> string \<Rightarrow> deployment result" where
  "deprepo_GetByIDUnscoped d i = loadDeployment d [] i"

definition getDeployment :: "ddb \<Rightarrow> string \<Rightarrow> string \<Rightarrow> deployment result" where
  "getDeployment d org i =
     (if org = [] then Inl (Plain ''organization is required'') else loadDeployment d org i)"

definition deprepo_ClaimQueued ::
  "pgsql \<Rightarrow> ddb \<Rightarrow> string list \<Rightarrow> time \<Rightarrow> ddb \<times> deployment result"
where
  "deprepo_ClaimQueued pg d locked now0 =
     (if is_zero now0
      then (d, Inl (wrapf Deployment_ErrInvalid ''claim time is required''))
      else let now = postgresTime now0 in
        case order_by (older pg dr_created_at dr_id)
               (filter (\<lambda>x. dr_status x = DepQueued \<and> dr_id x \<notin> set locked) (dd_deployments d)) of
          [] \<Rightarrow> (d, Inl (Bare Deployment_ErrNoQueued))
        | x # _ \<Rightarrow>
            (case deprepo_GetByIDUnscoped d (dr_id x) of
               Inl e \<Rightarrow> (d, Inl e)
             | Inr r \<Rightarrow>
                 (case Advance r now of
                    (r', Some e) \<Rightarrow> (d, Inl e)
                  | (r', None) \<Rightarrow>
                      (case saveDeployment d r' of
                         (d', Some e) \<Rightarrow> (d, Inl e)
                       | (d', None) \<Rightarrow> (d', Inr r')))))"

fun collect_deps :: "ddb \<Rightarrow> string \<Rightarrow> string list \<Rightarrow> deployment list result" where
  "collect_deps d org [] = Inr []"
| "collect_deps d org (i # is) =
     (case getDeployment d org i of
        Inl e \<Rightarrow> Inl e
      | Inr r \<Rightarrow> (case collect_deps d org is of Inl e \<Rightarrow> Inl e | Inr rs \<Rightarrow> Inr (r # rs)))"

definition deprepo_List ::
  "pgsql \<Rightarrow> ddb \<Rightarrow> string \<Rightarrow> string \<Rightarrow> string \<Rightarrow> int \<Rightarrow> deployment list result"
where
  "deprepo_List pg d org projectID appID limit =
     check (if projectID = [] then None else dep_ValidateIdentifier ''project_id'' projectID)
       (check (if appID = [] then None else dep_ValidateIdentifier ''app_id'' appID)
         (collect_deps d org
            (map dr_id (take (unat (postgresLimit limit))
              (rev (order_by (older pg dr_created_at dr_id)
                (filter (\<lambda>x. (projectID = [] \<or> db_app_project d (dr_app_id x) = Some projectID)
                           \<and> (appID = [] \<or> dr_app_id x = appID)
                           \<and> dep_row_org d x = Some org) (dd_deployments d))))))))"

fun recover_deps ::
  "ddb \<Rightarrow> string list \<Rightarrow> time \<Rightarrow> dep_failure \<Rightarrow> int \<Rightarrow> (ddb \<times> int) result"
where
  "recover_deps d [] now f k = Inr (d, k)"
| "recover_deps d (i # is) now f k =
     (case deprepo_GetByIDUnscoped d i of
        Inl e \<Rightarrow> Inl e
      | Inr r \<Rightarrow>
          (case FailInterrupted r now f of
             (r', False) \<Rightarrow> recover_deps d is now f k
           | (r', True) \<Rightarrow>
               (case saveDeployment d r' of
                  (d', Some e) \<Rightarrow> Inl e
                | (d', None) \<Rightarrow> recover_deps d' is now f (k + 1))))"

definition RecoverBuilding :: "ddb \<Rightarrow> time \<Rightarrow> dep_failure \<Rightarrow> ddb \<times> int result" where
  "RecoverBuilding d now f =
     (case ValidateRecovery now f of
        Some e \<Rightarrow> (d, Inl e)
      | None \<Rightarrow>
          (case recover_deps d (map dr_id (filter (\<lambda>x. Running (dr_status x)) (dd_deployments d)))
                  (postgresTime now) f 0 of
             Inl e \<Rightarrow> (d, Inl e)
           | Inr (d', k) \<Rightarrow> (d', Inr k)))"

section \<open>What a write changes\<close>

lemma accepted [simp]:
  "build_ok b \<Longrightarrow> build_Validate b = None" "dep_ok r \<Longrightarrow> dep_Validate r = None"
  "valid_id v \<Longrightarrow> dep_ValidateIdentifier field v = None"
  "valid_id v \<Longrightarrow> build_ValidateIdentifier field v = None"
  by simp_all

text \<open>
  What a row may become when the records passed to \<open>Save\<close> are among \<open>saved\<close>: a finished one stays
  as it is, unless one of those records has its id, its application and its status; then it
  holds what that record encodes to.
\<close>

definition deprow_follows :: "deployment set \<Rightarrow> dep_row \<Rightarrow> dep_row \<Rightarrow> bool" where
  "deprow_follows saved x y \<longleftrightarrow>
     dr_id y = dr_id x \<and> dr_app_id y = dr_app_id x \<and> dr_version x \<le> dr_version y
     \<and> (\<not> Running (dr_status x) \<longrightarrow> dr_status y = dr_status x
          \<and> (y = x \<or> (\<exists>r \<in> saved. dep_ID r = dr_id x \<and> dep_AppID r = dr_app_id x \<and> dep_Status r = dr_status x
                \<and> encode_dep r (dr_version y) = Some y)))"

definition ddb_follows :: "deployment set \<Rightarrow> ddb \<Rightarrow> ddb \<Rightarrow> bool" where
  "ddb_follows saved d d' \<longleftrightarrow>
     (\<forall>x \<in> set (dd_deployments d). \<exists>y \<in> set (dd_deployments d'). deprow_follows saved x y)
     \<and> prefix (db_builds d) (db_builds d') \<and> db_app_project d' = db_app_project d"

definition ddb_ok :: "ddb \<Rightarrow> bool" where
  "ddb_ok d \<longleftrightarrow> distinct (map dr_id (dd_deployments d)) \<and> distinct (map bld_ID (db_builds d))
     \<and> distinct (map bld_DeploymentID (db_builds d))"

text \<open>The operations that write, where every record a \<open>Save\<close> is given is one of \<open>saved\<close>.\<close>

inductive deprepo_step :: "pgsql \<Rightarrow> deployment set \<Rightarrow> ddb \<Rightarrow> ddb \<Rightarrow> bool" for pg saved where
  build_save: "buildrepo_Save d b = (d', e) \<Longrightarrow> deprepo_step pg saved d d'"
| save: "deprepo_Save d r = (d', e) \<Longrightarrow> r \<in> saved \<Longrightarrow> deprepo_step pg saved d d'"
| claim: "deprepo_ClaimQueued pg d locked now = (d', res) \<Longrightarrow> deprepo_step pg saved d d'"
| recover: "RecoverBuilding d now f = (d', res) \<Longrightarrow> deprepo_step pg saved d d'"

inductive_cases deprepo_stepE: "deprepo_step pg saved d d'"

lemma deprow_follows_refl [simp]: "deprow_follows saved x x"
  by (simp add: deprow_follows_def)

lemma deprow_follows_trans:
  assumes "deprow_follows saved x y" and "deprow_follows saved y z"
  shows "deprow_follows saved x z"
proof (cases "Running (dr_status x)")
  case True
  then show ?thesis using assms by (simp add: deprow_follows_def)
next
  case False
  then have "\<not> Running (dr_status y)" using assms(1) by (simp add: deprow_follows_def)
  then show ?thesis using assms False by (cases "z = y") (auto simp: deprow_follows_def)
qed

lemma ddb_follows_refl [simp]: "ddb_follows saved d d"
  unfolding ddb_follows_def using deprow_follows_refl by blast

lemma ddb_follows_trans: "ddb_follows saved a b \<Longrightarrow> ddb_follows saved b c \<Longrightarrow> ddb_follows saved a c"
  unfolding ddb_follows_def by (metis deprow_follows_trans prefix_order.trans)

lemma encode_dep_Some:
  "encode_dep r v = Some n \<Longrightarrow>
     dr_id n = dep_ID r \<and> dr_app_id n = dep_AppID r \<and> dr_status n = dep_Status r \<and> dr_version n = v"
  by (auto simp: encode_dep_def split: option.splits if_splits)

lemma saveDeployment_NoneD:
  assumes "saveDeployment d r = (d', None)"
  obtains (insert) n where "encode_dep r 1 = Some n" "dep_ID r \<notin> dr_id ` set (dd_deployments d)"
      "d' = d\<lparr>dd_deployments := dd_deployments d @ [n]\<rparr>"
  | (update) n x where "encode_dep r 1 = Some n" "x \<in> set (dd_deployments d)" "dr_id x = dep_ID r"
      "conflict_update x n"
      "d' = d\<lparr>dd_deployments := map (\<lambda>y. if dr_id y = dep_ID r
         then n\<lparr>dr_version := dr_version y + 1\<rparr> else y) (dd_deployments d)\<rparr>"
proof -
  obtain n where n: "encode_dep r 1 = Some n"
    using assms by (auto simp: saveDeployment_def split: option.splits)
  show thesis
  proof (cases "find (\<lambda>x. dr_id x = dep_ID r) (dd_deployments d)")
    case None
    then have "dep_ID r \<notin> dr_id ` set (dd_deployments d)" by (auto simp: find_None_iff)
    then show thesis using insert [OF n] assms n None by (simp add: saveDeployment_def split: if_splits)
  next
    case (Some x)
    then have "x \<in> set (dd_deployments d)" "dr_id x = dep_ID r" by (auto simp: find_Some_iff)
    then show thesis using update [OF n] assms n Some
      by (auto simp: saveDeployment_def requireOneRow_def split: if_splits)
  qed
qed

lemma saveDeployment_error: "saveDeployment d r = (d', Some e) \<Longrightarrow> d' = d"
  by (auto simp: saveDeployment_def split: option.splits if_splits)

lemma map_related: "(\<And>y. y \<in> set xs \<Longrightarrow> R y (g y)) \<Longrightarrow> \<forall>y \<in> set xs. \<exists>z \<in> set (map g xs). R y z"
  by auto

lemma ddb_key:
  "ddb_ok d \<Longrightarrow> x \<in> set (dd_deployments d) \<Longrightarrow> y \<in> set (dd_deployments d) \<Longrightarrow> dr_id y = dr_id x \<Longrightarrow> y = x"
  by (metis ddb_ok_def distinct_map inj_onD)

lemma encode_dep_version: "encode_dep r v = Some n \<Longrightarrow> encode_dep r w = Some (n\<lparr>dr_version := w\<rparr>)"
  by (auto simp: encode_dep_def split: option.splits if_splits)

lemma load_row:
  assumes "loadDeployment d org i = Inr r"
  shows "dep_ID r = i \<and> (\<exists>x \<in> set (dd_deployments d). dr_id x = i \<and> dr_status x = dep_Status r)"
  using assms by (auto simp: loadDeployment_def find_Some_iff dep_record_def dep_visible_def
      split: option.splits sum.splits if_splits)

lemma ddb_follows_builds: "ddb_follows saved d (d\<lparr>db_builds := db_builds d @ [b]\<rparr>)"
  unfolding ddb_follows_def using deprow_follows_refl by (simp, blast)

lemma saveDeployment_follows:
  assumes ok: "ddb_ok d" and s: "saveDeployment d r = (d', e)"
    and own: "r \<in> saved \<or> (\<exists>x \<in> set (dd_deployments d). dr_id x = dep_ID r \<and> Running (dr_status x))"
  shows "ddb_ok d' \<and> ddb_follows saved d d'"
proof (cases e)
  case None
  with s have "saveDeployment d r = (d', None)" by simp
  then show ?thesis
  proof (cases rule: saveDeployment_NoneD)
    case (insert n)
    then show ?thesis using ok encode_dep_Some [OF insert(1)]
      by (auto simp: ddb_ok_def ddb_follows_def intro: deprow_follows_refl)
  next
    case (update n x)
    let ?g = "\<lambda>y. if dr_id y = dep_ID r then n\<lparr>dr_version := dr_version y + 1\<rparr> else y"
    have ids: "map dr_id (dd_deployments d') = map dr_id (dd_deployments d)" "db_builds d' = db_builds d"
      using encode_dep_Some [OF update(1)] by (simp_all add: update(5))
    have "deprow_follows saved y (?g y)" if "y \<in> set (dd_deployments d)" for y
    proof (cases "dr_id y = dep_ID r")
      case True
      then have y: "y = x" using ddb_key [OF ok update(2) that] update(3) by simp
      have "Running (dr_status x) \<or> r \<in> saved" using own ddb_key [OF ok update(2)] update(3) by auto
      then show ?thesis using y update(3,4) encode_dep_Some [OF update(1)] encode_dep_version [OF update(1)]
        by (auto simp: deprow_follows_def conflict_update_def)
    qed simp
    then have "\<forall>y \<in> set (dd_deployments d). \<exists>z \<in> set (map ?g (dd_deployments d)). deprow_follows saved y z"
      by (rule map_related)
    then have "ddb_follows saved d d'" unfolding update(5) ddb_follows_def by simp
    moreover have "ddb_ok d'" using ok unfolding ddb_ok_def ids .
    ultimately show ?thesis by simp
  qed
next
  case (Some e')
  then show ?thesis using ok s saveDeployment_error by (metis ddb_follows_refl)
qed

lemma buildrepo_Save_follows:
  assumes "ddb_ok d" and "buildrepo_Save d b = (d', e)"
  shows "ddb_ok d' \<and> ddb_follows saved d d'"
  using assms ddb_follows_builds
  by (auto simp: buildrepo_Save_def ddb_ok_def stored_build_def split: option.splits if_splits)

lemma recover_deps_follows:
  assumes "ddb_ok d" and "recover_deps d is now f k = Inr (d', k')"
  shows "ddb_ok d' \<and> ddb_follows saved d d'"
  using assms
proof (induction "is" arbitrary: d k)
  case (Cons i "is")
  from Cons.prems(2) obtain d1 k1 where d1: "recover_deps d1 is now f k1 = Inr (d', k')"
    and src: "d1 = d \<or> (\<exists>r. loadDeployment d [] i = Inr r \<and> Running (dep_Status r)
        \<and> saveDeployment d (dep_failed r f now) = (d1, None))"
    by (auto simp: deprepo_GetByIDUnscoped_def FailInterrupted_def
        split: sum.splits prod.splits option.splits bool.splits if_splits)
  from src have "ddb_ok d1 \<and> ddb_follows saved d d1"
  proof
    assume "\<exists>r. loadDeployment d [] i = Inr r \<and> Running (dep_Status r) \<and> saveDeployment d (dep_failed r f now) = (d1, None)"
    then obtain r where r: "loadDeployment d [] i = Inr r" "Running (dep_Status r)"
      "saveDeployment d (dep_failed r f now) = (d1, None)" by blast
    have "dep_ID (dep_failed r f now) = dep_ID r" by (simp add: dep_failed_def)
    moreover obtain x where "x \<in> set (dd_deployments d)" "dr_id x = i" "dr_status x = dep_Status r" "dep_ID r = i"
      using load_row [OF r(1)] by blast
    ultimately have "\<exists>x \<in> set (dd_deployments d). dr_id x = dep_ID (dep_failed r f now) \<and> Running (dr_status x)"
      using r(2) by auto
    then show ?thesis using saveDeployment_follows [OF Cons.prems(1) r(3), of saved] by blast
  qed (use Cons.prems(1) in simp)
  then show ?case using Cons.IH [OF _ d1] ddb_follows_trans by blast
qed simp

lemma deprepo_step_follows:
  assumes ok: "ddb_ok d" and step: "deprepo_step pg saved d d'"
  shows "ddb_ok d' \<and> ddb_follows saved d d'"
  using step
proof (cases rule: deprepo_step.cases)
  case (build_save b e)
  then show ?thesis using buildrepo_Save_follows [OF ok] by blast
next
  case (save r e)
  then show ?thesis using saveDeployment_follows [OF ok] ok
    by (auto simp: deprepo_Save_def split: option.splits)
next
  case (claim locked now res)
  consider "d' = d"
    | x r r' where "x \<in> set (dd_deployments d)" "dr_status x = DepQueued" "loadDeployment d [] (dr_id x) = Inr r"
        "Advance r (postgresTime now) = (r', None)" "saveDeployment d r' = (d', None)"
  proof (cases "order_by (older pg dr_created_at dr_id) (filter (\<lambda>x. dr_status x = DepQueued \<and> dr_id x \<notin> set locked) (dd_deployments d))")
    case Nil
    then show thesis using that(1) claim by (auto simp: deprepo_ClaimQueued_def split: if_splits)
  next
    case (Cons x xs)
    have "x \<in> set (dd_deployments d)" "dr_status x = DepQueued" using order_by_Cons_mem [OF Cons] by auto
    then show thesis using that claim Cons
      by (auto simp: deprepo_ClaimQueued_def deprepo_GetByIDUnscoped_def
          split: if_splits sum.splits prod.splits option.splits)
  qed
  then show ?thesis
  proof cases
    case (2 x r r')
    have "dep_ID r' = dr_id x" using 2(4) load_row [OF 2(3)] by (auto simp: Advance_def split: option.splits)
    then show ?thesis using saveDeployment_follows [OF ok 2(5), of saved] 2(1,2) by (auto simp: Running_def)
  qed (use ok in simp)
next
  case (recover now f res)
  then show ?thesis using recover_deps_follows [OF ok] ok
    by (auto simp: RecoverBuilding_def split: option.splits sum.splits)
qed

lemma deprepo_steps_follow:
  assumes "ddb_ok d" and "(deprepo_step pg saved)\<^sup>*\<^sup>* d d'"
  shows "ddb_ok d' \<and> ddb_follows saved d d'"
  using assms(2)
proof (induction rule: rtranclp_induct)
  case (step b c)
  then show ?case using deprepo_step_follows [of b pg saved c] ddb_follows_trans [of saved d b c] by blast
qed (simp add: assms)

section \<open>Reading back\<close>

lemma find_map_keep:
  "(\<And>x. P (f x) = P x) \<Longrightarrow> (\<And>x. P x \<Longrightarrow> f x = x) \<Longrightarrow> find P (map f xs) = find P xs"
  by (induction xs) auto

lemma find_append: "find P (xs @ ys) = (case find P xs of Some x \<Rightarrow> Some x | None \<Rightarrow> find P ys)"
  by (induction xs) auto

text \<open>Saving one deployment does not change what another one loads as.\<close>

lemma load_cong:
  assumes "find (dep_visible d' org i) (dd_deployments d') = find (dep_visible d org i) (dd_deployments d)"
    and "db_app_project d' = db_app_project d" and "db_builds d' = db_builds d"
  shows "loadDeployment d' org i = loadDeployment d org i"
proof -
  have rec: "dep_record d' = dep_record d" using assms(2) by (intro ext) (simp add: dep_record_def)
  have builds: "buildrepo_ByDeployment d' = buildrepo_ByDeployment d"
    using assms(3) by (intro ext) (simp add: buildrepo_ByDeployment_def cong: option.case_cong)
  show ?thesis unfolding loadDeployment_def assms(1) rec builds ..
qed

lemma load_other:
  assumes "saveDeployment d r = (d', None)" and ne: "dep_ID r \<noteq> i"
  shows "loadDeployment d' org i = loadDeployment d org i"
  using assms(1)
proof (cases rule: saveDeployment_NoneD)
  case (insert n)
  have vis: "dep_visible d' org i = dep_visible d org i"
    by (intro ext) (simp add: insert(3) dep_visible_def dep_row_org_def cong: option.case_cong)
  have "\<not> dep_visible d org i n" using encode_dep_Some [OF insert(1)] ne by (simp add: dep_visible_def)
  then show ?thesis
    by (intro load_cong) (simp_all add: vis, simp_all add: insert(3) find_append split: option.split)
next
  case (update n x)
  let ?g = "\<lambda>y. if dr_id y = dep_ID r then n\<lparr>dr_version := dr_version y + 1\<rparr> else y"
  have vis: "dep_visible d' org i = dep_visible d org i"
    by (intro ext) (simp add: update(5) dep_visible_def dep_row_org_def cong: option.case_cong)
  have "find (dep_visible d org i) (map ?g (dd_deployments d)) = find (dep_visible d org i) (dd_deployments d)"
    using encode_dep_Some [OF update(1)] ne by (intro find_map_keep) (auto simp: dep_visible_def)
  then show ?thesis by (intro load_cong) (simp_all add: vis, simp_all add: update(5))
qed

lemma load_id: "loadDeployment d org i = Inr r \<Longrightarrow> dep_ID r = i"
  by (auto simp: loadDeployment_def find_Some_iff dep_record_def dep_visible_def
      split: option.splits sum.splits if_splits)

text \<open>A row that cannot be loaded stops the recovery sweep, wherever it comes in the sweep.\<close>

lemma recover_deps_blocked:
  assumes "i \<in> set is" and "\<exists>e. loadDeployment d [] i = Inl e"
  shows "\<exists>e. recover_deps d is now f k = Inl e"
  using assms
proof (induction "is" arbitrary: d k)
  case (Cons j "is")
  show ?case
  proof (cases "j = i \<or> (\<exists>e. loadDeployment d [] j = Inl e)")
    case True
    then show ?thesis using Cons.prems(2) by (auto simp: deprepo_GetByIDUnscoped_def)
  next
    case False
    then obtain r where r: "loadDeployment d [] j = Inr r" "j \<noteq> i" by (meson sum.exhaust)
    then have i: "i \<in> set is" "dep_ID (dep_failed r f now) \<noteq> i"
      using Cons.prems(1) load_id [OF r(1)] by (auto simp: dep_failed_def)
    show ?thesis
    proof (cases "saveDeployment d (dep_failed r f now)")
      case (Pair d' e)
      then show ?thesis
        using r(1) Cons.IH [OF i(1) Cons.prems(2)] Cons.IH [OF i(1), of d'] Cons.prems(2) load_other [OF _ i(2), of d d']
        by (cases e) (auto simp: deprepo_GetByIDUnscoped_def FailInterrupted_def)
    qed
  qed
qed simp

lemma RecoverBuilding_blocked:
  assumes "x \<in> set (dd_deployments d)" and "Running (dr_status x)"
    and "\<exists>e. loadDeployment d [] (dr_id x) = Inl e"
  shows "\<exists>e. RecoverBuilding d now f = (d, Inl e)"
proof -
  have "dr_id x \<in> set (map dr_id (filter (\<lambda>x. Running (dr_status x)) (dd_deployments d)))"
    using assms(1,2) by simp
  from recover_deps_blocked [OF this assms(3), of "postgresTime now" f 0]
  show ?thesis by (auto simp: RecoverBuilding_def split: option.splits)
qed

lemma load_InlI:
  assumes "\<And>x. x \<in> set (dd_deployments d) \<Longrightarrow> dr_id x = i \<Longrightarrow> \<not> dep_ok (dep_record d x None)"
    and "\<And>x b. x \<in> set (dd_deployments d) \<Longrightarrow> dr_id x = i \<Longrightarrow> \<not> dep_ok (dep_record d x (Some b))"
  shows "\<exists>e. loadDeployment d org i = Inl e"
proof (cases "find (dep_visible d org i) (dd_deployments d)")
  case None
  then show ?thesis by (auto simp: loadDeployment_def split: option.splits)
next
  case (Some x)
  then have "x \<in> set (dd_deployments d)" "dr_id x = i" by (auto simp: find_Some_iff dep_visible_def)
  then show ?thesis using Some assms [of x]
    by (auto simp: loadDeployment_def split: option.splits sum.splits)
qed

lemma load_build_InlI:
  assumes "buildrepo_ByDeployment d i = Inr c"
    and "\<And>x. x \<in> set (dd_deployments d) \<Longrightarrow> dr_id x = i \<Longrightarrow> \<not> dep_ok (dep_record d x (Some c))"
  shows "\<exists>e. loadDeployment d org i = Inl e"
proof (cases "find (dep_visible d org i) (dd_deployments d)")
  case None
  then show ?thesis by (auto simp: loadDeployment_def split: option.splits)
next
  case (Some x)
  then have "x \<in> set (dd_deployments d)" "dr_id x = i" by (auto simp: find_Some_iff dep_visible_def)
  then show ?thesis using Some assms(1) assms(2) [of x]
    by (auto simp: loadDeployment_def split: option.splits)
qed

lemma load_Inr:
  "loadDeployment d org i = Inr r \<Longrightarrow>
     \<exists>x b. x \<in> set (dd_deployments d) \<and> dr_id x = i \<and> r = dep_record d x b \<and> dep_ok r"
proof (cases "find (dep_visible d org i) (dd_deployments d)")
  case (Some x)
  moreover assume "loadDeployment d org i = Inr r"
  ultimately have "\<exists>b. r = dep_record d x b \<and> dep_ok r"
    by (auto simp: loadDeployment_def split: option.splits sum.splits if_splits)
  moreover have "x \<in> set (dd_deployments d)" "dr_id x = i"
    using Some by (auto simp: find_Some_iff dep_visible_def)
  ultimately show ?thesis by blast
qed (auto simp: loadDeployment_def split: option.splits)


lemma saved_row:
  assumes "saveDeployment d r = (d', None)"
  shows "\<exists>n. encode_dep r 1 = Some n \<and> (\<exists>y \<in> set (dd_deployments d'). dr_id y = dep_ID r)
    \<and> (\<forall>y \<in> set (dd_deployments d'). dr_id y = dep_ID r \<longrightarrow> (\<exists>v. y = n\<lparr>dr_version := v\<rparr>))"
  using assms
proof (cases rule: saveDeployment_NoneD)
  case (insert n)
  moreover have "\<exists>v. n = n\<lparr>dr_version := v\<rparr>" by (rule exI [of _ "dr_version n"]) simp
  ultimately show ?thesis using encode_dep_Some [OF insert(1)] by (auto simp: image_iff)
next
  case (update n x)
  then have "n\<lparr>dr_version := dr_version x + 1\<rparr> \<in> set (dd_deployments d')" by force
  then show ?thesis using encode_dep_Some [OF update(1)] update
    by (intro exI [of _ n]) (auto intro!: bexI [of _ "n\<lparr>dr_version := dr_version x + 1\<rparr>"])
qed

lemma claim_source:
  assumes "ddb_ok d" and "deprepo_ClaimQueued pg d locked now = (d', Inr r)"
  shows "\<exists>r0. Advance r0 (postgresTime now) = (r, None) \<and> dep_Status r0 = DepQueued
    \<and> saveDeployment d r = (d', None) \<and> dep_ok r0"
proof -
  obtain x ys r0 where x: "order_by (older pg dr_created_at dr_id)
      (filter (\<lambda>x. dr_status x = DepQueued \<and> dr_id x \<notin> set locked) (dd_deployments d)) = x # ys"
    and load: "loadDeployment d [] (dr_id x) = Inr r0"
    and adv: "Advance r0 (postgresTime now) = (r, None)" and s: "saveDeployment d r = (d', None)"
    using assms(2)
    by (auto simp: deprepo_ClaimQueued_def deprepo_GetByIDUnscoped_def
        split: if_splits list.splits sum.splits prod.splits option.splits)
  have "x \<in> set (dd_deployments d)" "dr_status x = DepQueued" using order_by_Cons_mem [OF x] by auto
  then have "dep_Status r0 = DepQueued"
    using load_Inr [OF load] ddb_key [OF assms(1), of x] by (fastforce simp: dep_record_def)
  moreover have "dep_ok r0" using load_Inr [OF load] by blast
  ultimately show ?thesis using adv s by blast
qed

section \<open>Properties\<close>

definition sample_dep_row :: dep_row where
  "sample_dep_row =
     \<lparr>dr_id = ''dep_1'', dr_app_id = ''app_1'', dr_runtime = RuntimePython, dr_status = DepQueued,
      dr_commit_sha = None, dr_git_ref = None, dr_failure = None, dr_logs = [],
      dr_started_at = None, dr_finished_at = None, dr_created_at = 50000, dr_updated_at = 50000,
      dr_version = 1\<rparr>"

definition sample_ddb :: ddb where
  "sample_ddb =
     \<lparr>db_app_project = [''app_1'' \<mapsto> ''prj_1''], db_project_org = [''prj_1'' \<mapsto> ''org_1''],
      db_builds = [], db_executions = [], dd_active_build = Map.empty,
      dd_deployments = [sample_dep_row]\<rparr>"

definition sample_build :: build where
  "sample_build =
     \<lparr>bld_ID = ''bld_1'', bld_AppID = ''app_1'', bld_DeploymentID = ''dep_1'',
      bld_Runtime = RuntimePython, bld_SourceSHA256 = replicate 64 CHR ''a'',
      bld_Artifacts = [sample_artifact], bld_CreatedAt = 60000\<rparr>"

definition any_pg :: pgsql where
  "any_pg = \<lparr>pg_jsonb = Some, pg_size = length, pg_le = (\<lambda>a b. True)\<rparr>"

lemma sample_ddb_ok: "ddb_ok sample_ddb" "sample_dep_row \<in> set (dd_deployments sample_ddb)"
  by (simp_all add: ddb_ok_def sample_ddb_def)

lemmas dep_id_eval = valid_id_def safe_char_def safe_rune_def byte_val_def windowsDeviceName_def
  device_names_def upper_is_def

lemma sample_build_ok: "build_ok sample_build"
  using sample_artifact_valid
  by (simp add: build_ok_def sample_build_def is_zero_def sample_artifact_def LayerCode_def
      runtime_Compiled.simps dep_id_eval)

lemma replicate_text: "pg_text_ok (replicate n CHR ''a'')" "runes (replicate n CHR ''a'') = replicate n 97"
  by (induction n) (simp_all add: pg_text_ok_def byte_val_def)

lemma sample_build_saved:
  "buildrepo_Save sample_ddb sample_build
     = (sample_ddb\<lparr>db_builds := [stored_build sample_build]\<rparr>, None)"
  using sample_build_ok replicate_text [of 64]
  by (simp add: buildrepo_Save_def) (simp add: sample_build_def sample_ddb_def sample_dep_row_def)

lemma sample_dep_load:
  "loadDeployment sample_ddb [] ''dep_1'' = Inr (dep_record sample_ddb sample_dep_row None)"
proof -
  have rec: "dep_ok (dep_record sample_ddb sample_dep_row None)"
    by (simp add: dep_ok_defs dep_record_def sample_dep_row_def sample_ddb_def is_zero_def dep_id_eval)
  have id: "valid_id ''dep_1''" "dr_id sample_dep_row = ''dep_1''"
    by (simp_all add: dep_id_eval sample_dep_row_def)
  have found: "find (dep_visible sample_ddb [] ''dep_1'') (dd_deployments sample_ddb) = Some sample_dep_row"
    by (simp add: dep_visible_def sample_ddb_def sample_dep_row_def)
  have "buildrepo_ByDeployment sample_ddb ''dep_1'' = Inl (wrapf Build_ErrNotFound ''for dep_1'')"
    using id(1) by (simp add: buildrepo_ByDeployment_def) (simp add: sample_ddb_def)
  with rec id found show ?thesis by (simp add: loadDeployment_def)
qed

lemma sample_dep_claim:
  assumes "\<not> is_zero now"
  shows "\<exists>d. deprepo_ClaimQueued any_pg sample_ddb [] now
     = (d, Inr ((dep_record sample_ddb sample_dep_row None)
         \<lparr>dep_StartedAt := Some (postgresTime now), dep_Status := DepBuilding, dep_UpdatedAt := postgresTime now\<rparr>))"
proof -
  let ?r = "(dep_record sample_ddb sample_dep_row None)
         \<lparr>dep_StartedAt := Some (postgresTime now), dep_Status := DepBuilding, dep_UpdatedAt := postgresTime now\<rparr>"
  have q: "order_by (older any_pg dr_created_at dr_id)
      (filter (\<lambda>x. dr_status x = DepQueued \<and> dr_id x \<notin> set []) (dd_deployments sample_ddb)) = [sample_dep_row]"
    by (simp add: order_by_def sample_ddb_def sample_dep_row_def)
  have t: "dr_id sample_dep_row = ''dep_1''" by (simp add: sample_dep_row_def)
  have adv: "Advance (dep_record sample_ddb sample_dep_row None) (postgresTime now) = (?r, None)"
    by (simp add: Advance_def stages_def dep_record_def sample_dep_row_def)
  have "\<exists>d. saveDeployment sample_ddb ?r = (d, None)"
    by (simp add: saveDeployment_def encode_dep_def pg_dep_failure_def pg_text_ok_def dep_record_def
        conflict_update_def Running_def sample_ddb_def sample_dep_row_def)
  then show ?thesis
    unfolding deprepo_ClaimQueued_def Let_def q deprepo_GetByIDUnscoped_def list.case t sample_dep_load
      sum.case adv using assms by auto
qed

lemma sample_claim_times: "postgresTime 20500 = 20000" "\<not> is_zero 20500"
  by (simp_all add: postgresTime_def time_truncate_def microsecond_def is_zero_def)

definition finished_row :: dep_row where
  "finished_row = sample_dep_row\<lparr>dr_id := ''dep_2'', dr_status := DepFailed, dr_logs := ''boom'', dr_version := 7\<rparr>"

definition sample_ddb2 :: ddb where
  "sample_ddb2 = sample_ddb\<lparr>dd_deployments := [sample_dep_row, finished_row]\<rparr>"

lemma sample_claim2:
  "\<exists>d r. deprepo_ClaimQueued any_pg sample_ddb2 [] 20500 = (d, Inr r) \<and> d \<noteq> sample_ddb2"
proof -
  let ?r = "(dep_record sample_ddb sample_dep_row None)
         \<lparr>dep_StartedAt := Some (postgresTime 20500), dep_Status := DepBuilding, dep_UpdatedAt := postgresTime 20500\<rparr>"
  have q: "order_by (older any_pg dr_created_at dr_id)
      (filter (\<lambda>x. dr_status x = DepQueued \<and> dr_id x \<notin> set []) (dd_deployments sample_ddb2)) = [sample_dep_row]"
    by (simp add: order_by_def sample_ddb2_def finished_row_def sample_dep_row_def)
  have vis: "dep_visible sample_ddb2 [] ''dep_1'' = dep_visible sample_ddb [] ''dep_1''"
    by (intro ext) (simp add: sample_ddb2_def dep_visible_def dep_row_org_def cong: option.case_cong)
  have load: "loadDeployment sample_ddb2 [] ''dep_1'' = loadDeployment sample_ddb [] ''dep_1''"
    by (intro load_cong) (simp_all add: vis, simp_all add: sample_ddb2_def sample_ddb_def dep_visible_def sample_dep_row_def)
  have t: "dr_id sample_dep_row = ''dep_1''" by (simp add: sample_dep_row_def)
  have adv: "Advance (dep_record sample_ddb sample_dep_row None) (postgresTime 20500) = (?r, None)"
    by (simp add: Advance_def stages_def dep_record_def sample_dep_row_def)
  have "\<exists>d. saveDeployment sample_ddb2 ?r = (d, None) \<and> d \<noteq> sample_ddb2"
    by (simp add: saveDeployment_def encode_dep_def pg_dep_failure_def pg_text_ok_def dep_record_def
        conflict_update_def Running_def sample_ddb_def sample_ddb2_def finished_row_def sample_dep_row_def)
  then show ?thesis
    unfolding deprepo_ClaimQueued_def Let_def q deprepo_GetByIDUnscoped_def list.case t load sample_dep_load
      sum.case adv using sample_claim_times(2) by auto
qed



text \<open>
  A crash between saving a build and saving its deployment as ready cannot be recovered
  from. The row is still running while its build exists, which no valid deployment is: every
  load of it fails, and so does every recovery sweep, for all deployments, whatever the
  time and the failure; the process cannot start again.
\<close>

lemma interrupted_publish_blocks_recovery:
  assumes "x \<in> set (dd_deployments d)" and "ddb_ok d" and "Running (dr_status x)"
    and "buildrepo_Save d b = (d', None)" and "bld_DeploymentID b = dr_id x"
    and "bld_ID b \<notin> bld_ID ` set (db_builds d)"
  shows "(\<exists>e. loadDeployment d' org (dr_id x) = Inl e) \<and> (\<exists>e. RecoverBuilding d' now f = (d', Inl e))"
proof -
  have d': "d' = d\<lparr>db_builds := db_builds d @ [stored_build b]\<rparr>" and b: "build_ok b"
    using assms(4,6) by (auto simp: buildrepo_Save_def split: option.splits if_splits)
  have "find (\<lambda>c. bld_DeploymentID c = dr_id x) (db_builds d') \<noteq> None"
    using assms(5) by (auto simp: d' find_None_iff stored_build_def)
  then obtain c where "buildrepo_ByDeployment d' (dr_id x) = Inr c"
    using b assms(5) by (auto simp: buildrepo_ByDeployment_def build_ok_def split: option.splits)
  moreover have "\<not> dep_ok (dep_record d' y (Some c))" if "y \<in> set (dd_deployments d)" "dr_id y = dr_id x" for y c
  proof -
    have "y = x" using ddb_key [OF assms(2,1) that] .
    then show ?thesis using assms(3)
      by (auto simp: dep_ok_def dep_outcome_ok_def dep_record_def Running_def)
  qed
  ultimately have load: "\<exists>e. loadDeployment d' org (dr_id x) = Inl e" for org
    using load_build_InlI [of d' "dr_id x"] d' by auto
  then show ?thesis using RecoverBuilding_blocked [of x d' now f] assms(1,3) d' by auto
qed

text \<open>
  A claim under a clock that is behind the one the deployment was created under stores
  a record nobody can read: the claim returns the deployment, but its row starts before it
  was created, so every later load and every recovery sweep fails.
\<close>

lemma ClaimQueued_clock_skew:
  assumes "ddb_ok d" and "deprepo_ClaimQueued pg d locked now = (d', Inr r)"
    and "postgresTime now < dep_CreatedAt r" and "pg_time (dep_CreatedAt r) = dep_CreatedAt r"
  shows "(\<exists>e. loadDeployment d' org (dep_ID r) = Inl e) \<and> (\<exists>e. RecoverBuilding d' now' f = (d', Inl e))"
proof -
  obtain r0 where adv: "Advance r0 (postgresTime now) = (r, None)"
    and q: "dep_Status r0 = DepQueued" and s: "saveDeployment d r = (d', None)"
    using claim_source [OF assms(1,2)] by metis
  have r: "dep_StartedAt r = Some (postgresTime now)" "dep_Status r = DepBuilding"
    using Advance_NoneD [OF adv] q by auto
  obtain n where n: "encode_dep r 1 = Some n"
    and rows: "\<And>y. y \<in> set (dd_deployments d') \<Longrightarrow> dr_id y = dep_ID r \<Longrightarrow> \<exists>v. y = n\<lparr>dr_version := v\<rparr>"
    and ex: "\<exists>y \<in> set (dd_deployments d'). dr_id y = dep_ID r"
    using saved_row [OF s] by metis
  have nf: "dr_started_at n = Some (postgresTime now)" "dr_created_at n = dep_CreatedAt r" "dr_status n = DepBuilding"
    using n r assms(4) by (auto simp: encode_dep_def split: option.splits if_splits)
  have bad: "\<not> dep_ok (dep_record d' y b)" if "y \<in> set (dd_deployments d')" "dr_id y = dep_ID r" for y b
    using rows [OF that] nf assms(3) by (auto simp: dep_ok_def dep_times_ok_def dep_record_def)
  then have l: "\<exists>e. loadDeployment d' org (dep_ID r) = Inl e" for org by (intro load_InlI) auto
  obtain y where y: "y \<in> set (dd_deployments d')" "dr_id y = dep_ID r" using ex by blast
  then have "Running (dr_status y)" using rows [OF y] nf by (auto simp: Running_def)
  then show ?thesis using RecoverBuilding_blocked [OF y(1)] y(2) l by simp
qed

text \<open>The record as the server keeps it.\<close>

definition stored_dep :: "deployment \<Rightarrow> deployment" where
  "stored_dep r =
     r\<lparr>dep_Build := map_option stored_build (dep_Build r),
       dep_StartedAt := map_option pg_time (dep_StartedAt r),
       dep_FinishedAt := map_option pg_time (dep_FinishedAt r),
       dep_CreatedAt := pg_time (dep_CreatedAt r), dep_UpdatedAt := pg_time (dep_UpdatedAt r)\<rparr>"

lemma stored_build_ok:
  assumes "build_ok b" and "t \<le> bld_CreatedAt b" and "0 < pg_time t"
  shows "build_ok (stored_build b) \<and> pg_time t \<le> bld_CreatedAt (stored_build b)"
  using assms pg_time_mono [OF assms(2)] by (simp add: build_ok_def stored_build_def is_zero_def)

lemma stored_dep_ok:
  assumes "dep_ok r" and "0 < pg_time (dep_CreatedAt r)"
  shows "dep_ok (stored_dep r)"
proof -
  have "dep_identity_ok (stored_dep r)" "length (dep_Logs (stored_dep r)) \<le> dep_MaxLogBytes"
    using assms by (simp_all add: dep_ok_def dep_identity_ok_def stored_dep_def is_zero_def)
  moreover have "dep_times_ok (stored_dep r)"
    using assms pg_time_mono [of "dep_CreatedAt r"] pg_time_mono [of "the (dep_StartedAt r)"]
    by (auto simp: dep_ok_def dep_times_ok_def stored_dep_def is_zero_def)
       (metis linorder_not_le order_less_le_trans less_irrefl)+
  moreover have "dep_outcome_ok (stored_dep r)"
    using assms stored_build_ok [of "the (dep_Build r)" "dep_CreatedAt r"]
    by (auto simp: dep_ok_def dep_outcome_ok_def stored_dep_def dep_build_ok_def stored_build_def split: dep_status.splits)
  ultimately show ?thesis by (simp add: dep_ok_def)
qed

lemma dep_record_encoded:
  assumes "encode_dep r 1 = Some n" and "db_app_project d (dep_AppID r) = Some (dep_ProjectID r)"
    and "\<And>f. dep_Failure r = Some f \<Longrightarrow> valid_utf8 (df_Code f) \<and> valid_utf8 (df_Message f)"
  shows "dep_record d (n\<lparr>dr_version := v\<rparr>) (map_option stored_build (dep_Build r)) = stored_dep r"
proof -
  have "pg_dep_failure (dep_Failure r) = Some (dep_Failure r) \<or> pg_dep_failure (dep_Failure r) = None"
    using assms(3) by (cases "dep_Failure r") (auto simp: pg_dep_failure_def sanitize_valid)
  then show ?thesis using assms(1,2)
    by (cases r) (auto simp: encode_dep_def dep_record_def stored_dep_def nullableString_def split: if_splits option.splits)
qed

text \<open>
  A deployment that was saved loads as it was saved, its times cut to microseconds and
  its build the one stored for it, when its failure is text and it belongs to the project
  its application does.
\<close>

lemma deployment_roundtrip:
  assumes "deprepo_Save d r = (d', None)" and "db_app_project d (dep_AppID r) = Some (dep_ProjectID r)"
    and "find (\<lambda>b. bld_DeploymentID b = dep_ID r) (db_builds d) = map_option stored_build (dep_Build r)"
    and "\<And>f. dep_Failure r = Some f \<Longrightarrow> valid_utf8 (df_Code f) \<and> valid_utf8 (df_Message f)"
    and "0 < pg_time (dep_CreatedAt r)"
  shows "deprepo_GetByIDUnscoped d' (dep_ID r) = Inr (stored_dep r)"
proof -
  have ok: "dep_ok r" and s: "saveDeployment d r = (d', None)"
    using assms(1) by (auto simp: deprepo_Save_def split: option.splits)
  have same: "db_app_project d' = db_app_project d" "db_builds d' = db_builds d"
    using s by (auto elim!: saveDeployment_NoneD)
  obtain n where n: "encode_dep r 1 = Some n" "\<exists>y \<in> set (dd_deployments d'). dr_id y = dep_ID r"
    "\<And>y. y \<in> set (dd_deployments d') \<Longrightarrow> dr_id y = dep_ID r \<Longrightarrow> \<exists>v. y = n\<lparr>dr_version := v\<rparr>"
    using saved_row [OF s] by metis
  have vis: "dep_visible d' [] (dep_ID r) y" if "y \<in> set (dd_deployments d')" "dr_id y = dep_ID r" for y
    using n(3) [OF that] encode_dep_Some [OF n(1)] assms(2) by (auto simp: dep_visible_def same)
  obtain y where y: "find (dep_visible d' [] (dep_ID r)) (dd_deployments d') = Some y"
    using n(2) vis by (cases "find (dep_visible d' [] (dep_ID r)) (dd_deployments d')") (auto simp: find_None_iff)
  then have "dr_id y = dep_ID r" "y \<in> set (dd_deployments d')" by (auto simp: find_Some_iff dep_visible_def)
  then obtain v where v: "y = n\<lparr>dr_version := v\<rparr>" using n(3) by blast
  have app: "db_app_project d' (dep_AppID r) = Some (dep_ProjectID r)" using assms(2) same by simp
  note rec = dep_record_encoded [OF n(1) app assms(4), of v]
  have id: "valid_id (dep_ID r)" using ok by (simp add: dep_ok_def dep_identity_ok_def)
  show ?thesis
    using y \<open>dr_id y = dep_ID r\<close> rec id assms(3) stored_dep_ok [OF ok assms(5)] same
    by (cases "dep_Build r")
       (auto simp: deprepo_GetByIDUnscoped_def loadDeployment_def buildrepo_ByDeployment_def v)
qed

text \<open>
  The build an app runs is one of its own, in the caller's organization: the pinned one
  when the app is pinned, otherwise the newest; the project returned with it is the app's.
\<close>

lemma ActiveForApp_newest:
  assumes "collation pg" and "ActiveForApp pg d org appID = Inr (b, projectID)"
  shows "b \<in> set (db_builds d) \<and> bld_AppID b = appID \<and> db_app_project d appID = Some projectID
    \<and> db_project_org d projectID = Some org
    \<and> (\<forall>i. dd_active_build d appID = Some i \<longrightarrow> bld_ID b = i)
    \<and> (dd_active_build d appID = None \<longrightarrow>
         (\<forall>c \<in> set (db_builds d). bld_AppID c = appID \<longrightarrow> bld_CreatedAt c \<le> bld_CreatedAt b))"
proof -
  obtain ys where ys: "rev (order_by (older pg bld_CreatedAt bld_ID) (runnable_builds d org appID)) = b # ys"
    and p: "projectID = (case db_app_project d (bld_AppID b) of None \<Rightarrow> [] | Some p \<Rightarrow> p)"
    using assms(2) by (auto simp: ActiveForApp_def split: option.splits list.splits)
  have b: "b \<in> set (runnable_builds d org appID)"
    and newest: "\<forall>c \<in> set (runnable_builds d org appID). older pg bld_CreatedAt bld_ID c b"
    using order_by_last [OF assms(1) ys] by simp_all
  show ?thesis using b newest p
    by (fastforce simp: runnable_builds_def build_org_def older_def split: option.splits)
qed

end
