(* ===== verification/Tenants.thy ===== *)
theory Tenants
  imports Accounts
begin

text \<open>
  The tables of identity and tenancy and the repositories over them:
  \<open>internal/repository/database\<close>, files \<open>organization.go\<close>, \<open>user.go\<close> and \<open>apikey.go\<close>. Several
  operations read in one statement and write in a later one outside a transaction; they take
  two states, \<open>seen\<close> for the read and \<open>d\<close> for the write, and the histories below let every
  such read be as old as the history itself. The theorems say what survives any of them: the
  owner of an organization stays its member, and an invitation is spent once.
\<close>

record user_row =
  ur_user :: user
  ur_password_hash :: string

record member_row =
  mr_organization_id :: string
  mr_user_id :: string
  mr_role :: role
  mr_created_at :: time
  mr_updated_at :: time

record invite_row =
  ir_invite :: invite
  ir_token_hash :: "nat list"

record key_row =
  kr_key :: key
  kr_hash :: "nat list"

record tenants =
  tn_users :: "user_row list"
  tn_orgs :: "organization list"
  tn_members :: "member_row list"
  tn_invites :: "invite_row list"
  tn_keys :: "key_row list"

abbreviation ur_id :: "user_row \<Rightarrow> string" where "ur_id x \<equiv> usr_ID (ur_user x)"

abbreviation ir_id :: "invite_row \<Rightarrow> string" where "ir_id x \<equiv> inv_ID (ir_invite x)"

abbreviation kr_id :: "key_row \<Rightarrow> string" where "kr_id x \<equiv> key_ID (kr_key x)"

abbreviation mr_key :: "member_row \<Rightarrow> string \<times> string" where
  "mr_key m \<equiv> (mr_organization_id m, mr_user_id m)"

section \<open>Constraints and error codes\<close>

text \<open>
  The SQLSTATE a statement fails with: the first of its conditions that holds, in the order
  the server checks them (parameters, CHECK constraints, unique indexes, foreign keys).
\<close>

definition refused :: "(string \<times> bool) list \<Rightarrow> string option" where
  "refused cs = map_option fst (find snd cs)"

definition texts :: "string list \<Rightarrow> bool" where
  "texts ps \<longleftrightarrow> list_all pg_text_ok ps"

definition classifyWriteError :: "string \<Rightarrow> string \<Rightarrow> error" where
  "classifyWriteError operation code =
     (if code = ''23505''
      then wrapf Account_ErrConflict (operation @ '' conflicts with an existing resource'')
      else if code = ''23503'' \<or> code = ''23514''
      then wrapf Account_ErrInvalid (operation @ '' violates a resource constraint'')
      else Plain (operation @ '': postgres '' @ code))"

definition classifyOrganizationError :: "string \<Rightarrow> string \<Rightarrow> error" where
  "classifyOrganizationError operation code =
     (let converted = classifyWriteError operation code
      in if errors_is converted Account_ErrConflict then wrapf Organization_ErrConflict operation
         else if errors_is converted Account_ErrInvalid then wrapf Organization_ErrInvalid operation
         else converted)"

definition btrim :: "string \<Rightarrow> string" where
  "btrim s = rev (dropWhile (\<lambda>c. c = CHR '' '') (rev (dropWhile (\<lambda>c. c = CHR '' '') s)))"

definition name_check :: "nat \<Rightarrow> string \<Rightarrow> bool" where
  "name_check bound name \<longleftrightarrow> (let n = length (runes (btrim name)) in 1 \<le> n \<and> n \<le> bound)"

definition email_check :: "letters \<Rightarrow> string \<Rightarrow> bool" where
  "email_check lt email \<longleftrightarrow>
     email = lt_sql_lower lt (btrim email)
     \<and> 3 \<le> length (runes email) \<and> length (runes email) \<le> 320"

section \<open>Organizations\<close>

definition orgrepo_Create ::
  "tenants \<Rightarrow> tenants \<Rightarrow> organization \<Rightarrow> tenants \<times> organization result"
where
  "orgrepo_Create seen d r =
     (case org_Validate r of
        Some e \<Rightarrow> (d, Inl e)
      | None \<Rightarrow>
          if \<not> texts [org_OwnerUserID r] then (d, Inl (Plain ''create organization''))
          else if org_OwnerUserID r \<in> org_OwnerUserID ` set (tn_orgs seen)
          then (d, Inl (Bare Organization_ErrAlreadyOwner))
          else case refused
              [(''22021'', \<not> texts [org_ID r, org_Name r]),
               (''23514'', \<not> name_check 120 (org_Name r)),
               (''23505'', org_ID r \<in> org_ID ` set (tn_orgs d)
                          \<or> org_OwnerUserID r \<in> org_OwnerUserID ` set (tn_orgs d)),
               (''23503'', org_OwnerUserID r \<notin> ur_id ` set (tn_users d))] of
            Some c \<Rightarrow> (d, Inl (classifyOrganizationError ''create organization'' c))
          | None \<Rightarrow>
              (case refused [(''23505'', (org_ID r, org_OwnerUserID r) \<in> mr_key ` set (tn_members d))] of
                 Some c \<Rightarrow> (d, Inl (classifyOrganizationError ''seed owner'' c))
               | None \<Rightarrow>
                   (d\<lparr>tn_orgs := tn_orgs d @
                        [r\<lparr>org_CreatedAt := pg_time (org_CreatedAt r),
                           org_UpdatedAt := pg_time (org_CreatedAt r)\<rparr>],
                      tn_members := tn_members d @
                        [\<lparr>mr_organization_id = org_ID r, mr_user_id = org_OwnerUserID r,
                          mr_role = RoleAdmin, mr_created_at = pg_time (org_CreatedAt r),
                          mr_updated_at = pg_time (org_CreatedAt r)\<rparr>]\<rparr>,
                    Inr r)))"

definition orgrepo_GetByID :: "tenants \<Rightarrow> string \<Rightarrow> organization result" where
  "orgrepo_GetByID d i =
     (if \<not> texts [i] then Inl (Plain ''read organization'')
      else case find (\<lambda>r. org_ID r = i) (tn_orgs d) of
        None \<Rightarrow> Inl (Bare Organization_ErrNotFound) | Some r \<Rightarrow> Inr r)"

definition orgrepo_ListForUser :: "pgsql \<Rightarrow> tenants \<Rightarrow> string \<Rightarrow> organization list result" where
  "orgrepo_ListForUser pg d userID =
     (if \<not> texts [userID] then Inl (Plain ''list organizations'')
      else Inr (rev (order_by (older pg org_CreatedAt org_ID)
             (concat (map (\<lambda>r. map (\<lambda>m. r)
                (filter (\<lambda>m. mr_key m = (org_ID r, userID)) (tn_members d))) (tn_orgs d))))))"

text \<open>
  \<open>UPDATE ... RETURNING\<close> goes through \<open>Query\<close>, so a refused row is reported when the result
  is collected, and is not classified.
\<close>

definition orgrepo_Rename :: "tenants \<Rightarrow> organization \<Rightarrow> tenants \<times> organization result" where
  "orgrepo_Rename d r =
     (case org_Validate r of
        Some e \<Rightarrow> (d, Inl e)
      | None \<Rightarrow>
          if \<not> texts [org_ID r, org_Name r] then (d, Inl (Plain ''rename organization''))
          else case find (\<lambda>o1. org_ID o1 = org_ID r) (tn_orgs d) of
            None \<Rightarrow> (d, Inl (Bare Organization_ErrNotFound))
          | Some found \<Rightarrow>
              if \<not> name_check 120 (org_Name r) then (d, Inl (Plain ''rename organization''))
              else
                let rename = (\<lambda>o1. o1\<lparr>org_Name := org_Name r, org_UpdatedAt := pg_time (org_UpdatedAt r)\<rparr>)
                in (d\<lparr>tn_orgs := map (\<lambda>o1. if org_ID o1 = org_ID r then rename o1 else o1) (tn_orgs d)\<rparr>,
                    Inr (rename found)))"

section \<open>Members\<close>

definition scanMember :: "tenants \<Rightarrow> member_row \<Rightarrow> member option" where
  "scanMember d m =
     (case (find (\<lambda>u. ur_id u = mr_user_id m) (tn_users d),
            find (\<lambda>r. org_ID r = mr_organization_id m) (tn_orgs d)) of
        (Some u, Some r) \<Rightarrow>
          Some \<lparr>mem_OrganizationID = mr_organization_id m, mem_UserID = mr_user_id m,
                mem_Email = usr_Email (ur_user u), mem_Role = mr_role m,
                mem_Owner = (org_OwnerUserID r = mr_user_id m),
                mem_CreatedAt = mr_created_at m, mem_UpdatedAt = mr_updated_at m\<rparr>
      | _ \<Rightarrow> None)"

definition memberQuery :: "tenants \<Rightarrow> (member_row \<Rightarrow> bool) \<Rightarrow> member list" where
  "memberQuery d p = List.map_filter (scanMember d) (filter p (tn_members d))"

definition orgrepo_Member :: "tenants \<Rightarrow> string \<Rightarrow> string \<Rightarrow> member result" where
  "orgrepo_Member d organizationID userID =
     (if \<not> texts [organizationID, userID] then Inl (Plain ''read membership'')
      else case memberQuery d (\<lambda>m. mr_key m = (organizationID, userID)) of
        [] \<Rightarrow> Inl (Bare Organization_ErrNotMember) | m # ms \<Rightarrow> Inr m)"

text \<open>The oldest membership; rows of one instant come in the order of the table.\<close>

definition FirstForUser :: "tenants \<Rightarrow> string \<Rightarrow> member result" where
  "FirstForUser d userID =
     (if \<not> texts [userID] then Inl (Plain ''read membership'')
      else case order_by (\<lambda>a b. mem_CreatedAt a \<le> mem_CreatedAt b)
                  (memberQuery d (\<lambda>m. mr_user_id m = userID)) of
        [] \<Rightarrow> Inl (Bare Organization_ErrNotMember) | m # ms \<Rightarrow> Inr m)"

definition orgrepo_ListMembers :: "pgsql \<Rightarrow> tenants \<Rightarrow> string \<Rightarrow> int \<Rightarrow> member list result" where
  "orgrepo_ListMembers pg d organizationID limit =
     (if \<not> texts [organizationID] then Inl (Plain ''list members'')
      else Inr (take (unat (postgresLimit limit))
             (order_by (older pg mem_CreatedAt mem_UserID)
                (memberQuery d (\<lambda>m. mr_organization_id m = organizationID)))))"

definition isOwner :: "tenants \<Rightarrow> string \<Rightarrow> string \<Rightarrow> bool result" where
  "isOwner d organizationID userID =
     (if \<not> texts [organizationID, userID] then Inl (Plain ''read organization owner'')
      else case find (\<lambda>r. org_ID r = organizationID) (tn_orgs d) of
        None \<Rightarrow> Inl (Bare Organization_ErrNotFound)
      | Some r \<Rightarrow> Inr (org_OwnerUserID r = userID))"

definition orgrepo_SetMemberRole ::
  "tenants \<Rightarrow> tenants \<Rightarrow> string \<Rightarrow> string \<Rightarrow> role \<Rightarrow> time \<Rightarrow> tenants \<times> member result"
where
  "orgrepo_SetMemberRole seen d organizationID userID r now =
     (case isOwner seen organizationID userID of
        Inl e \<Rightarrow> (d, Inl e)
      | Inr True \<Rightarrow> (d, Inl (Bare Organization_ErrOwnerLocked))
      | Inr False \<Rightarrow>
          (let hit = (organizationID, userID) \<in> mr_key ` set (tn_members d) in
           case refused [(''22021'', \<not> texts [r]), (''23514'', hit \<and> \<not> role_Valid r)] of
             Some c \<Rightarrow> (d, Inl (classifyOrganizationError ''update member'' c))
           | None \<Rightarrow>
               if \<not> hit then (d, Inl (Bare Organization_ErrNotMember))
               else
                 let d' = d\<lparr>tn_members :=
                        map (\<lambda>m. if mr_key m = (organizationID, userID)
                                 then m\<lparr>mr_role := r, mr_updated_at := pg_time now\<rparr> else m)
                          (tn_members d)\<rparr>
                 in (d', orgrepo_Member d' organizationID userID)))"

definition orgrepo_RemoveMember ::
  "tenants \<Rightarrow> tenants \<Rightarrow> string \<Rightarrow> string \<Rightarrow> tenants \<times> go_err"
where
  "orgrepo_RemoveMember seen d organizationID userID =
     (case isOwner seen organizationID userID of
        Inl e \<Rightarrow> (d, Some e)
      | Inr True \<Rightarrow> (d, Some (Bare Organization_ErrOwnerLocked))
      | Inr False \<Rightarrow>
          if (organizationID, userID) \<notin> mr_key ` set (tn_members d)
          then (d, Some (Bare Organization_ErrNotMember))
          else (d\<lparr>tn_members := filter (\<lambda>m. mr_key m \<noteq> (organizationID, userID)) (tn_members d)\<rparr>,
                None))"

section \<open>Invitations\<close>

definition CreateInvite :: "letters \<Rightarrow> tenants \<Rightarrow> invite \<Rightarrow> nat list \<Rightarrow> tenants \<times> go_err" where
  "CreateInvite lt d v digest =
     (case invite_Validate v of
        Some e \<Rightarrow> (d, Some e)
      | None \<Rightarrow>
          (case refused
              [(''22021'', \<not> texts [inv_ID v, inv_OrganizationID v, inv_Email v, inv_InvitedBy v]),
               (''23514'', \<not> email_check lt (inv_Email v) \<or> length digest \<noteq> 32),
               (''23505'', inv_ID v \<in> ir_id ` set (tn_invites d)
                          \<or> digest \<in> ir_token_hash ` set (tn_invites d)
                          \<or> list_ex (\<lambda>x. Pending (ir_invite x)
                                 \<and> inv_OrganizationID (ir_invite x) = inv_OrganizationID v
                                 \<and> inv_Email (ir_invite x) = inv_Email v) (tn_invites d)),
               (''23503'', inv_OrganizationID v \<notin> org_ID ` set (tn_orgs d)
                          \<or> (inv_InvitedBy v \<noteq> [] \<and> inv_InvitedBy v \<notin> ur_id ` set (tn_users d)))] of
             Some c \<Rightarrow> (d, Some (classifyOrganizationError ''create invitation'' c))
           | None \<Rightarrow>
               (d\<lparr>tn_invites := tn_invites d @
                    [\<lparr>ir_invite = v\<lparr>inv_CreatedAt := pg_time (inv_CreatedAt v),
                                     inv_ExpiresAt := pg_time (inv_ExpiresAt v),
                                     inv_AcceptedAt := None, inv_RevokedAt := None\<rparr>,
                      ir_token_hash = digest\<rparr>]\<rparr>, None)))"

definition orgrepo_ListInvites :: "pgsql \<Rightarrow> tenants \<Rightarrow> string \<Rightarrow> int \<Rightarrow> invite list result" where
  "orgrepo_ListInvites pg d organizationID limit =
     (if \<not> texts [organizationID] then Inl (Plain ''list invitations'')
      else Inr (take (unat (postgresLimit limit))
             (rev (order_by (older pg inv_CreatedAt inv_ID)
                (filter (\<lambda>v. inv_OrganizationID v = organizationID)
                   (map ir_invite (tn_invites d)))))))"

definition orgrepo_InviteByToken :: "tenants \<Rightarrow> nat list \<Rightarrow> invite result" where
  "orgrepo_InviteByToken d digest =
     (case find (\<lambda>x. ir_token_hash x = digest) (tn_invites d) of
        None \<Rightarrow> Inl (Bare Organization_ErrNotFound) | Some x \<Rightarrow> Inr (ir_invite x))"

text \<open>The membership of an accepted invitation: \<open>INSERT ... ON CONFLICT DO UPDATE\<close>.\<close>

definition upsert_member :: "member_row list \<Rightarrow> member_row \<Rightarrow> member_row list" where
  "upsert_member ms n =
     (if mr_key n \<in> mr_key ` set ms
      then map (\<lambda>m. if mr_key m = mr_key n
                    then m\<lparr>mr_role := mr_role n, mr_updated_at := mr_updated_at n\<rparr> else m) ms
      else ms @ [n])"

definition Redeem :: "tenants \<Rightarrow> invite \<Rightarrow> string \<Rightarrow> time \<Rightarrow> tenants \<times> member result" where
  "Redeem d v userID now =
     (let hit = (\<lambda>x. ir_id x = inv_ID v \<and> Pending (ir_invite x)) in
      if \<not> texts [inv_ID v] then (d, Inl (Plain ''accept invitation''))
      else if \<not> list_ex hit (tn_invites d) then (d, Inl (Bare Organization_ErrInviteSpent))
      else case refused
          [(''22021'', \<not> texts [inv_OrganizationID v, userID, inv_Role v]),
           (''23514'', \<not> role_Valid (inv_Role v)),
           (''23503'', inv_OrganizationID v \<notin> org_ID ` set (tn_orgs d)
                      \<or> userID \<notin> ur_id ` set (tn_users d))] of
        Some c \<Rightarrow> (d, Inl (classifyOrganizationError ''accept invitation'' c))
      | None \<Rightarrow>
          let d' = d\<lparr>tn_invites :=
                 map (\<lambda>x. if hit x
                          then x\<lparr>ir_invite := (ir_invite x)\<lparr>inv_AcceptedAt := Some (pg_time now)\<rparr>\<rparr>
                          else x) (tn_invites d),
               tn_members := upsert_member (tn_members d)
                 \<lparr>mr_organization_id = inv_OrganizationID v, mr_user_id = userID,
                  mr_role = inv_Role v, mr_created_at = pg_time now, mr_updated_at = pg_time now\<rparr>\<rparr>
          in (d', orgrepo_Member d' (inv_OrganizationID v) userID))"

definition orgrepo_RevokeInvite :: "tenants \<Rightarrow> string \<Rightarrow> string \<Rightarrow> time \<Rightarrow> tenants \<times> go_err" where
  "orgrepo_RevokeInvite d organizationID inviteID now =
     (let hit = (\<lambda>x. ir_id x = inviteID \<and> inv_OrganizationID (ir_invite x) = organizationID
                    \<and> inv_AcceptedAt (ir_invite x) = None) in
      if \<not> texts [organizationID, inviteID] then (d, Some (Plain ''revoke invitation''))
      else if \<not> list_ex hit (tn_invites d) then (d, Some (Bare Organization_ErrNotFound))
      else (d\<lparr>tn_invites :=
             map (\<lambda>x. if hit x
                      then x\<lparr>ir_invite := (ir_invite x)\<lparr>inv_RevokedAt :=
                               (case inv_RevokedAt (ir_invite x) of
                                  None \<Rightarrow> Some (pg_time now) | Some t \<Rightarrow> Some t)\<rparr>\<rparr>
                      else x) (tn_invites d)\<rparr>, None))"

section \<open>Users\<close>

definition hash_check :: "string \<Rightarrow> bool" where
  "hash_check h \<longleftrightarrow> has_prefix h ''$2'' \<and> length (runes h) = 60"

definition userrepo_Create :: "letters \<Rightarrow> tenants \<Rightarrow> user \<Rightarrow> string \<Rightarrow> tenants \<times> go_err" where
  "userrepo_Create lt d u passwordHash =
     (case refused
         [(''22021'', \<not> texts [usr_ID u, usr_Email u, passwordHash]),
          (''23514'', \<not> email_check lt (usr_Email u) \<or> \<not> hash_check passwordHash),
          (''23505'', usr_ID u \<in> ur_id ` set (tn_users d)
                     \<or> usr_Email u \<in> (\<lambda>x. usr_Email (ur_user x)) ` set (tn_users d))] of
        Some c \<Rightarrow> (d, Some (classifyWriteError ''create user'' c))
      | None \<Rightarrow>
          (d\<lparr>tn_users := tn_users d @
               [\<lparr>ur_user = u\<lparr>usr_Disabled := False, usr_CreatedAt := pg_time (usr_CreatedAt u),
                               usr_UpdatedAt := pg_time (usr_CreatedAt u)\<rparr>,
                 ur_password_hash = passwordHash\<rparr>]\<rparr>, None))"

definition find_user :: "tenants \<Rightarrow> string \<Rightarrow> user_row option" where
  "find_user d userID = find (\<lambda>x. ur_id x = userID) (tn_users d)"

definition userrepo_GetByID :: "tenants \<Rightarrow> string \<Rightarrow> user result" where
  "userrepo_GetByID d userID =
     (if \<not> texts [userID] then Inl (Plain ''read user'')
      else case find_user d userID of
        None \<Rightarrow> Inl (Bare Account_ErrNotFound) | Some x \<Rightarrow> Inr (ur_user x))"

definition userrepo_List :: "pgsql \<Rightarrow> tenants \<Rightarrow> string \<Rightarrow> int \<Rightarrow> user list result" where
  "userrepo_List pg d organizationID limit =
     (if \<not> texts [organizationID] then Inl (Plain ''list users'')
      else Inr (take (unat (postgresLimit limit))
             (rev (order_by (older pg usr_CreatedAt usr_ID)
                (map ur_user (filter (\<lambda>x.
                    (organizationID, ur_id x) \<in> mr_key ` set (tn_members d)
                    \<and> list_ex (\<lambda>r. org_ID r = organizationID \<and> org_OwnerUserID r \<noteq> ur_id x) (tn_orgs d))
                   (tn_users d)))))))"

definition userrepo_Update :: "letters \<Rightarrow> tenants \<Rightarrow> user \<Rightarrow> tenants \<times> go_err" where
  "userrepo_Update lt d u =
     (let hit = usr_ID u \<in> ur_id ` set (tn_users d) in
      case refused
          [(''22021'', \<not> texts [usr_ID u, usr_Email u]),
           (''23514'', hit \<and> \<not> email_check lt (usr_Email u)),
           (''23505'', hit \<and> list_ex (\<lambda>x. ur_id x \<noteq> usr_ID u \<and> usr_Email (ur_user x) = usr_Email u)
                        (tn_users d))] of
        Some c \<Rightarrow> (d, Some (classifyWriteError ''update user'' c))
      | None \<Rightarrow>
          if \<not> hit then (d, Some (Bare Account_ErrNotFound))
          else
          (d\<lparr>tn_users := map (\<lambda>x. if ur_id x = usr_ID u
                 then x\<lparr>ur_user := (ur_user x)\<lparr>usr_Email := usr_Email u, usr_Disabled := usr_Disabled u,
                                                 usr_UpdatedAt := pg_time (usr_UpdatedAt u)\<rparr>\<rparr>
                 else x) (tn_users d)\<rparr>, None))"

text \<open>
  Deleting a user: refused while the user owns an organization, takes the memberships along,
  clears the name of the user on invitations and keys.
\<close>

definition userrepo_Delete :: "tenants \<Rightarrow> string \<Rightarrow> tenants \<times> go_err" where
  "userrepo_Delete d userID =
     (if \<not> texts [userID] then (d, Some (classifyWriteError ''delete user'' ''22021''))
      else if userID \<notin> ur_id ` set (tn_users d) then (d, Some (Bare Account_ErrNotFound))
      else if userID \<in> org_OwnerUserID ` set (tn_orgs d)
      then (d, Some (classifyWriteError ''delete user'' ''23503''))
      else (d\<lparr>tn_users := filter (\<lambda>x. ur_id x \<noteq> userID) (tn_users d),
              tn_members := filter (\<lambda>m. mr_user_id m \<noteq> userID) (tn_members d),
              tn_invites := map (\<lambda>x. if inv_InvitedBy (ir_invite x) = userID
                  then x\<lparr>ir_invite := (ir_invite x)\<lparr>inv_InvitedBy := []\<rparr>\<rparr> else x) (tn_invites d),
              tn_keys := map (\<lambda>x. if key_UserID (kr_key x) = userID
                  then x\<lparr>kr_key := (kr_key x)\<lparr>key_UserID := []\<rparr>\<rparr> else x) (tn_keys d)\<rparr>, None))"

definition userrepo_Exists :: "tenants \<Rightarrow> string \<Rightarrow> bool result" where
  "userrepo_Exists d userID =
     (if \<not> texts [userID] then Inl (Plain ''check user'')
      else Inr (list_ex (\<lambda>x. ur_id x = userID \<and> \<not> usr_Disabled (ur_user x)) (tn_users d)))"

definition scan_account :: "user_row \<Rightarrow> account" where
  "scan_account x =
     \<lparr>acc_ID = ur_id x, acc_Email = usr_Email (ur_user x), acc_PasswordHash = ur_password_hash x,
      acc_Disabled = usr_Disabled (ur_user x), acc_CreatedAt = usr_CreatedAt (ur_user x)\<rparr>"

definition CredentialByEmail :: "letters \<Rightarrow> tenants \<Rightarrow> string \<Rightarrow> account result" where
  "CredentialByEmail lt d email =
     (if \<not> texts [NormalizeEmail lt email] then Inl (Plain ''read account'')
      else case find (\<lambda>x. usr_Email (ur_user x) = NormalizeEmail lt email) (tn_users d) of
        None \<Rightarrow> Inl (Bare Session_ErrAccountNotFound) | Some x \<Rightarrow> Inr (scan_account x))"

definition CredentialByID :: "tenants \<Rightarrow> string \<Rightarrow> account result" where
  "CredentialByID d userID =
     (if \<not> texts [userID] then Inl (Plain ''read account'')
      else case find_user d userID of
        None \<Rightarrow> Inl (Bare Session_ErrAccountNotFound) | Some x \<Rightarrow> Inr (scan_account x))"

definition LiveRole :: "tenants \<Rightarrow> string \<Rightarrow> string \<Rightarrow> role result" where
  "LiveRole d userID organizationID =
     (if \<not> texts [userID, organizationID] then Inl (Plain ''read member role'')
      else case (find_user d userID, find (\<lambda>m. mr_key m = (organizationID, userID)) (tn_members d)) of
        (Some u, Some m) \<Rightarrow>
          if usr_Disabled (ur_user u) then Inl (Bare Session_ErrAccountDisabled)
          else Inr (mr_role m)
      | _ \<Rightarrow> Inl (Bare Organization_ErrNotMember))"

section \<open>API keys\<close>

definition keyrepo_Create :: "tenants \<Rightarrow> key \<Rightarrow> nat list \<Rightarrow> tenants \<times> go_err" where
  "keyrepo_Create d k digest =
     (case refused
         [(''22021'', \<not> texts ([key_ID k, key_OrganizationID k, key_UserID k, key_Name k, key_Prefix k]
                             @ key_Scopes k)),
          (''23514'', length digest \<noteq> 32 \<or> \<not> name_check 128 (key_Name k)),
          (''23505'', key_ID k \<in> kr_id ` set (tn_keys d)
                     \<or> key_Prefix k \<in> (\<lambda>x. key_Prefix (kr_key x)) ` set (tn_keys d)),
          (''23503'', key_OrganizationID k \<notin> org_ID ` set (tn_orgs d)
                     \<or> (key_UserID k \<noteq> [] \<and> key_UserID k \<notin> ur_id ` set (tn_users d)))] of
        Some c \<Rightarrow> (d, Some (classifyWriteError ''create key'' c))
      | None \<Rightarrow>
          (d\<lparr>tn_keys := tn_keys d @
               [\<lparr>kr_key = k\<lparr>key_CreatedAt := pg_time (key_CreatedAt k), key_RevokedAt := None\<rparr>,
                 kr_hash = digest\<rparr>]\<rparr>, None))"

definition keyrepo_List :: "pgsql \<Rightarrow> tenants \<Rightarrow> string \<Rightarrow> int \<Rightarrow> key list result" where
  "keyrepo_List pg d organizationID limit =
     (if \<not> texts [organizationID] then Inl (Plain ''list keys'')
      else Inr (take (unat (postgresLimit limit))
             (rev (order_by (older pg key_CreatedAt key_ID)
                (filter (\<lambda>k. key_OrganizationID k = organizationID) (map kr_key (tn_keys d)))))))"

definition keyrepo_Revoke :: "tenants \<Rightarrow> string \<Rightarrow> string \<Rightarrow> time \<Rightarrow> tenants \<times> key result" where
  "keyrepo_Revoke d organizationID keyID now =
     (let hit = (\<lambda>x. kr_id x = keyID \<and> key_OrganizationID (kr_key x) = organizationID);
          revoke = (\<lambda>x. x\<lparr>kr_key := (kr_key x)\<lparr>key_RevokedAt :=
                      (case key_RevokedAt (kr_key x) of None \<Rightarrow> Some (pg_time now) | Some t \<Rightarrow> Some t)\<rparr>\<rparr>) in
      if \<not> texts [keyID, organizationID] then (d, Inl (Plain ''revoke key''))
      else case find hit (tn_keys d) of
        None \<Rightarrow> (d, Inl (Bare Account_ErrNotFound))
      | Some x \<Rightarrow>
          (d\<lparr>tn_keys := map (\<lambda>x. if hit x then revoke x else x) (tn_keys d)\<rparr>, Inr (kr_key (revoke x))))"

definition CredentialByPrefix :: "tenants \<Rightarrow> string \<Rightarrow> keyCredential result" where
  "CredentialByPrefix d pre =
     (if \<not> texts [pre] then Inl (Plain ''read key credential'')
      else case find (\<lambda>x. key_Prefix (kr_key x) = pre \<and> key_RevokedAt (kr_key x) = None) (tn_keys d) of
        None \<Rightarrow> Inl (Bare Account_ErrNotFound)
      | Some x \<Rightarrow>
          Inr \<lparr>kc_ID = kr_id x, kc_OrganizationID = key_OrganizationID (kr_key x),
               kc_Scopes = key_Scopes (kr_key x), kc_Digest = kr_hash x\<rparr>)"

section \<open>The organization service\<close>

text \<open>
  \<open>internal/service/organization.go\<close>. The identifier, the clock readings and the random token
  are arguments; \<open>seen\<close> is the state of the reads that precede the write.
\<close>

definition orgsvc_Create ::
  "tenants \<Rightarrow> tenants \<Rightarrow> string result \<Rightarrow> time \<Rightarrow> string \<Rightarrow> string \<Rightarrow> tenants \<times> organization result"
where
  "orgsvc_Create seen d newID now ownerUserID name =
     (case rbind newID (\<lambda>i. org_New i ownerUserID name now) of
        Inl e \<Rightarrow> (d, Inl e) | Inr r \<Rightarrow> orgrepo_Create seen d r)"

definition orgsvc_Rename ::
  "tenants \<Rightarrow> tenants \<Rightarrow> string \<Rightarrow> string \<Rightarrow> time \<Rightarrow> tenants \<times> organization result"
where
  "orgsvc_Rename seen d organizationID name now =
     (case orgrepo_GetByID seen organizationID of
        Inl e \<Rightarrow> (d, Inl e)
      | Inr r \<Rightarrow>
          (case org_Rename r name now of
             (r', Some e) \<Rightarrow> (d, Inl e) | (r', None) \<Rightarrow> orgrepo_Rename d r'))"

definition orgsvc_SetMemberRole ::
  "letters \<Rightarrow> tenants \<Rightarrow> tenants \<Rightarrow> string \<Rightarrow> string \<Rightarrow> string \<Rightarrow> time \<Rightarrow> tenants \<times> member result"
where
  "orgsvc_SetMemberRole lt seen d organizationID userID rawRole now =
     (case ParseRole lt rawRole of
        Inl e \<Rightarrow> (d, Inl e) | Inr r \<Rightarrow> orgrepo_SetMemberRole seen d organizationID userID r now)"

definition orgsvc_Invite ::
  "letters \<Rightarrow> tenants \<Rightarrow> string result \<Rightarrow> rand \<Rightarrow> time \<Rightarrow> string \<Rightarrow> string \<Rightarrow> string \<Rightarrow> string
   \<Rightarrow> tenants \<times> (invite \<times> string) result"
where
  "orgsvc_Invite lt d newID random now organizationID invitedBy rawRole rawEmail =
     (case ParseRole lt rawRole of
        Inl e \<Rightarrow> (d, Inl e)
      | Inr r \<Rightarrow>
          let email = NormalizeEmail lt rawEmail in
          if \<not> ValidEmail email then (d, Inl (wrapf Organization_ErrInvalid ''email is invalid''))
          else case rbind newID (\<lambda>i. NewInvite lt i organizationID email r invitedBy now) of
            Inl e \<Rightarrow> (d, Inl e)
          | Inr v \<Rightarrow>
              (case NewInviteToken random of
                 Inl e \<Rightarrow> (d, Inl e)
               | Inr token \<Rightarrow>
                   (case CreateInvite lt d v (InviteDigest token) of
                      (d', Some e) \<Rightarrow> (d', Inl e) | (d', None) \<Rightarrow> (d', Inr (v, token)))))"

definition orgsvc_InviteByToken :: "tenants \<Rightarrow> string \<Rightarrow> invite result" where
  "orgsvc_InviteByToken d token = orgrepo_InviteByToken d (InviteDigest token)"

definition orgsvc_Accept ::
  "letters \<Rightarrow> tenants \<Rightarrow> tenants \<Rightarrow> string \<Rightarrow> string \<Rightarrow> string \<Rightarrow> time \<Rightarrow> time \<Rightarrow> tenants \<times> member result"
where
  "orgsvc_Accept lt seen d token userID email now now' =
     (case orgsvc_InviteByToken seen token of
        Inl e \<Rightarrow> (d, Inl e)
      | Inr v \<Rightarrow>
          (case Redeemable lt v email now of
             Some e \<Rightarrow> (d, Inl e) | None \<Rightarrow> Redeem d v userID now'))"

end
