(* ===== verification/Projects.thy ===== *)
theory Projects
  imports DeploymentRepo Tenants
begin

text \<open>
  Projects and apps: the domain packages \<open>internal/domain/project\<close> and \<open>internal/domain/app\<close>,
  their repositories \<open>internal/repository/database/project.go\<close> and \<open>app.go\<close>, and the services
  over them. The tables the other repositories join through (\<open>apps.project_id\<close>,
  \<open>apps.active_build_id\<close>, \<open>projects.organization_id\<close>) are the columns of these rows: every
  write refreshes the views the earlier theories read.
\<close>

section \<open>Records\<close>

definition project_ValidateIdentifier :: "string \<Rightarrow> string \<Rightarrow> go_err" where
  "project_ValidateIdentifier field v = rethrow Project_ErrInvalid (ids_Validate field v)"

definition app_ValidateIdentifier :: "string \<Rightarrow> string \<Rightarrow> go_err" where
  "app_ValidateIdentifier field v = rethrow App_ErrInvalid (ids_Validate field v)"

text \<open>\<open>NormalizeName\<close>, the same function in both packages but for its errors.\<close>

definition NormalizeName :: "sentinel \<Rightarrow> string \<Rightarrow> string \<Rightarrow> string result" where
  "NormalizeName invalid kind0 raw =
     (let name = trim_space raw in
      check (first_err [
        guard (name = [] \<or> length name > 120 \<or> \<not> valid_utf8 name)
          (wrapf invalid (kind0 @ '' name must contain 1 to 120 bytes'')),
        guard (has_control name) (wrapf invalid (kind0 @ '' name contains a control character''))])
      (Inr name))"

abbreviation project_NormalizeName :: "string \<Rightarrow> string result" where
  "project_NormalizeName \<equiv> NormalizeName Project_ErrInvalid ''project''"

abbreviation app_NormalizeName :: "string \<Rightarrow> string result" where
  "app_NormalizeName \<equiv> NormalizeName App_ErrInvalid ''app''"

record project =
  prj_ID :: string
  prj_OrganizationID :: string
  prj_Name :: string
  prj_CreatedAt :: time
  prj_UpdatedAt :: time

definition project_Validate :: "project \<Rightarrow> go_err" where
  "project_Validate r =
     first_err [
       project_ValidateIdentifier ''project_id'' (prj_ID r),
       guard (prj_OrganizationID r = []) (wrapf Project_ErrInvalid ''project requires an organization''),
       guard (project_NormalizeName (prj_Name r) \<noteq> Inr (prj_Name r))
         (wrapf Project_ErrInvalid ''project name is not normalized''),
       guard (is_zero (prj_CreatedAt r) \<or> is_zero (prj_UpdatedAt r) \<or> prj_UpdatedAt r < prj_CreatedAt r)
         (wrapf Project_ErrInvalid ''project timestamps are invalid'')]"

definition project_New :: "string \<Rightarrow> string \<Rightarrow> string \<Rightarrow> time \<Rightarrow> project result" where
  "project_New i organizationID name now =
     rbind (project_NormalizeName name) (\<lambda>normalized.
       let r = \<lparr>prj_ID = i, prj_OrganizationID = trim_space organizationID, prj_Name = normalized,
                prj_CreatedAt = now, prj_UpdatedAt = now\<rparr>
       in check (project_Validate r) (Inr r))"

definition project_Rename :: "project \<Rightarrow> string \<Rightarrow> time \<Rightarrow> project \<times> go_err" where
  "project_Rename r name now =
     (case project_NormalizeName name of
        Inl e \<Rightarrow> (r, Some e)
      | Inr normalized \<Rightarrow>
          let r' = r\<lparr>prj_Name := normalized, prj_UpdatedAt := max now (prj_CreatedAt r)\<rparr>
          in (r', project_Validate r'))"

record app =
  app_ID :: string
  app_ProjectID :: string
  app_Name :: string
  app_Repository :: string
  app_ProductionRef :: string
  app_ActiveBuildID :: string
  app_CreatedAt :: time
  app_UpdatedAt :: time

text \<open>\<open>^[^/[:space:]]+/[^/[:space:]]+$\<close>; every character it excludes is ASCII.\<close>

definition repository_char :: "char \<Rightarrow> bool" where
  "repository_char c \<longleftrightarrow> c \<noteq> sl \<and> \<not> (9 \<le> byte_val c \<and> byte_val c \<le> 13) \<and> c \<noteq> CHR '' ''"

definition repositoryPattern :: "string \<Rightarrow> bool" where
  "repositoryPattern s \<longleftrightarrow>
     (case split_on sl s of
        [owner, name] \<Rightarrow> owner \<noteq> [] \<and> name \<noteq> [] \<and> list_all repository_char (owner @ name)
      | _ \<Rightarrow> False)"

definition app_Validate :: "app \<Rightarrow> go_err" where
  "app_Validate r =
     first_err [
       app_ValidateIdentifier ''project_id'' (app_ProjectID r),
       app_ValidateIdentifier ''app_id'' (app_ID r),
       guard (app_NormalizeName (app_Name r) \<noteq> Inr (app_Name r))
         (wrapf App_ErrInvalid ''app name is not normalized''),
       guard (is_zero (app_CreatedAt r) \<or> is_zero (app_UpdatedAt r) \<or> app_UpdatedAt r < app_CreatedAt r)
         (wrapf App_ErrInvalid ''app timestamps are invalid''),
       guard (app_Repository r \<noteq> [] \<and> \<not> repositoryPattern (app_Repository r))
         (wrapf App_ErrInvalid ''repository must be owner/name''),
       guard (app_ProductionRef r \<noteq> [] \<and> app_Repository r = [])
         (wrapf App_ErrInvalid ''a production ref needs a repository''),
       (if app_ActiveBuildID r = [] then None
        else app_ValidateIdentifier ''active_build_id'' (app_ActiveBuildID r))]"

definition app_New :: "string \<Rightarrow> string \<Rightarrow> string \<Rightarrow> time \<Rightarrow> app result" where
  "app_New i projectID name now =
     rbind (app_NormalizeName name) (\<lambda>normalized.
       let r = \<lparr>app_ID = i, app_ProjectID = projectID, app_Name = normalized, app_Repository = [],
                app_ProductionRef = [], app_ActiveBuildID = [], app_CreatedAt = now, app_UpdatedAt = now\<rparr>
       in check (app_Validate r) (Inr r))"

definition app_touch :: "app \<Rightarrow> time \<Rightarrow> app" where
  "app_touch r now = r\<lparr>app_UpdatedAt := max now (app_CreatedAt r)\<rparr>"

definition app_Connect :: "app \<Rightarrow> string \<Rightarrow> string \<Rightarrow> time \<Rightarrow> app \<times> go_err" where
  "app_Connect r repository productionRef now =
     (let r' = (if trim_space repository = []
                then app_touch (r\<lparr>app_Repository := [], app_ProductionRef := []\<rparr>) now
                else app_touch (r\<lparr>app_Repository := trim_space repository,
                                  app_ProductionRef := trim_space productionRef\<rparr>) now)
      in (r', app_Validate r'))"

definition TracksRef :: "app \<Rightarrow> string \<Rightarrow> string \<Rightarrow> bool" where
  "TracksRef r ref defaultBranch =
     (if app_Repository r = [] \<or> ref = [] then False
      else let named = trim_space (app_ProductionRef r);
               tracked = (if named = [] \<or> named = ''HEAD'' then trim_space defaultBranch else named)
        in tracked \<noteq> [] \<and> (ref = tracked \<or> ref = ''refs/heads/'' @ tracked \<or> ref = ''refs/tags/'' @ tracked))"

definition app_ActivateBuild :: "app \<Rightarrow> string \<Rightarrow> time \<Rightarrow> app \<times> go_err" where
  "app_ActivateBuild r buildID now =
     (let r' = app_touch (r\<lparr>app_ActiveBuildID := trim_space buildID\<rparr>) now in (r', app_Validate r'))"

definition app_Rename :: "app \<Rightarrow> string \<Rightarrow> time \<Rightarrow> app \<times> go_err" where
  "app_Rename r name now =
     (case app_NormalizeName name of
        Inl e \<Rightarrow> (r, Some e)
      | Inr normalized \<Rightarrow> let r' = app_touch (r\<lparr>app_Name := normalized\<rparr>) now in (r', app_Validate r'))"

definition ValidateNameFilter :: "string \<Rightarrow> go_err" where
  "ValidateNameFilter name =
     (if name = [] then None
      else case app_NormalizeName name of
        Inl e \<Rightarrow> Some e
      | Inr normalized \<Rightarrow>
          guard (normalized \<noteq> name) (wrapf App_ErrInvalid ''app name filter is not normalized''))"

section \<open>The tables\<close>

text \<open>
  The rows are the records, times cut to microseconds; a nullable text column holds the empty
  string for NULL. \<open>pd_orgs\<close> are the keys of the organizations table.
\<close>

record pdb =
  pd_db :: ddb
  pd_orgs :: "string list"
  pd_projects :: "project list"
  pd_apps :: "app list"

text \<open>
  What PostgreSQL answers for its regular expression on repositories, and its \<open>lower\<close>.
\<close>

record appsql =
  aq_shape :: "string \<Rightarrow> bool"
  aq_lower :: "string \<Rightarrow> string"

definition app_view :: "app list \<Rightarrow> string \<Rightarrow> string option" where
  "app_view as i = map_option app_ProjectID (find (\<lambda>a. app_ID a = i) as)"

definition project_view :: "project list \<Rightarrow> string \<Rightarrow> string option" where
  "project_view ps i = map_option prj_OrganizationID (find (\<lambda>p. prj_ID p = i) ps)"

definition active_view :: "app list \<Rightarrow> string \<Rightarrow> string option" where
  "active_view as i =
     (case find (\<lambda>a. app_ID a = i) as of None \<Rightarrow> None | Some a \<Rightarrow> nullableString (app_ActiveBuildID a))"

definition with_tables :: "project list \<Rightarrow> app list \<Rightarrow> pdb \<Rightarrow> pdb" where
  "with_tables ps as d =
     d\<lparr>pd_projects := ps, pd_apps := as,
       pd_db := (pd_db d)\<lparr>db_app_project := app_view as, db_project_org := project_view ps,
                          dd_active_build := active_view as\<rparr>\<rparr>"

definition in_org :: "pdb \<Rightarrow> string \<Rightarrow> app \<Rightarrow> bool" where
  "in_org d org a \<longleftrightarrow> project_view (pd_projects d) (app_ProjectID a) = Some org"

section \<open>The project repository\<close>

definition projrepo_GetByID :: "pdb \<Rightarrow> string \<Rightarrow> string \<Rightarrow> project result" where
  "projrepo_GetByID d organizationID projectID =
     check (project_ValidateIdentifier ''project_id'' projectID)
       (if \<not> texts [organizationID] then Inl (Plain ''read project'')
        else case find (\<lambda>p. prj_ID p = projectID \<and> prj_OrganizationID p = organizationID) (pd_projects d) of
          None \<Rightarrow> Inl (wrapf Project_ErrNotFound projectID)
        | Some p \<Rightarrow>
            (case project_Validate p of
               Some e \<Rightarrow> Inl (annotate ''invalid persisted project'' e) | None \<Rightarrow> Inr p))"

definition stored_project :: "project \<Rightarrow> project" where
  "stored_project r = r\<lparr>prj_CreatedAt := pg_time (prj_CreatedAt r), prj_UpdatedAt := pg_time (prj_UpdatedAt r)\<rparr>"

definition projrepo_Create :: "pdb \<Rightarrow> project \<Rightarrow> pdb \<times> project result" where
  "projrepo_Create d r =
     (case project_Validate r of
        Some e \<Rightarrow> (d, Inl e)
      | None \<Rightarrow>
          if \<not> texts [prj_ID r, prj_OrganizationID r, prj_Name r] \<or> \<not> name_check 120 (prj_Name r)
             \<or> prj_ID r \<in> prj_ID ` set (pd_projects d)
             \<or> (prj_OrganizationID r, prj_Name r) \<in> (\<lambda>p. (prj_OrganizationID p, prj_Name p)) ` set (pd_projects d)
             \<or> prj_OrganizationID r \<notin> set (pd_orgs d)
          then (d, Inl (wrapf Project_ErrConflict ''create project''))
          else (with_tables (pd_projects d @ [stored_project r]) (pd_apps d) d, Inr r))"

text \<open>
  \<open>Delete\<close> and its cascades: the apps of the projects, the deployments of the apps, the
  builds of the apps and deployments, the executions of the apps and builds; a rerun whose
  original goes keeps its row and loses the reference.
\<close>

definition cascade_apps :: "string set \<Rightarrow> ddb \<Rightarrow> ddb" where
  "cascade_apps gone d =
     (let deps = dr_id ` {x \<in> set (dd_deployments d). dr_app_id x \<in> gone};
          blds = bld_ID ` {b \<in> set (db_builds d). bld_AppID b \<in> gone \<or> bld_DeploymentID b \<in> deps};
          lost = (\<lambda>x. xr_app_id x \<in> gone \<or> xr_build_id x \<in> blds);
          exes = xr_id ` {x \<in> set (db_executions d). lost x}
      in d\<lparr>dd_deployments := filter (\<lambda>x. dr_app_id x \<notin> gone) (dd_deployments d),
           db_builds := filter (\<lambda>b. \<not> (bld_AppID b \<in> gone \<or> bld_DeploymentID b \<in> deps)) (db_builds d),
           db_executions := map (\<lambda>x. case xr_rerun_of x of
                 None \<Rightarrow> x
               | Some i \<Rightarrow> if i \<in> exes then x\<lparr>xr_rerun_of := None\<rparr> else x)
             (filter (\<lambda>x. \<not> lost x) (db_executions d))\<rparr>)"

definition projrepo_Delete :: "pdb \<Rightarrow> string \<Rightarrow> string \<Rightarrow> pdb \<times> go_err" where
  "projrepo_Delete d organizationID projectID =
     (case project_ValidateIdentifier ''project_id'' projectID of
        Some e \<Rightarrow> (d, Some e)
      | None \<Rightarrow>
          if \<not> texts [organizationID] then (d, Some (Plain ''delete project''))
          else let hit = (\<lambda>p. prj_ID p = projectID \<and> prj_OrganizationID p = organizationID) in
            if \<not> list_ex hit (pd_projects d) then (d, Some (wrapf Project_ErrNotFound projectID))
            else (with_tables (filter (\<lambda>p. \<not> hit p) (pd_projects d))
                    (filter (\<lambda>a. app_ProjectID a \<noteq> projectID) (pd_apps d))
                    (d\<lparr>pd_db := cascade_apps (app_ID ` {a \<in> set (pd_apps d). app_ProjectID a = projectID})
                                 (pd_db d)\<rparr>), None))"

definition projrepo_List :: "pgsql \<Rightarrow> pdb \<Rightarrow> string \<Rightarrow> int \<Rightarrow> project list result" where
  "projrepo_List pg d organizationID limit =
     (if \<not> texts [organizationID] then Inl (Plain ''list projects'')
      else Inr (take (unat (postgresLimit limit))
             (rev (order_by (older pg prj_CreatedAt prj_ID)
                (filter (\<lambda>p. prj_OrganizationID p = organizationID) (pd_projects d))))))"

definition projrepo_Update :: "pdb \<Rightarrow> project \<Rightarrow> pdb \<times> project result" where
  "projrepo_Update d r =
     (let hit = (\<lambda>p. prj_ID p = prj_ID r \<and> prj_CreatedAt p = pg_time (prj_CreatedAt r)
                    \<and> prj_OrganizationID p = prj_OrganizationID r);
          new = (\<lambda>p. p\<lparr>prj_Name := prj_Name r, prj_UpdatedAt := pg_time (prj_UpdatedAt r)\<rparr>) in
      case project_Validate r of
        Some e \<Rightarrow> (d, Inl e)
      | None \<Rightarrow>
          if \<not> texts [prj_ID r, prj_Name r, prj_OrganizationID r]
          then (d, Inl (wrapf Project_ErrConflict ''update project''))
          else case find hit (pd_projects d) of
            None \<Rightarrow> (d, Inl (wrapf Project_ErrNotFound (prj_ID r)))
          | Some p \<Rightarrow>
              if \<not> name_check 120 (prj_Name r)
                 \<or> (\<exists>q \<in> set (pd_projects d). \<not> hit q \<and> prj_OrganizationID q = prj_OrganizationID r
                       \<and> prj_Name q = prj_Name r)
              then (d, Inl (wrapf Project_ErrConflict ''update project''))
              else (with_tables (map (\<lambda>q. if hit q then new q else q) (pd_projects d)) (pd_apps d) d,
                    Inr (new p)))"

section \<open>The app repository\<close>

definition scanApp :: "app \<Rightarrow> app result" where
  "scanApp r = (case app_Validate r of Some e \<Rightarrow> Inl (annotate ''invalid persisted app'' e) | None \<Rightarrow> Inr r)"

fun collect_apps :: "app list \<Rightarrow> app list result" where
  "collect_apps [] = Inr []"
| "collect_apps (a # as) =
     rbind (scanApp a) (\<lambda>r. rbind (collect_apps as) (\<lambda>rs. Inr (r # rs)))"

definition app_checks :: "appsql \<Rightarrow> app \<Rightarrow> bool" where
  "app_checks aq r \<longleftrightarrow>
     name_check 120 (app_Name r) \<and> (app_Repository r = [] \<or> aq_shape aq (app_Repository r))
     \<and> (app_ProductionRef r = [] \<or> app_Repository r \<noteq> [])"

definition stored_app :: "app \<Rightarrow> app" where
  "stored_app r = r\<lparr>app_CreatedAt := pg_time (app_CreatedAt r), app_UpdatedAt := pg_time (app_UpdatedAt r)\<rparr>"

definition apprepo_Create :: "appsql \<Rightarrow> pdb \<Rightarrow> app \<Rightarrow> pdb \<times> app result" where
  "apprepo_Create aq d r =
     (case app_Validate r of
        Some e \<Rightarrow> (d, Inl e)
      | None \<Rightarrow>
          if \<not> texts [app_ID r, app_ProjectID r, app_Name r, app_Repository r, app_ProductionRef r]
             \<or> \<not> app_checks aq r
             \<or> app_ID r \<in> app_ID ` set (pd_apps d)
             \<or> (app_ProjectID r, app_Name r) \<in> (\<lambda>a. (app_ProjectID a, app_Name a)) ` set (pd_apps d)
             \<or> app_ProjectID r \<notin> prj_ID ` set (pd_projects d)
          then (d, Inl (wrapf App_ErrConflict ''create app''))
          else let row = (stored_app r)\<lparr>app_ActiveBuildID := []\<rparr> in
            (with_tables (pd_projects d) (pd_apps d @ [row]) d,
             case scanApp row of Inl e \<Rightarrow> Inl (wrapf App_ErrConflict ''create app'') | Inr a \<Rightarrow> Inr a))"

definition apprepo_GetByID :: "pdb \<Rightarrow> string \<Rightarrow> string \<Rightarrow> app result" where
  "apprepo_GetByID d organizationID appID =
     check (app_ValidateIdentifier ''app_id'' appID)
       (if \<not> texts [organizationID] then Inl (Plain ''read app'')
        else case find (\<lambda>a. app_ID a = appID \<and> in_org d organizationID a) (pd_apps d) of
          None \<Rightarrow> Inl (wrapf App_ErrNotFound appID)
        | Some a \<Rightarrow> (case scanApp a of Inl e \<Rightarrow> Inl (annotate ''read app'' e) | Inr r \<Rightarrow> Inr r))"

definition apprepo_List :: "pgsql \<Rightarrow> pdb \<Rightarrow> string \<Rightarrow> string \<Rightarrow> string \<Rightarrow> int \<Rightarrow> app list result" where
  "apprepo_List pg d organizationID projectID name limit =
     check (if projectID = [] then None else app_ValidateIdentifier ''project_id'' projectID)
       (check (ValidateNameFilter name)
         (if \<not> texts [organizationID] then Inl (Plain ''list apps'')
          else case collect_apps (take (unat (postgresLimit limit))
                 (rev (order_by (older pg app_CreatedAt app_ID)
                    (filter (\<lambda>a. (projectID = [] \<or> app_ProjectID a = projectID) \<and> (name = [] \<or> app_Name a = name)
                               \<and> in_org d organizationID a) (pd_apps d))))) of
            Inl e \<Rightarrow> Inl (annotate ''list apps'' e) | Inr rs \<Rightarrow> Inr rs))"

definition OrganizationOf :: "pdb \<Rightarrow> string \<Rightarrow> string result" where
  "OrganizationOf d appID =
     check (app_ValidateIdentifier ''app_id'' appID)
       (case find (\<lambda>a. app_ID a = appID \<and> project_view (pd_projects d) (app_ProjectID a) \<noteq> None) (pd_apps d) of
          None \<Rightarrow> Inl (wrapf App_ErrNotFound appID)
        | Some a \<Rightarrow> Inr (the (project_view (pd_projects d) (app_ProjectID a))))"

definition ConnectedTo :: "pgsql \<Rightarrow> appsql \<Rightarrow> pdb \<Rightarrow> string \<Rightarrow> string \<Rightarrow> app list result" where
  "ConnectedTo pg aq d organizationID name =
     (if \<not> texts [name, organizationID] then Inl (Plain ''list connected apps'')
      else case collect_apps (rev (order_by (older pg app_CreatedAt app_ID)
               (filter (\<lambda>a. app_Repository a \<noteq> [] \<and> aq_lower aq (app_Repository a) = aq_lower aq name
                          \<and> in_org d organizationID a) (pd_apps d)))) of
        Inl e \<Rightarrow> Inl (annotate ''list connected apps'' e) | Inr rs \<Rightarrow> Inr rs)"

definition apprepo_Update :: "appsql \<Rightarrow> pdb \<Rightarrow> string \<Rightarrow> app \<Rightarrow> pdb \<times> app result" where
  "apprepo_Update aq d organizationID r =
     (let hit = (\<lambda>a. app_ID a = app_ID r \<and> app_CreatedAt a = pg_time (app_CreatedAt r)
                    \<and> in_org d organizationID a);
          new = (\<lambda>a. a\<lparr>app_Name := app_Name r, app_UpdatedAt := pg_time (app_UpdatedAt r),
                       app_Repository := app_Repository r, app_ProductionRef := app_ProductionRef r,
                       app_ActiveBuildID := app_ActiveBuildID r\<rparr>) in
      case app_Validate r of
        Some e \<Rightarrow> (d, Inl e)
      | None \<Rightarrow>
          if \<not> texts [app_ID r, app_Name r, organizationID, app_Repository r, app_ProductionRef r, app_ActiveBuildID r]
          then (d, Inl (wrapf App_ErrConflict ''update app''))
          else case find hit (pd_apps d) of
            None \<Rightarrow> (d, Inl (wrapf App_ErrNotFound (app_ID r)))
          | Some a \<Rightarrow>
              if \<not> app_checks aq r
                 \<or> (\<exists>b \<in> set (pd_apps d). \<not> hit b \<and> app_ProjectID b = app_ProjectID a \<and> app_Name b = app_Name r)
              then (d, Inl (wrapf App_ErrConflict ''update app''))
              else (with_tables (pd_projects d) (map (\<lambda>b. if hit b then new b else b) (pd_apps d)) d,
                    case scanApp (new a) of Inl e \<Rightarrow> Inl (wrapf App_ErrConflict ''update app'') | Inr u \<Rightarrow> Inr u))"

definition apprepo_Delete :: "pdb \<Rightarrow> string \<Rightarrow> string \<Rightarrow> pdb \<times> go_err" where
  "apprepo_Delete d organizationID appID =
     (case app_ValidateIdentifier ''app_id'' appID of
        Some e \<Rightarrow> (d, Some e)
      | None \<Rightarrow>
          if \<not> texts [organizationID] then (d, Some (Plain ''delete app''))
          else let hit = (\<lambda>a. app_ID a = appID \<and> in_org d organizationID a) in
            if \<not> list_ex hit (pd_apps d) then (d, Some (wrapf App_ErrNotFound appID))
            else (with_tables (pd_projects d) (filter (\<lambda>a. \<not> hit a) (pd_apps d))
                    (d\<lparr>pd_db := cascade_apps {appID} (pd_db d)\<rparr>), None))"

section \<open>The services\<close>

text \<open>
  \<open>internal/service/project.go\<close> and \<open>app.go\<close>. The minted identifier and the clock are
  arguments; \<open>seen\<close> is the state an operation reads before it writes to \<open>d\<close>.
\<close>

definition maximumPageSize :: int where
  "maximumPageSize = 200"

definition validateLimit :: "int \<Rightarrow> go_err" where
  "validateLimit limit =
     guard (limit < 1 \<or> limit > maximumPageSize)
       (wrapf Deployment_ErrInvalid ''limit must be between 1 and 200'')"

definition projsvc_Create :: "pdb \<Rightarrow> string result \<Rightarrow> time \<Rightarrow> string \<Rightarrow> string \<Rightarrow> pdb \<times> project result" where
  "projsvc_Create d newID now organizationID name =
     (case rbind newID (\<lambda>i. project_New i organizationID name now) of
        Inl e \<Rightarrow> (d, Inl e) | Inr r \<Rightarrow> projrepo_Create d r)"

definition projsvc_List :: "pgsql \<Rightarrow> pdb \<Rightarrow> string \<Rightarrow> int \<Rightarrow> project list result" where
  "projsvc_List pg d organizationID limit = check (validateLimit limit) (projrepo_List pg d organizationID limit)"

definition projsvc_Update ::
  "pdb \<Rightarrow> pdb \<Rightarrow> time \<Rightarrow> string \<Rightarrow> string \<Rightarrow> string option \<Rightarrow> pdb \<times> project result"
where
  "projsvc_Update seen d now organizationID projectID name =
     (case name of
        None \<Rightarrow> (d, Inl (wrapf Project_ErrInvalid ''project update is empty''))
      | Some n \<Rightarrow>
          (case projrepo_GetByID seen organizationID projectID of
             Inl e \<Rightarrow> (d, Inl e)
           | Inr r \<Rightarrow>
               (case project_Rename r n now of
                  (r', Some e) \<Rightarrow> (d, Inl e) | (r', None) \<Rightarrow> projrepo_Update d r')))"

record app_request =
  aw_ProjectID :: string
  aw_Name :: string
  aw_Repository :: string
  aw_ProductionRef :: string

definition appsvc_Create ::
  "appsql \<Rightarrow> pdb \<Rightarrow> pdb \<Rightarrow> string result \<Rightarrow> time \<Rightarrow> string \<Rightarrow> app_request \<Rightarrow> pdb \<times> app result"
where
  "appsvc_Create aq seen d newID now organizationID request =
     (case check (app_ValidateIdentifier ''project_id'' (aw_ProjectID request))
             (rbind (projrepo_GetByID seen organizationID (aw_ProjectID request)) (\<lambda>p.
                rbind newID (\<lambda>i. app_New i (aw_ProjectID request) (aw_Name request) now))) of
        Inl e \<Rightarrow> (d, Inl e)
      | Inr r \<Rightarrow>
          (case app_Connect r (aw_Repository request) (aw_ProductionRef request) now of
             (r', Some e) \<Rightarrow> (d, Inl e) | (r', None) \<Rightarrow> apprepo_Create aq d r'))"

definition appsvc_List :: "pgsql \<Rightarrow> pdb \<Rightarrow> string \<Rightarrow> string \<Rightarrow> string \<Rightarrow> int \<Rightarrow> app list result" where
  "appsvc_List pg d organizationID projectID name limit =
     check (validateLimit limit)
       (check (ValidateNameFilter name) (apprepo_List pg d organizationID projectID name limit))"

definition appsvc_Update ::
  "appsql \<Rightarrow> pdb \<Rightarrow> pdb \<Rightarrow> time \<Rightarrow> string \<Rightarrow> string \<Rightarrow> string option \<Rightarrow> pdb \<times> app result"
where
  "appsvc_Update aq seen d now organizationID appID name =
     (case name of
        None \<Rightarrow> (d, Inl (wrapf App_ErrInvalid ''app update is empty''))
      | Some n \<Rightarrow>
          (case apprepo_GetByID seen organizationID appID of
             Inl e \<Rightarrow> (d, Inl e)
           | Inr r \<Rightarrow>
               (case app_Rename r n now of
                  (r', Some e) \<Rightarrow> (d, Inl e) | (r', None) \<Rightarrow> apprepo_Update aq d organizationID r')))"

definition appsvc_ActivateBuild ::
  "appsql \<Rightarrow> pdb \<Rightarrow> pdb \<Rightarrow> time \<Rightarrow> string \<Rightarrow> string \<Rightarrow> string \<Rightarrow> pdb \<times> app result"
where
  "appsvc_ActivateBuild aq seen d now organizationID appID rawID =
     (case apprepo_GetByID seen organizationID appID of
        Inl e \<Rightarrow> (d, Inl e)
      | Inr r \<Rightarrow>
          let buildID = trim_space rawID;
              known = (if buildID = [] then None
                       else case buildrepo_Get (pd_db seen) organizationID buildID of
                         Inl e \<Rightarrow> Some e
                       | Inr produced \<Rightarrow>
                           guard (bld_AppID produced \<noteq> appID)
                             (wrapf Build_ErrNotFound (''build '' @ buildID @ '' belongs to another app'')))
          in case known of
               Some e \<Rightarrow> (d, Inl e)
             | None \<Rightarrow>
                 (case app_ActivateBuild r buildID now of
                    (r', Some e) \<Rightarrow> (d, Inl e) | (r', None) \<Rightarrow> apprepo_Update aq d organizationID r'))"

end
