(* ===== verification/Profiles.thy ===== *)
theory Profiles
  imports Identity Projects "HOL-Library.AList"
begin

text \<open>
  Browser profiles: internal/domain/browser/profile.go, the repository in
  internal/repository/database/browserprofile.go and internal/service/browser.go. The row a
  statement writes is the record as JSON and the column types keep it.
\<close>

section \<open>Records\<close>

text \<open>A \<open>float64\<close>: mantissa and exponent, or a value JSON has no notation for.\<close>

datatype f64 = Finite int int | NotFinite

record cookie =
  ck_Name :: string
  ck_Value :: string
  ck_Domain :: string
  ck_Path :: string
  ck_Expires :: "f64 option"
  ck_Secure :: bool
  ck_HTTPOnly :: bool
  ck_SameSite :: string

text \<open>\<open>Storage\<close>, a map of maps listed in the order \<open>json.Marshal\<close> emits it; a nil map is \<open>None\<close>.\<close>

type_synonym storage = "(string \<times> (string \<times> string) list) list"

record profile =
  bp_ID :: string
  bp_OrganizationID :: string
  bp_Name :: string
  bp_Identity :: identity
  bp_Cookies :: "cookie list option"
  bp_LocalStorage :: "storage option"
  bp_SessionStorage :: "storage option"
  bp_CreatedAt :: time
  bp_UpdatedAt :: time

definition browser_ValidateIdentifier :: "string \<Rightarrow> string \<Rightarrow> go_err" where
  "browser_ValidateIdentifier field v = rethrow Browser_ErrInvalid (ids_Validate field v)"

definition profile_normalizeName :: "string \<Rightarrow> string result" where
  "profile_normalizeName raw = NormalizeName Browser_ErrInvalid ''profile'' raw"

definition listed :: "'a list option \<Rightarrow> 'a list" where
  "listed xs = (case xs of None \<Rightarrow> [] | Some ys \<Rightarrow> ys)"

definition profile_Validate :: "profile \<Rightarrow> go_err" where
  "profile_Validate r =
     first_err [
       browser_ValidateIdentifier ''organization_id'' (bp_OrganizationID r),
       browser_ValidateIdentifier ''browser_profile_id'' (bp_ID r),
       guard (profile_normalizeName (bp_Name r) \<noteq> Inr (bp_Name r))
         (wrapf Browser_ErrInvalid ''profile name is not normalized''),
       identity_Validate (bp_Identity r),
       guard (list_ex (\<lambda>c. ck_Name c = [] \<or> ck_Domain c = []) (listed (bp_Cookies r)))
         (wrapf Browser_ErrInvalid ''a cookie needs a name and a domain''),
       guard (list_ex (\<lambda>x. fst x = []) (listed (bp_LocalStorage r)))
         (wrapf Browser_ErrInvalid ''local storage origin is empty''),
       guard (list_ex (\<lambda>x. fst x = []) (listed (bp_SessionStorage r)))
         (wrapf Browser_ErrInvalid ''session storage origin is empty''),
       guard (is_zero (bp_CreatedAt r) \<or> is_zero (bp_UpdatedAt r) \<or> bp_UpdatedAt r < bp_CreatedAt r)
         (wrapf Browser_ErrInvalid ''profile timestamps are invalid'')]"

definition profile_normalize :: "profile \<Rightarrow> profile" where
  "profile_normalize r =
     r\<lparr>bp_Cookies := Some (listed (bp_Cookies r)), bp_LocalStorage := Some (listed (bp_LocalStorage r)),
       bp_SessionStorage := Some (listed (bp_SessionStorage r))\<rparr>"

definition notBefore :: "time \<Rightarrow> time \<Rightarrow> time" where
  "notBefore v floor = (if v < floor then floor else v)"

definition profile_New ::
  "catalog \<Rightarrow> string \<Rightarrow> string \<Rightarrow> string \<Rightarrow> identity option \<Rightarrow> time \<Rightarrow> profile result"
where
  "profile_New cat i organizationID name chosen now =
     rbind (profile_normalizeName name) (\<lambda>normalized.
       rbind (case chosen of None \<Rightarrow> DefaultIdentity cat i [] | Some x \<Rightarrow> Inr x) (\<lambda>who.
         let r = profile_normalize \<lparr>bp_ID = i, bp_OrganizationID = organizationID, bp_Name = normalized,
                   bp_Identity = who, bp_Cookies = None, bp_LocalStorage = None, bp_SessionStorage = None,
                   bp_CreatedAt = now, bp_UpdatedAt = now\<rparr>
         in check (profile_Validate r) (Inr r)))"

text \<open>The operations that change a record return it with the error of validating it.\<close>

definition profile_Rename :: "profile \<Rightarrow> string \<Rightarrow> time \<Rightarrow> profile \<times> go_err" where
  "profile_Rename r name now =
     (case profile_normalizeName name of
        Inl e \<Rightarrow> (r, Some e)
      | Inr normalized \<Rightarrow>
          (let r' = r\<lparr>bp_Name := normalized, bp_UpdatedAt := notBefore now (bp_CreatedAt r)\<rparr>
           in (r', profile_Validate r')))"

definition profile_SetIdentity :: "profile \<Rightarrow> identity \<Rightarrow> time \<Rightarrow> profile \<times> go_err" where
  "profile_SetIdentity r who now =
     (let r' = r\<lparr>bp_Identity := who, bp_UpdatedAt := notBefore now (bp_CreatedAt r)\<rparr> in (r', profile_Validate r'))"

definition profile_Capture ::
  "profile \<Rightarrow> cookie list option \<Rightarrow> storage option \<Rightarrow> storage option \<Rightarrow> time \<Rightarrow> profile \<times> go_err"
where
  "profile_Capture r jar loc ses now =
     (let r' = profile_normalize
        (r\<lparr>bp_Cookies := jar, bp_LocalStorage := loc, bp_SessionStorage := ses,
           bp_UpdatedAt := notBefore now (bp_CreatedAt r)\<rparr>)
      in (r', profile_Validate r'))"

definition profile_CaptureCookies :: "profile \<Rightarrow> cookie list option \<Rightarrow> time \<Rightarrow> profile \<times> go_err" where
  "profile_CaptureCookies r jar now =
     (let r' = profile_normalize (r\<lparr>bp_Cookies := jar, bp_UpdatedAt := notBefore now (bp_CreatedAt r)\<rparr>)
      in (r', profile_Validate r'))"

section \<open>The documents of a profile\<close>

definition map_identity :: "(string \<Rightarrow> string) \<Rightarrow> identity \<Rightarrow> identity" where
  "map_identity f i =
     i\<lparr>id_DeviceModel := f (id_DeviceModel i), id_OS := f (id_OS i), id_OSVersion := f (id_OSVersion i),
       id_Platform := (let p = id_Platform i in
         \<lparr>pf_Bitness = f (pf_Bitness p), pf_Architecture = f (pf_Architecture p),
          pf_NavigatorPlatform = f (pf_NavigatorPlatform p), pf_Version = f (pf_Version p)\<rparr>),
       id_Browser := f (id_Browser i),
       id_GPU := (let g = id_GPU i in
         \<lparr>gp_Vendor = f (gp_Vendor g), gp_WebGLRenderer = f (gp_WebGLRenderer g), gp_WebGLVendor = f (gp_WebGLVendor g)\<rparr>),
       id_Geo := f (id_Geo i), id_Language := map f (id_Language i), id_Proxy := f (id_Proxy i),
       id_Timezone := f (id_Timezone i)\<rparr>"

definition identity_texts :: "identity \<Rightarrow> string list" where
  "identity_texts i =
     [id_DeviceModel i, id_OS i, id_OSVersion i, pf_Bitness (id_Platform i), pf_Architecture (id_Platform i),
      pf_NavigatorPlatform (id_Platform i), pf_Version (id_Platform i), id_Browser i, gp_Vendor (id_GPU i),
      gp_WebGLRenderer (id_GPU i), gp_WebGLVendor (id_GPU i), id_Geo i, id_Proxy i, id_Timezone i] @ id_Language i"

definition map_cookie :: "(string \<Rightarrow> string) \<Rightarrow> cookie \<Rightarrow> cookie" where
  "map_cookie f c =
     c\<lparr>ck_Name := f (ck_Name c), ck_Value := f (ck_Value c), ck_Domain := f (ck_Domain c), ck_Path := f (ck_Path c),
       ck_SameSite := f (ck_SameSite c)\<rparr>"

definition cookie_texts :: "cookie \<Rightarrow> string list" where
  "cookie_texts c = [ck_Name c, ck_Value c, ck_Domain c, ck_Path c, ck_SameSite c]"

text \<open>A jsonb object keeps the last of the values given for a key.\<close>

definition last_wins :: "('k \<times> 'v) list \<Rightarrow> ('k \<times> 'v) list" where
  "last_wins kvs = foldl (\<lambda>acc kv. AList.update (fst kv) (snd kv) acc) [] kvs"

definition map_storage :: "(string \<Rightarrow> string) \<Rightarrow> storage \<Rightarrow> storage" where
  "map_storage f st = last_wins (map (\<lambda>(o1, kvs). (f o1, last_wins (map (\<lambda>(k, v). (f k, f v)) kvs))) st)"

definition storage_texts :: "storage \<Rightarrow> string list" where
  "storage_texts st = map fst st @ concat (map (\<lambda>(o1, kvs). map fst kvs @ map snd kvs) st)"

definition document_texts :: "profile \<Rightarrow> string list" where
  "document_texts r =
     identity_texts (bp_Identity r) @ concat (map cookie_texts (listed (bp_Cookies r)))
     @ storage_texts (listed (bp_LocalStorage r)) @ storage_texts (listed (bp_SessionStorage r))"

text \<open>\<open>json.Marshal\<close> refuses a number that is not finite; jsonb refuses the escape of a NUL.\<close>

definition browserProfileDocuments :: "profile \<Rightarrow> go_err" where
  "browserProfileDocuments r =
     guard (list_ex (\<lambda>c. ck_Expires c = Some NotFinite) (listed (bp_Cookies r)))
       (Plain ''encode browser profile: json: unsupported value'')"

definition jsonb_ok :: "profile \<Rightarrow> bool" where
  "jsonb_ok r \<longleftrightarrow> list_all (\<lambda>s. CHR 0x00 \<notin> set s) (document_texts r)"

definition stored_profile :: "profile \<Rightarrow> profile" where
  "stored_profile r =
     r\<lparr>bp_Identity := map_identity sanitize (bp_Identity r),
       bp_Cookies := Some (map (map_cookie sanitize) (listed (bp_Cookies r))),
       bp_LocalStorage := Some (map_storage sanitize (listed (bp_LocalStorage r))),
       bp_SessionStorage := Some (map_storage sanitize (listed (bp_SessionStorage r))),
       bp_CreatedAt := postgresTime (bp_CreatedAt r), bp_UpdatedAt := postgresTime (bp_UpdatedAt r)\<rparr>"

section \<open>The repository\<close>

record bdb =
  bd_orgs :: "string list"
  bd_profiles :: "profile list"

definition scanBrowserProfile :: "profile \<Rightarrow> profile result" where
  "scanBrowserProfile r = check (map_option (annotate ''invalid persisted browser profile'') (profile_Validate r)) (Inr r)"

definition conflicted :: "string \<Rightarrow> 'a result \<Rightarrow> 'a result" where
  "conflicted what res =
     (case res of Inl e \<Rightarrow> Inl (wrapf Browser_ErrConflict (what @ '': '' @ error_text e)) | Inr x \<Rightarrow> Inr x)"

definition bprepo_Create :: "bdb \<Rightarrow> profile \<Rightarrow> bdb \<times> profile result" where
  "bprepo_Create d r =
     (case first_err [profile_Validate r, browserProfileDocuments r] of
        Some e \<Rightarrow> (d, Inl e)
      | None \<Rightarrow>
          if \<not> jsonb_ok r \<or> bp_OrganizationID r \<notin> set (bd_orgs d)
             \<or> list_ex (\<lambda>p. bp_ID p = bp_ID r \<or> bp_OrganizationID p = bp_OrganizationID r \<and> bp_Name p = bp_Name r) (bd_profiles d)
          then (d, conflicted ''create browser profile'' (Inl (Plain ''insert refused'')))
          else (d\<lparr>bd_profiles := bd_profiles d @ [stored_profile r]\<rparr>,
                conflicted ''create browser profile'' (scanBrowserProfile (stored_profile r))))"

definition bprepo_GetByID :: "bdb \<Rightarrow> string \<Rightarrow> string \<Rightarrow> profile result" where
  "bprepo_GetByID d organizationID profileID =
     check (browser_ValidateIdentifier ''browser_profile_id'' profileID)
       (if \<not> texts [organizationID] then Inl (Plain ''read browser profile'')
        else case find (\<lambda>p. bp_ID p = profileID \<and> bp_OrganizationID p = organizationID) (bd_profiles d) of
          None \<Rightarrow> Inl (wrapf Browser_ErrNotFound profileID)
        | Some p \<Rightarrow> (case scanBrowserProfile p of
            Inl e \<Rightarrow> Inl (annotate ''read browser profile'' e) | Inr r \<Rightarrow> Inr r))"

fun collect_profiles :: "profile list \<Rightarrow> profile list result" where
  "collect_profiles [] = Inr []"
| "collect_profiles (p # ps) = rbind (scanBrowserProfile p) (\<lambda>r. rbind (collect_profiles ps) (\<lambda>rs. Inr (r # rs)))"

definition bprepo_List :: "pgsql \<Rightarrow> bdb \<Rightarrow> string \<Rightarrow> int \<Rightarrow> profile list result" where
  "bprepo_List pg d organizationID limit =
     (if \<not> texts [organizationID] then Inl (Plain ''list browser profiles'')
      else case collect_profiles (take (unat (postgresLimit limit))
             (rev (order_by (older pg bp_CreatedAt bp_ID)
                (filter (\<lambda>p. bp_OrganizationID p = organizationID) (bd_profiles d))))) of
        Inl e \<Rightarrow> Inl (annotate ''list browser profiles'' e) | Inr rs \<Rightarrow> Inr rs)"

definition bprepo_Update :: "bdb \<Rightarrow> profile \<Rightarrow> bdb \<times> profile result" where
  "bprepo_Update d r =
     (case first_err [profile_Validate r, browserProfileDocuments r] of
        Some e \<Rightarrow> (d, Inl e)
      | None \<Rightarrow>
          (let mine = (\<lambda>p. bp_ID p = bp_ID r \<and> bp_OrganizationID p = bp_OrganizationID r);
               new = (\<lambda>p. (stored_profile r)\<lparr>bp_CreatedAt := bp_CreatedAt p\<rparr>) in
           if \<not> jsonb_ok r then (d, conflicted ''update browser profile'' (Inl (Plain ''update refused'')))
           else case find mine (bd_profiles d) of
             None \<Rightarrow> (d, Inl (wrapf Browser_ErrNotFound (bp_ID r)))
           | Some p \<Rightarrow>
               if list_ex (\<lambda>q. bp_ID q \<noteq> bp_ID r \<and> bp_OrganizationID q = bp_OrganizationID r \<and> bp_Name q = bp_Name r)
                    (bd_profiles d)
               then (d, conflicted ''update browser profile'' (Inl (Plain ''update refused'')))
               else (d\<lparr>bd_profiles := map (\<lambda>q. if mine q then new q else q) (bd_profiles d)\<rparr>,
                     conflicted ''update browser profile'' (scanBrowserProfile (new p)))))"

definition bprepo_Delete :: "bdb \<Rightarrow> string \<Rightarrow> string \<Rightarrow> bdb \<times> go_err" where
  "bprepo_Delete d organizationID profileID =
     (case browser_ValidateIdentifier ''browser_profile_id'' profileID of
        Some e \<Rightarrow> (d, Some e)
      | None \<Rightarrow>
          (let mine = (\<lambda>p. bp_ID p = profileID \<and> bp_OrganizationID p = organizationID) in
           if \<not> texts [organizationID] then (d, Some (Plain ''delete browser profile''))
           else if \<not> list_ex mine (bd_profiles d) then (d, Some (wrapf Browser_ErrNotFound profileID))
           else (d\<lparr>bd_profiles := filter (\<lambda>p. \<not> mine p) (bd_profiles d)\<rparr>, None)))"

section \<open>The service\<close>

text \<open>
  Every change reads a profile and writes it back in a second statement, so the state the
  change is computed from, \<open>seen\<close>, need not be the one it is written to.
\<close>

definition bpsvc_Create ::
  "catalog \<Rightarrow> bdb \<Rightarrow> string result \<Rightarrow> time \<Rightarrow> string \<Rightarrow> string \<Rightarrow> identity option \<Rightarrow> bdb \<times> profile result"
where
  "bpsvc_Create cat d newID now organizationID name chosen =
     (case rbind newID (\<lambda>i. profile_New cat i organizationID name chosen now) of
        Inl e \<Rightarrow> (d, Inl e) | Inr r \<Rightarrow> bprepo_Create d r)"

definition bpsvc_change ::
  "(profile \<Rightarrow> profile \<times> go_err) \<Rightarrow> bdb \<Rightarrow> bdb \<Rightarrow> string \<Rightarrow> string \<Rightarrow> bdb \<times> profile result"
where
  "bpsvc_change f seen d organizationID profileID =
     (case bprepo_GetByID seen organizationID profileID of
        Inl e \<Rightarrow> (d, Inl e)
      | Inr r \<Rightarrow> (case f r of (r', Some e) \<Rightarrow> (d, Inl e) | (r', None) \<Rightarrow> bprepo_Update d r'))"

definition bpsvc_Rename :: "bdb \<Rightarrow> bdb \<Rightarrow> time \<Rightarrow> string \<Rightarrow> string \<Rightarrow> string \<Rightarrow> bdb \<times> profile result" where
  "bpsvc_Rename seen d now organizationID profileID name =
     bpsvc_change (\<lambda>r. profile_Rename r name now) seen d organizationID profileID"

definition bpsvc_SetIdentity :: "bdb \<Rightarrow> bdb \<Rightarrow> time \<Rightarrow> string \<Rightarrow> string \<Rightarrow> identity \<Rightarrow> bdb \<times> profile result" where
  "bpsvc_SetIdentity seen d now organizationID profileID who =
     bpsvc_change (\<lambda>r. profile_SetIdentity r who now) seen d organizationID profileID"

definition bpsvc_SaveState ::
  "bdb \<Rightarrow> bdb \<Rightarrow> time \<Rightarrow> string \<Rightarrow> string \<Rightarrow> cookie list option \<Rightarrow> storage option \<Rightarrow> storage option \<Rightarrow> bdb \<times> profile result"
where
  "bpsvc_SaveState seen d now organizationID profileID jar loc ses =
     bpsvc_change (\<lambda>r. profile_Capture r jar loc ses now) seen d organizationID profileID"

definition bpsvc_SaveCookies ::
  "bdb \<Rightarrow> bdb \<Rightarrow> time \<Rightarrow> string \<Rightarrow> string \<Rightarrow> cookie list option \<Rightarrow> bdb \<times> profile result"
where
  "bpsvc_SaveCookies seen d now organizationID profileID jar =
     bpsvc_change (\<lambda>r. profile_CaptureCookies r jar now) seen d organizationID profileID"

section \<open>What a document keeps\<close>

lemma utf8_next_take:
  assumes "utf8_next s = Some (r, w)"
  shows "utf8_next (take w s @ t) = Some (r, w)"
proof (cases s)
  case (Cons a u)
  then show ?thesis using assms
    by (auto simp: utf8_next.simps split: if_splits list.splits)
qed (use assms in simp)

lemma valid_utf8_take:
  assumes "utf8_next s = Some (r, w)"
  shows "valid_utf8 (take w s @ t) = valid_utf8 t"
proof -
  have w: "1 \<le> w" "w \<le> length s" using utf8_next_width [OF assms] by auto
  then have "take w s @ t \<noteq> []" by auto
  then show ?thesis using utf8_next_take [OF assms, of t] w by (subst valid_utf8.simps) simp
qed

lemma sanitize_is_valid [simp]: "valid_utf8 (sanitize s)"
proof (induction s rule: sanitize.induct)
  case (1 s)
  have bad: "utf8_next rune_error_bytes = Some (65533, 3)"
    by (simp add: rune_error_bytes_def utf8_next.simps byte_val_def is_cont_def)
  show ?case
  proof (cases "utf8_next s")
    case None
    show ?thesis
    proof (cases "s = []")
      case False
      then have "sanitize s = take 3 rune_error_bytes @ sanitize (tl s)"
        using None by (subst sanitize.simps) (simp add: rune_error_bytes_def)
      then show ?thesis using valid_utf8_take [OF bad, of "sanitize (tl s)"] 1(1) [OF False None] by (simp only:)
    qed simp
  next
    case (Some q)
    obtain r w where q: "q = (r, w)" by force
    then have ne: "s \<noteq> []" using Some by auto
    then have "sanitize s = take w s @ sanitize (drop w s)" using Some q by (subst sanitize.simps) simp
    then show ?thesis using valid_utf8_take [of s r w "sanitize (drop w s)"] Some q 1(2) [OF ne Some q [symmetric]] by simp
  qed
qed

lemma sanitize_idem [simp]: "sanitize (sanitize s) = sanitize s"
  by (rule sanitize_valid) simp

lemma update_new: "k \<notin> fst ` set al \<Longrightarrow> AList.update k v al = al @ [(k, v)]"
  by (induction al) auto

lemma foldl_update_keys: "fst ` set (foldl (\<lambda>acc kv. AList.update (fst kv) (snd kv) acc) acc kvs) = fst ` set acc \<union> fst ` set kvs"
  by (induction kvs arbitrary: acc) (auto simp: dom_update image_iff)

lemma distinct_last_wins: "distinct (map fst (last_wins kvs))"
proof -
  have "distinct (map fst (foldl (\<lambda>acc kv. AList.update (fst kv) (snd kv) acc) acc kvs))" if "distinct (map fst acc)" for acc
    using that by (induction kvs arbitrary: acc) (simp_all add: distinct_update)
  then show ?thesis by (simp add: last_wins_def)
qed

lemma last_wins_distinct: "distinct (map fst kvs) \<Longrightarrow> last_wins kvs = kvs"
proof -
  have "foldl (\<lambda>acc kv. AList.update (fst kv) (snd kv) acc) acc kvs = acc @ kvs"
    if "distinct (map fst (acc @ kvs))" for acc
    using that by (induction kvs arbitrary: acc) (auto simp: update_new)
  then show ?thesis if "distinct (map fst kvs)" using that by (simp add: last_wins_def)
qed

lemma last_wins_idem [simp]: "last_wins (last_wins kvs) = last_wins kvs"
  by (rule last_wins_distinct) (rule distinct_last_wins)

lemma last_wins_values: "kv \<in> set (last_wins kvs) \<Longrightarrow> kv \<in> set kvs"
proof -
  have "set (AList.update k v al) \<subseteq> insert (k, v) (set al)" for k :: 'a and v :: 'b and al
    by (induction al) auto
  then have "set (foldl (\<lambda>acc kv. AList.update (fst kv) (snd kv) acc) acc kvs) \<subseteq> set acc \<union> set kvs" for acc
    by (induction kvs arbitrary: acc) force+
  then show "kv \<in> set (last_wins kvs) \<Longrightarrow> kv \<in> set kvs" unfolding last_wins_def by fastforce
qed

lemma map_identity_idem [simp]: "map_identity sanitize (map_identity sanitize i) = map_identity sanitize i"
  by (simp add: map_identity_def)

lemma map_cookie_idem [simp]: "map_cookie sanitize (map_cookie sanitize c) = map_cookie sanitize c"
  by (simp add: map_cookie_def)

lemma last_wins_map_idem:
  assumes "\<And>x. x \<in> set xs \<Longrightarrow> f (f x) = f x"
  shows "map f (last_wins (map f xs)) = last_wins (map f xs)"
proof (rule map_idI)
  fix y
  assume "y \<in> set (last_wins (map f xs))"
  then obtain x where "x \<in> set xs" "y = f x" using last_wins_values [of y "map f xs"] by auto
  then show "f y = y" using assms by simp
qed

lemma map_storage_idem [simp]: "map_storage sanitize (map_storage sanitize st) = map_storage sanitize st"
proof -
  let ?h = "\<lambda>(k, v). (sanitize k, sanitize v)" and ?g = "\<lambda>(o1, kvs). (sanitize o1, last_wins (map (\<lambda>(k, v). (sanitize k, sanitize v)) kvs))"
  have "map ?h (last_wins (map ?h kvs)) = last_wins (map ?h kvs)" for kvs by (rule last_wins_map_idem) auto
  then have "?g (?g x) = ?g x" for x by (cases x) simp
  then have "map ?g (last_wins (map ?g st)) = last_wins (map ?g st)" by (intro last_wins_map_idem)
  then show ?thesis unfolding map_storage_def by simp
qed

lemma listed_Some [simp]: "listed (Some xs) = xs"
  by (simp add: listed_def)

lemma postgresTime_idem [simp]: "postgresTime (postgresTime t) = postgresTime t"
  by (simp add: postgresTime_def time_truncate_def microsecond_def)

lemma stored_profile_idem [simp]: "stored_profile (stored_profile r) = stored_profile r"
  by (simp add: stored_profile_def comp_def)

lemma stored_profile_simps [simp]:
  "bp_ID (stored_profile r) = bp_ID r" "bp_OrganizationID (stored_profile r) = bp_OrganizationID r" "bp_Name (stored_profile r) = bp_Name r"
  "bp_Identity (stored_profile r) = map_identity sanitize (bp_Identity r)"
  "bp_Cookies (stored_profile r) = Some (map (map_cookie sanitize) (listed (bp_Cookies r)))"
  "bp_LocalStorage (stored_profile r) = Some (map_storage sanitize (listed (bp_LocalStorage r)))"
  "bp_SessionStorage (stored_profile r) = Some (map_storage sanitize (listed (bp_SessionStorage r)))"
  "bp_CreatedAt (stored_profile r) = postgresTime (bp_CreatedAt r)" "bp_UpdatedAt (stored_profile r) = postgresTime (bp_UpdatedAt r)"
  by (simp_all add: stored_profile_def)

lemma stored_fixed:
  assumes "stored_profile p = p"
  shows "postgresTime (bp_CreatedAt p) = bp_CreatedAt p" "map_identity sanitize (bp_Identity p) = bp_Identity p"
    "bp_Cookies p = Some (map (map_cookie sanitize) (listed (bp_Cookies p)))"
    "bp_LocalStorage p = Some (map_storage sanitize (listed (bp_LocalStorage p)))"
    "bp_SessionStorage p = Some (map_storage sanitize (listed (bp_SessionStorage p)))"
  using stored_profile_simps [of p] unfolding assms by simp_all

lemma stored_created:
  assumes "stored_profile q = q"
  shows "stored_profile ((stored_profile r)\<lparr>bp_CreatedAt := bp_CreatedAt q\<rparr>) = (stored_profile r)\<lparr>bp_CreatedAt := bp_CreatedAt q\<rparr>"
  using stored_fixed(1) [OF assms] by (simp add: stored_profile_def comp_def)

text \<open>The table: one row per identifier, each as the columns and documents keep it.\<close>

definition bdb_ok :: "bdb \<Rightarrow> bool" where
  "bdb_ok d \<longleftrightarrow> distinct (map bp_ID (bd_profiles d)) \<and> (\<forall>p \<in> set (bd_profiles d). stored_profile p = p)"

lemma find_map_same:
  assumes "\<And>x. P x \<Longrightarrow> P (f x)"
  shows "find P (map (\<lambda>x. if P x then f x else x) xs) = map_option f (find P xs)"
  using assms by (induction xs) auto

lemma find_map_other:
  assumes "\<And>x. P x \<Longrightarrow> \<not> Q x \<and> \<not> Q (f x)"
  shows "find Q (map (\<lambda>x. if P x then f x else x) xs) = find Q xs"
  using assms by (induction xs) auto

lemma bprepo_GetByID_Inr:
  "bprepo_GetByID d organizationID profileID = Inr p \<longleftrightarrow>
     valid_id profileID \<and> texts [organizationID] \<and> profile_Validate p = None
     \<and> find (\<lambda>p. bp_ID p = profileID \<and> bp_OrganizationID p = organizationID) (bd_profiles d) = Some p"
  by (auto simp: bprepo_GetByID_def browser_ValidateIdentifier_def scanBrowserProfile_def split: option.splits sum.splits)

text \<open>An accepted update: the row addressed is what the documents keep of the record, the others are as they were.\<close>

lemma bprepo_Update_Inr:
  assumes "bprepo_Update d r = (d', Inr r')"
  obtains p where "find (\<lambda>p. bp_ID p = bp_ID r \<and> bp_OrganizationID p = bp_OrganizationID r) (bd_profiles d) = Some p"
    "r' = (stored_profile r)\<lparr>bp_CreatedAt := bp_CreatedAt p\<rparr>" "profile_Validate r = None" "profile_Validate r' = None"
    "d' = d\<lparr>bd_profiles := map (\<lambda>q. if bp_ID q = bp_ID r \<and> bp_OrganizationID q = bp_OrganizationID r
                                then (stored_profile r)\<lparr>bp_CreatedAt := bp_CreatedAt q\<rparr> else q) (bd_profiles d)\<rparr>"
  using assms
  by (auto simp: bprepo_Update_def conflicted_def scanBrowserProfile_def check_def split: option.splits if_splits sum.splits)

lemma bprepo_Update_ok:
  assumes "bprepo_Update d r = (d', Inr r')" and "bdb_ok d"
  shows "bdb_ok d'"
proof -
  let ?f = "\<lambda>q. if bp_ID q = bp_ID r \<and> bp_OrganizationID q = bp_OrganizationID r
                 then (stored_profile r)\<lparr>bp_CreatedAt := bp_CreatedAt q\<rparr> else q"
  have d': "bd_profiles d' = map ?f (bd_profiles d)" using assms(1) by (auto elim: bprepo_Update_Inr)
  have "bp_ID (?f q) = bp_ID q" for q by simp
  then have ids: "map bp_ID (bd_profiles d') = map bp_ID (bd_profiles d)" unfolding d' by (simp add: comp_def)
  have "stored_profile x = x" if x: "x \<in> set (bd_profiles d')" for x
  proof -
    obtain q where q: "q \<in> set (bd_profiles d)" "x = ?f q" using x unfolding d' by auto
    then have "stored_profile q = q" using assms(2) by (simp add: bdb_ok_def)
    then show ?thesis using stored_created [of q r] by (simp add: q(2))
  qed
  then show ?thesis using assms(2) ids unfolding bdb_ok_def by metis
qed

text \<open>Everything a change of a profile does: what it read, what it stored, what is read back, what it left alone.\<close>

lemma bpsvc_change_Inr:
  assumes "bpsvc_change f seen d organizationID profileID = (d', Inr r')" and "bdb_ok d"
    and keeps: "\<And>q q'. f q = (q', None) \<Longrightarrow> bp_ID q' = bp_ID q \<and> bp_OrganizationID q' = bp_OrganizationID q"
  obtains p q t where "bprepo_GetByID seen organizationID profileID = Inr p" "f p = (q, None)"
    "r' = (stored_profile q)\<lparr>bp_CreatedAt := t\<rparr>" "bprepo_GetByID d' organizationID profileID = Inr r'" "bdb_ok d'"
    "\<And>o1 i. i \<noteq> profileID \<or> o1 \<noteq> organizationID \<Longrightarrow> bprepo_GetByID d' o1 i = bprepo_GetByID d o1 i"
proof -
  obtain p q where p: "bprepo_GetByID seen organizationID profileID = Inr p" "f p = (q, None)" "bprepo_Update d q = (d', Inr r')"
    using assms(1) by (auto simp: bpsvc_change_def split: sum.splits prod.splits option.splits)
  have ids: "bp_ID p = profileID" "bp_OrganizationID p = organizationID" "valid_id profileID" "texts [organizationID]"
    using p(1) by (auto simp: bprepo_GetByID_Inr find_Some_iff)
  have q: "bp_ID q = profileID" "bp_OrganizationID q = organizationID" using keeps [OF p(2)] ids by simp_all
  let ?P = "\<lambda>x. bp_ID x = profileID \<and> bp_OrganizationID x = organizationID" and ?f = "\<lambda>x. (stored_profile q)\<lparr>bp_CreatedAt := bp_CreatedAt x\<rparr>"
  obtain w where w: "find ?P (bd_profiles d) = Some w" "r' = ?f w" "profile_Validate r' = None"
    "bd_profiles d' = map (\<lambda>x. if ?P x then ?f x else x) (bd_profiles d)"
    using p(3) by (rule bprepo_Update_Inr) (simp add: q)
  have "find ?P (bd_profiles d') = Some r'" unfolding w(4) by (subst find_map_same) (simp_all add: w q)
  then have again: "bprepo_GetByID d' organizationID profileID = Inr r'" using ids w(3) by (simp add: bprepo_GetByID_Inr)
  have "find (\<lambda>x. bp_ID x = i \<and> bp_OrganizationID x = o1) (bd_profiles d') = find (\<lambda>x. bp_ID x = i \<and> bp_OrganizationID x = o1) (bd_profiles d)"
    if "i \<noteq> profileID \<or> o1 \<noteq> organizationID" for o1 i
    unfolding w(4) by (rule find_map_other) (use that q in auto)
  then have other: "bprepo_GetByID d' o1 i = bprepo_GetByID d o1 i" if "i \<noteq> profileID \<or> o1 \<noteq> organizationID" for o1 i
    using that by (simp add: bprepo_GetByID_def)
  show thesis using p(1,2) w(2) again bprepo_Update_ok [OF p(3) assms(2)] other by (rule that)
qed

section \<open>Properties\<close>

text \<open>
  Saving a session's cookies replaces the jar and nothing else. When \<open>SaveCookies\<close>
  succeeds, the profile read back is the one it returned, with exactly the captured jar and
  the name, the identity and the DOM storage it had before; every other profile reads as it
  did.
\<close>

lemma cookies_saved:
  assumes "bdb_ok d" and "bpsvc_SaveCookies d d now organizationID profileID (Some jar) = (d', Inr r)"
    and "\<forall>c \<in> set jar. \<forall>s \<in> set (cookie_texts c). valid_utf8 s"
  shows "bdb_ok d' \<and> bprepo_GetByID d' organizationID profileID = Inr r \<and> bp_Cookies r = Some jar
    \<and> (\<exists>p. bprepo_GetByID d organizationID profileID = Inr p \<and> bp_Name r = bp_Name p \<and> bp_Identity r = bp_Identity p
         \<and> bp_LocalStorage r = bp_LocalStorage p \<and> bp_SessionStorage r = bp_SessionStorage p)
    \<and> (\<forall>o1 i. i \<noteq> profileID \<or> o1 \<noteq> organizationID \<longrightarrow> bprepo_GetByID d' o1 i = bprepo_GetByID d o1 i)"
proof -
  obtain p q t where p: "bprepo_GetByID d organizationID profileID = Inr p" "profile_CaptureCookies p (Some jar) now = (q, None)"
    and r: "r = (stored_profile q)\<lparr>bp_CreatedAt := t\<rparr>" and again: "bprepo_GetByID d' organizationID profileID = Inr r" "bdb_ok d'"
    and other: "\<And>o1 i. i \<noteq> profileID \<or> o1 \<noteq> organizationID \<Longrightarrow> bprepo_GetByID d' o1 i = bprepo_GetByID d o1 i"
    using assms(2) unfolding bpsvc_SaveCookies_def
    by (rule bpsvc_change_Inr [OF _ assms(1)]) (auto simp: profile_CaptureCookies_def profile_normalize_def)
  have "p \<in> set (bd_profiles d)" using p(1) by (auto simp: bprepo_GetByID_Inr find_Some_iff)
  then have fixed: "stored_profile p = p" using assms(1) by (simp add: bdb_ok_def)
  have jar: "map (map_cookie sanitize) jar = jar"
    using assms(3) by (intro map_idI) (auto simp: map_cookie_def cookie_texts_def sanitize_valid)
  have "q = profile_normalize (p\<lparr>bp_Cookies := Some jar, bp_UpdatedAt := notBefore now (bp_CreatedAt p)\<rparr>)"
    using p(2) by (simp add: profile_CaptureCookies_def)
  then have "bp_Cookies r = Some jar" "bp_Name r = bp_Name p" "bp_Identity r = bp_Identity p"
    "bp_LocalStorage r = bp_LocalStorage p" "bp_SessionStorage r = bp_SessionStorage p"
    using stored_fixed [OF fixed] jar unfolding r by (simp_all add: profile_normalize_def)
  then show ?thesis using p(1) again other by auto
qed

definition sample_identity :: identity where
  "sample_identity =
     \<lparr>id_DeviceModel = [], id_HasBattery = False, id_HasMouse = True, id_HasTouch = False, id_OS = ''Linux'',
      id_OSVersion = ''26.04'',
      id_Platform = \<lparr>pf_Bitness = ''64'', pf_Architecture = ''x86'', pf_NavigatorPlatform = ''Linux'', pf_Version = ''7.0.0''\<rparr>,
      id_Browser = BrowserChrome, id_BrowserVersion = [151],
      id_Screen = \<lparr>sc_LogicalWidth = 800, sc_LogicalHeight = 600, sc_OriginalWidth = 800, sc_OriginalHeight = 600,
                   sc_DensityPixelRatio = (1, 0)\<rparr>,
      id_HardwareConcurrency = 4, id_Memory = 8,
      id_GPU = \<lparr>gp_Vendor = ''AMD'', gp_WebGLRenderer = ''ANGLE'', gp_WebGLVendor = ''Google''\<rparr>,
      id_Geo = ''US'', id_Language = [''en''], id_HistoryCount = None, id_Proxy = [], id_Timezone = []\<rparr>"

definition sample_cookie :: cookie where
  "sample_cookie =
     \<lparr>ck_Name = ''sid'', ck_Value = ''1'', ck_Domain = ''example.org'', ck_Path = ''/'', ck_Expires = None,
      ck_Secure = True, ck_HTTPOnly = True, ck_SameSite = []\<rparr>"

definition sample_profile :: profile where
  "sample_profile =
     \<lparr>bp_ID = ''bp_1'', bp_OrganizationID = ''org_1'', bp_Name = ''work'', bp_Identity = sample_identity,
      bp_Cookies = Some [], bp_LocalStorage = Some [], bp_SessionStorage = Some [], bp_CreatedAt = 5000, bp_UpdatedAt = 5000\<rparr>"

definition sample_bdb :: bdb where
  "sample_bdb = \<lparr>bd_orgs = [''org_1''], bd_profiles = [sample_profile]\<rparr>"

lemma sample_identity_Validate [simp]: "identity_Validate sample_identity = None"
proof -
  have "trim_space ''26.04'' \<noteq> []" "trim_space ''Linux'' \<noteq> []" "trim_space ''7.0.0'' \<noteq> []" by code_simp+
  then show ?thesis
    by (simp add: identity_Validate_def sample_identity_def os_Valid_def geo_Valid_def browser_Valid_def)
qed

lemma ascii_sanitize: "is_ascii v \<Longrightarrow> sanitize v = v"
  by (simp add: sanitize_valid is_ascii_valid_utf8)

lemma sample_identity_stored [simp]: "map_identity sanitize sample_identity = sample_identity"
  by (simp add: map_identity_def sample_identity_def ascii_sanitize byte_val_def BrowserChrome_def)

lemma sample_cookie_stored [simp]: "map_cookie sanitize sample_cookie = sample_cookie"
  by (simp add: map_cookie_def sample_cookie_def ascii_sanitize byte_val_def)

lemma sample_bdb_ok: "bdb_ok sample_bdb"
  by (simp add: bdb_ok_def sample_bdb_def stored_profile_def)
     (simp add: sample_profile_def map_storage_def last_wins_def postgresTime_def time_truncate_def microsecond_def)

lemma sample_profile_ids: "valid_id ''bp_1''" "valid_id ''org_1''" "texts [''org_1'']" "profile_normalizeName ''work'' = Inr ''work''"
  by code_simp+

lemma sample_Validate:
  "profile_Validate (sample_profile\<lparr>bp_Cookies := Some jar, bp_UpdatedAt := t\<rparr>) = None \<longleftrightarrow>
     list_all (\<lambda>c. ck_Name c \<noteq> [] \<and> ck_Domain c \<noteq> []) jar \<and> 5000 \<le> t"
  using sample_profile_ids
  by (auto simp: profile_Validate_def browser_ValidateIdentifier_def sample_profile_def is_zero_def list_all_iff list_ex_iff)

definition sample_with :: "cookie list \<Rightarrow> time \<Rightarrow> profile" where
  "sample_with jar t = sample_profile\<lparr>bp_Cookies := Some jar, bp_UpdatedAt := t\<rparr>"

lemma sample_with_simps [simp]:
  "bp_ID (sample_with jar t) = ''bp_1''" "bp_OrganizationID (sample_with jar t) = ''org_1''" "bp_CreatedAt (sample_with jar t) = 5000"
  "bp_Cookies (sample_with jar t) = Some jar"
  by (simp_all add: sample_with_def sample_profile_def)

lemma sample_with_stored:
  assumes "jar = [] \<or> jar = [sample_cookie]" and "t = 5000 \<or> t = 9000 \<or> t = 10000"
  shows "stored_profile (sample_with jar t) = sample_with jar t" "profile_Validate (sample_with jar t) = None"
    "browserProfileDocuments (sample_with jar t) = None" "jsonb_ok (sample_with jar t)"
proof -
  have "map (map_cookie sanitize) jar = jar" using assms(1) by auto
  then show "stored_profile (sample_with jar t) = sample_with jar t" using assms(2)
    by (auto simp: stored_profile_def sample_with_def sample_profile_def map_storage_def last_wins_def postgresTime_def
        time_truncate_def microsecond_def)
  show "profile_Validate (sample_with jar t) = None" using assms
    by (auto simp: sample_with_def sample_Validate sample_cookie_def)
  show "browserProfileDocuments (sample_with jar t) = None" using assms(1)
    by (auto simp: browserProfileDocuments_def sample_cookie_def)
  show "jsonb_ok (sample_with jar t)" using assms(1)
    by (auto simp: jsonb_ok_def document_texts_def sample_with_def sample_cookie_def sample_profile_def cookie_texts_def
        storage_texts_def identity_texts_def sample_identity_def BrowserChrome_def)
qed

lemma sample_update:
  assumes "jar = [] \<or> jar = [sample_cookie]" and "t = 9000 \<or> t = 10000"
  shows "bprepo_Update \<lparr>bd_orgs = os, bd_profiles = [sample_with jar' t']\<rparr> (sample_with jar t)
    = (\<lparr>bd_orgs = os, bd_profiles = [sample_with jar t]\<rparr>, Inr (sample_with jar t))"
proof -
  have created: "sample_with jar t\<lparr>bp_CreatedAt := 5000\<rparr> = sample_with jar t" by (simp add: sample_with_def sample_profile_def)
  have "t = 5000 \<or> t = 9000 \<or> t = 10000" using assms(2) by blast
  then show ?thesis using sample_with_stored [OF assms(1), of t]
    by (simp add: bprepo_Update_def conflicted_def scanBrowserProfile_def created)
qed

lemma sample_bdb_eq: "sample_bdb = \<lparr>bd_orgs = [''org_1''], bd_profiles = [sample_with [] 5000]\<rparr>"
  by (simp add: sample_bdb_def sample_with_def sample_profile_def)

lemma sample_get: "bprepo_GetByID sample_bdb ''org_1'' ''bp_1'' = Inr (sample_with [] 5000)"
  using sample_with_stored [of "[]" 5000] sample_profile_ids by (simp add: bprepo_GetByID_Inr sample_bdb_eq)

lemma sample_saved:
  "bpsvc_SaveCookies sample_bdb sample_bdb 9000 ''org_1'' ''bp_1'' (Some [sample_cookie])
     = (\<lparr>bd_orgs = [''org_1''], bd_profiles = [sample_with [sample_cookie] 9000]\<rparr>, Inr (sample_with [sample_cookie] 9000))"
proof -
  have "profile_CaptureCookies (sample_with [] 5000) (Some [sample_cookie]) 9000 = (sample_with [sample_cookie] 9000, None)"
    using sample_with_stored(2) [of "[sample_cookie]" 9000]
    by (simp add: profile_CaptureCookies_def profile_normalize_def sample_with_def sample_profile_def notBefore_def)
  then show ?thesis using sample_update [of "[sample_cookie]" 9000]
    by (simp add: bpsvc_SaveCookies_def bpsvc_change_def sample_get) (simp add: sample_bdb_eq)
qed

text \<open>
  A change computed from an older read undoes a save in between. When the cookies of a
  closing session are saved after \<open>SetIdentity\<close> read the profile and before it wrote it back,
  the profile ends up with the jar it had before, although \<open>SetIdentity\<close> is meant to leave the
  state alone.
\<close>

lemma stale_write_drops_cookies:
  assumes "bdb_ok d" and "bpsvc_SaveCookies d d now organizationID profileID (Some jar) = (d1, Inr r1)"
    and "bpsvc_SetIdentity d d1 now' organizationID profileID who = (d2, Inr r2)"
  shows "\<exists>p. bprepo_GetByID d organizationID profileID = Inr p \<and> bprepo_GetByID d2 organizationID profileID = Inr r2
    \<and> bp_Cookies r2 = bp_Cookies p"
proof -
  have ok: "bdb_ok d1" using assms(2) unfolding bpsvc_SaveCookies_def
    by (rule bpsvc_change_Inr [OF _ assms(1)]) (auto simp: profile_CaptureCookies_def profile_normalize_def)
  obtain p q t where p: "bprepo_GetByID d organizationID profileID = Inr p" "profile_SetIdentity p who now' = (q, None)"
    and r: "r2 = (stored_profile q)\<lparr>bp_CreatedAt := t\<rparr>" and again: "bprepo_GetByID d2 organizationID profileID = Inr r2"
    using assms(3) unfolding bpsvc_SetIdentity_def
    by (rule bpsvc_change_Inr [OF _ ok]) (auto simp: profile_SetIdentity_def)
  have "p \<in> set (bd_profiles d)" using p(1) by (auto simp: bprepo_GetByID_Inr find_Some_iff)
  then have "stored_profile p = p" using assms(1) by (simp add: bdb_ok_def)
  moreover have "bp_Cookies q = bp_Cookies p" using p(2) by (auto simp: profile_SetIdentity_def)
  ultimately have "bp_Cookies r2 = bp_Cookies p" using stored_fixed(3) [of p] unfolding r by simp
  then show ?thesis using p(1) again by blast
qed

end
