(* ===== verification/Redis.thy ===== *)
theory Redis
  imports GoJson
begin

text \<open>
  The keyed store behind sessions and tokens (internal/repository/memory/cache.go and
  cacheredis.go). The server is a parameter: its commands as functions on a state of its own,
  with what is documented of GET, SET with an expiry, DEL and SCAN as the laws of the locale
  \<open>redis_laws\<close>. \<open>lease_store\<close> is the interface \<open>Cache\<close>; the operations of \<open>RedisCache\<close>
  implement it over any such server.
\<close>

section \<open>Documents\<close>

text \<open>
  What \<open>json.Marshal\<close> makes of the records kept here, as a tree: strings with the bytes that
  are not UTF-8 replaced, times in RFC 3339 (the years 0 to 9999), objects.
\<close>

datatype doc = DText string | DTime time | DFields "(string \<times> doc) list"

definition doc_text :: "string \<Rightarrow> doc" where
  "doc_text s = DText (sanitize s)"

definition json_year :: "time \<Rightarrow> bool" where
  "json_year t \<longleftrightarrow> - 31622400 * second \<le> t \<and> t < 315537897600 * second"

text \<open>\<open>omitempty\<close>.\<close>

definition omit_empty :: "string \<Rightarrow> string \<Rightarrow> (string \<times> doc) list" where
  "omit_empty name s = (if s = [] then [] else [(name, doc_text s)])"

text \<open>\<open>json.Unmarshal\<close> into a string or a time: an absent field keeps its zero value.\<close>

definition read_text :: "(string \<times> doc) list \<Rightarrow> string \<Rightarrow> string result" where
  "read_text fs name =
     (case map_of fs name of
        None \<Rightarrow> Inr [] | Some (DText s) \<Rightarrow> Inr s
      | Some v \<Rightarrow> Inl (Plain ''json: cannot unmarshal into a string''))"

definition read_time :: "(string \<times> doc) list \<Rightarrow> string \<Rightarrow> time result" where
  "read_time fs name =
     (case map_of fs name of
        None \<Rightarrow> Inr 0 | Some (DTime t) \<Rightarrow> Inr t
      | Some v \<Rightarrow> Inl (Plain ''json: cannot unmarshal into a time''))"

section \<open>The server\<close>

record ('s, 'v) redis =
  rd_Get :: "'s \<Rightarrow> time \<Rightarrow> string \<Rightarrow> 'v option result"
  rd_Set :: "'s \<Rightarrow> time \<Rightarrow> string \<Rightarrow> 'v \<Rightarrow> int \<Rightarrow> 's \<times> go_err"
  rd_Del :: "'s \<Rightarrow> time \<Rightarrow> string \<Rightarrow> 's \<times> go_err"
  rd_Scan :: "'s \<Rightarrow> time \<Rightarrow> nat \<Rightarrow> string \<Rightarrow> (string list \<times> nat) result"

text \<open>How long an entry written at \<open>t\<close> is seen: for ever when the expiry is zero.\<close>

definition leased :: "time \<Rightarrow> int \<Rightarrow> time \<Rightarrow> 'v \<Rightarrow> 'v option" where
  "leased t ttl t' v = (if ttl = 0 \<or> t' < t + ttl then Some v else None)"

definition whole_ms :: "int \<Rightarrow> bool" where
  "whole_ms ttl \<longleftrightarrow> 0 \<le> ttl \<and> ttl mod 1000000 = 0"

text \<open>
  \<open>holds s t k\<close> is what the server has at the key at a time. A command that failed may or
  may not have been carried out; none touches another key. SCAN answers keys that match.
\<close>

locale redis_laws =
  fixes rd :: "('s, 'v) redis" and holds :: "'s \<Rightarrow> time \<Rightarrow> string \<Rightarrow> 'v option"
  assumes get: "rd_Get rd s t k = Inr got \<Longrightarrow> got = holds s t k"
    and set_done: "rd_Set rd s t k v ttl = (s', None) \<Longrightarrow> whole_ms ttl \<Longrightarrow> t \<le> t' \<Longrightarrow> holds s' t' k = leased t ttl t' v"
    and set_failed: "rd_Set rd s t k v ttl = (s', Some e) \<Longrightarrow> whole_ms ttl \<Longrightarrow> t \<le> t' \<Longrightarrow>
      holds s' t' k = leased t ttl t' v \<or> holds s' t' k = holds s t' k"
    and set_other: "rd_Set rd s t k v ttl = (s', err) \<Longrightarrow> t \<le> t' \<Longrightarrow> k' \<noteq> k \<Longrightarrow> holds s' t' k' = holds s t' k'"
    and del_done: "rd_Del rd s t k = (s', None) \<Longrightarrow> t \<le> t' \<Longrightarrow> holds s' t' k = None"
    and del_failed: "rd_Del rd s t k = (s', Some e) \<Longrightarrow> t \<le> t' \<Longrightarrow> holds s' t' k = None \<or> holds s' t' k = holds s t' k"
    and del_other: "rd_Del rd s t k = (s', err) \<Longrightarrow> t \<le> t' \<Longrightarrow> k' \<noteq> k \<Longrightarrow> holds s' t' k' = holds s t' k'"
    and expires: "holds s t' k = Some v \<Longrightarrow> t \<le> t' \<Longrightarrow> holds s t k = Some v"

section \<open>RedisCache\<close>

definition PrefixedKey :: "string \<Rightarrow> string \<Rightarrow> string" where
  "PrefixedKey pre key = (if pre = [] then key else pre @ '':'' @ key)"

definition rc_Get :: "('s, 'v) redis \<Rightarrow> string \<Rightarrow> 's \<Rightarrow> time \<Rightarrow> string \<Rightarrow> 'v option result" where
  "rc_Get rd pre s t key =
     (case rd_Get rd s t (PrefixedKey pre key) of
        Inl e \<Rightarrow> Inl (annotate ''read cache entry'' e) | Inr v \<Rightarrow> Inr v)"

definition rc_Set :: "('s, 'v) redis \<Rightarrow> string \<Rightarrow> 's \<Rightarrow> time \<Rightarrow> string \<Rightarrow> 'v \<Rightarrow> int \<Rightarrow> 's \<times> go_err" where
  "rc_Set rd pre s t key v ttl =
     (case rd_Set rd s t (PrefixedKey pre key) v (if ttl < 0 then 0 else ttl) of
        (s', err) \<Rightarrow> (s', map_option (annotate ''write cache entry'') err))"

definition rc_Delete :: "('s, 'v) redis \<Rightarrow> string \<Rightarrow> 's \<Rightarrow> time \<Rightarrow> string \<Rightarrow> 's \<times> go_err" where
  "rc_Delete rd pre s t key =
     (case rd_Del rd s t (PrefixedKey pre key) of
        (s', err) \<Rightarrow> (s', map_option (annotate ''delete cache entry'') err))"

text \<open>
  The cursor walk of \<open>Keys\<close>. SCAN promises no number of pages, so the walk is a partial
  function of the cursor: \<open>None\<close> is a walk that does not end.
\<close>

partial_function (option) scan_keys ::
  "('s, 'v) redis \<Rightarrow> 's \<Rightarrow> time \<Rightarrow> string \<Rightarrow> string list \<Rightarrow> nat \<Rightarrow> string list result option"
where
  "scan_keys rd s t pat keys cursor =
     (case rd_Scan rd s t cursor pat of
        Inl e \<Rightarrow> Some (Inl (annotate ''scan cache keys'' e))
      | Inr (page, next) \<Rightarrow>
          if next = 0 then Some (Inr (keys @ page)) else scan_keys rd s t pat (keys @ page) next)"

declare scan_keys.simps [code]

definition rc_Keys :: "('s, 'v) redis \<Rightarrow> string \<Rightarrow> 's \<Rightarrow> time \<Rightarrow> string \<Rightarrow> string list result option" where
  "rc_Keys rd pre s t key = scan_keys rd s t (PrefixedKey pre key @ ''*'') [] 0"

section \<open>The interface\<close>

text \<open>
  What a store goes through between two moments while nothing writes or deletes at a set of
  keys: time passes, and other keys are written and deleted.
\<close>

inductive elsewhere ::
  "('s \<Rightarrow> time \<Rightarrow> string \<Rightarrow> 'v \<Rightarrow> int \<Rightarrow> 's \<times> go_err) \<Rightarrow> ('s \<Rightarrow> time \<Rightarrow> string \<Rightarrow> 's \<times> go_err)
     \<Rightarrow> string set \<Rightarrow> 's \<Rightarrow> time \<Rightarrow> 's \<Rightarrow> time \<Rightarrow> bool"
  for Set Delete ks
where
  here: "elsewhere Set Delete ks s t s t"
| wait: "elsewhere Set Delete ks s t s' t' \<Longrightarrow> t' \<le> t'' \<Longrightarrow> elsewhere Set Delete ks s t s' t''"
| set: "elsewhere Set Delete ks s t s' t' \<Longrightarrow> k \<notin> ks \<Longrightarrow> Set s' t' k v ttl = (s'', err) \<Longrightarrow> elsewhere Set Delete ks s t s'' t'"
| delete: "elsewhere Set Delete ks s t s' t' \<Longrightarrow> k \<notin> ks \<Longrightarrow> Delete s' t' k = (s'', err) \<Longrightarrow> elsewhere Set Delete ks s t s'' t'"

text \<open>
  What the repositories rely on of a \<open>Cache\<close>: an entry is read back until its lease ends or it
  is deleted, and operations on other keys do not disturb it.
\<close>

locale lease_store =
  fixes Get :: "'s \<Rightarrow> time \<Rightarrow> string \<Rightarrow> 'v option result"
    and Set :: "'s \<Rightarrow> time \<Rightarrow> string \<Rightarrow> 'v \<Rightarrow> int \<Rightarrow> 's \<times> go_err"
    and Delete :: "'s \<Rightarrow> time \<Rightarrow> string \<Rightarrow> 's \<times> go_err"
    and at :: "'s \<Rightarrow> time \<Rightarrow> string \<Rightarrow> 'v option"
  assumes Get: "Get s t k = Inr got \<Longrightarrow> got = at s t k"
    and Set_at: "Set s t k v ttl = (s', err) \<Longrightarrow> whole_ms ttl \<Longrightarrow> t \<le> t' \<Longrightarrow>
      at s' t' k = leased t ttl t' v \<or> err \<noteq> None \<and> at s' t' k = at s t' k"
    and Set_other: "Set s t k v ttl = (s', err) \<Longrightarrow> t \<le> t' \<Longrightarrow> k' \<noteq> k \<Longrightarrow> at s' t' k' = at s t' k'"
    and Delete_at: "Delete s t k = (s', err) \<Longrightarrow> t \<le> t' \<Longrightarrow>
      at s' t' k = None \<or> err \<noteq> None \<and> at s' t' k = at s t' k"
    and Delete_other: "Delete s t k = (s', err) \<Longrightarrow> t \<le> t' \<Longrightarrow> k' \<noteq> k \<Longrightarrow> at s' t' k' = at s t' k'"
    and expires: "at s t' k = Some v \<Longrightarrow> t \<le> t' \<Longrightarrow> at s t k = Some v"
begin

lemma elsewhere_later: "elsewhere Set Delete ks s t s' t' \<Longrightarrow> t \<le> t'"
  by (induction rule: elsewhere.induct) auto

lemma elsewhere_at: "elsewhere Set Delete ks s t s' t' \<Longrightarrow> t' \<le> t'' \<Longrightarrow> k \<in> ks \<Longrightarrow> at s' t'' k = at s t'' k"
proof (induction arbitrary: t'' rule: elsewhere.induct)
  case (set s t s' t' k' v ttl s'' err)
  then have "k \<noteq> k'" by auto
  then show ?case using set.IH set.prems Set_other [OF set.hyps(3)] by metis
next
  case (delete s t s' t' k' s'' err)
  then have "k \<noteq> k'" by auto
  then show ?case using delete.IH delete.prems Delete_other [OF delete.hyps(3)] by metis
qed auto

lemma read_back:
  assumes "Set s t k v ttl = (s1, None)" and "whole_ms ttl" and "elsewhere Set Delete {k} s1 t s2 t2" and "Get s2 t2 k = Inr got"
  shows "got = leased t ttl t2 v"
proof -
  have "t \<le> t2" using assms(3) by (rule elsewhere_later)
  then have "at s1 t2 k = leased t ttl t2 v" using Set_at [OF assms(1,2)] by auto
  then show ?thesis using Get [OF assms(4)] elsewhere_at [OF assms(3), of t2 k] by simp
qed

lemma gone:
  assumes "Delete s t k = (s1, None)" and "elsewhere Set Delete {k} s1 t s2 t2" and "Get s2 t2 k = Inr got"
  shows "got = None"
proof -
  have "t \<le> t2" using assms(2) by (rule elsewhere_later)
  then have "at s1 t2 k = None" using Delete_at [OF assms(1)] by auto
  then show ?thesis using Get [OF assms(3)] elsewhere_at [OF assms(2), of t2 k] by simp
qed

end

lemma PrefixedKey_inj [simp]: "PrefixedKey pre k = PrefixedKey pre k' \<longleftrightarrow> k = k'"
  by (simp add: PrefixedKey_def)

text \<open>Over a server with the documented laws, the operations of \<open>RedisCache\<close> are such a store.\<close>

lemma redis_lease_store:
  assumes "redis_laws rd holds"
  shows "lease_store (rc_Get rd pre) (rc_Set rd pre) (rc_Delete rd pre) (\<lambda>s t k. holds s t (PrefixedKey pre k))"
proof -
  note laws = redis_laws.get [OF assms] redis_laws.set_done [OF assms] redis_laws.set_failed [OF assms]
    redis_laws.set_other [OF assms] redis_laws.del_done [OF assms] redis_laws.del_failed [OF assms]
    redis_laws.del_other [OF assms] redis_laws.expires [OF assms]
  show ?thesis
  proof
    fix s :: 'a and t t' :: time and k k' :: string and v :: 'b and ttl :: int and s' :: 'a and err :: go_err
    let ?k = "PrefixedKey pre k" and ?ttl = "if ttl < 0 then 0 else ttl"
    assume set: "rc_Set rd pre s t k v ttl = (s', err)" and t: "t \<le> t'"
    then obtain err0 where s: "rd_Set rd s t ?k v ?ttl = (s', err0)" "err = map_option (annotate ''write cache entry'') err0"
      by (auto simp: rc_Set_def split: prod.splits)
    show "holds s' t' ?k = leased t ttl t' v \<or> err \<noteq> None \<and> holds s' t' ?k = holds s t' ?k" if ttl: "whole_ms ttl"
    proof -
      have "?ttl = ttl" using ttl by (simp add: whole_ms_def)
      then show ?thesis using s ttl t laws(2) [of s t ?k v ttl s' t'] laws(3) [of s t ?k v ttl s' _ t'] by (cases err0) auto
    qed
    show "holds s' t' (PrefixedKey pre k') = holds s t' (PrefixedKey pre k')" if "k' \<noteq> k"
      using laws(4) [OF s(1) t] that by simp
  next
    fix s :: 'a and t t' :: time and k k' :: string and s' :: 'a and err :: go_err
    assume del: "rc_Delete rd pre s t k = (s', err)" and t: "t \<le> t'"
    then obtain err0 where s: "rd_Del rd s t (PrefixedKey pre k) = (s', err0)" "err = map_option (annotate ''delete cache entry'') err0"
      by (auto simp: rc_Delete_def split: prod.splits)
    show "holds s' t' (PrefixedKey pre k) = None \<or> err \<noteq> None \<and> holds s' t' (PrefixedKey pre k) = holds s t' (PrefixedKey pre k)"
      using s t laws(5) [of s t _ s' t'] laws(6) [of s t _ s' _ t'] by (cases err0) auto
    show "holds s' t' (PrefixedKey pre k') = holds s t' (PrefixedKey pre k')" if "k' \<noteq> k"
      using laws(7) [OF s(1) t] that by simp
  qed (auto simp: rc_Get_def split: sum.splits intro: laws)
qed

section \<open>A server in memory\<close>

text \<open>Entries with the moment they expire, newest first: a server with these laws, for concrete runs.\<close>

type_synonym 'v entries = "(string \<times> 'v \<times> time option) list"

definition seen_at :: "'v entries \<Rightarrow> time \<Rightarrow> string \<Rightarrow> 'v option" where
  "seen_at s t k =
     (case map_of s k of
        None \<Rightarrow> None
      | Some (v, e) \<Rightarrow> (case e of None \<Rightarrow> Some v | Some x \<Rightarrow> if t < x then Some v else None))"

definition memory_server :: "('v entries, 'v) redis" where
  "memory_server =
     \<lparr>rd_Get = (\<lambda>s t k. Inr (seen_at s t k)),
      rd_Set = (\<lambda>s t k v ttl. ((k, v, if ttl = 0 then None else Some (t + ttl)) # s, None)),
      rd_Del = (\<lambda>s t k. (filter (\<lambda>x. fst x \<noteq> k) s, None)),
      rd_Scan = (\<lambda>s t c pat. Inr (filter (\<lambda>k. has_prefix k (butlast pat) \<and> seen_at s t k \<noteq> None) (remdups (map fst s)), 0))\<rparr>"

lemma map_of_without_key: "map_of (filter (\<lambda>x. fst x \<noteq> k) s) k' = (if k' = k then None else map_of s k')"
  by (induction s) auto

interpretation memory: redis_laws memory_server seen_at
proof
  fix s s' :: "'v entries" and t t' k k' and v :: 'v and err
  show "rd_Del memory_server s t k = (s', None) \<Longrightarrow> t \<le> t' \<Longrightarrow> seen_at s' t' k = None"
    by (auto simp: memory_server_def seen_at_def map_of_without_key split: option.splits)
  show "rd_Del memory_server s t k = (s', err) \<Longrightarrow> t \<le> t' \<Longrightarrow> k' \<noteq> k \<Longrightarrow> seen_at s' t' k' = seen_at s t' k'"
    by (auto simp: memory_server_def seen_at_def map_of_without_key)
qed (auto simp: memory_server_def seen_at_def leased_def whole_ms_def split: option.splits if_splits)

interpretation cache: lease_store "rc_Get memory_server pre" "rc_Set memory_server pre" "rc_Delete memory_server pre"
  "\<lambda>s t k. seen_at s t (PrefixedKey pre k)" for pre
  by (rule redis_lease_store) (rule memory.redis_laws_axioms)

end
