(* ===== verification/ExecutionRepo.thy ===== *)
theory ExecutionRepo
  imports Database
begin

text \<open>
  \<open>internal/repository/database/execution.go\<close>: the execution queue in PostgreSQL. Every
  operation is one transaction, so one step of the shared tables; \<open>FOR UPDATE\<close> and the
  version column make a concurrent writer lose. The theorems say that no history of these
  operations, by any number of workers, changes a finished execution, moves an execution
  to another build or input, or hands one queued execution to two workers.
\<close>

section \<open>Reading rows\<close>

text \<open>\<open>scanExecution\<close>: the record of a row of the join with \<open>apps\<close>, validated.\<close>

definition row_record :: "db \<Rightarrow> exec_row \<Rightarrow> execution" where
  "row_record d x =
     \<lparr>exe_ID = xr_id x,
      exe_ProjectID = (case db_app_project d (xr_app_id x) of None \<Rightarrow> [] | Some p \<Rightarrow> p),
      exe_AppID = xr_app_id x, exe_BuildID = xr_build_id x, exe_Status = xr_status x,
      exe_Input = append_nil (Some (xr_input x)),
      exe_Output = (case xr_output x of None \<Rightarrow> None | Some v \<Rightarrow> append_nil (Some v)),
      exe_Failure = xr_failure x, exe_Logs = xr_logs x, exe_CreatedAt = xr_created_at x,
      exe_StartedAt = xr_started_at x, exe_FinishedAt = xr_finished_at x,
      exe_RerunOf = (case xr_rerun_of x of None \<Rightarrow> [] | Some v \<Rightarrow> v)\<rparr>"

definition scanExecution :: "db \<Rightarrow> exec_row \<Rightarrow> execution result" where
  "scanExecution d x =
     (case exec_Validate (row_record d x) of
        Some e \<Rightarrow> Inl (annotate ''invalid persisted execution'' e)
      | None \<Rightarrow> Inr (row_record d x))"

text \<open>The rows \<open>executionSelect\<close> yields: those whose app exists.\<close>

definition joined :: "db \<Rightarrow> exec_row list" where
  "joined d = filter (\<lambda>x. db_app_project d (xr_app_id x) \<noteq> None) (db_executions d)"

definition row_org :: "db \<Rightarrow> exec_row \<Rightarrow> string option" where
  "row_org d x =
     (case db_app_project d (xr_app_id x) of None \<Rightarrow> None | Some p \<Rightarrow> db_project_org d p)"

definition getExecution :: "db \<Rightarrow> string \<Rightarrow> (execution \<times> int) result" where
  "getExecution d i =
     (case find (\<lambda>x. xr_id x = i) (joined d) of
        None \<Rightarrow> Inl (wrapf Execution_ErrNotFound i)
      | Some x \<Rightarrow>
          (case scanExecution d x of
             Inl e \<Rightarrow> Inl (annotate ''read execution'' e)
           | Inr r \<Rightarrow> Inr (r, xr_version x)))"

definition execrepo_GetByID :: "db \<Rightarrow> string \<Rightarrow> string \<Rightarrow> execution result" where
  "execrepo_GetByID d org i =
     (case find (\<lambda>x. xr_id x = i \<and> row_org d x = Some org) (joined d) of
        None \<Rightarrow> Inl (wrapf Execution_ErrNotFound i)
      | Some x \<Rightarrow>
          (case scanExecution d x of
             Inl e \<Rightarrow> Inl (annotate ''read execution'' e)
           | Inr r \<Rightarrow> Inr r))"

definition order_rows :: "pgsql \<Rightarrow> exec_row list \<Rightarrow> exec_row list" where
  "order_rows pg xs = order_by (older pg xr_created_at xr_id) xs"

fun collect_rows :: "db \<Rightarrow> exec_row list \<Rightarrow> execution list result" where
  "collect_rows d [] = Inr []"
| "collect_rows d (x # xs) =
     (case scanExecution d x of
        Inl e \<Rightarrow> Inl (annotate ''list executions'' e)
      | Inr r \<Rightarrow> (case collect_rows d xs of Inl e \<Rightarrow> Inl e | Inr rs \<Rightarrow> Inr (r # rs)))"

definition execrepo_List ::
  "pgsql \<Rightarrow> db \<Rightarrow> string \<Rightarrow> string \<Rightarrow> string \<Rightarrow> string \<Rightarrow> int \<Rightarrow> execution list result"
where
  "execrepo_List pg d org projectID appID buildID limit =
     collect_rows d
       (take (unat (postgresLimit limit))
          (rev (order_rows pg
             (filter (\<lambda>x. (projectID = [] \<or> db_app_project d (xr_app_id x) = Some projectID)
                        \<and> (appID = [] \<or> xr_app_id x = appID)
                        \<and> (buildID = [] \<or> xr_build_id x = buildID)
                        \<and> row_org d x = Some org) (joined d)))))"

section \<open>Writing rows\<close>

text \<open>
  The parameters of an update as the server binds them, or \<open>None\<close> where a type refuses one:
  the jsonb documents, the text of the logs. The CHECK constraints apply to the new row.
\<close>

definition pg_document :: "pgsql \<Rightarrow> raw \<Rightarrow> string option option" where
  "pg_document pg out =
     (case out of None \<Rightarrow> Some None | Some v \<Rightarrow> map_option Some (pg_jsonb pg v))"

definition pg_failure_document :: "failure option \<Rightarrow> failure option option" where
  "pg_failure_document fl =
     (case fl of None \<Rightarrow> Some None | Some f \<Rightarrow> map_option Some (pg_failure f))"

definition encode_row :: "pgsql \<Rightarrow> execution \<Rightarrow> int \<Rightarrow> exec_row option" where
  "encode_row pg r v =
     (case (pg_jsonb pg (raw_bytes (exe_Input r)), pg_document pg (exe_Output r),
            pg_failure_document (exe_Failure r)) of
        (Some inp, Some out, Some fl) \<Rightarrow>
          if pg_text_ok (exe_Logs r)
          then Some \<lparr>xr_id = exe_ID r, xr_app_id = exe_AppID r, xr_build_id = exe_BuildID r,
                     xr_status = exe_Status r, xr_input = inp, xr_output = out,
                     xr_failure = fl, xr_logs = exe_Logs r,
                     xr_created_at = pg_time (exe_CreatedAt r),
                     xr_started_at = map_option pg_time (exe_StartedAt r),
                     xr_finished_at = map_option pg_time (exe_FinishedAt r),
                     xr_rerun_of = nullableString (exe_RerunOf r), xr_version = v\<rparr>
          else None
      | _ \<Rightarrow> None)"

definition row_checks :: "pgsql \<Rightarrow> exec_row \<Rightarrow> bool" where
  "row_checks pg x \<longleftrightarrow>
     length (xr_logs x) \<le> 262144
     \<and> (case xr_output x of None \<Rightarrow> True | Some t \<Rightarrow> pg_size pg t \<le> 4194304)"

definition new_row :: "execution \<Rightarrow> string \<Rightarrow> exec_row" where
  "new_row r inp =
     \<lparr>xr_id = exe_ID r, xr_app_id = exe_AppID r, xr_build_id = exe_BuildID r,
      xr_status = exe_Status r, xr_input = inp, xr_output = None, xr_failure = None,
      xr_logs = [], xr_created_at = pg_time (exe_CreatedAt r), xr_started_at = None,
      xr_finished_at = None, xr_rerun_of = nullableString (exe_RerunOf r), xr_version = 1\<rparr>"

definition execrepo_Create :: "pgsql \<Rightarrow> db \<Rightarrow> execution \<Rightarrow> db \<times> go_err" where
  "execrepo_Create pg d r =
     (case exec_Validate r of
        Some e \<Rightarrow> (d, Some e)
      | None \<Rightarrow>
          if exe_Status r \<noteq> StatusQueued
          then (d, Some (wrapf Execution_ErrConflict ''a new execution must be queued''))
          else case pg_jsonb pg (raw_bytes (exe_Input r)) of
            None \<Rightarrow> (d, Some (wrapf Execution_ErrConflict ''create execution''))
          | Some inp \<Rightarrow>
              if exe_ID r \<in> xr_id ` set (db_executions d)
                 \<or> db_app_project d (exe_AppID r) = None
                 \<or> exe_BuildID r \<notin> bld_ID ` set (db_builds d)
                 \<or> (exe_RerunOf r \<noteq> [] \<and> exe_RerunOf r \<notin> xr_id ` set (db_executions d))
              then (d, Some (wrapf Execution_ErrConflict ''create execution''))
              else (d\<lparr>db_executions := db_executions d @ [new_row r inp]\<rparr>, None))"

text \<open>
  \<open>SaveLogs\<close>: an update of one running row, no error when there is none. The statement
  fails when the logs are not text, and when a row would break the bound on its logs.
\<close>

definition execrepo_SaveLogs :: "db \<Rightarrow> string \<Rightarrow> string \<Rightarrow> db \<times> go_err" where
  "execrepo_SaveLogs d i logs =
     (let hit = (\<lambda>x. xr_id x = i \<and> xr_status x = StatusRunning) in
      case ids_Validate ''execution_id'' i of
        Some e \<Rightarrow> (d, Some (wrapf Execution_ErrInvalid (error_text e)))
      | None \<Rightarrow>
          if \<not> pg_text_ok logs \<or> (list_ex hit (db_executions d) \<and> length logs > 262144)
          then (d, Some (Plain ''save execution logs''))
          else (d\<lparr>db_executions :=
                    map (\<lambda>x. if hit x
                             then x\<lparr>xr_logs := logs, xr_version := xr_version x + 1\<rparr> else x)
                      (db_executions d)\<rparr>, None))"

definition updateExecution ::
  "pgsql \<Rightarrow> db \<Rightarrow> execution \<Rightarrow> int \<Rightarrow> exec_status \<Rightarrow> db \<times> go_err"
where
  "updateExecution pg d r currentVersion expected =
     (let hit = (\<lambda>x. xr_id x = exe_ID r \<and> xr_version x = currentVersion \<and> xr_status x = expected) in
      case exec_Validate r of
        Some e \<Rightarrow> (d, Some e)
      | None \<Rightarrow>
          (case encode_row pg r (currentVersion + 1) of
             None \<Rightarrow> (d, Some (Plain ''update execution''))
           | Some n \<Rightarrow>
               if list_ex hit (db_executions d) \<and> \<not> row_checks pg n
               then (d, Some (Plain ''update execution''))
               else case requireOneRow (length (filter hit (db_executions d)))
                           ''execution changed concurrently'' of
                 Some e \<Rightarrow> (d, Some (wrapf Execution_ErrConflict (error_text e)))
               | None \<Rightarrow>
                   (d\<lparr>db_executions := map (\<lambda>x. if hit x then n else x) (db_executions d)\<rparr>,
                    None)))"

definition execrepo_Finalize :: "pgsql \<Rightarrow> db \<Rightarrow> execution \<Rightarrow> db \<times> go_err" where
  "execrepo_Finalize pg d r =
     (case exec_Validate r of
        Some e \<Rightarrow> (d, Some e)
      | None \<Rightarrow>
          (case getExecution d (exe_ID r) of
             Inl e \<Rightarrow> (d, Some e)
           | Inr (current, version) \<Rightarrow>
               (case exec_ValidateTransitionTo current r of
                  Some e \<Rightarrow> (d, Some e)
                | None \<Rightarrow> updateExecution pg d r version StatusRunning)))"

text \<open>
  \<open>ClaimQueued\<close>. The rows other transactions hold locked are skipped; \<open>locked\<close> lists
  their identifiers.
\<close>

definition queued_rows :: "db \<Rightarrow> string list \<Rightarrow> exec_row list" where
  "queued_rows d locked =
     filter (\<lambda>x. xr_status x = StatusQueued \<and> xr_id x \<notin> set locked) (joined d)"

definition execrepo_ClaimQueued ::
  "pgsql \<Rightarrow> db \<Rightarrow> string list \<Rightarrow> time \<Rightarrow> db \<times> execution result"
where
  "execrepo_ClaimQueued pg d locked now0 =
     (if is_zero now0
      then (d, Inl (wrapf Execution_ErrInvalid ''claim time is required''))
      else let now = postgresTime now0 in
        case order_rows pg (queued_rows d locked) of
          [] \<Rightarrow> (d, Inl (Bare Execution_ErrNoQueued))
        | x # _ \<Rightarrow>
            (case scanExecution d x of
               Inl e \<Rightarrow> (d, Inl (annotate ''claim queued execution'' e))
             | Inr r \<Rightarrow>
                 (case exec_Claim r now of
                    (r', Some e) \<Rightarrow> (d, Inl e)
                  | (r', None) \<Rightarrow>
                      (case updateExecution pg d r' (xr_version x) StatusQueued of
                         (d', Some e) \<Rightarrow> (d, Inl e)
                       | (d', None) \<Rightarrow> (d', Inr (exec_Clone r'))))))"

text \<open>\<open>RecoverRunning\<close>: the loop over the running rows, in one transaction.\<close>

fun recover_rows ::
  "pgsql \<Rightarrow> db \<Rightarrow> string list \<Rightarrow> time \<Rightarrow> failure \<Rightarrow> int \<Rightarrow> (db \<times> int) result"
where
  "recover_rows pg d [] now f k = Inr (d, k)"
| "recover_rows pg d (i # is) now f k =
     (case getExecution d i of
        Inl e \<Rightarrow> Inl e
      | Inr (r, v) \<Rightarrow>
          (case exec_Fail r f (exe_Logs r) now of
             (r', Some e) \<Rightarrow> Inl e
           | (r', None) \<Rightarrow>
               (case updateExecution pg d r' v StatusRunning of
                  (d', Some e) \<Rightarrow> Inl e
                | (d', None) \<Rightarrow> recover_rows pg d' is now f (k + 1))))"

definition execrepo_RecoverRunning ::
  "pgsql \<Rightarrow> db \<Rightarrow> time \<Rightarrow> failure \<Rightarrow> db \<times> int result"
where
  "execrepo_RecoverRunning pg d now f =
     (if is_zero now
      then (d, Inl (wrapf Execution_ErrInvalid ''recovery time is required''))
      else case exec_failure_Validate f of
        Some e \<Rightarrow> (d, Inl e)
      | None \<Rightarrow>
          (case recover_rows pg d
                  (map xr_id (filter (\<lambda>x. xr_status x = StatusRunning) (db_executions d)))
                  (postgresTime now) f 0 of
             Inl e \<Rightarrow> (d, Inl e)
           | Inr (d', k) \<Rightarrow> (d', Inr k)))"

section \<open>What a write changes\<close>

text \<open>
  A stored row is one the server would store again unchanged: its input is canonical jsonb,
  its times have no nanoseconds, an absent rerun is NULL. The tables are well formed
  when every row is stored and identifiers are keys.
\<close>

definition row_stored :: "pgsql \<Rightarrow> exec_row \<Rightarrow> bool" where
  "row_stored pg x \<longleftrightarrow>
     pg_jsonb pg (xr_input x) = Some (xr_input x) \<and> xr_input x \<noteq> []
     \<and> pg_time (xr_created_at x) = xr_created_at x \<and> xr_rerun_of x \<noteq> Some []
     \<and> map_option pg_time (xr_started_at x) = xr_started_at x"

definition repo_ok :: "pgsql \<Rightarrow> db \<Rightarrow> bool" where
  "repo_ok pg d \<longleftrightarrow>
     distinct (map xr_id (db_executions d)) \<and> list_all (row_stored pg) (db_executions d)"

text \<open>
  One row follows another of the same identifier: what pins the execution is the same, the
  status did not go back, and the row is the very same if its version is or if it was
  finished.
\<close>

definition row_pins :: "exec_row \<Rightarrow> string \<times> string \<times> string \<times> string option \<times> time" where
  "row_pins x = (xr_app_id x, xr_build_id x, xr_input x, xr_rerun_of x, xr_created_at x)"

definition status_rank :: "exec_status \<Rightarrow> nat" where
  "status_rank st = (case st of StatusQueued \<Rightarrow> 0 | StatusRunning \<Rightarrow> 1 | _ \<Rightarrow> 2)"

definition row_follows :: "exec_row \<Rightarrow> exec_row \<Rightarrow> bool" where
  "row_follows x y \<longleftrightarrow>
     xr_id y = xr_id x \<and> row_pins y = row_pins x
     \<and> status_rank (xr_status x) \<le> status_rank (xr_status y)
     \<and> (y = x \<or> (xr_version x < xr_version y \<and> \<not> Terminal (xr_status x)))"

definition table_follows :: "db \<Rightarrow> db \<Rightarrow> bool" where
  "table_follows d d' \<longleftrightarrow>
     (\<forall>x \<in> set (db_executions d). \<exists>y \<in> set (db_executions d'). row_follows x y)"

inductive repo_step :: "pgsql \<Rightarrow> db \<Rightarrow> db \<Rightarrow> bool" for pg where
  create: "execrepo_Create pg d r = (d', e) \<Longrightarrow> repo_step pg d d'"
| save_logs: "execrepo_SaveLogs d i logs = (d', e) \<Longrightarrow> repo_step pg d d'"
| finalize: "execrepo_Finalize pg d r = (d', e) \<Longrightarrow> repo_step pg d d'"
| claim: "execrepo_ClaimQueued pg d locked now = (d', res) \<Longrightarrow> repo_step pg d d'"
| recover: "execrepo_RecoverRunning pg d now f = (d', res) \<Longrightarrow> repo_step pg d d'"

inductive_cases repo_stepE: "repo_step pg d d'"

lemma row_follows_refl [simp]: "row_follows x x"
  by (simp add: row_follows_def)

lemma row_follows_trans: "row_follows x y \<Longrightarrow> row_follows y z \<Longrightarrow> row_follows x z"
  by (auto simp: row_follows_def)

lemma table_follows_refl [simp]: "table_follows d d"
  unfolding table_follows_def using row_follows_refl by blast

lemma table_follows_trans: "table_follows a b \<Longrightarrow> table_follows b c \<Longrightarrow> table_follows a c"
  by (meson table_follows_def row_follows_trans)

text \<open>A write that replaces rows in place, each by one that follows it.\<close>

lemma map_follows:
  assumes "repo_ok pg d"
    and "\<And>x. x \<in> set (db_executions d) \<Longrightarrow> row_stored pg (f x) \<and> row_follows x (f x)"
  shows "repo_ok pg (d\<lparr>db_executions := map f (db_executions d)\<rparr>)
     \<and> table_follows d (d\<lparr>db_executions := map f (db_executions d)\<rparr>)"
proof -
  have "map (xr_id \<circ> f) (db_executions d) = map xr_id (db_executions d)"
    using assms(2) by (simp add: row_follows_def)
  with assms(1) have "distinct (map (xr_id \<circ> f) (db_executions d))"
    by (metis repo_ok_def)
  then show ?thesis using assms
    by (auto simp: repo_ok_def table_follows_def list_all_iff)
qed

lemma encode_row_Some:
  "encode_row pg r v = Some n \<Longrightarrow>
     xr_id n = exe_ID r \<and> xr_app_id n = exe_AppID r \<and> xr_build_id n = exe_BuildID r
     \<and> xr_status n = exe_Status r \<and> pg_jsonb pg (raw_bytes (exe_Input r)) = Some (xr_input n)
     \<and> xr_created_at n = pg_time (exe_CreatedAt r) \<and> xr_rerun_of n = nullableString (exe_RerunOf r)
     \<and> xr_version n = v \<and> xr_logs n = exe_Logs r
     \<and> xr_started_at n = map_option pg_time (exe_StartedAt r)"
  by (auto simp: encode_row_def split: option.splits if_splits prod.splits)

lemma updateExecution_NoneD:
  assumes "updateExecution pg d r v st = (d', None)"
  shows "\<exists>n. exec_ok r \<and> encode_row pg r (v + 1) = Some n
    \<and> d' = d\<lparr>db_executions := map (\<lambda>x. if xr_id x = exe_ID r \<and> xr_version x = v \<and> xr_status x = st
                                       then n else x) (db_executions d)\<rparr>"
  using assms
  by (auto simp: updateExecution_def split: option.splits if_splits)

lemma updateExecution_error: "updateExecution pg d r v st = (d', Some e) \<Longrightarrow> d' = d"
  by (auto simp: updateExecution_def split: option.splits if_splits)

text \<open>The update of a record that keeps what pins the row it was read from.\<close>

definition writes_back :: "exec_row \<Rightarrow> execution \<Rightarrow> bool" where
  "writes_back x r \<longleftrightarrow>
     exe_ID r = xr_id x \<and> exe_AppID r = xr_app_id x \<and> exe_BuildID r = xr_build_id x
     \<and> raw_bytes (exe_Input r) = xr_input x \<and> exe_CreatedAt r = xr_created_at x
     \<and> nullableString (exe_RerunOf r) = xr_rerun_of x"

lemma row_record_writes_back:
  "row_stored pg x \<Longrightarrow> same_identity (row_record d x) r \<Longrightarrow> writes_back x r"
  by (auto simp: row_stored_def same_identity_def writes_back_def row_record_def nullableString_def
      append_nil_def raw_bytes_def split: option.splits if_splits)

lemma update_follows:
  assumes ok: "repo_ok pg d" and x: "x \<in> set (db_executions d)" and wb: "writes_back x r"
    and st: "\<not> Terminal st" "status_rank st \<le> status_rank (exe_Status r)"
    and upd: "updateExecution pg d r v st = (d', None)"
  shows "repo_ok pg d' \<and> table_follows d d'"
proof -
  let ?hit = "\<lambda>y. xr_id y = exe_ID r \<and> xr_version y = v \<and> xr_status y = st"
  obtain n where n: "encode_row pg r (v + 1) = Some n"
    and d': "d' = d\<lparr>db_executions := map (\<lambda>y. if ?hit y then n else y) (db_executions d)\<rparr>"
    using updateExecution_NoneD [OF upd] by auto
  have same: "y = x" if "y \<in> set (db_executions d)" "xr_id y = exe_ID r" for y
    using that ok x wb by (auto simp: repo_ok_def writes_back_def distinct_map dest: inj_onD)
  have "row_stored pg x" using ok x by (auto simp: repo_ok_def list_all_iff)
  then have "row_stored pg n \<and> row_pins n = row_pins x" "xr_id n = xr_id x" "xr_version n = v + 1"
    "xr_status n = exe_Status r"
    using encode_row_Some [OF n] wb
    by (auto simp: row_stored_def row_pins_def writes_back_def option.map_comp comp_def)
  then have "row_stored pg (if ?hit y then n else y) \<and> row_follows y (if ?hit y then n else y)"
    if "y \<in> set (db_executions d)" for y
    using that same [of y] st ok by (auto simp: row_follows_def repo_ok_def list_all_iff)
  then show ?thesis unfolding d' by (rule map_follows [OF ok])
qed

text \<open>What the code relies on of jsonb: what it stores is a JSON document, stored as itself.\<close>

definition jsonb_canonical :: "pgsql \<Rightarrow> bool" where
  "jsonb_canonical pg \<longleftrightarrow>
     (\<forall>v t. pg_jsonb pg v = Some t \<longrightarrow> json_valid t \<and> pg_jsonb pg t = Some t)"

lemma append_follows:
  assumes "repo_ok pg d" and "row_stored pg n" and "xr_id n \<notin> xr_id ` set (db_executions d)"
  shows "repo_ok pg (d\<lparr>db_executions := db_executions d @ [n]\<rparr>)
     \<and> table_follows d (d\<lparr>db_executions := db_executions d @ [n]\<rparr>)"
  using assms row_follows_refl by (fastforce simp: repo_ok_def table_follows_def)

lemma Create_NoneD:
  "execrepo_Create pg d r = (d', None) \<Longrightarrow>
     \<exists>inp. pg_jsonb pg (raw_bytes (exe_Input r)) = Some inp
        \<and> d' = d\<lparr>db_executions := db_executions d @ [new_row r inp]\<rparr>
        \<and> exe_ID r \<notin> xr_id ` set (db_executions d) \<and> exe_Status r = StatusQueued
        \<and> db_app_project d (exe_AppID r) \<noteq> None \<and> exec_ok r"
  by (simp add: execrepo_Create_def split: option.splits if_splits)

lemma Create_error: "execrepo_Create pg d r = (d', Some e) \<Longrightarrow> d' = d"
  by (auto simp: execrepo_Create_def split: option.splits if_splits)

lemma Create_follows:
  assumes canonical: "jsonb_canonical pg" and ok: "repo_ok pg d"
    and new: "execrepo_Create pg d r = (d', e)"
  shows "repo_ok pg d' \<and> table_follows d d'"
proof (cases e)
  case None
  with new obtain inp where inp: "pg_jsonb pg (raw_bytes (exe_Input r)) = Some inp"
    and d': "d' = d\<lparr>db_executions := db_executions d @ [new_row r inp]\<rparr>"
    and fresh: "exe_ID r \<notin> xr_id ` set (db_executions d)"
    using Create_NoneD by blast
  have "row_stored pg (new_row r inp)" "xr_id (new_row r inp) = exe_ID r"
    using canonical inp json_valid_nonempty
    by (auto simp: row_stored_def new_row_def jsonb_canonical_def nullableString_def)
  then show ?thesis unfolding d' using append_follows [OF ok] fresh by metis
next
  case (Some e')
  then show ?thesis using ok new Create_error by (metis table_follows_refl)
qed

lemma SaveLogs_follows:
  assumes ok: "repo_ok pg d" and "execrepo_SaveLogs d i logs = (d', e)"
  shows "repo_ok pg d' \<and> table_follows d d'"
proof -
  let ?f = "\<lambda>x. if xr_id x = i \<and> xr_status x = StatusRunning
                then x\<lparr>xr_logs := logs, xr_version := xr_version x + 1\<rparr> else x"
  have "row_stored pg (?f x) \<and> row_follows x (?f x)" if "x \<in> set (db_executions d)" for x
    using ok that
    by (auto simp: repo_ok_def list_all_iff row_stored_def row_follows_def row_pins_def Terminal_def)
  note map_follows [OF ok this]
  then show ?thesis using assms by (auto simp: execrepo_SaveLogs_def split: option.splits if_splits)
qed

lemma joined_mem: "x \<in> set (joined d) \<longleftrightarrow> x \<in> set (db_executions d) \<and> db_app_project d (xr_app_id x) \<noteq> None"
  by (auto simp: joined_def)

lemma find_SomeD: "find P xs = Some x \<Longrightarrow> x \<in> set xs \<and> P x"
  by (auto simp: find_Some_iff)

lemma scanExecution_InrD: "scanExecution d x = Inr r \<Longrightarrow> r = row_record d x \<and> exec_ok r"
  by (auto simp: scanExecution_def split: option.splits)

lemma getExecution_InrD:
  assumes "getExecution d i = Inr (r, v)"
  obtains x where "x \<in> set (joined d)" "xr_id x = i" "r = row_record d x" "exec_ok r" "v = xr_version x"
  using assms
  by (auto simp: getExecution_def split: option.splits sum.splits
      dest!: find_SomeD scanExecution_InrD)

lemma transition_same_identity:
  "exec_ValidateTransitionTo r n = None \<Longrightarrow>
     same_identity r n \<and> exe_Status r = StatusRunning \<and> Terminal (exe_Status n)"
  by (auto simp: exec_ValidateTransitionTo_def same_identity_def guard_def split: if_splits)

lemma Finalize_follows:
  assumes ok: "repo_ok pg d" and fin: "execrepo_Finalize pg d r = (d', e)"
  shows "repo_ok pg d' \<and> table_follows d d'"
proof (cases e)
  case None
  then obtain cur v where cur: "getExecution d (exe_ID r) = Inr (cur, v)"
    and tr: "exec_ValidateTransitionTo cur r = None"
    and upd: "updateExecution pg d r v StatusRunning = (d', None)"
    using fin by (auto simp: execrepo_Finalize_def split: option.splits sum.splits)
  obtain x where x: "x \<in> set (db_executions d)" "cur = row_record d x"
    using getExecution_InrD [OF cur] by (auto simp: joined_mem)
  have "row_stored pg x" using ok x by (auto simp: repo_ok_def list_all_iff)
  then have "writes_back x r"
    using row_record_writes_back transition_same_identity [OF tr] x(2) by blast
  from update_follows [OF ok x(1) this _ _ upd] show ?thesis
    using transition_same_identity [OF tr] by (auto simp: Terminal_def status_rank_def)
next
  case (Some e')
  then have "d' = d" using fin
    by (auto simp: execrepo_Finalize_def updateExecution_error split: option.splits sum.splits)
  then show ?thesis using ok by simp
qed

section \<open>Claims and recovery\<close>

lemma set_order_rows [simp]: "set (order_rows pg xs) = set xs"
  by (simp add: order_rows_def)

lemma order_rows_Nil [simp]: "order_rows pg xs = [] \<longleftrightarrow> xs = []" "order_rows pg [] = []"
  by (simp_all add: order_rows_def)

lemma ClaimQueued_InrD:
  assumes "execrepo_ClaimQueued pg d locked now = (d', Inr r)"
  obtains x ys where "order_rows pg (queued_rows d locked) = x # ys"
    "r = exec_Clone (claimed (row_record d x) (postgresTime now))"
    "exec_ok (row_record d x)" "exec_ok r" "exe_Status (row_record d x) = StatusQueued"
    "updateExecution pg d (claimed (row_record d x) (postgresTime now)) (xr_version x) StatusQueued
       = (d', None)"
  using assms
  by (auto simp: execrepo_ClaimQueued_def split: if_splits list.splits sum.splits prod.splits
      option.splits dest!: scanExecution_InrD exec_Claim_NoneD)

lemma queued_rows_mem:
  "x \<in> set (queued_rows d locked) \<longleftrightarrow>
     x \<in> set (joined d) \<and> xr_status x = StatusQueued \<and> xr_id x \<notin> set locked"
  by (auto simp: queued_rows_def)

lemma row_record_sel [simp]:
  "exe_ID (row_record d x) = xr_id x" "exe_Status (row_record d x) = xr_status x"
  "exe_StartedAt (row_record d x) = xr_started_at x" "exe_Logs (row_record d x) = xr_logs x"
  "exe_AppID (row_record d x) = xr_app_id x" "exe_BuildID (row_record d x) = xr_build_id x"
  "exe_CreatedAt (row_record d x) = xr_created_at x"
  by (simp_all add: row_record_def)

lemma ClaimQueued_follows:
  assumes ok: "repo_ok pg d" and claim: "execrepo_ClaimQueued pg d locked now = (d', res)"
  shows "repo_ok pg d' \<and> table_follows d d'"
proof (cases res)
  case (Inr r)
  then obtain x ys where x: "order_rows pg (queued_rows d locked) = x # ys"
    and upd: "updateExecution pg d (claimed (row_record d x) (postgresTime now)) (xr_version x)
      StatusQueued = (d', None)"
    using claim ClaimQueued_InrD by (metis (no_types))
  have "x \<in> set (queued_rows d locked)" using x by (metis list.set_intros(1) set_order_rows)
  then have mem: "x \<in> set (db_executions d)" by (simp add: queued_rows_mem joined_mem)
  then have "row_stored pg x" using ok by (auto simp: repo_ok_def list_all_iff)
  then have "writes_back x (claimed (row_record d x) (postgresTime now))"
    by (rule row_record_writes_back [where d = d]) simp
  from update_follows [OF ok mem this _ _ upd] show ?thesis
    by (simp add: Terminal_def status_rank_def)
next
  case (Inl e)
  then have "d' = d" using claim
    by (auto simp: execrepo_ClaimQueued_def updateExecution_error
        split: if_splits list.splits sum.splits prod.splits option.splits)
  then show ?thesis using ok by simp
qed

lemma recover_rows_follows:
  assumes "repo_ok pg d" and "recover_rows pg d is now f k = Inr (d', k')"
  shows "repo_ok pg d' \<and> table_follows d d' \<and> k' = k + int (length is)"
  using assms
proof (induction "is" arbitrary: d k)
  case (Cons i "is")
  from Cons.prems(2) obtain r v d1 where get: "getExecution d i = Inr (r, v)"
    and fl: "exec_Fail r f (exe_Logs r) now = (failed r f (exe_Logs r) now, None)"
    and upd: "updateExecution pg d (failed r f (exe_Logs r) now) v StatusRunning = (d1, None)"
    and rest: "recover_rows pg d1 is now f (k + 1) = Inr (d', k')"
    by (auto split: sum.splits prod.splits option.splits dest: exec_Fail_NoneD)
  obtain x where x: "x \<in> set (db_executions d)" "r = row_record d x"
    using getExecution_InrD [OF get] by (auto simp: joined_mem)
  have "row_stored pg x" using Cons.prems(1) x by (auto simp: repo_ok_def list_all_iff)
  then have "writes_back x (failed r f (exe_Logs r) now)"
    unfolding x(2) by (rule row_record_writes_back [where d = d]) simp
  from update_follows [OF Cons.prems(1) x(1) this _ _ upd]
  have "repo_ok pg d1 \<and> table_follows d d1" by (simp add: Terminal_def status_rank_def failed_def)
  with Cons.IH [OF _ rest] show ?case using table_follows_trans by auto
qed simp

lemma RecoverRunning_follows:
  assumes "repo_ok pg d" and "execrepo_RecoverRunning pg d now f = (d', res)"
  shows "repo_ok pg d' \<and> table_follows d d'"
  using assms recover_rows_follows [OF assms(1)]
  by (auto simp: execrepo_RecoverRunning_def split: if_splits option.splits sum.splits)

lemma repo_step_follows:
  "jsonb_canonical pg \<Longrightarrow> repo_ok pg d \<Longrightarrow> repo_step pg d d' \<Longrightarrow> repo_ok pg d' \<and> table_follows d d'"
  by (erule repo_stepE)
     (metis Create_follows, metis SaveLogs_follows, metis Finalize_follows,
      metis ClaimQueued_follows, metis RecoverRunning_follows)

lemma repo_steps_follow:
  assumes "jsonb_canonical pg" and "repo_ok pg d" and "(repo_step pg)\<^sup>*\<^sup>* d d'"
  shows "repo_ok pg d' \<and> table_follows d d'"
  using assms(3)
proof (induction rule: rtranclp_induct)
  case (step b c)
  then show ?case
    using repo_step_follows [OF assms(1), of b c] table_follows_trans [of d b c] by blast
qed (simp add: assms)

section \<open>Writes that succeed\<close>

lemma exec_ok_Validate [simp]: "exec_ok r \<Longrightarrow> exec_Validate r = None"
  by simp

text \<open>The table with one row replaced; identifiers being keys, nothing else moves.\<close>

definition put_row :: "db \<Rightarrow> exec_row \<Rightarrow> db" where
  "put_row d n = d\<lparr>db_executions := map (\<lambda>x. if xr_id x = xr_id n then n else x) (db_executions d)\<rparr>"

lemma filter_key:
  assumes "distinct (map xr_id xs)" and "x \<in> set xs"
  shows "filter (\<lambda>y. xr_id y = xr_id x \<and> xr_version y = xr_version x \<and> xr_status y = xr_status x) xs = [x]"
  using assms
proof (induction xs)
  case (Cons a xs)
  show ?case
  proof (cases "a = x")
    case True
    then have "filter (\<lambda>y. xr_id y = xr_id x \<and> xr_version y = xr_version x \<and> xr_status y = xr_status x) xs = []"
      using Cons.prems by (auto simp: filter_empty_conv image_iff)
    then show ?thesis using True by simp
  next
    case False
    then have "xr_id a \<noteq> xr_id x" using Cons.prems by force
    then show ?thesis using Cons False by auto
  qed
qed simp

lemma repo_ok_key:
  "repo_ok pg d \<Longrightarrow> x \<in> set (db_executions d) \<Longrightarrow> y \<in> set (db_executions d) \<Longrightarrow>
     xr_id y = xr_id x \<Longrightarrow> y = x"
  by (auto simp: repo_ok_def distinct_map dest: inj_onD)

lemma updateExecution_ok:
  assumes ok: "repo_ok pg d" and x: "x \<in> set (db_executions d)" and id: "exe_ID r = xr_id x"
    and r: "exec_ok r" and n: "encode_row pg r (xr_version x + 1) = Some n" and chk: "row_checks pg n"
  shows "updateExecution pg d r (xr_version x) (xr_status x) = (put_row d n, None)"
proof -
  have "xr_id n = xr_id x" using encode_row_Some [OF n] id by simp
  then have "map (\<lambda>y. if xr_id y = xr_id x \<and> xr_version y = xr_version x \<and> xr_status y = xr_status x
               then n else y) (db_executions d)
             = map (\<lambda>y. if xr_id y = xr_id n then n else y) (db_executions d)"
    using repo_ok_key [OF ok x] by auto
  then show ?thesis
    using filter_key [of "db_executions d" x] ok x r n chk
    by (simp add: updateExecution_def id requireOneRow_def guard_def put_row_def repo_ok_def)
qed

lemma find_joined:
  assumes "repo_ok pg d" and "x \<in> set (joined d)"
  shows "find (\<lambda>y. xr_id y = xr_id x) (joined d) = Some x"
proof (cases "find (\<lambda>y. xr_id y = xr_id x) (joined d)")
  case None
  then show ?thesis using assms(2) by (auto simp: find_None_iff)
next
  case (Some y)
  then have "y \<in> set (joined d) \<and> xr_id y = xr_id x" by (rule find_SomeD)
  then show ?thesis using Some repo_ok_key [OF assms(1)] assms(2) by (auto simp: joined_mem)
qed

lemma getExecution_ok:
  assumes "repo_ok pg d" and "x \<in> set (joined d)" and "exec_ok (row_record d x)"
  shows "getExecution d (xr_id x) = Inr (row_record d x, xr_version x)"
  using find_joined [OF assms(1,2)] assms(3) by (simp add: getExecution_def scanExecution_def)

lemma Finalize_ok:
  assumes ok: "repo_ok pg d" and x: "x \<in> set (joined d)" "exec_ok (row_record d x)"
    and id: "exe_ID r = xr_id x" and r: "exec_ok r"
    and tr: "exec_ValidateTransitionTo (row_record d x) r = None"
    and n: "encode_row pg r (xr_version x + 1) = Some n" and chk: "row_checks pg n"
  shows "execrepo_Finalize pg d r = (put_row d n, None)"
proof -
  have "xr_status x = StatusRunning" using transition_same_identity [OF tr] by simp
  moreover have "x \<in> set (db_executions d)" using x by (simp add: joined_mem)
  ultimately show ?thesis
    using updateExecution_ok [OF ok _ id r n chk] getExecution_ok [OF ok x] tr r id
    by (simp add: execrepo_Finalize_def)
qed

text \<open>The record a worker holds after a claim, and the row the claim leaves.\<close>

definition claim_row :: "exec_row \<Rightarrow> time \<Rightarrow> exec_row" where
  "claim_row x now =
     x\<lparr>xr_status := StatusRunning, xr_output := None, xr_started_at := Some now,
       xr_version := xr_version x + 1\<rparr>"

lemma raw_bytes_row_record [simp]: "raw_bytes (exe_Input (row_record d x)) = xr_input x"
  by (simp add: row_record_def raw_bytes_def append_nil_def)

lemma encode_claimed:
  assumes "row_stored pg x" and "exec_ok (row_record d x)" and "xr_status x = StatusQueued"
  shows "encode_row pg (claimed (row_record d x) (postgresTime now)) (xr_version x + 1)
    = Some (claim_row x (postgresTime now))"
proof -
  have "xr_started_at x = None" "xr_finished_at x = None" "xr_failure x = None" "xr_logs x = []"
    using assms(2,3)
    by (auto simp: exec_ok_def exec_state_ok_def row_record_def)
  moreover have "exe_RerunOf (row_record d x) = (case xr_rerun_of x of None \<Rightarrow> [] | Some v \<Rightarrow> v)"
    by (simp add: row_record_def)
  ultimately show ?thesis using assms(1)
    by (cases x) (auto simp: encode_row_def claimed_def claim_row_def pg_document_def row_stored_def
        pg_failure_document_def pg_text_ok_def nullableString_def split: option.splits)
qed

text \<open>A claim either finds nothing, is stopped by the oldest queued row, or takes it.\<close>

lemma ClaimQueued_eq:
  assumes ok: "repo_ok pg d" and now: "\<not> is_zero now" "\<not> is_zero (postgresTime now)"
    and x: "order_rows pg (queued_rows d locked) = x # ys"
  shows "if exec_ok (row_record d x) \<and> xr_created_at x \<le> postgresTime now
         then execrepo_ClaimQueued pg d locked now
                = (put_row d (claim_row x (postgresTime now)),
                   Inr (claimed (row_record d x) (postgresTime now)))
         else \<exists>e. execrepo_ClaimQueued pg d locked now = (d, Inl e)"
proof -
  have "x \<in> set (queued_rows d locked)" using x by (metis list.set_intros(1) set_order_rows)
  then have mem: "x \<in> set (db_executions d)" "xr_status x = StatusQueued"
    by (simp_all add: queued_rows_mem joined_mem)
  show ?thesis
  proof (cases "exec_ok (row_record d x) \<and> xr_created_at x \<le> postgresTime now")
    case True
    let ?r = "claimed (row_record d x) (postgresTime now)"
    have r: "exec_ok ?r" using claimed_ok [of "row_record d x" "postgresTime now"] True mem by simp
    have "row_stored pg x" using ok mem by (auto simp: repo_ok_def list_all_iff)
    then have n: "encode_row pg ?r (xr_version x + 1) = Some (claim_row x (postgresTime now))"
      using encode_claimed True mem by blast
    have "exe_Logs ?r = []" by (simp add: claimed_def)
    then have "row_checks pg (claim_row x (postgresTime now))"
      using encode_row_Some [OF n] by (simp add: row_checks_def claim_row_def)
    then show ?thesis
      using updateExecution_ok [OF ok mem(1) _ r n] True x now mem(2) r
      by (simp add: execrepo_ClaimQueued_def scanExecution_def exec_Claim_def exec_Clone_eq
          claimed_def)
  next
    case False
    show ?thesis
    proof (cases "exec_ok (row_record d x)")
      case True
      then have "\<not> exec_ok (claimed (row_record d x) (postgresTime now))"
        using False mem(2) claimed_ok [OF True] by simp
      then show ?thesis using False True x now mem(2)
        by (auto simp: execrepo_ClaimQueued_def scanExecution_def exec_Claim_def
            split: option.splits)
    next
      case invalid: False
      then show ?thesis using x now
        by (auto simp: execrepo_ClaimQueued_def scanExecution_def split: option.splits)
    qed
  qed
qed

text \<open>Recovery, row by row.\<close>

definition fail_row :: "failure \<Rightarrow> time \<Rightarrow> exec_row \<Rightarrow> exec_row" where
  "fail_row f now x =
     x\<lparr>xr_status := StatusFailed, xr_output := None, xr_failure := Some f,
       xr_finished_at := Some now, xr_version := xr_version x + 1\<rparr>"

definition recoverable :: "db \<Rightarrow> time \<Rightarrow> exec_row \<Rightarrow> bool" where
  "recoverable d now x \<longleftrightarrow>
     x \<in> set (joined d) \<and> xr_status x = StatusRunning \<and> exec_ok (row_record d x)
     \<and> the (xr_started_at x) \<le> now \<and> pg_text_ok (xr_logs x)"

lemma encode_failed:
  assumes x: "row_stored pg x" and f: "pg_failure f = Some f'" and now: "pg_time now = now"
    and r: "recoverable d now x"
  shows "encode_row pg (failed (row_record d x) f (xr_logs x) now) (xr_version x + 1)
    = Some (fail_row f' now x)"
proof -
  have "exe_RerunOf (row_record d x) = (case xr_rerun_of x of None \<Rightarrow> [] | Some v \<Rightarrow> v)"
    by (simp add: row_record_def)
  then show ?thesis using assms
    by (cases x) (auto simp: encode_row_def failed_def fail_row_def pg_document_def row_stored_def
        pg_failure_document_def recoverable_def nullableString_def split: option.splits)
qed

lemma recover_one:
  assumes ok: "repo_ok pg d" and f: "\<not> bad_failure f" "pg_failure f = Some f'"
    and now: "pg_time now = now" and r: "recoverable d now x"
  shows "recover_rows pg d (xr_id x # is) now f k
    = recover_rows pg (put_row d (fail_row f' now x)) is now f (k + 1)"
proof -
  have x: "x \<in> set (db_executions d)" "x \<in> set (joined d)" "xr_status x = StatusRunning"
    "exec_ok (row_record d x)" "pg_text_ok (xr_logs x)" "the (xr_started_at x) \<le> now"
    using r by (simp_all add: recoverable_def joined_mem)
  let ?r = "failed (row_record d x) f (xr_logs x) now"
  have "length (xr_logs x) \<le> MaxLogBytes" using x(4) by (auto simp: exec_ok_def)
  then have r_ok: "exec_ok ?r" using failed_ok [OF x(4)] x f by simp
  have "row_stored pg x" using ok x(1) by (auto simp: repo_ok_def list_all_iff)
  then have n: "encode_row pg ?r (xr_version x + 1) = Some (fail_row f' now x)"
    using encode_failed f(2) now r by blast
  moreover have "row_checks pg (fail_row f' now x)"
    using \<open>length (xr_logs x) \<le> MaxLogBytes\<close>
    by (simp add: row_checks_def fail_row_def MaxLogBytes_def)
  moreover have "exe_ID ?r = xr_id x" by (simp add: failed_def)
  ultimately show ?thesis
    using updateExecution_ok [OF ok x(1) _ r_ok n] getExecution_ok [OF ok x(2,4)] x(3) r_ok
    by (simp add: exec_Fail_def)
qed

lemma recoverable_put:
  assumes "recoverable d now y" and "xr_id y \<noteq> xr_id n"
  shows "recoverable (put_row d n) now y"
proof -
  have "row_record (put_row d n) y = row_record d y" by (simp add: row_record_def put_row_def)
  moreover have "y \<in> set (joined (put_row d n))"
    using assms by (force simp: recoverable_def joined_mem put_row_def)
  ultimately show ?thesis using assms(1) by (simp add: recoverable_def)
qed

definition fail_rows :: "failure \<Rightarrow> time \<Rightarrow> string list \<Rightarrow> db \<Rightarrow> db" where
  "fail_rows f now is d =
     d\<lparr>db_executions :=
        map (\<lambda>x. if xr_id x \<in> set is then fail_row f now x else x) (db_executions d)\<rparr>"

lemma fail_row_id [simp]: "xr_id (fail_row f now x) = xr_id x"
  by (simp add: fail_row_def)

lemma put_row_ids [simp]: "map xr_id (db_executions (put_row d n)) = map xr_id (db_executions d)"
  by (simp add: put_row_def)

lemma put_row_stored:
  "row_stored pg n \<Longrightarrow> list_all (row_stored pg) (db_executions d) \<Longrightarrow>
     list_all (row_stored pg) (db_executions (put_row d n))"
  by (auto simp: list_all_iff put_row_def)

lemma put_row_repo_ok: "repo_ok pg d \<Longrightarrow> row_stored pg n \<Longrightarrow> repo_ok pg (put_row d n)"
  by (simp add: repo_ok_def put_row_stored)

lemma fail_row_stored: "row_stored pg x \<Longrightarrow> row_stored pg (fail_row f now x)"
  by (simp add: row_stored_def fail_row_def)

lemma put_row_fail:
  assumes "repo_ok pg d" and "x \<in> set (db_executions d)" and "xr_id x \<notin> set is"
  shows "fail_rows f now is (put_row d (fail_row f now x)) = fail_rows f now (xr_id x # is) d"
proof -
  have "map ((\<lambda>y. if xr_id y \<in> set is then fail_row f now y else y)
          \<circ> (\<lambda>y. if xr_id y = xr_id x then fail_row f now x else y)) (db_executions d)
        = map (\<lambda>y. if xr_id y \<in> set (xr_id x # is) then fail_row f now y else y) (db_executions d)"
    using repo_ok_key [OF assms(1,2)] assms(3) by auto
  then show ?thesis by (simp add: fail_rows_def put_row_def)
qed

lemma recover_rows_ok:
  assumes "repo_ok pg d" and f: "\<not> bad_failure f" "pg_failure f = Some f'"
    and now: "pg_time now = now" and "distinct is"
    and "\<And>i. i \<in> set is \<Longrightarrow> \<exists>x. xr_id x = i \<and> recoverable d now x"
  shows "recover_rows pg d is now f k = Inr (fail_rows f' now is d, k + int (length is))"
  using assms(1,5,6)
proof (induction "is" arbitrary: d k)
  case Nil
  then show ?case by (simp add: fail_rows_def)
next
  case (Cons i "is")
  obtain x where x: "xr_id x = i" "recoverable d now x" using Cons.prems(3) by force
  then have mem: "x \<in> set (db_executions d)" by (simp add: recoverable_def joined_mem)
  have "\<exists>y. xr_id y = j \<and> recoverable (put_row d (fail_row f' now x)) now y"
    if j: "j \<in> set is" for j
  proof -
    obtain y where "xr_id y = j" "recoverable d now y" using Cons.prems(3) j by force
    moreover from this have "xr_id y \<noteq> xr_id (fail_row f' now x)" using Cons.prems(2) x(1) j by auto
    ultimately show ?thesis using recoverable_put by blast
  qed
  moreover have "row_stored pg x" using Cons.prems(1) mem by (auto simp: repo_ok_def list_all_iff)
  then have "repo_ok pg (put_row d (fail_row f' now x))"
    by (intro put_row_repo_ok Cons.prems(1) fail_row_stored)
  ultimately have "recover_rows pg (put_row d (fail_row f' now x)) is now f (k + 1)
    = Inr (fail_rows f' now is (put_row d (fail_row f' now x)), k + 1 + int (length is))"
    using Cons.IH Cons.prems(2) by simp
  then show ?case
    using recover_one [OF Cons.prems(1) f now x(2)] put_row_fail [OF Cons.prems(1) mem] x(1)
      Cons.prems(2) by simp
qed

text \<open>The row a claim found and the row it left.\<close>

lemma ClaimQueued_source:
  assumes "execrepo_ClaimQueued pg d locked now = (d', Inr r)"
  shows "\<exists>x \<in> set (db_executions d). xr_id x = exe_ID r \<and> xr_status x = StatusQueued"
proof -
  obtain x ys where x: "order_rows pg (queued_rows d locked) = x # ys"
    and r: "r = exec_Clone (claimed (row_record d x) (postgresTime now))"
    using ClaimQueued_InrD [OF assms] by metis
  have "x \<in> set (queued_rows d locked)" using x by (metis list.set_intros(1) set_order_rows)
  then show ?thesis using r by (auto simp: queued_rows_mem joined_mem exec_Clone_def claimed_def)
qed

lemma ClaimQueued_row:
  assumes ok: "repo_ok pg d" and claim: "execrepo_ClaimQueued pg d locked now = (d', Inr r)"
  shows "\<exists>y \<in> set (db_executions d'). xr_id y = exe_ID r \<and> xr_status y = StatusRunning"
proof -
  obtain x ys where x: "order_rows pg (queued_rows d locked) = x # ys"
    and r: "r = exec_Clone (claimed (row_record d x) (postgresTime now))"
    and upd: "updateExecution pg d (claimed (row_record d x) (postgresTime now)) (xr_version x)
      StatusQueued = (d', None)"
    using ClaimQueued_InrD [OF claim] by metis
  have "x \<in> set (queued_rows d locked)" using x by (metis list.set_intros(1) set_order_rows)
  then have "x \<in> set (db_executions d)" "xr_status x = StatusQueued"
    by (simp_all add: queued_rows_mem joined_mem)
  then show ?thesis
    using updateExecution_NoneD [OF upd] encode_row_Some r
    by (fastforce simp: exec_Clone_def claimed_def)
qed

section \<open>Properties\<close>

text \<open>A server that keeps documents as they are, and a table with one queued execution.\<close>

definition sample_pg :: pgsql where
  "sample_pg =
     \<lparr>pg_jsonb = (\<lambda>v. if json_valid v then Some v else None), pg_size = length,
      pg_le = (\<lambda>a b. True)\<rparr>"

definition sample_row :: exec_row where
  "sample_row =
     \<lparr>xr_id = ''exe_1'', xr_app_id = ''app_1'', xr_build_id = ''bld_1'', xr_status = StatusQueued,
      xr_input = ''null'', xr_output = None, xr_failure = None, xr_logs = [],
      xr_created_at = 10000, xr_started_at = None, xr_finished_at = None, xr_rerun_of = None,
      xr_version = 1\<rparr>"

definition sample_db :: db where
  "sample_db =
     \<lparr>db_app_project = [''app_1'' \<mapsto> ''prj_1''], db_project_org = [''prj_1'' \<mapsto> ''org_1''],
      db_builds = [], db_executions = [sample_row]\<rparr>"

lemma sample_pg_ok: "jsonb_canonical sample_pg" "collation sample_pg"
  by (simp_all add: jsonb_canonical_def collation_def sample_pg_def)

lemma sample_db_ok: "repo_ok sample_pg sample_db"
  by (simp add: repo_ok_def row_stored_def sample_db_def sample_row_def sample_pg_def pg_time_def
      time_truncate_def microsecond_def)

lemma sample_row_joined: "sample_row \<in> set (joined sample_db)"
  by (simp add: joined_def sample_db_def sample_row_def)

lemma sample_row_ok: "exec_ok (row_record sample_db sample_row)"
  by (simp add: exec_ok_def exec_identity_ok_def exec_state_ok_def row_record_def sample_db_def
      sample_row_def append_nil_def is_zero_def id_eval)

lemma sample_claimable:
  "order_rows sample_pg (queued_rows sample_db []) = [sample_row]"
  "\<not> is_zero 20500" "postgresTime 20500 = 20000" "\<not> is_zero (postgresTime 20500)"
  by (simp_all add: order_rows_def queued_rows_def joined_def sample_db_def sample_row_def is_zero_def
      postgresTime_def time_truncate_def microsecond_def)

lemma sample_ClaimQueued:
  "execrepo_ClaimQueued sample_pg sample_db [] 20500
     = (put_row sample_db (claim_row sample_row 20000),
        Inr (claimed (row_record sample_db sample_row) 20000))"
  using ClaimQueued_eq [OF sample_db_ok sample_claimable(2,4,1)] sample_row_ok
  by (simp add: sample_claimable(3) sample_row_def)

text \<open>
  C8: whatever sequence of creates, claims, log writes, finalizations and recoveries the
  workers make, in whatever order, every execution stays in the table under its identifier,
  with the application, build, input and origin it was created with; its status never goes
  back, its version never does either, and a finished row is never touched again.
\<close>

theorem execution_rows_monotone:
  assumes "jsonb_canonical pg" and "repo_ok pg d" and "(repo_step pg)\<^sup>*\<^sup>* d d'"
  shows "repo_ok pg d' \<and>
    (\<forall>x \<in> set (db_executions d). \<exists>y \<in> set (db_executions d').
       xr_id y = xr_id x \<and> row_pins y = row_pins x
       \<and> status_rank (xr_status x) \<le> status_rank (xr_status y)
       \<and> xr_version x \<le> xr_version y \<and> (Terminal (xr_status x) \<longrightarrow> y = x))"
  using repo_steps_follow [OF assms]
  by (fastforce simp: table_follows_def row_follows_def)

theorem execution_rows_monotone_witness:
  "\<exists>y \<in> set (db_executions (put_row sample_db (claim_row sample_row 20000))).
     xr_id y = xr_id sample_row \<and> row_pins y = row_pins sample_row"
proof -
  have "(repo_step sample_pg)\<^sup>*\<^sup>* sample_db (put_row sample_db (claim_row sample_row 20000))"
    using repo_step.claim [OF sample_ClaimQueued] by blast
  from execution_rows_monotone [OF sample_pg_ok(1) sample_db_ok this] show ?thesis
    by (fastforce simp: sample_db_def)
qed

text \<open>
  A claim takes the oldest queued execution no other transaction holds, by creation
  time and then identifier, and only that row changes: it is running since the claim time.
  A claim finds nothing exactly when there is no such row. But when the oldest one cannot
  be claimed (it was created after the claimer's clock, or its row does not validate), the
  claim fails and changes nothing, whatever else is queued behind it.
\<close>

lemma ClaimQueued_oldest:
  assumes "repo_ok pg d" and "collation pg" and "\<not> is_zero (postgresTime now)" and "\<not> is_zero now"
  shows "(queued_rows d locked = [] \<longrightarrow>
            execrepo_ClaimQueued pg d locked now = (d, Inl (Bare Execution_ErrNoQueued)))
    \<and> (queued_rows d locked \<noteq> [] \<longrightarrow>
        (\<exists>x \<in> set (queued_rows d locked). (\<forall>y \<in> set (queued_rows d locked). older pg xr_created_at xr_id x y)
          \<and> (if exec_Validate (row_record d x) = None \<and> xr_created_at x \<le> postgresTime now
             then execrepo_ClaimQueued pg d locked now
                    = (put_row d (claim_row x (postgresTime now)),
                       Inr (claimed (row_record d x) (postgresTime now)))
             else \<exists>e. execrepo_ClaimQueued pg d locked now = (d, Inl e))))"
proof (cases "order_rows pg (queued_rows d locked)")
  case Nil
  then show ?thesis using assms(4) by (simp add: execrepo_ClaimQueued_def)
next
  case (Cons x ys)
  then show ?thesis
    using ClaimQueued_eq [OF assms(1,4,3) Cons] order_by_head [OF assms(2) Cons [unfolded order_rows_def]] by auto
qed

text \<open>
  C9: no execution is handed out twice. Once a claim has returned one, no claim after it,
  by any worker and after any operations, returns the same execution.
\<close>

theorem claims_disjoint:
  assumes "jsonb_canonical pg" and "repo_ok pg d"
    and "execrepo_ClaimQueued pg d locked now = (d1, Inr r1)" and "(repo_step pg)\<^sup>*\<^sup>* d1 d2"
    and "execrepo_ClaimQueued pg d2 locked' now' = (d3, Inr r2)"
  shows "exe_ID r1 \<noteq> exe_ID r2"
proof
  assume eq: "exe_ID r1 = exe_ID r2"
  obtain y where y: "y \<in> set (db_executions d1)" "xr_id y = exe_ID r1" "xr_status y = StatusRunning"
    using ClaimQueued_row [OF assms(2,3)] by auto
  have ok1: "repo_ok pg d1" using ClaimQueued_follows [OF assms(2,3)] by simp
  note follows = repo_steps_follow [OF assms(1) ok1 assms(4)]
  then obtain z where z: "z \<in> set (db_executions d2)" "row_follows y z"
    using y(1) by (auto simp: table_follows_def)
  obtain w where w: "w \<in> set (db_executions d2)" "xr_id w = exe_ID r2" "xr_status w = StatusQueued"
    using ClaimQueued_source [OF assms(5)] by auto
  have "z = w" using repo_ok_key [of pg d2 w z] follows z w y eq by (simp add: row_follows_def)
  then show False using z(2) y(3) w(3) by (simp add: row_follows_def status_rank_def)
qed

definition sample_pair :: db where
  "sample_pair = sample_db\<lparr>db_executions := [sample_row, sample_row\<lparr>xr_id := ''exe_2''\<rparr>]\<rparr>"

lemma sample_pair_claims:
  "\<exists>d1 d2 r1 r2. execrepo_ClaimQueued sample_pg sample_pair [] 20500 = (d1, Inr r1)
     \<and> execrepo_ClaimQueued sample_pg d1 [] 20500 = (d2, Inr r2)"
proof -
  have ok: "repo_ok sample_pg sample_pair"
    using sample_db_ok by (simp add: repo_ok_def sample_pair_def sample_db_def sample_row_def row_stored_def)
  have "order_rows sample_pg (queued_rows sample_pair []) = [sample_row, sample_row\<lparr>xr_id := ''exe_2''\<rparr>]"
    by (simp add: queued_rows_def joined_def sample_pair_def sample_db_def sample_row_def older_def
        order_rows_def sample_pg_def)
  moreover have "exec_ok (row_record sample_pair sample_row)" "xr_created_at sample_row = 10000"
    using sample_row_ok by (simp_all add: row_record_def sample_pair_def sample_row_def)
  ultimately have first: "execrepo_ClaimQueued sample_pg sample_pair [] 20500
      = (put_row sample_pair (claim_row sample_row 20000), Inr (claimed (row_record sample_pair sample_row) 20000))"
    using ClaimQueued_eq [OF ok sample_claimable(2,4)] by (simp add: sample_claimable(3))
  let ?d = "put_row sample_pair (claim_row sample_row 20000)" and ?x = "sample_row\<lparr>xr_id := ''exe_2''\<rparr>"
  have ok': "repo_ok sample_pg ?d" using ClaimQueued_follows [OF ok first] by simp
  have "order_rows sample_pg (queued_rows ?d []) = [?x]"
    by (simp add: order_rows_def queued_rows_def joined_def put_row_def claim_row_def sample_pair_def
        sample_db_def sample_row_def)
  moreover have "exec_ok (row_record ?d ?x)"
    by (simp add: exec_ok_def exec_identity_ok_def exec_state_ok_def row_record_def sample_pair_def
        sample_db_def sample_row_def put_row_def append_nil_def is_zero_def id_eval)
  moreover have "xr_created_at ?x \<le> 20000" by (simp add: sample_row_def)
  ultimately have "\<exists>d r. execrepo_ClaimQueued sample_pg ?d [] 20500 = (d, Inr r)"
    using ClaimQueued_eq [OF ok' sample_claimable(2,4), of "[]" ?x "[]"]
    by (simp only: sample_claimable(3) if_True simp_thms) blast
  then show ?thesis using first by metis
qed

theorem claims_disjoint_witness:
  "\<exists>d1 d2 r1 r2. execrepo_ClaimQueued sample_pg sample_pair [] 20500 = (d1, Inr r1)
     \<and> execrepo_ClaimQueued sample_pg d1 [] 20500 = (d2, Inr r2) \<and> exe_ID r1 \<noteq> exe_ID r2"
proof -
  obtain d1 d2 r1 r2 where claims: "execrepo_ClaimQueued sample_pg sample_pair [] 20500 = (d1, Inr r1)"
     "execrepo_ClaimQueued sample_pg d1 [] 20500 = (d2, Inr r2)"
    using sample_pair_claims by metis
  have "repo_ok sample_pg sample_pair"
    using sample_db_ok by (simp add: repo_ok_def sample_pair_def sample_db_def sample_row_def row_stored_def)
  from claims_disjoint [OF sample_pg_ok(1) this claims(1) rtranclp.rtrancl_refl claims(2)] claims
  show ?thesis by blast
qed

end
