(* ===== verification/ExecutionStore.thy ===== *)
theory ExecutionStore
  imports ExecutionRepo
begin

text \<open>
  The writes that end an execution, and the reads: what \<open>Finalize\<close> needs to succeed after a
  claim, that it succeeds once, what \<open>RecoverRunning\<close> leaves behind, and what \<open>List\<close> and
  \<open>GetByID\<close> of \<open>internal/repository/database/execution.go\<close> return.
\<close>

section \<open>Log writes while the app runs\<close>

definition save_all :: "db \<Rightarrow> string \<Rightarrow> string list \<Rightarrow> db" where
  "save_all d i ls = foldl (\<lambda>d l. fst (execrepo_SaveLogs d i l)) d ls"

lemma save_all_Nil [simp]: "save_all d i [] = d"
  by (simp add: save_all_def)

lemma save_all_Cons [simp]: "save_all d i (l # ls) = save_all (fst (execrepo_SaveLogs d i l)) i ls"
  by (simp add: save_all_def)

lemma SaveLogs_apps [simp]:
  "db_app_project (fst (execrepo_SaveLogs d i l)) = db_app_project d"
  by (auto simp: execrepo_SaveLogs_def split: option.splits)

lemma exec_ok_logs:
  assumes "exec_ok (row_record d x)" and "xr_status x = StatusRunning" and "length l \<le> MaxLogBytes"
    and "db_app_project d' = db_app_project d"
  shows "exec_ok (row_record d' (x\<lparr>xr_logs := l, xr_version := v\<rparr>))"
proof -
  have "row_record d' (x\<lparr>xr_logs := l, xr_version := v\<rparr>) = (row_record d x)\<lparr>exe_Logs := l\<rparr>"
    using assms(4) by (simp add: row_record_def)
  then show ?thesis using assms(1-3)
    by (simp add: exec_ok_def exec_identity_ok_def exec_state_ok_def)
qed

lemma SaveLogs_row:
  assumes x: "x \<in> set (joined d)" "xr_status x = StatusRunning" "exec_ok (row_record d x)"
  shows "\<exists>l' v. x\<lparr>xr_logs := l', xr_version := v\<rparr> \<in> set (joined (fst (execrepo_SaveLogs d i l)))
    \<and> exec_ok (row_record (fst (execrepo_SaveLogs d i l)) (x\<lparr>xr_logs := l', xr_version := v\<rparr>))"
proof -
  let ?d = "fst (execrepo_SaveLogs d i l)"
  have "x \<in> set (db_executions ?d)
    \<or> (x\<lparr>xr_logs := l, xr_version := xr_version x + 1\<rparr> \<in> set (db_executions ?d) \<and> length l \<le> MaxLogBytes)"
    using x by (auto simp: execrepo_SaveLogs_def joined_mem list_ex_iff MaxLogBytes_def image_iff
        split: option.splits)
  then obtain l' v where "x\<lparr>xr_logs := l', xr_version := v\<rparr> \<in> set (db_executions ?d)" "length l' \<le> MaxLogBytes"
  proof
    assume "x \<in> set (db_executions ?d)"
    then show thesis using that [where l' = "xr_logs x" and v = "xr_version x"] x(3) by (simp add: exec_ok_def)
  next
    assume "x\<lparr>xr_logs := l, xr_version := xr_version x + 1\<rparr> \<in> set (db_executions ?d) \<and> length l \<le> MaxLogBytes"
    then show thesis using that by blast
  qed
  moreover have "exec_ok (row_record ?d (x\<lparr>xr_logs := l', xr_version := v\<rparr>))"
    using exec_ok_logs [OF x(3,2) calculation(2)] by simp
  ultimately show ?thesis using x(1) by (fastforce simp: joined_mem)
qed

lemma save_all_row:
  assumes "x \<in> set (joined d)" and "xr_status x = StatusRunning" and "exec_ok (row_record d x)"
  shows "\<exists>l v. x\<lparr>xr_logs := l, xr_version := v\<rparr> \<in> set (joined (save_all d i ls))
    \<and> exec_ok (row_record (save_all d i ls) (x\<lparr>xr_logs := l, xr_version := v\<rparr>))"
  using assms
proof (induction ls arbitrary: d x)
  case Nil
  then show ?case by (auto intro!: exI [of _ "xr_logs x"] exI [of _ "xr_version x"])
next
  case (Cons l ls)
  then obtain l' v where "x\<lparr>xr_logs := l', xr_version := v\<rparr> \<in> set (joined (fst (execrepo_SaveLogs d i l)))"
    "exec_ok (row_record (fst (execrepo_SaveLogs d i l)) (x\<lparr>xr_logs := l', xr_version := v\<rparr>))"
    using SaveLogs_row [OF Cons.prems, of i l] by blast
  from Cons.IH [OF this(1) _ this(2)] Cons.prems(2) show ?case by simp
qed

lemma save_all_repo_ok: "repo_ok pg d \<Longrightarrow> repo_ok pg (save_all d i ls)"
  by (induction ls arbitrary: d) (simp_all, metis SaveLogs_follows prod.collapse)

lemma save_all_apps [simp]: "db_app_project (save_all d i ls) = db_app_project d"
  by (induction ls arbitrary: d) simp_all

section \<open>Finishing\<close>

lemma finished_record:
  assumes "exec_Succeed r out logs t = (n, None) \<or> exec_Fail r f logs t = (n, None)"
  shows "exec_ok n \<and> Terminal (exe_Status n) \<and> same_identity r n \<and> exe_StartedAt n = exe_StartedAt r"
  using assms
  by (auto dest!: exec_Succeed_NoneD exec_Fail_NoneD simp: Terminal_def)
     (simp_all add: succeeded_def failed_def)

lemma encode_row_iff:
  "encode_row pg n v \<noteq> None \<longleftrightarrow>
     pg_jsonb pg (raw_bytes (exe_Input n)) \<noteq> None \<and> pg_document pg (exe_Output n) \<noteq> None
     \<and> pg_failure_document (exe_Failure n) \<noteq> None \<and> pg_text_ok (exe_Logs n)"
  by (auto simp: encode_row_def split: option.splits)

definition stored_output_ok :: "pgsql \<Rightarrow> raw \<Rightarrow> bool" where
  "stored_output_ok pg out \<longleftrightarrow>
     (case pg_document pg out of
        None \<Rightarrow> False | Some None \<Rightarrow> True | Some (Some t) \<Rightarrow> pg_size pg t \<le> 4194304)"

lemma row_checks_encoded:
  assumes "encode_row pg n v = Some m" and "exec_ok n" and "stored_output_ok pg (exe_Output n)"
  shows "row_checks pg m"
  using assms
  by (auto simp: encode_row_def row_checks_def stored_output_ok_def exec_ok_def MaxLogBytes_def
      split: option.splits if_splits)

text \<open>The row of a claimed execution, after any log writes, admits the worker's result.\<close>

lemma transition_after_logs:
  assumes r: "same_identity (row_record d x) r" "exe_StartedAt r = Some t0"
    and n: "same_identity r n" "exe_StartedAt n = exe_StartedAt r" "Terminal (exe_Status n)"
    and apps: "db_app_project d2 = db_app_project d"
  shows "exec_ValidateTransitionTo
      (row_record d2 ((claim_row x t0)\<lparr>xr_logs := l, xr_version := v\<rparr>)) n = None"
proof -
  have "same_identity (row_record d x) n" using r(1) n(1) by (rule same_identity_trans)
  then show ?thesis using n(2,3) r(2) apps
    by (auto simp: exec_ValidateTransitionTo_def guard_def same_identity_def row_record_def
        claim_row_def)
qed

lemma claim_row_put:
  "x \<in> set (joined d) \<Longrightarrow> claim_row x t \<in> set (joined (put_row d (claim_row x t)))"
  by (force simp: joined_mem put_row_def claim_row_def)

lemma row_record_claim_row:
  assumes "exec_ok (row_record d x)" and "xr_status x = StatusQueued"
  shows "row_record (put_row d m) (claim_row x t) = claimed (row_record d x) t"
  using assms
  by (simp add: exec_ok_def exec_state_ok_def)
     (simp add: row_record_def claim_row_def claimed_def put_row_def)

lemma ClaimQueued_InrE:
  assumes ok: "repo_ok pg d" and claim: "execrepo_ClaimQueued pg d locked now = (d', Inr r)"
  obtains x where "x \<in> set (joined d)" "xr_status x = StatusQueued" "exec_ok (row_record d x)"
    "r = claimed (row_record d x) (postgresTime now)" "exec_ok r"
    "d' = put_row d (claim_row x (postgresTime now))"
proof -
  obtain x ys where x: "order_rows pg (queued_rows d locked) = x # ys"
    and r: "r = exec_Clone (claimed (row_record d x) (postgresTime now))"
    and valid: "exec_ok (row_record d x)" "exec_ok r"
    using ClaimQueued_InrD [OF claim] by metis
  have "x \<in> set (queued_rows d locked)" using x by (metis list.set_intros(1) set_order_rows)
  then have mem: "x \<in> set (joined d)" "xr_status x = StatusQueued" by (simp_all add: queued_rows_mem)
  have z: "\<not> is_zero now" "\<not> is_zero (postgresTime now)"
    using claim x valid(1) mem(2)
    by (auto simp: execrepo_ClaimQueued_def scanExecution_def exec_Claim_def split: if_splits)
  have "execrepo_ClaimQueued pg d locked now
      = (put_row d (claim_row x (postgresTime now)), Inr (claimed (row_record d x) (postgresTime now)))"
    using ClaimQueued_eq [OF ok z x] claim by (auto split: if_splits)
  then show thesis using that [OF mem valid(1)] claim valid(2) by simp
qed

lemma Finalize_NoneD:
  assumes "execrepo_Finalize pg d r = (d', None)"
  obtains x n where "x \<in> set (db_executions d)" "xr_id x = exe_ID r" "xr_status x = StatusRunning"
    "Terminal (exe_Status r)" "exec_ok r" "encode_row pg r (xr_version x + 1) = Some n"
    "n \<in> set (db_executions d')"
proof -
  obtain cur v where cur: "getExecution d (exe_ID r) = Inr (cur, v)"
    and tr: "exec_ValidateTransitionTo cur r = None"
    and upd: "updateExecution pg d r v StatusRunning = (d', None)"
    using assms by (auto simp: execrepo_Finalize_def split: option.splits sum.splits)
  obtain x where x: "x \<in> set (db_executions d)" "xr_id x = exe_ID r" "cur = row_record d x"
    "v = xr_version x"
    using getExecution_InrD [OF cur] by (metis joined_mem)
  note st = transition_same_identity [OF tr]
  obtain n where "exec_ok r" "encode_row pg r (v + 1) = Some n"
    "d' = d\<lparr>db_executions := map (\<lambda>x. if xr_id x = exe_ID r \<and> xr_version x = v
        \<and> xr_status x = StatusRunning then n else x) (db_executions d)\<rparr>"
    using updateExecution_NoneD [OF upd] by blast
  then show thesis using that [of x n] x st by force
qed

lemma Finalize_source:
  "execrepo_Finalize pg d r = (d', None) \<Longrightarrow>
     \<exists>x \<in> set (db_executions d). xr_id x = exe_ID r \<and> xr_status x = StatusRunning"
  by (erule Finalize_NoneD) blast

lemma Finalize_row:
  "execrepo_Finalize pg d r = (d', None) \<Longrightarrow>
     \<exists>y \<in> set (db_executions d'). xr_id y = exe_ID r \<and> Terminal (xr_status y)"
  by (erule Finalize_NoneD) (metis encode_row_Some)

lemma Finalize_error: "execrepo_Finalize pg d r = (d', Some e) \<Longrightarrow> d' = d"
  by (auto simp: execrepo_Finalize_def updateExecution_error split: option.splits sum.splits)

lemma finalize_claimed:
  assumes "jsonb_canonical pg" and ok: "repo_ok pg d"
    and claim: "execrepo_ClaimQueued pg d locked now = (d1, Inr r)"
    and fin: "exec_Succeed r out logs t = (n, None) \<or> exec_Fail r f logs t = (n, None)"
    and doc: "stored_output_ok pg (exe_Output n)" and fl: "pg_failure_document (exe_Failure n) \<noteq> None"
    and lg: "pg_text_ok (exe_Logs n)"
  shows "\<exists>v m. encode_row pg n v = Some m
    \<and> execrepo_Finalize pg (save_all d1 (exe_ID r) ls) n = (put_row (save_all d1 (exe_ID r) ls) m, None)"
proof -
  let ?d2 = "save_all d1 (exe_ID r) ls" and ?t = "postgresTime now"
  obtain x where x: "x \<in> set (joined d)" "xr_status x = StatusQueued" "exec_ok (row_record d x)"
    and r: "r = claimed (row_record d x) ?t" "exec_ok r" and d1: "d1 = put_row d (claim_row x ?t)"
    using ClaimQueued_InrE [OF ok claim] by metis
  obtain l v where y: "(claim_row x ?t)\<lparr>xr_logs := l, xr_version := v\<rparr> \<in> set (joined ?d2)"
    "exec_ok (row_record ?d2 ((claim_row x ?t)\<lparr>xr_logs := l, xr_version := v\<rparr>))"
    using save_all_row [OF claim_row_put [OF x(1)], of ?t "exe_ID r" ls] r
      row_record_claim_row [OF x(3,2), of "claim_row x ?t" ?t]
    by (auto simp: d1 claim_row_def)
  note fin = finished_record [OF fin]
  have id: "same_identity (row_record d x) r" using r by simp
  have "db_app_project ?d2 = db_app_project d" by (simp add: d1 put_row_def)
  then have tr: "exec_ValidateTransitionTo
      (row_record ?d2 ((claim_row x ?t)\<lparr>xr_logs := l, xr_version := v\<rparr>)) n = None"
    using transition_after_logs [OF id, of ?t n ?d2] fin r by (simp add: claimed_def)
  have "row_stored pg x" using ok x(1) by (auto simp: repo_ok_def list_all_iff joined_mem)
  moreover have "raw_bytes (exe_Input n) = xr_input x" "exe_ID n = xr_id x"
    using same_identity_trans [of "row_record d x" r n] id fin by (auto simp: same_identity_def)
  ultimately obtain m where m: "encode_row pg n (v + 1) = Some m"
    using encode_row_iff [of pg n "v + 1"] doc fl lg
    by (auto simp: row_stored_def stored_output_ok_def split: option.splits)
  have "repo_ok pg ?d2" using save_all_repo_ok ClaimQueued_follows [OF ok claim] by blast
  then have "execrepo_Finalize pg ?d2 n = (put_row ?d2 m, None)"
    using Finalize_ok [OF _ y _ _ tr, of pg m] fin m row_checks_encoded [OF m _ doc] \<open>exe_ID n = xr_id x\<close>
    by (simp add: claim_row_def)
  then show ?thesis using m by blast
qed

lemma sample_finish:
  "exec_Succeed (claimed (row_record sample_db sample_row) 20000) (Some ''null'') ''ab'' 30000
     = (succeeded (claimed (row_record sample_db sample_row) 20000) (Some ''null'') ''ab'' 30000, None)"
proof -
  let ?r = "claimed (row_record sample_db sample_row) 20000"
  have "exec_ok ?r" "exe_Status ?r = StatusRunning" "exe_StartedAt ?r = Some 20000"
    using sample_row_ok claimed_ok [OF sample_row_ok, of 20000] by (simp_all add: claimed_def sample_row_def)
  then show ?thesis using succeeded_ok [of ?r "Some ''null''" "''ab''" 30000]
    by (simp add: exec_Succeed_def MaxInlineOutputBytes_def MaxLogBytes_def)
qed

lemma sample_finish_stored:
  "stored_output_ok sample_pg (exe_Output (succeeded r (Some ''null'') ''ab'' t))"
  "pg_failure_document (exe_Failure (succeeded r (Some ''null'') ''ab'' t)) \<noteq> None"
  "pg_text_ok (exe_Logs (succeeded r (Some ''null'') ''ab'' t))"
proof -
  have "pg_text_ok ''ab''" unfolding pg_text_ok_def by code_simp
  then show "pg_text_ok (exe_Logs (succeeded r (Some ''null'') ''ab'' t))" by (simp add: succeeded_def)
qed (simp_all add: succeeded_def stored_output_ok_def pg_document_def pg_failure_document_def
      sample_pg_def append_nil_def)

lemma sample_claimed_id: "exe_ID (claimed (row_record sample_db sample_row) 20000) = ''exe_1''"
  by (simp add: claimed_def sample_row_def)

section \<open>Reading\<close>

lemma find_keyed:
  assumes "repo_ok pg d" and "x \<in> set (joined d)" and "P x"
  shows "find (\<lambda>y. xr_id y = xr_id x \<and> P y) (joined d) = Some x"
proof (cases "find (\<lambda>y. xr_id y = xr_id x \<and> P y) (joined d)")
  case None
  then show ?thesis using assms(2,3) by (auto simp: find_None_iff)
next
  case (Some y)
  then have "y \<in> set (joined d) \<and> xr_id y = xr_id x \<and> P y" by (rule find_SomeD)
  then show ?thesis using Some repo_ok_key [OF assms(1)] assms(2) by (auto simp: joined_mem)
qed

lemma collect_rows_Inr:
  "collect_rows d xs = Inr rs \<longleftrightarrow> rs = map (row_record d) xs \<and> (\<forall>x \<in> set xs. exec_ok (row_record d x))"
  by (induction xs arbitrary: rs)
     (auto simp: scanExecution_def split: option.splits sum.splits)

lemma collect_rows_bad:
  "x \<in> set xs \<Longrightarrow> scanExecution d x = Inl e \<Longrightarrow> \<exists>e'. collect_rows d xs = Inl e'"
  by (cases "collect_rows d xs")
     (auto simp: collect_rows_Inr scanExecution_def split: option.splits)

lemma length_order_rows [simp]: "length (order_rows pg xs) = length xs"
  by (simp add: order_rows_def)

lemma List_unlimited:
  assumes "length (db_executions d) < 2147483648"
  shows "\<exists>xs. set xs = {x \<in> set (joined d). row_org d x = Some org}
     \<and> execrepo_List pg d org [] [] [] 0 = collect_rows d xs"
proof -
  let ?xs = "filter (\<lambda>x. row_org d x = Some org) (joined d)"
  have "length ?xs \<le> length (db_executions d)"
    using length_filter_le le_trans unfolding joined_def by blast
  then have "length ?xs \<le> 2147483647" using assms by linarith
  then have "execrepo_List pg d org [] [] [] 0 = collect_rows d (rev (order_rows pg ?xs))"
    by (simp add: execrepo_List_def postgresLimit_def)
  then show ?thesis by (intro exI [of _ "rev (order_rows pg ?xs)"]) auto
qed

section \<open>Properties\<close>

text \<open>
  C25: what a worker claimed it can finish. After a claim and any number of log writes for
  that execution, the result of \<open>Succeed\<close> or \<open>Fail\<close> on the claimed record is accepted by
  \<open>Finalize\<close>, provided the server takes its document, its failure and its logs; the row
  then holds that result.
\<close>

theorem finish_persists:
  assumes "jsonb_canonical pg" and ok: "repo_ok pg d"
    and claim: "execrepo_ClaimQueued pg d locked now = (d1, Inr r)"
    and fin: "exec_Succeed r out logs t = (n, None) \<or> exec_Fail r f logs t = (n, None)"
    and doc: "stored_output_ok pg (exe_Output n)" and fl: "pg_failure_document (exe_Failure n) \<noteq> None"
    and lg: "pg_text_ok (exe_Logs n)"
  shows "\<exists>v m. encode_row pg n v = Some m
    \<and> execrepo_Finalize pg (save_all d1 (exe_ID r) ls) n = (put_row (save_all d1 (exe_ID r) ls) m, None)"
  using assms by (rule finalize_claimed)

theorem finish_persists_witness:
  "\<exists>m. execrepo_Finalize sample_pg
        (save_all (put_row sample_db (claim_row sample_row 20000)) ''exe_1'' [''a'', ''ab''])
        (succeeded (claimed (row_record sample_db sample_row) 20000) (Some ''null'') ''ab'' 30000)
      = (put_row (save_all (put_row sample_db (claim_row sample_row 20000)) ''exe_1'' [''a'', ''ab'']) m, None)"
  using finish_persists [OF sample_pg_ok(1) sample_db_ok sample_ClaimQueued disjI1 [OF sample_finish]
      sample_finish_stored, of "[''a'', ''ab'']"]
  by (auto simp: sample_claimed_id)

text \<open>
  An execution is finalized once. After a \<open>Finalize\<close> that returned no error, every
  later \<open>Finalize\<close> of the same execution fails and changes nothing, whatever happened in
  between.
\<close>

lemma Finalize_once:
  assumes "jsonb_canonical pg" and "repo_ok pg d" and "execrepo_Finalize pg d r = (d1, None)"
    and "(repo_step pg)\<^sup>*\<^sup>* d1 d2" and "exe_ID r' = exe_ID r"
  shows "\<exists>e. execrepo_Finalize pg d2 r' = (d2, Some e)"
proof -
  obtain y where y: "y \<in> set (db_executions d1)" "xr_id y = exe_ID r" "Terminal (xr_status y)"
    using Finalize_row [OF assms(3)] by auto
  have ok1: "repo_ok pg d1" using Finalize_follows [OF assms(2,3)] by simp
  note follows = repo_steps_follow [OF assms(1) ok1 assms(4)]
  then have mem: "y \<in> set (db_executions d2)"
    using y by (auto simp: table_follows_def row_follows_def)
  show ?thesis
  proof (cases "execrepo_Finalize pg d2 r'")
    case (Pair d3 e)
    show ?thesis
    proof (cases e)
      case None
      then obtain z where "z \<in> set (db_executions d2)" "xr_id z = exe_ID r'" "xr_status z = StatusRunning"
        using Finalize_source Pair by blast
      then have False using repo_ok_key [OF _ mem, of pg z] follows y assms(5) by (auto simp: Terminal_def)
      then show ?thesis ..
    next
      case (Some e')
      then show ?thesis using Pair Finalize_error by blast
    qed
  qed
qed

text \<open>
  Recovery leaves nothing running. When every running row is readable, started no
  later than the recovery and has text for logs, \<open>RecoverRunning\<close> fails exactly those rows
  with the given failure, keeps their logs, touches no other row, reports how many there
  were, and a second recovery finds none.
\<close>

lemma RecoverRunning_all:
  assumes "repo_ok pg d" and "\<not> is_zero now" and "exec_failure_Validate f = None"
    and "pg_failure f = Some f'"
    and "\<And>x. x \<in> set (db_executions d) \<Longrightarrow> xr_status x = StatusRunning \<Longrightarrow> recoverable d (postgresTime now) x"
  shows "\<exists>d'. execrepo_RecoverRunning pg d now f
        = (d', Inr (int (length (filter (\<lambda>x. xr_status x = StatusRunning) (db_executions d)))))
    \<and> db_executions d' = map (\<lambda>x. if xr_status x = StatusRunning
        then fail_row f' (postgresTime now) x else x) (db_executions d)
    \<and> execrepo_RecoverRunning pg d' now f = (d', Inr 0)"
proof -
  let ?is = "map xr_id (filter (\<lambda>x. xr_status x = StatusRunning) (db_executions d))"
  let ?d = "fail_rows f' (postgresTime now) ?is d"
  have "distinct ?is" using assms(1) by (simp add: repo_ok_def distinct_map_filter)
  moreover have "\<exists>x. xr_id x = i \<and> recoverable d (postgresTime now) x" if "i \<in> set ?is" for i
    using that assms(5) by auto
  ultimately have rec: "recover_rows pg d ?is (postgresTime now) f 0 = Inr (?d, int (length ?is))"
    using recover_rows_ok [OF assms(1) _ assms(4), of "postgresTime now" ?is 0] assms(3)
    by (simp add: exec_failure_Validate_def guard_def split: if_splits)
  have "xr_id x \<in> set ?is \<longleftrightarrow> xr_status x = StatusRunning" if "x \<in> set (db_executions d)" for x
    using that repo_ok_key [OF assms(1)] by force
  then have rows: "db_executions ?d = map (\<lambda>x. if xr_status x = StatusRunning
      then fail_row f' (postgresTime now) x else x) (db_executions d)"
    by (simp add: fail_rows_def)
  then have none: "filter (\<lambda>x. xr_status x = StatusRunning) (db_executions ?d) = []"
    by (auto simp: filter_empty_conv fail_row_def)
  show ?thesis using rec rows none assms(2,3) by (auto simp: execrepo_RecoverRunning_def)
qed

definition sample_failure :: failure where
  "sample_failure = \<lparr>fail_Code = ''worker_lost'', fail_Message = ''lost''\<rparr>"

lemma sample_failure_ok:
  "exec_failure_Validate sample_failure = None" "pg_failure sample_failure = Some sample_failure"
  by code_simp+

text \<open>
  A failure message that fills its 4096 bytes and is not valid UTF-8 makes the
  execution unreadable. \<open>Finalize\<close> accepts it, the JSON encoding replaces each stray byte by
  a three-byte character, and from then on the row fails its validation: every read of that
  execution returns an error, and so does every unlimited list that has to include it.
\<close>

lemma Finalize_unreadable:
  assumes "execrepo_Finalize pg d r = (d', None)" and "repo_ok pg d"
    and "exe_Failure r = Some f"
    and "length (fail_Message f) = 4096" and "\<not> valid_utf8 (fail_Message f)"
    and "length (db_executions d') < 2147483648"
    and "db_app_project d' (exe_AppID r) = Some p" and "db_project_org d' p = Some org"
  shows "(\<exists>e. execrepo_GetByID d' org (exe_ID r) = Inl e)
    \<and> (\<exists>e. execrepo_List pg d' org [] [] [] 0 = Inl e)"
proof -
  have ok: "repo_ok pg d'" using Finalize_follows [OF assms(2,1)] by simp
  obtain v n where n: "encode_row pg r v = Some n" "n \<in> set (db_executions d')"
    using Finalize_NoneD [OF assms(1)] by metis
  have "\<exists>c. xr_failure n = Some \<lparr>fail_Code = c, fail_Message = sanitize (fail_Message f)\<rparr>"
    using n(1) assms(3)
    by (auto simp: encode_row_def pg_failure_document_def pg_failure_def split: option.splits if_splits)
  moreover have "length (sanitize (fail_Message f)) > 4096"
    using sanitize_grows [OF assms(5)] assms(4) by simp
  ultimately have bad: "\<not> exec_ok (row_record d' n)"
    by (auto simp: exec_ok_def exec_state_ok_def row_record_def bad_failure_def split: exec_status.splits)
  then have scan: "\<exists>e. scanExecution d' n = Inl e" by (auto simp: scanExecution_def split: option.splits)
  have mem: "n \<in> set (joined d')" and org: "row_org d' n = Some org" and id: "xr_id n = exe_ID r"
    using n encode_row_Some [OF n(1)] assms(7,8) by (auto simp: joined_mem row_org_def)
  have "find (\<lambda>x. xr_id x = exe_ID r \<and> row_org d' x = Some org) (joined d') = Some n"
    using find_keyed [OF ok mem, of "\<lambda>x. row_org d' x = Some org"] org id by simp
  then have "\<exists>e. execrepo_GetByID d' org (exe_ID r) = Inl e"
    using scan by (auto simp: execrepo_GetByID_def)
  moreover have "\<exists>e. execrepo_List pg d' org [] [] [] 0 = Inl e"
  proof -
    obtain xs where xs: "set xs = {x \<in> set (joined d'). row_org d' x = Some org}"
      "execrepo_List pg d' org [] [] [] 0 = collect_rows d' xs"
      using List_unlimited [OF assms(6)] by metis
    then have "n \<in> set xs" using mem org by simp
    then show ?thesis using scan xs(2) collect_rows_bad by metis
  qed
  ultimately show ?thesis by blast
qed

definition long_failure :: failure where
  "long_failure = \<lparr>fail_Code = ''x'', fail_Message = CHR 0xFF # replicate 4095 CHR 0x61\<rparr>"

lemma long_failure_ok: "\<not> bad_failure long_failure" "\<not> valid_utf8 (fail_Message long_failure)"
  "length (fail_Message long_failure) = 4096" "pg_failure long_failure \<noteq> None"
proof -
  let ?m = "CHR 0xFF # replicate 4095 CHR 0x61"
  have "leading_space ?m = None"
    by (simp add: leading_space_None_iff space_encodings_def)
  then have "trim_space ?m \<noteq> []" by (intro trim_space_nonempty) simp_all
  then show "\<not> bad_failure long_failure" by (simp add: bad_failure_def long_failure_def)
  show "\<not> valid_utf8 (fail_Message long_failure)"
    by (simp add: long_failure_def valid_utf8.simps utf8_next.simps byte_val_def)
qed (simp_all add: long_failure_def pg_failure_def)

lemma sample_fail:
  "exec_Fail (claimed (row_record sample_db sample_row) 20000) long_failure [] 30000
     = (failed (claimed (row_record sample_db sample_row) 20000) long_failure [] 30000, None)"
proof -
  let ?r = "claimed (row_record sample_db sample_row) 20000"
  have "exec_ok ?r" "exe_Status ?r = StatusRunning" "exe_StartedAt ?r = Some 20000"
    using sample_row_ok claimed_ok [OF sample_row_ok, of 20000] by (simp_all add: claimed_def sample_row_def)
  then show ?thesis using failed_ok [of ?r long_failure "[]" 30000] long_failure_ok(1)
    by (simp add: exec_Fail_def MaxLogBytes_def)
qed

text \<open>
  \<open>List\<close> returns valid records of the caller's organization only, that match the
  filters given, at most as many as asked for, the newest first.
\<close>

lemma List_isolated:
  assumes "collation pg" and "execrepo_List pg d org projectID appID buildID limit = Inr rs"
  shows "(\<forall>r \<in> set rs. exec_Validate r = None \<and> db_project_org d (exe_ProjectID r) = Some org
        \<and> (projectID \<noteq> [] \<longrightarrow> exe_ProjectID r = projectID)
        \<and> (appID \<noteq> [] \<longrightarrow> exe_AppID r = appID) \<and> (buildID \<noteq> [] \<longrightarrow> exe_BuildID r = buildID))
    \<and> (0 < limit \<and> limit < 2147483648 \<longrightarrow> int (length rs) \<le> limit)
    \<and> sorted_wrt (\<lambda>r r'. exe_CreatedAt r' \<le> exe_CreatedAt r) rs"
proof -
  let ?P = "\<lambda>x. (projectID = [] \<or> db_app_project d (xr_app_id x) = Some projectID)
    \<and> (appID = [] \<or> xr_app_id x = appID) \<and> (buildID = [] \<or> xr_build_id x = buildID)
    \<and> row_org d x = Some org"
  let ?xs = "take (unat (postgresLimit limit)) (rev (order_rows pg (filter ?P (joined d))))"
  have rs: "rs = map (row_record d) ?xs" "\<forall>x \<in> set ?xs. exec_ok (row_record d x)"
    using assms(2) by (simp_all add: execrepo_List_def collect_rows_Inr)
  have mem: "?P x" if "x \<in> set ?xs" for x
    using in_set_takeD [OF that] by simp
  have "exec_Validate r = None \<and> db_project_org d (exe_ProjectID r) = Some org
        \<and> (projectID \<noteq> [] \<longrightarrow> exe_ProjectID r = projectID)
        \<and> (appID \<noteq> [] \<longrightarrow> exe_AppID r = appID) \<and> (buildID \<noteq> [] \<longrightarrow> exe_BuildID r = buildID)"
    if "r \<in> set rs" for r
  proof -
    obtain x where x: "x \<in> set ?xs" "r = row_record d x" using \<open>r \<in> set rs\<close> rs(1) by auto
    have "exe_ProjectID r = (case db_app_project d (xr_app_id x) of None \<Rightarrow> [] | Some p \<Rightarrow> p)"
      by (simp add: x(2) row_record_def)
    then show ?thesis using mem [OF x(1)] rs(2) x
      by (auto simp: row_org_def split: option.splits)
  qed
  moreover have "int (length rs) \<le> limit" if "0 < limit" "limit < 2147483648"
  proof -
    have "unat (word_of_int limit :: 32 word) = nat limit"
      using that by (simp add: unat_eq_nat_uint uint_word_of_int)
    then show ?thesis using that rs(1) by (simp add: postgresLimit_def)
  qed
  moreover have "sorted_wrt (\<lambda>x y. xr_created_at y \<le> xr_created_at x) ?xs"
    using sorted_order_by [OF assms(1), of xr_created_at xr_id "filter ?P (joined d)"]
    by (intro sorted_wrt_take)
       (auto simp: sorted_wrt_rev older_def order_rows_def elim!: sorted_wrt_mono_rel [rotated])
  then have "sorted_wrt (\<lambda>r r'. exe_CreatedAt r' \<le> exe_CreatedAt r) rs"
    by (simp add: rs(1) sorted_wrt_map)
  ultimately show ?thesis by blast
qed

end
