(* ===== verification/Services.thy ===== *)
theory Services
  imports Projects ExecutionStore
begin

text \<open>
  The entry points that queue work: \<open>internal/service/execution.go\<close>, \<open>deployment.go\<close>,
  \<open>build.go\<close>, and \<open>NormalizeInput\<close> of \<open>internal/domain/execution\<close>. An operation that reads
  before it writes takes the state of the reads, \<open>seen\<close>, apart from the state \<open>d\<close> it writes.
  The theorems say that work is queued only for apps of the caller's organization, on the
  build the app is on, and that no operation for one organization touches what another has.
\<close>

section \<open>Input\<close>

text \<open>
  \<open>NormalizeInput\<close>. Decoding one value and finding only space after it succeeds exactly on
  the texts \<open>json.Valid\<close> accepts; what \<open>json.Marshal\<close> renders for the decoded value is the
  argument \<open>compact\<close>.
\<close>

definition NormalizeInput :: "(string \<Rightarrow> string) \<Rightarrow> raw \<Rightarrow> int \<Rightarrow> raw result" where
  "NormalizeInput compact raw maximumBytes =
     check (first_err [
       guard (maximumBytes < 1) (wrapf Execution_ErrInvalid ''JSON byte limit must be positive''),
       guard (int (length (raw_bytes raw)) > maximumBytes) (wrapf Execution_ErrInvalid ''input exceeds the limit''),
       guard (\<not> json_valid (raw_bytes raw)) (wrapf Execution_ErrInvalid ''malformed JSON''),
       guard (int (length (compact (raw_bytes raw))) > maximumBytes)
         (wrapf Execution_ErrInvalid ''input exceeds the limit'')])
     (Inr (Some (compact (raw_bytes raw))))"

section \<open>Executions\<close>

definition DefaultMaxExecutionInputBytes :: int where
  "DefaultMaxExecutionInputBytes = 1048576"

definition NewExecutionService :: "int \<Rightarrow> int result" where
  "NewExecutionService maxInputBytes =
     (if maxInputBytes < 0 then Inl (Plain ''maximum execution input bytes cannot be negative'')
      else Inr (if maxInputBytes = 0 then DefaultMaxExecutionInputBytes else maxInputBytes))"

text \<open>The execution repository works on the tables below the deployments.\<close>

definition exec_tables :: "pdb \<Rightarrow> db" where
  "exec_tables d = db.truncate (pd_db d)"

definition put_execs :: "pdb \<Rightarrow> db \<Rightarrow> pdb" where
  "put_execs d x = d\<lparr>pd_db := (pd_db d)\<lparr>db_executions := db_executions x\<rparr>\<rparr>"

definition exec_allocateID :: "string result \<Rightarrow> string result" where
  "exec_allocateID newID =
     (case newID of
        Inl e \<Rightarrow> Inl (annotate ''allocate execution ID'' e)
      | Inr v \<Rightarrow> check (rethrow Execution_ErrInvalid (ids_Validate ''execution_id'' v)) (Inr v))"

definition queue_execution :: "pgsql \<Rightarrow> pdb \<Rightarrow> string \<Rightarrow> execution result \<Rightarrow> pdb \<times> execution result" where
  "queue_execution pg d what queued =
     (case queued of
        Inl e \<Rightarrow> (d, Inl e)
      | Inr r \<Rightarrow>
          (case execrepo_Create pg (exec_tables d) r of
             (x, Some e) \<Rightarrow> (put_execs d x, Inl (annotate what e))
           | (x, None) \<Rightarrow> (put_execs d x, Inr r)))"

record exec_request =
  eq_AppID :: string
  eq_Input :: raw

definition exesvc_Create ::
  "pgsql \<Rightarrow> (string \<Rightarrow> string) \<Rightarrow> int \<Rightarrow> pdb \<Rightarrow> pdb \<Rightarrow> string result \<Rightarrow> time \<Rightarrow> string \<Rightarrow> exec_request
     \<Rightarrow> pdb \<times> execution result"
where
  "exesvc_Create pg compact maxInputBytes seen d newID now organizationID request =
     queue_execution pg d ''persist queued execution''
       (check (rethrow Execution_ErrInvalid (ids_Validate ''app_id'' (eq_AppID request)))
         (rbind (NormalizeInput compact (eq_Input request) maxInputBytes) (\<lambda>inp.
           rbind (ActiveForApp pg (pd_db seen) organizationID (eq_AppID request)) (\<lambda>(produced, projectID).
             rbind (exec_allocateID newID) (\<lambda>i.
               exec_New i projectID (bld_AppID produced) (bld_ID produced) inp now)))))"

definition exesvc_Get :: "pdb \<Rightarrow> string \<Rightarrow> string \<Rightarrow> execution result" where
  "exesvc_Get d organizationID executionID =
     check (rethrow Execution_ErrInvalid (ids_Validate ''execution_id'' executionID))
       (execrepo_GetByID (exec_tables d) organizationID executionID)"

text \<open>The loop of \<open>List\<close> ranges over a map; its errors all wrap the same sentinel.\<close>

definition exesvc_List ::
  "pgsql \<Rightarrow> pdb \<Rightarrow> string \<Rightarrow> string \<Rightarrow> string \<Rightarrow> string \<Rightarrow> int \<Rightarrow> execution list result"
where
  "exesvc_List pg d organizationID projectID appID buildID limit =
     check (first_err (validateLimit limit #
         map (\<lambda>(field, v). if v = [] then None else rethrow Execution_ErrInvalid (ids_Validate field v))
           [(''project_id'', projectID), (''app_id'', appID), (''build_id'', buildID)]))
       (execrepo_List pg (exec_tables d) organizationID projectID appID buildID limit)"

definition exesvc_Rerun ::
  "pgsql \<Rightarrow> pdb \<Rightarrow> pdb \<Rightarrow> string result \<Rightarrow> time \<Rightarrow> string \<Rightarrow> string \<Rightarrow> pdb \<times> execution result"
where
  "exesvc_Rerun pg seen d newID now organizationID executionID =
     queue_execution pg d ''persist queued rerun''
       (rbind (exesvc_Get seen organizationID executionID) (\<lambda>original.
         rbind (buildrepo_Get (pd_db seen) organizationID (exe_BuildID original)) (\<lambda>b.
           rbind (exec_allocateID newID) (\<lambda>i. exec_Rerun original i now))))"

section \<open>Deployments and builds\<close>

record deployment_request =
  dq_AppID :: string
  dq_Runtime :: runtime
  dq_CommitSHA :: string
  dq_GitRef :: string

definition depsvc_allocateID :: "string \<Rightarrow> string result \<Rightarrow> string result" where
  "depsvc_allocateID pre newID =
     (case newID of
        Inl e \<Rightarrow> Inl (annotate (''allocate '' @ pre @ '' ID'') e)
      | Inr v \<Rightarrow> check (dep_ValidateIdentifier (pre @ ''_id'') v) (Inr v))"

definition depsvc_Create ::
  "pdb \<Rightarrow> pdb \<Rightarrow> string result \<Rightarrow> time \<Rightarrow> string \<Rightarrow> deployment_request \<Rightarrow> pdb \<times> deployment result"
where
  "depsvc_Create seen d newID now organizationID request =
     (case check (dep_ValidateIdentifier ''app_id'' (dq_AppID request))
             (rbind (apprepo_GetByID seen organizationID (dq_AppID request)) (\<lambda>app.
               check (guard (\<not> runtime_Valid (dq_Runtime request))
                       (wrapf Deployment_ErrInvalid ''runtime must be python, rust, go, ruby or node''))
                 (rbind (depsvc_allocateID ''dep'' newID) (\<lambda>i.
                   dep_New i (app_ProjectID app) (app_ID app) (dq_Runtime request) now)))) of
        Inl e \<Rightarrow> (d, Inl e)
      | Inr r \<Rightarrow>
          let record = FromGit r (dq_CommitSHA request) (dq_GitRef request) in
          (case deprepo_Save (pd_db d) record of
             (x, Some e) \<Rightarrow> (d\<lparr>pd_db := x\<rparr>, Inl (annotate ''persist queued deployment'' e))
           | (x, None) \<Rightarrow> (d\<lparr>pd_db := x\<rparr>, Inr record)))"

definition depsvc_List ::
  "pgsql \<Rightarrow> pdb \<Rightarrow> pdb \<Rightarrow> string \<Rightarrow> string \<Rightarrow> string \<Rightarrow> int \<Rightarrow> deployment list result"
where
  "depsvc_List pg seen d organizationID projectID appID limit =
     check (validateLimit limit)
       (check (if appID = [] then None
               else case apprepo_GetByID seen organizationID appID of Inl e \<Rightarrow> Some e | Inr a \<Rightarrow> None)
         (deprepo_List pg (pd_db d) organizationID projectID appID limit))"

definition buildsvc_List ::
  "pgsql \<Rightarrow> pdb \<Rightarrow> string \<Rightarrow> string \<Rightarrow> string \<Rightarrow> int \<Rightarrow> build list result"
where
  "buildsvc_List pg d organizationID appID deploymentID limit =
     check (validateLimit limit) (buildrepo_List pg (pd_db d) organizationID appID deploymentID limit)"

end
