(* ===== verification/CopyHash.thy ===== *)
theory CopyHash
  imports Prelude Sha256
begin

text \<open>
  \<open>internal/files/copy.go\<close>: the bounded copy every artifact goes through. A reader is the
  list of what its calls hand over: bytes, and an error with the last of them; a call that
  asks for fewer bytes gets a part, and after the end every call returns \<open>io.EOF\<close>. A
  writer takes bytes up to a capacity and then fails, as a full disk does. \<open>ctx\<close> says at
  which iteration the context is found cancelled.
\<close>

text \<open>The verb \<open>%d\<close> of a number that is not negative.\<close>

fun decimal :: "nat \<Rightarrow> string" where
  "decimal n =
     (if n < 10 then [''0123456789'' ! n] else decimal (n div 10) @ [''0123456789'' ! (n mod 10)])"

declare decimal.simps [simp del]

datatype read_err = EOF | ReadFailed string

type_synonym reader = "(string \<times> read_err option) list"

fun read_some :: "reader \<Rightarrow> nat \<Rightarrow> string \<times> read_err option \<times> reader" where
  "read_some [] n = ([], Some EOF, [])"
| "read_some ((bs, e) # r) n =
     (if length bs \<le> n then (bs, e, if e = None then r else [([], e)])
      else (take n bs, None, (drop n bs, e) # r))"

text \<open>What a reader delivers before its first error, and that error.\<close>

fun reader_bytes :: "reader \<Rightarrow> string" where
  "reader_bytes [] = []"
| "reader_bytes ((bs, None) # r) = bs @ reader_bytes r"
| "reader_bytes ((bs, Some e) # r) = bs"

fun reader_end :: "reader \<Rightarrow> read_err" where
  "reader_end [] = EOF"
| "reader_end ((bs, None) # r) = reader_end r"
| "reader_end ((bs, Some e) # r) = e"

record writer =
  wr_bytes :: string
  wr_room :: "nat option"

definition write_all :: "writer \<Rightarrow> string \<Rightarrow> nat \<times> bool \<times> writer" where
  "write_all w bs =
     (case wr_room w of
        None \<Rightarrow> (length bs, True, w\<lparr>wr_bytes := wr_bytes w @ bs\<rparr>)
      | Some k \<Rightarrow>
          if length bs \<le> k
          then (length bs, True, w\<lparr>wr_bytes := wr_bytes w @ bs, wr_room := Some (k - length bs)\<rparr>)
          else (k, False, w\<lparr>wr_bytes := wr_bytes w @ take k bs, wr_room := Some 0\<rparr>))"

definition copyBufferSize :: nat where
  "copyBufferSize = 32768"

record copy_result =
  cr_SizeBytes :: nat
  cr_SHA256 :: string

record copy_state =
  cs_reader :: reader
  cs_writer :: writer
  cs_hashed :: string
  cs_size :: nat
  cs_empty :: nat

definition copy_outcome :: "copy_state \<Rightarrow> go_err \<Rightarrow> copy_result \<times> go_err \<times> writer" where
  "copy_outcome st err =
     (\<lparr>cr_SizeBytes = cs_size st, cr_SHA256 = sha256_hex (cs_hashed st)\<rparr>, err, cs_writer st)"

definition read_error :: "read_err \<Rightarrow> go_err" where
  "read_error e = (case e of EOF \<Rightarrow> None | ReadFailed m \<Rightarrow> Some (Plain m))"

text \<open>
  The body of the loop. \<open>Inl\<close> goes on, \<open>Inr\<close> returns. \<open>io.MultiWriter\<close> writes to the
  destination first and to the digest only when that took everything.
\<close>

definition copy_probe :: "nat \<Rightarrow> copy_state \<Rightarrow> copy_state + copy_result \<times> go_err \<times> writer" where
  "copy_probe maxBytes st =
     (case read_some (cs_reader st) 1 of (bs, e, r) \<Rightarrow>
        if bs \<noteq> []
        then Inr (copy_outcome (st\<lparr>cs_reader := r\<rparr>) (Some (wrapf Files_ErrByteLimitExceeded (''limit '' @ decimal maxBytes))))
        else case e of
          Some e' \<Rightarrow> Inr (copy_outcome (st\<lparr>cs_reader := r\<rparr>) (read_error e'))
        | None \<Rightarrow>
            if cs_empty st + 1 \<ge> 100
            then Inr (copy_outcome (st\<lparr>cs_reader := r\<rparr>) (Some (Bare Io_ErrNoProgress)))
            else Inl (st\<lparr>cs_reader := r, cs_empty := cs_empty st + 1\<rparr>))"

definition copy_chunk :: "nat \<Rightarrow> copy_state \<Rightarrow> copy_state + copy_result \<times> go_err \<times> writer" where
  "copy_chunk maxBytes st =
     (case read_some (cs_reader st) (min copyBufferSize (maxBytes - cs_size st)) of (bs, e, r) \<Rightarrow>
        if bs = []
        then (case e of
                Some e' \<Rightarrow> Inr (copy_outcome (st\<lparr>cs_reader := r\<rparr>) (read_error e'))
              | None \<Rightarrow>
                  if cs_empty st + 1 \<ge> 100
                  then Inr (copy_outcome (st\<lparr>cs_reader := r\<rparr>) (Some (Bare Io_ErrNoProgress)))
                  else Inl (st\<lparr>cs_reader := r, cs_empty := cs_empty st + 1\<rparr>))
        else case write_all (cs_writer st) bs of (written, fine, w) \<Rightarrow>
          (let st' = st\<lparr>cs_reader := r, cs_writer := w, cs_size := cs_size st + written, cs_empty := 0,
                        cs_hashed := (if fine then cs_hashed st @ bs else cs_hashed st)\<rparr> in
           if \<not> fine then Inr (copy_outcome st' (Some (Plain ''write'')))
           else case e of
             Some e' \<Rightarrow> Inr (copy_outcome st' (read_error e'))
           | None \<Rightarrow> Inl st'))"

definition copy_step :: "nat \<Rightarrow> copy_state \<Rightarrow> copy_state + copy_result \<times> go_err \<times> writer" where
  "copy_step maxBytes st =
     (if maxBytes - cs_size st = 0 then copy_probe maxBytes st else copy_chunk maxBytes st)"

lemma read_some_length: "read_some r n = (bs, e, r') \<Longrightarrow> length bs \<le> n"
  by (cases r rule: reader_bytes.cases) (auto split: if_splits)

definition copy_measure :: "nat \<Rightarrow> copy_state \<Rightarrow> nat" where
  "copy_measure maxBytes st = (maxBytes - cs_size st) * 101 + (100 - cs_empty st)"

lemma write_all_fine: "write_all w bs = (n, True, w') \<Longrightarrow> n = length bs"
  by (auto simp: write_all_def split: option.splits if_splits)

lemma copy_step_measure:
  assumes "copy_step maxBytes st = Inl st'"
  shows "copy_measure maxBytes st' < copy_measure maxBytes st"
proof (cases "maxBytes - cs_size st = 0")
  case True
  then show ?thesis using assms
    by (auto simp: copy_step_def copy_probe_def copy_measure_def
        split: prod.splits if_splits option.splits)
next
  case room: False
  obtain bs e r where rd: "read_some (cs_reader st) (min copyBufferSize (maxBytes - cs_size st)) = (bs, e, r)"
    by (metis prod_cases3)
  show ?thesis
  proof (cases "bs = []")
    case True
    then show ?thesis using assms room rd
      by (auto simp: copy_step_def copy_chunk_def copy_measure_def split: if_splits option.splits)
  next
    case False
    obtain n w where wr: "write_all (cs_writer st) bs = (n, True, w)"
      and st': "cs_size st' = cs_size st + n" "cs_empty st' = 0"
      using assms room rd False
      by (auto simp: copy_step_def copy_chunk_def split: prod.splits if_splits option.splits)
    have "n = length bs" using write_all_fine [OF wr] .
    moreover have "0 < length bs" "length bs \<le> maxBytes - cs_size st"
      using False read_some_length [OF rd] by auto
    moreover have "maxBytes - cs_size st' + length bs = maxBytes - cs_size st"
      using st'(1) calculation by simp
    ultimately show ?thesis using st'(2) unfolding copy_measure_def by linarith
  qed
qed

text \<open>
  \<open>CopyAndHashContext\<close>: \<open>ctx k\<close> is the error of the context before iteration \<open>k\<close>. The loop
  ends for every reader, because each pass makes progress or is one of at most a hundred
  empty ones.
\<close>

function copy_loop :: "(nat \<Rightarrow> go_err) \<Rightarrow> nat \<Rightarrow> nat \<Rightarrow> copy_state \<Rightarrow> copy_result \<times> go_err \<times> writer"
where
  "copy_loop ctx k maxBytes st =
     (case ctx k of
        Some e \<Rightarrow> copy_outcome st (Some e)
      | None \<Rightarrow>
          (case copy_step maxBytes st of
             Inr res \<Rightarrow> res
           | Inl st' \<Rightarrow> copy_loop ctx (Suc k) maxBytes st'))"
  by pat_completeness auto

termination copy_loop
  by (relation "measure (\<lambda>(ctx, k, maxBytes, st). copy_measure maxBytes st)")
     (auto intro: copy_step_measure)

declare copy_loop.simps [simp del]

definition CopyAndHashContext ::
  "(nat \<Rightarrow> go_err) \<Rightarrow> writer \<Rightarrow> reader \<Rightarrow> int \<Rightarrow> copy_result \<times> go_err \<times> writer"
where
  "CopyAndHashContext ctx destination source maxBytes =
     (if maxBytes < 0
      then (\<lparr>cr_SizeBytes = 0, cr_SHA256 = []\<rparr>, Some (Plain ''artifact: byte limit cannot be negative''), destination)
      else copy_loop ctx 0 (nat maxBytes)
             \<lparr>cs_reader = source, cs_writer = destination, cs_hashed = [], cs_size = 0, cs_empty = 0\<rparr>)"

definition CopyAndHash :: "writer \<Rightarrow> reader \<Rightarrow> int \<Rightarrow> copy_result \<times> go_err \<times> writer" where
  "CopyAndHash = CopyAndHashContext (\<lambda>k. None)"

text \<open>\<open>HashFile\<close> of a file with the given contents, regular or not.\<close>

definition HashFile :: "bool \<Rightarrow> string \<Rightarrow> int \<Rightarrow> copy_result \<times> go_err" where
  "HashFile regular contents maxBytes =
     (if \<not> regular
      then (\<lparr>cr_SizeBytes = 0, cr_SHA256 = []\<rparr>, Some (Plain ''is not a regular file''))
      else if 0 \<le> maxBytes \<and> int (length contents) > maxBytes
      then (\<lparr>cr_SizeBytes = 0, cr_SHA256 = []\<rparr>, Some (wrapf Files_ErrByteLimitExceeded
              (''file size '' @ decimal (length contents) @ '', limit '' @ decimal (nat maxBytes))))
      else case CopyAndHash \<lparr>wr_bytes = [], wr_room = None\<rparr> [(contents, None)] maxBytes of
        (res, err, w) \<Rightarrow> (res, err))"

section \<open>What the copy does\<close>

lemma read_some_spec:
  assumes "read_some r n = (bs, e, r')"
  shows "(e = None \<longrightarrow> reader_bytes r = bs @ reader_bytes r' \<and> reader_end r' = reader_end r)
    \<and> (\<forall>x. e = Some x \<longrightarrow> reader_bytes r = bs \<and> reader_end r = x)"
  using assms by (cases r rule: reader_bytes.cases) (auto split: if_splits)

text \<open>
  The invariant of the loop, for a writer that started empty: what was written is the first
  \<open>size\<close> bytes of the source, within the limit, and what was hashed is what was written.
\<close>

definition copied :: "nat \<Rightarrow> string \<Rightarrow> read_err \<Rightarrow> copy_state \<Rightarrow> bool" where
  "copied maxBytes content fin st \<longleftrightarrow>
     content = wr_bytes (cs_writer st) @ reader_bytes (cs_reader st) \<and> reader_end (cs_reader st) = fin
     \<and> cs_size st = length (wr_bytes (cs_writer st)) \<and> cs_size st \<le> maxBytes
     \<and> cs_hashed st = wr_bytes (cs_writer st)"

definition copy_ends :: "nat \<Rightarrow> string \<Rightarrow> read_err \<Rightarrow> copy_result \<times> go_err \<times> writer \<Rightarrow> bool" where
  "copy_ends maxBytes content fin res \<longleftrightarrow>
     (case res of (r, err, w) \<Rightarrow>
        prefix (wr_bytes w) content \<and> length (wr_bytes w) \<le> maxBytes
        \<and> cr_SizeBytes r = length (wr_bytes w)
        \<and> (err = None \<longrightarrow> wr_bytes w = content \<and> fin = EOF \<and> cr_SHA256 r = sha256_hex content)
        \<and> (\<forall>e. err = Some e \<and> errors_is e Files_ErrByteLimitExceeded \<longrightarrow>
             length content > maxBytes \<and> wr_bytes w = take maxBytes content))"

lemma read_error_None [simp]: "read_error e = None \<longleftrightarrow> e = EOF"
  by (simp add: read_error_def split: read_err.splits)

lemma read_error_plain: "read_error e = Some x \<Longrightarrow> \<not> errors_is x s"
  by (auto simp: read_error_def split: read_err.splits)

lemma copy_probe_ends:
  assumes "copied maxBytes content fin st" and "maxBytes - cs_size st = 0"
    and "copy_probe maxBytes st = Inr res"
  shows "copy_ends maxBytes content fin res"
proof -
  obtain bs e r where rd: "read_some (cs_reader st) 1 = (bs, e, r)" by (metis prod_cases3)
  note spec = read_some_spec [OF rd]
  show ?thesis using assms spec rd
    by (cases bs; cases e)
       (auto simp: copy_probe_def copied_def copy_ends_def copy_outcome_def Bare_def
          dest: read_error_plain split: if_splits)
qed

lemma copy_probe_continues:
  assumes "copied maxBytes content fin st" and "copy_probe maxBytes st = Inl st'"
  shows "copied maxBytes content fin st'"
proof -
  obtain bs e r where rd: "read_some (cs_reader st) 1 = (bs, e, r)" by (metis prod_cases3)
  show ?thesis using assms read_some_spec [OF rd] rd
    by (cases bs; cases e) (auto simp: copy_probe_def copied_def split: if_splits)
qed

lemma write_all_spec:
  "write_all w bs = (n, fine, w') \<Longrightarrow>
     wr_bytes w' = wr_bytes w @ take n bs \<and> n \<le> length bs \<and> (fine \<longrightarrow> n = length bs)"
  by (auto simp: write_all_def split: option.splits if_splits)

lemma copy_chunk_cases:
  assumes inv: "copied maxBytes content fin st"
  shows "(\<forall>st'. copy_chunk maxBytes st = Inl st' \<longrightarrow> copied maxBytes content fin st')
    \<and> (\<forall>res. copy_chunk maxBytes st = Inr res \<longrightarrow> copy_ends maxBytes content fin res)"
proof -
  obtain bs e r where rd: "read_some (cs_reader st) (min copyBufferSize (maxBytes - cs_size st)) = (bs, e, r)"
    by (metis prod_cases3)
  note spec = read_some_spec [OF rd]
  have room: "length bs \<le> maxBytes - cs_size st" using read_some_length [OF rd] by simp
  obtain n fine w where wr: "write_all (cs_writer st) bs = (n, fine, w)" by (metis prod_cases3)
  note wspec = write_all_spec [OF wr]
  show ?thesis
  proof (cases "bs = []")
    case True
    then show ?thesis using inv spec rd
      by (cases e) (auto simp: copy_chunk_def copied_def copy_ends_def copy_outcome_def Bare_def
          dest: read_error_plain)
  next
    case False
    show ?thesis
    proof (cases fine)
      case True
      then show ?thesis using inv spec rd wr wspec room False
        by (cases e) (auto simp: copy_chunk_def copied_def copy_ends_def copy_outcome_def
            dest: read_error_plain)
    next
      case broken: False
      then have "prefix (wr_bytes (cs_writer st) @ take n bs) content"
        using inv spec take_is_prefix [of n bs] by (cases e) (auto simp: copied_def prefix_prefix)
      then show ?thesis using inv rd wr wspec room False broken
        by (auto simp: copy_chunk_def copied_def copy_ends_def copy_outcome_def)
    qed
  qed
qed

lemma copy_loop_ends:
  assumes "copied maxBytes content fin st"
    and "\<And>k e. ctx k = Some e \<Longrightarrow> \<not> errors_is e Files_ErrByteLimitExceeded"
  shows "copy_ends maxBytes content fin (copy_loop ctx k maxBytes st)"
  using assms
proof (induction ctx k maxBytes st rule: copy_loop.induct)
  case (1 ctx k maxBytes st)
  show ?case
  proof (cases "ctx k")
    case (Some e)
    then show ?thesis using 1(2,3)
      by (auto simp: copy_loop.simps [of ctx k] copied_def copy_ends_def copy_outcome_def)
  next
    case None
    have step: "(\<forall>st'. copy_step maxBytes st = Inl st' \<longrightarrow> copied maxBytes content fin st')
      \<and> (\<forall>res. copy_step maxBytes st = Inr res \<longrightarrow> copy_ends maxBytes content fin res)"
      using copy_chunk_cases [OF 1(2)] copy_probe_ends [OF 1(2)] copy_probe_continues [OF 1(2)]
      by (simp add: copy_step_def)
    show ?thesis
    proof (cases "copy_step maxBytes st")
      case (Inl st')
      then show ?thesis using 1(1) [OF None Inl] step 1(3) None by (simp add: copy_loop.simps [of ctx k])
    next
      case (Inr res)
      then show ?thesis using step None by (simp add: copy_loop.simps [of ctx k])
    qed
  qed
qed

text \<open>A copy that returned no error copied everything, whatever the context may have returned.\<close>

lemma copy_loop_whole:
  assumes "copied maxBytes content fin st" and "copy_loop ctx k maxBytes st = (res, None, w)"
  shows "wr_bytes w = content \<and> fin = EOF \<and> cr_SizeBytes res = length content
    \<and> cr_SHA256 res = sha256_hex content"
  using assms
proof (induction ctx k maxBytes st rule: copy_loop.induct)
  case (1 ctx k maxBytes st)
  have none: "ctx k = None" using 1(3) by (cases "ctx k") (auto simp: copy_loop.simps [of ctx k] copy_outcome_def)
  show ?case
  proof (cases "copy_step maxBytes st")
    case (Inl st')
    have "copied maxBytes content fin st'"
      using copy_chunk_cases [OF 1(2)] copy_probe_continues [OF 1(2)] Inl by (auto simp: copy_step_def split: if_splits)
    then show ?thesis using 1(1) [OF none Inl] 1(3) Inl none by (simp add: copy_loop.simps [of ctx k])
  next
    case (Inr r)
    have "copy_ends maxBytes content fin r"
      using copy_chunk_cases [OF 1(2)] copy_probe_ends [OF 1(2)] Inr
      by (cases r) (auto simp: copy_step_def split: if_splits)
    then show ?thesis using 1(3) Inr none by (auto simp: copy_loop.simps [of ctx k] copy_ends_def)
  qed
qed

lemma CopyAndHashContext_whole:
  assumes "CopyAndHashContext ctx \<lparr>wr_bytes = [], wr_room = room\<rparr> source maxBytes = (res, None, w)"
  shows "wr_bytes w = reader_bytes source \<and> reader_end source = EOF
    \<and> cr_SizeBytes res = length (reader_bytes source) \<and> cr_SHA256 res = sha256_hex (reader_bytes source)"
proof (cases "maxBytes < 0")
  case True
  then show ?thesis using assms by (simp add: CopyAndHashContext_def)
next
  case False
  then show ?thesis using assms
    by (intro copy_loop_whole [of "nat maxBytes" _ _ "\<lparr>cs_reader = source,
        cs_writer = \<lparr>wr_bytes = [], wr_room = room\<rparr>, cs_hashed = [], cs_size = 0, cs_empty = 0\<rparr>" ctx 0])
       (simp_all add: copied_def CopyAndHashContext_def)
qed

text \<open>
  A source that is never empty a hundred times in a row, after \<open>k\<close> empty calls, and a writer with
  room for \<open>n\<close> bytes.
\<close>

fun steady :: "nat \<Rightarrow> reader \<Rightarrow> bool" where
  "steady k [] = True"
| "steady k ((bs, Some e) # r) = True"
| "steady k ((bs, None) # r) = (if bs = [] then k + 1 < 100 \<and> steady (k + 1) r else steady 0 r)"

lemma steady_short: "k + length r < 100 \<Longrightarrow> steady k r"
  by (induction k r rule: steady.induct) auto

definition has_room :: "nat option \<Rightarrow> nat \<Rightarrow> bool" where
  "has_room room n \<longleftrightarrow> (\<forall>k. room = Some k \<longrightarrow> n \<le> k)"

definition left :: "nat option \<Rightarrow> nat \<Rightarrow> nat option" where
  "left room n = map_option (\<lambda>k. k - n) room"

lemma left_0 [simp]: "left room 0 = room"
  by (cases room) (simp_all add: left_def)

definition flowing :: "nat option \<Rightarrow> nat \<Rightarrow> string \<Rightarrow> copy_state \<Rightarrow> bool" where
  "flowing room maxBytes content st \<longleftrightarrow>
     copied maxBytes content EOF st \<and> length content \<le> maxBytes \<and> has_room room (length content)
     \<and> wr_room (cs_writer st) = left room (cs_size st) \<and> steady (cs_empty st) (cs_reader st)"

definition finished_whole :: "nat option \<Rightarrow> string \<Rightarrow> copy_result \<times> go_err \<times> writer \<Rightarrow> bool" where
  "finished_whole room content res \<longleftrightarrow>
     fst (snd res) = None \<and> wr_room (snd (snd res)) = left room (length content)"

lemma read_some_steady:
  "read_some r n = (bs, None, r') \<Longrightarrow> steady k r \<Longrightarrow> 0 < n \<Longrightarrow>
     (if bs = [] then k + 1 < 100 \<and> steady (k + 1) r' else steady 0 r')"
  by (cases "(k, r)" rule: steady.cases) (auto split: if_splits)

lemma write_all_room:
  assumes "has_room room (n + length bs)" and "wr_room w = left room n"
  shows "\<exists>w'. write_all w bs = (length bs, True, w') \<and> wr_bytes w' = wr_bytes w @ bs
    \<and> wr_room w' = left room (n + length bs)"
  using assms by (cases room) (auto simp: write_all_def has_room_def left_def)

lemma copy_step_flows:
  assumes inv: "flowing room maxBytes content st"
  shows "(\<forall>st'. copy_step maxBytes st = Inl st' \<longrightarrow> flowing room maxBytes content st')
    \<and> (\<forall>res. copy_step maxBytes st = Inr res \<longrightarrow> finished_whole room content res)"
proof (cases "maxBytes - cs_size st = 0")
  case True
  obtain bs e r where rd: "read_some (cs_reader st) 1 = (bs, e, r)" by (metis prod_cases3)
  have "reader_bytes (cs_reader st) = []" using inv True by (auto simp: flowing_def copied_def)
  then have "bs = []" using read_some_spec [OF rd] by (cases e) auto
  then show ?thesis
    using True inv rd read_some_spec [OF rd] read_some_steady [of "cs_reader st" 1 bs r "cs_empty st"]
    by (cases e) (auto simp: copy_step_def copy_probe_def copy_outcome_def flowing_def copied_def
        finished_whole_def read_error_def)
next
  case more: False
  obtain bs e r where rd: "read_some (cs_reader st) (min copyBufferSize (maxBytes - cs_size st)) = (bs, e, r)"
    by (metis prod_cases3)
  have pos: "0 < min copyBufferSize (maxBytes - cs_size st)" using more by (simp add: copyBufferSize_def)
  have len: "length bs \<le> maxBytes - cs_size st" using read_some_length [OF rd] by simp
  have part: "length content = cs_size st + length (reader_bytes (cs_reader st))"
    using inv by (auto simp: flowing_def copied_def)
  have "length bs \<le> length (reader_bytes (cs_reader st))" using read_some_spec [OF rd] by (cases e) auto
  then have "has_room room (cs_size st + length bs)" using inv part by (auto simp: flowing_def has_room_def)
  then obtain w where wr: "write_all (cs_writer st) bs = (length bs, True, w)"
    "wr_bytes w = wr_bytes (cs_writer st) @ bs" "wr_room w = left room (cs_size st + length bs)"
    using write_all_room [of room "cs_size st" bs "cs_writer st"] inv by (auto simp: flowing_def)
  show ?thesis
    using more inv rd wr len pos part read_some_spec [OF rd]
      read_some_steady [of "cs_reader st" "min copyBufferSize (maxBytes - cs_size st)" bs r "cs_empty st"]
    by (cases e; cases "bs = []")
       (auto simp: copy_step_def copy_chunk_def copy_outcome_def flowing_def copied_def
          finished_whole_def read_error_def)
qed

lemma copy_loop_succeeds:
  assumes "flowing room maxBytes content st"
  shows "finished_whole room content (copy_loop (\<lambda>k. None) k maxBytes st)"
  using assms
proof (induction "\<lambda>k::nat. None :: go_err" k maxBytes st rule: copy_loop.induct)
  case (1 k maxBytes st)
  show ?case
  proof (cases "copy_step maxBytes st")
    case (Inl st')
    then show ?thesis using 1(1) [OF refl Inl] copy_step_flows [OF 1(2)]
      by (simp add: copy_loop.simps [of _ k])
  next
    case (Inr res)
    then show ?thesis using copy_step_flows [OF 1(2)] by (simp add: copy_loop.simps [of _ k])
  qed
qed

lemma CopyAndHashContext_steady:
  assumes "int (length (reader_bytes source)) \<le> maxBytes" and "reader_end source = EOF"
    and "steady 0 source" and "has_room room (length (reader_bytes source))" and "ctx = (\<lambda>k. None)"
  shows "CopyAndHashContext ctx \<lparr>wr_bytes = [], wr_room = room\<rparr> source maxBytes
    = (\<lparr>cr_SizeBytes = length (reader_bytes source), cr_SHA256 = sha256_hex (reader_bytes source)\<rparr>,
       None, \<lparr>wr_bytes = reader_bytes source, wr_room = left room (length (reader_bytes source))\<rparr>)"
proof -
  let ?st = "\<lparr>cs_reader = source, cs_writer = \<lparr>wr_bytes = [], wr_room = room\<rparr>, cs_hashed = [],
    cs_size = 0, cs_empty = 0\<rparr>"
  have "flowing room (nat maxBytes) (reader_bytes source) ?st"
    using assms by (simp add: flowing_def copied_def)
  note fin = copy_loop_succeeds [OF this, of 0]
  have c: "ctx = (\<lambda>k. None)" by (rule assms(5))
  have m: "0 \<le> maxBytes" using assms(1) by linarith
  obtain res err w where run: "CopyAndHashContext ctx \<lparr>wr_bytes = [], wr_room = room\<rparr> source maxBytes = (res, err, w)"
    by (metis prod_cases3)
  then have "err = None \<and> wr_room w = left room (length (reader_bytes source))"
    using fin m c by (simp add: CopyAndHashContext_def finished_whole_def)
  moreover have "copy_ends (nat maxBytes) (reader_bytes source) EOF (res, err, w)"
    using copy_loop_ends [of "nat maxBytes" "reader_bytes source" EOF ?st "\<lambda>k. None" 0] run m c assms(2)
    by (simp add: copied_def CopyAndHashContext_def)
  ultimately show ?thesis using run by (cases res, cases w) (simp add: copy_ends_def)
qed

lemma CopyAndHashContext_flows:
  assumes "int (length (reader_bytes source)) \<le> maxBytes" and "reader_end source = EOF"
    and "length source < 100" and "ctx = (\<lambda>k. None)"
  shows "CopyAndHashContext ctx \<lparr>wr_bytes = [], wr_room = None\<rparr> source maxBytes
    = (\<lparr>cr_SizeBytes = length (reader_bytes source), cr_SHA256 = sha256_hex (reader_bytes source)\<rparr>,
       None, \<lparr>wr_bytes = reader_bytes source, wr_room = None\<rparr>)"
  using CopyAndHashContext_steady [OF assms(1,2) steady_short [of 0 source] _ assms(4), of None] assms(3)
  by (simp add: has_room_def left_def)

section \<open>Properties\<close>

text \<open>
  The bounded copy. Whatever the reader, the writer and the context do, it returns; it
  never writes more than the limit, what it wrote is the beginning of the source, and the
  size it reports is what was written. Without an error the source was copied whole, and
  the digest is the SHA-256 of it. \<open>ErrByteLimitExceeded\<close> is returned only when the source
  is longer than the limit, with exactly the limit written.
\<close>

lemma CopyAndHash_bounded:
  assumes "CopyAndHashContext ctx \<lparr>wr_bytes = [], wr_room = room\<rparr> source maxBytes = (res, err, w)"
    and "0 \<le> maxBytes" and "\<And>k e. ctx k = Some e \<Longrightarrow> \<not> errors_is e Files_ErrByteLimitExceeded"
  shows "prefix (wr_bytes w) (reader_bytes source) \<and> int (length (wr_bytes w)) \<le> maxBytes
    \<and> cr_SizeBytes res = length (wr_bytes w)
    \<and> (err = None \<longrightarrow> wr_bytes w = reader_bytes source \<and> reader_end source = EOF
         \<and> cr_SHA256 res = sha256_hex (reader_bytes source))
    \<and> (\<forall>e. err = Some e \<and> errors_is e Files_ErrByteLimitExceeded \<longrightarrow>
         int (length (reader_bytes source)) > maxBytes
         \<and> wr_bytes w = take (nat maxBytes) (reader_bytes source))"
proof -
  let ?st = "\<lparr>cs_reader = source, cs_writer = \<lparr>wr_bytes = [], wr_room = room\<rparr>, cs_hashed = [],
    cs_size = 0, cs_empty = 0\<rparr>"
  have "copy_ends (nat maxBytes) (reader_bytes source) (reader_end source)
      (copy_loop ctx 0 (nat maxBytes) ?st)"
    using assms(3) by (intro copy_loop_ends) (auto simp: copied_def)
  with assms(1,2) show ?thesis by (auto simp: CopyAndHashContext_def copy_ends_def)
qed

text \<open>
  C39: a copy that nothing stops succeeds. A source of any length that ends normally within the
  limit, and whose calls are never empty a hundred times in a row, is copied whole into a writer
  that is unlimited or has room for it, with its length and digest as the result.
\<close>

theorem CopyAndHash_succeeds:
  assumes "int (length (reader_bytes source)) \<le> maxBytes" and "reader_end source = EOF"
    and "steady 0 source" and "has_room room (length (reader_bytes source))"
  shows "CopyAndHash \<lparr>wr_bytes = [], wr_room = room\<rparr> source maxBytes
    = (\<lparr>cr_SizeBytes = length (reader_bytes source), cr_SHA256 = sha256_hex (reader_bytes source)\<rparr>,
       None, \<lparr>wr_bytes = reader_bytes source, wr_room = left room (length (reader_bytes source))\<rparr>)"
  unfolding CopyAndHash_def using assms by (intro CopyAndHashContext_steady) simp_all

theorem CopyAndHash_succeeds_witness:
  "CopyAndHash \<lparr>wr_bytes = [], wr_room = Some 4\<rparr>
       (replicate 60 ([], None) @ [(''ab'', None)] @ replicate 60 ([], None) @ [(''c'', Some EOF)]) 3
     = (\<lparr>cr_SizeBytes = 3, cr_SHA256 = sha256_hex ''abc''\<rparr>, None, \<lparr>wr_bytes = ''abc'', wr_room = Some 1\<rparr>)"
proof -
  let ?r = "replicate 60 ([], None) @ [(''ab'', None)] @ replicate 60 ([], None) @ [(''c'', Some EOF)] :: reader"
  have "reader_bytes ?r = ''abc''" "reader_end ?r = EOF" "steady 0 ?r"
    by (simp_all add: numeral_eq_Suc)
  then show ?thesis using CopyAndHash_succeeds [of ?r 3 "Some 4"] by (simp add: has_room_def left_def)
qed

end
