(* ===== verification/Archive.thy ===== *)
theory Archive
  imports CopyHash Ids Database
begin

text \<open>
  \<open>internal/files/zip.go\<close>: an archive is checked from its central directory before anything
  is created, extracted into a staging directory beside its destination, and renamed into
  place. \<open>archive/zip\<close> is the argument \<open>unzip\<close>: from the bytes of an archive, its entries
  with what opening each of them delivers. The Unicode tables behind \<open>strings.ToLower\<close> and
  the verb \<open>%q\<close> are the argument \<open>uc\<close>. A file system is the list of its paths with what is
  there, the latest entry for a path first.
\<close>

unbundle bit_operations_syntax

section \<open>Data\<close>

definition DefaultMaxArchiveEntries :: int where
  "DefaultMaxArchiveEntries = 1000"

definition DefaultMaxArchiveExpandedBytes :: int where
  "DefaultMaxArchiveExpandedBytes = 268435456"

record archive_limits =
  al_MaxEntries :: int
  al_MaxExpandedBytes :: int

record extract_stats =
  xs_Files :: nat
  xs_Directories :: nat
  xs_ExpandedBytes :: int

text \<open>\<open>fs.FileMode\<close>: the type bits above, the permission bits below.\<close>

type_synonym file_mode = "32 word"

definition ModeDir :: file_mode where "ModeDir = 0x80000000"

definition ModeSymlink :: file_mode where "ModeSymlink = 0x08000000"

definition ModeType :: file_mode where "ModeType = 0x8F280000"

definition ModePerm :: file_mode where "ModePerm = 0x1FF"

record zip_file =
  zf_Name :: string
  zf_Mode :: file_mode
  zf_UncompressedSize64 :: "64 word"
  zf_Open :: "reader result"

record archiveEntry =
  ae_file :: zip_file
  ae_name :: string
  ae_isDirectory :: bool
  ae_mode :: file_mode

record unicode =
  uc_lower :: "string \<Rightarrow> string"
  uc_quote :: "string \<Rightarrow> string"

datatype inode = IFile string file_mode | IDir file_mode | IOther

type_synonym tree = "(string list \<times> inode) list"

section \<open>Checking the central directory\<close>

definition normalizeArchiveLimits :: "archive_limits \<Rightarrow> archive_limits result" where
  "normalizeArchiveLimits limits =
     (if al_MaxEntries limits < 0 \<or> al_MaxExpandedBytes limits < 0
      then Inl (Plain ''artifact: archive limits cannot be negative'')
      else Inr \<lparr>al_MaxEntries =
                   (if al_MaxEntries limits = 0 then DefaultMaxArchiveEntries else al_MaxEntries limits),
                al_MaxExpandedBytes =
                   (if al_MaxExpandedBytes limits = 0 then DefaultMaxArchiveExpandedBytes
                    else al_MaxExpandedBytes limits)\<rparr>)"

definition isWindowsDeviceName :: "string \<Rightarrow> bool" where
  "isWindowsDeviceName component =
     list_ex (upper_is (takeWhile (\<lambda>c. c \<noteq> CHR ''.'') component)) device_names"

definition trim_right_dots :: "string \<Rightarrow> string" where
  "trim_right_dots s = rev (dropWhile (\<lambda>c. c = CHR ''.'' \<or> c = CHR '' '') (rev s))"

definition trim_suffix_slash :: "string \<Rightarrow> string" where
  "trim_suffix_slash s = (if has_suffix s [sl] then butlast s else s)"

definition bad_component :: "string \<Rightarrow> bool" where
  "bad_component c \<longleftrightarrow>
     c = [] \<or> c = ''.'' \<or> c = ''..'' \<or> c \<noteq> trim_right_dots c \<or> isWindowsDeviceName c"

definition safeArchiveName :: "string \<Rightarrow> string result" where
  "safeArchiveName rawName =
     check (first_err [
       guard (rawName = [] \<or> \<not> valid_utf8 rawName)
         (wrapf Files_ErrUnsafeArchive ''empty or invalid UTF-8 entry name''),
       guard (contains_any rawName [CHR 0x5C, CHR 0x00, CHR '':''] \<or> has_prefix rawName [sl])
         (wrapf Files_ErrUnsafeArchive ''absolute or non-portable entry name''),
       guard (has_control rawName)
         (wrapf Files_ErrUnsafeArchive ''entry name contains a control character''),
       guard (trim_suffix_slash rawName = [])
         (wrapf Files_ErrUnsafeArchive ''root directory entry''),
       guard (list_ex bad_component (split_on sl (trim_suffix_slash rawName)))
         (wrapf Files_ErrUnsafeArchive ''traversal or ambiguous entry name''),
       guard (let name = trim_suffix_slash rawName; cleaned = path_clean name in
              cleaned \<noteq> name \<or> is_abs cleaned \<or> cleaned = ''..'' \<or> has_prefix cleaned (''..'' @ [sl]))
         (wrapf Files_ErrUnsafeArchive ''traversal entry name'')])
     (Inr (path_clean (trim_suffix_slash rawName)))"

text \<open>
  The loop of \<open>inspectArchive\<close> over the entries: what it has collected so far is the
  entries, the names by their folded form (the map \<open>caseFolded\<close>), the sum of the declared
  sizes as a \<open>uint64\<close>, and the counts.
\<close>

record inspection =
  in_entries :: "archiveEntry list"
  in_folded :: "(string \<times> string) list"
  in_expected :: "64 word"
  in_stats :: extract_stats

definition archive_isDirectory :: "zip_file \<Rightarrow> bool" where
  "archive_isDirectory f \<longleftrightarrow> zf_Mode f AND ModeDir \<noteq> 0 \<or> has_suffix (zf_Name f) [sl]"

definition inspect_kind :: "zip_file \<Rightarrow> go_err" where
  "inspect_kind f =
     first_err [
       guard (zf_Mode f AND ModeSymlink \<noteq> 0) (wrapf Files_ErrUnsafeArchive ''symlink entry''),
       guard (archive_isDirectory f \<and> zf_UncompressedSize64 f \<noteq> 0)
         (wrapf Files_ErrUnsafeArchive ''directory entry contains data''),
       guard (\<not> archive_isDirectory f \<and> zf_Mode f AND ModeType \<noteq> 0)
         (wrapf Files_ErrUnsafeArchive ''non-regular entry'')]"

definition archive_too_large :: "int \<Rightarrow> error" where
  "archive_too_large maximum = wrapf Files_ErrArchiveTooLarge (''limit '' @ decimal (nat maximum))"

definition inspect_file :: "unicode \<Rightarrow> int \<Rightarrow> zip_file \<Rightarrow> inspection \<Rightarrow> inspection result" where
  "inspect_file uc maxExpanded f st =
     rbind (safeArchiveName (zf_Name f)) (\<lambda>name.
     check (inspect_kind f)
     (case map_of (in_folded st) (uc_lower uc name) of
        Some previous \<Rightarrow>
          Inl (wrapf Files_ErrUnsafeArchive (''duplicate or case-colliding entries ''
                 @ uc_quote uc previous @ '' and '' @ uc_quote uc name))
      | None \<Rightarrow>
          (let entry = \<lparr>ae_file = f, ae_name = name, ae_isDirectory = archive_isDirectory f,
                        ae_mode = zf_Mode f\<rparr>;
               st' = st\<lparr>in_entries := in_entries st @ [entry],
                        in_folded := (uc_lower uc name, name) # in_folded st\<rparr>;
               size = zf_UncompressedSize64 f; maximum = word_of_int maxExpanded in
           if archive_isDirectory f
           then Inr (st'\<lparr>in_stats := (in_stats st)\<lparr>xs_Directories := xs_Directories (in_stats st) + 1\<rparr>\<rparr>)
           else if size > maximum \<or> in_expected st > maximum - size
           then Inl (archive_too_large maxExpanded)
           else Inr (st'\<lparr>in_expected := in_expected st + size,
                         in_stats := (in_stats st)\<lparr>xs_Files := xs_Files (in_stats st) + 1\<rparr>\<rparr>))))"

fun inspect_files :: "unicode \<Rightarrow> int \<Rightarrow> zip_file list \<Rightarrow> inspection \<Rightarrow> inspection result" where
  "inspect_files uc maxExpanded [] st = Inr st"
| "inspect_files uc maxExpanded (f # fs) st = rbind (inspect_file uc maxExpanded f st) (inspect_files uc maxExpanded fs)"

text \<open>
  The ancestors \<open>path.Dir\<close> visits before it reaches \<open>"."\<close>, from the nearest; \<open>types\<close> says of
  a name whether it is a directory.
\<close>

definition archive_parents :: "string \<Rightarrow> string list" where
  "archive_parents name =
     (let ps = split_on sl name in map (\<lambda>i. join_with [sl] (take i ps)) (rev [1..<length ps]))"

definition parent_conflict :: "archiveEntry list \<Rightarrow> bool" where
  "parent_conflict es \<longleftrightarrow>
     (let types = map (\<lambda>e. (ae_name e, ae_isDirectory e)) es in
      list_ex (\<lambda>e. list_ex (\<lambda>p. map_of types p = Some False) (archive_parents (ae_name e))) es)"

definition inspectArchive ::
  "unicode \<Rightarrow> zip_file list \<Rightarrow> archive_limits \<Rightarrow> (archiveEntry list \<times> int \<times> extract_stats) result"
where
  "inspectArchive uc fs limits =
     (if int (length fs) > al_MaxEntries limits
      then Inl (wrapf Files_ErrTooManyArchiveFiles
             (''entries '' @ decimal (length fs) @ '', limit '' @ decimal (nat (al_MaxEntries limits))))
      else rbind (inspect_files uc (al_MaxExpandedBytes limits) fs
             \<lparr>in_entries = [], in_folded = [], in_expected = 0,
              in_stats = \<lparr>xs_Files = 0, xs_Directories = 0, xs_ExpandedBytes = 0\<rparr>\<rparr>) (\<lambda>st.
        if parent_conflict (in_entries st)
        then Inl (wrapf Files_ErrUnsafeArchive ''regular file is parent of another entry'')
        else Inr (in_entries st, sint (in_expected st), in_stats st)))"

section \<open>The file system\<close>

text \<open>
  \<open>os.MkdirAll\<close> stops at an ancestor that is not a directory before anything is made, and
  gives what it makes the mode it was called with.
\<close>

definition is_dir :: "inode option \<Rightarrow> bool" where
  "is_dir n \<longleftrightarrow> (case n of Some (IDir m) \<Rightarrow> True | _ \<Rightarrow> False)"

definition make_dirs :: "tree \<Rightarrow> string list \<Rightarrow> file_mode \<Rightarrow> tree option" where
  "make_dirs t p m =
     (let ps = map (\<lambda>i. take i p) [0..<Suc (length p)] in
      if list_ex (\<lambda>q. map_of t q \<noteq> None \<and> \<not> is_dir (map_of t q)) ps then None
      else Some (map (\<lambda>q. (q, IDir m)) (filter (\<lambda>q. map_of t q = None) ps) @ t))"

definition remove_all :: "tree \<Rightarrow> string list \<Rightarrow> tree" where
  "remove_all t p = filter (\<lambda>(q, n). \<not> prefix p q) t"

definition dir_empty :: "tree \<Rightarrow> string list \<Rightarrow> bool" where
  "dir_empty t p \<longleftrightarrow> list_all (\<lambda>(q, n). \<not> strict_prefix p q) t"

definition rename_tree :: "tree \<Rightarrow> string list \<Rightarrow> string list \<Rightarrow> tree" where
  "rename_tree t old new = map (\<lambda>(q, n). (if prefix old q then new @ drop (length old) q else q, n)) t"

text \<open>
  What the environment decides: the working directory, the number \<open>os.MkdirTemp\<close> appends and
  whether it succeeds, the room left when an entry is written, whether closing its files
  fails, and whether the final removal and renaming succeed.
\<close>

record zip_env =
  ze_cwd :: string
  ze_tmp :: "nat result"
  ze_room :: "string \<Rightarrow> nat option"
  ze_close :: "string \<Rightarrow> go_err"
  ze_remove :: go_err
  ze_rename :: go_err

definition validateDestination :: "string \<Rightarrow> string \<Rightarrow> string result" where
  "validateDestination cwd destination =
     (if trim_space destination = [] then Inl (Plain ''artifact: extraction destination is required'')
      else let absolute = (if is_abs destination then path_clean destination else filepath_join cwd destination) in
        if absolute = [sl]
        then Inl (wrapf Files_ErrUnsafeArchive ''filesystem root cannot be an extraction destination'')
        else Inr absolute)"

definition requireMissingOrEmptyDirectory :: "tree \<Rightarrow> string list \<Rightarrow> go_err" where
  "requireMissingOrEmptyDirectory t d =
     (case map_of t d of
        None \<Rightarrow> None
      | Some n \<Rightarrow>
          if \<not> is_dir (Some n) then Some (wrapf Files_ErrUnsafeArchive ''destination must be a real directory'')
          else if \<not> dir_empty t d then Some (wrapf Files_ErrUnsafeArchive ''destination directory must be empty'')
          else None)"

definition pathWithin :: "string \<Rightarrow> string \<Rightarrow> bool" where
  "pathWithin root candidate \<longleftrightarrow>
     (case filepath_rel root candidate of
        None \<Rightarrow> False
      | Some relative \<Rightarrow>
          relative \<noteq> ''..'' \<and> \<not> has_prefix relative (''..'' @ [sl]) \<and> \<not> is_abs relative)"

definition regularFileMode :: "file_mode \<Rightarrow> file_mode" where
  "regularFileMode m = (m AND ModePerm AND 493) OR 384"

definition directoryMode :: "file_mode \<Rightarrow> file_mode" where
  "directoryMode m = (m AND ModePerm AND 493) OR 448"

section \<open>Extraction\<close>

fun str_less :: "string \<Rightarrow> string \<Rightarrow> bool" where
  "str_less s [] = False"
| "str_less [] (b # bs) = True"
| "str_less (a # as) (b # bs) = (byte_val a < byte_val b \<or> a = b \<and> str_less as bs)"

definition entry_before :: "archiveEntry \<Rightarrow> archiveEntry \<Rightarrow> bool" where
  "entry_before a b \<longleftrightarrow>
     (if ae_isDirectory a \<noteq> ae_isDirectory b then ae_isDirectory a
      else \<not> str_less (ae_name b) (ae_name a))"

definition extract_file ::
  "zip_env \<Rightarrow> int \<Rightarrow> archiveEntry \<Rightarrow> string list \<Rightarrow> tree \<Rightarrow> int \<Rightarrow> tree \<times> int result"
where
  "extract_file env maxExpanded entry target t expanded =
     (case make_dirs t (butlast target) 493 of
        None \<Rightarrow> (t, Inl (Plain ''mkdir: not a directory''))
      | Some t1 \<Rightarrow>
          (case zf_Open (ae_file entry) of
             Inl e \<Rightarrow> (t1, Inl e)
           | Inr source \<Rightarrow>
               if map_of t1 target \<noteq> None then (t1, Inl (Plain ''open: file exists''))
               else (case CopyAndHash \<lparr>wr_bytes = [], wr_room = ze_room env (ae_name entry)\<rparr> source
                            (maxExpanded - expanded) of
                 (res, copyErr, w) \<Rightarrow>
                   (let t2 = (target, IFile (wr_bytes w) (regularFileMode (ae_mode entry))) # t1 in
                    case copyErr of
                      Some e \<Rightarrow>
                        (t2, Inl (if errors_is e Files_ErrByteLimitExceeded
                                  then archive_too_large maxExpanded else e))
                    | None \<Rightarrow>
                        (case ze_close env (ae_name entry) of
                           Some e \<Rightarrow> (t2, Inl e)
                         | None \<Rightarrow>
                             if word_of_nat (cr_SizeBytes res) \<noteq> zf_UncompressedSize64 (ae_file entry)
                             then (t2, Inl (wrapf Files_ErrUnsafeArchive ''entry size differs from ZIP metadata''))
                             else (t2, Inr (expanded + int (cr_SizeBytes res))))))))"

definition extract_entry ::
  "zip_env \<Rightarrow> int \<Rightarrow> string \<Rightarrow> archiveEntry \<Rightarrow> tree \<Rightarrow> int \<Rightarrow> tree \<times> int result"
where
  "extract_entry env maxExpanded staging entry t expanded =
     (let target = filepath_join staging (ae_name entry) in
      if \<not> pathWithin staging target
      then (t, Inl (wrapf Files_ErrUnsafeArchive ''entry escapes staging directory''))
      else if ae_isDirectory entry
      then (case make_dirs t (path_parts target) (directoryMode (ae_mode entry)) of
              None \<Rightarrow> (t, Inl (Plain ''mkdir: not a directory''))
            | Some t1 \<Rightarrow> (t1, Inr expanded))
      else extract_file env maxExpanded entry (path_parts target) t expanded)"

fun extract_entries ::
  "zip_env \<Rightarrow> int \<Rightarrow> string \<Rightarrow> archiveEntry list \<Rightarrow> tree \<Rightarrow> int \<Rightarrow> tree \<times> int result"
where
  "extract_entries env maxExpanded staging [] t expanded = (t, Inr expanded)"
| "extract_entries env maxExpanded staging (e # es) t expanded =
     (case extract_entry env maxExpanded staging e t expanded of
        (t1, Inl err) \<Rightarrow> (t1, Inl err)
      | (t1, Inr expanded1) \<Rightarrow> extract_entries env maxExpanded staging es t1 expanded1)"

text \<open>
  \<open>commitStaging\<close>. When the last rename fails the destination is made again, as an empty
  directory.
\<close>

definition commitStaging :: "zip_env \<Rightarrow> tree \<Rightarrow> string list \<Rightarrow> string list \<Rightarrow> tree \<times> go_err" where
  "commitStaging env t staging d =
     (let finish = (\<lambda>t. case ze_rename env of
                        Some e \<Rightarrow> ((d, IDir 493) # t, Some e)
                      | None \<Rightarrow> (rename_tree t staging d, None)) in
      case map_of t d of
        None \<Rightarrow> finish t
      | Some n \<Rightarrow>
          if \<not> is_dir (Some n) \<or> \<not> dir_empty t d
          then (t, Some (wrapf Files_ErrUnsafeArchive ''destination changed during extraction''))
          else case ze_remove env of
            Some e \<Rightarrow> (t, Some e)
          | None \<Rightarrow> finish (filter (\<lambda>(q, n). q \<noteq> d) t))"

definition extract_staged ::
  "zip_env \<Rightarrow> archive_limits \<Rightarrow> archiveEntry list \<Rightarrow> int \<Rightarrow> extract_stats \<Rightarrow> string list \<Rightarrow> string list \<Rightarrow> tree
     \<Rightarrow> tree \<times> extract_stats result"
where
  "extract_staged env limits entries expectedBytes stats staging d t =
     (case extract_entries env (al_MaxExpandedBytes limits) (abs_path staging) (order_by entry_before entries)
             ((staging, IDir 448) # t) 0 of
        (t1, Inl e) \<Rightarrow> (remove_all t1 staging, Inl e)
      | (t1, Inr expandedBytes) \<Rightarrow>
          if expandedBytes \<noteq> expectedBytes
          then (remove_all t1 staging,
                Inl (wrapf Files_ErrUnsafeArchive ''expanded size differs from ZIP metadata''))
          else (case commitStaging env t1 staging d of
                  (t2, Some e) \<Rightarrow> (remove_all t2 staging, Inl e)
                | (t2, None) \<Rightarrow> (t2, Inr (stats\<lparr>xs_ExpandedBytes := expandedBytes\<rparr>))))"

definition ExtractZIP ::
  "(string \<Rightarrow> int \<Rightarrow> zip_file list result) \<Rightarrow> unicode \<Rightarrow> zip_env \<Rightarrow> tree \<Rightarrow> string option \<Rightarrow> int \<Rightarrow> string
     \<Rightarrow> archive_limits \<Rightarrow> tree \<times> extract_stats result"
where
  "ExtractZIP unzip uc env t source archiveSize destination limits0 =
     (case source of
        None \<Rightarrow> (t, Inl (Plain ''artifact: ZIP source is nil''))
      | Some bytes \<Rightarrow>
          if archiveSize < 0 then (t, Inl (Plain ''artifact: ZIP size cannot be negative''))
          else
            (case rbind (normalizeArchiveLimits limits0) (\<lambda>limits.
                  rbind (unzip bytes archiveSize) (\<lambda>fs.
                  rbind (inspectArchive uc fs limits) (\<lambda>inspected.
                  rbind (validateDestination (ze_cwd env) destination) (\<lambda>absolute.
                  Inr (limits, inspected, absolute))))) of
               Inl e \<Rightarrow> (t, Inl e)
             | Inr (limits, (entries, expectedBytes, stats), absolute) \<Rightarrow>
                 (let d = path_parts absolute in
                  case make_dirs t (butlast d) 493 of
                    None \<Rightarrow> (t, Inl (Plain ''mkdir: not a directory''))
                  | Some t1 \<Rightarrow>
                      (case requireMissingOrEmptyDirectory t1 d of
                         Some e \<Rightarrow> (t1, Inl e)
                       | None \<Rightarrow>
                           (case ze_tmp env of
                              Inl e \<Rightarrow> (t1, Inl e)
                            | Inr suf \<Rightarrow>
                                (let staging = butlast d @ [''.'' @ last d @ ''.extract-'' @ decimal suf] in
                                 if map_of t1 staging \<noteq> None
                                 then (t1, Inl (Plain ''mkdirtemp: file exists''))
                                 else extract_staged env limits entries expectedBytes stats staging d t1))))))"

definition ExtractZIPFile ::
  "(string \<Rightarrow> int \<Rightarrow> zip_file list result) \<Rightarrow> unicode \<Rightarrow> zip_env \<Rightarrow> tree \<Rightarrow> string \<Rightarrow> string
     \<Rightarrow> archive_limits \<Rightarrow> tree \<times> extract_stats result"
where
  "ExtractZIPFile unzip uc env t archivePath destination limits =
     (case map_of t (path_parts archivePath) of
        None \<Rightarrow> (t, Inl (Plain ''open: no such file or directory''))
      | Some (IFile bytes m) \<Rightarrow>
          ExtractZIP unzip uc env t (Some bytes) (int (length bytes)) destination limits
      | Some _ \<Rightarrow> (t, Inl (Plain ''artifact: ZIP source is not a regular file'')))"

definition ZIPNames :: "(string \<Rightarrow> int \<Rightarrow> zip_file list result) \<Rightarrow> string \<Rightarrow> string list result" where
  "ZIPNames unzip bytes =
     (case unzip bytes (int (length bytes)) of
        Inl e \<Rightarrow> Inl (annotate ''files: read archive'' e)
      | Inr fs \<Rightarrow> Inr (map zf_Name fs))"


section \<open>Names and paths\<close>

lemma safeArchiveName_normal:
  assumes "safeArchiveName raw = Inr name"
  shows "list_all normal_component (split_on sl name)" and "name = trim_suffix_slash raw"
proof -
  have comps: "\<not> list_ex bad_component (split_on sl (trim_suffix_slash raw))"
    and name: "name = path_clean (trim_suffix_slash raw)" "path_clean (trim_suffix_slash raw) = trim_suffix_slash raw"
    using assms by (auto simp: safeArchiveName_def)
  show "name = trim_suffix_slash raw" using name by simp
  with comps show "list_all normal_component (split_on sl name)"
    using split_on_no_sep by (fastforce simp: list_all_iff list_ex_iff normal_component_def bad_component_def)
qed

definition epath :: "archiveEntry \<Rightarrow> string list" where
  "epath e = split_on sl (ae_name e)"

lemma epath_not_Nil [simp]: "epath e \<noteq> []"
  by (simp add: epath_def)

lemma epath_inject: "epath a = epath b \<longleftrightarrow> ae_name a = ae_name b"
  by (metis epath_def join_split)

lemma not_parent:
  assumes "ps \<noteq> []" and "list_all normal_component ps"
  shows "join_with [sl] ps \<noteq> ''..''" "\<not> has_prefix (join_with [sl] ps) (''..'' @ [sl])"
proof -
  have sp: "split_on sl (join_with [sl] ps) = ps" using assms by (rule split_join_normal)
  have dots: "sl \<notin> set ''..''" by (simp add: sl_def)
  show "join_with [sl] ps \<noteq> ''..''"
  proof
    assume eq: "join_with [sl] ps = ''..''"
    have "ps = [''..'']" using sp split_on_single [OF dots] unfolding eq by simp
    with assms(2) show False by (simp add: normal_component_def)
  qed
  show "\<not> has_prefix (join_with [sl] ps) (''..'' @ [sl])"
  proof
    assume "has_prefix (join_with [sl] ps) (''..'' @ [sl])"
    then obtain r where r: "join_with [sl] ps = ''..'' @ sl # r" by (auto simp: has_prefix_iff prefix_def)
    have "ps = ''..'' # split_on sl r" using sp split_on_append [OF dots, of r] unfolding r by simp
    with assms(2) show False by (simp add: normal_component_def)
  qed
qed

lemma entry_target:
  assumes "list_all normal_component s" and "list_all normal_component (epath e)"
  shows "filepath_join (abs_path s) (ae_name e) = abs_path (s @ epath e)"
    and "pathWithin (abs_path s) (abs_path (s @ epath e))"
    and "path_parts (abs_path (s @ epath e)) = s @ epath e"
proof -
  have name: "ae_name e = join_with [sl] (epath e)" by (simp add: epath_def)
  show "filepath_join (abs_path s) (ae_name e) = abs_path (s @ epath e)"
    using filepath_join_abs [OF assms(1) epath_not_Nil assms(2)] name by simp
  show "pathWithin (abs_path s) (abs_path (s @ epath e))"
    using filepath_rel_below [OF assms(1) epath_not_Nil assms(2)]
      not_parent [OF epath_not_Nil assms(2)] is_abs_join [OF epath_not_Nil assms(2)]
    by (simp add: pathWithin_def)
  show "path_parts (abs_path (s @ epath e)) = s @ epath e"
    using assms by (simp add: path_parts_abs_path)
qed

lemma clean_rooted_normal:
  assumes "\<forall>p \<in> set ps. sl \<notin> set p" and "list_all normal_component acc"
  shows "list_all normal_component (clean_components True acc ps)"
  using assms
proof (induction ps arbitrary: acc)
  case (Cons p ps)
  then have "p = [] \<or> p = ''.'' \<or> p = ''..'' \<or> normal_component p"
    unfolding normal_component_def by auto
  moreover have "list_all normal_component (clean_components True (p # acc) ps)" if "normal_component p"
    using Cons that by simp
  ultimately show ?case
    using Cons by (cases acc) (auto simp: normal_component_def)
qed simp

lemma path_clean_rooted:
  assumes "is_abs a"
  shows "\<exists>cs. path_clean a = abs_path cs \<and> list_all normal_component cs"
proof -
  have "a \<noteq> []" using assms by (auto simp: is_abs_def has_prefix_def)
  moreover have "list_all normal_component (clean_components True [] (split_on sl a))"
    using split_on_no_sep by (intro clean_rooted_normal) auto
  ultimately show ?thesis using assms by (auto simp: path_clean_def abs_path_def)
qed

lemma validateDestination_abs:
  assumes "validateDestination cwd destination = Inr absolute" and "is_abs cwd"
  shows "\<exists>d. d \<noteq> [] \<and> list_all normal_component d \<and> absolute = abs_path d"
proof -
  have "\<exists>a. is_abs a \<and> absolute = path_clean a" and ne: "absolute \<noteq> [sl]"
    using assms
    by (auto simp: validateDestination_def filepath_join_def is_abs_def has_prefix_def split: if_splits)
       (metis append_Cons append_Nil append_assoc list.sel(1) take_Suc take0 hd_append)+
  then obtain cs where "absolute = abs_path cs" "list_all normal_component cs"
    using path_clean_rooted by blast
  then show ?thesis using ne by (intro exI [of _ cs]) (auto simp: abs_path_def)
qed

lemma decimal_no_slash: "sl \<notin> set (decimal n)"
proof (induction n rule: decimal.induct)
  case (1 n)
  have "sl \<notin> set ''0123456789''" "length ''0123456789'' = 10" by (simp_all add: sl_def)
  then have "\<forall>i < 10. ''0123456789'' ! i \<noteq> sl" by (metis nth_mem)
  then have "''0123456789'' ! (n mod 10) \<noteq> sl" "n < 10 \<Longrightarrow> ''0123456789'' ! n \<noteq> sl" by simp_all
  then show ?case using 1 by (subst decimal.simps) auto
qed

lemma staging_normal:
  assumes "normal_component b"
  shows "normal_component (''.'' @ b @ ''.extract-'' @ decimal k)"
  using assms decimal_no_slash [of k] by (auto simp: normal_component_def sl_def)


section \<open>What the file system operations do\<close>

lemma mem_prefixes: "q \<in> set (map (\<lambda>i. take i p) [0..<Suc (length p)]) \<longleftrightarrow> prefix q p"
proof
  assume "prefix q p"
  then have "q = take (length q) p" "length q \<le> length p"
    by (auto simp: prefix_def)
  then show "q \<in> set (map (\<lambda>i. take i p) [0..<Suc (length p)])"
    by (metis (no_types, lifting) atLeastLessThan_iff image_eqI le_imp_less_Suc set_map set_upt zero_le)
qed (auto simp: take_is_prefix)

lemma map_of_const: "map_of (map (\<lambda>q. (q, n)) qs) q = (if q \<in> set qs then Some n else None)"
  by (induction qs) auto

lemma make_dirs_SomeD:
  assumes "make_dirs t p m = Some t'"
  shows "map_of t' q = (if prefix q p \<and> map_of t q = None then Some (IDir m) else map_of t q)"
    and "prefix q p \<Longrightarrow> map_of t q \<noteq> None \<Longrightarrow> is_dir (map_of t q)"
  using assms mem_prefixes [of q p]
  by (auto simp: make_dirs_def list_ex_iff map_add_def map_of_const simp del: upt_Suc set_map split: if_splits option.splits)

lemma make_dirs_isSome:
  assumes "\<And>q. prefix q p \<Longrightarrow> map_of t q \<noteq> None \<Longrightarrow> is_dir (map_of t q)"
  shows "\<exists>t'. make_dirs t p m = Some t'"
proof -
  have "\<forall>q \<in> set (map (\<lambda>i. take i p) [0..<Suc (length p)]). map_of t q = None \<or> is_dir (map_of t q)"
    using assms mem_prefixes by blast
  then show ?thesis by (auto simp: make_dirs_def list_ex_iff simp del: upt_Suc set_map)
qed

lemma is_dir_simps [simp]:
  "is_dir (Some (IDir m))" "\<not> is_dir None" "\<not> is_dir (Some (IFile b m))" "\<not> is_dir (Some IOther)"
  by (simp_all add: is_dir_def)

lemma map_of_remove_all: "map_of (remove_all t p) q = (if prefix p q then None else map_of t q)"
  by (induction t) (auto simp: remove_all_def)

lemma map_of_filter_key: "map_of (filter (\<lambda>(q, n). q \<noteq> d) t) q = (if q = d then None else map_of t q)"
  by (induction t) auto

lemma dir_empty_iff: "dir_empty t p \<longleftrightarrow> (\<forall>q. strict_prefix p q \<longrightarrow> map_of t q = None)"
proof -
  have "dir_empty t p \<longleftrightarrow> (\<forall>q \<in> fst ` set t. \<not> strict_prefix p q)"
    by (auto simp: dir_empty_def list_all_iff)
  also have "\<dots> \<longleftrightarrow> (\<forall>q. strict_prefix p q \<longrightarrow> map_of t q = None)" by (auto simp: map_of_eq_None_iff)
  finally show ?thesis .
qed

lemma map_of_rename_tree:
  assumes "\<And>q. prefix d q \<Longrightarrow> map_of t q = None" and "\<not> prefix s d" and "\<not> prefix d s"
  shows "map_of (rename_tree t s d) q
    = (if prefix d q then map_of t (s @ drop (length d) q) else if prefix s q then None else map_of t q)"
proof -
  have keys: "\<forall>k \<in> fst ` set t. \<not> prefix d k" using assms(1) by (auto simp: map_of_eq_None_iff)
  have par: "\<not> (prefix s q \<and> prefix d q)" for q
    using assms(2,3) prefix_same_cases by blast
  show ?thesis using keys
  proof (induction t)
    case (Cons x t)
    obtain k n where x: "x = (k, n)" by force
    have nk: "\<not> prefix d k" using Cons.prems x by simp
    have IH: "map_of (rename_tree t s d) q
      = (if prefix d q then map_of t (s @ drop (length d) q) else if prefix s q then None else map_of t q)"
      using Cons by simp
    show ?case
    proof (cases "prefix s k")
      case True
      then obtain r where r: "k = s @ r" by (auto simp: prefix_def)
      have "d @ r = q \<longleftrightarrow> prefix d q \<and> s @ drop (length d) q = s @ r" by (auto simp: prefix_def)
      then show ?thesis using IH x r True par [of q] nk by (auto simp: rename_tree_def)
    next
      case False
      then have "k \<noteq> s @ w" for w by (auto simp: prefix_def)
      then show ?thesis using IH x False nk by (auto simp: rename_tree_def)
    qed
  qed (simp add: rename_tree_def)
qed

text \<open>A file system in which whatever exists is in a directory.\<close>

definition tree_ok :: "tree \<Rightarrow> bool" where
  "tree_ok t \<longleftrightarrow> (\<forall>q n p. map_of t q = Some n \<longrightarrow> strict_prefix p q \<longrightarrow> is_dir (map_of t p))"

lemma tree_okD: "tree_ok t \<Longrightarrow> map_of t p = None \<Longrightarrow> prefix p q \<Longrightarrow> map_of t q = None"
  unfolding tree_ok_def by (metis is_dir_simps(2) not_None_eq prefix_order.le_imp_less_or_eq)

lemma make_dirs_tree_ok:
  assumes "tree_ok t" and "make_dirs t p m = Some t'"
  shows "tree_ok t'"
  unfolding tree_ok_def
proof (intro allI impI)
  fix q n r assume q: "map_of t' q = Some n" and r: "strict_prefix r q"
  note new = make_dirs_SomeD [OF assms(2)]
  show "is_dir (map_of t' r)"
  proof (cases "map_of t q")
    case None
    then have "prefix r p" using q r new(1) [of q] by (auto split: if_splits intro: prefix_order.trans)
    then show ?thesis using new [of r] by auto
  next
    case (Some x)
    then show ?thesis using assms(1) r new(1) [of r] by (auto simp: tree_ok_def)
  qed
qed


section \<open>Extraction stays in the staging directory\<close>

definition rooted :: "tree \<Rightarrow> string list \<Rightarrow> bool" where
  "rooted t s \<longleftrightarrow> (\<forall>q. prefix q s \<longrightarrow> is_dir (map_of t q))"

lemma make_dirs_below:
  assumes "make_dirs t (s @ p) m = Some t'" and "rooted t s"
  shows "rooted t' s" and "\<not> prefix s q \<Longrightarrow> map_of t' q = map_of t q"
    and "map_of t' (s @ r) = (if prefix r p \<and> map_of t (s @ r) = None then Some (IDir m) else map_of t (s @ r))"
proof -
  note new = make_dirs_SomeD(1) [OF assms(1)]
  show "rooted t' s" using assms(2) new by (auto simp: rooted_def)
  show "map_of t' q = map_of t q" if "\<not> prefix s q"
  proof (cases "prefix q (s @ p)")
    case True
    then have "prefix q s" using that by (metis prefix_append prefix_order.dual_order.refl prefix_prefix prefixE)
    then have "map_of t q \<noteq> None" using assms(2) by (auto simp: rooted_def is_dir_def split: option.splits)
    then show ?thesis using new [of q] by simp
  qed (use new [of q] in simp)
  show "map_of t' (s @ r) = (if prefix r p \<and> map_of t (s @ r) = None then Some (IDir m) else map_of t (s @ r))"
    using new [of "s @ r"] by simp
qed

text \<open>The file an entry leaves, and what was extracted so far.\<close>

definition leaves :: "archiveEntry \<Rightarrow> string \<Rightarrow> file_mode \<Rightarrow> bool" where
  "leaves e b m \<longleftrightarrow> \<not> ae_isDirectory e \<and> m = regularFileMode (ae_mode e)
     \<and> (\<exists>src. zf_Open (ae_file e) = Inr src \<and> b = reader_bytes src)"

definition staged :: "string list \<Rightarrow> archiveEntry list \<Rightarrow> tree \<Rightarrow> bool" where
  "staged s es t \<longleftrightarrow>
     (\<forall>q b m. map_of t (s @ q) = Some (IFile b m) \<longleftrightarrow> (\<exists>e \<in> set es. q = epath e \<and> leaves e b m))
     \<and> (\<forall>q. map_of t (s @ q) \<noteq> Some IOther)
     \<and> (\<forall>q. is_dir (map_of t (s @ q)) \<longrightarrow>
          q = [] \<or> (\<exists>e \<in> set es. prefix q (epath e) \<and> (ae_isDirectory e \<or> q \<noteq> epath e)))"

text \<open>How a regular entry was extracted: its directory was made, then its file.\<close>

lemma extract_file_Inr:
  assumes "extract_file env mx e target t x = (t', Inr x')"
  obtains t1 src where "make_dirs t (butlast target) 493 = Some t1" "zf_Open (ae_file e) = Inr src"
    "map_of t1 target = None" "t' = (target, IFile (reader_bytes src) (regularFileMode (ae_mode e))) # t1"
    "x' = x + int (length (reader_bytes src))"
    "word_of_nat (length (reader_bytes src)) = zf_UncompressedSize64 (ae_file e)"
proof -
  obtain t1 src res w where steps: "make_dirs t (butlast target) 493 = Some t1" "zf_Open (ae_file e) = Inr src"
    "map_of t1 target = None"
    and copy: "CopyAndHash \<lparr>wr_bytes = [], wr_room = ze_room env (ae_name e)\<rparr> src (mx - x) = (res, None, w)"
    and t': "t' = (target, IFile (wr_bytes w) (regularFileMode (ae_mode e))) # t1"
      "x' = x + int (cr_SizeBytes res)" "word_of_nat (cr_SizeBytes res) = zf_UncompressedSize64 (ae_file e)"
    using assms by (auto simp: extract_file_def split: option.splits sum.splits if_splits prod.splits)
  from CopyAndHashContext_whole [OF copy [unfolded CopyAndHash_def]]
  show ?thesis using that steps t' by simp
qed

lemma extract_file_confined:
  assumes "extract_file env mx e (s @ epath e) t x = (t', r)" and "rooted t s"
  shows "rooted t' s" and "\<not> prefix s q \<Longrightarrow> map_of t' q = map_of t q"
proof -
  have bl: "butlast (s @ epath e) = s @ butlast (epath e)" by (simp add: butlast_append)
  have strict: "strict_prefix s (s @ epath e)" by (simp add: strict_prefix_def)
  have "t' = t \<or> (\<exists>t1. make_dirs t (s @ butlast (epath e)) 493 = Some t1
      \<and> (t' = t1 \<or> (\<exists>n. t' = (s @ epath e, n) # t1)))"
    using assms(1) unfolding extract_file_def bl
    by (auto split: option.splits sum.splits if_splits prod.splits)
  then consider "t' = t" | t1 where "make_dirs t (s @ butlast (epath e)) 493 = Some t1" "t' = t1"
    | t1 n where "make_dirs t (s @ butlast (epath e)) 493 = Some t1" "t' = (s @ epath e, n) # t1"
    by blast
  note cs = this
  show "rooted t' s"
  proof (cases rule: cs)
    case 3
    have "q \<noteq> s @ epath e" if "prefix q s" for q using that by (auto simp: prefix_def)
    then show ?thesis using make_dirs_below(1) [OF 3(1) assms(2)] 3(2) by (simp add: rooted_def)
  qed (use assms(2) make_dirs_below(1) in auto)
  show "map_of t' q = map_of t q" if "\<not> prefix s q"
    by (cases rule: cs) (use that assms(2) make_dirs_below(2) in auto)
qed

lemma extract_entry_confined:
  assumes "extract_entry env mx (abs_path s) e t x = (t', r)" and "rooted t s"
    and "list_all normal_component s" and "list_all normal_component (epath e)"
  shows "rooted t' s" and "\<not> prefix s q \<Longrightarrow> map_of t' q = map_of t q"
proof -
  note target = entry_target [OF assms(3,4)]
  consider "t' = t" | t1 m where "make_dirs t (s @ epath e) m = Some t1" "t' = t1"
    | "extract_file env mx e (s @ epath e) t x = (t', r)"
    using assms(1) unfolding extract_entry_def target Let_def
    by (auto simp: target split: if_splits option.splits)
  note cs = this
  show "rooted t' s" by (cases rule: cs) (use assms(2) make_dirs_below(1) extract_file_confined(1) in auto)
  show "map_of t' q = map_of t q" if "\<not> prefix s q"
    by (cases rule: cs) (use that assms(2) make_dirs_below(2) extract_file_confined(2) in auto)
qed

lemma extract_entries_confined:
  assumes "extract_entries env mx (abs_path s) es t x = (t', r)" and "rooted t s"
    and "list_all normal_component s" and "\<forall>e \<in> set es. list_all normal_component (epath e)"
  shows "rooted t' s \<and> (\<forall>q. \<not> prefix s q \<longrightarrow> map_of t' q = map_of t q)"
  using assms(1,2,4)
proof (induction es arbitrary: t x)
  case (Cons e es)
  obtain t1 r1 where step: "extract_entry env mx (abs_path s) e t x = (t1, r1)" by force
  note c = extract_entry_confined [OF step Cons.prems(2) assms(3)]
  show ?case
  proof (cases r1)
    case (Inl err)
    then show ?thesis using Cons.prems step c by auto
  next
    case (Inr x1)
    then have "extract_entries env mx (abs_path s) es t1 x1 = (t', r)" using Cons.prems(1) step by simp
    then show ?thesis using Cons.IH [of t1 x1] Cons.prems(3) c by auto
  qed
qed simp


section \<open>What extraction leaves\<close>

lemma strict_prefix_butlast: "p \<noteq> [] \<Longrightarrow> prefix q (butlast p) \<longleftrightarrow> strict_prefix q p"
  by (cases p rule: rev_cases) (auto simp: strict_prefix_def dest: prefix_length_le)

lemma stagedD:
  assumes "staged s es t"
  shows "map_of t (s @ q) = Some (IFile b m) \<longleftrightarrow> (\<exists>e \<in> set es. q = epath e \<and> leaves e b m)"
    and "map_of t (s @ q) \<noteq> Some IOther"
    and "is_dir (map_of t (s @ q)) \<Longrightarrow>
      q = [] \<or> (\<exists>e \<in> set es. prefix q (epath e) \<and> (ae_isDirectory e \<or> q \<noteq> epath e))"
  using assms unfolding staged_def by blast+

lemma stagedI:
  assumes "\<And>q b m. map_of t (s @ q) = Some (IFile b m) \<longleftrightarrow> (\<exists>e \<in> set es. q = epath e \<and> leaves e b m)"
    and "\<And>q. map_of t (s @ q) \<noteq> Some IOther"
    and "\<And>q. is_dir (map_of t (s @ q)) \<Longrightarrow>
      q = [] \<or> (\<exists>e \<in> set es. prefix q (epath e) \<and> (ae_isDirectory e \<or> q \<noteq> epath e))"
  shows "staged s es t"
  using assms unfolding staged_def by blast

lemma staged_dir:
  assumes "staged s es t" and "make_dirs t (s @ epath e) m = Some t'" and "rooted t s" and "ae_isDirectory e"
  shows "staged s (es @ [e]) t'"
proof -
  note new = make_dirs_below(3) [OF assms(2,3)]
  have dirs: "is_dir (map_of t (s @ q)) \<or> prefix q (epath e)" if "is_dir (map_of t' (s @ q))" for q
    using new [of q] that by (simp split: if_splits)
  show ?thesis
  proof (intro stagedI)
    fix q b k
    show "map_of t' (s @ q) = Some (IFile b k) \<longleftrightarrow> (\<exists>e' \<in> set (es @ [e]). q = epath e' \<and> leaves e' b k)"
    proof -
      have "map_of t' (s @ q) = Some (IFile b k) \<longleftrightarrow> map_of t (s @ q) = Some (IFile b k)" using new [of q] by simp
      moreover have "\<not> leaves e b k" using assms(4) by (simp add: leaves_def)
      ultimately show ?thesis using stagedD(1) [OF assms(1), of q b k] by auto
    qed
    show "map_of t' (s @ q) \<noteq> Some IOther" using new [of q] stagedD(2) [OF assms(1), of q] by simp
    show "q = [] \<or> (\<exists>e' \<in> set (es @ [e]). prefix q (epath e') \<and> (ae_isDirectory e' \<or> q \<noteq> epath e'))"
      if "is_dir (map_of t' (s @ q))"
      using dirs [OF that] stagedD(3) [OF assms(1), of q] assms(4) by auto
  qed
qed

lemma staged_file:
  assumes "staged s es t" and "make_dirs t (s @ butlast (epath e)) 493 = Some t1" and "rooted t s"
    and "\<not> ae_isDirectory e" and "map_of t1 (s @ epath e) = None" and "zf_Open (ae_file e) = Inr src"
  shows "staged s (es @ [e]) ((s @ epath e, IFile (reader_bytes src) (regularFileMode (ae_mode e))) # t1)"
    (is "staged s _ ?t'")
proof -
  note new = make_dirs_below(3) [OF assms(2,3)]
  have none: "map_of t (s @ epath e) = None" using new [of "epath e"] assms(5) by (simp split: if_splits)
  then have fresh: "epath e' \<noteq> epath e \<or> \<not> leaves e' b m" if "e' \<in> set es" for e' b m
    using stagedD(1) [OF assms(1), of "epath e" b m] that by auto
  have leaf: "leaves e b m \<longleftrightarrow> b = reader_bytes src \<and> m = regularFileMode (ae_mode e)" for b m
    using assms(4,6) by (auto simp: leaves_def)
  have files: "map_of ?t' (s @ q) = Some (IFile b k) \<longleftrightarrow>
      (if q = epath e then leaves e b k else map_of t (s @ q) = Some (IFile b k))" for q b k
    using new [of q] leaf by auto
  have dirs: "is_dir (map_of t (s @ q)) \<or> prefix q (epath e) \<and> q \<noteq> epath e" if "is_dir (map_of ?t' (s @ q))" for q
    using new [of q] that strict_prefix_butlast [OF epath_not_Nil, of q e] by (auto split: if_splits)
  show ?thesis
  proof (intro stagedI)
    fix q b k
    show "map_of ?t' (s @ q) = Some (IFile b k) \<longleftrightarrow> (\<exists>e' \<in> set (es @ [e]). q = epath e' \<and> leaves e' b k)"
      using stagedD(1) [OF assms(1), of q b k] files [of q b k] fresh [of _ b k] by auto
    show "map_of ?t' (s @ q) \<noteq> Some IOther" using new [of q] stagedD(2) [OF assms(1), of q] by simp
    show "q = [] \<or> (\<exists>e' \<in> set (es @ [e]). prefix q (epath e') \<and> (ae_isDirectory e' \<or> q \<noteq> epath e'))"
      if "is_dir (map_of ?t' (s @ q))"
      using dirs [OF that] stagedD(3) [OF assms(1), of q] by auto
  qed
qed

definition entry_size :: "archiveEntry \<Rightarrow> int" where
  "entry_size e = (if ae_isDirectory e then 0
     else case zf_Open (ae_file e) of Inl err \<Rightarrow> 0 | Inr src \<Rightarrow> int (length (reader_bytes src)))"

lemma extract_entry_staged:
  assumes "extract_entry env mx (abs_path s) e t x = (t', Inr x')" and "rooted t s"
    and "list_all normal_component s" and "list_all normal_component (epath e)" and "staged s es t"
  shows "staged s (es @ [e]) t' \<and> x' = x + entry_size e"
proof -
  note target = entry_target [OF assms(3,4)]
  show ?thesis
  proof (cases "ae_isDirectory e")
    case True
    then have "make_dirs t (s @ epath e) (directoryMode (ae_mode e)) = Some t'" "x' = x"
      using assms(1) by (auto simp: extract_entry_def target split: option.splits)
    then show ?thesis using staged_dir [OF assms(5) _ assms(2) True] True by (simp add: entry_size_def)
  next
    case False
    then have "extract_file env mx e (s @ epath e) t x = (t', Inr x')"
      using assms(1) by (simp add: extract_entry_def target)
    then show ?thesis
    proof (cases rule: extract_file_Inr)
      case (1 t1 src)
      then show ?thesis using staged_file [OF assms(5) _ assms(2) False] False
        by (simp add: butlast_append entry_size_def)
    qed
  qed
qed

lemma extract_entries_staged:
  assumes "extract_entries env mx (abs_path s) es t x = (t', Inr x')" and "rooted t s"
    and "list_all normal_component s" and "\<forall>e \<in> set es. list_all normal_component (epath e)" and "staged s ds t"
  shows "staged s (ds @ es) t' \<and> x' = x + sum_list (map entry_size es)"
  using assms(1,2,4,5)
proof (induction es arbitrary: t x ds)
  case (Cons e es)
  from Cons.prems(1) obtain t1 x1 where step: "extract_entry env mx (abs_path s) e t x = (t1, Inr x1)"
    and rest: "extract_entries env mx (abs_path s) es t1 x1 = (t', Inr x')"
    by (auto split: prod.splits sum.splits)
  have e: "list_all normal_component (epath e)" using Cons.prems(3) by simp
  note here = extract_entry_staged [OF step Cons.prems(2) assms(3) e Cons.prems(4)]
  show ?case
    using Cons.IH [OF rest extract_entry_confined(1) [OF step Cons.prems(2) assms(3) e], of "ds @ [e]"] here Cons.prems(3)
    by simp
qed simp

section \<open>What inspection guarantees\<close>

text \<open>The sum of the sizes declared for regular entries never wraps: it is within the limit.\<close>

definition inspected :: "unicode \<Rightarrow> int \<Rightarrow> zip_file list \<Rightarrow> inspection \<Rightarrow> bool" where
  "inspected uc mx fs st \<longleftrightarrow>
     map ae_file (in_entries st) = fs
     \<and> (\<forall>e \<in> set (in_entries st). safeArchiveName (zf_Name (ae_file e)) = Inr (ae_name e)
          \<and> ae_isDirectory e = archive_isDirectory (ae_file e) \<and> ae_mode e = zf_Mode (ae_file e))
     \<and> map fst (in_folded st) = rev (map (\<lambda>e. uc_lower uc (ae_name e)) (in_entries st))
     \<and> distinct (map fst (in_folded st))
     \<and> unat (in_expected st) \<le> nat mx
     \<and> unat (in_expected st) = sum_list (map (unat \<circ> zf_UncompressedSize64) (filter (\<lambda>f. \<not> archive_isDirectory f) fs))
     \<and> xs_Files (in_stats st) = length (filter (\<lambda>f. \<not> archive_isDirectory f) fs)
     \<and> xs_Directories (in_stats st) = length (filter archive_isDirectory fs)"

lemma sum_in_range:
  fixes a b :: "64 word"
  assumes "0 \<le> mx" and "mx < 2 ^ 63" and "b \<le> word_of_int mx" and "a \<le> word_of_int mx - b"
  shows "unat (a + b) = unat a + unat b" and "unat (a + b) \<le> nat mx"
proof -
  have mx: "unat (word_of_int mx :: 64 word) = nat mx"
    using assms(1,2) by (simp add: unat_eq_nat_uint uint_word_of_int take_bit_int_eq_self_iff)
  have b: "unat b \<le> nat mx" using assms(3) mx by (simp add: word_le_nat_alt)
  have "unat a \<le> nat mx - unat b"
    using assms(4) mx assms(3) by (simp add: word_le_nat_alt unat_sub)
  then have le: "unat a + unat b \<le> nat mx" using b by simp
  then have "unat a + unat b < 2 ^ 64" using assms(2) by simp
  then show "unat (a + b) = unat a + unat b" by (simp add: unat_word_ariths)
  then show "unat (a + b) \<le> nat mx" using le by simp
qed

lemma inspect_file_inspected:
  assumes "inspect_file uc mx f st = Inr st'" and "inspected uc mx fs st" and "0 \<le> mx" and "mx < 2 ^ 63"
  shows "inspected uc mx (fs @ [f]) st'"
proof -
  obtain name where name: "safeArchiveName (zf_Name f) = Inr name"
    and fresh: "map_of (in_folded st) (uc_lower uc name) = None"
    using assms(1) by (auto simp: inspect_file_def rbind_Inr_iff split: option.splits)
  then have new: "uc_lower uc name \<notin> set (map fst (in_folded st))" by (simp add: map_of_eq_None_iff)
  show ?thesis
  proof (cases "archive_isDirectory f")
    case True
    then show ?thesis using assms(1,2) name fresh new
      by (auto simp: inspect_file_def inspected_def)
  next
    case False
    then have small: "zf_UncompressedSize64 f \<le> word_of_int mx" "in_expected st \<le> word_of_int mx - zf_UncompressedSize64 f"
      using assms(1) name fresh by (auto simp: inspect_file_def split: if_splits)
    let ?e = "\<lparr>ae_file = f, ae_name = name, ae_isDirectory = False, ae_mode = zf_Mode f\<rparr>"
    have "\<not> (zf_UncompressedSize64 f > word_of_int mx \<or> in_expected st > word_of_int mx - zf_UncompressedSize64 f)"
      using small by (simp add: not_less)
    then have st': "in_entries st' = in_entries st @ [?e]" "in_folded st' = (uc_lower uc name, name) # in_folded st"
      "in_expected st' = in_expected st + zf_UncompressedSize64 f"
      "in_stats st' = (in_stats st)\<lparr>xs_Files := xs_Files (in_stats st) + 1\<rparr>"
      using assms(1) name fresh False by (auto simp: inspect_file_def)
    note sum = sum_in_range [OF assms(3,4) small]
    show ?thesis using assms(2) new name False sum unfolding inspected_def st'
      by simp (metis distinct_rev)
  qed
qed

lemma inspect_files_inspected:
  assumes "inspect_files uc mx gs st = Inr st'" and "inspected uc mx fs st" and "0 \<le> mx" and "mx < 2 ^ 63"
  shows "inspected uc mx (fs @ gs) st'"
  using assms(1,2)
proof (induction gs arbitrary: fs st)
  case (Cons g gs)
  then obtain st1 where "inspect_file uc mx g st = Inr st1" "inspect_files uc mx gs st1 = Inr st'"
    by (auto simp: rbind_Inr_iff)
  then show ?case using Cons.IH [of st1 "fs @ [g]"] inspect_file_inspected [OF _ Cons.prems(2) assms(3,4)] by simp
qed simp


text \<open>What \<open>inspectArchive\<close> accepts: ordinary distinct names, none of them below a regular file.\<close>

definition extractable :: "archiveEntry list \<Rightarrow> bool" where
  "extractable es \<longleftrightarrow>
     (\<forall>e \<in> set es. list_all normal_component (epath e)) \<and> distinct (map epath es)
     \<and> (\<forall>e \<in> set es. \<forall>f \<in> set es. \<not> ae_isDirectory f \<longrightarrow> \<not> strict_prefix (epath f) (epath e))"

lemma archive_parents_mem:
  assumes "strict_prefix (epath f) (epath e)"
  shows "ae_name f \<in> set (archive_parents (ae_name e))"
proof -
  let ?i = "length (epath f)"
  have "epath f = take ?i (epath e)" "?i < length (epath e)" "1 \<le> ?i"
    using assms by (auto simp: strict_prefix_def prefix_def Suc_le_eq)
  moreover have "ae_name f = join_with [sl] (epath f)" by (simp add: epath_def)
  ultimately show ?thesis unfolding archive_parents_def epath_def Let_def by force
qed

lemma inspectArchive_ok:
  assumes "inspectArchive uc fs limits = Inr (es, n, st)"
    and "0 \<le> al_MaxExpandedBytes limits" and "al_MaxExpandedBytes limits < 2 ^ 63"
  shows "extractable es" and "map ae_file es = fs" and "int (length fs) \<le> al_MaxEntries limits"
    and "n = int (sum_list (map (unat \<circ> zf_UncompressedSize64) (filter (\<lambda>f. \<not> archive_isDirectory f) fs)))"
    and "n \<le> al_MaxExpandedBytes limits" and "xs_Files st + xs_Directories st = length fs"
    and "\<forall>e \<in> set es. safeArchiveName (zf_Name (ae_file e)) = Inr (ae_name e)
      \<and> ae_isDirectory e = archive_isDirectory (ae_file e) \<and> ae_mode e = zf_Mode (ae_file e)"
proof -
  let ?mx = "al_MaxExpandedBytes limits"
  let ?init = "\<lparr>in_entries = [], in_folded = [], in_expected = 0,
    in_stats = \<lparr>xs_Files = 0, xs_Directories = 0, xs_ExpandedBytes = 0\<rparr>\<rparr>"
  obtain ins where run: "inspect_files uc ?mx fs ?init = Inr ins" and clear: "\<not> parent_conflict es"
    and out: "es = in_entries ins" "n = sint (in_expected ins)" "st = in_stats ins"
    and few: "int (length fs) \<le> al_MaxEntries limits"
    using assms(1) by (auto simp: inspectArchive_def rbind_Inr_iff split: if_splits)
  have "inspected uc ?mx ([] @ fs) ins"
    by (rule inspect_files_inspected [OF run _ assms(2,3)]) (simp add: inspected_def)
  then have ok: "map ae_file es = fs" "distinct (rev (map (\<lambda>e. uc_lower uc (ae_name e)) es))"
    "\<forall>e \<in> set es. safeArchiveName (zf_Name (ae_file e)) = Inr (ae_name e)
      \<and> ae_isDirectory e = archive_isDirectory (ae_file e) \<and> ae_mode e = zf_Mode (ae_file e)"
    "unat (in_expected ins) \<le> nat ?mx"
    "unat (in_expected ins) = sum_list (map (unat \<circ> zf_UncompressedSize64) (filter (\<lambda>f. \<not> archive_isDirectory f) fs))"
    "xs_Files st = length (filter (\<lambda>f. \<not> archive_isDirectory f) fs)"
    "xs_Directories st = length (filter archive_isDirectory fs)"
    using out unfolding inspected_def by (simp, metis, blast, blast, simp_all)
  show "map ae_file es = fs" "int (length fs) \<le> al_MaxEntries limits" using ok(1) few .
  show "\<forall>e \<in> set es. safeArchiveName (zf_Name (ae_file e)) = Inr (ae_name e)
      \<and> ae_isDirectory e = archive_isDirectory (ae_file e) \<and> ae_mode e = zf_Mode (ae_file e)" by (rule ok(3))
  show "xs_Files st + xs_Directories st = length fs"
    using ok(6,7) sum_length_filter_compl [of archive_isDirectory fs] by simp
  have "int (unat (in_expected ins)) \<le> ?mx" using ok(4) assms(2) by linarith
  then have "uint (in_expected ins) < 2 ^ 63" using assms(3) by simp
  then have "signed_take_bit 63 (uint (in_expected ins)) = uint (in_expected ins)"
    by (intro signed_take_bit_int_eq_self) (simp_all add: order_trans [OF _ uint_ge_0])
  then have "sint (in_expected ins) = int (unat (in_expected ins))" by (simp add: sint_uint)
  then show n: "n = int (sum_list (map (unat \<circ> zf_UncompressedSize64) (filter (\<lambda>f. \<not> archive_isDirectory f) fs)))"
    using out(2) ok(5) by simp
  show "n \<le> ?mx" using n ok(4,5) assms(2) by simp
  have names: "distinct (map ae_name es)" using ok(2) by (auto simp: distinct_map inj_on_def)
  have "list_all normal_component (epath e)" if "e \<in> set es" for e
    using ok(3) that safeArchiveName_normal(1) unfolding epath_def by blast
  moreover have "distinct (map epath es)" using names epath_inject by (auto simp: distinct_map inj_on_def)
  moreover have "\<not> strict_prefix (epath f) (epath e)" if e: "e \<in> set es" and f: "f \<in> set es" "\<not> ae_isDirectory f" for e f
  proof
    assume "strict_prefix (epath f) (epath e)"
    then have "ae_name f \<in> set (archive_parents (ae_name e))" by (rule archive_parents_mem)
    moreover have "map_of (map (\<lambda>e. (ae_name e, ae_isDirectory e)) es) (ae_name f) = Some False"
      using f names by (auto simp: map_of_eq_Some_iff comp_def image_iff)
    ultimately show False using clear e by (auto simp: parent_conflict_def list_ex_iff)
  qed
  ultimately show "extractable es" by (auto simp: extractable_def)
qed

section \<open>Extraction of a whole archive\<close>

lemma staged_empty:
  assumes "tree_ok t" and "map_of t s = None"
  shows "staged s [] ((s, IDir m) # t)"
  using tree_okD [OF assms] by (intro stagedI) (auto split: if_splits)

lemma rooted_snoc:
  assumes "rooted t p"
  shows "rooted ((p @ [x], IDir m) # t) (p @ [x])"
  using assms by (auto simp: rooted_def)

text \<open>The setting of the last part of \<open>ExtractZIP\<close>: two places in one directory, the second free.\<close>

definition places :: "tree \<Rightarrow> string list \<Rightarrow> string list \<Rightarrow> bool" where
  "places t d s \<longleftrightarrow> tree_ok t \<and> list_all normal_component s
     \<and> d \<noteq> [] \<and> s \<noteq> [] \<and> butlast s = butlast d \<and> last s \<noteq> last d \<and> rooted t (butlast d)
     \<and> map_of t s = None \<and> (map_of t d = None \<or> is_dir (map_of t d)) \<and> dir_empty t d"

lemma places_apart:
  assumes "places t d s"
  shows "\<not> prefix s d" and "\<not> prefix d s" and "prefix s q \<Longrightarrow> \<not> prefix d q"
proof -
  have len: "length s = length d" and ne: "s \<noteq> d"
    using assms unfolding places_def by (metis length_butlast One_nat_def Suc_pred length_greater_0_conv, metis)
  then show "\<not> prefix s d" "\<not> prefix d s" by (auto simp: prefix_def)
  then show "prefix s q \<Longrightarrow> \<not> prefix d q" using prefix_same_cases by blast
qed

lemma places_below:
  assumes "places t d s" and "prefix s q"
  shows "map_of t q = None"
  using assms tree_okD [of t s q] by (simp add: places_def)

lemma places_dir:
  assumes "places t d s" and "prefix d q"
  shows "map_of t q \<noteq> Some (IFile b m)" and "q \<noteq> d \<Longrightarrow> map_of t q = None"
  using assms by (auto simp: places_def dir_empty_iff strict_prefix_def)

definition no_new_files :: "tree \<Rightarrow> tree \<Rightarrow> bool" where
  "no_new_files t t' \<longleftrightarrow> (\<forall>q b m. map_of t' q = Some (IFile b m) \<longleftrightarrow> map_of t q = Some (IFile b m))"

definition same_outside :: "tree \<Rightarrow> string list \<Rightarrow> tree \<Rightarrow> bool" where
  "same_outside t d t' \<longleftrightarrow> (\<forall>q. \<not> prefix d q \<longrightarrow> map_of t' q = map_of t q)"

definition holds_files :: "tree \<Rightarrow> string list \<Rightarrow> archiveEntry list \<Rightarrow> bool" where
  "holds_files t d es \<longleftrightarrow>
     (\<forall>q b m. map_of t (d @ q) = Some (IFile b m) \<longleftrightarrow> (\<exists>e \<in> set es. q = epath e \<and> leaves e b m))"


lemma commitStaging_cases:
  assumes "commitStaging env t s d = (t', err)" and "map_of t d = None \<or> is_dir (map_of t d)" and "dir_empty t d"
  obtains (kept) "t' = t" "err \<noteq> None"
    | (undone) t0 where "t' = (d, IDir 493) # t0" "err \<noteq> None" "\<And>q. q \<noteq> d \<Longrightarrow> map_of t0 q = map_of t q"
    | (moved) t0 where "t' = rename_tree t0 s d" "err = None" "map_of t0 d = None" "\<And>q. q \<noteq> d \<Longrightarrow> map_of t0 q = map_of t q"
proof (cases "map_of t d")
  case None
  then show ?thesis using assms(1) undone [of t] moved [of t]
    by (cases "ze_rename env"; cases err) (simp_all add: commitStaging_def)
next
  case (Some n)
  let ?t0 = "filter (\<lambda>(q, n). q \<noteq> d) t"
  show ?thesis using assms Some kept undone [of ?t0] moved [of ?t0] map_of_filter_key [of d t]
    by (cases "ze_remove env"; cases "ze_rename env"; cases err) (simp_all add: commitStaging_def)
qed

lemma extract_staged_places:
  assumes "extract_staged env limits es n st s d t = (t', r)" and "places t d s"
    and "\<forall>e \<in> set es. list_all normal_component (epath e)"
  shows "same_outside t d t'" and "r = Inl err \<Longrightarrow> no_new_files t t'"
    and "r = Inr st' \<Longrightarrow> holds_files t' d es \<and> xs_ExpandedBytes st' = n
      \<and> n = sum_list (map entry_size (order_by entry_before es)) \<and> st' = st\<lparr>xs_ExpandedBytes := n\<rparr>"
proof -
  let ?os = "order_by entry_before es"
  obtain t1 r1 where run: "extract_entries env (al_MaxExpandedBytes limits) (abs_path s) ?os ((s, IDir 448) # t) 0 = (t1, r1)"
    by force
  have s: "list_all normal_component s" "s \<noteq> []" using assms(2) unfolding places_def by blast+
  then have snoc: "butlast s @ [last s] = s" by simp
  have root: "rooted ((s, IDir 448) # t) s"
    using rooted_snoc [of t "butlast s" "last s" 448] assms(2) unfolding places_def snoc by auto
  have conf: "map_of t1 q = map_of t q" if "\<not> prefix s q" for q
    using extract_entries_confined [OF run root s(1)] assms(3) that by (auto split: if_splits)
  note apart = places_apart [OF assms(2)]
  have under: "map_of t1 q = map_of t q" if "prefix d q" for q using conf apart(3) that by blast
  have free: "map_of t1 d = None \<or> is_dir (map_of t1 d)" "dir_empty t1 d"
    using assms(2) under by (simp_all add: places_def dir_empty_iff strict_prefix_def)
  have gone: "map_of (remove_all t1 s) q = map_of t q" for q
    using conf places_below [OF assms(2), of q] by (simp add: map_of_remove_all)
  consider (early) "t' = remove_all t1 s" "\<exists>e. r = Inl e"
    | (commit) t2 err where "r1 = Inr n" "commitStaging env t1 s d = (t2, err)"
        "(t', r) = (case err of Some e \<Rightarrow> (remove_all t2 s, Inl e) | None \<Rightarrow> (t2, Inr (st\<lparr>xs_ExpandedBytes := n\<rparr>)))"
    using assms(1) run by (auto simp: extract_staged_def split: sum.splits if_splits prod.splits option.splits)
  then have "same_outside t d t' \<and> (\<forall>err. r = Inl err \<longrightarrow> no_new_files t t')
    \<and> (\<forall>st'. r = Inr st' \<longrightarrow> holds_files t' d es \<and> xs_ExpandedBytes st' = n
      \<and> n = sum_list (map entry_size ?os) \<and> st' = st\<lparr>xs_ExpandedBytes := n\<rparr>)"
  proof cases
    case early
    then show ?thesis using gone by (auto simp: same_outside_def no_new_files_def)
  next
    case commit
    from commit(2) free show ?thesis
    proof (cases rule: commitStaging_cases)
      case kept
      then show ?thesis using gone commit(3) by (auto simp: same_outside_def no_new_files_def split: option.splits)
    next
      case (undone t0)
      have "map_of t' q = (if q = d then Some (IDir 493) else map_of t q)" for q
        using undone commit(3) conf [of q] places_below [OF assms(2), of q] apart(1)
        by (auto simp: map_of_remove_all split: option.splits)
      moreover have "map_of t d \<noteq> Some (IFile b m)" for b m using places_dir(1) [OF assms(2), of d] by simp
      moreover have "\<exists>e. r = Inl e" using undone(2) commit(3) by (auto split: option.splits)
      ultimately show ?thesis by (auto simp: same_outside_def no_new_files_def)
    next
      case (moved t0)
      have t': "t' = rename_tree t0 s d" "r = Inr (st\<lparr>xs_ExpandedBytes := n\<rparr>)" using moved commit(3) by auto
      have empty: "map_of t0 q = None" if "prefix d q" for q
        using that moved(3,4) under places_dir(2) [OF assms(2)] by (cases "q = d") auto
      note ren = map_of_rename_tree [OF empty apart(1,2)]
      have "staged s ([] @ ?os) t1 \<and> n = 0 + sum_list (map entry_size ?os)"
        using assms(2) by (intro extract_entries_staged [OF _ root s(1)])
          (use run commit(1) assms(3) in \<open>auto simp: places_def intro: staged_empty\<close>)
      then have st: "staged s ?os t1" "n = sum_list (map entry_size ?os)" by simp_all
      have "map_of t' (d @ q) = map_of t1 (s @ q)" for q
        using ren [of "d @ q"] t'(1) moved(4) [of "s @ q"] apart(3) [of "s @ q"] by auto
      then have "holds_files t' d es" using stagedD(1) [OF st(1)] by (simp add: holds_files_def)
      moreover have "map_of t' q = map_of t q" if "\<not> prefix d q" for q
        using ren [of q] t'(1) that moved(4) [of q] conf [of q] places_below [OF assms(2), of q] by auto
      ultimately show ?thesis using t'(2) st(2) by (auto simp: same_outside_def)
    qed
  qed
  then show "same_outside t d t'" "r = Inl err \<Longrightarrow> no_new_files t t'"
    "r = Inr st' \<Longrightarrow> holds_files t' d es \<and> xs_ExpandedBytes st' = n
      \<and> n = sum_list (map entry_size ?os) \<and> st' = st\<lparr>xs_ExpandedBytes := n\<rparr>" by blast+
qed


lemma sum_list_insert_by: "sum_list (map f (insert_by le x ys)) = f x + (sum_list (map f ys) :: int)"
  by (induction ys) simp_all

lemma sum_list_order_by: "sum_list (map f (order_by le xs)) = (sum_list (map f xs) :: int)"
  by (induction xs) (simp_all add: sum_list_insert_by)

lemma distinct_order_by: "distinct (map f (order_by le xs)) \<longleftrightarrow> distinct (map f xs)"
proof -
  have "set (map f (order_by le xs)) = set (map f xs)" "length (map f (order_by le xs)) = length (map f xs)" by simp_all
  then show ?thesis by (metis card_distinct distinct_card)
qed

lemma normalizeArchiveLimits_ok:
  assumes "normalizeArchiveLimits limits0 = Inr limits" and "al_MaxExpandedBytes limits0 < 2 ^ 63"
  shows "0 < al_MaxExpandedBytes limits" and "al_MaxExpandedBytes limits < 2 ^ 63" and "0 < al_MaxEntries limits"
  using assms by (auto simp: normalizeArchiveLimits_def DefaultMaxArchiveExpandedBytes_def
      DefaultMaxArchiveEntries_def split: if_splits)

text \<open>The two places \<open>ExtractZIP\<close> works with.\<close>

definition staging_of :: "string list \<Rightarrow> nat \<Rightarrow> string list" where
  "staging_of d k = butlast d @ [''.'' @ last d @ ''.extract-'' @ decimal k]"

lemma staging_places:
  assumes "tree_ok t" and "d \<noteq> []" and "list_all normal_component d" and "make_dirs t (butlast d) 493 = Some t1"
    and "requireMissingOrEmptyDirectory t1 d = None" and "map_of t1 (staging_of d k) = None"
  shows "places t1 d (staging_of d k)"
proof -
  have ok: "tree_ok t1" using make_dirs_tree_ok assms(1,4) .
  have d: "d = butlast d @ [last d]" using assms(2) by simp
  have "list_all normal_component (butlast d @ [last d])" using assms(3) d by simp
  then have "list_all normal_component (butlast d)" "normal_component (last d)" by auto
  then have norm: "list_all normal_component (staging_of d k)"
    using staging_normal by (simp add: staging_of_def)
  have "length (last (staging_of d k)) \<noteq> length (last d)" by (simp add: staging_of_def)
  then have last: "last (staging_of d k) \<noteq> last d" by metis
  have "rooted t1 (butlast d)" unfolding rooted_def
  proof (intro allI impI)
    fix q assume "prefix q (butlast d)"
    then show "is_dir (map_of t1 q)" using make_dirs_SomeD [OF assms(4), of q] by auto
  qed
  moreover have "dir_empty t1 d" and "map_of t1 d = None \<or> is_dir (map_of t1 d)"
    using assms(5) tree_okD [OF ok, of d]
    by (auto simp: requireMissingOrEmptyDirectory_def dir_empty_iff strict_prefix_def split: option.splits if_splits)
  ultimately show ?thesis using ok norm last assms(2,6) by (simp add: places_def staging_of_def)
qed

lemma ExtractZIP_cases:
  assumes "ExtractZIP unzip uc env t source archiveSize destination limits0 = (t', r)"
    and "tree_ok t" and "is_abs (ze_cwd env)"
  obtains (refused) "t' = t" "\<exists>e. r = Inl e"
    | (unplaced) d where "validateDestination (ze_cwd env) destination = Inr (abs_path d)" "d \<noteq> []"
        "list_all normal_component d" "make_dirs t (butlast d) 493 = Some t'" "\<exists>e. r = Inl e"
    | (extracted) d t1 k bytes limits fs es n st where
        "validateDestination (ze_cwd env) destination = Inr (abs_path d)" "d \<noteq> []" "list_all normal_component d"
        "make_dirs t (butlast d) 493 = Some t1" "source = Some bytes" "normalizeArchiveLimits limits0 = Inr limits"
        "unzip bytes archiveSize = Inr fs" "inspectArchive uc fs limits = Inr (es, n, st)" "places t1 d (staging_of d k)"
        "extract_staged env limits es n st (staging_of d k) d t1 = (t', r)"
proof (cases "t' = t \<and> (\<exists>e. r = Inl e)")
  case True
  then show ?thesis using refused by blast
next
  case False
  then obtain bytes limits fs es n st absolute where src: "source = Some bytes" "0 \<le> archiveSize"
    "normalizeArchiveLimits limits0 = Inr limits" "unzip bytes archiveSize = Inr fs"
    "inspectArchive uc fs limits = Inr (es, n, st)" "validateDestination (ze_cwd env) destination = Inr absolute"
    using assms(1) by (auto simp: ExtractZIP_def rbind_def split: option.splits if_splits sum.splits)
  obtain d where d: "d \<noteq> []" "list_all normal_component d" "absolute = abs_path d"
    using validateDestination_abs [OF src(6) assms(3)] by blast
  then have parts: "path_parts absolute = d" by (simp add: path_parts_abs_path)
  obtain t1 where t1: "make_dirs t (butlast d) 493 = Some t1"
    using assms(1) False src parts by (cases "make_dirs t (butlast d) 493") (auto simp: ExtractZIP_def)
  consider "t' = t1" "\<exists>e. r = Inl e"
    | k where "requireMissingOrEmptyDirectory t1 d = None" "map_of t1 (staging_of d k) = None"
      "extract_staged env limits es n st (staging_of d k) d t1 = (t', r)"
    using assms(1) src parts t1
    by (auto simp: ExtractZIP_def staging_of_def split: option.splits sum.splits if_splits)
  then show ?thesis
  proof cases
    case 1
    then show ?thesis using unplaced [of d] src(6) d t1 by simp
  next
    case (2 k)
    then show ?thesis using extracted [of d t1] src d t1 staging_places [OF assms(2) d(1,2) t1] by blast
  qed
qed

section \<open>Extraction succeeds\<close>

text \<open>An entry that decompresses to what its metadata says, with nothing in the way.\<close>

definition well_packed :: "archiveEntry \<Rightarrow> bool" where
  "well_packed e \<longleftrightarrow> ae_isDirectory e \<or>
     (\<exists>src. zf_Open (ae_file e) = Inr src \<and> reader_end src = EOF \<and> length src < 100
        \<and> length (reader_bytes src) = unat (zf_UncompressedSize64 (ae_file e)))"

definition calm :: "zip_env \<Rightarrow> bool" where
  "calm env \<longleftrightarrow> ze_room env = (\<lambda>n. None) \<and> ze_close env = (\<lambda>n. None)"

lemma extractable_apart: "extractable (ds @ e # es) \<Longrightarrow> f \<in> set ds \<Longrightarrow> epath f \<noteq> epath e"
  by (auto simp: extractable_def image_iff)

lemma nothing_in_the_way:
  assumes "staged s ds t" and "rooted t s" and "extractable (ds @ e # es)" and "prefix q (s @ p)"
    and "prefix p (epath e)" and "map_of t q \<noteq> None"
  shows "is_dir (map_of t q)"
proof (cases "prefix q s")
  case True
  then show ?thesis using assms(2) by (simp add: rooted_def)
next
  case False
  then obtain r where r: "q = s @ r" "prefix r p" using assms(4) by (metis prefix_append same_prefix_prefix)
  have "map_of t (s @ r) \<noteq> Some (IFile b m)" for b m
  proof
    assume "map_of t (s @ r) = Some (IFile b m)"
    then obtain f where f: "f \<in> set ds" "r = epath f" "\<not> ae_isDirectory f"
      using stagedD(1) [OF assms(1), of r b m] by (auto simp: leaves_def)
    have "prefix (epath f) (epath e)" using r(2) f(2) assms(5) by auto
    moreover have "epath f \<noteq> epath e" using extractable_apart [OF assms(3) f(1)] .
    ultimately show False using assms(3) f by (auto simp: extractable_def strict_prefix_def)
  qed
  then show ?thesis using assms(6) r(1) stagedD(2) [OF assms(1), of r]
    by (cases "map_of t (s @ r)"; cases "the (map_of t (s @ r))") auto
qed

lemma extract_entry_succeeds:
  assumes "staged s ds t" and "rooted t s" and "extractable (ds @ e # es)" and "list_all normal_component s"
    and "well_packed e" and "calm env" and "x + entry_size e \<le> mx"
  shows "\<exists>t'. extract_entry env mx (abs_path s) e t x = (t', Inr (x + entry_size e))"
proof -
  have e: "list_all normal_component (epath e)" using assms(3) by (simp add: extractable_def)
  note target = entry_target [OF assms(4) e]
  note clear = nothing_in_the_way [OF assms(1-3)]
  show ?thesis
  proof (cases "ae_isDirectory e")
    case True
    obtain t' where "make_dirs t (s @ epath e) (directoryMode (ae_mode e)) = Some t'"
      using make_dirs_isSome [of "s @ epath e" t] clear by blast
    then show ?thesis using True by (simp add: extract_entry_def target entry_size_def)
  next
    case False
    then obtain src where src: "zf_Open (ae_file e) = Inr src" "reader_end src = EOF" "length src < 100"
      "length (reader_bytes src) = unat (zf_UncompressedSize64 (ae_file e))"
      using assms(5) by (auto simp: well_packed_def)
    have bl: "prefix (butlast (epath e)) (epath e)" by (simp add: prefixeq_butlast)
    obtain t1 where t1: "make_dirs t (s @ butlast (epath e)) 493 = Some t1"
      using make_dirs_isSome [of "s @ butlast (epath e)" t] clear [OF _ bl] by blast
    have free: "map_of t (s @ epath e) = None"
    proof (rule ccontr)
      assume *: "map_of t (s @ epath e) \<noteq> None"
      then have "is_dir (map_of t (s @ epath e))" using clear [of "s @ epath e" "epath e"] by simp
      then obtain f where f: "f \<in> set ds" "prefix (epath e) (epath f)" "ae_isDirectory f \<or> epath e \<noteq> epath f"
        using stagedD(3) [OF assms(1), of "epath e"] by auto
      moreover have "epath e \<noteq> epath f" using extractable_apart [OF assms(3) f(1)] by simp
      ultimately show False using assms(3) False by (auto simp: extractable_def strict_prefix_def)
    qed
    then have "map_of t1 (s @ epath e) = None"
      using make_dirs_below(3) [OF t1 assms(2), of "epath e"] strict_prefix_butlast [OF epath_not_Nil, of "epath e" e] by simp
    moreover have "CopyAndHash \<lparr>wr_bytes = [], wr_room = None\<rparr> src (mx - x)
        = (\<lparr>cr_SizeBytes = length (reader_bytes src), cr_SHA256 = sha256_hex (reader_bytes src)\<rparr>, None,
           \<lparr>wr_bytes = reader_bytes src, wr_room = None\<rparr>)"
      unfolding CopyAndHash_def using src assms(7) False
      by (intro CopyAndHashContext_flows) (auto simp: entry_size_def)
    ultimately show ?thesis using False src t1 assms(6)
      by (simp add: extract_entry_def extract_file_def target butlast_append calm_def entry_size_def)
  qed
qed

lemma extract_entries_succeeds:
  assumes "staged s ds t" and "rooted t s" and "extractable (ds @ es)" and "list_all normal_component s"
    and "\<forall>e \<in> set es. well_packed e" and "calm env" and "x + sum_list (map entry_size es) \<le> mx"
  shows "\<exists>t'. extract_entries env mx (abs_path s) es t x = (t', Inr (x + sum_list (map entry_size es)))"
  using assms(1,2,3,5,7)
proof (induction es arbitrary: t x ds)
  case (Cons e es)
  have "0 \<le> sum_list (map entry_size es)"
    by (intro sum_list_nonneg) (auto simp: entry_size_def split: sum.splits)
  then have fits: "x + entry_size e \<le> mx" using Cons.prems(5) by simp
  have packed: "well_packed e" using Cons.prems(4) by simp
  obtain t1 where step: "extract_entry env mx (abs_path s) e t x = (t1, Inr (x + entry_size e))"
    using extract_entry_succeeds [OF Cons.prems(1-3) assms(4) packed assms(6) fits] by blast
  have e: "list_all normal_component (epath e)" using Cons.prems(3) by (simp add: extractable_def)
  have "staged s (ds @ [e]) t1" using extract_entry_staged [OF step Cons.prems(2) assms(4) e Cons.prems(1)] by simp
  moreover have "rooted t1 s" using extract_entry_confined(1) [OF step Cons.prems(2) assms(4) e] .
  ultimately show ?case using Cons.IH [of "ds @ [e]" t1 "x + entry_size e"] Cons.prems(3-5) step by (simp add: add.assoc)
qed simp


text \<open>All of it, from an accepted archive to the renamed directory.\<close>

lemma ExtractZIP_runs:
  assumes "normalizeArchiveLimits limits0 = Inr limits" and "al_MaxExpandedBytes limits0 < 2 ^ 63"
    and "unzip bytes (int (length bytes)) = Inr fs" and "inspectArchive uc fs limits = Inr (es, n, st)"
    and "\<forall>e \<in> set es. well_packed e" and "calm env" and "ze_tmp env = Inr k" and "ze_rename env = None"
    and "tree_ok t" and "d \<noteq> []" and "list_all normal_component d" and "trim_space (abs_path d) \<noteq> []"
    and "rooted t (butlast d)" and "map_of t d = None" and "map_of t (staging_of d k) = None"
  shows "\<exists>t'. ExtractZIP unzip uc env t (Some bytes) (int (length bytes)) (abs_path d) limits0
    = (t', Inr (st\<lparr>xs_ExpandedBytes := n\<rparr>))"
proof -
  let ?s = "staging_of d k" and ?os = "order_by entry_before es"
  have lim: "0 \<le> al_MaxExpandedBytes limits" "al_MaxExpandedBytes limits < 2 ^ 63"
    using normalizeArchiveLimits_ok [OF assms(1,2)] by simp_all
  note ins = inspectArchive_ok [OF assms(4) lim]
  have dest: "validateDestination (ze_cwd env) (abs_path d) = Inr (abs_path d)"
    using assms(10-12) abs_path_inject [of d "[]"] path_clean_abs_path
    by (auto simp: validateDestination_def abs_path_def [of "[]"])
  obtain t1 where t1: "make_dirs t (butlast d) 493 = Some t1"
    using make_dirs_isSome [of "butlast d" t] assms(13) by (auto simp: rooted_def)
  have "map_of t q \<noteq> None" if "prefix q (butlast d)" for q
    using assms(13) that is_dir_simps(2) unfolding rooted_def by metis
  then have same: "map_of t1 q = map_of t q" for q using make_dirs_SomeD(1) [OF t1, of q] by auto
  have req: "requireMissingOrEmptyDirectory t1 d = None"
    using assms(14) same by (simp add: requireMissingOrEmptyDirectory_def)
  have pl: "places t1 d ?s" using staging_places [OF assms(9-11) t1 req] assms(15) same by simp
  have s: "list_all normal_component ?s" and root: "rooted ((?s, IDir 448) # t1) ?s" and st: "staged ?s [] ((?s, IDir 448) # t1)"
    using pl rooted_snoc [of t1 "butlast d"] staged_empty by (auto simp: places_def staging_of_def)
  have ex: "extractable ?os" using ins(1) by (simp add: extractable_def distinct_order_by)
  have size: "entry_size e = (if archive_isDirectory (ae_file e) then 0 else int (unat (zf_UncompressedSize64 (ae_file e))))"
    if "e \<in> set es" for e using assms(5) that ins(7) by (auto simp: entry_size_def well_packed_def)
  have "sum_list (map entry_size es) = sum_list (map (\<lambda>f. if archive_isDirectory f then 0 else int (unat (zf_UncompressedSize64 f))) fs)"
    unfolding ins(2) [symmetric] using size by (simp add: comp_def cong: map_cong)
  also have "\<dots> = n" unfolding ins(4) by (induction fs) simp_all
  finally have sum: "sum_list (map entry_size ?os) = n" by (simp add: sum_list_order_by)
  obtain t2 where run: "extract_entries env (al_MaxExpandedBytes limits) (abs_path ?s) ?os ((?s, IDir 448) # t1) 0 = (t2, Inr n)"
    using extract_entries_succeeds [OF st root _ s _ assms(6), of ?os 0] ex sum assms(5) ins(5) by auto
  have "map_of t2 d = None"
    using extract_entries_confined [OF run root s] places_apart(1) [OF pl] assms(14) same ins(1)
    by (auto simp: extractable_def split: if_splits)
  then have "commitStaging env t2 ?s d = (rename_tree t2 ?s d, None)" using assms(8) by (simp add: commitStaging_def)
  then have "extract_staged env limits es n st ?s d t1 = (rename_tree t2 ?s d, Inr (st\<lparr>xs_ExpandedBytes := n\<rparr>))"
    using run by (simp add: extract_staged_def)
  then show ?thesis using assms(1,3,4,7,11,15) dest t1 req same
    by (simp add: ExtractZIP_def path_parts_abs_path staging_of_def)
qed

text \<open>What a successful extraction leaves, with the names it accepted.\<close>

lemma ExtractZIP_exact:
  assumes "ExtractZIP unzip uc env t source archiveSize destination limits = (t', Inr stats)"
    and "tree_ok t" and "is_abs (ze_cwd env)" and "al_MaxExpandedBytes limits < 2 ^ 63"
  shows "\<exists>d bytes lim fs. validateDestination (ze_cwd env) destination = Inr (abs_path d)
    \<and> list_all normal_component d \<and> source = Some bytes \<and> unzip bytes archiveSize = Inr fs \<and> normalizeArchiveLimits limits = Inr lim
    \<and> (\<forall>q b m. map_of t' (d @ q) = Some (IFile b m) \<longleftrightarrow>
         (\<exists>f \<in> set fs. \<not> archive_isDirectory f \<and> safeArchiveName (zf_Name f) = Inr (join_with [sl] q)
            \<and> (\<exists>src. zf_Open f = Inr src \<and> b = reader_bytes src) \<and> m = regularFileMode (zf_Mode f) \<and> q \<noteq> []
            \<and> list_all normal_component q))
    \<and> xs_ExpandedBytes stats
        = int (sum_list (map (unat \<circ> zf_UncompressedSize64) (filter (\<lambda>f. \<not> archive_isDirectory f) fs)))
    \<and> xs_ExpandedBytes stats \<le> al_MaxExpandedBytes lim
    \<and> int (xs_Files stats + xs_Directories stats) \<le> al_MaxEntries lim
    \<and> (\<forall>f \<in> set fs. \<exists>name. safeArchiveName (zf_Name f) = Inr name)"
  using assms(1-3)
proof (cases rule: ExtractZIP_cases)
  case (extracted d t1 k bytes lim fs es n st)
  have lim: "0 \<le> al_MaxExpandedBytes lim" "al_MaxExpandedBytes lim < 2 ^ 63"
    using normalizeArchiveLimits_ok [OF extracted(6) assms(4)] by simp_all
  note ins = inspectArchive_ok [OF extracted(8) lim]
  have norm: "\<forall>e \<in> set es. list_all normal_component (epath e)" using ins(1) by (simp add: extractable_def)
  from extract_staged_places(3) [OF extracted(10,9) norm]
  have out: "holds_files t' d es" "xs_ExpandedBytes stats = n" "stats = st\<lparr>xs_ExpandedBytes := n\<rparr>" by auto
  have "(\<exists>e \<in> set es. q = epath e \<and> leaves e b m) \<longleftrightarrow>
      (\<exists>f \<in> set fs. \<not> archive_isDirectory f \<and> safeArchiveName (zf_Name f) = Inr (join_with [sl] q)
            \<and> (\<exists>src. zf_Open f = Inr src \<and> b = reader_bytes src) \<and> m = regularFileMode (zf_Mode f) \<and> q \<noteq> []
            \<and> list_all normal_component q)" (is "?l \<longleftrightarrow> ?r") for q b m
  proof
    assume ?l
    then obtain e where e: "e \<in> set es" "q = epath e" "leaves e b m" by blast
    then show ?r using ins(7) norm ins(2) [symmetric]
      by (intro bexI [of _ "ae_file e"]) (auto simp: leaves_def epath_def)
  next
    assume ?r
    then obtain f where f: "f \<in> set fs" "\<not> archive_isDirectory f" "safeArchiveName (zf_Name f) = Inr (join_with [sl] q)"
      "\<exists>src. zf_Open f = Inr src \<and> b = reader_bytes src" "m = regularFileMode (zf_Mode f)" "q \<noteq> []"
      "list_all normal_component q" by blast
    then obtain e where e: "e \<in> set es" "ae_file e = f" using ins(2) by auto
    then have "ae_name e = join_with [sl] q" using ins(7) f(3) by force
    then have "q = epath e" using f(6,7) by (simp add: epath_def split_join_normal)
    then show ?l using e f ins(7) by (intro bexI [of _ e]) (auto simp: leaves_def)
  qed
  moreover have "\<forall>f \<in> set fs. \<exists>name. safeArchiveName (zf_Name f) = Inr name" using ins(2,7) by (metis in_set_conv_nth length_map nth_map)
  ultimately show ?thesis using out ins extracted(1,3,5,6,7)
    by (intro exI [of _ d] exI [of _ bytes] exI [of _ lim] exI [of _ fs]) (simp add: holds_files_def)
qed simp_all

section \<open>Properties\<close>

text \<open>
  C12: extraction stays in its destination. Whatever the archive holds and whatever fails, a
  path outside the destination is as it was before, except that missing directories above
  the destination were made; and when extraction fails it leaves no file behind anywhere
  and takes none away.
\<close>

theorem extract_confined:
  assumes "ExtractZIP unzip uc env t source archiveSize destination limits = (t', r)"
    and "tree_ok t" and "is_abs (ze_cwd env)" and "al_MaxExpandedBytes limits < 2 ^ 63"
  shows "(t' = t \<or> (\<exists>d. validateDestination (ze_cwd env) destination = Inr (abs_path d)
      \<and> list_all normal_component d \<and> (\<forall>q. prefix d q \<or> map_of t' q = map_of t q
           \<or> strict_prefix q d \<and> map_of t q = None \<and> map_of t' q = Some (IDir 493))))
    \<and> (\<forall>e. r = Inl e \<longrightarrow>
         (\<forall>q b m. map_of t' q = Some (IFile b m) \<longleftrightarrow> map_of t q = Some (IFile b m)))"
  using assms(1-3)
proof (cases rule: ExtractZIP_cases)
  case (unplaced d)
  note new = make_dirs_SomeD(1) [OF unplaced(4)]
  have "strict_prefix q d" if "prefix q (butlast d)" for q
    using that strict_prefix_butlast [OF unplaced(2), of q] by simp
  then show ?thesis using new unplaced(1,3) by auto
next
  case (extracted d t1 k bytes lim fs es n st)
  note lim = normalizeArchiveLimits_ok [OF extracted(6) assms(4)]
  have "\<forall>e \<in> set es. list_all normal_component (epath e)"
    using inspectArchive_ok(1) [OF extracted(8)] lim by (simp add: extractable_def)
  note out = extract_staged_places [OF extracted(10,9) this]
  note new = make_dirs_SomeD(1) [OF extracted(4)]
  have "strict_prefix q d" if "prefix q (butlast d)" for q
    using that strict_prefix_butlast [OF extracted(2), of q] by simp
  then have "prefix d q \<or> map_of t' q = map_of t q
      \<or> strict_prefix q d \<and> map_of t q = None \<and> map_of t' q = Some (IDir 493)" for q
    using out(1) new [of q] by (auto simp: same_outside_def split: if_splits)
  moreover have "map_of t' q = Some (IFile b m) \<longleftrightarrow> map_of t q = Some (IFile b m)" if "r = Inl e" for e q b m
    using out(2) [OF that] new [of q] by (simp add: no_new_files_def)
  ultimately show ?thesis using extracted(1,3) by blast
qed simp

definition sample_file :: zip_file where
  "sample_file = \<lparr>zf_Name = ''a/b.py'', zf_Mode = 420, zf_UncompressedSize64 = 3, zf_Open = Inr [(''x=1'', None)]\<rparr>"

definition sample_folder :: zip_file where
  "sample_folder = \<lparr>zf_Name = ''a/'', zf_Mode = ModeDir OR 511, zf_UncompressedSize64 = 0, zf_Open = Inr []\<rparr>"

definition sample_uc :: unicode where
  "sample_uc = \<lparr>uc_lower = (\<lambda>s. s), uc_quote = (\<lambda>s. s)\<rparr>"

definition sample_zenv :: zip_env where
  "sample_zenv = \<lparr>ze_cwd = ''/'', ze_tmp = Inr 7, ze_room = (\<lambda>n. None), ze_close = (\<lambda>n. None),
     ze_remove = None, ze_rename = None\<rparr>"

definition sample_unzip :: "string \<Rightarrow> int \<Rightarrow> zip_file list result" where
  "sample_unzip bytes n = Inr [sample_file, sample_folder]"

definition sample_entries :: "archiveEntry list" where
  "sample_entries =
     [\<lparr>ae_file = sample_file, ae_name = ''a/b.py'', ae_isDirectory = False, ae_mode = 420\<rparr>,
      \<lparr>ae_file = sample_folder, ae_name = ''a'', ae_isDirectory = True, ae_mode = ModeDir OR 511\<rparr>]"

definition sample_tree :: tree where
  "sample_tree = [([], IDir 493), ([''w''], IDir 448), ([''w'', ''x''], IFile ''keep'' 384)]"

definition sample_limits :: archive_limits where
  "sample_limits = \<lparr>al_MaxEntries = 0, al_MaxExpandedBytes = 0\<rparr>"

definition sample_norm :: archive_limits where
  "sample_norm = \<lparr>al_MaxEntries = 1000, al_MaxExpandedBytes = 268435456\<rparr>"

lemma sample_inspect:
  "inspectArchive sample_uc [sample_file, sample_folder] sample_norm
     = Inr (sample_entries, 3, \<lparr>xs_Files = 1, xs_Directories = 1, xs_ExpandedBytes = 0\<rparr>)"
  by code_simp

lemma sample_tree_ok: "tree_ok sample_tree" "rooted sample_tree [''w'']"
  by (auto simp: tree_ok_def rooted_def sample_tree_def strict_prefix_def prefix_Cons Cons_eq_append_conv
      append_eq_Cons_conv split: if_splits)

lemma sample_packed: "\<forall>e \<in> set sample_entries. well_packed e"
  by (simp add: sample_entries_def well_packed_def sample_file_def)

lemma sample_dest: "trim_space (abs_path [''w'', ''code'']) \<noteq> []"
  by code_simp

lemma sample_extracts:
  "\<exists>t'. ExtractZIP sample_unzip sample_uc sample_zenv sample_tree (Some ''PK'') 2 (abs_path [''w'', ''code'']) sample_limits
     = (t', Inr \<lparr>xs_Files = 1, xs_Directories = 1, xs_ExpandedBytes = 3\<rparr>)"
  using ExtractZIP_runs [of sample_limits sample_norm sample_unzip "''PK''" "[sample_file, sample_folder]" sample_uc
      sample_entries 3 "\<lparr>xs_Files = 1, xs_Directories = 1, xs_ExpandedBytes = 0\<rparr>" sample_zenv 7 sample_tree
      "[''w'', ''code'']"] sample_inspect sample_packed sample_tree_ok sample_dest
  by (simp add: sample_limits_def sample_norm_def normalizeArchiveLimits_def DefaultMaxArchiveEntries_def
      DefaultMaxArchiveExpandedBytes_def sample_unzip_def calm_def sample_zenv_def sample_tree_def staging_of_def
      normal_component_def sl_def)

lemma sample_validate: "validateDestination ''/'' (abs_path [''w'', ''code'']) = Inr (abs_path [''w'', ''code''])"
  by code_simp

lemma sample_two: "list_all normal_component [''w'', ''code'']"
  by (simp add: normal_component_def sl_def)

lemma sample_dir:
  assumes "validateDestination (ze_cwd sample_zenv) (abs_path [''w'', ''code'']) = Inr (abs_path d)"
    and "list_all normal_component d"
  shows "d = [''w'', ''code'']"
  using assms sample_validate abs_path_inject [OF assms(2) sample_two] by (simp add: sample_zenv_def)

lemma sample_zenv_ok: "is_abs (ze_cwd sample_zenv)" "al_MaxExpandedBytes sample_limits < 2 ^ 63"
  by (simp_all add: sample_zenv_def sample_limits_def is_abs_def has_prefix_def sl_def)

theorem extract_confined_witness:
  "\<exists>t' stats. ExtractZIP sample_unzip sample_uc sample_zenv sample_tree (Some ''PK'') 2 (abs_path [''w'', ''code'']) sample_limits
       = (t', Inr stats) \<and> map_of t' [''w'', ''x''] = Some (IFile ''keep'' 384)"
proof -
  obtain t' stats where run: "ExtractZIP sample_unzip sample_uc sample_zenv sample_tree (Some ''PK'') 2
      (abs_path [''w'', ''code'']) sample_limits = (t', Inr stats)" using sample_extracts by blast
  from extract_confined [OF run sample_tree_ok(1) sample_zenv_ok]
  have "t' = sample_tree \<or> (\<exists>d. d = [''w'', ''code''] \<and> (prefix d [''w'', ''x'']
      \<or> map_of t' [''w'', ''x''] = map_of sample_tree [''w'', ''x''] \<or> strict_prefix [''w'', ''x''] d))"
    using sample_dir by blast
  then have "map_of t' [''w'', ''x''] = map_of sample_tree [''w'', ''x'']" by auto
  then show ?thesis using run by (auto simp: sample_tree_def)
qed

end
