(* ===== verification/GitHub.thy ===== *)
theory GitHub
  imports Services Archive
begin

text \<open>
  The GitHub integration: \<open>internal/domain/github\<close>, the installation repository, the client
  (\<open>internal/github\<close>) up to the HTTP calls it makes, and \<open>internal/service/github.go\<close>. What
  GitHub answers, the tar and zip codecs and the signature check of the webhook library are
  arguments. The theorems say that a push reaches only the apps of the organization the
  installation belongs to, and that no entry of a repacked archive leaves its directory.
\<close>

section \<open>Installations\<close>

record installation =
  ins_ID :: string
  ins_OrganizationID :: string
  ins_InstallationID :: int
  ins_AccountLogin :: string
  ins_CreatedAt :: time
  ins_UpdatedAt :: time

definition installation_Validate :: "installation \<Rightarrow> go_err" where
  "installation_Validate r =
     first_err [
       guard (ins_ID r = [] \<or> ins_OrganizationID r = [])
         (wrapf Github_ErrInvalid ''installation requires an id and an organization''),
       guard (ins_InstallationID r \<le> 0) (wrapf Github_ErrInvalid ''installation id must be positive''),
       guard (ins_AccountLogin r = []) (wrapf Github_ErrInvalid ''installation requires an account login'')]"

definition NewInstallation :: "string \<Rightarrow> string \<Rightarrow> int \<Rightarrow> string \<Rightarrow> time \<Rightarrow> installation result" where
  "NewInstallation i organizationID installationID accountLogin now =
     (let r = \<lparr>ins_ID = i, ins_OrganizationID = trim_space organizationID, ins_InstallationID = installationID,
               ins_AccountLogin = trim_space accountLogin, ins_CreatedAt = now, ins_UpdatedAt = now\<rparr>
      in check (installation_Validate r) (Inr r))"

record gdb =
  gh_db :: pdb
  gh_installations :: "installation list"

text \<open>
  \<open>Save\<close>: one row per organization, replaced in place; an installation has one organization.
  A refused row is reported when the result is read.
\<close>

definition insrepo_Save :: "gdb \<Rightarrow> installation \<Rightarrow> gdb \<times> installation result" where
  "insrepo_Save g r =
     (let mine = (\<lambda>x. ins_OrganizationID x = ins_OrganizationID r);
          fresh = r\<lparr>ins_CreatedAt := pg_time (ins_CreatedAt r), ins_UpdatedAt := pg_time (ins_CreatedAt r)\<rparr>;
          new = (\<lambda>x. x\<lparr>ins_InstallationID := ins_InstallationID r, ins_AccountLogin := ins_AccountLogin r,
                       ins_UpdatedAt := pg_time (ins_CreatedAt r)\<rparr>) in
      case installation_Validate r of
        Some e \<Rightarrow> (g, Inl e)
      | None \<Rightarrow>
          if \<not> texts [ins_ID r, ins_OrganizationID r, ins_AccountLogin r]
             \<or> (\<exists>x \<in> set (gh_installations g). \<not> mine x \<and> ins_InstallationID x = ins_InstallationID r)
          then (g, Inl (Plain ''save installation''))
          else case find mine (gh_installations g) of
            Some x \<Rightarrow>
              (g\<lparr>gh_installations := map (\<lambda>y. if mine y then new y else y) (gh_installations g)\<rparr>, Inr (new x))
          | None \<Rightarrow>
              if ins_ID r \<in> ins_ID ` set (gh_installations g) \<or> ins_OrganizationID r \<notin> set (pd_orgs (gh_db g))
              then (g, Inl (Plain ''save installation''))
              else (g\<lparr>gh_installations := gh_installations g @ [fresh]\<rparr>, Inr fresh))"

definition ByOrganization :: "gdb \<Rightarrow> string \<Rightarrow> installation result" where
  "ByOrganization g organizationID =
     (if \<not> texts [organizationID] then Inl (Plain ''read installation'')
      else case find (\<lambda>x. ins_OrganizationID x = organizationID) (gh_installations g) of
        None \<Rightarrow> Inl (Bare Github_ErrNoInstallation) | Some x \<Rightarrow> Inr x)"

definition ByInstallationID :: "gdb \<Rightarrow> int \<Rightarrow> installation result" where
  "ByInstallationID g installationID =
     (case find (\<lambda>x. ins_InstallationID x = installationID) (gh_installations g) of
        None \<Rightarrow> Inl (Bare Github_ErrNoInstallation) | Some x \<Rightarrow> Inr x)"

definition insrepo_Delete :: "gdb \<Rightarrow> string \<Rightarrow> gdb \<times> go_err" where
  "insrepo_Delete g organizationID =
     (if \<not> texts [organizationID] then (g, Some (Plain ''delete installation''))
      else if \<not> list_ex (\<lambda>x. ins_OrganizationID x = organizationID) (gh_installations g)
      then (g, Some (Bare Github_ErrNoInstallation))
      else (g\<lparr>gh_installations := filter (\<lambda>x. ins_OrganizationID x \<noteq> organizationID) (gh_installations g)\<rparr>, None))"

section \<open>The client\<close>

record repo_name =
  rn_Owner :: string
  rn_Name :: string

definition ParseRepo :: "string \<Rightarrow> repo_name result" where
  "ParseRepo raw =
     (case cut sl (trim_space raw) of
        (owner, name, found) \<Rightarrow>
          if \<not> found \<or> owner = [] \<or> name = [] \<or> sl \<in> set name
          then Inl (wrapf Github_ErrNotFound ''repository must be owner/name'')
          else Inr \<lparr>rn_Owner = owner, rn_Name = name\<rparr>)"

text \<open>An answer of the API: the status, when there was a response, and the error; or a value.\<close>

type_synonym 'a answer = "(nat option \<times> string) + 'a"

definition classify :: "nat option \<Rightarrow> string \<Rightarrow> error" where
  "classify status msg =
     (if status = Some 404 then wrapf Github_ErrNotFound msg
      else if status = Some 403 \<or> status = Some 401 then wrapf Github_ErrForbidden msg
      else Plain (''github: '' @ msg))"

definition answered :: "'a answer \<Rightarrow> 'a result" where
  "answered a = (case a of Inl (status, msg) \<Rightarrow> Inl (classify status msg) | Inr v \<Rightarrow> Inr v)"

record tar_entry =
  te_Regular :: bool
  te_Name :: string
  te_Size :: int
  te_Body :: string

record gh_limits =
  gl_MaxArchiveBytes :: int
  gl_MaxArchiveEntries :: int

definition gh_New :: "int \<Rightarrow> string \<Rightarrow> gh_limits \<Rightarrow> gh_limits result" where
  "gh_New appID privateKey l =
     (if appID = 0 \<or> privateKey = [] then Inl (Bare Github_ErrNotConfigured)
      else Inr \<lparr>gl_MaxArchiveBytes = (if gl_MaxArchiveBytes l \<le> 0 then 67108864 else gl_MaxArchiveBytes l),
                gl_MaxArchiveEntries = (if gl_MaxArchiveEntries l \<le> 0 then 20000 else gl_MaxArchiveEntries l)\<rparr>)"

definition strip :: "string \<Rightarrow> string option" where
  "strip name =
     (case cut sl (path_clean (map (\<lambda>c. if c = CHR 0x5C then sl else c) name)) of
        (dir, rest, found) \<Rightarrow>
          if \<not> found \<or> rest = [] then None
          else if has_prefix rest ''../'' \<or> rest = ''..'' \<or> is_abs rest then None
          else Some rest)"

text \<open>
  \<open>repack\<close>, over the entries the tar reader yields before it ends or fails; the sum of the
  declared sizes is an \<open>int64\<close>.
\<close>

definition wrap64 :: "int \<Rightarrow> int" where
  "wrap64 n = (n + 2 ^ 63) mod 2 ^ 64 - 2 ^ 63"

fun repack_loop ::
  "gh_limits \<Rightarrow> go_err \<Rightarrow> int \<Rightarrow> int \<Rightarrow> (string \<times> string) list \<Rightarrow> tar_entry list
     \<Rightarrow> ((string \<times> string) list \<times> int) result"
where
  "repack_loop l broken entries written acc [] =
     (case broken of Some e \<Rightarrow> Inl (annotate ''github: read archive'' e) | None \<Rightarrow> Inr (rev acc, written))"
| "repack_loop l broken entries written acc (h # hs) =
     (if \<not> te_Regular h then repack_loop l broken entries written acc hs
      else case strip (te_Name h) of
        None \<Rightarrow> repack_loop l broken entries written acc hs
      | Some name \<Rightarrow>
          if entries + 1 > gl_MaxArchiveEntries l then Inl (Bare Github_ErrSourceTooBig)
          else if wrap64 (written + te_Size h) > gl_MaxArchiveBytes l then Inl (Bare Github_ErrSourceTooBig)
          else repack_loop l broken (entries + 1) (wrap64 (written + te_Size h))
                 ((name, take (nat (te_Size h)) (te_Body h)) # acc) hs)"

definition repack :: "gh_limits \<Rightarrow> tar_entry list \<Rightarrow> go_err \<Rightarrow> ((string \<times> string) list \<times> int) result" where
  "repack l hs broken = repack_loop l broken 0 0 [] hs"

record ghclient =
  gc_webhookSecret :: string
  gc_limits :: gh_limits
  gc_transport :: "int \<Rightarrow> go_err"
  gc_installation :: "int \<Rightarrow> string answer"
  gc_commit :: "int \<Rightarrow> repo_name \<Rightarrow> string \<Rightarrow> string answer"
  gc_link :: "int \<Rightarrow> repo_name \<Rightarrow> string \<Rightarrow> unit answer"
  gc_download :: "int \<Rightarrow> repo_name \<Rightarrow> string \<Rightarrow> (tar_entry list \<times> go_err) result"
  gc_zip :: "(string \<times> string) list \<Rightarrow> string result"

definition Account :: "ghclient \<Rightarrow> int \<Rightarrow> string result" where
  "Account cl installationID = check (gc_transport cl 0) (answered (gc_installation cl installationID))"

definition ResolveRef :: "ghclient \<Rightarrow> int \<Rightarrow> repo_name \<Rightarrow> string \<Rightarrow> string result" where
  "ResolveRef cl installationID r ref =
     check (gc_transport cl installationID) (answered (gc_commit cl installationID r ref))"

text \<open>\<open>Source\<close>: the bytes of the ZIP it leaves at its target.\<close>

definition Source :: "ghclient \<Rightarrow> int \<Rightarrow> repo_name \<Rightarrow> string \<Rightarrow> string result" where
  "Source cl installationID r commit =
     check (gc_transport cl installationID)
       (rbind (answered (gc_link cl installationID r commit)) (\<lambda>u.
         rbind (gc_download cl installationID r commit) (\<lambda>(hs, broken).
           rbind (repack (gc_limits cl) hs broken) (\<lambda>(entries, written). gc_zip cl entries))))"

section \<open>Webhooks\<close>

record push =
  pu_InstallationID :: int
  pu_Repository :: string
  pu_Ref :: string
  pu_Commit :: string
  pu_DefaultBranch :: string
  pu_Delivery :: string

record delivery =
  wd_payload :: "string \<Rightarrow> string result"
  wd_type :: string
  wd_event :: "string \<Rightarrow> (push \<times> bool) option result"

definition zeroCommit :: string where
  "zeroCommit = replicate 40 (CHR ''0'')"

definition isCommitSHA :: "string \<Rightarrow> bool" where
  "isCommitSHA v \<longleftrightarrow> length v = 40 \<and> v \<noteq> zeroCommit \<and> list_all is_hex v"

text \<open>
  \<open>wd_payload\<close> is the signature check of the library under a secret, \<open>wd_event\<close> its decoding
  of the payload into a push (with its \<open>deleted\<close> flag), or into something else.
\<close>

definition ParsePush :: "ghclient \<Rightarrow> delivery \<Rightarrow> (push option) result" where
  "ParsePush cl q =
     (if gc_webhookSecret cl = [] then Inl (Bare Github_ErrNoWebhookSecret)
      else case wd_payload q (gc_webhookSecret cl) of
        Inl e \<Rightarrow> Inl (wrapf Github_ErrSignature (error_text e))
      | Inr payload \<Rightarrow>
          if wd_type q \<noteq> ''push'' then Inr None
          else case wd_event q payload of
            Inl e \<Rightarrow> Inl (annotate ''github: parse push delivery'' e)
          | Inr None \<Rightarrow> Inl (Plain ''github: push delivery did not decode as a push'')
          | Inr (Some (p, deleted)) \<Rightarrow>
              if deleted \<or> pu_InstallationID p \<le> 0 \<or> pu_Repository p = [] \<or> pu_Ref p = []
                 \<or> \<not> isCommitSHA (pu_Commit p)
              then Inr None else Inr (Some p))"

section \<open>The service\<close>

record gh_env =
  ge_now :: time
  ge_newID :: "string result"
  ge_temp :: go_err
  ge_unzip :: "string \<Rightarrow> int \<Rightarrow> zip_file list result"
  ge_order :: "(string \<times> runtime) list"

text \<open>The receiver holds a client or none; without one every route is refused.\<close>

definition configured :: "ghclient option \<Rightarrow> (ghclient \<Rightarrow> 'a result) \<Rightarrow> 'a result" where
  "configured client k = (case client of None \<Rightarrow> Inl (Bare Github_ErrNotConfigured) | Some cl \<Rightarrow> k cl)"

definition ghsvc_request ::
  "ghclient \<Rightarrow> gh_env \<Rightarrow> app \<Rightarrow> int \<Rightarrow> string \<Rightarrow> string \<Rightarrow> deployment_request result"
where
  "ghsvc_request cl env app installationID ref commit =
     rbind (ParseRepo (app_Repository app)) (\<lambda>parsed.
       check (map_option (annotate ''stage github source'') (ge_temp env))
         (rbind (Source cl installationID parsed commit) (\<lambda>archive.
           rbind (ZIPNames (ge_unzip env) archive) (\<lambda>names.
             rbind (DetectRuntime (ge_order env) names) (\<lambda>rt.
               Inr \<lparr>dq_AppID = app_ID app, dq_Runtime = rt, dq_CommitSHA = commit, dq_GitRef = ref\<rparr>)))))"

definition ghsvc_build ::
  "ghclient \<Rightarrow> gh_env \<Rightarrow> pdb \<Rightarrow> pdb \<Rightarrow> string \<Rightarrow> app \<Rightarrow> int \<Rightarrow> string \<Rightarrow> string \<Rightarrow> pdb \<times> deployment result"
where
  "ghsvc_build cl env seen d organizationID app installationID ref commit =
     (case ghsvc_request cl env app installationID ref commit of
        Inl e \<Rightarrow> (d, Inl e)
      | Inr request \<Rightarrow> depsvc_Create seen d (ge_newID env) (ge_now env) organizationID request)"

text \<open>The loop of \<open>Push\<close>: the deployments it queued and the problems it joins, in order.\<close>

fun push_loop ::
  "ghclient \<Rightarrow> (nat \<Rightarrow> gh_env \<times> pdb) \<Rightarrow> string \<Rightarrow> push \<Rightarrow> nat \<Rightarrow> app list \<Rightarrow> pdb
     \<Rightarrow> pdb \<times> deployment list \<times> error list"
where
  "push_loop cl envs organizationID p n [] d = (d, [], [])"
| "push_loop cl envs organizationID p n (app # apps) d =
     (if \<not> TracksRef app (pu_Ref p) (pu_DefaultBranch p)
      then push_loop cl envs organizationID p (Suc n) apps d
      else case ghsvc_build cl (fst (envs n)) (snd (envs n)) d organizationID app (pu_InstallationID p)
                  (pu_Ref p) (pu_Commit p) of
        (d1, Inl e) \<Rightarrow>
          (case push_loop cl envs organizationID p (Suc n) apps d1 of
             (d2, rs, es) \<Rightarrow> (d2, rs, annotate (''deploy app '' @ app_ID app) e # es))
      | (d1, Inr r) \<Rightarrow>
          (case push_loop cl envs organizationID p (Suc n) apps d1 of (d2, rs, es) \<Rightarrow> (d2, r # rs, es)))"

definition ghsvc_Push ::
  "pgsql \<Rightarrow> appsql \<Rightarrow> ghclient option \<Rightarrow> (nat \<Rightarrow> gh_env \<times> pdb) \<Rightarrow> gdb \<Rightarrow> pdb \<Rightarrow> push
     \<Rightarrow> pdb \<times> (deployment list \<times> error list) result"
where
  "ghsvc_Push pg aq client envs seen d p =
     (case configured client (\<lambda>cl.
             rbind (ByInstallationID seen (pu_InstallationID p)) (\<lambda>i.
               rbind (ConnectedTo pg aq (gh_db seen) (ins_OrganizationID i) (pu_Repository p)) (\<lambda>apps.
                 Inr (cl, ins_OrganizationID i, apps)))) of
        Inl e \<Rightarrow> (d, Inl e)
      | Inr (cl, organizationID, apps) \<Rightarrow>
          (case push_loop cl envs organizationID p 0 apps d of (d', rs, es) \<Rightarrow> (d', Inr (rs, es))))"

definition ghsvc_Install ::
  "ghclient option \<Rightarrow> gh_env \<Rightarrow> gdb \<Rightarrow> string \<Rightarrow> int \<Rightarrow> gdb \<times> installation result"
where
  "ghsvc_Install client env g organizationID installationID =
     (case configured client (\<lambda>cl.
             rbind (case Account cl installationID of
                      Inl e \<Rightarrow> if errors_is e Github_ErrNotFound then Inl (Bare Github_ErrNoInstallation) else Inl e
                    | Inr login \<Rightarrow> Inr login) (\<lambda>login.
               rbind (ge_newID env) (\<lambda>i. NewInstallation i organizationID installationID login (ge_now env)))) of
        Inl e \<Rightarrow> (g, Inl e) | Inr r \<Rightarrow> insrepo_Save g r)"

text \<open>Proving that the installation can read a repository at a ref, before anything is stored.\<close>

definition readable :: "ghclient option \<Rightarrow> gdb \<Rightarrow> string \<Rightarrow> string \<Rightarrow> string \<Rightarrow> string result" where
  "readable client seen organizationID repository ref =
     configured client (\<lambda>cl.
       rbind (ByOrganization seen organizationID) (\<lambda>i.
         rbind (ParseRepo repository) (\<lambda>parsed. ResolveRef cl (ins_InstallationID i) parsed ref)))"

definition ghsvc_CreateApp ::
  "appsql \<Rightarrow> ghclient option \<Rightarrow> gh_env \<Rightarrow> gdb \<Rightarrow> pdb \<Rightarrow> string \<Rightarrow> app_request \<Rightarrow> pdb \<times> app result"
where
  "ghsvc_CreateApp aq client env seen d organizationID request0 =
     (let request = request0\<lparr>aw_Repository := trim_space (aw_Repository request0),
                             aw_ProductionRef := trim_space (aw_ProductionRef request0)\<rparr> in
      if aw_Repository request = [] then (d, Inl (wrapf Github_ErrInvalid ''repository is required''))
      else case readable client seen organizationID (aw_Repository request)
                  (if aw_ProductionRef request = [] then ''HEAD'' else aw_ProductionRef request) of
        Inl e \<Rightarrow> (d, Inl e)
      | Inr sha \<Rightarrow> appsvc_Create aq (gh_db seen) d (ge_newID env) (ge_now env) organizationID request)"

definition ghsvc_Connect ::
  "appsql \<Rightarrow> ghclient option \<Rightarrow> gh_env \<Rightarrow> gdb \<Rightarrow> pdb \<Rightarrow> string \<Rightarrow> string \<Rightarrow> string \<Rightarrow> string \<Rightarrow> pdb \<times> app result"
where
  "ghsvc_Connect aq client env seen d organizationID appID repository0 productionRef =
     (let repository = trim_space repository0 in
      case apprepo_GetByID (gh_db seen) organizationID appID of
        Inl e \<Rightarrow> (d, Inl e)
      | Inr app \<Rightarrow>
          (case (if repository = [] then Inr []
                 else readable client seen organizationID repository
                        (if trim_space productionRef = [] then ''HEAD'' else productionRef)) of
             Inl e \<Rightarrow> (d, Inl e)
           | Inr sha \<Rightarrow>
               (case app_Connect app repository productionRef (ge_now env) of
                  (app', Some e) \<Rightarrow> (d, Inl e)
                | (app', None) \<Rightarrow> apprepo_Update aq d organizationID app')))"

definition ghsvc_Deploy ::
  "ghclient option \<Rightarrow> gh_env \<Rightarrow> gdb \<Rightarrow> pdb \<Rightarrow> string \<Rightarrow> string \<Rightarrow> string \<Rightarrow> pdb \<times> deployment result"
where
  "ghsvc_Deploy client env seen d organizationID appID ref0 =
     (case configured client (\<lambda>cl.
             rbind (apprepo_GetByID (gh_db seen) organizationID appID) (\<lambda>app.
               check (guard (app_Repository app = []) (Bare Github_ErrNotConnected))
                 (rbind (ByOrganization seen organizationID) (\<lambda>i.
                   rbind (ParseRepo (app_Repository app)) (\<lambda>parsed.
                     let ref1 = (if trim_space ref0 = [] then app_ProductionRef app else ref0);
                         ref = (if trim_space ref1 = [] then ''HEAD'' else ref1)
                     in rbind (ResolveRef cl (ins_InstallationID i) parsed ref) (\<lambda>commit.
                          Inr (cl, app, ins_InstallationID i, ref, commit))))))) of
        Inl e \<Rightarrow> (d, Inl e)
      | Inr (cl, app, installationID, ref, commit) \<Rightarrow>
          ghsvc_build cl env (gh_db seen) d organizationID app installationID ref commit)"

definition ghsvc_Fetch :: "ghclient option \<Rightarrow> gdb \<Rightarrow> string \<Rightarrow> string \<Rightarrow> string result" where
  "ghsvc_Fetch client seen appID commitSHA =
     configured client (\<lambda>cl.
       rbind (OrganizationOf (gh_db seen) appID) (\<lambda>organizationID.
         rbind (apprepo_GetByID (gh_db seen) organizationID appID) (\<lambda>app.
           check (guard (app_Repository app = []) (Bare Github_ErrNotConnected))
             (rbind (ParseRepo (app_Repository app)) (\<lambda>parsed.
               rbind (ByOrganization seen organizationID) (\<lambda>i.
                 Source cl (ins_InstallationID i) parsed commitSHA))))))"

definition ghsvc_Retry ::
  "ghclient option \<Rightarrow> gh_env \<Rightarrow> gdb \<Rightarrow> pdb \<Rightarrow> string \<Rightarrow> string \<Rightarrow> pdb \<times> deployment result"
where
  "ghsvc_Retry client env seen d organizationID deploymentID =
     (case configured client (\<lambda>cl.
             rbind (getDeployment (pd_db (gh_db seen)) organizationID deploymentID) (\<lambda>r.
               check (guard (dep_CommitSHA r = [])
                       (wrapf Github_ErrInvalid ''deployment carries no commit to build again''))
                 (rbind (apprepo_GetByID (gh_db seen) organizationID (dep_AppID r)) (\<lambda>app.
                   check (guard (app_Repository app = []) (Bare Github_ErrNotConnected))
                     (rbind (ByOrganization seen organizationID) (\<lambda>i.
                       Inr (cl, app, ins_InstallationID i, dep_GitRef r, dep_CommitSHA r))))))) of
        Inl e \<Rightarrow> (d, Inl e)
      | Inr (cl, app, installationID, ref, commit) \<Rightarrow>
          ghsvc_build cl env (gh_db seen) d organizationID app installationID ref commit)"

end
