(* ===== verification/Isolation.thy ===== *)
theory Isolation
  imports GitHub
begin

text \<open>
  What one organization does never shows in another. The rows of an organization are its
  projects, its apps, and the deployments, builds and executions of its apps. The invariant
  of the tables is what the foreign keys and the services keep: identifiers are unique,
  every reference resolves, and a build or an execution names the app its deployment, its
  build and its original name.
\<close>

section \<open>The rows of an organization\<close>

definition owner :: "pdb \<Rightarrow> string \<Rightarrow> string option" where
  "owner d i = (case app_view (pd_apps d) i of None \<Rightarrow> None | Some p \<Rightarrow> project_view (pd_projects d) p)"

definition owned :: "pdb \<Rightarrow> string \<Rightarrow> ('a \<Rightarrow> string) \<Rightarrow> 'a list \<Rightarrow> 'a list" where
  "owned d org key xs = filter (\<lambda>x. owner d (key x) = Some org) xs"

definition org_rows ::
  "pdb \<Rightarrow> string \<Rightarrow> project list \<times> app list \<times> dep_row list \<times> build list \<times> exec_row list"
where
  "org_rows d org =
     (filter (\<lambda>p. prj_OrganizationID p = org) (pd_projects d), owned d org app_ID (pd_apps d),
      owned d org dr_app_id (dd_deployments (pd_db d)), owned d org bld_AppID (db_builds (pd_db d)),
      owned d org xr_app_id (db_executions (pd_db d)))"

definition views_ok :: "pdb \<Rightarrow> bool" where
  "views_ok d \<longleftrightarrow>
     db_app_project (pd_db d) = app_view (pd_apps d) \<and> db_project_org (pd_db d) = project_view (pd_projects d)
     \<and> dd_active_build (pd_db d) = active_view (pd_apps d)"

definition keys_ok :: "pdb \<Rightarrow> bool" where
  "keys_ok d \<longleftrightarrow>
     distinct (map prj_ID (pd_projects d)) \<and> distinct (map app_ID (pd_apps d)) \<and> ddb_ok (pd_db d)
     \<and> distinct (map xr_id (db_executions (pd_db d)))"

definition refs_ok :: "pdb \<Rightarrow> bool" where
  "refs_ok d \<longleftrightarrow>
     (\<forall>a \<in> set (pd_apps d). app_ProjectID a \<in> prj_ID ` set (pd_projects d))
     \<and> (\<forall>x \<in> set (dd_deployments (pd_db d)). dr_app_id x \<in> app_ID ` set (pd_apps d))
     \<and> (\<forall>b \<in> set (db_builds (pd_db d)).
          \<exists>x \<in> set (dd_deployments (pd_db d)). dr_id x = bld_DeploymentID b \<and> dr_app_id x = bld_AppID b)
     \<and> (\<forall>x \<in> set (db_executions (pd_db d)).
          \<exists>b \<in> set (db_builds (pd_db d)). bld_ID b = xr_build_id x \<and> bld_AppID b = xr_app_id x)
     \<and> (\<forall>x \<in> set (db_executions (pd_db d)). \<forall>i. xr_rerun_of x = Some i \<longrightarrow>
          (\<exists>y \<in> set (db_executions (pd_db d)). xr_id y = i \<and> xr_app_id y = xr_app_id x))"

definition pdb_ok :: "pdb \<Rightarrow> bool" where
  "pdb_ok d \<longleftrightarrow> views_ok d \<and> keys_ok d \<and> refs_ok d"

text \<open>
  An identifier that two states of a history both know means the same row in both:
  identifiers are minted, never chosen, and not used again.
\<close>

definition same_ids :: "pdb \<Rightarrow> pdb \<Rightarrow> bool" where
  "same_ids seen d \<longleftrightarrow>
     (\<forall>i org. owner seen i = Some org \<longrightarrow> i \<in> app_ID ` set (pd_apps d) \<longrightarrow> owner d i = Some org)
     \<and> (\<forall>p org. project_view (pd_projects seen) p = Some org \<longrightarrow> p \<in> prj_ID ` set (pd_projects d)
          \<longrightarrow> project_view (pd_projects d) p = Some org)
     \<and> (\<forall>b \<in> set (db_builds (pd_db seen)). \<forall>c \<in> set (db_builds (pd_db d)).
          bld_ID c = bld_ID b \<longrightarrow> bld_AppID c = bld_AppID b)
     \<and> (\<forall>x \<in> set (db_executions (pd_db seen)). \<forall>y \<in> set (db_executions (pd_db d)).
          xr_id y = xr_id x \<longrightarrow> xr_app_id y = xr_app_id x)"

section \<open>Lookups by key\<close>

lemma find_key_None: "find (\<lambda>x. k x = i) xs = None \<longleftrightarrow> i \<notin> k ` set xs"
  by (induction xs) auto

lemma find_key_append:
  "i \<in> k ` set xs \<Longrightarrow> find (\<lambda>x. k x = i) (xs @ ys) = find (\<lambda>x. k x = i) xs"
  by (induction xs) auto

lemma find_key_append_new:
  "i \<notin> k ` set xs \<Longrightarrow> find (\<lambda>x. k x = i) (xs @ ys) = find (\<lambda>x. k x = i) ys"
  by (induction xs) auto

lemma find_key_distinct: "distinct (map k xs) \<Longrightarrow> x \<in> set xs \<Longrightarrow> find (\<lambda>y. k y = k x) xs = Some x"
  by (induction xs) (auto simp: image_iff)

lemma find_key_map:
  "(\<And>x. k (f x) = k x) \<Longrightarrow> find (\<lambda>x. k x = i) (map f xs) = map_option f (find (\<lambda>x. k x = i) xs)"
  by (induction xs) auto

lemma find_key_filter:
  "distinct (map k xs) \<Longrightarrow> find (\<lambda>x. k x = i) (filter P xs) = (case find (\<lambda>x. k x = i) xs of
     None \<Rightarrow> None | Some x \<Rightarrow> if P x then Some x else None)"
  by (induction xs) (auto simp: find_key_None [THEN iffD2] split: option.split)

lemma app_view_None: "app_view as i = None \<longleftrightarrow> i \<notin> app_ID ` set as"
  by (simp add: app_view_def find_key_None)

lemma project_view_None: "project_view ps i = None \<longleftrightarrow> i \<notin> prj_ID ` set ps"
  by (simp add: project_view_def find_key_None)

lemma views_with_tables [simp]:
  "pd_projects (with_tables ps as d) = ps" "pd_apps (with_tables ps as d) = as"
  "pd_orgs (with_tables ps as d) = pd_orgs d"
  "dd_deployments (pd_db (with_tables ps as d)) = dd_deployments (pd_db d)"
  "db_builds (pd_db (with_tables ps as d)) = db_builds (pd_db d)"
  "db_executions (pd_db (with_tables ps as d)) = db_executions (pd_db d)"
  "views_ok (with_tables ps as d)"
  by (simp_all add: with_tables_def views_ok_def)

lemma owner_None: "refs_ok d \<Longrightarrow> owner d i = None \<longleftrightarrow> i \<notin> app_ID ` set (pd_apps d)"
proof -
  assume refs: "refs_ok d"
  have "app_view (pd_apps d) i = Some p \<Longrightarrow> p \<in> prj_ID ` set (pd_projects d)" for p
    using refs unfolding refs_ok_def app_view_def by (auto dest!: find_Some_mem)
  then show ?thesis
    using app_view_None [of "pd_apps d" i] project_view_None
    by (auto simp: owner_def split: option.split)
qed

lemma owner_app:
  "keys_ok d \<Longrightarrow> a \<in> set (pd_apps d) \<Longrightarrow> owner d (app_ID a) = project_view (pd_projects d) (app_ProjectID a)"
  by (simp add: owner_def app_view_def keys_ok_def find_key_distinct)

lemma in_org_owner: "keys_ok d \<Longrightarrow> a \<in> set (pd_apps d) \<Longrightarrow> in_org d org a \<longleftrightarrow> owner d (app_ID a) = Some org"
  by (simp add: owner_app in_org_def)

lemma app_keys:
  assumes "refs_ok d"
  shows "x \<in> set (dd_deployments (pd_db d)) \<Longrightarrow> owner d (dr_app_id x) \<noteq> None"
    and "b \<in> set (db_builds (pd_db d)) \<Longrightarrow> owner d (bld_AppID b) \<noteq> None"
    and "y \<in> set (db_executions (pd_db d)) \<Longrightarrow> owner d (xr_app_id y) \<noteq> None"
proof -
  show dep: "owner d (dr_app_id x) \<noteq> None" if "x \<in> set (dd_deployments (pd_db d))" for x
    using assms that owner_None [OF assms] unfolding refs_ok_def by blast
  show bld: "owner d (bld_AppID b) \<noteq> None" if "b \<in> set (db_builds (pd_db d))" for b
    using assms that dep unfolding refs_ok_def by metis
  show "owner d (xr_app_id y) \<noteq> None" if "y \<in> set (db_executions (pd_db d))" for y
    using assms that bld unfolding refs_ok_def by metis
qed

section \<open>What a change of the tables keeps\<close>

text \<open>
  A change on behalf of an organization: whatever other organization's rows there were, in
  each table, are the same afterwards.
\<close>

definition untouched :: "string \<Rightarrow> pdb \<Rightarrow> pdb \<Rightarrow> bool" where
  "untouched org d d' \<longleftrightarrow> (\<forall>other. other \<noteq> org \<longrightarrow> org_rows d' other = org_rows d other)"

lemma untouched_refl [simp]: "untouched org d d"
  by (simp add: untouched_def)

lemma untouched_trans: "untouched org a b \<Longrightarrow> untouched org b c \<Longrightarrow> untouched org a c"
  by (simp add: untouched_def)

lemma filter_upd:
  "(\<And>x. x \<in> set xs \<Longrightarrow> P x \<Longrightarrow> f x = x \<and> Q x) \<Longrightarrow> (\<And>x. x \<in> set xs \<Longrightarrow> \<not> P x \<Longrightarrow> \<not> Q (f x)) \<Longrightarrow>
   filter Q (map f xs) = filter P xs"
  by (induction xs) auto

lemma owned_cong:
  "(\<And>x. x \<in> set xs \<Longrightarrow> owner d' (key x) = owner d (key x)) \<Longrightarrow> owned d' org key xs = owned d org key xs"
  by (auto simp: owned_def intro: filter_cong)

lemma owned_upd:
  assumes "\<And>x. x \<in> set xs \<Longrightarrow> owner d' (key (f x)) = owner d (key x)"
    and "\<And>x. x \<in> set xs \<Longrightarrow> owner d (key x) = Some org \<Longrightarrow> f x = x"
  shows "owned d' org key (map f xs) = owned d org key xs"
  unfolding owned_def using assms by (intro filter_upd) (metis+)

lemma owned_append: "owned d org key (xs @ ys) = owned d org key xs @ owned d org key ys"
  by (simp add: owned_def)

lemma owned_gone:
  assumes "\<And>x. x \<in> set xs \<Longrightarrow> owner d' (key x) = (if key x \<in> gone then None else owner d (key x))"
    and "\<And>i. i \<in> gone \<Longrightarrow> owner d i \<noteq> Some org"
  shows "owned d' org key (filter (\<lambda>x. key x \<notin> gone) xs) = owned d org key xs"
  unfolding owned_def filter_filter using assms by (intro filter_cong) auto


lemma owner_with_tables:
  "owner (with_tables ps as d) i = (case app_view as i of None \<Rightarrow> None | Some p \<Rightarrow> project_view ps p)"
  by (simp add: owner_def split: option.split)

lemma org_rows_with_tables:
  assumes "\<And>i. i \<in> app_ID ` set (pd_apps d) \<Longrightarrow> owner (with_tables ps as d) i = owner d i" and "refs_ok d"
    and "filter (\<lambda>p. prj_OrganizationID p = other) ps = filter (\<lambda>p. prj_OrganizationID p = other) (pd_projects d)"
    and "owned (with_tables ps as d) other app_ID as = owned d other app_ID (pd_apps d)"
  shows "org_rows (with_tables ps as d) other = org_rows d other"
proof -
  have "owner (with_tables ps as d) i = owner d i" if "owner d i \<noteq> None" for i
    using that assms(1) owner_None [OF assms(2), of i] by auto
  then show ?thesis
    unfolding org_rows_def using assms(3,4) app_keys [OF assms(2)] owned_cong
    by (simp add: owned_cong [of _ "with_tables ps as d" _ d])
qed

lemma keys_ok_with_tables:
  "keys_ok d \<Longrightarrow> distinct (map prj_ID ps) \<Longrightarrow> distinct (map app_ID as) \<Longrightarrow> keys_ok (with_tables ps as d)"
  by (simp add: keys_ok_def ddb_ok_def)

lemma refs_ok_with_tables:
  "refs_ok d \<Longrightarrow> (\<And>a. a \<in> set as \<Longrightarrow> app_ProjectID a \<in> prj_ID ` set ps) \<Longrightarrow>
   app_ID ` set (pd_apps d) \<subseteq> app_ID ` set as \<Longrightarrow> refs_ok (with_tables ps as d)"
  unfolding refs_ok_def by auto

lemma pdb_ok_with_tables:
  assumes "pdb_ok d" and "distinct (map prj_ID ps)" and "distinct (map app_ID as)"
    and "\<And>a. a \<in> set as \<Longrightarrow> app_ProjectID a \<in> prj_ID ` set ps" and "app_ID ` set (pd_apps d) \<subseteq> app_ID ` set as"
  shows "pdb_ok (with_tables ps as d)"
  using assms keys_ok_with_tables [OF _ assms(2,3), of d] refs_ok_with_tables [OF _ assms(4,5)]
  by (simp add: pdb_ok_def)

lemma key_inj: "distinct (map k xs) \<Longrightarrow> x \<in> set xs \<Longrightarrow> y \<in> set xs \<Longrightarrow> k x = k y \<Longrightarrow> x = y"
  by (induction xs) (auto simp: image_iff)

lemma map_keys: "(\<And>x. k (f x) = k x) \<Longrightarrow> map k (map f xs) = map k xs \<and> k ` set (map f xs) = k ` set xs"
  by (simp add: image_image)

lemma add_project:
  assumes "pdb_ok d" and "prj_ID p \<notin> prj_ID ` set (pd_projects d)" and "prj_OrganizationID p = org"
  shows "pdb_ok (with_tables (pd_projects d @ [p]) (pd_apps d) d)
    \<and> untouched org d (with_tables (pd_projects d @ [p]) (pd_apps d) d)"
proof -
  let ?d = "with_tables (pd_projects d @ [p]) (pd_apps d) d"
  have ok: "keys_ok d" "refs_ok d" using assms(1) by (simp_all add: pdb_ok_def)
  have same: "owner ?d i = owner d i" if "i \<in> app_ID ` set (pd_apps d)" for i
  proof -
    obtain a where a: "find (\<lambda>a. app_ID a = i) (pd_apps d) = Some a"
      using \<open>i \<in> _\<close> find_key_None [of app_ID i "pd_apps d"] by blast
    then have "app_ProjectID a \<in> prj_ID ` set (pd_projects d)"
      using ok(2) find_Some_mem [OF a] unfolding refs_ok_def by blast
    then show ?thesis using a by (simp add: owner_def app_view_def project_view_def find_key_append)
  qed
  have "pdb_ok ?d"
    using ok assms(2) by (intro pdb_ok_with_tables [OF assms(1)]) (auto simp: keys_ok_def refs_ok_def)
  moreover have "owned ?d other app_ID (pd_apps d) = owned d other app_ID (pd_apps d)" for other
    using same by (intro owned_cong) auto
  ultimately show ?thesis
    using org_rows_with_tables [OF same ok(2)] assms(3) by (simp add: untouched_def)
qed

lemma change_projects:
  assumes "pdb_ok d" and f: "\<And>p. prj_ID (f p) = prj_ID p" "\<And>p. prj_OrganizationID (f p) = prj_OrganizationID p"
    and other: "\<And>p. p \<in> set (pd_projects d) \<Longrightarrow> prj_OrganizationID p \<noteq> org \<Longrightarrow> f p = p"
  shows "pdb_ok (with_tables (map f (pd_projects d)) (pd_apps d) d)
    \<and> untouched org d (with_tables (map f (pd_projects d)) (pd_apps d) d)"
proof -
  let ?d = "with_tables (map f (pd_projects d)) (pd_apps d) d"
  have ok: "keys_ok d" "refs_ok d" using assms(1) by (simp_all add: pdb_ok_def)
  have view: "project_view (map f (pd_projects d)) = project_view (pd_projects d)"
    by (rule ext) (simp add: project_view_def find_key_map [of prj_ID f, OF f(1)] option.map_comp comp_def f(2))
  have same: "owner ?d = owner d" by (rule ext) (simp add: owner_def view split: option.split)
  note keys = map_keys [of prj_ID f "pd_projects d", OF f(1)]
  have "pdb_ok ?d"
    using ok by (intro pdb_ok_with_tables [OF assms(1)]) (simp_all only: keys, simp_all add: keys_ok_def refs_ok_def)
  moreover have "filter (\<lambda>p. prj_OrganizationID p = o1) (map f (pd_projects d))
      = filter (\<lambda>p. prj_OrganizationID p = o1) (pd_projects d)" if "o1 \<noteq> org" for o1
    using that other f(2) by (intro filter_upd) auto
  ultimately show ?thesis
    using org_rows_with_tables [OF _ ok(2)] same by (simp add: untouched_def owned_def)
qed

lemma add_app:
  assumes "pdb_ok d" and "app_ID a \<notin> app_ID ` set (pd_apps d)"
    and "project_view (pd_projects d) (app_ProjectID a) = Some org"
  shows "pdb_ok (with_tables (pd_projects d) (pd_apps d @ [a]) d)
    \<and> untouched org d (with_tables (pd_projects d) (pd_apps d @ [a]) d)"
proof -
  let ?d = "with_tables (pd_projects d) (pd_apps d @ [a]) d"
  have ok: "keys_ok d" "refs_ok d" using assms(1) by (simp_all add: pdb_ok_def)
  have same: "owner ?d i = owner d i" if "i \<in> app_ID ` set (pd_apps d)" for i
    using that by (simp add: owner_def app_view_def find_key_append split: option.split)
  have new: "owner ?d (app_ID a) = Some org"
    using assms(2,3) by (simp add: owner_def app_view_def find_key_append_new)
  have "app_ProjectID a \<in> prj_ID ` set (pd_projects d)" using assms(3) project_view_None [of "pd_projects d" "app_ProjectID a"] by auto
  then have "pdb_ok ?d"
    using ok assms(2) by (intro pdb_ok_with_tables [OF assms(1)]) (auto simp: keys_ok_def refs_ok_def)
  moreover have "owned ?d other app_ID (pd_apps d @ [a]) = owned d other app_ID (pd_apps d)" if "other \<noteq> org" for other
    using that new owned_cong [of "pd_apps d" ?d app_ID d other] same by (simp add: owned_append) (simp add: owned_def)
  ultimately show ?thesis
    using org_rows_with_tables [OF same ok(2)] by (simp add: untouched_def)
qed

lemma change_apps:
  assumes "pdb_ok d" and f: "\<And>a. app_ID (f a) = app_ID a" "\<And>a. app_ProjectID (f a) = app_ProjectID a"
    and other: "\<And>a. a \<in> set (pd_apps d) \<Longrightarrow> \<not> in_org d org a \<Longrightarrow> f a = a"
  shows "pdb_ok (with_tables (pd_projects d) (map f (pd_apps d)) d)
    \<and> untouched org d (with_tables (pd_projects d) (map f (pd_apps d)) d)"
proof -
  let ?d = "with_tables (pd_projects d) (map f (pd_apps d)) d"
  have ok: "keys_ok d" "refs_ok d" using assms(1) by (simp_all add: pdb_ok_def)
  have view: "app_view (map f (pd_apps d)) = app_view (pd_apps d)"
    by (rule ext) (simp add: app_view_def find_key_map [of app_ID f, OF f(1)] option.map_comp comp_def f(2))
  have same: "owner ?d = owner d" by (rule ext) (simp add: owner_def view split: option.split)
  note keys = map_keys [of app_ID f "pd_apps d", OF f(1)]
  have "app_ProjectID a \<in> prj_ID ` set (pd_projects d)" if "a \<in> set (map f (pd_apps d))" for a
    using that ok(2) f(2) unfolding refs_ok_def by auto
  then have "pdb_ok ?d"
    using ok(1) by (intro pdb_ok_with_tables [OF assms(1)]) (simp_all only: keys, simp_all add: keys_ok_def)
  moreover have "owned ?d o1 app_ID (map f (pd_apps d)) = owned d o1 app_ID (pd_apps d)" if "o1 \<noteq> org" for o1
    using that same other f(1) in_org_owner [OF ok(1)] by (intro owned_upd) auto
  ultimately show ?thesis
    using org_rows_with_tables [OF _ ok(2)] same by (simp add: untouched_def)
qed

text \<open>Deletes: the references make the cascade a filter on the app.\<close>

lemma cascade_filters:
  assumes "refs_ok d"
  shows "dd_deployments (cascade_apps gone (pd_db d)) = filter (\<lambda>x. dr_app_id x \<notin> gone) (dd_deployments (pd_db d))"
    and "keys_ok d \<Longrightarrow> db_builds (cascade_apps gone (pd_db d)) = filter (\<lambda>b. bld_AppID b \<notin> gone) (db_builds (pd_db d))"
    and "keys_ok d \<Longrightarrow> db_executions (cascade_apps gone (pd_db d)) = filter (\<lambda>x. xr_app_id x \<notin> gone) (db_executions (pd_db d))"
proof -
  let ?D = "dd_deployments (pd_db d)" and ?B = "db_builds (pd_db d)" and ?X = "db_executions (pd_db d)"
  show "dd_deployments (cascade_apps gone (pd_db d)) = filter (\<lambda>x. dr_app_id x \<notin> gone) ?D"
    by (simp add: cascade_apps_def Let_def)
  assume keys: "keys_ok d"
  have dep: "bld_AppID b \<in> gone" if b: "b \<in> set ?B" and deps: "bld_DeploymentID b \<in> dr_id ` {x \<in> set ?D. dr_app_id x \<in> gone}" for b
  proof -
    obtain x where x: "x \<in> set ?D" "dr_id x = bld_DeploymentID b" "dr_app_id x = bld_AppID b"
      using assms b unfolding refs_ok_def by blast
    obtain y where y: "y \<in> set ?D" "dr_id y = bld_DeploymentID b" "dr_app_id y \<in> gone" using deps by auto
    then have "y = x" using keys x ddb_key [of "pd_db d" y x] by (simp add: keys_ok_def)
    then show ?thesis using x y by simp
  qed
  have bld: "bld_AppID b \<in> gone \<or> bld_DeploymentID b \<in> dr_id ` {x \<in> set ?D. dr_app_id x \<in> gone} \<longleftrightarrow> bld_AppID b \<in> gone"
    if "b \<in> set ?B" for b using dep that by blast
  then show "db_builds (cascade_apps gone (pd_db d)) = filter (\<lambda>b. bld_AppID b \<notin> gone) ?B"
    unfolding cascade_apps_def Let_def by simp (rule filter_cong, auto)
  let ?blds = "bld_ID ` {b \<in> set ?B. bld_AppID b \<in> gone \<or> bld_DeploymentID b \<in> dr_id ` {x \<in> set ?D. dr_app_id x \<in> gone}}"
  have lost: "xr_app_id x \<in> gone \<or> xr_build_id x \<in> ?blds \<longleftrightarrow> xr_app_id x \<in> gone" if "x \<in> set ?X" for x
  proof -
    obtain b where b: "b \<in> set ?B" "bld_ID b = xr_build_id x" "bld_AppID b = xr_app_id x"
      using assms \<open>x \<in> _\<close> unfolding refs_ok_def by blast
    have one: "c = b" if "c \<in> set ?B" "bld_ID c = xr_build_id x" for c
      using key_inj [OF _ that(1) b(1), of bld_ID] keys b(2) that(2) by (simp add: keys_ok_def ddb_ok_def)
    have "xr_app_id x \<in> gone" if "xr_build_id x \<in> ?blds"
    proof -
      from that obtain c where c: "xr_build_id x = bld_ID c"
        "c \<in> {b \<in> set ?B. bld_AppID b \<in> gone \<or> bld_DeploymentID b \<in> dr_id ` {x \<in> set ?D. dr_app_id x \<in> gone}}"
        by (rule imageE)
      then have "c \<in> set ?B" by simp
      then show ?thesis using bld [of c] c one [of c] b(3) by simp
    qed
    then show ?thesis by blast
  qed
  have kept: "i \<notin> xr_id ` {x \<in> set ?X. xr_app_id x \<in> gone}"
    if x: "x \<in> set ?X" "xr_app_id x \<notin> gone" "xr_rerun_of x = Some i" for x i
  proof
    assume "i \<in> xr_id ` {x \<in> set ?X. xr_app_id x \<in> gone}"
    then obtain y where y: "y \<in> set ?X" "xr_id y = i" "xr_app_id y \<in> gone" by auto
    obtain z where z: "z \<in> set ?X" "xr_id z = i" "xr_app_id z = xr_app_id x"
      using assms x(1,3) unfolding refs_ok_def by metis
    have "y = z" using key_inj [OF _ y(1) z(1), of xr_id] keys y(2) z(2) by (simp add: keys_ok_def)
    then show False using y z x(2) by simp
  qed
  have gone: "{x \<in> set ?X. xr_app_id x \<in> gone \<or> xr_build_id x \<in> ?blds} = {x \<in> set ?X. xr_app_id x \<in> gone}"
    using lost by blast
  have "filter (\<lambda>x. \<not> (xr_app_id x \<in> gone \<or> xr_build_id x \<in> ?blds)) ?X = filter (\<lambda>x. xr_app_id x \<notin> gone) ?X"
    using lost by (intro filter_cong) auto
  then have "db_executions (cascade_apps gone (pd_db d)) = map (\<lambda>x. case xr_rerun_of x of None \<Rightarrow> x
      | Some i \<Rightarrow> if i \<in> xr_id ` {x \<in> set ?X. xr_app_id x \<in> gone} then x\<lparr>xr_rerun_of := None\<rparr> else x)
        (filter (\<lambda>x. xr_app_id x \<notin> gone) ?X)"
    unfolding cascade_apps_def Let_def gone by simp
  also have "\<dots> = filter (\<lambda>x. xr_app_id x \<notin> gone) ?X"
    using kept by (intro map_idI) (auto split: option.split)
  finally show "db_executions (cascade_apps gone (pd_db d)) = filter (\<lambda>x. xr_app_id x \<notin> gone) ?X" .
qed


lemma distinct_map_sub: "distinct (map k xs) \<Longrightarrow> distinct (map k (filter P xs))"
  by (induction xs) auto

lemma drop_apps:
  assumes "pdb_ok d" and gone: "\<And>i. i \<in> gone \<Longrightarrow> owner d i = Some org"
    and projects: "\<And>p. p \<in> set (pd_projects d) \<Longrightarrow> \<not> P p \<Longrightarrow> prj_OrganizationID p = org"
    and left: "\<And>a. a \<in> set (pd_apps d) \<Longrightarrow> app_ID a \<notin> gone \<Longrightarrow> app_ProjectID a \<in> prj_ID ` set (filter P (pd_projects d))"
  defines "d' \<equiv> with_tables (filter P (pd_projects d)) (filter (\<lambda>a. app_ID a \<notin> gone) (pd_apps d))
    (d\<lparr>pd_db := cascade_apps gone (pd_db d)\<rparr>)"
  shows "pdb_ok d' \<and> untouched org d d'"
proof -
  have ok: "keys_ok d" "refs_ok d" using assms(1) by (simp_all add: pdb_ok_def)
  have keys: "distinct (map prj_ID (pd_projects d))" "distinct (map app_ID (pd_apps d))" using ok by (simp_all add: keys_ok_def)
  note rows = cascade_filters(1) [OF ok(2), of gone] cascade_filters(2,3) [OF ok(2,1), of gone]
  have tables: "dd_deployments (pd_db d') = filter (\<lambda>x. dr_app_id x \<notin> gone) (dd_deployments (pd_db d))"
    "db_builds (pd_db d') = filter (\<lambda>b. bld_AppID b \<notin> gone) (db_builds (pd_db d))"
    "db_executions (pd_db d') = filter (\<lambda>x. xr_app_id x \<notin> gone) (db_executions (pd_db d))"
    "pd_apps d' = filter (\<lambda>a. app_ID a \<notin> gone) (pd_apps d)" "pd_projects d' = filter P (pd_projects d)"
    by (simp_all add: d'_def rows)
  have view: "project_view (filter P (pd_projects d)) q = project_view (pd_projects d) q"
    if "q \<in> prj_ID ` set (filter P (pd_projects d))" for q
  proof -
    from that obtain p where "p \<in> set (pd_projects d)" "P p" "prj_ID p = q" by auto
    then show ?thesis using find_key_distinct [OF keys(1)] find_key_filter [OF keys(1), of q P]
      by (auto simp: project_view_def)
  qed
  have own: "owner d' i = (if i \<in> gone then None else owner d i)" for i
  proof (cases "find (\<lambda>a. app_ID a = i) (pd_apps d)")
    case None
    then show ?thesis using find_key_filter [OF keys(2), of i "\<lambda>a. app_ID a \<notin> gone"]
      by (simp add: owner_def tables app_view_def)
  next
    case (Some a)
    have a: "a \<in> set (pd_apps d)" "app_ID a = i" using find_Some_mem [OF Some] by simp_all
    show ?thesis using find_key_filter [OF keys(2), of i "\<lambda>a. app_ID a \<notin> gone"] Some a view left [OF a(1)]
      by (simp add: owner_def tables app_view_def)
  qed
  have "keys_ok d'"
    using ok(1) by (simp add: keys_ok_def ddb_ok_def tables distinct_map_sub)
  moreover have "refs_ok d'"
    using ok(2) left unfolding refs_ok_def tables by (auto simp: image_iff) (metis+)
  ultimately have "pdb_ok d'" by (simp add: pdb_ok_def d'_def)
  moreover have "org_rows d' other = org_rows d other" if "other \<noteq> org" for other
  proof -
    have "filter (\<lambda>p. prj_OrganizationID p = other) (filter P (pd_projects d)) = filter (\<lambda>p. prj_OrganizationID p = other) (pd_projects d)"
      using projects that unfolding filter_filter by (intro filter_cong) auto
    then show ?thesis
      unfolding org_rows_def tables using own gone that by (simp add: owned_gone [of _ d' _ gone d])
  qed
  ultimately show ?thesis by (simp add: untouched_def)
qed

text \<open>Rows below the apps: every changed row is one of an app of the organization.\<close>

lemma owner_rows [simp]: "owner (d\<lparr>pd_db := x\<rparr>) i = owner d i" "owned (d\<lparr>pd_db := x\<rparr>) org key xs = owned d org key xs"
  by (simp_all add: owner_def owned_def split: option.split)

lemma rows_changed:
  assumes "pdb_ok d" and "views_ok (d\<lparr>pd_db := x\<rparr>)" and "keys_ok (d\<lparr>pd_db := x\<rparr>)" and "refs_ok (d\<lparr>pd_db := x\<rparr>)"
    and "\<And>other. other \<noteq> org \<Longrightarrow> owned d other dr_app_id (dd_deployments x) = owned d other dr_app_id (dd_deployments (pd_db d))"
    and "db_builds x = db_builds (pd_db d)"
    and "\<And>other. other \<noteq> org \<Longrightarrow> owned d other xr_app_id (db_executions x) = owned d other xr_app_id (db_executions (pd_db d))"
  shows "pdb_ok (d\<lparr>pd_db := x\<rparr>) \<and> untouched org d (d\<lparr>pd_db := x\<rparr>)"
  using assms by (simp add: pdb_ok_def untouched_def org_rows_def)

lemma save_deployment:
  assumes "pdb_ok d" and "deprepo_Save (pd_db d) r = (x, e)"
    and own: "dep_AppID r \<in> app_ID ` set (pd_apps d) \<Longrightarrow> owner d (dep_AppID r) = Some org"
  shows "pdb_ok (d\<lparr>pd_db := x\<rparr>) \<and> untouched org d (d\<lparr>pd_db := x\<rparr>)"
proof (cases "x = pd_db d")
  case True
  then show ?thesis using assms(1) by simp
next
  case False
  let ?D = "dd_deployments (pd_db d)"
  have ok: "keys_ok d" "refs_ok d" "views_ok d" using assms(1) by (simp_all add: pdb_ok_def)
  have save: "saveDeployment (pd_db d) r = (x, None)"
    using assms(2) False saveDeployment_error [of "pd_db d" r x] by (cases e) (auto simp: deprepo_Save_def split: option.splits)
  then show ?thesis
  proof (cases rule: saveDeployment_NoneD)
    case (insert n)
    have n: "dr_id n = dep_ID r" "dr_app_id n = dep_AppID r" using encode_dep_Some [OF insert(1)] by simp_all
    have "find (\<lambda>x. dr_id x = dep_ID r) ?D = None" using insert(2) by (simp add: find_key_None)
    then have fk: "dep_AppID r \<in> app_ID ` set (pd_apps d)"
      using save insert(1) ok(3) app_view_None [of "pd_apps d" "dep_AppID r"]
      by (auto simp: saveDeployment_def views_ok_def split: if_splits)
    show ?thesis
    proof (rule rows_changed [OF assms(1)])
      show "refs_ok (d\<lparr>pd_db := x\<rparr>)"
        using ok(2) fk n unfolding refs_ok_def insert(3) by auto
      show "owned d other dr_app_id (dd_deployments x) = owned d other dr_app_id ?D" if "other \<noteq> org" for other
        using that own [OF fk] n by (simp add: insert(3) owned_append) (simp add: owned_def)
    qed (use ok insert n in \<open>simp_all add: views_ok_def keys_ok_def ddb_ok_def\<close>)
  next
    case (update n z)
    let ?f = "\<lambda>y. if dr_id y = dep_ID r then n\<lparr>dr_version := dr_version y + 1\<rparr> else y"
    have n: "dr_id n = dep_ID r" "dr_app_id n = dep_AppID r" using encode_dep_Some [OF update(1)] by simp_all
    have same: "dr_app_id y = dep_AppID r" if "y \<in> set ?D" "dr_id y = dep_ID r" for y
      using ddb_key [of "pd_db d" y z] ok(1) update(2-4) that n by (simp add: keys_ok_def conflict_update_def)
    then have f: "dr_id (?f y) = dr_id y \<and> dr_app_id (?f y) = dr_app_id y" if "y \<in> set ?D" for y using that n by simp
    have "dr_app_id z \<in> app_ID ` set (pd_apps d)" using ok(2) update(2) unfolding refs_ok_def by blast
    then have "dep_AppID r \<in> app_ID ` set (pd_apps d)" using same [OF update(2,3)] by simp
    note own = own [OF this]
    show ?thesis
    proof (rule rows_changed [OF assms(1)])
      have "map dr_id (map ?f ?D) = map dr_id ?D" using f by simp
      then show "keys_ok (d\<lparr>pd_db := x\<rparr>)" using ok(1) by (simp add: update(5) keys_ok_def ddb_ok_def del: map_map)
      have deps: "\<exists>y \<in> ?f ` set ?D. dr_id y = dr_id v \<and> dr_app_id y = dr_app_id v" if "v \<in> set ?D" for v
        using f [OF that] that by blast
      have apps: "dr_app_id y \<in> app_ID ` set (pd_apps d)" if y: "y \<in> ?f ` set ?D" for y
      proof -
        from y obtain v where v: "y = ?f v" "v \<in> set ?D" by (rule imageE)
        have "dr_app_id v \<in> app_ID ` set (pd_apps d)" using v(2) ok(2) unfolding refs_ok_def by blast
        then show ?thesis using v(1) f [OF v(2)] by simp
      qed
      show "refs_ok (d\<lparr>pd_db := x\<rparr>)"
        using ok(2) deps apps unfolding refs_ok_def update(5) by simp (metis (no_types, lifting))
      show "owned d other dr_app_id (dd_deployments x) = owned d other dr_app_id ?D" if "other \<noteq> org" for other
        using that own same f unfolding update(5) by simp (rule owned_upd, auto)
    qed (use ok update in \<open>simp_all add: views_ok_def\<close>)
  qed
qed

lemma create_execution:
  assumes "pdb_ok d" and "execrepo_Create pg (exec_tables d) r = (x, e)"
    and own: "exe_AppID r \<in> app_ID ` set (pd_apps d) \<Longrightarrow> owner d (exe_AppID r) = Some org"
    and build: "\<And>b. b \<in> set (db_builds (pd_db d)) \<Longrightarrow> bld_ID b = exe_BuildID r \<Longrightarrow> bld_AppID b = exe_AppID r"
    and rerun: "\<And>y. y \<in> set (db_executions (pd_db d)) \<Longrightarrow> xr_id y = exe_RerunOf r \<Longrightarrow> exe_RerunOf r \<noteq> [] \<Longrightarrow>
      xr_app_id y = exe_AppID r"
  shows "pdb_ok (put_execs d x) \<and> untouched org d (put_execs d x)"
proof (cases e)
  case (Some e')
  then show ?thesis using assms(1) Create_error [of pg "exec_tables d" r x e'] assms(2)
    by (simp add: put_execs_def exec_tables_def db.truncate_def)
next
  case None
  have ok: "keys_ok d" "refs_ok d" "views_ok d" using assms(1) by (simp_all add: pdb_ok_def)
  let ?X = "db_executions (pd_db d)" and ?B = "db_builds (pd_db d)"
  have tables: "db_executions (exec_tables d) = ?X" "db_builds (exec_tables d) = ?B"
    "db_app_project (exec_tables d) = app_view (pd_apps d)"
    using ok(3) by (simp_all add: exec_tables_def db.truncate_def views_ok_def)
  obtain inp where x: "db_executions x = ?X @ [new_row r inp]" "exe_ID r \<notin> xr_id ` set ?X"
    and fk: "app_view (pd_apps d) (exe_AppID r) \<noteq> None" "exe_BuildID r \<in> bld_ID ` set ?B"
      "exe_RerunOf r \<noteq> [] \<longrightarrow> exe_RerunOf r \<in> xr_id ` set ?X"
    using assms(2) None tables by (auto simp: execrepo_Create_def split: option.splits if_splits)
  have app: "exe_AppID r \<in> app_ID ` set (pd_apps d)" using fk(1) app_view_None by metis
  have row: "xr_id (new_row r inp) = exe_ID r" "xr_app_id (new_row r inp) = exe_AppID r"
    "xr_build_id (new_row r inp) = exe_BuildID r" "xr_rerun_of (new_row r inp) = nullableString (exe_RerunOf r)"
    by (simp_all add: new_row_def)
  show ?thesis unfolding put_execs_def
  proof (rule rows_changed [OF assms(1)])
    have "\<exists>b \<in> set ?B. bld_ID b = exe_BuildID r \<and> bld_AppID b = exe_AppID r" using fk(2) build by auto
    moreover have "\<exists>y \<in> set ?X. xr_id y = i \<and> xr_app_id y = exe_AppID r" if "nullableString (exe_RerunOf r) = Some i" for i
      using that fk(3) rerun by (auto simp: nullableString_def split: if_splits)
    ultimately show "refs_ok (d\<lparr>pd_db := (pd_db d)\<lparr>db_executions := db_executions x\<rparr>\<rparr>)"
      using ok(2) row unfolding refs_ok_def x(1) by auto
    show "owned d other xr_app_id (db_executions ((pd_db d)\<lparr>db_executions := db_executions x\<rparr>)) = owned d other xr_app_id ?X"
      if "other \<noteq> org" for other
      using that own [OF app] row by (simp add: x(1) owned_append) (simp add: owned_def)
  qed (use ok x row in \<open>simp_all add: views_ok_def keys_ok_def ddb_ok_def\<close>)
qed


section \<open>What the services read\<close>

lemma projrepo_GetByID_Inr:
  assumes "projrepo_GetByID d org i = Inr p" and "keys_ok d"
  shows "project_view (pd_projects d) i = Some org" and "prj_ID p = i" and "prj_OrganizationID p = org"
proof -
  have p: "p \<in> set (pd_projects d)" "prj_ID p = i" "prj_OrganizationID p = org"
    using assms(1) by (auto simp: projrepo_GetByID_def split: if_splits option.splits dest!: find_Some_mem)
  then show "prj_ID p = i" "prj_OrganizationID p = org" by simp_all
  show "project_view (pd_projects d) i = Some org"
    using find_key_distinct [of prj_ID "pd_projects d" p] p assms(2) by (simp add: project_view_def keys_ok_def)
qed

lemma scanApp_Inr [simp]: "scanApp a = Inr r \<longleftrightarrow> app_Validate a = None \<and> r = a"
  by (auto simp: scanApp_def split: option.split)

lemma apprepo_GetByID_Inr:
  assumes "apprepo_GetByID d org i = Inr a" and "keys_ok d"
  shows "a \<in> set (pd_apps d)" and "app_ID a = i" and "owner d i = Some org"
proof -
  show a: "a \<in> set (pd_apps d)" "app_ID a = i"
    using assms(1) by (auto simp: apprepo_GetByID_def split: if_splits option.splits sum.splits dest!: find_Some_mem)
  have "in_org d org a"
    using assms(1) by (auto simp: apprepo_GetByID_def split: if_splits option.splits sum.splits dest!: find_Some_mem)
  then show "owner d i = Some org" using in_org_owner [OF assms(2) a(1)] a(2) by simp
qed

lemma ActiveForApp_Inr:
  assumes "ActiveForApp pg (pd_db d) org i = Inr (b, p)" and "views_ok d"
  shows "b \<in> set (db_builds (pd_db d))" and "bld_AppID b = i" and "owner d i = Some org"
proof -
  obtain ys where ys: "rev (order_by (older pg bld_CreatedAt bld_ID) (runnable_builds (pd_db d) org i)) = b # ys"
    using assms(1) by (auto simp: ActiveForApp_def split: option.splits list.splits)
  then have "b \<in> set (runnable_builds (pd_db d) org i)"
    using set_order_by [of "older pg bld_CreatedAt bld_ID" "runnable_builds (pd_db d) org i"]
    by (metis list.set_intros(1) set_rev)
  then have b: "b \<in> set (db_builds (pd_db d))" "bld_AppID b = i" "build_org (pd_db d) b = Some org"
    by (auto simp: runnable_builds_def)
  then show "b \<in> set (db_builds (pd_db d))" "bld_AppID b = i" by simp_all
  show "owner d i = Some org" using b(2,3) assms(2) by (simp add: owner_def build_org_def views_ok_def split: option.splits)
qed

lemma exesvc_Get_Inr:
  assumes "exesvc_Get d org i = Inr r" and "views_ok d"
  shows "\<exists>x \<in> set (db_executions (pd_db d)). xr_id x = i \<and> exe_ID r = i \<and> exe_AppID r = xr_app_id x
    \<and> exe_BuildID r = xr_build_id x \<and> owner d (xr_app_id x) = Some org"
proof -
  obtain x where x: "find (\<lambda>x. xr_id x = i \<and> row_org (exec_tables d) x = Some org) (joined (exec_tables d)) = Some x"
    "r = row_record (exec_tables d) x"
    using assms(1)
    by (auto simp: exesvc_Get_def execrepo_GetByID_def scanExecution_def split: option.splits sum.splits)
  have "x \<in> set (db_executions (pd_db d))" "xr_id x = i" "row_org (exec_tables d) x = Some org"
    using find_Some_mem [OF x(1)] by (simp_all add: joined_def exec_tables_def db.truncate_def)
  then show ?thesis using x(2) assms(2)
    by (intro bexI [of _ x])
       (auto simp: row_record_def row_org_def owner_def exec_tables_def db.truncate_def views_ok_def split: option.splits)
qed

section \<open>What the services write\<close>

lemma projrepo_Create_isolated:
  assumes "pdb_ok d" and "projrepo_Create d r = (d', res)" and "prj_OrganizationID r = org"
  shows "pdb_ok d' \<and> untouched org d d'"
  using assms add_project [OF assms(1), of "stored_project r" org]
  by (auto simp: projrepo_Create_def stored_project_def split: option.splits if_splits)

lemma projrepo_Update_isolated:
  assumes "pdb_ok d" and "projrepo_Update d r = (d', res)" and "prj_OrganizationID r = org"
  shows "pdb_ok d' \<and> untouched org d d'"
proof (cases "d' = d")
  case True
  then show ?thesis using assms(1) by simp
next
  case False
  let ?f = "\<lambda>q. if prj_ID q = prj_ID r \<and> prj_CreatedAt q = pg_time (prj_CreatedAt r) \<and> prj_OrganizationID q = prj_OrganizationID r
    then q\<lparr>prj_Name := prj_Name r, prj_UpdatedAt := pg_time (prj_UpdatedAt r)\<rparr> else q"
  have "d' = with_tables (map ?f (pd_projects d)) (pd_apps d) d"
    using assms(2) False by (auto simp: projrepo_Update_def Let_def split: option.splits if_splits)
  then show ?thesis using change_projects [OF assms(1), of ?f org] assms(3) by simp
qed

lemma projrepo_Delete_isolated:
  assumes "pdb_ok d" and "projrepo_Delete d org i = (d', res)"
  shows "pdb_ok d' \<and> untouched org d d'"
proof (cases "d' = d")
  case True
  then show ?thesis using assms(1) by simp
next
  case False
  let ?P = "\<lambda>p. \<not> (prj_ID p = i \<and> prj_OrganizationID p = org)" and ?gone = "app_ID ` {a \<in> set (pd_apps d). app_ProjectID a = i}"
  have ok: "keys_ok d" "refs_ok d" using assms(1) by (simp_all add: pdb_ok_def)
  have hit: "\<exists>p \<in> set (pd_projects d). prj_ID p = i \<and> prj_OrganizationID p = org"
    and d': "d' = with_tables (filter ?P (pd_projects d)) (filter (\<lambda>a. app_ProjectID a \<noteq> i) (pd_apps d))
      (d\<lparr>pd_db := cascade_apps ?gone (pd_db d)\<rparr>)"
    using assms(2) False by (auto simp: projrepo_Delete_def Let_def list_ex_iff split: option.splits if_splits)
  obtain p where p: "p \<in> set (pd_projects d)" "prj_ID p = i" "prj_OrganizationID p = org" using hit by blast
  have one: "q = p" if "q \<in> set (pd_projects d)" "prj_ID q = i" for q
    using key_inj [of prj_ID "pd_projects d" q p] ok(1) p that by (simp add: keys_ok_def)
  have view: "project_view (pd_projects d) i = Some org"
    using find_key_distinct [of prj_ID "pd_projects d" p] p ok(1) by (simp add: project_view_def keys_ok_def)
  have apps: "app_ID a \<in> ?gone \<longleftrightarrow> app_ProjectID a = i" if "a \<in> set (pd_apps d)" for a
  proof
    assume "app_ID a \<in> ?gone"
    then obtain c where "app_ID a = app_ID c" "c \<in> {a \<in> set (pd_apps d). app_ProjectID a = i}" by (rule imageE)
    then show "app_ProjectID a = i" using key_inj [of app_ID "pd_apps d" a c] ok(1) that by (simp add: keys_ok_def)
  qed (use that in simp)
  have "filter (\<lambda>a. app_ProjectID a \<noteq> i) (pd_apps d) = filter (\<lambda>a. app_ID a \<notin> ?gone) (pd_apps d)"
    using apps by (intro filter_cong) auto
  moreover have "owner d j = Some org" if "j \<in> ?gone" for j
    using that owner_app [OF ok(1)] view by auto
  moreover have "app_ProjectID a \<in> prj_ID ` set (filter ?P (pd_projects d))" if a: "a \<in> set (pd_apps d)" "app_ID a \<notin> ?gone" for a
  proof -
    have "app_ProjectID a \<in> prj_ID ` set (pd_projects d)" using ok(2) a(1) unfolding refs_ok_def by blast
    then obtain q where "app_ProjectID a = prj_ID q" "q \<in> set (pd_projects d)" by (rule imageE)
    then show ?thesis using apps [OF a(1)] a(2) by (intro image_eqI [of _ _ q]) auto
  qed
  ultimately show ?thesis using drop_apps [OF assms(1), of ?gone org ?P] d' by simp
qed


lemma apprepo_Create_isolated:
  assumes "pdb_ok d" and "apprepo_Create aq d r = (d', res)"
    and own: "app_ProjectID r \<in> prj_ID ` set (pd_projects d) \<Longrightarrow> project_view (pd_projects d) (app_ProjectID r) = Some org"
  shows "pdb_ok d' \<and> untouched org d d'"
proof (cases "d' = d")
  case True
  then show ?thesis using assms(1) by simp
next
  case False
  let ?row = "(stored_app r)\<lparr>app_ActiveBuildID := []\<rparr>"
  have "app_ID r \<notin> app_ID ` set (pd_apps d)" "app_ProjectID r \<in> prj_ID ` set (pd_projects d)"
    "d' = with_tables (pd_projects d) (pd_apps d @ [?row]) d"
    using assms(2) False by (auto simp: apprepo_Create_def Let_def split: option.splits if_splits)
  then show ?thesis using add_app [OF assms(1), of ?row org] own by (simp add: stored_app_def)
qed

lemma apprepo_Update_isolated:
  assumes "pdb_ok d" and "apprepo_Update aq d org r = (d', res)"
  shows "pdb_ok d' \<and> untouched org d d'"
proof (cases "d' = d")
  case True
  then show ?thesis using assms(1) by simp
next
  case False
  let ?f = "\<lambda>a. if app_ID a = app_ID r \<and> app_CreatedAt a = pg_time (app_CreatedAt r) \<and> in_org d org a
    then a\<lparr>app_Name := app_Name r, app_UpdatedAt := pg_time (app_UpdatedAt r), app_Repository := app_Repository r,
           app_ProductionRef := app_ProductionRef r, app_ActiveBuildID := app_ActiveBuildID r\<rparr> else a"
  have "d' = with_tables (pd_projects d) (map ?f (pd_apps d)) d"
    using assms(2) False by (auto simp: apprepo_Update_def Let_def split: option.splits if_splits)
  then show ?thesis using change_apps [OF assms(1), of ?f org] by simp
qed

lemma apprepo_Delete_isolated:
  assumes "pdb_ok d" and "apprepo_Delete d org i = (d', res)"
  shows "pdb_ok d' \<and> untouched org d d'"
proof (cases "d' = d")
  case True
  then show ?thesis using assms(1) by simp
next
  case False
  have ok: "keys_ok d" "refs_ok d" using assms(1) by (simp_all add: pdb_ok_def)
  have hit: "\<exists>a \<in> set (pd_apps d). app_ID a = i \<and> in_org d org a"
    and d': "d' = with_tables (pd_projects d) (filter (\<lambda>a. \<not> (app_ID a = i \<and> in_org d org a)) (pd_apps d))
      (d\<lparr>pd_db := cascade_apps {i} (pd_db d)\<rparr>)"
    using assms(2) False by (auto simp: apprepo_Delete_def Let_def list_ex_iff split: option.splits if_splits)
  obtain a where a: "a \<in> set (pd_apps d)" "app_ID a = i" "in_org d org a" using hit by blast
  then have "app_ID b = i \<and> in_org d org b \<longleftrightarrow> app_ID b = i" if "b \<in> set (pd_apps d)" for b
    using key_inj [of app_ID "pd_apps d" b a] ok(1) that by (auto simp: keys_ok_def)
  then have filt: "filter (\<lambda>a. \<not> (app_ID a = i \<and> in_org d org a)) (pd_apps d) = filter (\<lambda>a. app_ID a \<notin> {i}) (pd_apps d)"
    by (intro filter_cong) auto
  have "app_ProjectID b \<in> prj_ID ` set (filter (\<lambda>p. True) (pd_projects d))" if "b \<in> set (pd_apps d)" for b
    using ok(2) that unfolding refs_ok_def by simp
  moreover have "owner d i = Some org" using in_org_owner [OF ok(1) a(1)] a by simp
  ultimately show ?thesis using drop_apps [OF assms(1), of "{i}" org "\<lambda>p. True"] d' filt by simp
qed

lemma depsvc_Create_isolated:
  assumes "pdb_ok d" and "pdb_ok seen" and "same_ids seen d"
    and "depsvc_Create seen d newID now org request = (d', res)"
  shows "pdb_ok d' \<and> untouched org d d'"
proof (cases "d' = d")
  case True
  then show ?thesis using assms(1) by simp
next
  case False
  then obtain a i r x e where a: "apprepo_GetByID seen org (dq_AppID request) = Inr a"
    and r: "dep_New i (app_ProjectID a) (app_ID a) (dq_Runtime request) now = Inr r"
    and x: "deprepo_Save (pd_db d) (FromGit r (dq_CommitSHA request) (dq_GitRef request)) = (x, e)" "d' = d\<lparr>pd_db := x\<rparr>"
    using assms(4)
    by (auto simp: depsvc_Create_def Let_def rbind_Inr_iff split: sum.splits prod.splits option.splits)
  have "dep_AppID r = dq_AppID request" "owner seen (dq_AppID request) = Some org"
    using r apprepo_GetByID_Inr [OF a] assms(2) by (auto simp: dep_New_def Let_def pdb_ok_def)
  moreover have "owner d (dq_AppID request) = Some org" if "dq_AppID request \<in> app_ID ` set (pd_apps d)"
    using that assms(3) calculation(2) unfolding same_ids_def by blast
  ultimately show ?thesis using save_deployment [OF assms(1) x(1), of org] x(2) by (simp add: FromGit_def)
qed

lemma queue_execution_isolated:
  assumes "pdb_ok d" and "queue_execution pg d what queued = (d', res)"
    and "\<And>r. queued = Inr r \<Longrightarrow>
      (exe_AppID r \<in> app_ID ` set (pd_apps d) \<longrightarrow> owner d (exe_AppID r) = Some org)
      \<and> (\<forall>b \<in> set (db_builds (pd_db d)). bld_ID b = exe_BuildID r \<longrightarrow> bld_AppID b = exe_AppID r)
      \<and> (\<forall>y \<in> set (db_executions (pd_db d)). xr_id y = exe_RerunOf r \<longrightarrow> exe_RerunOf r \<noteq> [] \<longrightarrow> xr_app_id y = exe_AppID r)"
  shows "pdb_ok d' \<and> untouched org d d'"
proof (cases queued)
  case (Inl e)
  then show ?thesis using assms(1,2) by (simp add: queue_execution_def)
next
  case (Inr r)
  obtain x e where x: "execrepo_Create pg (exec_tables d) r = (x, e)" by (cases "execrepo_Create pg (exec_tables d) r")
  then have "d' = put_execs d x" using assms(2) Inr by (auto simp: queue_execution_def split: option.splits)
  then show ?thesis using create_execution [OF assms(1) x, of org] assms(3) [OF Inr] by blast
qed


lemma exesvc_Create_isolated:
  assumes "pdb_ok d" and "pdb_ok seen" and "same_ids seen d"
    and "exesvc_Create pg compact maxb seen d newID now org request = (d', res)"
  shows "pdb_ok d' \<and> untouched org d d'"
proof (rule queue_execution_isolated [OF assms(1) assms(4) [unfolded exesvc_Create_def]], goal_cases)
  case (1 r)
  then obtain b p i inp where b: "ActiveForApp pg (pd_db seen) org (eq_AppID request) = Inr (b, p)"
    and r: "exec_New i p (bld_AppID b) (bld_ID b) inp now = Inr r"
    by (auto simp: rbind_Inr_iff)
  have "exe_AppID r = bld_AppID b" "exe_BuildID r = bld_ID b" "exe_RerunOf r = []"
    using r by (auto simp: exec_New_def Let_def)
  then show ?case using ActiveForApp_Inr [OF b] assms(2,3) unfolding same_ids_def pdb_ok_def by auto
qed

lemma exesvc_Rerun_isolated:
  assumes "pdb_ok d" and "pdb_ok seen" and "same_ids seen d"
    and "exesvc_Rerun pg seen d newID now org i = (d', res)"
  shows "pdb_ok d' \<and> untouched org d d'"
proof (rule queue_execution_isolated [OF assms(1) assms(4) [unfolded exesvc_Rerun_def]], goal_cases)
  case (1 r)
  then obtain o1 b j where o1: "exesvc_Get seen org i = Inr o1" and b: "buildrepo_Get (pd_db seen) org (exe_BuildID o1) = Inr b"
    and r: "exec_Rerun o1 j now = Inr r"
    by (auto simp: rbind_Inr_iff)
  obtain x where x: "x \<in> set (db_executions (pd_db seen))" "xr_id x = i" "exe_ID o1 = i" "exe_AppID o1 = xr_app_id x"
    "exe_BuildID o1 = xr_build_id x" "owner seen (xr_app_id x) = Some org"
    using exesvc_Get_Inr [OF o1] assms(2) by (auto simp: pdb_ok_def)
  obtain c where c: "c \<in> set (db_builds (pd_db seen))" "bld_ID c = xr_build_id x" "bld_AppID c = xr_app_id x"
    using x(1) assms(2) unfolding pdb_ok_def refs_ok_def by blast
  have f: "exe_AppID r = xr_app_id x" "exe_BuildID r = bld_ID c" "exe_RerunOf r = i"
    using r x c by (auto simp: exec_Rerun_def Let_def split: if_splits)
  have "owner d (xr_app_id x) = Some org" if "xr_app_id x \<in> app_ID ` set (pd_apps d)"
    using that x(6) assms(3) unfolding same_ids_def by blast
  moreover have "bld_AppID e = xr_app_id x" if "e \<in> set (db_builds (pd_db d))" "bld_ID e = bld_ID c" for e
    using that c assms(3) unfolding same_ids_def by metis
  moreover have "xr_app_id y = xr_app_id x" if "y \<in> set (db_executions (pd_db d))" "xr_id y = i" for y
    using that x(1,2) assms(3) unfolding same_ids_def by metis
  ultimately show ?case unfolding f by blast
qed

lemma ghsvc_build_isolated:
  assumes "pdb_ok d" and "pdb_ok seen" and "same_ids seen d"
    and "ghsvc_build cl env seen d org a iid ref commit = (d', res)"
  shows "pdb_ok d' \<and> untouched org d d'"
  using assms depsvc_Create_isolated [OF assms(1-3)]
  by (auto simp: ghsvc_build_def split: sum.splits)

lemma appsvc_Create_isolated:
  assumes "pdb_ok d" and "pdb_ok seen" and "same_ids seen d"
    and "appsvc_Create aq seen d newID now org request = (d', res)"
  shows "pdb_ok d' \<and> untouched org d d'"
proof (cases "d' = d")
  case True
  then show ?thesis using assms(1) by simp
next
  case False
  then obtain p i r r' where p: "projrepo_GetByID seen org (aw_ProjectID request) = Inr p"
    and r: "app_New i (aw_ProjectID request) (aw_Name request) now = Inr r"
    and r': "app_Connect r (aw_Repository request) (aw_ProductionRef request) now = (r', None)"
    "apprepo_Create aq d r' = (d', res)"
    using assms(4) by (auto simp: appsvc_Create_def rbind_Inr_iff split: sum.splits prod.splits option.splits)
  have "app_ProjectID r' = aw_ProjectID request"
    using r r'(1) by (auto simp: app_New_def app_Connect_def app_touch_def Let_def rbind_Inr_iff split: if_splits)
  moreover have "project_view (pd_projects seen) (aw_ProjectID request) = Some org"
    using projrepo_GetByID_Inr [OF p] assms(2) by (simp add: pdb_ok_def)
  then have "aw_ProjectID request \<in> prj_ID ` set (pd_projects d) \<Longrightarrow>
      project_view (pd_projects d) (aw_ProjectID request) = Some org"
    using assms(3) unfolding same_ids_def by blast
  ultimately show ?thesis using apprepo_Create_isolated [OF assms(1) r'(2), of org] by simp
qed

section \<open>Requests\<close>

text \<open>
  A request of a caller in an organization: every operation of the project, app, GitHub,
  deployment and execution services that writes. \<open>seen\<close> is the state its reads saw.
\<close>

inductive org_step :: "string \<Rightarrow> gdb \<Rightarrow> pdb \<Rightarrow> pdb \<Rightarrow> bool" for org seen d where
  project_create: "projsvc_Create d newID now org name = (d', r) \<Longrightarrow> org_step org seen d d'"
| project_update: "projsvc_Update (gh_db seen) d now org projectID name = (d', r) \<Longrightarrow> org_step org seen d d'"
| project_delete: "projrepo_Delete d org projectID = (d', e) \<Longrightarrow> org_step org seen d d'"
| app_create: "ghsvc_CreateApp aq client env seen d org request = (d', a) \<Longrightarrow> org_step org seen d d'"
| app_update: "appsvc_Update aq (gh_db seen) d now org appID name = (d', a) \<Longrightarrow> org_step org seen d d'"
| app_activate: "appsvc_ActivateBuild aq (gh_db seen) d now org appID buildID = (d', a) \<Longrightarrow> org_step org seen d d'"
| app_connect: "ghsvc_Connect aq client env seen d org appID repository ref = (d', a) \<Longrightarrow> org_step org seen d d'"
| app_delete: "apprepo_Delete d org appID = (d', e) \<Longrightarrow> org_step org seen d d'"
| deploy: "ghsvc_Deploy client env seen d org appID ref = (d', dep) \<Longrightarrow> org_step org seen d d'"
| retry: "ghsvc_Retry client env seen d org deploymentID = (d', dep) \<Longrightarrow> org_step org seen d d'"
| run: "exesvc_Create pg compact maxb (gh_db seen) d newID now org erequest = (d', exe) \<Longrightarrow> org_step org seen d d'"
| rerun: "exesvc_Rerun pg (gh_db seen) d newID now org executionID = (d', exe) \<Longrightarrow> org_step org seen d d'"

inductive_cases org_stepE: "org_step org seen d d'"

lemma org_step_isolated:
  assumes "org_step org seen d d'" and ok: "pdb_ok d" "pdb_ok (gh_db seen)" "same_ids (gh_db seen) d"
    and "trim_space org = org"
  shows "pdb_ok d' \<and> untouched org d d'"
  using assms(1)
proof cases
  case (project_create newID now name r)
  then show ?thesis using ok(1) assms(5) projrepo_Create_isolated [OF ok(1), of _ d' r org]
    by (auto simp: projsvc_Create_def project_New_def Let_def rbind_Inr_iff split: sum.splits)
next
  case (project_update now projectID name r)
  show ?thesis
  proof (cases "d' = d")
    case False
    then obtain p n p' where p: "projrepo_GetByID (gh_db seen) org projectID = Inr p" "project_Rename p n now = (p', None)"
      "projrepo_Update d p' = (d', r)"
      using project_update by (auto simp: projsvc_Update_def split: option.splits sum.splits prod.splits)
    moreover have "prj_OrganizationID p' = org"
      using p(2) projrepo_GetByID_Inr [OF p(1)] ok(2)
      by (auto simp: project_Rename_def pdb_ok_def Let_def split: sum.splits)
    ultimately show ?thesis using projrepo_Update_isolated [OF ok(1)] by blast
  qed (use ok in simp)
next
  case (project_delete projectID e)
  then show ?thesis using projrepo_Delete_isolated [OF ok(1)] by blast
next
  case (app_create aq client env request a)
  then show ?thesis using ok(1) appsvc_Create_isolated [OF ok]
    by (auto simp: ghsvc_CreateApp_def Let_def split: sum.splits if_splits)
next
  case (app_update aq now appID name a)
  then show ?thesis using ok(1) apprepo_Update_isolated [OF ok(1)]
    by (auto simp: appsvc_Update_def split: option.splits sum.splits prod.splits)
next
  case (app_activate aq now appID buildID a)
  then show ?thesis using ok(1) apprepo_Update_isolated [OF ok(1)]
    by (auto simp: appsvc_ActivateBuild_def Let_def split: option.splits sum.splits prod.splits)
next
  case (app_connect aq client env appID repository ref a)
  then show ?thesis using ok(1) apprepo_Update_isolated [OF ok(1)]
    by (auto simp: ghsvc_Connect_def Let_def split: option.splits sum.splits prod.splits)
next
  case (app_delete appID e)
  then show ?thesis using apprepo_Delete_isolated [OF ok(1)] by blast
next
  case (deploy client env appID ref dep)
  then show ?thesis using ok(1) ghsvc_build_isolated [OF ok]
    by (auto simp: ghsvc_Deploy_def split: sum.splits prod.splits)
next
  case (retry client env deploymentID dep)
  then show ?thesis using ok(1) ghsvc_build_isolated [OF ok]
    by (auto simp: ghsvc_Retry_def split: sum.splits prod.splits)
next
  case run
  then show ?thesis using exesvc_Create_isolated [OF ok] by blast
next
  case rerun
  then show ?thesis using exesvc_Rerun_isolated [OF ok] by blast
qed


text \<open>
  A history of requests of the organizations \<open>orgs\<close>, each reading a state that agrees with
  the one it writes on what identifiers mean.
\<close>

inductive org_run :: "string set \<Rightarrow> pdb \<Rightarrow> pdb \<Rightarrow> bool" for orgs d where
  start: "org_run orgs d d"
| request: "org_run orgs d d1 \<Longrightarrow> org \<in> orgs \<Longrightarrow> trim_space org = org \<Longrightarrow> pdb_ok (gh_db seen) \<Longrightarrow>
    same_ids (gh_db seen) d1 \<Longrightarrow> org_step org seen d1 d2 \<Longrightarrow> org_run orgs d d2"

section \<open>Pushes\<close>

lemma collect_apps_Inr: "collect_apps as = Inr rs \<Longrightarrow> rs = as"
  by (induction as arbitrary: rs) (auto simp: rbind_Inr_iff)

lemma ConnectedTo_Inr:
  assumes "ConnectedTo pg aq d org name = Inr rs" and "keys_ok d" and "a \<in> set rs"
  shows "a \<in> set (pd_apps d) \<and> owner d (app_ID a) = Some org \<and> aq_lower aq (app_Repository a) = aq_lower aq name"
proof -
  have "a \<in> set (pd_apps d)" "in_org d org a" "aq_lower aq (app_Repository a) = aq_lower aq name"
    using assms(1,3) set_order_by by (auto simp: ConnectedTo_def split: if_splits sum.splits dest!: collect_apps_Inr)
  then show ?thesis using in_org_owner [OF assms(2)] by simp
qed

text \<open>A queued deployment changes one table, so what identifiers mean stays the same.\<close>

lemma depsvc_Create_tables:
  assumes "depsvc_Create seen d newID now org request = (d', res)"
  shows "pd_apps d' = pd_apps d \<and> pd_projects d' = pd_projects d \<and> db_builds (pd_db d') = db_builds (pd_db d)
    \<and> db_executions (pd_db d') = db_executions (pd_db d)
    \<and> (\<forall>r. res = Inr r \<longrightarrow> dep_AppID r = dq_AppID request \<and> dep_CommitSHA r = trim_space (dq_CommitSHA request))"
proof -
  have "db_builds x = db_builds (pd_db d) \<and> db_executions x = db_executions (pd_db d)"
    if "deprepo_Save (pd_db d) r = (x, e)" for r x e
    using that by (auto simp: deprepo_Save_def saveDeployment_def split: option.splits if_splits)
  moreover have "app_ID a = dq_AppID request" if "apprepo_GetByID seen org (dq_AppID request) = Inr a" for a
    using that by (auto simp: apprepo_GetByID_def split: if_splits option.splits sum.splits dest!: find_Some_mem)
  ultimately show ?thesis using assms
    by (auto simp: depsvc_Create_def dep_New_def FromGit_def Let_def rbind_Inr_iff
        split: sum.splits prod.splits option.splits)
qed

lemma same_ids_cong:
  "pd_apps d' = pd_apps d \<Longrightarrow> pd_projects d' = pd_projects d \<Longrightarrow> db_builds (pd_db d') = db_builds (pd_db d) \<Longrightarrow>
   db_executions (pd_db d') = db_executions (pd_db d) \<Longrightarrow> same_ids seen d' \<longleftrightarrow> same_ids seen d"
  using ext [of "owner d'" "owner d"] by (simp add: same_ids_def) (simp add: owner_def split: option.split)

lemma ghsvc_build_tables:
  assumes "ghsvc_build cl env seen d org a iid ref commit = (d', res)"
  shows "(\<forall>s. same_ids s d' \<longleftrightarrow> same_ids s d)
    \<and> (\<forall>r. res = Inr r \<longrightarrow> dep_AppID r = app_ID a \<and> dep_CommitSHA r = trim_space commit)"
proof (cases "ghsvc_request cl env a iid ref commit")
  case (Inl e)
  then show ?thesis using assms by (auto simp: ghsvc_build_def)
next
  case (Inr q)
  then have q: "dq_AppID q = app_ID a" "dq_CommitSHA q = commit" by (auto simp: ghsvc_request_def rbind_Inr_iff)
  show ?thesis using assms Inr depsvc_Create_tables [of seen d "ge_newID env" "ge_now env" org q d' res] q same_ids_cong [of d' d]
    by (simp add: ghsvc_build_def)
qed

lemma push_loop_isolated:
  assumes "pdb_ok d" and "\<And>n. pdb_ok (snd (envs n)) \<and> same_ids (snd (envs n)) d"
    and "push_loop cl envs org p n apps d = (d', rs, es)"
  shows "pdb_ok d' \<and> untouched org d d'
    \<and> (\<forall>r \<in> set rs. \<exists>a \<in> set apps. dep_AppID r = app_ID a \<and> TracksRef a (pu_Ref p) (pu_DefaultBranch p)
         \<and> dep_CommitSHA r = trim_space (pu_Commit p))"
  using assms
proof (induction cl envs org p n apps d arbitrary: d' rs es rule: push_loop.induct)
  case (2 cl envs org p n app apps d)
  show ?case
  proof (cases "TracksRef app (pu_Ref p) (pu_DefaultBranch p)")
    case False
    then show ?thesis using 2(1) [OF False 2(4,5)] 2(6) by simp
  next
    case True
    obtain d1 res where b: "ghsvc_build cl (fst (envs n)) (snd (envs n)) d org app (pu_InstallationID p) (pu_Ref p) (pu_Commit p) = (d1, res)"
      by (cases "ghsvc_build cl (fst (envs n)) (snd (envs n)) d org app (pu_InstallationID p) (pu_Ref p) (pu_Commit p)")
    note one = ghsvc_build_isolated [OF 2(4) _ _ b] and tables = ghsvc_build_tables [OF b]
    have d1: "pdb_ok d1" "untouched org d d1" "\<And>m. pdb_ok (snd (envs m)) \<and> same_ids (snd (envs m)) d1"
      using one tables 2(5) by auto
    obtain rs2 es2 where rest: "push_loop cl envs org p (Suc n) apps d1 = (d', rs2, es2)"
      and rs: "rs = (case res of Inl e \<Rightarrow> rs2 | Inr r \<Rightarrow> r # rs2)"
      using 2(6) True b by (auto split: sum.splits prod.splits)
    have ih: "pdb_ok d' \<and> untouched org d1 d'
      \<and> (\<forall>r \<in> set rs2. \<exists>a \<in> set apps. dep_AppID r = app_ID a \<and> TracksRef a (pu_Ref p) (pu_DefaultBranch p)
           \<and> dep_CommitSHA r = trim_space (pu_Commit p))"
    proof (cases res)
      case (Inl e)
      show ?thesis using 2(2) [OF _ b [symmetric] Inl d1(1,3) rest] True by simp
    next
      case (Inr r)
      show ?thesis using 2(3) [OF _ b [symmetric] Inr d1(1,3) rest] True by simp
    qed
    then show ?thesis using d1(2) untouched_trans [of org d d1 d'] True tables rs
      by (cases res) auto
  qed
qed simp

lemma hex_visible: "is_hex c \<Longrightarrow> visible_ascii [c]"
  by (auto simp: is_hex_def is_digit_def visible_ascii_def)

lemma isCommitSHA_trim: "isCommitSHA v \<Longrightarrow> trim_space v = v"
  using hex_visible by (intro visible_ascii_trim) (auto simp: isCommitSHA_def visible_ascii_def list_all_iff)

section \<open>A control plane with one app\<close>

definition sample_project :: project where
  "sample_project =
     \<lparr>prj_ID = ''prj_1'', prj_OrganizationID = ''org_1'', prj_Name = ''alpha'', prj_CreatedAt = 40000, prj_UpdatedAt = 40000\<rparr>"

definition sample_app :: app where
  "sample_app =
     \<lparr>app_ID = ''app_1'', app_ProjectID = ''prj_1'', app_Name = ''web'', app_Repository = ''octo/web'',
      app_ProductionRef = ''main'', app_ActiveBuildID = [], app_CreatedAt = 45000, app_UpdatedAt = 45000\<rparr>"

definition sample_pdb :: pdb where
  "sample_pdb =
     with_tables [sample_project] [sample_app]
       \<lparr>pd_db = sample_ddb, pd_orgs = [''org_1'', ''org_2''], pd_projects = [], pd_apps = []\<rparr>"

definition sample_gdb :: gdb where
  "sample_gdb =
     \<lparr>gh_db = sample_pdb,
      gh_installations = [\<lparr>ins_ID = ''ghi_1'', ins_OrganizationID = ''org_1'', ins_InstallationID = 42,
                           ins_AccountLogin = ''octo'', ins_CreatedAt = 50000, ins_UpdatedAt = 50000\<rparr>]\<rparr>"

lemma sample_tables [simp]:
  "pd_projects sample_pdb = [sample_project]" "pd_apps sample_pdb = [sample_app]" "pd_orgs sample_pdb = [''org_1'', ''org_2'']"
  "dd_deployments (pd_db sample_pdb) = [sample_dep_row]" "db_builds (pd_db sample_pdb) = []" "db_executions (pd_db sample_pdb) = []"
  "gh_db sample_gdb = sample_pdb"
  by (simp_all add: sample_pdb_def sample_ddb_def sample_gdb_def)

lemma sample_owner [simp]: "owner sample_pdb i = (if i = ''app_1'' then Some ''org_1'' else None)"
  by (simp add: owner_def app_view_def project_view_def) (simp add: sample_app_def sample_project_def)

lemma sample_pdb_ok: "pdb_ok sample_pdb"
  by (simp add: pdb_ok_def keys_ok_def ddb_ok_def refs_ok_def)
     (simp add: sample_pdb_def sample_project_def sample_app_def sample_dep_row_def)

lemma same_ids_refl: "pdb_ok d \<Longrightarrow> same_ids d d"
  using key_inj [of bld_ID "db_builds (pd_db d)"] key_inj [of xr_id "db_executions (pd_db d)"]
  by (auto simp: same_ids_def pdb_ok_def keys_ok_def ddb_ok_def)

definition sample_aq :: appsql where
  "sample_aq = \<lparr>aq_shape = repositoryPattern, aq_lower = map (\<lambda>c. if c = CHR ''O'' then CHR ''o'' else c)\<rparr>"

definition sample_push :: push where
  "sample_push =
     \<lparr>pu_InstallationID = 42, pu_Repository = ''Octo/web'', pu_Ref = ''refs/heads/main'',
      pu_Commit = replicate 40 (CHR ''a''), pu_DefaultBranch = ''trunk'', pu_Delivery = ''d-1''\<rparr>"

definition sample_delivery :: delivery where
  "sample_delivery =
     \<lparr>wd_payload = (\<lambda>secret. if secret = ''key'' then Inr ''body'' else Inl (Plain ''mismatch'')), wd_type = ''push'',
      wd_event = (\<lambda>body. Inr (Some (sample_push, False)))\<rparr>"

definition sample_client :: ghclient where
  "sample_client =
     \<lparr>gc_webhookSecret = ''key'', gc_limits = \<lparr>gl_MaxArchiveBytes = 67108864, gl_MaxArchiveEntries = 20000\<rparr>,
      gc_transport = (\<lambda>i. None), gc_installation = (\<lambda>i. Inr ''octo''), gc_commit = (\<lambda>i r ref. Inr (replicate 40 (CHR ''a''))),
      gc_link = (\<lambda>i r c. Inr ()),
      gc_download = (\<lambda>i r c. Inr ([\<lparr>te_Regular = True, te_Name = ''octo-web-aaaa/main.py'', te_Size = 3, te_Body = ''x=1''\<rparr>], None)),
      gc_zip = (\<lambda>es. Inr (concat (map fst es)))\<rparr>"

definition sample_ghenv :: gh_env where
  "sample_ghenv =
     \<lparr>ge_now = 120000, ge_newID = Inr ''dep_2'', ge_temp = None,
      ge_unzip = (\<lambda>bytes n. Inr [sample_file\<lparr>zf_Name := bytes\<rparr>]), ge_order = script_extensions\<rparr>"

definition sample_dep_request :: deployment_request where
  "sample_dep_request =
     \<lparr>dq_AppID = ''app_1'', dq_Runtime = RuntimePython, dq_CommitSHA = replicate 40 (CHR ''a''), dq_GitRef = ''refs/heads/main''\<rparr>"

lemma sample_request:
  "ghsvc_request sample_client sample_ghenv sample_app 42 ''refs/heads/main'' (replicate 40 (CHR ''a'')) = Inr sample_dep_request"
proof -
  have "ParseRepo ''octo/web'' = Inr \<lparr>rn_Owner = ''octo'', rn_Name = ''web''\<rparr>"
    "repack \<lparr>gl_MaxArchiveBytes = 67108864, gl_MaxArchiveEntries = 20000\<rparr>
       [\<lparr>te_Regular = True, te_Name = ''octo-web-aaaa/main.py'', te_Size = 3, te_Body = ''x=1''\<rparr>] None = Inr ([(''main.py'', ''x=1'')], 3)"
    "DetectRuntime script_extensions [''main.py''] = Inr RuntimePython"
    by code_simp+
  then show ?thesis
    by (simp add: ghsvc_request_def Source_def ZIPNames_def answered_def sample_client_def sample_ghenv_def sample_app_def
        sample_dep_request_def)
qed

lemma sample_app_read: "apprepo_GetByID sample_pdb ''org_1'' ''app_1'' = Inr sample_app"
proof -
  have "app_Validate sample_app = None" "app_ValidateIdentifier ''app_id'' ''app_1'' = None" "texts [''org_1'']"
    by code_simp+
  moreover have "app_ID sample_app = ''app_1''" "in_org sample_pdb ''org_1'' sample_app"
    by (simp_all add: in_org_def project_view_def) (simp_all add: sample_app_def sample_project_def)
  ultimately show ?thesis by (simp add: apprepo_GetByID_def scanApp_def)
qed

lemma sample_queued:
  "\<exists>d r. depsvc_Create sample_pdb sample_pdb (Inr ''dep_2'') 120000 ''org_1'' sample_dep_request = (d, Inr r) \<and> dep_AppID r = ''app_1''"
proof -
  let ?r = "\<lparr>dep_ID = ''dep_2'', dep_ProjectID = ''prj_1'', dep_AppID = ''app_1'', dep_Runtime = RuntimePython,
    dep_Status = DepQueued, dep_CommitSHA = [], dep_GitRef = [], dep_Build = None, dep_Failure = None, dep_Logs = [],
    dep_StartedAt = None, dep_FinishedAt = None, dep_CreatedAt = 120000, dep_UpdatedAt = 120000\<rparr>"
  let ?q = "?r\<lparr>dep_CommitSHA := replicate 40 (CHR ''a''), dep_GitRef := ''refs/heads/main''\<rparr>"
  have ok: "dep_ok ?r" "dep_ok ?q" by (simp_all add: dep_ok_defs is_zero_def dep_id_eval)
  have q: "dq_AppID sample_dep_request = ''app_1''" "dq_Runtime sample_dep_request = RuntimePython"
    "dq_CommitSHA sample_dep_request = replicate 40 (CHR ''a'')" "dq_GitRef sample_dep_request = ''refs/heads/main''"
    "app_ProjectID sample_app = ''prj_1''" "app_ID sample_app = ''app_1''" "valid_id ''app_1''" "valid_id ''dep_2''"
    by (simp_all add: sample_dep_request_def sample_app_def dep_id_eval)
  have plain: "trim_space (replicate 40 (CHR ''a'')) = replicate 40 (CHR ''a'')" "trim_space ''refs/heads/main'' = ''refs/heads/main''"
    "pg_text_ok ''refs/heads/main''" "pg_text_ok []"
    by code_simp+
  have new: "dep_New ''dep_2'' ''prj_1'' ''app_1'' RuntimePython 120000 = Inr ?r"
    using ok(1) by (simp add: dep_New_def)
  have git: "FromGit ?r (replicate 40 (CHR ''a'')) ''refs/heads/main'' = ?q" using plain by (simp add: FromGit_def)
  have "db_app_project (pd_db sample_pdb) ''app_1'' \<noteq> None"
    by (simp add: sample_pdb_def with_tables_def app_view_def sample_app_def)
  then have "\<exists>x. saveDeployment (pd_db sample_pdb) ?q = (x, None)"
    using plain(3,4) replicate_text [of 40]
    by (simp add: saveDeployment_def encode_dep_def pg_dep_failure_def) (simp add: sample_dep_row_def)
  then obtain x where "deprepo_Save (pd_db sample_pdb) ?q = (x, None)" using ok(2) by (auto simp: deprepo_Save_def)
  then show ?thesis using new git sample_app_read q
    by (simp add: depsvc_Create_def depsvc_allocateID_def)
qed

lemma sample_created:
  "\<exists>d r. projsvc_Create sample_pdb (Inr ''prj_2'') 90000 ''org_2'' ''beta'' = (d, Inr r) \<and> length (pd_projects d) = 2"
proof -
  let ?p = "\<lparr>prj_ID = ''prj_2'', prj_OrganizationID = ''org_2'', prj_Name = ''beta'', prj_CreatedAt = 90000, prj_UpdatedAt = 90000\<rparr>"
  have "project_New ''prj_2'' ''org_2'' ''beta'' 90000 = Inr ?p" "project_Validate ?p = None"
    "texts [''prj_2'', ''org_2'', ''beta'']" "name_check 120 ''beta''" by code_simp+
  then show ?thesis by (simp add: projsvc_Create_def projrepo_Create_def) (simp add: sample_project_def)
qed

section \<open>Properties\<close>

text \<open>
  C1: organizations are isolated. Whatever histories of requests other organizations make, the
  projects, apps, deployments, builds and executions of an organization are, row for row,
  what they were; and the tables keep their invariant.
\<close>

theorem organizations_isolated:
  assumes "org_run orgs d d'" and "pdb_ok d" and "org \<notin> orgs"
  shows "pdb_ok d' \<and> org_rows d' org = org_rows d org"
  using assms(1)
proof induction
  case (request d1 other seen d2)
  then show ?case using org_step_isolated [of other seen d1 d2] assms(3) by (auto simp: untouched_def)
qed (use assms in simp)

theorem organizations_isolated_witness:
  "\<exists>d'. length (pd_projects d') = 2 \<and> org_rows d' ''org_1'' = org_rows sample_pdb ''org_1''"
proof -
  obtain d r where new: "projsvc_Create sample_pdb (Inr ''prj_2'') 90000 ''org_2'' ''beta'' = (d, Inr r)"
    and two: "length (pd_projects d) = 2" using sample_created by blast
  have "trim_space ''org_2'' = ''org_2''" by code_simp
  then have "org_run {''org_2''} sample_pdb d"
    using org_run.request [OF org_run.start _ _ _ _ org_step.project_create [OF new]] sample_pdb_ok same_ids_refl
    by (metis insertI1 sample_tables(7))
  from organizations_isolated [OF this sample_pdb_ok, of "''org_1''"] two show ?thesis
    by (intro exI [of _ d]) simp
qed

text \<open>
  C2: a push reaches only the apps of the organization its installation belongs to. When a
  delivery is acted on, its payload was accepted under the webhook secret; every deployment
  queued is of exactly the pushed commit, for an app of that organization that is connected
  to the pushed repository and follows the ref; no other organization's rows change.
\<close>

theorem push_isolated:
  assumes "ParsePush cl q = Inr (Some p)"
    and push: "ghsvc_Push pg aq (Some cl) envs seen d p = (d', Inr (rs, es))"
    and "pdb_ok d" and "pdb_ok (gh_db seen)" and "\<And>n. pdb_ok (snd (envs n)) \<and> same_ids (snd (envs n)) d"
  shows "\<exists>payload i. wd_payload q (gc_webhookSecret cl) = Inr payload \<and> gc_webhookSecret cl \<noteq> []
    \<and> ByInstallationID seen (pu_InstallationID p) = Inr i
    \<and> pdb_ok d' \<and> (\<forall>other. other \<noteq> ins_OrganizationID i \<longrightarrow> org_rows d' other = org_rows d other)
    \<and> (\<forall>r \<in> set rs. dep_CommitSHA r = pu_Commit p
         \<and> (\<exists>a \<in> set (pd_apps (gh_db seen)). app_ID a = dep_AppID r
              \<and> owner (gh_db seen) (app_ID a) = Some (ins_OrganizationID i)
              \<and> aq_lower aq (app_Repository a) = aq_lower aq (pu_Repository p)
              \<and> TracksRef a (pu_Ref p) (pu_DefaultBranch p)))"
proof -
  obtain payload where signed: "gc_webhookSecret cl \<noteq> []" "wd_payload q (gc_webhookSecret cl) = Inr payload"
    and sha: "isCommitSHA (pu_Commit p)"
    using assms(1) by (auto simp: ParsePush_def split: if_splits sum.splits option.splits)
  obtain i apps where i: "ByInstallationID seen (pu_InstallationID p) = Inr i"
    and apps: "ConnectedTo pg aq (gh_db seen) (ins_OrganizationID i) (pu_Repository p) = Inr apps"
    and loop: "push_loop cl envs (ins_OrganizationID i) p 0 apps d = (d', rs, es)"
    using push by (auto simp: ghsvc_Push_def configured_def rbind_Inr_iff split: sum.splits prod.splits)
  have keys: "keys_ok (gh_db seen)" using assms(4) by (simp add: pdb_ok_def)
  note out = push_loop_isolated [OF assms(3,5) loop] and conn = ConnectedTo_Inr [OF apps keys]
  have "dep_CommitSHA r = pu_Commit p \<and> (\<exists>a \<in> set (pd_apps (gh_db seen)). app_ID a = dep_AppID r
      \<and> owner (gh_db seen) (app_ID a) = Some (ins_OrganizationID i)
      \<and> aq_lower aq (app_Repository a) = aq_lower aq (pu_Repository p) \<and> TracksRef a (pu_Ref p) (pu_DefaultBranch p))"
    if r: "r \<in> set rs" for r
  proof -
    obtain a where a: "a \<in> set apps" "dep_AppID r = app_ID a" "TracksRef a (pu_Ref p) (pu_DefaultBranch p)"
      "dep_CommitSHA r = trim_space (pu_Commit p)" using out r by blast
    then show ?thesis using conn [OF a(1)] isCommitSHA_trim [OF sha] by (intro conjI bexI [of _ a]) simp_all
  qed
  then show ?thesis using signed i out unfolding untouched_def by blast
qed

theorem push_isolated_witness:
  "\<exists>d r. ghsvc_Push any_pg sample_aq (Some sample_client) (\<lambda>n. (sample_ghenv, sample_pdb)) sample_gdb sample_pdb sample_push
      = (d, Inr ([r], []))
     \<and> dep_AppID r = ''app_1'' \<and> dep_CommitSHA r = replicate 40 (CHR ''a'')
     \<and> org_rows d ''org_2'' = org_rows sample_pdb ''org_2''"
proof -
  obtain d r where d: "depsvc_Create sample_pdb sample_pdb (Inr ''dep_2'') 120000 ''org_1'' sample_dep_request = (d, Inr r)"
    "dep_AppID r = ''app_1''" using sample_queued by blast
  have e: "ge_newID sample_ghenv = Inr ''dep_2''" "ge_now sample_ghenv = 120000" by (simp_all add: sample_ghenv_def)
  have p: "pu_InstallationID sample_push = 42" "pu_Ref sample_push = ''refs/heads/main''" "pu_Repository sample_push = ''Octo/web''"
    "pu_Commit sample_push = replicate 40 (CHR ''a'')" "pu_DefaultBranch sample_push = ''trunk''"
    by (simp_all add: sample_push_def)
  have plain: "texts [''Octo/web'', ''org_1'']" "app_Validate sample_app = None" "TracksRef sample_app ''refs/heads/main'' ''trunk''"
    by code_simp+
  have "in_org sample_pdb ''org_1'' sample_app" by (simp add: in_org_def project_view_def) (simp add: sample_app_def sample_project_def)
  then have conn: "ConnectedTo any_pg sample_aq sample_pdb ''org_1'' ''Octo/web'' = Inr [sample_app]"
    using plain(1,2) by (simp add: ConnectedTo_def scanApp_def) (simp add: sample_aq_def sample_app_def)
  have ins: "\<exists>i. ByInstallationID sample_gdb 42 = Inr i \<and> ins_OrganizationID i = ''org_1''"
    by (simp add: ByInstallationID_def sample_gdb_def)
  have "ghsvc_build sample_client sample_ghenv sample_pdb sample_pdb ''org_1'' sample_app 42 ''refs/heads/main''
      (replicate 40 (CHR ''a'')) = (d, Inr r)"
    using sample_request d(1) e by (simp add: ghsvc_build_def)
  then have push: "ghsvc_Push any_pg sample_aq (Some sample_client) (\<lambda>n. (sample_ghenv, sample_pdb)) sample_gdb sample_pdb sample_push
      = (d, Inr ([r], []))"
    using conn ins p plain(3) by (auto simp: ghsvc_Push_def configured_def)
  have sha: "isCommitSHA (pu_Commit sample_push)" unfolding p(4) by code_simp
  have "ParsePush sample_client sample_delivery = Inr (Some sample_push)"
    using p sha by (simp add: ParsePush_def sample_client_def sample_delivery_def)
  from push_isolated [OF this push sample_pdb_ok] sample_pdb_ok same_ids_refl [OF sample_pdb_ok] ins push d(2) p
  show ?thesis by auto
qed

end
