(* ===== verification/Membership.thy ===== *)
theory Membership
  imports Tenants
begin

text \<open>
  Histories of the identity and tenancy tables. A history is the list of the states the
  tables went through, newest first; every operation may act on what it read in any earlier
  state of the history. The invariant of the tables, what a later state keeps of an earlier
  one, and from them the properties of ownership and of invitations.
\<close>

inductive tenant_step :: "letters \<Rightarrow> tenants \<Rightarrow> tenants \<Rightarrow> tenants \<Rightarrow> bool" for lt where
  create_org: "tenant_step lt seen d (fst (orgrepo_Create seen d r))"
| rename_org: "tenant_step lt seen d (fst (orgrepo_Rename d r))"
| set_role: "tenant_step lt seen d (fst (orgrepo_SetMemberRole seen d org u rl now))"
| remove_member: "tenant_step lt seen d (fst (orgrepo_RemoveMember seen d org u))"
| create_invite: "tenant_step lt seen d (fst (CreateInvite lt d v digest))"
| redeem: "orgrepo_InviteByToken seen digest = Inr v \<Longrightarrow> tenant_step lt seen d (fst (Redeem d v u now))"
| revoke_invite: "tenant_step lt seen d (fst (orgrepo_RevokeInvite d org i now))"
| create_user: "tenant_step lt seen d (fst (userrepo_Create lt d u hash))"
| update_user: "tenant_step lt seen d (fst (userrepo_Update lt d u))"
| delete_user: "tenant_step lt seen d (fst (userrepo_Delete d i))"
| create_key: "key_Validate lt k = None \<Longrightarrow> tenant_step lt seen d (fst (keyrepo_Create d k digest))"
| revoke_key: "tenant_step lt seen d (fst (keyrepo_Revoke d org i now))"

inductive tenant_run :: "letters \<Rightarrow> tenants list \<Rightarrow> tenants list \<Rightarrow> bool" for lt h0 where
  start: "tenant_run lt h0 h0"
| step: "tenant_run lt h0 (d # h) \<Longrightarrow> seen \<in> set (d # h) \<Longrightarrow> tenant_step lt seen d d'
         \<Longrightarrow> tenant_run lt h0 (d' # d # h)"

inductive_cases tenant_stepE: "tenant_step lt seen d d'"

section \<open>What a later state keeps\<close>

definition kept :: "('a \<Rightarrow> 'a \<Rightarrow> bool) \<Rightarrow> 'a list \<Rightarrow> 'a list \<Rightarrow> bool" where
  "kept R xs ys \<longleftrightarrow> (\<forall>x \<in> set xs. \<exists>y \<in> set ys. R x y)"

lemma kept_refl: "(\<And>x. R x x) \<Longrightarrow> kept R xs xs"
  by (auto simp: kept_def)

lemma kept_append: "(\<And>x. R x x) \<Longrightarrow> kept R xs (xs @ ys)"
  by (auto simp: kept_def)

lemma kept_map: "(\<And>x. x \<in> set xs \<Longrightarrow> R x (f x)) \<Longrightarrow> kept R xs (map f xs)"
  by (auto simp: kept_def)

lemma kept_trans:
  "(\<And>x y z. R x y \<Longrightarrow> R y z \<Longrightarrow> R x z) \<Longrightarrow> kept R xs ys \<Longrightarrow> kept R ys zs \<Longrightarrow> kept R xs zs"
  unfolding kept_def by meson

definition org_follows :: "organization \<Rightarrow> organization \<Rightarrow> bool" where
  "org_follows r r' \<longleftrightarrow> org_ID r' = org_ID r \<and> org_OwnerUserID r' = org_OwnerUserID r"

definition invite_follows :: "invite_row \<Rightarrow> invite_row \<Rightarrow> bool" where
  "invite_follows x y \<longleftrightarrow>
     ir_id y = ir_id x \<and> ir_token_hash y = ir_token_hash x
     \<and> inv_OrganizationID (ir_invite y) = inv_OrganizationID (ir_invite x)
     \<and> inv_Email (ir_invite y) = inv_Email (ir_invite x)
     \<and> inv_Role (ir_invite y) = inv_Role (ir_invite x)
     \<and> inv_ExpiresAt (ir_invite y) = inv_ExpiresAt (ir_invite x)
     \<and> (\<not> Pending (ir_invite x) \<longrightarrow>
          inv_AcceptedAt (ir_invite y) = inv_AcceptedAt (ir_invite x)
          \<and> inv_RevokedAt (ir_invite y) = inv_RevokedAt (ir_invite x))"

definition key_follows :: "key_row \<Rightarrow> key_row \<Rightarrow> bool" where
  "key_follows x y \<longleftrightarrow>
     kr_id y = kr_id x \<and> kr_hash y = kr_hash x
     \<and> key_OrganizationID (kr_key y) = key_OrganizationID (kr_key x)
     \<and> key_Prefix (kr_key y) = key_Prefix (kr_key x)
     \<and> key_Scopes (kr_key y) = key_Scopes (kr_key x)
     \<and> (key_RevokedAt (kr_key x) \<noteq> None \<longrightarrow> key_RevokedAt (kr_key y) = key_RevokedAt (kr_key x))"

definition tenants_follow :: "tenants \<Rightarrow> tenants \<Rightarrow> bool" where
  "tenants_follow d d' \<longleftrightarrow>
     kept org_follows (tn_orgs d) (tn_orgs d')
     \<and> kept invite_follows (tn_invites d) (tn_invites d')
     \<and> kept key_follows (tn_keys d) (tn_keys d')"

lemma follows_refl [simp]:
  "org_follows r r" "invite_follows x x" "key_follows k k"
  by (simp_all add: org_follows_def invite_follows_def key_follows_def)

lemma org_follows_trans: "org_follows x y \<Longrightarrow> org_follows y z \<Longrightarrow> org_follows x z"
  by (simp add: org_follows_def)

lemma invite_follows_trans: "invite_follows x y \<Longrightarrow> invite_follows y z \<Longrightarrow> invite_follows x z"
  by (auto simp: invite_follows_def Pending_def)

lemma key_follows_trans: "key_follows x y \<Longrightarrow> key_follows y z \<Longrightarrow> key_follows x z"
  by (auto simp: key_follows_def)

lemma tenants_follow_refl [simp]: "tenants_follow d d"
  by (simp add: tenants_follow_def kept_refl)

lemma tenants_follow_trans: "tenants_follow a b \<Longrightarrow> tenants_follow b c \<Longrightarrow> tenants_follow a c"
  unfolding tenants_follow_def
  by (meson kept_trans org_follows_trans invite_follows_trans key_follows_trans)

lemmas op_splits = option.splits sum.splits bool.splits prod.splits if_splits

lemma org_ops_follow:
  shows "tenants_follow d (fst (orgrepo_Create seen d r))"
    and "tenants_follow d (fst (orgrepo_Rename d r))"
    and "tenants_follow d (fst (orgrepo_SetMemberRole seen d org u rl now))"
    and "tenants_follow d (fst (orgrepo_RemoveMember seen d org u))"
  unfolding orgrepo_Create_def orgrepo_Rename_def orgrepo_SetMemberRole_def orgrepo_RemoveMember_def
    tenants_follow_def
  by (auto simp: kept_refl kept_append org_follows_def intro!: kept_map split: op_splits)

lemma invite_ops_follow:
  shows "tenants_follow d (fst (CreateInvite lt d v digest))"
    and "tenants_follow d (fst (Redeem d v u now))"
    and "tenants_follow d (fst (orgrepo_RevokeInvite d org i now))"
  unfolding CreateInvite_def Redeem_def orgrepo_RevokeInvite_def tenants_follow_def
  by (auto simp: kept_refl kept_append invite_follows_def Pending_def intro!: kept_map split: op_splits)

lemma user_ops_follow:
  shows "tenants_follow d (fst (userrepo_Create lt d w hash))"
    and "tenants_follow d (fst (userrepo_Update lt d w))"
    and "tenants_follow d (fst (userrepo_Delete d i))"
  unfolding userrepo_Create_def userrepo_Update_def userrepo_Delete_def tenants_follow_def
  by (auto simp: kept_refl invite_follows_def key_follows_def intro!: kept_map split: op_splits)

lemma key_ops_follow:
  shows "tenants_follow d (fst (keyrepo_Create d k digest))"
    and "tenants_follow d (fst (keyrepo_Revoke d org i now))"
  unfolding keyrepo_Create_def keyrepo_Revoke_def tenants_follow_def
  by (auto simp: kept_refl kept_append key_follows_def intro!: kept_map split: op_splits)

lemmas ops_follow = org_ops_follow invite_ops_follow user_ops_follow key_ops_follow

lemma tenant_step_follows: "tenant_step lt seen d d' \<Longrightarrow> tenants_follow d d'"
  by (erule tenant_stepE) (auto simp: ops_follow)

section \<open>The invariant\<close>

abbreviation org_key :: "organization \<Rightarrow> string \<times> string" where
  "org_key r \<equiv> (org_ID r, org_OwnerUserID r)"

definition unique_keys :: "tenants \<Rightarrow> bool" where
  "unique_keys d \<longleftrightarrow>
     distinct (map ur_id (tn_users d)) \<and> distinct (map (\<lambda>x. usr_Email (ur_user x)) (tn_users d))
     \<and> distinct (map org_ID (tn_orgs d)) \<and> distinct (map org_OwnerUserID (tn_orgs d))
     \<and> distinct (map mr_key (tn_members d))
     \<and> distinct (map ir_id (tn_invites d)) \<and> distinct (map ir_token_hash (tn_invites d))
     \<and> distinct (map kr_id (tn_keys d)) \<and> distinct (map (\<lambda>x. key_Prefix (kr_key x)) (tn_keys d))"

definition references :: "tenants \<Rightarrow> bool" where
  "references d \<longleftrightarrow>
     texts (map ur_id (tn_users d)) \<and> texts (map org_ID (tn_orgs d)) \<and> texts (map ir_id (tn_invites d))
     \<and> org_key ` set (tn_orgs d) \<subseteq> mr_key ` set (tn_members d)
     \<and> (\<forall>m \<in> set (tn_members d). mr_organization_id m \<in> org_ID ` set (tn_orgs d)
          \<and> mr_user_id m \<in> ur_id ` set (tn_users d) \<and> role_Valid (mr_role m))
     \<and> (\<forall>x \<in> set (tn_invites d). inv_OrganizationID (ir_invite x) \<in> org_ID ` set (tn_orgs d)
          \<and> role_Valid (inv_Role (ir_invite x)))
     \<and> (\<forall>k \<in> set (tn_keys d). set (key_Scopes (kr_key k)) \<subseteq> set knownScopes \<and> length (kr_hash k) = 32)"

definition tenants_ok :: "tenants \<Rightarrow> bool" where
  "tenants_ok d \<longleftrightarrow> unique_keys d \<and> references d"

lemma refused_None: "refused cs = None \<longleftrightarrow> (\<forall>c \<in> set cs. \<not> snd c)"
  by (simp add: refused_def find_None_iff Ball_def split_paired_All)

text \<open>An update of some rows that leaves a column alone leaves the column's values alone.\<close>

lemma map_update [simp]:
  "(\<And>x. P x \<Longrightarrow> f (g x) = f x) \<Longrightarrow> map (f \<circ> (\<lambda>x. if P x then g x else x)) xs = map f xs"
  by simp

lemma image_update [simp]:
  "(\<And>x. P x \<Longrightarrow> f (g x) = f x) \<Longrightarrow> f ` (\<lambda>x. if P x then g x else x) ` A = f ` A"
  unfolding image_image by (rule image_cong) auto

declare if_image_distrib [simp del]

lemma distinct_replace:
  assumes "distinct (map k xs)" and "distinct (map f xs)" and "\<And>x. k x = i \<Longrightarrow> f (g x) = v"
    and "\<And>x. x \<in> set xs \<Longrightarrow> k x \<noteq> i \<Longrightarrow> f x \<noteq> v"
  shows "distinct (map (f \<circ> (\<lambda>x. if k x = i then g x else x)) xs)"
  using assms
proof (induction xs)
  case (Cons a xs)
  then show ?case by (auto simp: image_iff)
qed simp

lemma upsert_keys:
  "distinct (map mr_key ms) \<Longrightarrow> distinct (map mr_key (upsert_member ms n))"
  "mr_key ` set (upsert_member ms n) = insert (mr_key n) (mr_key ` set ms)"
  by (auto simp: upsert_member_def)

lemma org_ops_unique:
  assumes "unique_keys d"
  shows "unique_keys (fst (orgrepo_Create seen d r))"
    and "unique_keys (fst (orgrepo_Rename d r))"
    and "unique_keys (fst (orgrepo_SetMemberRole seen d org u rl now))"
    and "unique_keys (fst (orgrepo_RemoveMember seen d org u))"
  using assms unfolding orgrepo_Create_def orgrepo_Rename_def orgrepo_SetMemberRole_def
    orgrepo_RemoveMember_def unique_keys_def
  by (simp_all add: refused_None distinct_map_filter split: op_splits)

lemma invite_ops_unique:
  assumes "unique_keys d"
  shows "unique_keys (fst (CreateInvite lt d v digest))"
    and "unique_keys (fst (Redeem d v u now))"
    and "unique_keys (fst (orgrepo_RevokeInvite d org i now))"
  using assms unfolding CreateInvite_def Redeem_def orgrepo_RevokeInvite_def unique_keys_def
  by (simp_all add: refused_None upsert_keys split: op_splits)

lemma userrepo_Update_unique:
  assumes "unique_keys d"
  shows "unique_keys (fst (userrepo_Update lt d w))"
proof (cases "fst (userrepo_Update lt d w) = d")
  case False
  let ?g = "\<lambda>x. x\<lparr>ur_user := (ur_user x)\<lparr>usr_Email := usr_Email w, usr_Disabled := usr_Disabled w,
                                           usr_UpdatedAt := pg_time (usr_UpdatedAt w)\<rparr>\<rparr>"
  from False have "fst (userrepo_Update lt d w)
      = d\<lparr>tn_users := map (\<lambda>x. if ur_id x = usr_ID w then ?g x else x) (tn_users d)\<rparr>"
    and new: "\<not> list_ex (\<lambda>x. ur_id x \<noteq> usr_ID w \<and> usr_Email (ur_user x) = usr_Email w) (tn_users d)"
    by (auto simp: userrepo_Update_def refused_None split: option.splits if_splits)
  moreover have "distinct (map ((\<lambda>x. usr_Email (ur_user x)) \<circ> (\<lambda>x. if ur_id x = usr_ID w then ?g x else x))
      (tn_users d))"
    using assms new by (intro distinct_replace [where v = "usr_Email w"]) (auto simp: unique_keys_def list_ex_iff)
  ultimately show ?thesis using assms by (simp add: unique_keys_def)
qed (use assms in simp)

lemma user_ops_unique:
  assumes "unique_keys d"
  shows "unique_keys (fst (userrepo_Create lt d w hash))"
    and "unique_keys (fst (userrepo_Delete d i))"
  using assms unfolding userrepo_Create_def userrepo_Delete_def unique_keys_def
  by (simp_all add: refused_None distinct_map_filter split: op_splits)

lemma key_ops_unique:
  assumes "unique_keys d"
  shows "unique_keys (fst (keyrepo_Create d k digest))"
    and "unique_keys (fst (keyrepo_Revoke d org i now))"
  using assms unfolding keyrepo_Create_def keyrepo_Revoke_def unique_keys_def
  by (simp_all add: refused_None split: op_splits)

lemma isOwner_False:
  assumes "isOwner seen org u = Inr False" and "tenants_follow seen d" and "unique_keys d"
    and "r \<in> set (tn_orgs d)" and "org_ID r = org"
  shows "org_OwnerUserID r \<noteq> u"
proof -
  from assms(1) obtain r0 where r0: "r0 \<in> set (tn_orgs seen)" "org_ID r0 = org" "org_OwnerUserID r0 \<noteq> u"
    by (auto simp: isOwner_def split: option.splits if_splits dest!: find_Some_mem)
  then obtain r1 where r1: "r1 \<in> set (tn_orgs d)" "org_ID r1 = org" "org_OwnerUserID r1 = org_OwnerUserID r0"
    using assms(2) unfolding tenants_follow_def kept_def org_follows_def by metis
  moreover have "inj_on org_ID (set (tn_orgs d))" using assms(3) by (simp add: unique_keys_def distinct_map)
  then have "r1 = r" using inj_onD [of org_ID _ r1 r] r1 assms(4,5) by simp
  ultimately show ?thesis using r0 by simp
qed

lemma texts_simps [simp]:
  "texts []" "texts (p # ps) \<longleftrightarrow> pg_text_ok p \<and> texts ps" "texts (ps @ qs) \<longleftrightarrow> texts ps \<and> texts qs"
  by (simp_all add: texts_def)

lemma texts_filter: "texts (map f xs) \<Longrightarrow> texts (map f (filter p xs))"
  by (auto simp: texts_def list_all_iff)

lemma orgrepo_Create_refs: "references d \<Longrightarrow> references (fst (orgrepo_Create seen d r))"
  unfolding orgrepo_Create_def references_def
  by (auto simp: refused_None role_Valid_def split: option.splits if_splits)

lemma orgrepo_Rename_refs: "references d \<Longrightarrow> references (fst (orgrepo_Rename d r))"
  unfolding orgrepo_Rename_def references_def
  by (auto split: option.splits if_splits)

lemma SetMemberRole_refs:
  "references d \<Longrightarrow> references (fst (orgrepo_SetMemberRole seen d org u rl now))"
  unfolding orgrepo_SetMemberRole_def references_def
  by (auto simp: refused_None split: op_splits)

lemma references_drop_members:
  assumes "references d" and "\<And>m. m \<in> set (tn_members d) \<Longrightarrow> \<not> p m \<Longrightarrow> mr_key m \<notin> org_key ` set (tn_orgs d)"
  shows "references (d\<lparr>tn_members := filter p (tn_members d)\<rparr>)"
proof -
  have "org_key ` set (tn_orgs d) \<subseteq> mr_key ` set (filter p (tn_members d))"
  proof
    fix k assume k: "k \<in> org_key ` set (tn_orgs d)"
    with assms(1) have "k \<in> mr_key ` set (tn_members d)" unfolding references_def by blast
    then obtain m where m: "m \<in> set (tn_members d)" "mr_key m = k" by fastforce
    then have "p m" using assms(2) [OF m(1)] k by metis
    with m show "k \<in> mr_key ` set (filter p (tn_members d))" by force
  qed
  then show ?thesis using assms(1) unfolding references_def by simp
qed

lemma RemoveMember_refs:
  assumes "references d" and "tenants_follow seen d" and "unique_keys d"
  shows "references (fst (orgrepo_RemoveMember seen d org u))"
proof -
  have "references (d\<lparr>tn_members := filter (\<lambda>m. mr_key m \<noteq> (org, u)) (tn_members d)\<rparr>)"
    if "isOwner seen org u = Inr False"
    using isOwner_False [OF that assms(2,3)] by (intro references_drop_members [OF assms(1)]) fastforce
  then show ?thesis using assms(1) unfolding orgrepo_RemoveMember_def
    by (auto split: sum.splits bool.splits)
qed

lemma invite_ops_refs:
  assumes "references d"
  shows "references (fst (CreateInvite lt d v digest))"
    and "references (fst (orgrepo_RevokeInvite d org i now))"
  using assms unfolding CreateInvite_def orgrepo_RevokeInvite_def references_def
  by (auto simp: refused_None invite_Validate_def split: option.splits if_splits)

lemma Redeem_refs: "references d \<Longrightarrow> references (fst (Redeem d v u now))"
  unfolding Redeem_def references_def
  by (auto simp: refused_None upsert_member_def split: option.splits if_splits)

lemma user_ops_refs:
  assumes "references d"
  shows "references (fst (userrepo_Create lt d w hash))"
    and "references (fst (userrepo_Update lt d w))"
  using assms unfolding userrepo_Create_def userrepo_Update_def references_def
  by (auto simp: refused_None split: option.splits if_splits)

lemma userrepo_Delete_refs: "references d \<Longrightarrow> references (fst (userrepo_Delete d i))"
proof (cases "fst (userrepo_Delete d i) = d")
  case False
  assume refs: "references d"
  from False have free: "i \<notin> org_OwnerUserID ` set (tn_orgs d)"
    by (simp add: userrepo_Delete_def split: if_splits)
  let ?d = "d\<lparr>tn_members := filter (\<lambda>m. mr_user_id m \<noteq> i) (tn_members d)\<rparr>"
  have "references ?d" by (rule references_drop_members [OF refs]) (use free in auto)
  then show ?thesis using False unfolding userrepo_Delete_def references_def
    by (auto simp: texts_filter split: if_splits)
qed simp

lemma key_ops_refs:
  assumes "references d"
  shows "key_Validate lt k = None \<Longrightarrow> references (fst (keyrepo_Create d k digest))"
    and "references (fst (keyrepo_Revoke d org i now))"
  using assms unfolding keyrepo_Create_def keyrepo_Revoke_def references_def key_Validate_def
  by (auto simp: refused_None first_err_None_iff split: option.splits if_splits)

lemma tenant_step_ok:
  assumes "tenant_step lt seen d d'" and "tenants_ok d" and "tenants_follow seen d"
  shows "tenants_ok d'"
  using assms unfolding tenants_ok_def
  by (elim tenant_stepE)
     (simp_all add: org_ops_unique invite_ops_unique user_ops_unique userrepo_Update_unique key_ops_unique
       orgrepo_Create_refs orgrepo_Rename_refs SetMemberRole_refs RemoveMember_refs invite_ops_refs
       Redeem_refs user_ops_refs userrepo_Delete_refs key_ops_refs)

lemma tenant_run_ok:
  "tenant_run lt [d0] h \<Longrightarrow> tenants_ok d0 \<Longrightarrow> tenants_ok (hd h) \<and> (\<forall>seen \<in> set h. tenants_follow seen (hd h))"
proof (induction rule: tenant_run.induct)
  case (step d h seen d')
  then have ok: "tenants_ok d" and old: "\<forall>seen \<in> set (d # h). tenants_follow seen d" by simp_all
  have "tenants_ok d'" using tenant_step_ok [OF step(3) ok] old step(2) by blast
  moreover have "tenants_follow d d'" by (rule tenant_step_follows [OF step(3)])
  ultimately show ?case using old by (auto intro: tenants_follow_trans)
qed simp

lemma tenant_run_start: "tenant_run lt (d0 # h0) h \<Longrightarrow> d0 \<in> set h"
  by (induction rule: tenant_run.induct) auto

lemma tenant_run_trans: "tenant_run lt b c \<Longrightarrow> tenant_run lt a b \<Longrightarrow> tenant_run lt a c"
  by (induction rule: tenant_run.induct) (auto intro: tenant_run.intros)

section \<open>Reading members and invitations\<close>

lemma find_by_key: "distinct (map k xs) \<Longrightarrow> x \<in> set xs \<Longrightarrow> find (\<lambda>y. k y = k x) xs = Some x"
  by (induction xs) auto

lemma filter_by_key: "distinct (map k xs) \<Longrightarrow> x \<in> set xs \<Longrightarrow> filter (\<lambda>y. k y = k x) xs = [x]"
  by (induction xs) (auto simp: filter_empty_conv image_iff)

lemma same_key: "distinct (map k xs) \<Longrightarrow> x \<in> set xs \<Longrightarrow> y \<in> set xs \<Longrightarrow> k x = k y \<Longrightarrow> x = y"
  by (auto simp: distinct_map dest: inj_onD)

lemma texts_mem: "texts (map f xs) \<Longrightarrow> x \<in> set xs \<Longrightarrow> pg_text_ok (f x)"
  by (simp add: texts_def list_all_iff)

lemma references_ownerD:
  assumes "references d" and "r \<in> set (tn_orgs d)"
  obtains m where "m \<in> set (tn_members d)" and "mr_key m = org_key r"
proof -
  have "org_key r \<in> mr_key ` set (tn_members d)" using assms unfolding references_def by blast
  then show ?thesis using that by force
qed

lemma references_memberD:
  assumes "references d" and "m \<in> set (tn_members d)"
  shows "mr_organization_id m \<in> org_ID ` set (tn_orgs d)" and "mr_user_id m \<in> ur_id ` set (tn_users d)"
    and "role_Valid (mr_role m)"
  using assms unfolding references_def by blast+

lemma Member_found:
  assumes "tenants_ok d" and m: "m \<in> set (tn_members d)" and r: "r \<in> set (tn_orgs d)"
    and org: "org_ID r = mr_organization_id m"
  shows "\<exists>rec. orgrepo_Member d (mr_organization_id m) (mr_user_id m) = Inr rec
      \<and> mem_OrganizationID rec = mr_organization_id m \<and> mem_UserID rec = mr_user_id m
      \<and> mem_Role rec = mr_role m \<and> mem_Owner rec = (org_OwnerUserID r = mr_user_id m)"
proof -
  have uniq: "unique_keys d" and refs: "references d" using assms(1) by (simp_all add: tenants_ok_def)
  from refs m have "mr_user_id m \<in> ur_id ` set (tn_users d)" unfolding references_def by blast
  then obtain u where u: "u \<in> set (tn_users d)" "ur_id u = mr_user_id m" by force
  have "find (\<lambda>y. ur_id y = mr_user_id m) (tn_users d) = Some u"
    using find_by_key [of ur_id "tn_users d" u] uniq u by (simp add: unique_keys_def)
  moreover have "find (\<lambda>y. org_ID y = mr_organization_id m) (tn_orgs d) = Some r"
    using find_by_key [of org_ID "tn_orgs d" r] uniq r org by (simp add: unique_keys_def)
  moreover have "filter (\<lambda>y. mr_key y = mr_key m) (tn_members d) = [m]"
    using filter_by_key [of mr_key "tn_members d" m] uniq m by (simp add: unique_keys_def)
  moreover have "pg_text_ok (mr_organization_id m)" "pg_text_ok (mr_user_id m)"
    using texts_mem [of ur_id "tn_users d" u] texts_mem [of org_ID "tn_orgs d" r] refs u r org
    by (simp_all add: references_def)
  ultimately show ?thesis
    by (simp add: orgrepo_Member_def memberQuery_def scanMember_def List.map_filter_simps)
qed

lemma InviteByToken_Inr:
  "orgrepo_InviteByToken d digest = Inr v \<Longrightarrow>
     \<exists>x \<in> set (tn_invites d). ir_invite x = v \<and> ir_token_hash x = digest"
  by (auto simp: orgrepo_InviteByToken_def split: option.splits dest!: find_Some_mem)

lemma Redeem_not_pending:
  assumes "unique_keys d" and "x \<in> set (tn_invites d)" and "\<not> Pending (ir_invite x)"
    and "inv_ID v = ir_id x"
  shows "\<exists>e. Redeem d v u now = (d, Inl e)"
proof -
  have "\<not> list_ex (\<lambda>y. ir_id y = inv_ID v \<and> Pending (ir_invite y)) (tn_invites d)"
    using same_key [of ir_id "tn_invites d" _ x] assms by (auto simp: unique_keys_def list_ex_iff)
  then show ?thesis by (simp add: Redeem_def)
qed

lemma spent_stays_spent:
  assumes run: "tenant_run lt (d1 # h1) (d2 # h2)" and ok: "tenants_ok d2"
    and old: "\<forall>seen \<in> set (d2 # h2). tenants_follow seen d2" and d1: "d1 \<in> set (d2 # h2)"
    and x: "x \<in> set (tn_invites d1)" "\<not> Pending (ir_invite x)" "ir_token_hash x = InviteDigest token"
    and seen: "seen \<in> set (d2 # h2)"
  shows "\<exists>e. orgsvc_Accept lt seen d2 token u email now now' = (d2, Inl e)"
proof (cases "orgsvc_InviteByToken seen token")
  case (Inr v)
  then obtain y where y: "y \<in> set (tn_invites seen)" "ir_invite y = v" "ir_token_hash y = InviteDigest token"
    using InviteByToken_Inr unfolding orgsvc_InviteByToken_def by blast
  obtain x' where x': "x' \<in> set (tn_invites d2)" "invite_follows x x'"
    using old d1 x(1) unfolding tenants_follow_def kept_def by meson
  obtain y' where y': "y' \<in> set (tn_invites d2)" "invite_follows y y'"
    using old seen y(1) unfolding tenants_follow_def kept_def by meson
  have "x' = y'" using same_key [of ir_token_hash "tn_invites d2" x' y'] ok x y x' y'
    by (simp add: tenants_ok_def unique_keys_def invite_follows_def)
  then have "inv_ID v = ir_id x'" "\<not> Pending (ir_invite x')"
    using x' y' y x(2) by (auto simp: invite_follows_def Pending_def)
  then obtain e where "Redeem d2 v u now' = (d2, Inl e)"
    using Redeem_not_pending [OF _ x'(1)] ok unfolding tenants_ok_def by blast
  then show ?thesis using Inr by (simp add: orgsvc_Accept_def split: option.split)
qed (simp add: orgsvc_Accept_def)

lemma Redeem_Inr:
  assumes "Redeem d v u now = (d', Inr m)"
  shows "list_ex (\<lambda>x. ir_id x = inv_ID v \<and> Pending (ir_invite x)) (tn_invites d)"
    and "tn_invites d' = map (\<lambda>x. if ir_id x = inv_ID v \<and> Pending (ir_invite x)
           then x\<lparr>ir_invite := (ir_invite x)\<lparr>inv_AcceptedAt := Some (pg_time now)\<rparr>\<rparr> else x) (tn_invites d)"
    and "\<exists>n \<in> set (tn_members d'). mr_key n = (inv_OrganizationID v, u) \<and> mr_role n = inv_Role v"
    and "orgrepo_Member d' (inv_OrganizationID v) u = Inr m"
  using assms by (auto simp: Redeem_def upsert_member_def image_iff split: option.splits if_splits)

lemma Accept_Inr:
  assumes "orgsvc_Accept lt seen d token u email now now' = (d', Inr m)"
  shows "\<exists>v. orgsvc_InviteByToken seen token = Inr v \<and> Redeemable lt v email now = None
      \<and> Redeem d v u now' = (d', Inr m)"
  using assms by (auto simp: orgsvc_Accept_def split: sum.splits option.splits)

lemma role_text: "role_Valid r \<Longrightarrow> pg_text_ok r"
  by (auto simp: role_Valid_def RoleAdmin_def RoleOperator_def RoleViewer_def pg_text_ok_def
      is_ascii_valid_utf8 is_ascii_def byte_val_def)

lemma upsert_has: "\<exists>m \<in> set (upsert_member ms n). mr_key m = mr_key n \<and> mr_role m = mr_role n"
proof (cases "mr_key n \<in> mr_key ` set ms")
  case True
  then obtain m where "m \<in> set ms" "mr_key m = mr_key n" by force
  then show ?thesis using True by (intro bexI [of _ "m\<lparr>mr_role := mr_role n, mr_updated_at := mr_updated_at n\<rparr>"])
    (auto simp: upsert_member_def image_iff)
qed (simp add: upsert_member_def)

lemma Redeem_runs:
  assumes "pg_text_ok (inv_ID v)" "list_ex (\<lambda>x. ir_id x = inv_ID v \<and> Pending (ir_invite x)) (tn_invites d)"
    and "pg_text_ok (inv_OrganizationID v)" "pg_text_ok u" "role_Valid (inv_Role v)"
    and "inv_OrganizationID v \<in> org_ID ` set (tn_orgs d)" "u \<in> ur_id ` set (tn_users d)"
  shows "\<exists>d'. Redeem d v u now = (d', orgrepo_Member d' (inv_OrganizationID v) u) \<and> tn_orgs d' = tn_orgs d
      \<and> (\<exists>m \<in> set (tn_members d'). mr_key m = (inv_OrganizationID v, u) \<and> mr_role m = inv_Role v)"
proof -
  let ?n = "\<lparr>mr_organization_id = inv_OrganizationID v, mr_user_id = u, mr_role = inv_Role v,
             mr_created_at = pg_time now, mr_updated_at = pg_time now\<rparr>"
  have "\<exists>m \<in> set (upsert_member (tn_members d) ?n). mr_key m = (inv_OrganizationID v, u) \<and> mr_role m = inv_Role v"
    using upsert_has [of "tn_members d" ?n] by simp
  then show ?thesis using assms role_text [OF assms(5)] by (simp add: Redeem_def refused_def)
qed

section \<open>Properties\<close>

text \<open>
  C14: an organization keeps its owner, and its owner stays a member. Whatever operations
  follow one another, each acting on reads as old as the history, every organization that
  existed is still there with the owner it had, nobody owns two, and the membership of the
  owner is found, marked as the owner's.
\<close>

theorem owner_stays_member:
  assumes "tenant_run lt [d0] (d # h)" and "tenants_ok d0"
  shows "(\<forall>r \<in> set (tn_orgs d0). \<exists>r' \<in> set (tn_orgs d). org_key r' = org_key r)
    \<and> distinct (map org_OwnerUserID (tn_orgs d))
    \<and> (\<forall>r \<in> set (tn_orgs d). \<exists>m. orgrepo_Member d (org_ID r) (org_OwnerUserID r) = Inr m \<and> mem_Owner m)"
proof (intro conjI)
  have ok: "tenants_ok d" and "tenants_follow d0 d"
    using tenant_run_ok [OF assms] tenant_run_start [OF assms(1)] by auto
  then show "\<forall>r \<in> set (tn_orgs d0). \<exists>r' \<in> set (tn_orgs d). org_key r' = org_key r"
    unfolding tenants_follow_def kept_def org_follows_def by simp
  show "distinct (map org_OwnerUserID (tn_orgs d))"
    using ok by (simp add: tenants_ok_def unique_keys_def)
  show "\<forall>r \<in> set (tn_orgs d). \<exists>m. orgrepo_Member d (org_ID r) (org_OwnerUserID r) = Inr m \<and> mem_Owner m"
  proof
    fix r assume r: "r \<in> set (tn_orgs d)"
    with ok obtain m where "m \<in> set (tn_members d)" "mr_key m = org_key r"
      using references_ownerD unfolding tenants_ok_def by metis
    then show "\<exists>m. orgrepo_Member d (org_ID r) (org_OwnerUserID r) = Inr m \<and> mem_Owner m"
      using Member_found [OF ok _ r, of m] by auto
  qed
qed

text \<open>
  C13: an invitation is spent once, by the address it was sent to. When \<open>Accept\<close> succeeds on a
  state of a history, having read the invitation in any earlier state, the invitation it read
  was pending, had not expired and was addressed to the caller, and the membership it returns
  has its role. From then on no \<open>Accept\<close> with that token succeeds, for anybody, at any later
  point of the history, whatever it had read.
\<close>

theorem invite_spent_once:
  assumes "tenant_run lt [d0] (d # h)" and "tenants_ok d0" and "seen \<in> set (d # h)"
    and acc: "orgsvc_Accept lt seen d token u email now now' = (d1, Inr m)"
    and later: "tenant_run lt (d1 # d # h) (d2 # h2)" and "seen2 \<in> set (d2 # h2)"
  shows "(\<exists>v. orgsvc_InviteByToken seen token = Inr v \<and> Pending v \<and> now < inv_ExpiresAt v
        \<and> EqualFold lt (trim_space email) (inv_Email v)
        \<and> mem_OrganizationID m = inv_OrganizationID v \<and> mem_UserID m = u \<and> mem_Role m = inv_Role v)
    \<and> (\<exists>e. orgsvc_Accept lt seen2 d2 token u2 email2 now2 now3 = (d2, Inl e))"
proof -
  from Accept_Inr [OF acc] obtain v where v: "orgsvc_InviteByToken seen token = Inr v"
    "Redeemable lt v email now = None" "Redeem d v u now' = (d1, Inr m)" by blast
  then have step: "tenant_step lt seen d d1"
    using tenant_step.redeem [of seen "InviteDigest token" v lt d u now'] by (simp add: orgsvc_InviteByToken_def)
  have run1: "tenant_run lt [d0] (d1 # d # h)" by (rule tenant_run.step [OF assms(1,3) step])
  have ok1: "tenants_ok d1" and old1: "\<forall>s \<in> set (d1 # d # h). tenants_follow s d1"
    using tenant_run_ok [OF run1 assms(2)] by auto
  have ok2: "tenants_ok d2" and old2: "\<forall>s \<in> set (d2 # h2). tenants_follow s d2"
    using tenant_run_ok [OF tenant_run_trans [OF later run1] assms(2)] by auto
  obtain x where x: "x \<in> set (tn_invites seen)" "ir_invite x = v" "ir_token_hash x = InviteDigest token"
    using InviteByToken_Inr v(1) unfolding orgsvc_InviteByToken_def by blast
  obtain y where y: "y \<in> set (tn_invites d)" "invite_follows x y"
    using tenant_run_ok [OF assms(1,2)] assms(3) x(1) unfolding tenants_follow_def kept_def by fastforce
  have "\<exists>y' \<in> set (tn_invites d1). \<not> Pending (ir_invite y') \<and> ir_token_hash y' = InviteDigest token"
    using y x Redeem_Inr(2) [OF v(3)] by (auto simp: invite_follows_def Pending_def)
  then have dead: "\<exists>e. orgsvc_Accept lt seen2 d2 token u2 email2 now2 now3 = (d2, Inl e)"
    using spent_stays_spent [OF later ok2 old2 tenant_run_start [OF later]] assms(6) by blast
  obtain n where n: "n \<in> set (tn_members d1)" "mr_key n = (inv_OrganizationID v, u)" "mr_role n = inv_Role v"
    using Redeem_Inr(3) [OF v(3)] by blast
  then have "mr_organization_id n \<in> org_ID ` set (tn_orgs d1)"
    using ok1 references_memberD(1) unfolding tenants_ok_def by blast
  then obtain r where "r \<in> set (tn_orgs d1)" "org_ID r = mr_organization_id n" by force
  then have "mem_OrganizationID m = inv_OrganizationID v \<and> mem_UserID m = u \<and> mem_Role m = inv_Role v"
    using Member_found [OF ok1 n(1)] n Redeem_Inr(4) [OF v(3)] by auto
  then show ?thesis using v(1,2) dead by (auto simp: Redeemable_def)
qed

text \<open>
  The owner can be demoted after all. \<open>SetMemberRole\<close> refuses to change the owner's role, so
  that somebody can always administer the organization, but accepting an invitation sets the
  role of a member that already exists: the owner who accepts a pending invitation to the
  owner's own organization gets the invited role, and \<open>SetMemberRole\<close> then refuses to undo it.
\<close>

lemma owner_demoted_by_invite:
  assumes ok: "tenants_ok d" and r: "r \<in> set (tn_orgs d)" and x: "x \<in> set (tn_invites d)"
    and "Pending (ir_invite x)" and org: "inv_OrganizationID (ir_invite x) = org_ID r"
    and hash: "ir_token_hash x = InviteDigest token" and "now < inv_ExpiresAt (ir_invite x)"
    and "EqualFold lt (trim_space email) (inv_Email (ir_invite x))"
  shows "\<exists>d' m. orgsvc_Accept lt d d token (org_OwnerUserID r) email now now' = (d', Inr m)
      \<and> mem_Owner m \<and> mem_Role m = inv_Role (ir_invite x)
      \<and> (\<forall>raw t. \<exists>e. orgsvc_SetMemberRole lt d' d' (org_ID r) (org_OwnerUserID r) raw t = (d', Inl e))"
proof -
  let ?v = "ir_invite x" and ?u = "org_OwnerUserID r"
  have uniq: "unique_keys d" and refs: "references d" using ok by (simp_all add: tenants_ok_def)
  have seen: "orgsvc_InviteByToken d token = Inr ?v"
    using find_by_key [of ir_token_hash "tn_invites d" x] uniq x hash
    by (simp add: orgsvc_InviteByToken_def orgrepo_InviteByToken_def unique_keys_def)
  obtain n where "n \<in> set (tn_members d)" "mr_key n = org_key r" using references_ownerD [OF refs r] .
  then have u: "?u \<in> ur_id ` set (tn_users d)" using references_memberD(2) [OF refs, of n] by simp
  have texts: "pg_text_ok (org_ID r)" "pg_text_ok ?u" "pg_text_ok (ir_id x)"
    using refs r x u by (auto simp: references_def texts_def list_all_iff)
  have role: "role_Valid (inv_Role ?v)" using refs x unfolding references_def by blast
  have pend: "list_ex (\<lambda>y. ir_id y = ir_id x \<and> Pending (ir_invite y)) (tn_invites d)"
    using x assms(4) by (auto simp: list_ex_iff)
  obtain d' where d': "Redeem d ?v ?u now' = (d', orgrepo_Member d' (org_ID r) ?u)"
    and orgs: "tn_orgs d' = tn_orgs d"
    and mem: "\<exists>m \<in> set (tn_members d'). mr_key m = org_key r \<and> mr_role m = inv_Role ?v"
    using Redeem_runs [of ?v d ?u now', OF texts(3) pend _ texts(2) role _ u] texts(1) r
    unfolding org by auto
  have ok': "tenants_ok d'"
    using tenant_step_ok [OF tenant_step.redeem [OF seen [unfolded orgsvc_InviteByToken_def]] ok tenants_follow_refl]
      d' by (metis fst_conv)
  from mem obtain m where m: "m \<in> set (tn_members d')" "mr_key m = org_key r" "mr_role m = inv_Role ?v" by blast
  obtain rec where rec: "orgrepo_Member d' (org_ID r) ?u = Inr rec" "mem_Owner rec" "mem_Role rec = inv_Role ?v"
    using Member_found [OF ok' m(1), of r] orgs r m by auto
  have "isOwner d' (org_ID r) ?u = Inr True"
    using find_by_key [of org_ID "tn_orgs d" r] uniq r orgs texts by (simp add: isOwner_def unique_keys_def)
  then have "\<exists>e. orgsvc_SetMemberRole lt d' d' (org_ID r) ?u raw t = (d', Inl e)" for raw t
    by (auto simp: orgsvc_SetMemberRole_def orgrepo_SetMemberRole_def split: sum.splits)
  moreover have "orgsvc_Accept lt d d token ?u email now now' = (d', Inr rec)"
    using seen assms(4,7,8) d' rec(1) by (simp add: orgsvc_Accept_def Redeemable_def)
  ultimately show ?thesis using rec by blast
qed

section \<open>Witnesses\<close>

definition sample_letters :: letters where
  "sample_letters = \<lparr>lt_lower = id, lt_fold = (=), lt_sql_lower = id, lt_quote = id\<rparr>"

definition sample_tenants :: tenants where
  "sample_tenants =
     \<lparr>tn_users = [\<lparr>ur_user = \<lparr>usr_ID = ''u1'', usr_Email = ''ada@x.io'', usr_Disabled = False,
                                usr_CreatedAt = 0, usr_UpdatedAt = 0\<rparr>, ur_password_hash = ''$2''\<rparr>],
      tn_orgs = [\<lparr>org_ID = ''o1'', org_OwnerUserID = ''u1'', org_Name = ''acme'',
                  org_CreatedAt = 0, org_UpdatedAt = 0\<rparr>],
      tn_members = [\<lparr>mr_organization_id = ''o1'', mr_user_id = ''u1'', mr_role = RoleAdmin,
                     mr_created_at = 0, mr_updated_at = 0\<rparr>],
      tn_invites = [\<lparr>ir_invite = \<lparr>inv_ID = ''i1'', inv_OrganizationID = ''o1'', inv_Email = ''ada@x.io'',
                        inv_Role = RoleViewer, inv_InvitedBy = [], inv_CreatedAt = 0,
                        inv_ExpiresAt = 1000, inv_AcceptedAt = None, inv_RevokedAt = None\<rparr>,
                      ir_token_hash = InviteDigest ''tok''\<rparr>],
      tn_keys = []\<rparr>"

lemma sample_texts [simp]: "pg_text_ok ''u1''" "pg_text_ok ''o1''" "pg_text_ok ''i1''"
  by (simp_all add: pg_text_ok_def is_ascii_valid_utf8 is_ascii_def byte_val_def)

lemma sample_roles [simp]: "role_Valid RoleViewer" "role_Valid RoleAdmin"
  by (simp_all add: role_Valid_def)

lemma sample_tenants_ok: "tenants_ok sample_tenants"
  by (simp add: tenants_ok_def unique_keys_def references_def sample_tenants_def)

lemma sample_email: "EqualFold sample_letters (trim_space ''ada@x.io'') ''ada@x.io''"
  by (simp add: EqualFold_def visible_ascii_trim visible_ascii_def byte_val_def is_ascii_def)

lemma sample_accept:
  "\<exists>d' m. orgsvc_Accept sample_letters sample_tenants sample_tenants ''tok'' ''u1'' ''ada@x.io'' 0 0 = (d', Inr m)"
  using sample_email role_text [OF sample_roles(1)]
  by (simp add: orgsvc_Accept_def orgsvc_InviteByToken_def orgrepo_InviteByToken_def Redeemable_def
      Redeem_def refused_def upsert_member_def orgrepo_Member_def memberQuery_def scanMember_def
      List.map_filter_simps Pending_def sample_tenants_def)

theorem owner_stays_member_witness:
  "\<exists>m. orgrepo_Member (fst (orgrepo_RemoveMember sample_tenants sample_tenants ''o1'' ''u1'')) ''o1'' ''u1'' = Inr m
     \<and> mem_Owner m"
proof -
  let ?d = "fst (orgrepo_RemoveMember sample_tenants sample_tenants ''o1'' ''u1'')"
  have run: "tenant_run sample_letters [sample_tenants] [?d, sample_tenants]"
    by (rule tenant_run.step [OF tenant_run.start _ tenant_step.remove_member]) simp
  note kept = owner_stays_member [OF run sample_tenants_ok]
  then obtain r where "r \<in> set (tn_orgs ?d)" "org_key r = (''o1'', ''u1'')"
    by (auto simp: sample_tenants_def)
  with kept show ?thesis by auto
qed

theorem invite_spent_once_witness:
  "\<exists>d' m e. orgsvc_Accept sample_letters sample_tenants sample_tenants ''tok'' ''u1'' ''ada@x.io'' 0 0 = (d', Inr m)
     \<and> mem_Role m = RoleViewer
     \<and> orgsvc_Accept sample_letters sample_tenants d' ''tok'' ''u1'' ''ada@x.io'' 0 0 = (d', Inl e)"
proof -
  obtain d' m where acc:
    "orgsvc_Accept sample_letters sample_tenants sample_tenants ''tok'' ''u1'' ''ada@x.io'' 0 0 = (d', Inr m)"
    using sample_accept by blast
  have "orgsvc_InviteByToken sample_tenants ''tok'' = Inr (ir_invite (hd (tn_invites sample_tenants)))"
    by (simp add: orgsvc_InviteByToken_def orgrepo_InviteByToken_def sample_tenants_def)
  then show ?thesis
    using invite_spent_once [OF tenant_run.start sample_tenants_ok _ acc tenant_run.start, of sample_tenants] acc
    by (auto simp: sample_tenants_def)
qed

end
