(* ===== verification/Access.thy ===== *)
theory Access
  imports Membership
begin

text \<open>
  Who may do what: \<open>internal/service/account.go\<close> and \<open>session.go\<close>, the session store of
  \<open>internal/repository/memory/session.go\<close>, and from \<open>internal/api\<close> the middleware
  (\<open>middleware.go\<close>), the account endpoints (\<open>accounts.go\<close>) and the mapping of errors to
  responses. Redis is not part of the repository: what it returns for a key is the argument
  \<open>got\<close> of a lookup, with no assumption about it, and what a write to it answers is the
  argument \<open>stored\<close>.
\<close>

section \<open>The account service\<close>

definition accsvc_CreateUser ::
  "letters \<Rightarrow> bcrypt \<Rightarrow> tenants \<Rightarrow> string result \<Rightarrow> time \<Rightarrow> string \<Rightarrow> string \<Rightarrow> tenants \<times> user result"
where
  "accsvc_CreateUser lt bc d newID now email password =
     (case HashPassword bc password of
        Inl e \<Rightarrow> (d, Inl (wrapf Account_ErrInvalid (error_text e)))
      | Inr hash \<Rightarrow>
          (case rbind newID (\<lambda>i. NewUser lt i email now) of
             Inl e \<Rightarrow> (d, Inl e)
           | Inr u \<Rightarrow>
               (case userrepo_Create lt d u hash of
                  (d', Some e) \<Rightarrow> (d', Inl e) | (d', None) \<Rightarrow> (d', Inr u))))"

definition accsvc_UpdateUser ::
  "letters \<Rightarrow> tenants \<Rightarrow> tenants \<Rightarrow> string \<Rightarrow> string option \<Rightarrow> bool option \<Rightarrow> time \<Rightarrow> tenants \<times> user result"
where
  "accsvc_UpdateUser lt seen d userID email disabled now =
     (case userrepo_GetByID seen userID of
        Inl e \<Rightarrow> (d, Inl e)
      | Inr u \<Rightarrow>
          (case user_Apply lt u email disabled now of
             (u', Some e) \<Rightarrow> (d, Inl e)
           | (u', None) \<Rightarrow>
               (case userrepo_Update lt d u' of
                  (d', Some e) \<Rightarrow> (d', Inl e) | (d', None) \<Rightarrow> (d', Inr u'))))"

record key_request =
  kq_UserID :: string
  kq_Name :: string
  kq_Scopes :: "string list"

definition accsvc_CreateKey ::
  "letters \<Rightarrow> tenants \<Rightarrow> tenants \<Rightarrow> string result \<Rightarrow> rand \<Rightarrow> rand \<Rightarrow> time \<Rightarrow> string \<Rightarrow> key_request
   \<Rightarrow> tenants \<times> (key \<times> string) result"
where
  "accsvc_CreateKey lt seen d newID prefixRaw secretRaw now organizationID request =
     (case rbind newID (\<lambda>i. NewKey lt i organizationID (kq_UserID request) (kq_Name request)
                              (kq_Scopes request) now) of
        Inl e \<Rightarrow> (d, Inl e)
      | Inr k \<Rightarrow>
          (case (if key_UserID k = [] then Inr True else userrepo_Exists seen (key_UserID k)) of
             Inl e \<Rightarrow> (d, Inl e)
           | Inr False \<Rightarrow> (d, Inl (wrapf Account_ErrInvalid ''key owner was not found''))
           | Inr True \<Rightarrow>
               (case MintSecret prefixRaw secretRaw of
                  Inl e \<Rightarrow> (d, Inl e)
                | Inr (pre, secret) \<Rightarrow>
                    let k' = k\<lparr>key_Prefix := pre\<rparr> in
                    (case keyrepo_Create d k' (HashSecret secret) of
                       (d', Some e) \<Rightarrow> (d', Inl e) | (d', None) \<Rightarrow> (d', Inr (k', secret))))))"

definition key_principal :: "keyCredential \<Rightarrow> principal" where
  "key_principal c =
     \<lparr>pr_Kind = KindAPIKey, pr_KeyID = kc_ID c, pr_UserID = [], pr_Email = [],
      pr_OrganizationID = kc_OrganizationID c, pr_Scopes = kc_Scopes c\<rparr>"

definition AuthenticateContext :: "tenants \<Rightarrow> string \<Rightarrow> principal option" where
  "AuthenticateContext d raw =
     (case SecretPrefix raw of
        None \<Rightarrow> None
      | Some pre \<Rightarrow>
          (case CredentialByPrefix d pre of
             Inl e \<Rightarrow> None
           | Inr c \<Rightarrow> if credential_Matches c raw then Some (key_principal c) else None))"

section \<open>Sessions\<close>

definition sessionKey :: "string \<Rightarrow> string" where
  "sessionKey token = ''session:'' @ sha256_hex token"

text \<open>
  \<open>SessionRepository.Create\<close>: the session and, when it is written, the cache entry. The clock
  is read for the creation time and again for the time to live.
\<close>

definition sesrepo_Create ::
  "account \<Rightarrow> string \<Rightarrow> role \<Rightarrow> string \<Rightarrow> time \<Rightarrow> time \<Rightarrow> time \<Rightarrow> go_err
   \<Rightarrow> session result \<times> (string \<times> session \<times> int) option"
where
  "sesrepo_Create a organizationID r token expiresAt clock clock' stored =
     (if trim_space token = [] then (Inl (Plain ''session token is required''), None)
      else
        let s = \<lparr>ses_AccountID = acc_ID a, ses_Email = acc_Email a, ses_OrganizationID = organizationID,
                 ses_Role = r, ses_CreatedAt = clock, ses_ExpiresAt = expiresAt\<rparr>;
            ttl = expiresAt - clock' in
        if ttl \<le> 0 then (Inl (Plain ''session expiry is already past''), None)
        else case stored of
          Some e \<Rightarrow> (Inl (annotate ''store session'' e), None)
        | None \<Rightarrow> (Inr s, Some (sessionKey token, s, ttl)))"

text \<open>
  \<open>ByToken\<close>. The lookup may fail, find nothing, or find bytes that decode or not; the second
  component says whether the entry is deleted.
\<close>

definition ByToken :: "tenants \<Rightarrow> session result option result \<Rightarrow> time \<Rightarrow> session result \<times> bool" where
  "ByToken d got now =
     (case got of
        Inl e \<Rightarrow> (Inl (annotate ''read session'' e), False)
      | Inr None \<Rightarrow> (Inl (Bare Session_ErrSessionNotFound), False)
      | Inr (Some (Inl e)) \<Rightarrow> (Inl (annotate ''decode session'' e), False)
      | Inr (Some (Inr s)) \<Rightarrow>
          if session_Expired s now then (Inl (Bare Session_ErrSessionExpired), True)
          else if ses_OrganizationID s = [] then
            (if userrepo_Exists d (ses_AccountID s) = Inr True then (Inr s, False)
             else (Inl (Bare Session_ErrSessionNotFound), True))
          else case LiveRole d (ses_AccountID s) (ses_OrganizationID s) of
            Inl e \<Rightarrow> (Inl (Bare Session_ErrSessionNotFound), True)
          | Inr r \<Rightarrow> (Inr (s\<lparr>ses_Role := r\<rparr>), False))"

definition session_authenticate :: "letters \<Rightarrow> bcrypt \<Rightarrow> tenants \<Rightarrow> string \<Rightarrow> string \<Rightarrow> account result" where
  "session_authenticate lt bc d email password =
     (case CredentialByEmail lt d email of
        Inl e \<Rightarrow>
          if errors_is e Session_ErrAccountNotFound then Inl (Bare Service_ErrInvalidCredentials) else Inl e
      | Inr found \<Rightarrow>
          (case account_Authenticate bc found password of
             Inl e \<Rightarrow> Inl (annotate ''verify password'' e)
           | Inr False \<Rightarrow> Inl (Bare Service_ErrInvalidCredentials)
           | Inr True \<Rightarrow> Inr found))"

definition session_issue ::
  "account \<Rightarrow> string \<Rightarrow> role \<Rightarrow> rand \<Rightarrow> int \<Rightarrow> time \<Rightarrow> time \<Rightarrow> time \<Rightarrow> go_err \<Rightarrow> (session \<times> string) result"
where
  "session_issue found organizationID r random sessionTTL now clock clock' stored =
     (case NewToken random of
        Inl e \<Rightarrow> Inl e
      | Inr token \<Rightarrow>
          (case fst (sesrepo_Create found organizationID r token (now + sessionTTL) clock clock' stored) of
             Inl e \<Rightarrow> Inl e | Inr s \<Rightarrow> Inr (s, token)))"

definition session_Login ::
  "letters \<Rightarrow> bcrypt \<Rightarrow> tenants \<Rightarrow> string \<Rightarrow> string \<Rightarrow> rand \<Rightarrow> int \<Rightarrow> time \<Rightarrow> time \<Rightarrow> time \<Rightarrow> go_err
   \<Rightarrow> (session \<times> string) result"
where
  "session_Login lt bc d email password random sessionTTL now clock clock' stored =
     (case session_authenticate lt bc d email password of
        Inl e \<Rightarrow> Inl e
      | Inr found \<Rightarrow>
          (case FirstForUser d (acc_ID found) of
             Inl e \<Rightarrow>
               if errors_is e Organization_ErrNotMember
               then session_issue found [] [] random sessionTTL now clock clock' stored else Inl e
           | Inr m \<Rightarrow>
               session_issue found (mem_OrganizationID m) (mem_Role m) random sessionTTL now clock clock' stored))"

definition StartSession ::
  "tenants \<Rightarrow> string \<Rightarrow> string \<Rightarrow> role \<Rightarrow> rand \<Rightarrow> int \<Rightarrow> time \<Rightarrow> time \<Rightarrow> time \<Rightarrow> go_err \<Rightarrow> (session \<times> string) result"
where
  "StartSession d userID organizationID r random sessionTTL now clock clock' stored =
     rbind (CredentialByID d userID)
       (\<lambda>found. session_issue found organizationID r random sessionTTL now clock clock' stored)"

definition session_Session :: "tenants \<Rightarrow> string \<Rightarrow> session result option result \<Rightarrow> time \<Rightarrow> session result" where
  "session_Session d token got now =
     (if token = [] then Inl (Bare Session_ErrSessionNotFound) else fst (ByToken d got now))"

text \<open>
  The sessions the service issues: by a sign-in in a well-formed database, and by the handlers
  that start one: registration without an organization, with no role, and in an organization.
\<close>

inductive issued_session :: "session \<Rightarrow> bool" where
  login: "session_Login lt bc d email password random sessionTTL now clock clock' stored = Inr (s, token)
      \<Longrightarrow> [] \<notin> mr_organization_id ` set (tn_members d) \<Longrightarrow> issued_session s"
| start: "StartSession d userID organizationID r random sessionTTL now clock clock' stored = Inr (s, token)
      \<Longrightarrow> (organizationID = [] \<longrightarrow> r = []) \<Longrightarrow> issued_session s"

lemma session_issue_Inr:
  "session_issue found organizationID r random sessionTTL now clock clock' stored = Inr (s, token)
   \<Longrightarrow> ses_OrganizationID s = organizationID \<and> ses_Role s = r"
  by (auto simp: session_issue_def sesrepo_Create_def Let_def split: sum.splits if_splits option.splits)

lemma FirstForUser_org:
  assumes "FirstForUser d u = Inr m"
  shows "mem_OrganizationID m \<in> mr_organization_id ` set (tn_members d)"
proof -
  from assms have "m \<in> set (order_by (\<lambda>a b. mem_CreatedAt a \<le> mem_CreatedAt b) (memberQuery d (\<lambda>m. mr_user_id m = u)))"
    by (auto simp: FirstForUser_def split: if_splits list.splits dest!: order_by_Cons_mem)
  then show ?thesis
    by (auto simp: memberQuery_def scanMember_def map_filter_def split: option.splits)
qed

lemma issued_session_role: "issued_session s \<Longrightarrow> ses_OrganizationID s = [] \<Longrightarrow> ses_Role s = []"
proof (induction rule: issued_session.induct)
  case (login lt bc d email password random sessionTTL now clock clock' stored s token)
  have "mem_OrganizationID m \<noteq> []" if "FirstForUser d i = Inr m" for m i
    using FirstForUser_org [OF that] login(2) by auto
  with login(1,3) show ?case
    by (auto simp: session_Login_def dest!: session_issue_Inr split: sum.splits if_splits)
next
  case (start d userID organizationID r random sessionTTL now clock clock' stored s token)
  then show ?case by (auto simp: StartSession_def rbind_Inr_iff dest: session_issue_Inr)
qed

section \<open>Responses\<close>

text \<open>A problem response: its status and its code.\<close>

type_synonym problem = "nat \<times> string"

definition lookup_problem :: "(sentinel \<times> problem) list \<Rightarrow> error \<Rightarrow> problem option" where
  "lookup_problem table e = map_option snd (find (\<lambda>x. errors_is e (fst x)) table)"

definition notFound :: problem where "notFound = (404, ''resource_not_found'')"

definition invalidRequest :: problem where "invalidRequest = (422, ''invalid_request'')"

definition invalidQuery :: problem where "invalidQuery = (400, ''invalid_request'')"

definition writeOrganizationError :: "error \<Rightarrow> problem option" where
  "writeOrganizationError = lookup_problem
     [(Organization_ErrNotFound, notFound),
      (Organization_ErrNotMember, 403, ''not_a_member''),
      (Organization_ErrAlreadyOwner, 409, ''already_owns_an_organization''),
      (Organization_ErrOwnerLocked, 409, ''owner_locked''),
      (Organization_ErrInviteSpent, 409, ''invite_spent''),
      (Organization_ErrInviteStale, 410, ''invite_expired''),
      (Organization_ErrInviteAddress, 403, ''invite_address_mismatch''),
      (Organization_ErrConflict, 409, ''organization_conflict''),
      (Organization_ErrInvalid, invalidRequest),
      (Session_ErrNoOrganization, 403, ''no_organization'')]"

definition writeGitHubError :: "error \<Rightarrow> problem option" where
  "writeGitHubError = lookup_problem
     [(Github_ErrNotConfigured, 503, ''github_not_configured''),
      (Github_ErrNoWebhookSecret, 503, ''github_not_configured''),
      (Github_ErrSignature, 403, ''invalid_signature''),
      (Github_ErrInvalid, invalidRequest),
      (Github_ErrNoInstallation, 409, ''github_not_installed''),
      (Github_ErrNotConnected, 409, ''app_not_connected''),
      (Github_ErrNotFound, 404, ''repository_not_found''),
      (Github_ErrForbidden, 403, ''repository_forbidden''),
      (Github_ErrSourceTooBig, 413, ''deployment_too_large'')]"

definition writeBrowserError :: "error \<Rightarrow> problem option" where
  "writeBrowserError = lookup_problem
     [(Browser_ErrNotFound, notFound),
      (Browser_ErrConflict, 409, ''browser_profile_conflict''),
      (Browser_ErrInvalid, invalidRequest)]"

definition writeBrowserSessionError :: "error \<Rightarrow> problem option" where
  "writeBrowserSessionError = lookup_problem [(Browser_ErrSessionNotFound, notFound)]"

definition writeBrowserDriverError :: "error \<Rightarrow> problem option" where
  "writeBrowserDriverError = lookup_problem [(Browser_ErrUnavailable, 502, ''browser_unreachable'')]"

definition domain_problems :: "(sentinel \<times> problem) list" where
  "domain_problems =
     [(Deployment_ErrNotFound, notFound), (Project_ErrNotFound, notFound), (App_ErrNotFound, notFound),
      (Execution_ErrNotFound, notFound), (Account_ErrNotFound, notFound),
      (Project_ErrConflict, 409, ''project_conflict''), (App_ErrConflict, 409, ''app_conflict''),
      (Execution_ErrConflict, 409, ''execution_conflict''), (Account_ErrConflict, 409, ''resource_conflict''),
      (Deployment_ErrInvalid, invalidRequest), (Deployment_ErrNotReady, invalidRequest),
      (Execution_ErrInvalid, invalidRequest), (Account_ErrInvalid, invalidRequest),
      (Context_Canceled, 408, ''request_canceled''), (Context_DeadlineExceeded, 504, ''request_timeout'')]"

definition writeError :: "error \<Rightarrow> problem" where
  "writeError e =
     (case List.map_filter (\<lambda>write. write e)
             [writeOrganizationError, writeGitHubError, writeBrowserError, writeBrowserSessionError,
              writeBrowserDriverError, lookup_problem domain_problems] of
        [] \<Rightarrow> (500, ''internal_error'') | p # ps \<Rightarrow> p)"

section \<open>Middleware and account endpoints\<close>

definition sessionPrincipal :: "session \<Rightarrow> principal" where
  "sessionPrincipal s =
     \<lparr>pr_Kind = KindSession, pr_KeyID = [], pr_UserID = ses_AccountID s, pr_Email = ses_Email s,
      pr_OrganizationID = ses_OrganizationID s, pr_Scopes = role_Scopes (ses_Role s)\<rparr>"

definition api_authenticate ::
  "letters \<Rightarrow> tenants \<Rightarrow> string \<Rightarrow> string option \<Rightarrow> session result option result \<Rightarrow> time \<Rightarrow> problem + principal"
where
  "api_authenticate lt d header cookie got now =
     (case BearerToken lt header of
        Some raw \<Rightarrow>
          (case AuthenticateContext d raw of
             None \<Rightarrow> Inl (401, ''unauthorized'') | Some p \<Rightarrow> Inr p)
      | None \<Rightarrow>
          let token = (case cookie of None \<Rightarrow> [] | Some v \<Rightarrow> trim_space v) in
          if token = [] then Inl (401, ''unauthorized'')
          else case session_Session d token got now of
            Inl e \<Rightarrow> Inl (401, ''unauthorized'') | Inr s \<Rightarrow> Inr (sessionPrincipal s))"

definition scoped :: "string \<Rightarrow> principal \<Rightarrow> tenants \<times> (problem + 'a) \<Rightarrow> tenants \<Rightarrow> tenants \<times> (problem + 'a)" where
  "scoped scope p handler d =
     (if HasScope p scope then handler else (d, Inl (403, ''permission_denied'')))"

definition answer :: "tenants \<times> 'a result \<Rightarrow> tenants \<times> (problem + 'a)" where
  "answer r = (fst r, case snd r of Inl e \<Rightarrow> Inl (writeError e) | Inr x \<Rightarrow> Inr x)"

definition api_updateUser ::
  "letters \<Rightarrow> principal \<Rightarrow> tenants \<Rightarrow> tenants \<Rightarrow> string \<Rightarrow> string option \<Rightarrow> bool option \<Rightarrow> time
   \<Rightarrow> tenants \<times> (problem + user)"
where
  "api_updateUser lt p seen d userID email disabled now =
     scoped ''users:write'' p
       (if email = None \<and> disabled = None then (d, Inl invalidRequest)
        else answer (accsvc_UpdateUser lt seen d userID email disabled now)) d"

definition api_deleteUser :: "principal \<Rightarrow> tenants \<Rightarrow> string \<Rightarrow> tenants \<times> (problem + unit)" where
  "api_deleteUser p d target =
     scoped ''users:write'' p
       (if target = pr_UserID p then (d, Inl (409, ''cannot_delete_self''))
        else case userrepo_Delete d target of
          (d', Some e) \<Rightarrow> (d', Inl (writeError e)) | (d', None) \<Rightarrow> (d', Inr ())) d"

definition api_createAPIKey ::
  "letters \<Rightarrow> principal \<Rightarrow> tenants \<Rightarrow> tenants \<Rightarrow> string result \<Rightarrow> rand \<Rightarrow> rand \<Rightarrow> time \<Rightarrow> key_request
   \<Rightarrow> tenants \<times> (problem + key \<times> string)"
where
  "api_createAPIKey lt p seen d newID prefixRaw secretRaw now body =
     scoped ''api_keys:write'' p
       (if list_ex (\<lambda>scope. \<not> HasScope p scope) (kq_Scopes body) then (d, Inl (403, ''permission_denied''))
        else answer (accsvc_CreateKey lt seen d newID prefixRaw secretRaw now (pr_OrganizationID p) body)) d"

definition api_revokeAPIKey :: "principal \<Rightarrow> tenants \<Rightarrow> string \<Rightarrow> time \<Rightarrow> tenants \<times> (problem + key)" where
  "api_revokeAPIKey p d keyID now =
     scoped ''api_keys:write'' p (answer (keyrepo_Revoke d (pr_OrganizationID p) keyID now)) d"

section \<open>Secrets and scopes\<close>

lemma hex_word_digits: "set (EncodeToString bs) \<subseteq> set hex_digits"
  unfolding EncodeToString_def by (rule hex_encode_digits) (auto intro: order_less_le_trans [OF unsigned_less])

lemma hex_digit_plain: "c \<in> set hex_digits \<Longrightarrow> c \<noteq> CHR ''.'' \<and> visible_ascii [c]"
  by (auto simp: hex_digits_def visible_ascii_def byte_val_def)

lemma cut_found: "c \<notin> set p \<Longrightarrow> cut c (p @ c # s) = (p, s, True)"
  by (induction p) auto

lemma minted_prefix:
  assumes "MintSecret pr sr = Inr (pre, secret)"
  shows "SecretPrefix secret = Some pre"
proof -
  from assms obtain p s where sec: "pre = ''neu_live_'' @ EncodeToString p" "secret = pre @ ''.'' @ EncodeToString s"
    by (auto simp: MintSecret_def split: sum.splits)
  have hex: "c \<noteq> CHR ''.'' \<and> visible_ascii [c]" if "c \<in> set (EncodeToString bs)" for c bs
    using hex_digit_plain hex_word_digits that by blast
  then have "visible_ascii secret" unfolding sec by (auto simp: visible_ascii_def list_all_iff byte_val_def)
  then have "trim_space secret = secret" by (rule visible_ascii_trim)
  moreover have "CHR ''.'' \<notin> set pre" using hex unfolding sec by auto
  ultimately show ?thesis using cut_found [of "CHR ''.''" pre] sec by (simp add: SecretPrefix_def)
qed

lemma set_normalize: "set (normalize_scopes acc ss) = set acc \<union> trim_space ` set ss"
  by (induction acc ss rule: normalize_scopes.induct) auto

lemma set_NormalizeScopes: "set (NormalizeScopes ss) = trim_space ` set ss"
  by (simp add: NormalizeScopes_def set_normalize)

lemma known_scope_trim: "s \<in> set knownScopes \<Longrightarrow> trim_space s = s"
  by (rule visible_ascii_trim) (auto simp: knownScopes_def visible_ascii_def byte_val_def)

lemma role_scope_trim: "s \<in> set (role_Scopes r) \<Longrightarrow> trim_space s = s"
  by (rule visible_ascii_trim)
     (auto simp: role_Scopes_def visible_ascii_def byte_val_def split: if_splits)

text \<open>A live key is found by its prefix.\<close>

lemma CredentialByPrefix_found:
  assumes "unique_keys d" and x: "x \<in> set (tn_keys d)" and "pg_text_ok (key_Prefix (kr_key x))"
  shows "CredentialByPrefix d (key_Prefix (kr_key x)) =
    (if key_RevokedAt (kr_key x) = None
     then Inr \<lparr>kc_ID = kr_id x, kc_OrganizationID = key_OrganizationID (kr_key x),
               kc_Scopes = key_Scopes (kr_key x), kc_Digest = kr_hash x\<rparr>
     else Inl (Bare Account_ErrNotFound))"
proof -
  let ?p = "\<lambda>y. key_Prefix (kr_key y) = key_Prefix (kr_key x) \<and> key_RevokedAt (kr_key y) = None"
  have same: "y = x" if "y \<in> set (tn_keys d)" "key_Prefix (kr_key y) = key_Prefix (kr_key x)" for y
    using same_key [of "\<lambda>x. key_Prefix (kr_key x)" "tn_keys d" y x] assms(1) x that by (simp add: unique_keys_def)
  have "find ?p (tn_keys d) = (if key_RevokedAt (kr_key x) = None then Some x else None)"
  proof (cases "find ?p (tn_keys d)")
    case None
    then show ?thesis using x by (auto simp: find_None_iff)
  next
    case (Some y)
    then show ?thesis using same [of y] by (auto dest!: find_Some_mem)
  qed
  then show ?thesis using assms(3) by (simp add: CredentialByPrefix_def)
qed

lemma AuthenticateContext_row:
  assumes "tenants_ok d" and "x \<in> set (tn_keys d)" and "pg_text_ok (key_Prefix (kr_key x))"
    and "SecretPrefix raw = Some (key_Prefix (kr_key x))"
  shows "AuthenticateContext d raw =
    (if key_RevokedAt (kr_key x) = None \<and> kr_hash x = Sum256 raw
     then Some \<lparr>pr_Kind = KindAPIKey, pr_KeyID = kr_id x, pr_UserID = [], pr_Email = [],
                pr_OrganizationID = key_OrganizationID (kr_key x), pr_Scopes = key_Scopes (kr_key x)\<rparr>
     else None)"
proof -
  have "length (kr_hash x) = 32" using assms(1,2) unfolding tenants_ok_def references_def by blast
  then show ?thesis
    using CredentialByPrefix_found [of d x] assms
    by (auto simp: AuthenticateContext_def credential_Matches_def key_principal_def tenants_ok_def)
qed

lemma keyrepo_Create_None:
  assumes "keyrepo_Create d k digest = (d', None)"
  shows "d' = d\<lparr>tn_keys := tn_keys d @
           [\<lparr>kr_key = k\<lparr>key_CreatedAt := pg_time (key_CreatedAt k), key_RevokedAt := None\<rparr>, kr_hash = digest\<rparr>]\<rparr>"
    and "pg_text_ok (key_Prefix k)"
    and "texts [key_ID k, key_OrganizationID k]"
  using assms by (auto simp: keyrepo_Create_def refused_None split: option.splits)

lemma accsvc_CreateKey_Inr:
  assumes "accsvc_CreateKey lt seen d newID pr sr now org request = (d', Inr (k, secret))"
  shows "keyrepo_Create d k (HashSecret secret) = (d', None)"
    and "MintSecret pr sr = Inr (key_Prefix k, secret)"
    and "key_Validate lt k = None"
    and "key_Scopes k = NormalizeScopes (kq_Scopes request)"
    and "key_OrganizationID k = trim_space org"
  using assms
  by (auto simp: accsvc_CreateKey_def rbind_Inr_iff NewKey_def key_Validate_def
      split: sum.splits bool.splits option.splits prod.splits if_splits)

lemma key_scopes_known:
  "tenants_ok d \<Longrightarrow> AuthenticateContext d raw = Some p \<Longrightarrow> s \<in> set (pr_Scopes p) \<Longrightarrow> s \<in> set knownScopes"
proof -
  assume ok: "tenants_ok d" and "AuthenticateContext d raw = Some p" and s: "s \<in> set (pr_Scopes p)"
  then obtain x where "x \<in> set (tn_keys d)" "pr_Scopes p = key_Scopes (kr_key x)"
    by (auto simp: AuthenticateContext_def CredentialByPrefix_def key_principal_def
        split: option.splits sum.splits if_splits dest!: find_Some_mem)
  then show ?thesis using ok s unfolding tenants_ok_def references_def by auto
qed

lemma api_scopes_trimmed:
  assumes "tenants_ok d" and "api_authenticate lt d header cookie got now = Inr p" and "s \<in> set (pr_Scopes p)"
  shows "trim_space s = s"
proof (cases "BearerToken lt header")
  case None
  then obtain r where "pr_Scopes p = role_Scopes r"
    using assms(2) by (auto simp: api_authenticate_def sessionPrincipal_def split: if_splits sum.splits)
  then show ?thesis using role_scope_trim assms(3) by simp
next
  case (Some raw)
  then have "AuthenticateContext d raw = Some p"
    using assms(2) by (simp add: api_authenticate_def split: option.splits)
  then show ?thesis using key_scopes_known assms(1,3) known_scope_trim by blast
qed

text \<open>
  A run that ends where \<open>P\<close> fails and starts where it holds has a step at which it is lost.
\<close>

lemma run_loses:
  assumes "tenant_run lt h0 H" and "h0 \<noteq> []" and "P (hd h0)" and "\<not> P (hd H)"
  shows "\<exists>hs a b hs' seen. H = hs @ b # a # hs' \<and> tenant_run lt h0 (b # a # hs')
      \<and> tenant_run lt h0 (a # hs') \<and> tenant_step lt seen a b \<and> P a \<and> \<not> P b"
  using assms
proof (induction rule: tenant_run.induct)
  case (step d h seen d')
  show ?case
  proof (cases "P d")
    case True
    then show ?thesis using step tenant_run.step [OF step.hyps]
      by (intro exI [of _ "[]"] exI [of _ d] exI [of _ d'] exI [of _ h] exI [of _ seen]) auto
  next
    case False
    then obtain hs a b hs' seen' where "d # h = hs @ b # a # hs'" "tenant_run lt h0 (b # a # hs')"
      "tenant_run lt h0 (a # hs')" "tenant_step lt seen' a b" "P a" "\<not> P b"
      using step by (elim meta_impE impE exE conjE) auto
    then show ?thesis
      by (intro exI [of _ "d' # hs"] exI [of _ a] exI [of _ b] exI [of _ hs'] exI [of _ seen']) auto
  qed
qed simp

text \<open>Of all the operations only \<open>Revoke\<close> of a key, in its organization, revokes it.\<close>

definition key_state :: "key_row \<Rightarrow> string \<times> time option" where
  "key_state x = (kr_id x, key_RevokedAt (kr_key x))"

lemma other_ops_keys:
  "tn_keys (fst (orgrepo_Create seen d r)) = tn_keys d"
  "tn_keys (fst (orgrepo_Rename d r)) = tn_keys d"
  "tn_keys (fst (orgrepo_SetMemberRole seen d org u rl now)) = tn_keys d"
  "tn_keys (fst (orgrepo_RemoveMember seen d org u)) = tn_keys d"
  "tn_keys (fst (CreateInvite lt d v digest)) = tn_keys d"
  "tn_keys (fst (Redeem d v u now)) = tn_keys d"
  "tn_keys (fst (orgrepo_RevokeInvite d org i now)) = tn_keys d"
  "tn_keys (fst (userrepo_Create lt d w hash)) = tn_keys d"
  "tn_keys (fst (userrepo_Update lt d w)) = tn_keys d"
  unfolding orgrepo_Create_def orgrepo_Rename_def orgrepo_SetMemberRole_def orgrepo_RemoveMember_def
    CreateInvite_def Redeem_def orgrepo_RevokeInvite_def userrepo_Create_def userrepo_Update_def
  by (simp_all split: op_splits)

lemma key_ops_state:
  "key_state ` set (tn_keys d) \<subseteq> key_state ` set (tn_keys (fst (userrepo_Delete d i)))"
  "key_state ` set (tn_keys d) \<subseteq> key_state ` set (tn_keys (fst (keyrepo_Create d k digest)))"
  unfolding userrepo_Delete_def keyrepo_Create_def
  by (auto simp: key_state_def image_iff split: op_splits)

lemma Revoke_other:
  assumes "y \<in> set (tn_keys d)" and "\<not> (kr_id y = i \<and> key_OrganizationID (kr_key y) = org)"
  shows "y \<in> set (tn_keys (fst (keyrepo_Revoke d org i now)))"
  using assms unfolding keyrepo_Revoke_def by (force simp: Let_def image_iff split: op_splits)

lemma revoked_by_Revoke:
  assumes step: "tenant_step lt seen a b" and "unique_keys b"
    and y: "y \<in> set (tn_keys a)" "key_RevokedAt (kr_key y) = None"
    and y': "y' \<in> set (tn_keys b)" "kr_id y' = kr_id y" "key_RevokedAt (kr_key y') \<noteq> None"
  shows "\<exists>at. b = fst (keyrepo_Revoke a (key_OrganizationID (kr_key y)) (kr_id y) at)"
proof (rule ccontr)
  assume other: "\<not> ?thesis"
  have "key_state y \<in> key_state ` set (tn_keys b)"
  proof (rule tenant_stepE [OF step])
    fix org i now
    assume b: "b = fst (keyrepo_Revoke a org i now)"
    with other have "\<not> (kr_id y = i \<and> key_OrganizationID (kr_key y) = org)" by blast
    with Revoke_other [OF y(1), of i org now] show ?thesis unfolding b by blast
  qed (use y(1) subsetD [OF key_ops_state(1)] subsetD [OF key_ops_state(2)] in \<open>simp_all add: other_ops_keys\<close>)
  then obtain z where z: "z \<in> set (tn_keys b)" "key_state z = key_state y" by fastforce
  then have "z = y'" using same_key [of kr_id "tn_keys b" z y'] assms(2) y'(1,2)
    by (simp add: key_state_def unique_keys_def)
  with z(2) y(2) y'(3) show False by (simp add: key_state_def)
qed

text \<open>Where a key's row has got to, and what its secret is worth there.\<close>

definition key_caller :: "key \<Rightarrow> principal" where
  "key_caller k = \<lparr>pr_Kind = KindAPIKey, pr_KeyID = key_ID k, pr_UserID = [], pr_Email = [],
     pr_OrganizationID = key_OrganizationID k, pr_Scopes = key_Scopes k\<rparr>"

definition key_row :: "key \<Rightarrow> string \<Rightarrow> key_row" where
  "key_row k secret = \<lparr>kr_key = k\<lparr>key_CreatedAt := pg_time (key_CreatedAt k), key_RevokedAt := None\<rparr>,
     kr_hash = HashSecret secret\<rparr>"

lemma key_row_auth:
  assumes "tenants_ok d" and "y \<in> set (tn_keys d)" and "key_follows (key_row k secret) y"
    and "SecretPrefix secret = Some (key_Prefix k)" and "pg_text_ok (key_Prefix k)"
  shows "AuthenticateContext d secret
    = (if key_RevokedAt (kr_key y) \<noteq> None then None else Some (key_caller k))"
  using AuthenticateContext_row [OF assms(1,2)] assms(3-5)
  by (simp add: key_follows_def HashSecret_def key_row_def key_caller_def)

lemma key_row_at:
  assumes "tenant_run lt [d0] (d1 # h)" and "tenants_ok d0" and "y1 \<in> set (tn_keys d1)"
    and "tenant_run lt (d1 # h) (d2 # h2)"
  obtains y where "tenants_ok d2" "y \<in> set (tn_keys d2)" "key_follows y1 y"
proof -
  have "tenants_ok d2" "\<forall>s \<in> set (d2 # h2). tenants_follow s d2"
    using tenant_run_ok [OF tenant_run_trans [OF assms(4,1)] assms(2)] by auto
  moreover from this have "tenants_follow d1 d2" using tenant_run_start [OF assms(4)] by blast
  ultimately show thesis using that assms(3) unfolding tenants_follow_def kept_def by blast
qed

lemma Revoke_takes_effect:
  assumes "y \<in> set (tn_keys d)" and "texts [kr_id y, key_OrganizationID (kr_key y)]"
  obtains d' k' y' where "keyrepo_Revoke d (key_OrganizationID (kr_key y)) (kr_id y) at = (d', Inr k')"
    and "y' \<in> set (tn_keys d')" and "kr_id y' = kr_id y" and "key_RevokedAt (kr_key y') \<noteq> None"
proof -
  let ?hit = "\<lambda>x. kr_id x = kr_id y \<and> key_OrganizationID (kr_key x) = key_OrganizationID (kr_key y)"
  have "find ?hit (tn_keys d) \<noteq> None" using assms(1) by (auto simp: find_None_iff)
  then show thesis using assms(1,2)
    by (intro that [of "fst (keyrepo_Revoke d (key_OrganizationID (kr_key y)) (kr_id y) at)"
          "projr (snd (keyrepo_Revoke d (key_OrganizationID (kr_key y)) (kr_id y) at))"
          "y\<lparr>kr_key := (kr_key y)\<lparr>key_RevokedAt :=
              (case key_RevokedAt (kr_key y) of None \<Rightarrow> Some (pg_time at) | Some t \<Rightarrow> Some t)\<rparr>\<rparr>"])
       (force simp: keyrepo_Revoke_def Let_def image_iff split: option.split)+
qed

section \<open>Properties\<close>

text \<open>
  C16: a key works from its creation to its revocation, and never after. The secret
  \<open>CreateKey\<close> returns authenticates at once, as the organization and with the scopes of the
  key. At any later point of the history, whatever happened to the user it was issued to or to
  anything else, it authenticates as the same principal exactly as long as the row of the key
  is not marked as revoked. It is marked only by a \<open>Revoke\<close> of that key in its organization,
  such a \<open>Revoke\<close> succeeds at any point and ends the secret at once, and a secret that does not
  authenticate at one point of the history authenticates at none that follows it.
\<close>

theorem key_works_until_revoked:
  assumes "tenant_run lt [d0] (d # h)" and "tenants_ok d0"
    and made: "accsvc_CreateKey lt seen d newID pr sr now org request = (d1, Inr (k, secret))"
    and later: "tenant_run lt (d1 # d # h) (d2 # h2)"
  shows "AuthenticateContext d1 secret = Some (key_caller k)
    \<and> (\<exists>x \<in> set (tn_keys d2). kr_id x = key_ID k
        \<and> AuthenticateContext d2 secret
            = (if key_RevokedAt (kr_key x) \<noteq> None then None else Some (key_caller k)))
    \<and> (AuthenticateContext d2 secret = None \<longrightarrow>
        (\<exists>hs a hs' at. AuthenticateContext a secret \<noteq> None
           \<and> d2 # h2 = hs @ fst (keyrepo_Revoke a (key_OrganizationID k) (key_ID k) at) # a # hs'))
    \<and> (\<forall>at. \<exists>d' k'. keyrepo_Revoke d2 (key_OrganizationID k) (key_ID k) at = (d', Inr k')
         \<and> AuthenticateContext d' secret = None)
    \<and> (\<forall>d3 h3. AuthenticateContext d2 secret = None \<longrightarrow> tenant_run lt (d2 # h2) (d3 # h3)
         \<longrightarrow> AuthenticateContext d3 secret = None)"
proof (intro conjI allI impI)
  note new = accsvc_CreateKey_Inr [OF made]
  note row = keyrepo_Create_None [OF new(1)]
  have "tenant_step lt d d d1" using tenant_step.create_key [OF new(3), of d d] new(1) by (metis fst_conv)
  then have run1: "tenant_run lt [d0] (d1 # d # h)" using tenant_run.step [OF assms(1), of d] by simp
  have x: "key_row k secret \<in> set (tn_keys d1)" by (simp add: row(1) key_row_def)
  note auth = key_row_auth [OF _ _ _ minted_prefix [OF new(2)] row(2)]
  have "tenants_ok d1" using tenant_run_ok [OF run1 assms(2)] by simp
  from auth [OF this x] show start: "AuthenticateContext d1 secret = Some (key_caller k)"
    by (simp add: key_row_def)
  obtain y where y: "tenants_ok d2" "y \<in> set (tn_keys d2)" "key_follows (key_row k secret) y"
    using key_row_at [OF run1 assms(2) x later] by blast
  then show "\<exists>x \<in> set (tn_keys d2). kr_id x = key_ID k
        \<and> AuthenticateContext d2 secret
            = (if key_RevokedAt (kr_key x) \<noteq> None then None else Some (key_caller k))"
    using auth [OF y] by (auto simp: key_follows_def key_row_def)
  have ids: "kr_id y = key_ID k" "key_OrganizationID (kr_key y) = key_OrganizationID k"
    using y(3) by (simp_all add: key_follows_def key_row_def)
  {
    assume "AuthenticateContext d2 secret = None"
    then obtain hs a b hs' seen' where lost: "d2 # h2 = hs @ b # a # hs'" "tenant_run lt (d1 # d # h) (b # a # hs')"
        "tenant_run lt (d1 # d # h) (a # hs')" "tenant_step lt seen' a b"
        "AuthenticateContext a secret \<noteq> None" "AuthenticateContext b secret = None"
      using run_loses [OF later, of "\<lambda>x. AuthenticateContext x secret \<noteq> None"] start by auto
    obtain ya where ya: "tenants_ok a" "ya \<in> set (tn_keys a)" "key_follows (key_row k secret) ya"
      using key_row_at [OF run1 assms(2) x lost(3)] by blast
    obtain yb where yb: "tenants_ok b" "yb \<in> set (tn_keys b)" "key_follows (key_row k secret) yb"
      using key_row_at [OF run1 assms(2) x lost(2)] by blast
    have "\<exists>at. b = fst (keyrepo_Revoke a (key_OrganizationID (kr_key ya)) (kr_id ya) at)"
      by (rule revoked_by_Revoke [OF lost(4) _ ya(2) _ yb(2)])
         (use yb ya lost(5,6) auth [OF ya] auth [OF yb] in
           \<open>auto simp: tenants_ok_def key_follows_def split: if_splits\<close>)
    then show "\<exists>hs a hs' at. AuthenticateContext a secret \<noteq> None
           \<and> d2 # h2 = hs @ fst (keyrepo_Revoke a (key_OrganizationID k) (key_ID k) at) # a # hs'"
      using lost(1,5) ya(3) by (auto simp: key_follows_def key_row_def)
  next
    fix at
    have "texts [kr_id y, key_OrganizationID (kr_key y)]" using row(3) ids by simp
    then obtain d' k' y' where went: "keyrepo_Revoke d2 (key_OrganizationID k) (key_ID k) at = (d', Inr k')"
        "y' \<in> set (tn_keys d')" "kr_id y' = kr_id y" "key_RevokedAt (kr_key y') \<noteq> None"
      using Revoke_takes_effect [OF y(2), of at] y(1) ids unfolding tenants_ok_def by metis
    have "tenant_step lt d2 d2 d'"
      using tenant_step.revoke_key [of lt d2 d2 "key_OrganizationID k" "key_ID k" at] went(1) by simp
    then have "tenant_run lt (d1 # d # h) (d' # d2 # h2)" using tenant_run.step [OF later, of d2] by simp
    then obtain z where z: "tenants_ok d'" "z \<in> set (tn_keys d')" "key_follows (key_row k secret) z"
      using key_row_at [OF run1 assms(2) x] by blast
    then have "z = y'" using same_key [of kr_id "tn_keys d'" z y'] went(2,3) ids
      by (simp add: tenants_ok_def unique_keys_def key_follows_def key_row_def)
    then show "\<exists>d' k'. keyrepo_Revoke d2 (key_OrganizationID k) (key_ID k) at = (d', Inr k')
         \<and> AuthenticateContext d' secret = None"
      using went(1,4) auth [OF z] by auto
  next
    fix d3 h3
    assume gone: "AuthenticateContext d2 secret = None" and run3: "tenant_run lt (d2 # h2) (d3 # h3)"
    have "key_RevokedAt (kr_key y) \<noteq> None" using gone auth [OF y] by (auto split: if_splits)
    moreover obtain z where z: "tenants_ok d3" "z \<in> set (tn_keys d3)" "key_follows y z"
      using key_row_at [OF tenant_run_trans [OF later run1] assms(2) y(2) run3] by blast
    ultimately show "AuthenticateContext d3 secret = None"
      using auth [OF z(1,2) key_follows_trans [OF y(3) z(3)]] by (auto simp: key_follows_def)
  }
qed

text \<open>
  C15: a key cannot be minted beyond its minter. For a caller the middleware authenticated, by
  key or by session and whatever the session store returned, every scope of a key that
  \<open>createAPIKey\<close> issues is one the caller holds, and the key acts in the caller's organization.
\<close>

theorem key_scopes_not_escalated:
  assumes "tenants_ok d" and auth: "api_authenticate lt d header cookie got now = Inr p"
    and "api_createAPIKey lt p seen d' newID pr sr now' body = (d2, Inr (k, secret))"
  shows "(\<forall>s \<in> set (key_Scopes k). HasScope p s) \<and> key_OrganizationID k = trim_space (pr_OrganizationID p)"
proof -
  from assms(3) have held: "\<forall>s \<in> set (kq_Scopes body). HasScope p s"
    and made: "accsvc_CreateKey lt seen d' newID pr sr now' (pr_OrganizationID p) body = (d2, Inr (k, secret))"
    by (auto simp: api_createAPIKey_def scoped_def answer_def list_ex_iff split: if_splits sum.splits
        intro!: prod_eqI)
  have trimmed: "trim_space s = s" if "s \<in> set (pr_Scopes p)" for s
    using api_scopes_trimmed [OF assms(1) auth that] .
  have "HasScope p (trim_space s)" if "s \<in> set (kq_Scopes body)" for s
    using held that trimmed by (fastforce simp: HasScope_def list_ex_iff)
  then show ?thesis using accsvc_CreateKey_Inr(4,5) [OF made] by (auto simp: set_NormalizeScopes)
qed


text \<open>
  Sign-in does not tell accounts apart. For an address the database can be asked about,
  and stored hashes that bcrypt can read, \<open>authenticate\<close> answers the one error of bad
  credentials exactly when there is no enabled user with that address whose hash matches: an
  unknown address, a disabled account and a wrong password all give the same answer.
\<close>

lemma login_failures_alike:
  assumes "tenants_ok d" and "pg_text_ok (NormalizeEmail lt email)"
    and "\<forall>x \<in> set (tn_users d). \<forall>msg. bc_compare bc (ur_password_hash x) password \<noteq> BcOther msg"
  shows "(\<exists>x \<in> set (tn_users d). usr_Email (ur_user x) = NormalizeEmail lt email
            \<and> \<not> usr_Disabled (ur_user x) \<and> bc_compare bc (ur_password_hash x) password = BcMatch
            \<and> session_authenticate lt bc d email password = Inr (scan_account x))
    \<or> (\<not> (\<exists>x \<in> set (tn_users d). usr_Email (ur_user x) = NormalizeEmail lt email
            \<and> \<not> usr_Disabled (ur_user x) \<and> bc_compare bc (ur_password_hash x) password = BcMatch)
       \<and> session_authenticate lt bc d email password = Inl (Bare Service_ErrInvalidCredentials))"
proof (cases "find (\<lambda>x. usr_Email (ur_user x) = NormalizeEmail lt email) (tn_users d)")
  case None
  then have "session_authenticate lt bc d email password = Inl (Bare Service_ErrInvalidCredentials)"
    using assms(2) by (simp add: session_authenticate_def CredentialByEmail_def)
  with None show ?thesis by (auto simp: find_None_iff)
next
  case (Some x)
  then have x: "x \<in> set (tn_users d)" "usr_Email (ur_user x) = NormalizeEmail lt email"
    by (auto dest: find_Some_mem)
  have only: "y = x" if "y \<in> set (tn_users d)" "usr_Email (ur_user y) = NormalizeEmail lt email" for y
    using same_key [of "\<lambda>x. usr_Email (ur_user x)" "tn_users d" y x] assms(1) x that
    by (simp add: tenants_ok_def unique_keys_def)
  have auth: "session_authenticate lt bc d email password =
      (if \<not> usr_Disabled (ur_user x) \<and> bc_compare bc (ur_password_hash x) password = BcMatch
       then Inr (scan_account x) else Inl (Bare Service_ErrInvalidCredentials))"
    using Some assms(2) bspec [OF assms(3) x(1)]
    by (simp add: session_authenticate_def CredentialByEmail_def account_Authenticate_def
        VerifyPassword_def scan_account_def split: verdict.split)
  show ?thesis
  proof (cases "\<not> usr_Disabled (ur_user x) \<and> bc_compare bc (ur_password_hash x) password = BcMatch")
    case True
    with auth x show ?thesis by (intro disjI1 bexI [of _ x]) simp_all
  next
    case False
    then have "\<not> (\<exists>y \<in> set (tn_users d). usr_Email (ur_user y) = NormalizeEmail lt email
            \<and> \<not> usr_Disabled (ur_user y) \<and> bc_compare bc (ur_password_hash y) password = BcMatch)"
      using only by blast
    with False auth show ?thesis by (intro disjI2 conjI) presburger+
  qed
qed

text \<open>
  C33: the user endpoints do not stop at the caller's organization. A caller with the scope to
  administer users of its own organization disables a user who is no member of it, and from
  then on no session of that user resolves in any organization, although a request is meant
  never to reach across organizations.
\<close>

theorem users_endpoint_crosses_tenants:
  assumes ok: "tenants_ok d" and "HasScope p ''users:write''" and x: "x \<in> set (tn_users d)"
    and "(pr_OrganizationID p, ur_id x) \<notin> mr_key ` set (tn_members d)"
    and "ValidEmail (usr_Email (ur_user x))" and "email_check lt (usr_Email (ur_user x))"
    and "pg_text_ok (usr_Email (ur_user x))"
  shows "\<exists>d' u. api_updateUser lt p d d (ur_id x) None (Some True) now = (d', Inr u)
      \<and> (\<forall>org. \<exists>e. LiveRole d' (ur_id x) org = Inl e)"
proof -
  let ?g = "\<lambda>y. y\<lparr>ur_user := (ur_user y)\<lparr>usr_Email := usr_Email (ur_user x), usr_Disabled := True,
                                           usr_UpdatedAt := pg_time now\<rparr>\<rparr>"
  let ?d = "d\<lparr>tn_users := map (\<lambda>y. if ur_id y = ur_id x then ?g y else y) (tn_users d)\<rparr>"
  have uniq: "unique_keys d" and "pg_text_ok (ur_id x)"
    using ok x texts_mem by (auto simp: tenants_ok_def references_def)
  have found: "find_user d (ur_id x) = Some x"
    using find_by_key [of ur_id "tn_users d" x] uniq x by (simp add: find_user_def unique_keys_def)
  have "y = x" if "y \<in> set (tn_users d)" "usr_Email (ur_user y) = usr_Email (ur_user x)" for y
    using same_key [of "\<lambda>x. usr_Email (ur_user x)" "tn_users d" y x] uniq x that by (simp add: unique_keys_def)
  then have free: "\<not> list_ex (\<lambda>y. ur_id y \<noteq> ur_id x \<and> usr_Email (ur_user y) = usr_Email (ur_user x)) (tn_users d)"
    by (auto simp: list_ex_iff)
  have "api_updateUser lt p d d (ur_id x) None (Some True) now
      = (?d, Inr ((ur_user x)\<lparr>usr_Disabled := True, usr_UpdatedAt := now\<rparr>))"
    using found free assms(2,5-7) \<open>pg_text_ok (ur_id x)\<close> x
    by (simp add: api_updateUser_def scoped_def answer_def accsvc_UpdateUser_def userrepo_GetByID_def
        user_Apply_def user_Validate_def userrepo_Update_def refused_def)
  moreover have "\<exists>e. LiveRole ?d (ur_id x) org = Inl e" for org
  proof -
    have "\<forall>y \<in> set (tn_users ?d). ur_id y = ur_id x \<longrightarrow> usr_Disabled (ur_user y)" by simp
    then have "usr_Disabled (ur_user y)" if "find_user ?d (ur_id x) = Some y" for y
      using find_Some_mem [OF that [unfolded find_user_def]] by blast
    then show ?thesis by (auto simp: LiveRole_def split: option.split)
  qed
  ultimately show ?thesis by blast
qed

section \<open>Witnesses\<close>

lemma length_Sum256: "length (Sum256 s) = 32"
proof -
  obtain st where "Sum256 s = sha_digest st" by (auto simp: Sum256_def)
  then show ?thesis by (cases st rule: sha_digest.cases) (simp add: sha_bytes_def)
qed

definition sample_key_request :: key_request where
  "sample_key_request = \<lparr>kq_UserID = [], kq_Name = ''ci'', kq_Scopes = [''apps:read'']\<rparr>"

definition sample_session :: session where
  "sample_session = \<lparr>ses_AccountID = ''u1'', ses_Email = ''ada@x.io'', ses_OrganizationID = ''o1'',
     ses_Role = RoleViewer, ses_CreatedAt = 0, ses_ExpiresAt = 100\<rparr>"

definition sample_principal :: principal where
  "sample_principal = \<lparr>pr_Kind = KindSession, pr_KeyID = [], pr_UserID = ''u1'', pr_Email = ''ada@x.io'',
     pr_OrganizationID = ''o1'', pr_Scopes = [''*'']\<rparr>"

lemma sample_address:
  "ValidEmail ''ada@x.io''" "email_check sample_letters ''ada@x.io''" "pg_text_ok ''ada@x.io''"
proof -
  have ascii: "is_ascii ''ada@x.io''" by (simp add: is_ascii_def byte_val_def)
  show "ValidEmail ''ada@x.io''"
    using ascii by (simp add: ValidEmail_def is_ascii_valid_utf8 is_ascii_runes byte_val_def has_prefix_def
        has_suffix_def is_space_def is_control_def)
  show "email_check sample_letters ''ada@x.io''"
    using ascii by (simp add: email_check_def sample_letters_def btrim_def is_ascii_runes)
  show "pg_text_ok ''ada@x.io''"
    using ascii by (simp add: pg_text_ok_def is_ascii_valid_utf8)
qed

lemma sample_api_key:
  "NewKey sample_letters ''key_1'' ''o1'' [] ''ci'' [''apps:read''] 0 =
     Inr \<lparr>key_ID = ''key_1'', key_OrganizationID = ''o1'', key_UserID = [], key_Name = ''ci'', key_Prefix = [],
          key_Scopes = [''apps:read''], key_CreatedAt = 0, key_RevokedAt = None\<rparr>"
  by (simp add: NewKey_def NormalizeScopes_def visible_ascii_trim byte_val_def key_Validate_def knownScopes_def)

lemma sample_key_texts:
  "texts [''key_1'', ''o1'', [], ''ci'', ''neu_live_'', ''apps:read'']" "name_check 128 ''ci''"
  by code_simp+

lemma sample_minted:
  "\<exists>d' k secret. accsvc_CreateKey sample_letters sample_tenants sample_tenants (Inr ''key_1'') (Inr []) (Inr []) 0
       ''o1'' sample_key_request = (d', Inr (k, secret)) \<and> key_Scopes k = [''apps:read'']"
  using sample_key_texts
  by (simp add: accsvc_CreateKey_def sample_key_request_def sample_api_key MintSecret_def EncodeToString_def
      hex_encode_def keyrepo_Create_def refused_def HashSecret_def length_Sum256 sample_tenants_def)

lemma sample_authenticated:
  "api_authenticate sample_letters sample_tenants [] (Some ''t'') (Inr (Some (Inr sample_session))) 1 = Inr sample_principal"
  by (simp add: api_authenticate_def BearerToken_def session_Session_def visible_ascii_trim byte_val_def
      ByToken_def sample_session_def session_Expired_def LiveRole_def find_user_def sample_tenants_def
      sessionPrincipal_def sample_principal_def role_Scopes_def)

theorem key_works_until_revoked_witness:
  "\<exists>d' k secret d2 k2. accsvc_CreateKey sample_letters sample_tenants sample_tenants (Inr ''key_1'') (Inr []) (Inr []) 0
       ''o1'' sample_key_request = (d', Inr (k, secret))
     \<and> map_option pr_Scopes (AuthenticateContext d' secret) = Some [''apps:read'']
     \<and> keyrepo_Revoke d' (key_OrganizationID k) (key_ID k) 5 = (d2, Inr k2)
     \<and> AuthenticateContext d2 secret = None"
proof -
  obtain d' k secret where made: "accsvc_CreateKey sample_letters sample_tenants sample_tenants (Inr ''key_1'')
      (Inr []) (Inr []) 0 ''o1'' sample_key_request = (d', Inr (k, secret))" "key_Scopes k = [''apps:read'']"
    using sample_minted by blast
  show ?thesis
    using key_works_until_revoked [OF tenant_run.start sample_tenants_ok made(1) tenant_run.start] made
    by (fastforce simp: key_caller_def)
qed

theorem key_scopes_not_escalated_witness:
  "\<exists>d' k secret. api_createAPIKey sample_letters sample_principal sample_tenants sample_tenants (Inr ''key_1'')
       (Inr []) (Inr []) 0 sample_key_request = (d', Inr (k, secret))
     \<and> (\<forall>s \<in> set (key_Scopes k). HasScope sample_principal s)"
proof -
  obtain d' k secret where made: "accsvc_CreateKey sample_letters sample_tenants sample_tenants (Inr ''key_1'')
      (Inr []) (Inr []) 0 ''o1'' sample_key_request = (d', Inr (k, secret))"
    using sample_minted by blast
  then have "api_createAPIKey sample_letters sample_principal sample_tenants sample_tenants (Inr ''key_1'')
       (Inr []) (Inr []) 0 sample_key_request = (d', Inr (k, secret))"
    by (simp add: api_createAPIKey_def scoped_def answer_def HasScope_def sample_principal_def ScopeAll_def
        sample_key_request_def)
  then show ?thesis
    using key_scopes_not_escalated [OF sample_tenants_ok sample_authenticated] by blast
qed


theorem users_endpoint_crosses_tenants_witness:
  "\<exists>d' u. api_updateUser sample_letters
       \<lparr>pr_Kind = KindAPIKey, pr_KeyID = ''k'', pr_UserID = [], pr_Email = [], pr_OrganizationID = ''o2'',
        pr_Scopes = [''users:write'']\<rparr> sample_tenants sample_tenants ''u1'' None (Some True) 0 = (d', Inr u)
     \<and> (\<exists>e. LiveRole d' ''u1'' ''o1'' = Inl e)"
proof -
  show ?thesis
    using sample_address users_endpoint_crosses_tenants [OF sample_tenants_ok, of "\<lparr>pr_Kind = KindAPIKey, pr_KeyID = ''k'',
        pr_UserID = [], pr_Email = [], pr_OrganizationID = ''o2'', pr_Scopes = [''users:write'']\<rparr>"
        "hd (tn_users sample_tenants)" sample_letters 0]
    by (auto simp: HasScope_def sample_tenants_def)
qed

end
