(* ===== verification/Tokens.thy ===== *)
theory Tokens
  imports Redis Isolation Access
begin

text \<open>
  Execution tokens (internal/service/executiontoken.go): the credential a running handler calls
  back with, kept in the cache under its digest, and what it identifies.
\<close>

section \<open>The service\<close>

record exec_identity =
  eid_OrganizationID :: string
  eid_AppID :: string
  eid_ExecutionID :: string

definition NewExecutionTokenService :: "int \<Rightarrow> int" where
  "NewExecutionTokenService ttl = (if ttl \<le> 0 then 3600 * second else ttl)"

definition executionTokenKey :: "string \<Rightarrow> string" where
  "executionTokenKey token = ''execution-token:'' @ sha256_hex token"

definition identity_doc :: "exec_identity \<Rightarrow> doc" where
  "identity_doc i =
     DFields [(''organization_id'', doc_text (eid_OrganizationID i)), (''app_id'', doc_text (eid_AppID i)),
              (''execution_id'', doc_text (eid_ExecutionID i))]"

definition read_identity :: "doc \<Rightarrow> exec_identity result" where
  "read_identity v =
     (case v of
        DFields fs \<Rightarrow>
          rbind (read_text fs ''organization_id'') (\<lambda>organizationID.
            rbind (read_text fs ''app_id'') (\<lambda>appID.
              rbind (read_text fs ''execution_id'') (\<lambda>executionID.
                Inr \<lparr>eid_OrganizationID = organizationID, eid_AppID = appID, eid_ExecutionID = executionID\<rparr>)))
      | v \<Rightarrow> Inl (Plain ''json: cannot unmarshal into an execution identity''))"

definition tok_Mint ::
  "('s, doc) redis \<Rightarrow> string \<Rightarrow> int \<Rightarrow> pdb \<Rightarrow> rand \<Rightarrow> 's \<Rightarrow> time \<Rightarrow> string \<Rightarrow> string \<Rightarrow> 's \<times> string result"
where
  "tok_Mint rd pre ttl d raw s t executionID appID =
     (case OrganizationOf d appID of
        Inl e \<Rightarrow> (s, Inl (annotate ''resolve execution organization'' e))
      | Inr organizationID \<Rightarrow>
          (case raw of
             Inl e \<Rightarrow> (s, Inl e)
           | Inr bytes \<Rightarrow>
               (let token = EncodeToString bytes in
                case rc_Set rd pre s t (executionTokenKey token)
                       (identity_doc \<lparr>eid_OrganizationID = organizationID, eid_AppID = appID, eid_ExecutionID = executionID\<rparr>)
                       ttl of
                  (s', Some e) \<Rightarrow> (s', Inl e) | (s', None) \<Rightarrow> (s', Inr token))))"

definition tok_Resolve :: "('s, doc) redis \<Rightarrow> string \<Rightarrow> 's \<Rightarrow> time \<Rightarrow> string \<Rightarrow> exec_identity result" where
  "tok_Resolve rd pre s t token0 =
     (let token = trim_space token0 in
      if token = [] then Inl (Bare Service_ErrUnknownExecutionToken)
      else case rc_Get rd pre s t (executionTokenKey token) of
        Inl e \<Rightarrow> Inl e
      | Inr None \<Rightarrow> Inl (Bare Service_ErrUnknownExecutionToken)
      | Inr (Some encoded) \<Rightarrow>
          (case read_identity encoded of
             Inl e \<Rightarrow> Inl (annotate ''decode execution identity'' e) | Inr i \<Rightarrow> Inr i))"

definition tok_Revoke :: "('s, doc) redis \<Rightarrow> string \<Rightarrow> 's \<Rightarrow> time \<Rightarrow> string \<Rightarrow> 's \<times> go_err" where
  "tok_Revoke rd pre s t token =
     (if trim_space token = [] then (s, None) else rc_Delete rd pre s t (executionTokenKey token))"

section \<open>Lemmas\<close>

lemma valid_id_text: "valid_id v \<Longrightarrow> valid_utf8 v"
  by (rule is_ascii_valid_utf8) (auto simp: valid_id_def is_ascii_def list_all_iff safe_char_def safe_rune_def)

lemma read_identity_doc:
  "read_identity (identity_doc i) =
     Inr \<lparr>eid_OrganizationID = sanitize (eid_OrganizationID i), eid_AppID = sanitize (eid_AppID i),
          eid_ExecutionID = sanitize (eid_ExecutionID i)\<rparr>"
  by (simp add: read_identity_def identity_doc_def read_text_def doc_text_def)

lemma token_plain:
  assumes "bytes \<noteq> []"
  shows "EncodeToString bytes \<noteq> []" "trim_space (EncodeToString bytes) = EncodeToString bytes"
proof -
  show "EncodeToString bytes \<noteq> []" using assms by (cases bytes) (auto simp: EncodeToString_def hex_encode_def)
  have "visible_ascii [c]" if "c \<in> set (EncodeToString bytes)" for c
    using hex_digit_plain hex_word_digits that by blast
  then show "trim_space (EncodeToString bytes) = EncodeToString bytes"
    by (intro visible_ascii_trim) (auto simp: visible_ascii_def list_all_iff)
qed

lemma tok_Mint_Inr:
  assumes "tok_Mint rd pre ttl d (Inr bytes) s t executionID appID = (s1, Inr token)"
  obtains organizationID where "OrganizationOf d appID = Inr organizationID" "token = EncodeToString bytes"
    "rc_Set rd pre s t (executionTokenKey token)
       (identity_doc \<lparr>eid_OrganizationID = organizationID, eid_AppID = appID, eid_ExecutionID = executionID\<rparr>) ttl = (s1, None)"
  using assms by (auto simp: tok_Mint_def split: sum.splits prod.splits option.splits)

lemma OrganizationOf_text: "OrganizationOf d appID = Inr organizationID \<Longrightarrow> valid_utf8 appID"
  using valid_id_text by (auto simp: OrganizationOf_def app_ValidateIdentifier_def )

lemma tok_Resolve_plain:
  assumes "token = EncodeToString bytes" and "bytes \<noteq> []"
  shows "tok_Resolve rd pre s t token =
    (case rc_Get rd pre s t (executionTokenKey token) of
       Inl e \<Rightarrow> Inl e
     | Inr None \<Rightarrow> Inl (Bare Service_ErrUnknownExecutionToken)
     | Inr (Some encoded) \<Rightarrow>
         (case read_identity encoded of Inl e \<Rightarrow> Inl (annotate ''decode execution identity'' e) | Inr i \<Rightarrow> Inr i))"
  using token_plain [OF assms(2)] assms(1) by (simp add: tok_Resolve_def)

section \<open>Properties\<close>

text \<open>
  C18: a token stands for one execution and for as long as it should. Whatever else is written
  to and deleted from the cache, until its time to live is over the token resolves to exactly
  the execution, the app and the organization that owned the app when it was minted; from then
  on, and from its revocation on, it is unknown. The only other answer is the cache's own error.
\<close>

theorem token_identifies:
  assumes "redis_laws rd holds" and "whole_ms ttl" and "0 < ttl" and "length bytes = 32"
    and mint: "tok_Mint rd pre ttl d (Inr bytes) s t executionID appID = (s1, Inr token)"
    and "OrganizationOf d appID = Inr organizationID" and "valid_utf8 organizationID" and "valid_utf8 executionID"
    and run: "elsewhere (rc_Set rd pre) (rc_Delete rd pre) {executionTokenKey token} s1 t s2 t2"
    and revoked: "tok_Revoke rd pre s2 t2 token = (s3, None)"
    and run': "elsewhere (rc_Set rd pre) (rc_Delete rd pre) {executionTokenKey token} s3 t2 s4 t4"
  shows "tok_Resolve rd pre s2 t2 token =
      (case rc_Get rd pre s2 t2 (executionTokenKey token) of
         Inl e \<Rightarrow> Inl e
       | Inr v \<Rightarrow>
           if t2 < t + ttl
           then Inr \<lparr>eid_OrganizationID = organizationID, eid_AppID = appID, eid_ExecutionID = executionID\<rparr>
           else Inl (Bare Service_ErrUnknownExecutionToken))
    \<and> tok_Resolve rd pre s4 t4 token =
      (case rc_Get rd pre s4 t4 (executionTokenKey token) of
         Inl e \<Rightarrow> Inl e | Inr v \<Rightarrow> Inl (Bare Service_ErrUnknownExecutionToken))"
proof -
  let ?k = "executionTokenKey token"
    and ?i = "\<lparr>eid_OrganizationID = organizationID, eid_AppID = appID, eid_ExecutionID = executionID\<rparr>"
  note store = redis_lease_store [OF assms(1), of pre]
  have token: "token = EncodeToString bytes" and set: "rc_Set rd pre s t ?k (identity_doc ?i) ttl = (s1, None)"
    using mint assms(6) by (auto elim!: tok_Mint_Inr)
  have bytes: "bytes \<noteq> []" using assms(4) by auto
  have read: "read_identity (identity_doc ?i) = Inr ?i"
    using assms(7,8) OrganizationOf_text [OF assms(6)] by (simp add: read_identity_doc sanitize_valid)
  have del: "rc_Delete rd pre s2 t2 ?k = (s3, None)"
    using revoked token_plain [OF bytes] token by (simp add: tok_Revoke_def)
  have before: "got = leased t ttl t2 (identity_doc ?i)" if "rc_Get rd pre s2 t2 ?k = Inr got" for got
    using lease_store.read_back [OF store set assms(2) run that] .
  have after: "got = None" if "rc_Get rd pre s4 t4 ?k = Inr got" for got
    using lease_store.gone [OF store del run' that] .
  show ?thesis using before after read assms(3)
    by (auto simp: tok_Resolve_plain [OF token bytes] leased_def split: sum.split)
qed

theorem token_identifies_witness:
  "\<exists>s1 s3 token.
     tok_Mint memory_server [] (3600 * second) sample_pdb (Inr (replicate 32 7)) [] 0 ''exe_1'' ''app_1'' = (s1, Inr token)
   \<and> tok_Resolve memory_server [] s1 9 token
       = Inr \<lparr>eid_OrganizationID = ''org_1'', eid_AppID = ''app_1'', eid_ExecutionID = ''exe_1''\<rparr>
   \<and> tok_Revoke memory_server [] s1 9 token = (s3, None)
   \<and> tok_Resolve memory_server [] s3 9 token = Inl (Bare Service_ErrUnknownExecutionToken)"
proof -
  let ?ttl = "3600 * second" and ?token = "EncodeToString (replicate 32 7)"
  let ?k = "executionTokenKey ?token"
  let ?s1 = "[(?k, identity_doc \<lparr>eid_OrganizationID = ''org_1'', eid_AppID = ''app_1'', eid_ExecutionID = ''exe_1''\<rparr>, Some ?ttl)]"
  have org: "OrganizationOf sample_pdb ''app_1'' = Inr ''org_1''"
    by (simp add: OrganizationOf_def app_ValidateIdentifier_def dep_id_eval project_view_def)
       (simp add: sample_app_def sample_project_def)
  have mint: "tok_Mint memory_server [] ?ttl sample_pdb (Inr (replicate 32 7)) [] 0 ''exe_1'' ''app_1'' = (?s1, Inr ?token)"
    by (simp add: tok_Mint_def org rc_Set_def PrefixedKey_def) (simp add: memory_server_def second_def)
  have revoke: "tok_Revoke memory_server [] ?s1 9 ?token = ([], None)"
    using token_plain [of "replicate 32 7"] by (simp add: tok_Revoke_def rc_Delete_def PrefixedKey_def memory_server_def)
  have run: "elsewhere (rc_Set memory_server []) (rc_Delete memory_server []) {?k} ?s1 0 ?s1 9"
    by (rule elsewhere.wait [OF elsewhere.here]) simp
  have "whole_ms ?ttl" "0 < ?ttl" "valid_utf8 ''org_1''" "valid_utf8 ''exe_1''"
    by (simp_all add: whole_ms_def second_def is_ascii_valid_utf8 is_ascii_def byte_val_def)
  from token_identifies [OF memory.redis_laws_axioms this(1,2) _ mint org this(3,4) run revoke elsewhere.here]
  show ?thesis using mint revoke by (simp add: rc_Get_def memory_server_def second_def)
qed

end
