(* ===== verification/GoNet.thy ===== *)
theory GoNet
  imports GoJson
begin

text \<open>
  What the sources use of package net: splitting an address into host and port, parsing an IP
  address, and whether it is a loopback address.
\<close>

section \<open>Host and port\<close>

definition first_index :: "char \<Rightarrow> string \<Rightarrow> nat option" where
  "first_index c s = (if c \<in> set s then Some (length (takeWhile (\<lambda>x. x \<noteq> c) s)) else None)"

definition last_index :: "char \<Rightarrow> string \<Rightarrow> nat option" where
  "last_index c s =
     (if c \<in> set s then Some (length s - 1 - length (takeWhile (\<lambda>x. x \<noteq> c) (rev s))) else None)"

definition brackets_ok :: "string \<Rightarrow> nat \<Rightarrow> nat \<Rightarrow> bool" where
  "brackets_ok s j k \<longleftrightarrow> CHR ''['' \<notin> set (drop j s) \<and> CHR '']'' \<notin> set (drop k s)"

text \<open>\<open>net.SplitHostPort\<close>: host and port, or none for an address it refuses.\<close>

definition SplitHostPort :: "string \<Rightarrow> (string \<times> string) option" where
  "SplitHostPort s =
     (case last_index (CHR '':'') s of
        None \<Rightarrow> None
      | Some i \<Rightarrow>
          if hd s = CHR ''['' then
            (case first_index (CHR '']'') s of
               None \<Rightarrow> None
             | Some e \<Rightarrow>
                 if e + 1 = i \<and> brackets_ok s 1 (e + 1) then Some (take (e - 1) (drop 1 s), drop (i + 1) s) else None)
          else if CHR '':'' \<in> set (take i s) \<or> \<not> brackets_ok s 0 0 then None
          else Some (take i s, drop (i + 1) s))"

section \<open>IP addresses\<close>

definition octet :: "string \<Rightarrow> nat option" where
  "octet s =
     (let v = foldl (\<lambda>n c. 10 * n + (byte_val c - 48)) 0 s in
      if s = [] \<or> \<not> list_all is_digit s \<or> (1 < length s \<and> hd s = CHR ''0'') \<or> 255 < v then None else Some v)"

definition parse_ip4 :: "string \<Rightarrow> nat list option" where
  "parse_ip4 s =
     (case map octet (split_on (CHR ''.'') s) of
        [Some a, Some b, Some c, Some d] \<Rightarrow> Some [a, b, c, d] | _ \<Rightarrow> None)"

definition hex_value :: "char \<Rightarrow> nat" where
  "hex_value c =
     (let v = byte_val c in if v \<le> 57 then v - 48 else if 97 \<le> v then v - 87 else v - 55)"

text \<open>
  The fields of an IPv6 address: the bytes so far, where the ellipsis was, and the rest. A
  trailing IPv4 address takes the last four bytes.
\<close>

function ip6_loop :: "nat list \<Rightarrow> nat option \<Rightarrow> string \<Rightarrow> (nat list \<times> nat option \<times> string) option" where
  "ip6_loop ip ell s =
     (if 16 \<le> length ip then Some (ip, ell, s)
      else
        let h = takeWhile is_hex s; rest = dropWhile is_hex s; v = foldl (\<lambda>n c. 16 * n + hex_value c) 0 h;
            ip' = ip @ [v div 256, v mod 256] in
        if h = [] \<or> 4 < length h then None
        else if rest = [] then Some (ip', ell, [])
        else if hd rest = CHR ''.'' then
          (if ell = None \<and> length ip \<noteq> 12 \<or> 16 < length ip + 4 then None
           else case parse_ip4 s of None \<Rightarrow> None | Some b \<Rightarrow> Some (ip @ b, ell, []))
        else if hd rest \<noteq> CHR '':'' \<or> length rest = 1 then None
        else if hd (tl rest) = CHR '':'' then
          (if ell \<noteq> None then None
           else if tl (tl rest) = [] then Some (ip', Some (length ip'), [])
           else ip6_loop ip' (Some (length ip')) (tl (tl rest)))
        else ip6_loop ip' ell (tl rest))"
  by pat_completeness auto
termination
proof (relation "measure (\<lambda>(ip, ell, s). length s)", goal_cases)
  case (2 ip ell s h rest v ip')
  then have "length rest \<le> length s" "0 < length rest" by (simp_all add: length_dropWhile_le)
  then show ?case by (simp only: in_measure split_conv length_tl)
next
  case (3 ip ell s h rest v ip')
  then have "length rest \<le> length s" "0 < length rest" by (simp_all add: length_dropWhile_le)
  then show ?case by (simp only: in_measure split_conv length_tl)
qed simp

declare ip6_loop.simps [simp del]

definition parse_ip6 :: "string \<Rightarrow> nat list option" where
  "parse_ip6 s0 =
     (let dots = has_prefix s0 ''::''; s = (if dots then drop 2 s0 else s0) in
      if CHR 0x25 \<in> set s0 then None
      else if dots \<and> s = [] then Some (replicate 16 0)
      else case ip6_loop [] (if dots then Some 0 else None) s of
        None \<Rightarrow> None
      | Some (ip, ell, rest) \<Rightarrow>
          if rest \<noteq> [] then None
          else (case ell of
                  None \<Rightarrow> if length ip = 16 then Some ip else None
                | Some e \<Rightarrow>
                    if length ip = 16 then None
                    else Some (take e ip @ replicate (16 - length ip) 0 @ drop e ip)))"

definition ParseIP :: "string \<Rightarrow> nat list option" where
  "ParseIP s =
     (case find (\<lambda>c. c = CHR ''.'' \<or> c = CHR '':'' \<or> c = CHR 0x25) s of
        None \<Rightarrow> None
      | Some c \<Rightarrow> if c = CHR ''.'' then parse_ip4 s else if c = CHR '':'' then parse_ip6 s else None)"

definition to4 :: "nat list \<Rightarrow> nat list option" where
  "to4 ip =
     (if length ip = 4 then Some ip
      else if length ip = 16 \<and> take 12 ip = replicate 10 0 @ [255, 255] then Some (drop 12 ip)
      else None)"

definition IsLoopback :: "nat list \<Rightarrow> bool" where
  "IsLoopback ip = (case to4 ip of Some b \<Rightarrow> hd b = 127 | None \<Rightarrow> ip = replicate 15 0 @ [1])"

text \<open>What the addresses of this host look like.\<close>

lemma loopback_examples:
  "map (\<lambda>s. map_option IsLoopback (ParseIP s))
     [''127.0.0.1'', ''127.1.2.3'', ''::1'', ''0:0:0:0:0:0:0:1'', ''10.0.0.1'', ''127.0.0.01'', ''::2'', ''1::2::3'', ''fe80::1%lo'']
   = [Some True, Some True, Some True, Some True, Some False, None, Some False, None, None]"
  by code_simp

lemma split_examples:
  "map SplitHostPort [''127.0.0.1:80'', ''[::1]:80'', ''::1:80'', ''localhost'', ''[::1]80'', ''a[b:1'', '':9'']
   = [Some (''127.0.0.1'', ''80''), Some (''::1'', ''80''), None, None, None, None, Some ([], ''9'')]"
  by code_simp

end
