(* ===== verification/Browsers.thy ===== *)
theory Browsers
  imports Profiles Tokens GoNet
begin

text \<open>
  Browser sessions: internal/domain/browser/session.go, the repository in
  internal/repository/memory/browsersession.go, internal/service/browsersession.go and the
  driver in internal/service/browserdriver.go. The browser service is a process of its own;
  its calls are parameters on a state of its own.
\<close>

section \<open>Sessions\<close>

record bsession =
  bs_ID :: string
  bs_OrganizationID :: string
  bs_AppID :: string
  bs_ExecutionID :: string
  bs_ProfileID :: string
  bs_Browser :: string
  bs_Status :: string
  bs_DisplayAddress :: string
  bs_StartedAt :: time
  bs_UpdatedAt :: time

definition SessionStarting :: string where "SessionStarting = ''starting''"

definition SessionLive :: string where "SessionLive = ''live''"

definition SessionFailed :: string where "SessionFailed = ''failed''"

definition bsession_status_Valid :: "string \<Rightarrow> bool" where
  "bsession_status_Valid st \<longleftrightarrow> st \<in> {SessionStarting, SessionLive, SessionFailed}"

definition bsession_Validate :: "bsession \<Rightarrow> go_err" where
  "bsession_Validate r =
     first_err [
       guard (bs_ID r = [] \<or> bs_OrganizationID r = [])
         (wrapf Browser_ErrInvalid ''session requires an id and an organization''),
       guard (\<not> browser_Valid (bs_Browser r)) (wrapf Browser_ErrInvalid (''unknown browser '' @ bs_Browser r)),
       guard (\<not> bsession_status_Valid (bs_Status r)) (wrapf Browser_ErrInvalid (''unknown session status '' @ bs_Status r)),
       guard (is_zero (bs_StartedAt r) \<or> is_zero (bs_UpdatedAt r)) (wrapf Browser_ErrInvalid ''session timestamps are invalid'')]"

definition NewSession :: "string \<Rightarrow> string \<Rightarrow> string \<Rightarrow> string \<Rightarrow> time \<Rightarrow> bsession result" where
  "NewSession i organizationID appID browser now =
     (let r = \<lparr>bs_ID = trim_space i, bs_OrganizationID = trim_space organizationID, bs_AppID = trim_space appID,
               bs_ExecutionID = [], bs_ProfileID = [], bs_Browser = browser, bs_Status = SessionStarting,
               bs_DisplayAddress = [], bs_StartedAt = now, bs_UpdatedAt = now\<rparr>
      in check (bsession_Validate r) (Inr r))"

section \<open>The repository\<close>

definition sessionTTL :: int where "sessionTTL = 300 * second"

definition browserSessionKey :: "string \<Rightarrow> string \<Rightarrow> string" where
  "browserSessionKey organizationID sessionID = ''browser-session:'' @ organizationID @ '':'' @ sessionID"

definition session_doc :: "bsession \<Rightarrow> doc" where
  "session_doc r =
     DFields ([(''id'', doc_text (bs_ID r)), (''organization_id'', doc_text (bs_OrganizationID r)), (''app_id'', doc_text (bs_AppID r))]
       @ omit_empty ''execution_id'' (bs_ExecutionID r) @ omit_empty ''browser_profile_id'' (bs_ProfileID r)
       @ [(''browser'', doc_text (bs_Browser r)), (''status'', doc_text (bs_Status r)),
          (''started_at'', DTime (bs_StartedAt r)), (''updated_at'', DTime (bs_UpdatedAt r))]
       @ omit_empty ''display_address'' (bs_DisplayAddress r))"

definition decodeSession :: "doc \<Rightarrow> bsession result" where
  "decodeSession v =
     (case v of
        DFields fs \<Rightarrow>
          rbind (read_text fs ''id'') (\<lambda>i. rbind (read_text fs ''organization_id'') (\<lambda>organizationID.
          rbind (read_text fs ''app_id'') (\<lambda>appID. rbind (read_text fs ''execution_id'') (\<lambda>executionID.
          rbind (read_text fs ''browser_profile_id'') (\<lambda>profileID. rbind (read_text fs ''browser'') (\<lambda>browser.
          rbind (read_text fs ''status'') (\<lambda>st. rbind (read_text fs ''display_address'') (\<lambda>display.
          rbind (read_time fs ''started_at'') (\<lambda>started. rbind (read_time fs ''updated_at'') (\<lambda>updated.
            Inr \<lparr>bs_ID = i, bs_OrganizationID = organizationID, bs_AppID = appID, bs_ExecutionID = executionID,
                 bs_ProfileID = profileID, bs_Browser = browser, bs_Status = st, bs_DisplayAddress = display,
                 bs_StartedAt = started, bs_UpdatedAt = updated\<rparr>))))))))))
      | v \<Rightarrow> Inl (Plain ''decode browser session: json''))"

definition bsrepo_Save :: "('s, doc) redis \<Rightarrow> string \<Rightarrow> 's \<Rightarrow> time \<Rightarrow> bsession \<Rightarrow> 's \<times> go_err" where
  "bsrepo_Save rd pre s t r =
     (case first_err [bsession_Validate r,
             guard (\<not> json_year (bs_StartedAt r) \<or> \<not> json_year (bs_UpdatedAt r)) (Plain ''encode browser session'')] of
        Some e \<Rightarrow> (s, Some e)
      | None \<Rightarrow> rc_Set rd pre s t (browserSessionKey (bs_OrganizationID r) (bs_ID r)) (session_doc r) sessionTTL)"

definition bsrepo_Get :: "('s, doc) redis \<Rightarrow> string \<Rightarrow> 's \<Rightarrow> time \<Rightarrow> string \<Rightarrow> string \<Rightarrow> bsession result" where
  "bsrepo_Get rd pre s t organizationID sessionID =
     (case rc_Get rd pre s t (browserSessionKey organizationID sessionID) of
        Inl e \<Rightarrow> Inl (annotate ''read browser session'' e)
      | Inr None \<Rightarrow> Inl (Bare Browser_ErrSessionNotFound)
      | Inr (Some v) \<Rightarrow> decodeSession v)"

text \<open>
  \<open>sortSessionsNewestFirst\<close>: each record is moved left past the older ones before it.
\<close>

definition place_newest :: "bsession list \<Rightarrow> bsession \<Rightarrow> bsession list" where
  "place_newest acc x =
     (let k = length acc - length (takeWhile (\<lambda>y. bs_StartedAt y < bs_StartedAt x) (rev acc))
      in take k acc @ x # drop k acc)"

definition sortSessionsNewestFirst :: "bsession list \<Rightarrow> bsession list" where
  "sortSessionsNewestFirst rs = foldl place_newest [] rs"

text \<open>
  The reads of \<open>List\<close>, one per key, each from the state of its moment. A key without a colon is
  skipped, as is one that is gone.
\<close>

fun list_sessions ::
  "('s, doc) redis \<Rightarrow> string \<Rightarrow> (nat \<Rightarrow> 's \<times> time) \<Rightarrow> string \<Rightarrow> nat \<Rightarrow> string list \<Rightarrow> bsession list result"
where
  "list_sessions rd pre at organizationID n [] = Inr []"
| "list_sessions rd pre at organizationID n (key # keys) =
     (case last_index (CHR '':'') key of
        None \<Rightarrow> list_sessions rd pre at organizationID (Suc n) keys
      | Some i \<Rightarrow>
          (case bsrepo_Get rd pre (fst (at n)) (snd (at n)) organizationID (drop (i + 1) key) of
             Inl e \<Rightarrow>
               if errors_is e Browser_ErrSessionNotFound then list_sessions rd pre at organizationID (Suc n) keys
               else Inl e
           | Inr r \<Rightarrow> rbind (list_sessions rd pre at organizationID (Suc n) keys) (\<lambda>rs. Inr (r # rs))))"

definition bsrepo_List ::
  "('s, doc) redis \<Rightarrow> string \<Rightarrow> (nat \<Rightarrow> 's \<times> time) \<Rightarrow> 's \<Rightarrow> time \<Rightarrow> string \<Rightarrow> bsession list result option"
where
  "bsrepo_List rd pre at s t organizationID =
     map_option (\<lambda>res.
         case res of
           Inl e \<Rightarrow> Inl (annotate ''list browser sessions'' e)
         | Inr keys \<Rightarrow>
             rbind (list_sessions rd pre at organizationID 0 keys) (\<lambda>rs. Inr (sortSessionsNewestFirst rs)))
       (rc_Keys rd pre s t (''browser-session:'' @ organizationID @ '':''))"

definition bsrepo_Delete :: "('s, doc) redis \<Rightarrow> string \<Rightarrow> 's \<Rightarrow> time \<Rightarrow> string \<Rightarrow> string \<Rightarrow> 's \<times> go_err" where
  "bsrepo_Delete rd pre s t organizationID sessionID = rc_Delete rd pre s t (browserSessionKey organizationID sessionID)"

section \<open>The session service\<close>

definition setDisplay :: "bsession \<Rightarrow> string \<Rightarrow> bsession \<times> go_err" where
  "setDisplay r address0 =
     (let address = trim_space address0 in
      if address = [] then (r, None)
      else case SplitHostPort address of
        None \<Rightarrow> (r, Some (wrapf Browser_ErrInvalid ''display must be host:port''))
      | Some (host, port) \<Rightarrow>
          if port = [] then (r, Some (wrapf Browser_ErrInvalid ''display needs a port''))
          else if host \<noteq> ''localhost'' \<and> (case ParseIP host of None \<Rightarrow> True | Some ip \<Rightarrow> \<not> IsLoopback ip)
          then (r, Some (wrapf Browser_ErrInvalid ''display address must be on loopback''))
          else (r\<lparr>bs_DisplayAddress := address\<rparr>, None))"

record open_request =
  oq_SessionID :: string
  oq_AppID :: string
  oq_ExecutionID :: string
  oq_ProfileID :: string
  oq_Browser :: string
  oq_DisplayAddress :: string

text \<open>The part \<open>Open\<close> and \<open>Adopt\<close> share: the record with what the request says of it, saved.\<close>

definition register ::
  "('s, doc) redis \<Rightarrow> string \<Rightarrow> 's \<Rightarrow> time \<Rightarrow> bsession result \<Rightarrow> open_request \<Rightarrow> 's \<times> bsession result"
where
  "register rd pre s t made q =
     (case made of
        Inl e \<Rightarrow> (s, Inl e)
      | Inr r0 \<Rightarrow>
          (case setDisplay (r0\<lparr>bs_ExecutionID := trim_space (oq_ExecutionID q), bs_ProfileID := trim_space (oq_ProfileID q)\<rparr>)
                  (oq_DisplayAddress q) of
             (r, Some e) \<Rightarrow> (s, Inl e)
           | (r, None) \<Rightarrow> (case bsrepo_Save rd pre s t r of (s', Some e) \<Rightarrow> (s', Inl e) | (s', None) \<Rightarrow> (s', Inr r))))"

definition bsvc_Open ::
  "('s, doc) redis \<Rightarrow> string \<Rightarrow> string result \<Rightarrow> time \<Rightarrow> 's \<Rightarrow> time \<Rightarrow> string \<Rightarrow> open_request \<Rightarrow> 's \<times> bsession result"
where
  "bsvc_Open rd pre newID now s t organizationID q =
     register rd pre s t (rbind newID (\<lambda>i. NewSession i organizationID (oq_AppID q) (oq_Browser q) now)) q"

definition bsvc_Adopt ::
  "('s, doc) redis \<Rightarrow> string \<Rightarrow> time \<Rightarrow> 's \<Rightarrow> time \<Rightarrow> string \<Rightarrow> open_request \<Rightarrow> 's \<times> bsession result"
where
  "bsvc_Adopt rd pre now s t organizationID q =
     register rd pre s t
       (rbind (NewSession (trim_space (oq_SessionID q)) organizationID (oq_AppID q) (oq_Browser q) now)
          (\<lambda>r. Inr (r\<lparr>bs_Status := SessionLive\<rparr>))) q"

text \<open>
  A renewal reads the record and writes it back: \<open>(seen, t0)\<close> is the state and the moment of
  the read, \<open>(s, t)\<close> those of the write.
\<close>

definition renew ::
  "('s, doc) redis \<Rightarrow> string \<Rightarrow> (bsession \<Rightarrow> bsession) \<Rightarrow> 's \<Rightarrow> time \<Rightarrow> 's \<Rightarrow> time \<Rightarrow> string \<Rightarrow> string \<Rightarrow> 's \<times> bsession result"
where
  "renew rd pre f seen t0 s t organizationID sessionID =
     (case bsrepo_Get rd pre seen t0 organizationID sessionID of
        Inl e \<Rightarrow> (s, Inl e)
      | Inr r \<Rightarrow> (case bsrepo_Save rd pre s t (f r) of (s', Some e) \<Rightarrow> (s', Inl e) | (s', None) \<Rightarrow> (s', Inr (f r))))"

definition bsvc_Touch ::
  "('s, doc) redis \<Rightarrow> string \<Rightarrow> time \<Rightarrow> 's \<Rightarrow> time \<Rightarrow> 's \<Rightarrow> time \<Rightarrow> string \<Rightarrow> string \<Rightarrow> 's \<times> bsession result"
where
  "bsvc_Touch rd pre now seen t0 s t organizationID sessionID =
     renew rd pre (\<lambda>r. r\<lparr>bs_UpdatedAt := now\<rparr>) seen t0 s t organizationID sessionID"

definition bsvc_Heartbeat ::
  "('s, doc) redis \<Rightarrow> string \<Rightarrow> time \<Rightarrow> 's \<Rightarrow> time \<Rightarrow> 's \<Rightarrow> time \<Rightarrow> string \<Rightarrow> string \<Rightarrow> string \<Rightarrow> 's \<times> bsession result"
where
  "bsvc_Heartbeat rd pre now seen t0 s t organizationID sessionID st =
     renew rd pre (\<lambda>r. (if bsession_status_Valid st then r\<lparr>bs_Status := st\<rparr> else r)\<lparr>bs_UpdatedAt := now\<rparr>)
       seen t0 s t organizationID sessionID"

definition bsvc_Close ::
  "('s, doc) redis \<Rightarrow> string \<Rightarrow> 's \<Rightarrow> time \<Rightarrow> 's \<Rightarrow> time \<Rightarrow> string \<Rightarrow> string \<Rightarrow> 's \<times> go_err"
where
  "bsvc_Close rd pre seen t0 s t organizationID sessionID =
     (case bsrepo_Get rd pre seen t0 organizationID sessionID of
        Inl e \<Rightarrow> (s, Some e) | Inr r \<Rightarrow> bsrepo_Delete rd pre s t organizationID sessionID)"

section \<open>The driver\<close>

text \<open>The cookie of the browser service's contract, and the two translations.\<close>

record pb_cookie =
  pc_Name :: string
  pc_Value :: string
  pc_Domain :: string
  pc_Path :: string
  pc_Expires :: "f64 option"
  pc_Secure :: bool
  pc_HttpOnly :: bool
  pc_SameSite :: string

definition ServiceCookies :: "cookie list \<Rightarrow> pb_cookie list" where
  "ServiceCookies jar = map (\<lambda>c.
     \<lparr>pc_Name = ck_Name c, pc_Value = ck_Value c, pc_Domain = ck_Domain c, pc_Path = ck_Path c, pc_Expires = ck_Expires c,
      pc_Secure = ck_Secure c, pc_HttpOnly = ck_HTTPOnly c, pc_SameSite = ck_SameSite c\<rparr>) jar"

definition DomainCookies :: "pb_cookie list \<Rightarrow> cookie list" where
  "DomainCookies ms = map (\<lambda>m.
     \<lparr>ck_Name = pc_Name m, ck_Value = pc_Value m, ck_Domain = pc_Domain m, ck_Path = pc_Path m, ck_Expires = pc_Expires m,
      ck_Secure = pc_Secure m, ck_HTTPOnly = pc_HttpOnly m, ck_SameSite = pc_SameSite m\<rparr>) ms"

record open_message =
  om_Browser :: string
  om_BrowserProfileId :: string
  om_AppId :: string
  om_ExecutionId :: string
  om_Identity :: identity

text \<open>The calls of the process the driver makes.\<close>

record 'b browser_process =
  bv_Client :: "'b \<Rightarrow> 'b \<times> go_err"
  bv_Address :: "'b \<Rightarrow> string"
  bv_Open :: "'b \<Rightarrow> open_message \<Rightarrow> 'b \<times> string result"
  bv_SetCookies :: "'b \<Rightarrow> string \<Rightarrow> pb_cookie list \<Rightarrow> 'b \<times> go_err"
  bv_GetCookies :: "'b \<Rightarrow> string \<Rightarrow> 'b \<times> pb_cookie list result"
  bv_Close :: "'b \<Rightarrow> string \<Rightarrow> 'b \<times> go_err"

record open_browser =
  ob_Browser :: string
  ob_ProfileID :: string
  ob_LoadStorage :: bool
  ob_AppID :: string
  ob_ExecutionID :: string

record ('s, 'b) bworld =
  bw_cache :: 's
  bw_db :: bdb
  bw_browsers :: 'b

definition unavailable :: "string \<Rightarrow> error \<Rightarrow> error" where
  "unavailable what e = wrapf Browser_ErrUnavailable (what @ error_text e)"

definition persona ::
  "letters \<Rightarrow> catalog \<Rightarrow> string result \<Rightarrow> bdb \<Rightarrow> string \<Rightarrow> string \<Rightarrow> string \<Rightarrow> (identity \<times> cookie list) result"
where
  "persona lt cat seed d organizationID profileID requested =
     (if trim_space profileID = [] then
        rbind (ParseBrowser lt requested) (\<lambda>browser.
          case EphemeralIdentity cat seed browser of
            Inl e \<Rightarrow> Inl (annotate ''mint an identity'' e) | Inr who \<Rightarrow> Inr (who, []))
      else case bprepo_GetByID d organizationID profileID of
        Inl e \<Rightarrow> Inl (Bare Browser_ErrNotFound) | Inr r \<Rightarrow> Inr (bp_Identity r, listed (bp_Cookies r)))"

definition abandon :: "'b browser_process \<Rightarrow> 'b \<Rightarrow> string \<Rightarrow> 'b" where
  "abandon bv b sessionID = fst (bv_Close bv b sessionID)"

text \<open>Loading the jar and registering the session, once the browser is up; a failure closes it again.\<close>

definition driver_seat ::
  "'b browser_process \<Rightarrow> ('s, doc) redis \<Rightarrow> string \<Rightarrow> time \<Rightarrow> time \<Rightarrow> string \<Rightarrow> open_browser \<Rightarrow> string \<Rightarrow> cookie list \<Rightarrow> string
     \<Rightarrow> 's \<Rightarrow> 'b \<Rightarrow> 's \<times> 'b \<times> bsession result"
where
  "driver_seat bv rd pre now t organizationID q browser jar sessionID s b =
     (case (if jar = [] then (b, None) else bv_SetCookies bv b sessionID (ServiceCookies jar)) of
        (b', Some e) \<Rightarrow> (s, abandon bv b' sessionID, Inl (unavailable ''load cookies: '' e))
      | (b', None) \<Rightarrow>
          (case bsvc_Adopt rd pre now s t organizationID
                  \<lparr>oq_SessionID = sessionID, oq_AppID = ob_AppID q, oq_ExecutionID = ob_ExecutionID q, oq_ProfileID = ob_ProfileID q,
                   oq_Browser = browser, oq_DisplayAddress = bv_Address bv b'\<rparr> of
             (s', Inl e) \<Rightarrow> (s', abandon bv b' sessionID, Inl (annotate ''register session'' e))
           | (s', Inr r) \<Rightarrow> (s', b', Inr r)))"

definition driver_Open ::
  "letters \<Rightarrow> catalog \<Rightarrow> string result \<Rightarrow> 'b browser_process \<Rightarrow> ('s, doc) redis \<Rightarrow> string \<Rightarrow> time \<Rightarrow> time \<Rightarrow> string
     \<Rightarrow> open_browser \<Rightarrow> ('s, 'b) bworld \<Rightarrow> ('s, 'b) bworld \<times> bsession result"
where
  "driver_Open lt cat seed bv rd pre now t organizationID q w =
     (if ob_LoadStorage q \<and> trim_space (ob_ProfileID q) = []
      then (w, Inl (wrapf Browser_ErrInvalid ''load_storage needs a browser profile''))
      else case bv_Client bv (bw_browsers w) of
        (b1, Some e) \<Rightarrow> (w\<lparr>bw_browsers := b1\<rparr>, Inl (unavailable [] e))
      | (b1, None) \<Rightarrow>
          (case persona lt cat seed (bw_db w) organizationID (ob_ProfileID q) (ob_Browser q) of
             Inl e \<Rightarrow> (w\<lparr>bw_browsers := b1\<rparr>, Inl e)
           | Inr (who, jar) \<Rightarrow>
               (case bv_Open bv b1 \<lparr>om_Browser = id_Browser who, om_BrowserProfileId = ob_ProfileID q, om_AppId = ob_AppID q,
                                   om_ExecutionId = ob_ExecutionID q, om_Identity = map_identity sanitize who\<rparr> of
                  (b2, Inl e) \<Rightarrow> (w\<lparr>bw_browsers := b2\<rparr>, Inl (unavailable [] e))
                | (b2, Inr sessionID) \<Rightarrow>
                    (case driver_seat bv rd pre now t organizationID q (id_Browser who)
                            (if ob_LoadStorage q then jar else []) sessionID (bw_cache w) b2 of
                       (s', b', res) \<Rightarrow> (w\<lparr>bw_cache := s', bw_browsers := b'\<rparr>, res)))))"

text \<open>\<open>Driving\<close> answers with the client when there is one; the state is that of the browsers after asking for it.\<close>

definition driver_Driving ::
  "'b browser_process \<Rightarrow> ('s, doc) redis \<Rightarrow> string \<Rightarrow> time \<Rightarrow> time \<Rightarrow> string \<Rightarrow> string \<Rightarrow> ('s, 'b) bworld
     \<Rightarrow> ('s, 'b) bworld \<times> go_err"
where
  "driver_Driving bv rd pre now t organizationID sessionID w =
     (case bsvc_Touch rd pre now (bw_cache w) t (bw_cache w) t organizationID sessionID of
        (s', Inl e) \<Rightarrow> (w\<lparr>bw_cache := s'\<rparr>, Some (Bare Browser_ErrSessionNotFound))
      | (s', Inr r) \<Rightarrow>
          (case bv_Client bv (bw_browsers w) of
             (b, Some e) \<Rightarrow> (w\<lparr>bw_cache := s', bw_browsers := b\<rparr>, Some (unavailable [] e))
           | (b, None) \<Rightarrow> (w\<lparr>bw_cache := s', bw_browsers := b\<rparr>, None)))"

definition driver_saveCookies ::
  "'b browser_process \<Rightarrow> time \<Rightarrow> string \<Rightarrow> string \<Rightarrow> string \<Rightarrow> ('s, 'b) bworld \<Rightarrow> ('s, 'b) bworld \<times> go_err"
where
  "driver_saveCookies bv now organizationID profileID sessionID w =
     (case bv_GetCookies bv (bw_browsers w) sessionID of
        (b, Inl e) \<Rightarrow> (w\<lparr>bw_browsers := b\<rparr>, Some (unavailable ''capture cookies: '' e))
      | (b, Inr ms) \<Rightarrow>
          if ms = [] then (w\<lparr>bw_browsers := b\<rparr>, None)
          else (case bpsvc_SaveCookies (bw_db w) (bw_db w) now organizationID profileID (Some (DomainCookies ms)) of
                  (d, Inl e) \<Rightarrow> (w\<lparr>bw_db := d, bw_browsers := b\<rparr>, Some (annotate ''save cookies'' e))
                | (d, Inr r) \<Rightarrow> (w\<lparr>bw_db := d, bw_browsers := b\<rparr>, None)))"

definition driver_Close ::
  "'b browser_process \<Rightarrow> ('s, doc) redis \<Rightarrow> string \<Rightarrow> time \<Rightarrow> time \<Rightarrow> string \<Rightarrow> string \<Rightarrow> bool \<Rightarrow> ('s, 'b) bworld
     \<Rightarrow> ('s, 'b) bworld \<times> go_err"
where
  "driver_Close bv rd pre now t organizationID sessionID saveStorage w =
     (case bsrepo_Get rd pre (bw_cache w) t organizationID sessionID of
        Inl e \<Rightarrow> (w, Some (Bare Browser_ErrSessionNotFound))
      | Inr r \<Rightarrow>
          if saveStorage \<and> trim_space (bs_ProfileID r) = []
          then (w, Some (wrapf Browser_ErrInvalid ''save_storage needs the session to wear a profile''))
          else (case bv_Client bv (bw_browsers w) of
             (b, Some e) \<Rightarrow> (w\<lparr>bw_browsers := b\<rparr>, Some (unavailable [] e))
           | (b, None) \<Rightarrow>
               (case (if saveStorage then driver_saveCookies bv now organizationID (bs_ProfileID r) sessionID (w\<lparr>bw_browsers := b\<rparr>)
                      else (w\<lparr>bw_browsers := b\<rparr>, None)) of
                  (w1, Some e) \<Rightarrow> (w1, Some e)
                | (w1, None) \<Rightarrow>
                    (case bsvc_Close rd pre (bw_cache w1) t (bw_cache w1) t organizationID sessionID of
                       (s', err) \<Rightarrow> (w1\<lparr>bw_cache := s', bw_browsers := fst (bv_Close bv (bw_browsers w1) sessionID)\<rparr>, err)))))"

end
