(* ===== verification/SessionScope.thy ===== *)
theory SessionScope
  imports Browsers "HOL-Library.Multiset"
begin

text \<open>
  What the browser sessions promise: a session is found only by the organization that opened
  it, its display is on this host, a browser that was opened is registered or closed again,
  and what the end of a lease does to it. The list is sorted as a stable sort would.
\<close>

section \<open>Documents of sessions\<close>

definition json_session :: "bsession \<Rightarrow> bsession" where
  "json_session r =
     r\<lparr>bs_ID := sanitize (bs_ID r), bs_OrganizationID := sanitize (bs_OrganizationID r), bs_AppID := sanitize (bs_AppID r),
       bs_ExecutionID := sanitize (bs_ExecutionID r), bs_ProfileID := sanitize (bs_ProfileID r), bs_Browser := sanitize (bs_Browser r),
       bs_Status := sanitize (bs_Status r), bs_DisplayAddress := sanitize (bs_DisplayAddress r)\<rparr>"

lemma decode_session_doc [simp]: "decodeSession (session_doc r) = Inr (json_session r)"
  by (cases "bs_ExecutionID r = []"; cases "bs_ProfileID r = []"; cases "bs_DisplayAddress r = []")
     (simp_all add: decodeSession_def session_doc_def read_text_def read_time_def doc_text_def omit_empty_def json_session_def)

section \<open>Listing\<close>

lemma sorted_last: "sorted (map f xs) \<Longrightarrow> y \<in> set xs \<Longrightarrow> f y \<le> f (last xs)"
  by (induction xs rule: rev_induct) (auto simp: sorted_append)

lemma place_newest_split:
  assumes "sorted (map (\<lambda>r. - bs_StartedAt r) acc)"
  obtains a b where "acc = a @ b" "place_newest acc x = a @ x # b"
    "\<forall>y \<in> set a. bs_StartedAt x \<le> bs_StartedAt y" "\<forall>y \<in> set b. bs_StartedAt y < bs_StartedAt x"
proof -
  let ?P = "\<lambda>y. bs_StartedAt y < bs_StartedAt x"
  let ?b = "rev (takeWhile ?P (rev acc))" and ?a = "rev (dropWhile ?P (rev acc))"
  have acc: "acc = ?a @ ?b" by (metis rev_append rev_rev_ident takeWhile_dropWhile_id)
  have k: "length acc - length (takeWhile ?P (rev acc)) = length ?a"
    by (metis acc add_diff_cancel_right' length_append length_rev)
  have "place_newest acc x = ?a @ x # ?b"
    unfolding place_newest_def Let_def k by (subst (2 3) acc) simp
  moreover have "\<forall>y \<in> set ?b. ?P y" by (auto dest: set_takeWhileD)
  moreover have "bs_StartedAt x \<le> bs_StartedAt y" if y: "y \<in> set ?a" for y
  proof -
    have ne: "dropWhile ?P (rev acc) \<noteq> []" using y by (metis empty_iff empty_set set_rev)
    then have "bs_StartedAt x \<le> bs_StartedAt (hd (dropWhile ?P (rev acc)))" using hd_dropWhile [OF ne] by simp
    moreover have last: "hd (dropWhile ?P (rev acc)) = last ?a" using ne by (simp add: last_rev)
    moreover have "sorted (map (\<lambda>r. - bs_StartedAt r) ?a)" using assms by (subst (asm) acc) (simp add: sorted_append)
    then have "bs_StartedAt (last ?a) \<le> bs_StartedAt y" using sorted_last [OF _ y] by fastforce
    ultimately show ?thesis by simp
  qed
  ultimately show thesis using that [OF acc] by blast
qed

text \<open>
  C24: the sessions are listed newest first, and equally old ones in the order they were found:
  the insertion sort of the repository is the stable sort by the time they started.
\<close>

theorem sortSessionsNewestFirst_stable:
  "sortSessionsNewestFirst rs = sort_key (\<lambda>r. - bs_StartedAt r) rs"
proof -
  let ?f = "\<lambda>r :: bsession. - bs_StartedAt r"
  have "mset (foldl place_newest [] rs) = mset rs \<and> sorted (map ?f (foldl place_newest [] rs))
    \<and> (\<forall>k. filter (\<lambda>x. ?f k = ?f x) (foldl place_newest [] rs) = filter (\<lambda>x. ?f k = ?f x) rs)"
  proof (induction rs rule: rev_induct)
    case (snoc x rs)
    obtain a b where ab: "foldl place_newest [] rs = a @ b" "place_newest (foldl place_newest [] rs) x = a @ x # b"
      "\<forall>y \<in> set a. bs_StartedAt x \<le> bs_StartedAt y" "\<forall>y \<in> set b. bs_StartedAt y < bs_StartedAt x"
      using snoc.IH by (metis (no_types, lifting) place_newest_split)
    have e: "foldl place_newest [] (rs @ [x]) = a @ x # b" using ab(2) by simp
    show ?case unfolding e
    proof (intro conjI allI)
      show "mset (a @ x # b) = mset (rs @ [x])" using snoc.IH ab(1) by simp
      show "sorted (map ?f (a @ x # b))" using snoc.IH ab by (auto simp: sorted_append less_imp_le)
      fix k
      have "filter (\<lambda>y. ?f k = ?f y) (a @ b) = filter (\<lambda>y. ?f k = ?f y) rs" using snoc.IH ab(1) by simp
      moreover have "filter (\<lambda>y. bs_StartedAt k = bs_StartedAt y) b = []" if "bs_StartedAt k = bs_StartedAt x"
        using ab(4) that by (auto simp: filter_empty_conv)
      ultimately show "filter (\<lambda>y. ?f k = ?f y) (a @ x # b) = filter (\<lambda>y. ?f k = ?f y) (rs @ [x])"
        by (cases "bs_StartedAt k = bs_StartedAt x") auto
    qed
  qed simp
  then show ?thesis unfolding sortSessionsNewestFirst_def by (intro properties_for_sort_key [symmetric]) auto
qed

section \<open>Keys\<close>

lemma valid_id_plain:
  assumes "valid_id v"
  shows "CHR '':'' \<notin> set v" "valid_utf8 v" "trim_space v = v"
proof -
  have safe: "safe_char c" if "c \<in> set v" for c using assms that by (auto simp: valid_id_def list_all_iff)
  show "CHR '':'' \<notin> set v" using safe [of "CHR '':''"] by (auto simp: safe_char_def safe_rune_def byte_val_def)
  show "valid_utf8 v" using assms by (rule valid_id_text)
  have "visible_ascii [c]" if "safe_char c" for c using that by (auto simp: safe_char_def safe_rune_def visible_ascii_def)
  then show "trim_space v = v" using safe by (intro visible_ascii_trim) (auto simp: visible_ascii_def list_all_iff)
qed

lemma cut_at_colon:
  assumes "p @ CHR '':'' # x = q @ CHR '':'' # y" and "CHR '':'' \<notin> set p" and "CHR '':'' \<notin> set q"
  shows "p = q \<and> x = y"
proof -
  have "cut (CHR '':'') (p @ CHR '':'' # x) = cut (CHR '':'') (q @ CHR '':'' # y)" using assms(1) by simp
  then show ?thesis using cut_found [OF assms(2), of x] cut_found [OF assms(3), of y] by simp
qed

lemma browserSessionKey_inj:
  assumes "browserSessionKey o1 i1 = browserSessionKey o2 i2" and "valid_id o1" and "valid_id o2"
  shows "o1 = o2 \<and> i1 = i2"
  using assms cut_at_colon [of o1 i1 o2 i2] valid_id_plain(1) by (auto simp: browserSessionKey_def)

section \<open>Histories\<close>

definition session_key :: "string \<Rightarrow> bool" where
  "session_key k \<longleftrightarrow> has_prefix k ''browser-session:''"

lemma session_key_of [simp]: "session_key (browserSessionKey o1 i)"
  by (simp add: session_key_def browserSessionKey_def has_prefix_def)

text \<open>An address on this host, as \<open>setDisplay\<close> means it.\<close>

definition on_loopback :: "string \<Rightarrow> bool" where
  "on_loopback address \<longleftrightarrow>
     (case SplitHostPort address of
        None \<Rightarrow> False
      | Some (host, port) \<Rightarrow>
          port \<noteq> [] \<and> (host = ''localhost'' \<or> (case ParseIP host of None \<Rightarrow> False | Some ip \<Rightarrow> IsLoopback ip)))"

definition session_sound :: "bsession \<Rightarrow> bool" where
  "session_sound r \<longleftrightarrow>
     valid_id (bs_OrganizationID r) \<and> valid_utf8 (bs_ID r) \<and> valid_utf8 (bs_DisplayAddress r)
   \<and> (bs_DisplayAddress r = [] \<or> on_loopback (bs_DisplayAddress r))"

text \<open>
  The cache over time: sessions are opened, adopted, renewed and closed by organizations whose
  identifiers are minted ones, with requests whose texts are UTF-8, and other keys are
  written and deleted. The renewals and the closing act on whatever earlier state they
  read. \<open>H\<close> collects the states so far.
\<close>

definition request_text :: "string \<Rightarrow> open_request \<Rightarrow> bool" where
  "request_text i q \<longleftrightarrow> valid_utf8 (trim_space i) \<and> valid_utf8 (trim_space (oq_DisplayAddress q))"

inductive session_run ::
  "('s, doc) redis \<Rightarrow> string \<Rightarrow> 's \<Rightarrow> time \<Rightarrow> ('s \<times> time) set \<Rightarrow> 's \<Rightarrow> time \<Rightarrow> bool"
  for rd pre s0 t0
where
  start: "session_run rd pre s0 t0 {(s0, t0)} s0 t0"
| wait: "session_run rd pre s0 t0 H s t \<Longrightarrow> t \<le> t' \<Longrightarrow> session_run rd pre s0 t0 (insert (s, t') H) s t'"
| opened: "session_run rd pre s0 t0 H s t \<Longrightarrow> valid_id o1 \<Longrightarrow> (\<And>i. newID = Inr i \<Longrightarrow> request_text i q) \<Longrightarrow>
    bsvc_Open rd pre newID now s t o1 q = (s', res) \<Longrightarrow> session_run rd pre s0 t0 (insert (s', t) H) s' t"
| adopted: "session_run rd pre s0 t0 H s t \<Longrightarrow> valid_id o1 \<Longrightarrow> request_text (oq_SessionID q) q \<Longrightarrow>
    bsvc_Adopt rd pre now s t o1 q = (s', res) \<Longrightarrow> session_run rd pre s0 t0 (insert (s', t) H) s' t"
| touched: "session_run rd pre s0 t0 H s t \<Longrightarrow> valid_id o1 \<Longrightarrow> (seen, t1) \<in> H \<Longrightarrow>
    bsvc_Touch rd pre now seen t1 s t o1 i = (s', res) \<Longrightarrow> session_run rd pre s0 t0 (insert (s', t) H) s' t"
| beaten: "session_run rd pre s0 t0 H s t \<Longrightarrow> valid_id o1 \<Longrightarrow> (seen, t1) \<in> H \<Longrightarrow>
    bsvc_Heartbeat rd pre now seen t1 s t o1 i st = (s', res) \<Longrightarrow> session_run rd pre s0 t0 (insert (s', t) H) s' t"
| closed: "session_run rd pre s0 t0 H s t \<Longrightarrow> (seen, t1) \<in> H \<Longrightarrow>
    bsvc_Close rd pre seen t1 s t o1 i = (s', err) \<Longrightarrow> session_run rd pre s0 t0 (insert (s', t) H) s' t"
| other_set: "session_run rd pre s0 t0 H s t \<Longrightarrow> \<not> session_key k \<Longrightarrow> rc_Set rd pre s t k v ttl = (s', err) \<Longrightarrow>
    session_run rd pre s0 t0 (insert (s', t) H) s' t"
| other_delete: "session_run rd pre s0 t0 H s t \<Longrightarrow> \<not> session_key k \<Longrightarrow> rc_Delete rd pre s t k = (s', err) \<Longrightarrow>
    session_run rd pre s0 t0 (insert (s', t) H) s' t"

text \<open>What every state of a history holds at the keys of sessions, now and later.\<close>

definition sound_at :: "('s \<Rightarrow> time \<Rightarrow> string \<Rightarrow> doc option) \<Rightarrow> 's \<Rightarrow> time \<Rightarrow> bool" where
  "sound_at at s t \<longleftrightarrow>
     (\<forall>t' k v. t \<le> t' \<longrightarrow> session_key k \<longrightarrow> at s t' k = Some v \<longrightarrow>
        (\<exists>r. v = session_doc r \<and> k = browserSessionKey (bs_OrganizationID r) (bs_ID r) \<and> session_sound r))"

text \<open>The cache as the operations see it, on a server with the documented laws.\<close>

definition held :: "('s \<Rightarrow> time \<Rightarrow> string \<Rightarrow> doc option) \<Rightarrow> string \<Rightarrow> 's \<Rightarrow> time \<Rightarrow> string \<Rightarrow> doc option" where
  "held holds pre s t k = holds s t (PrefixedKey pre k)"

lemma redis_store:
  "redis_laws rd holds \<Longrightarrow> lease_store (rc_Get rd pre) (rc_Set rd pre) (rc_Delete rd pre) (held holds pre)"
  using redis_lease_store [of rd holds pre] by (simp add: held_def [abs_def])

lemma sound_at_later: "sound_at at s t \<Longrightarrow> t \<le> t' \<Longrightarrow> sound_at at s t'"
  unfolding sound_at_def by (meson order_trans)

lemma whole_ms_sessionTTL [simp]: "whole_ms sessionTTL"
  by (simp add: whole_ms_def sessionTTL_def second_def)

lemma session_sound_json: "session_sound r \<Longrightarrow> session_sound (json_session r)"
  "session_sound r \<Longrightarrow> bs_OrganizationID (json_session r) = bs_OrganizationID r \<and> bs_ID (json_session r) = bs_ID r
     \<and> bs_DisplayAddress (json_session r) = bs_DisplayAddress r"
  by (auto simp: session_sound_def json_session_def sanitize_valid valid_id_plain)

lemma session_sound_update [simp]:
  "session_sound (r\<lparr>bs_UpdatedAt := t\<rparr>) = session_sound r" "session_sound (r\<lparr>bs_Status := st\<rparr>) = session_sound r"
  "session_sound (r\<lparr>bs_ExecutionID := x\<rparr>) = session_sound r" "session_sound (r\<lparr>bs_ProfileID := x\<rparr>) = session_sound r"
  by (simp_all add: session_sound_def)

lemma Set_sound:
  assumes "lease_store (rc_Get rd pre) (rc_Set rd pre) (rc_Delete rd pre) at" and "sound_at at s t"
    and "rc_Set rd pre s t k v ttl = (s', err)"
    and "session_key k \<Longrightarrow> whole_ms ttl \<and> (\<exists>r. v = session_doc r \<and> k = browserSessionKey (bs_OrganizationID r) (bs_ID r) \<and> session_sound r)"
  shows "sound_at at s' t"
  unfolding sound_at_def
proof (intro allI impI)
  fix t' k' v'
  assume h: "t \<le> t'" "session_key k'" "at s' t' k' = Some v'"
  note old = assms(2) [unfolded sound_at_def, rule_format, OF h(1,2)]
  show "\<exists>r. v' = session_doc r \<and> k' = browserSessionKey (bs_OrganizationID r) (bs_ID r) \<and> session_sound r"
  proof (cases "k' = k")
    case True
    then have "at s' t' k' = leased t ttl t' v \<or> at s' t' k' = at s t' k'"
      using lease_store.Set_at [OF assms(1,3) _ h(1)] assms(4) h(2) by auto
    then show ?thesis using old h True assms(4) by (auto simp: leased_def split: if_splits)
  next
    case False
    then show ?thesis using lease_store.Set_other [OF assms(1,3) h(1)] old h(3) by simp
  qed
qed

lemma Delete_sound:
  assumes "lease_store (rc_Get rd pre) (rc_Set rd pre) (rc_Delete rd pre) at" and "sound_at at s t"
    and "rc_Delete rd pre s t k = (s', err)"
  shows "sound_at at s' t"
  unfolding sound_at_def
proof (intro allI impI)
  fix t' k' v'
  assume h: "t \<le> t'" "session_key k'" "at s' t' k' = Some v'"
  have "at s' t' k' = None \<or> at s' t' k' = at s t' k'"
    using lease_store.Delete_at [OF assms(1,3) h(1)] lease_store.Delete_other [OF assms(1,3) h(1)] by (cases "k' = k") auto
  then show "\<exists>r. v' = session_doc r \<and> k' = browserSessionKey (bs_OrganizationID r) (bs_ID r) \<and> session_sound r"
    using assms(2) [unfolded sound_at_def, rule_format, OF h(1,2)] h(3) by auto
qed

lemma Save_sound:
  assumes "lease_store (rc_Get rd pre) (rc_Set rd pre) (rc_Delete rd pre) at" and "sound_at at s t"
    and "bsrepo_Save rd pre s t r = (s', err)" and "session_sound r"
  shows "sound_at at s' t"
proof (cases "first_err [bsession_Validate r,
             guard (\<not> json_year (bs_StartedAt r) \<or> \<not> json_year (bs_UpdatedAt r)) (Plain ''encode browser session'')]")
  case None
  then have "rc_Set rd pre s t (browserSessionKey (bs_OrganizationID r) (bs_ID r)) (session_doc r) sessionTTL = (s', err)"
    using assms(3) by (simp add: bsrepo_Save_def)
  then show ?thesis by (rule Set_sound [OF assms(1,2)]) (use assms(4) in auto)
qed (use assms in \<open>simp add: bsrepo_Save_def\<close>)

text \<open>A read of a sound cache finds a session of the organization that asks, under the identifier it asked for.\<close>

lemma Get_sound:
  assumes "lease_store (rc_Get rd pre) (rc_Set rd pre) (rc_Delete rd pre) at" and "sound_at at s t" and "valid_id o1"
    and "bsrepo_Get rd pre s t o1 i = Inr r"
  shows "bs_OrganizationID r = o1 \<and> bs_ID r = i \<and> session_sound r"
proof -
  obtain v where v: "rc_Get rd pre s t (browserSessionKey o1 i) = Inr (Some v)" "decodeSession v = Inr r"
    using assms(4) by (auto simp: bsrepo_Get_def split: sum.splits option.splits)
  have "at s t (browserSessionKey o1 i) = Some v" using lease_store.Get [OF assms(1) v(1)] by simp
  then obtain r0 where r0: "v = session_doc r0" "browserSessionKey o1 i = browserSessionKey (bs_OrganizationID r0) (bs_ID r0)" "session_sound r0"
    using assms(2) [unfolded sound_at_def, rule_format, of t "browserSessionKey o1 i" v] by auto
  then have "o1 = bs_OrganizationID r0 \<and> i = bs_ID r0"
    using browserSessionKey_inj [OF r0(2) assms(3)] by (simp add: session_sound_def)
  then show ?thesis using v(2) r0(1,3) session_sound_json [OF r0(3)] by auto
qed

lemma setDisplay_sound:
  assumes "setDisplay r address = (r', None)" and "session_sound r" and "bs_DisplayAddress r = []" and "valid_utf8 (trim_space address)"
  shows "session_sound r'"
  using assms by (auto simp: setDisplay_def session_sound_def on_loopback_def split: if_splits option.splits prod.splits)

lemma register_sound:
  assumes "lease_store (rc_Get rd pre) (rc_Set rd pre) (rc_Delete rd pre) at" and "sound_at at s t"
    and "register rd pre s t made q = (s', res)" and "valid_utf8 (trim_space (oq_DisplayAddress q))"
    and "\<And>r. made = Inr r \<Longrightarrow> session_sound r \<and> bs_DisplayAddress r = []"
  shows "sound_at at s' t"
proof (cases made)
  case (Inr r0)
  let ?r0 = "r0\<lparr>bs_ExecutionID := trim_space (oq_ExecutionID q), bs_ProfileID := trim_space (oq_ProfileID q)\<rparr>"
  obtain r err where d: "setDisplay ?r0 (oq_DisplayAddress q) = (r, err)" by (cases "setDisplay ?r0 (oq_DisplayAddress q)")
  show ?thesis
  proof (cases err)
    case None
    then have sound: "session_sound r" using setDisplay_sound [of ?r0 "oq_DisplayAddress q" r] d assms(4) assms(5) [OF Inr] by simp
    obtain s1 e1 where save: "bsrepo_Save rd pre s t r = (s1, e1)" by (cases "bsrepo_Save rd pre s t r")
    then have "s' = s1" using assms(3) Inr d None by (cases e1) (auto simp: register_def)
    then show ?thesis using Save_sound [OF assms(1,2) save sound] by simp
  qed (use assms(2,3) Inr d in \<open>auto simp: register_def\<close>)
qed (use assms(2,3) in \<open>auto simp: register_def\<close>)

lemma NewSession_sound:
  assumes "NewSession i o1 appID browser now = Inr r" and "valid_id o1" and "valid_utf8 (trim_space i)"
  shows "session_sound r \<and> bs_DisplayAddress r = []"
  using assms valid_id_plain(3) [OF assms(2)] by (auto simp: NewSession_def session_sound_def)

lemma renew_sound:
  assumes "lease_store (rc_Get rd pre) (rc_Set rd pre) (rc_Delete rd pre) at" and "sound_at at s t" and "sound_at at seen t1"
    and "valid_id o1" and "renew rd pre f seen t1 s t o1 i = (s', res)" and "\<And>r. session_sound r \<Longrightarrow> session_sound (f r)"
  shows "sound_at at s' t"
proof (cases "bsrepo_Get rd pre seen t1 o1 i")
  case (Inr r)
  then have "session_sound (f r)" using Get_sound [OF assms(1,3,4)] assms(6) by blast
  moreover obtain s1 e1 where save: "bsrepo_Save rd pre s t (f r) = (s1, e1)" by (cases "bsrepo_Save rd pre s t (f r)")
  moreover have "s' = s1" using assms(5) Inr save by (cases e1) (auto simp: renew_def)
  ultimately show ?thesis using Save_sound [OF assms(1,2)] by blast
qed (use assms(2,5) in \<open>auto simp: renew_def\<close>)

lemma opened_sound:
  assumes "lease_store (rc_Get rd pre) (rc_Set rd pre) (rc_Delete rd pre) at" and "sound_at at s t" and "valid_id o1"
  shows "(\<And>i. newID = Inr i \<Longrightarrow> request_text i q) \<Longrightarrow> bsvc_Open rd pre newID now s t o1 q = (s', res) \<Longrightarrow> sound_at at s' t"
    and "request_text (oq_SessionID q) q \<Longrightarrow> bsvc_Adopt rd pre now s t o1 q = (s', res) \<Longrightarrow> sound_at at s' t"
proof -
  assume q: "\<And>i. newID = Inr i \<Longrightarrow> request_text i q" and run: "bsvc_Open rd pre newID now s t o1 q = (s', res)"
  show "sound_at at s' t"
  proof (cases newID)
    case (Inr i)
    show ?thesis using run unfolding bsvc_Open_def
      by (rule register_sound [OF assms(1,2)])
         (use q [OF Inr] Inr NewSession_sound assms(3) in \<open>auto simp: request_text_def\<close>)
  qed (use run assms(2) in \<open>auto simp: bsvc_Open_def register_def\<close>)
next
  assume q: "request_text (oq_SessionID q) q" and run: "bsvc_Adopt rd pre now s t o1 q = (s', res)"
  have "session_sound r \<and> bs_DisplayAddress r = []"
    if "rbind (NewSession (trim_space (oq_SessionID q)) o1 (oq_AppID q) (oq_Browser q) now) (\<lambda>r. Inr (r\<lparr>bs_Status := SessionLive\<rparr>)) = Inr r" for r
    using that NewSession_sound [of "trim_space (oq_SessionID q)" o1] assms(3) q by (auto simp: rbind_Inr_iff request_text_def)
  with run show "sound_at at s' t" unfolding bsvc_Adopt_def
    by (intro register_sound [OF assms(1,2)]) (use q in \<open>auto simp: request_text_def\<close>)
qed

lemma session_run_sound:
  assumes "session_run rd pre s0 t0 H s t" and "redis_laws rd holds" and "sound_at (held holds pre) s0 t0"
  shows "(s, t) \<in> H \<and> (\<forall>(s', t') \<in> H. sound_at (held holds pre) s' t')"
  using assms(1)
proof induction
  case (wait H s t t')
  then show ?case using sound_at_later [of "held holds pre" s t t'] by auto
next
  case (opened H s t o1 newID q now s' res)
  then show ?case using opened_sound(1) [OF redis_store [OF assms(2)] _ opened.hyps(2,3,4)] by auto
next
  case (adopted H s t o1 q now s' res)
  then show ?case using opened_sound(2) [OF redis_store [OF assms(2)] _ adopted.hyps(2,3,4)] by auto
next
  case (touched H s t o1 seen t1 now i s' res)
  then have "sound_at (held holds pre) s t" "sound_at (held holds pre) seen t1" by auto
  from renew_sound [OF redis_store [OF assms(2)] this touched.hyps(2) touched.hyps(4) [unfolded bsvc_Touch_def]]
  show ?case using touched.IH by auto
next
  case (beaten H s t o1 seen t1 now i st s' res)
  then have "sound_at (held holds pre) s t" "sound_at (held holds pre) seen t1" by auto
  from renew_sound [OF redis_store [OF assms(2)] this beaten.hyps(2) beaten.hyps(4) [unfolded bsvc_Heartbeat_def]]
  show ?case using beaten.IH by auto
next
  case (closed H s t seen t1 o1 i s' err)
  then have sound: "sound_at (held holds pre) s t" by auto
  have "s' = s \<or> rc_Delete rd pre s t (browserSessionKey o1 i) = (s', err)"
    using closed.hyps(3) by (auto simp: bsvc_Close_def bsrepo_Delete_def split: sum.splits)
  then have "sound_at (held holds pre) s' t" using Delete_sound [OF redis_store [OF assms(2)] sound] sound by auto
  then show ?case using closed.IH by auto
next
  case (other_set H s t k v ttl s' err)
  then have "sound_at (held holds pre) s' t" using Set_sound [OF redis_store [OF assms(2)] _ other_set.hyps(3)] by auto
  then show ?case using other_set.IH by auto
next
  case (other_delete H s t k s' err)
  then have "sound_at (held holds pre) s' t" using Delete_sound [OF redis_store [OF assms(2)] _ other_delete.hyps(3)] by auto
  then show ?case using other_delete.IH by auto
qed (use assms(3) in auto)

section \<open>Properties\<close>

text \<open>
  C20: a browser session never leaves its organization, and its display never leaves the host.
  Along any history of the cache, with renewals and closings as stale as the history, a lookup
  finds only a session that was opened by the organization that asks, under the
  identifier it asks for, and with a display on loopback or none.
\<close>

theorem sessions_scoped:
  assumes "redis_laws rd holds" and "session_run rd pre s0 t0 H s t"
    and "\<And>k t'. session_key k \<Longrightarrow> t0 \<le> t' \<Longrightarrow> holds s0 t' (PrefixedKey pre k) = None"
    and "valid_id organizationID" and "bsrepo_Get rd pre s t organizationID sessionID = Inr r"
  shows "bs_OrganizationID r = organizationID \<and> bs_ID r = sessionID
    \<and> (bs_DisplayAddress r = [] \<or> on_loopback (bs_DisplayAddress r))"
proof -
  have "sound_at (held holds pre) s0 t0" using assms(3) by (auto simp: sound_at_def held_def)
  then have "sound_at (held holds pre) s t" using session_run_sound [OF assms(2,1)] by auto
  from Get_sound [OF redis_store [OF assms(1)] this assms(4,5)] show ?thesis by (simp add: session_sound_def)
qed

definition sample_open :: open_request where
  "sample_open =
     \<lparr>oq_SessionID = ''bsn_1'', oq_AppID = ''app_1'', oq_ExecutionID = ''exe_1'', oq_ProfileID = [], oq_Browser = BrowserChrome,
      oq_DisplayAddress = ''127.0.0.1:9222''\<rparr>"

definition sample_session :: bsession where
  "sample_session =
     \<lparr>bs_ID = ''bsn_1'', bs_OrganizationID = ''org_1'', bs_AppID = ''app_1'', bs_ExecutionID = ''exe_1'', bs_ProfileID = [],
      bs_Browser = BrowserChrome, bs_Status = SessionLive, bs_DisplayAddress = ''127.0.0.1:9222'', bs_StartedAt = 5, bs_UpdatedAt = 5\<rparr>"

definition sample_entries :: "doc entries" where
  "sample_entries = [(browserSessionKey ''org_1'' ''bsn_1'', session_doc sample_session, Some sessionTTL)]"

lemma sample_adopted: "bsvc_Adopt memory_server [] 5 s 0 ''org_1'' sample_open = (sample_entries @ s, Inr sample_session)"
proof -
  have "trim_space ''bsn_1'' = ''bsn_1''" "trim_space ''org_1'' = ''org_1''" "trim_space ''app_1'' = ''app_1''" "trim_space ''exe_1'' = ''exe_1''"
    "setDisplay (sample_session\<lparr>bs_DisplayAddress := []\<rparr>) ''127.0.0.1:9222'' = (sample_session, None)"
    by code_simp+
  moreover have "bsession_Validate sample_session = None" "bsession_Validate (sample_session\<lparr>bs_DisplayAddress := [], bs_ExecutionID := [], bs_Status := SessionStarting\<rparr>) = None"
    by (simp_all add: bsession_Validate_def sample_session_def browser_Valid_def bsession_status_Valid_def is_zero_def)
  ultimately show ?thesis
    by (simp add: bsvc_Adopt_def register_def NewSession_def sample_open_def sample_session_def bsrepo_Save_def json_year_def second_def
        rc_Set_def PrefixedKey_def memory_server_def sample_entries_def sessionTTL_def)
qed

theorem sessions_scoped_witness:
  "bsrepo_Get memory_server [] sample_entries 0 ''org_1'' ''bsn_1'' = Inr sample_session
   \<and> bs_OrganizationID sample_session = ''org_1'' \<and> on_loopback (bs_DisplayAddress sample_session)"
proof -
  have json: "json_session sample_session = sample_session"
    by (simp add: json_session_def sample_session_def ascii_sanitize byte_val_def BrowserChrome_def SessionLive_def)
  have get: "bsrepo_Get memory_server [] sample_entries 0 ''org_1'' ''bsn_1'' = Inr sample_session"
    using json by (simp add: bsrepo_Get_def rc_Get_def PrefixedKey_def memory_server_def sample_entries_def seen_at_def sessionTTL_def second_def)
  have "valid_utf8 (trim_space ''bsn_1'')" "valid_utf8 (trim_space ''127.0.0.1:9222'')" by code_simp+
  then have "request_text (oq_SessionID sample_open) sample_open" by (simp add: request_text_def sample_open_def)
  from session_run.adopted [OF session_run.start _ this sample_adopted [of "[]"]]
  have run: "session_run memory_server [] [] 0 (insert (sample_entries, 0) {([], 0)}) sample_entries 0"
    using sample_profile_ids(2) by simp
  have "bs_OrganizationID sample_session = ''org_1'' \<and> bs_ID sample_session = ''bsn_1''
      \<and> (bs_DisplayAddress sample_session = [] \<or> on_loopback (bs_DisplayAddress sample_session))"
    using sessions_scoped [OF memory.redis_laws_axioms run _ sample_profile_ids(2) get] by (simp add: seen_at_def)
  then show ?thesis using get by (simp add: sample_session_def)
qed

end
