(* ===== verification/Driving.thy ===== *)
theory Driving
  imports SessionScope
begin

text \<open>
  Properties of the driver: a browser that was started is either registered or closed again,
  a session whose lease ran out can no longer be closed, and a Safari without a profile is
  never opened.
\<close>

section \<open>The browser service\<close>

text \<open>
  What the driver relies on of the process: which sessions run, with fresh and trimmed
  identifiers, and that a call about one session starts no other. Asking for the client may
  restart the service, which ends what ran. Nothing is said of what a failed \<open>Open\<close> left running,
  and a failed \<open>Close\<close> may or may not have ended the session.
\<close>

definition browser_ok :: "'b browser_process \<Rightarrow> ('b \<Rightarrow> string set) \<Rightarrow> bool" where
  "browser_ok bv running \<longleftrightarrow>
     (\<forall>b b' err. bv_Client bv b = (b', err) \<longrightarrow> running b' \<subseteq> running b)
   \<and> (\<forall>b b' m i. bv_Open bv b m = (b', Inr i) \<longrightarrow> i \<notin> running b \<and> trim_space i = i \<and> running b' = insert i (running b))
   \<and> (\<forall>b b' i jar err. bv_SetCookies bv b i jar = (b', err) \<longrightarrow>
        running b' \<subseteq> running b \<and> (err = None \<longrightarrow> i \<in> running b \<longrightarrow> i \<in> running b'))
   \<and> (\<forall>b b' i err. bv_Close bv b i = (b', err) \<longrightarrow> running b' \<subseteq> running b \<and> (err = None \<longrightarrow> i \<notin> running b'))"

lemma browser_okD:
  assumes "browser_ok bv running"
  shows "bv_Client bv b = (b', err) \<Longrightarrow> running b' \<subseteq> running b"
    and "bv_Open bv b m = (b', Inr i) \<Longrightarrow> i \<notin> running b \<and> trim_space i = i \<and> running b' = insert i (running b)"
    and "bv_SetCookies bv b i jar = (b', err) \<Longrightarrow>
      running b' \<subseteq> running b \<and> (err = None \<longrightarrow> i \<in> running b \<longrightarrow> i \<in> running b')"
    and "bv_Close bv b i = (b', err) \<Longrightarrow> running b' \<subseteq> running b \<and> (err = None \<longrightarrow> i \<notin> running b')"
  using assms unfolding browser_ok_def by metis+

lemma Adopt_Inr:
  assumes "bsvc_Adopt rd pre now s t o1 q = (s', Inr r)"
  shows "bs_ID r = trim_space (oq_SessionID q) \<and> bs_OrganizationID r = trim_space o1
    \<and> rc_Set rd pre s t (browserSessionKey (bs_OrganizationID r) (bs_ID r)) (session_doc r) sessionTTL = (s', None)"
  using assms
  by (auto simp: bsvc_Adopt_def register_def NewSession_def setDisplay_def bsrepo_Save_def rbind_Inr_iff check_def
      split: sum.splits option.splits prod.splits if_splits)

text \<open>The session was asked to close, in a state where nothing new but it may run.\<close>

definition given_up :: "'b browser_process \<Rightarrow> ('b \<Rightarrow> string set) \<Rightarrow> string \<Rightarrow> 'b \<Rightarrow> 'b \<Rightarrow> bool" where
  "given_up bv running i b b' \<longleftrightarrow> (\<exists>c. running c \<subseteq> running b \<and> b' = fst (bv_Close bv c i))"

lemma given_up_closed:
  assumes "given_up bv running i b b'" and "browser_ok bv running"
  shows "\<exists>c. b' = fst (bv_Close bv c i) \<and> running b' \<subseteq> running b \<and> (snd (bv_Close bv c i) = None \<longrightarrow> i \<notin> running b')"
proof -
  obtain c where c: "running c \<subseteq> running b" "b' = fst (bv_Close bv c i)" using assms(1) by (auto simp: given_up_def)
  then have "bv_Close bv c i = (b', snd (bv_Close bv c i))" by simp
  from browser_okD(4) [OF assms(2) this] c have "running b' \<subseteq> running b" "snd (bv_Close bv c i) = None \<longrightarrow> i \<notin> running b'"
    by auto
  with c(2) show ?thesis by (intro exI [of _ c]) simp
qed

lemma driver_seat_cases:
  assumes "driver_seat bv rd pre now t o1 q browser jar i s b = (s', b', res)" and "browser_ok bv running"
  shows "(\<exists>e. res = Inl e \<and> given_up bv running i b b')
    \<or> (\<exists>r. res = Inr r \<and> running b' \<subseteq> running b \<and> (i \<in> running b \<longrightarrow> i \<in> running b')
         \<and> bs_ID r = trim_space i \<and> bs_OrganizationID r = trim_space o1
         \<and> rc_Set rd pre s t (browserSessionKey (bs_OrganizationID r) (bs_ID r)) (session_doc r) sessionTTL = (s', None))"
proof -
  obtain b1 err where b1: "(if jar = [] then (b, None) else bv_SetCookies bv b i (ServiceCookies jar)) = (b1, err)" by fastforce
  then have keep: "running b1 \<subseteq> running b \<and> (err = None \<longrightarrow> i \<in> running b \<longrightarrow> i \<in> running b1)"
    using browser_okD(3) [OF assms(2)] by (auto split: if_splits)
  then have close: "given_up bv running i b (abandon bv b1 i)" by (auto simp: given_up_def abandon_def)
  show ?thesis
  proof (cases err)
    case None
    then show ?thesis using assms(1) b1 keep close
      by (auto simp: driver_seat_def dest: Adopt_Inr split: prod.splits sum.splits)
  qed (use assms(1) b1 close in \<open>auto simp: driver_seat_def\<close>)
qed

section \<open>Properties\<close>


text \<open>
  A browser outlives its lease. When a session has not been renewed for five minutes, the
  cache has dropped it: commands and even \<open>Close\<close> answer that it is not found, without a call
  to the browser service, so the browser the session was opened on keeps running.
\<close>

lemma expired_session_unreachable:
  assumes "redis_laws rd holds" and "browser_ok bv running" and "valid_id organizationID"
    and opened: "driver_Open lt cat seed bv rd pre now t organizationID q w = (w1, Inr r)"
    and idle: "elsewhere (rc_Set rd pre) (rc_Delete rd pre) {browserSessionKey organizationID (bs_ID r)} (bw_cache w1) t s2 t2"
    and "t + sessionTTL \<le> t2"
  shows "driver_Close bv rd pre now2 t2 organizationID (bs_ID r) save (w1\<lparr>bw_cache := s2\<rparr>)
      = (w1\<lparr>bw_cache := s2\<rparr>, Some (Bare Browser_ErrSessionNotFound))
    \<and> driver_Driving bv rd pre now2 t2 organizationID (bs_ID r) (w1\<lparr>bw_cache := s2\<rparr>)
      = (w1\<lparr>bw_cache := s2\<rparr>, Some (Bare Browser_ErrSessionNotFound))
    \<and> bs_ID r \<in> running (bw_browsers w1)"
proof -
  note client = browser_okD(1) [OF assms(2)] and started = browser_okD(2) [OF assms(2)]
  obtain b1 b2 m i browser jar s' b' where seat: "bv_Open bv b1 m = (b2, Inr i)"
      "driver_seat bv rd pre now t organizationID q browser jar i (bw_cache w) b2 = (s', b', Inr r)" "w1 = w\<lparr>bw_cache := s', bw_browsers := b'\<rparr>"
    using opened by (fastforce simp: driver_Open_def split: if_splits prod.splits sum.splits option.splits)
  have r: "i \<in> running b2 \<longrightarrow> i \<in> running b'" "bs_ID r = trim_space i" "bs_OrganizationID r = trim_space organizationID"
    "rc_Set rd pre (bw_cache w) t (browserSessionKey (bs_OrganizationID r) (bs_ID r)) (session_doc r) sessionTTL = (s', None)"
    using driver_seat_cases [OF seat(2) assms(2)] by auto
  have org: "bs_OrganizationID r = organizationID" using r(3) valid_id_plain(3) [OF assms(3)] by simp
  have gone: "bsrepo_Get rd pre s2 t2 organizationID (bs_ID r) = Inl e" if "e = (case rc_Get rd pre s2 t2 (browserSessionKey organizationID (bs_ID r)) of
      Inl e \<Rightarrow> annotate ''read browser session'' e | Inr v \<Rightarrow> Bare Browser_ErrSessionNotFound)" for e
    using lease_store.read_back [OF redis_store [OF assms(1)] r(4) whole_ms_sessionTTL, of s2 t2] idle seat(3) org assms(6) that
    by (auto simp: bsrepo_Get_def leased_def sessionTTL_def second_def split: sum.splits option.splits)
  then have "\<exists>e. bsrepo_Get rd pre s2 t2 organizationID (bs_ID r) = Inl e" by blast
  then show ?thesis using r(1,2) started [OF seat(1)] seat(3)
    by (auto simp: driver_Close_def driver_Driving_def bsvc_Touch_def renew_def)
qed

text \<open>
  Safari is offered and never opened. Whatever the seed, a request for a Safari that names no
  profile is refused as invalid, because the embedded catalogue has no system that runs it.
\<close>

lemma safari_never_opens:
  assumes "ob_ProfileID q = []" and "ob_LoadStorage q = False" and "ParseBrowser lt (ob_Browser q) = Inr BrowserSafari"
    and "bv_Client bv (bw_browsers w) = (b, None)"
  shows "\<exists>e. driver_Open lt IdentityCatalog (Inr bytes) bv rd pre now t organizationID q w = (w\<lparr>bw_browsers := b\<rparr>, Inl e)
    \<and> errors_is e Browser_ErrInvalid"
  using assms by (simp add: driver_Open_def persona_def EphemeralIdentity_def DefaultIdentity_safari)

section \<open>A browser service in memory\<close>

definition sample_browsers :: "string list browser_process" where
  "sample_browsers =
     \<lparr>bv_Client = (\<lambda>b. (b, None)), bv_Address = (\<lambda>b. ''127.0.0.1:9222''),
      bv_Open = (\<lambda>b m. let i = replicate (Suc (sum_list (map length b))) (CHR ''b'') in (i # b, Inr i)),
      bv_SetCookies = (\<lambda>b i jar. (b, None)), bv_GetCookies = (\<lambda>b i. (b, Inr [])),
      bv_Close = (\<lambda>b i. (removeAll i b, None))\<rparr>"

lemma sample_browsers_ok: "browser_ok sample_browsers set"
proof -
  have "replicate (Suc (sum_list (map length b))) (CHR ''b'') \<notin> set b" for b :: "string list"
  proof
    assume "replicate (Suc (sum_list (map length b))) (CHR ''b'') \<in> set b"
    then have "Suc (sum_list (map length b)) \<in> set (map length b)" by (metis image_eqI length_replicate list.set_map)
    then show False using member_le_sum_list [of "Suc (sum_list (map length b))" "map length b"] by simp
  qed
  moreover have "trim_space (replicate n (CHR ''b'')) = replicate n (CHR ''b'')" for n
    by (rule visible_ascii_trim) (auto simp: visible_ascii_def list_all_iff byte_val_def)
  ultimately show ?thesis by (auto simp: browser_ok_def sample_browsers_def simp del: replicate.simps)
qed

definition sample_wish :: open_browser where
  "sample_wish = \<lparr>ob_Browser = ''chrome'', ob_ProfileID = [], ob_LoadStorage = False, ob_AppID = ''app_1'', ob_ExecutionID = ''exe_1''\<rparr>"

definition sample_bworld :: "(doc entries, string list) bworld" where
  "sample_bworld = \<lparr>bw_cache = [], bw_db = sample_bdb, bw_browsers = []\<rparr>"

lemma sample_adopt_b:
  "\<exists>s' r. bsvc_Adopt memory_server [] 5 [] 0 ''org_1''
     \<lparr>oq_SessionID = ''b'', oq_AppID = ''app_1'', oq_ExecutionID = ''exe_1'', oq_ProfileID = [], oq_Browser = BrowserChrome,
      oq_DisplayAddress = ''127.0.0.1:9222''\<rparr> = (s', Inr r)"
proof -
  let ?r = "sample_session\<lparr>bs_ID := ''b''\<rparr>"
  have "trim_space ''b'' = ''b''" "trim_space ''org_1'' = ''org_1''" "trim_space ''app_1'' = ''app_1''" "trim_space ''exe_1'' = ''exe_1''"
    "setDisplay (?r\<lparr>bs_DisplayAddress := []\<rparr>) ''127.0.0.1:9222'' = (?r, None)"
    by code_simp+
  moreover have "bsession_Validate ?r = None" "bsession_Validate (?r\<lparr>bs_DisplayAddress := [], bs_ExecutionID := [], bs_Status := SessionStarting\<rparr>) = None"
    by (simp_all add: bsession_Validate_def sample_session_def browser_Valid_def bsession_status_Valid_def is_zero_def)
  ultimately show ?thesis
    by (simp add: bsvc_Adopt_def register_def NewSession_def sample_session_def bsrepo_Save_def json_year_def second_def
        rc_Set_def PrefixedKey_def memory_server_def)
qed

lemma sample_driver_Open:
  "\<exists>w1 r. driver_Open lt IdentityCatalog (Inr bytes) sample_browsers memory_server [] 5 0 ''org_1'' sample_wish sample_bworld = (w1, Inr r)"
proof -
  obtain who where who: "DefaultIdentity IdentityCatalog bytes BrowserChrome = Inr who" "id_Browser who = BrowserChrome"
    using DefaultIdentity_ok [OF embedded_ok(2), of bytes] by (auto simp: BrowserChrome_def)
  have "trim_space ''chrome'' = ''chrome''" by code_simp
  then have "ParseBrowser lt ''chrome'' = Inr BrowserChrome"
    by (simp add: ParseBrowser_def ToLower_def byte_val_def ascii_lower_def browser_Valid_def BrowserChrome_def)
  then have p: "persona lt IdentityCatalog (Inr bytes) sample_bdb ''org_1'' [] ''chrome'' = Inr (who, [])"
    using who by (simp add: persona_def EphemeralIdentity_def)
  obtain s' r where adopt: "bsvc_Adopt memory_server [] 5 [] 0 ''org_1''
     \<lparr>oq_SessionID = ''b'', oq_AppID = ''app_1'', oq_ExecutionID = ''exe_1'', oq_ProfileID = [], oq_Browser = BrowserChrome,
      oq_DisplayAddress = ''127.0.0.1:9222''\<rparr> = (s', Inr r)" using sample_adopt_b by blast
  show ?thesis using p who(2) adopt
    by (simp add: driver_Open_def sample_wish_def sample_bworld_def sample_browsers_def driver_seat_def)
qed


end
