(* ===== verification/BrowserServer.thy ===== *)
theory BrowserServer
  imports Driving
begin

text \<open>
  The two doors onto the browsers and the process behind them: the gRPC server of the SDK
  (internal/browsergrpc/server.go), the HTTP commands for API keys
  (internal/api/browsercommands.go, browsersessions.go), and the supervisor of the browser
  service (internal/browsergrpc/supervisor.go).
\<close>

section \<open>Commands\<close>

record attribute =
  at_Name :: string
  at_Value :: string

record node =
  nd_NodeId :: int
  nd_LocalName :: string
  nd_NodeType :: "32 word"
  nd_Attributes :: "attribute list"
  nd_Text :: string
  nd_Html :: string
  nd_X :: f64
  nd_Y :: f64
  nd_Width :: f64
  nd_Height :: f64

text \<open>The commands both contracts have, with the fields of their messages; enumerations by number.\<close>

datatype command =
    Navigate string "string option"
  | WaitForNavigation nat "32 word"
  | GetNode string "32 word"
  | HumanMouseMove "f64 option" "f64 option" string
  | HumanMouseClick "f64 option" "f64 option" string nat "32 word" "32 word"
  | HumanType string string "32 word" "32 word"
  | HumanScrollY "32 word"
  | HumanScrollYTo string nat
  | GetCookies
  | SetCookies "pb_cookie list"

datatype reply = Done | Found "node option" | Jar "pb_cookie list"

datatype grpc_code =
    CodeNotFound | CodeInvalidArgument | CodeUnavailable | CodeInternal | CodeUnauthenticated
  | CodeDeadlineExceeded | CodeUnimplemented | CodeOther nat

type_synonym grpc_status = "grpc_code \<times> string"

text \<open>A failed call: the service's own status, or an error without one.\<close>

datatype call_error = Answered grpc_code string | Unanswered string

type_synonym 'b caller = "'b \<Rightarrow> string \<Rightarrow> command \<Rightarrow> 'b \<times> (call_error + reply)"

section \<open>The server of the SDK\<close>

definition relayed :: "call_error \<Rightarrow> grpc_status" where
  "relayed e = (case e of Answered c m \<Rightarrow> (c, m) | Unanswered m \<Rightarrow> (CodeUnavailable, ''browser service: '' @ m))"

definition statusOf :: "error \<Rightarrow> grpc_status" where
  "statusOf e =
     (if errors_is e Browser_ErrSessionNotFound \<or> errors_is e Browser_ErrNotFound then (CodeNotFound, error_text e)
      else if errors_is e Browser_ErrInvalid then (CodeInvalidArgument, error_text e)
      else if errors_is e Browser_ErrUnavailable then (CodeUnavailable, error_text e)
      else (CodeInternal, error_text e))"

text \<open>The metadata of a call: the first value of the token key, when there is one.\<close>

definition identify :: "('s, doc) redis \<Rightarrow> string \<Rightarrow> 's \<Rightarrow> time \<Rightarrow> string list \<Rightarrow> grpc_status + exec_identity" where
  "identify rd pre s t values =
     (case values of
        [] \<Rightarrow> Inl (CodeUnauthenticated, ''an execution token is required'')
      | token # rest \<Rightarrow>
          (case tok_Resolve rd pre s t token of
             Inl e \<Rightarrow> Inl (CodeUnauthenticated, ''the execution token was rejected'') | Inr i \<Rightarrow> Inr i))"

definition grpc_driving ::
  "'b browser_process \<Rightarrow> ('s, doc) redis \<Rightarrow> string \<Rightarrow> time \<Rightarrow> time \<Rightarrow> string list \<Rightarrow> string \<Rightarrow> ('s, 'b) bworld
     \<Rightarrow> ('s, 'b) bworld \<times> grpc_status option"
where
  "grpc_driving bv rd pre now t values sessionID w =
     (case identify rd pre (bw_cache w) t values of
        Inl st \<Rightarrow> (w, Some st)
      | Inr i \<Rightarrow>
          (case driver_Driving bv rd pre now t (eid_OrganizationID i) sessionID w of
             (w', Some e) \<Rightarrow> (w', Some (statusOf e)) | (w', None) \<Rightarrow> (w', None)))"

text \<open>The body all commands share: authorize, relay, translate the failure.\<close>

definition grpc_relay ::
  "'b caller \<Rightarrow> 'b browser_process \<Rightarrow> ('s, doc) redis \<Rightarrow> string \<Rightarrow> time \<Rightarrow> time \<Rightarrow> string list \<Rightarrow> string \<Rightarrow> command
     \<Rightarrow> ('s, 'b) bworld \<Rightarrow> ('s, 'b) bworld \<times> (grpc_status + reply)"
where
  "grpc_relay call bv rd pre now t values sessionID cmd w =
     (case grpc_driving bv rd pre now t values sessionID w of
        (w', Some st) \<Rightarrow> (w', Inl st)
      | (w', None) \<Rightarrow>
          (case call (bw_browsers w') sessionID cmd of
             (b, Inl e) \<Rightarrow> (w'\<lparr>bw_browsers := b\<rparr>, Inl (relayed e))
           | (b, Inr reply) \<Rightarrow> (w'\<lparr>bw_browsers := b\<rparr>, Inr reply)))"

definition grpc_Navigate where
  "grpc_Navigate call bv rd pre now t values sessionID url referer w =
     grpc_relay call bv rd pre now t values sessionID (Navigate url referer) w"

definition grpc_WaitForNavigation where
  "grpc_WaitForNavigation call bv rd pre now t values sessionID waitUntil timeoutMs w =
     grpc_relay call bv rd pre now t values sessionID (WaitForNavigation waitUntil timeoutMs) w"

definition nodeMessage :: "node option \<Rightarrow> node option" where
  "nodeMessage found = map_option (\<lambda>n.
     \<lparr>nd_NodeId = nd_NodeId n, nd_LocalName = nd_LocalName n, nd_NodeType = nd_NodeType n,
      nd_Attributes = map (\<lambda>a. \<lparr>at_Name = at_Name a, at_Value = at_Value a\<rparr>) (nd_Attributes n),
      nd_Text = nd_Text n, nd_Html = nd_Html n, nd_X = nd_X n, nd_Y = nd_Y n, nd_Width = nd_Width n, nd_Height = nd_Height n\<rparr>) found"

definition grpc_GetNode where
  "grpc_GetNode call bv rd pre now t values sessionID selector timeoutMs w =
     (case grpc_relay call bv rd pre now t values sessionID (GetNode selector timeoutMs) w of
        (w', Inr (Found n)) \<Rightarrow> (w', Inr (Found (nodeMessage n))) | other \<Rightarrow> other)"

definition grpc_HumanMouseMove where
  "grpc_HumanMouseMove call bv rd pre now t values sessionID x y selector w =
     grpc_relay call bv rd pre now t values sessionID (HumanMouseMove x y selector) w"

definition grpc_HumanMouseClick where
  "grpc_HumanMouseClick call bv rd pre now t values sessionID x y selector button clicks delayMs w =
     grpc_relay call bv rd pre now t values sessionID (HumanMouseClick x y selector button clicks delayMs) w"

definition grpc_HumanType where
  "grpc_HumanType call bv rd pre now t values sessionID typed selector delayMinMs delayMaxMs w =
     grpc_relay call bv rd pre now t values sessionID (HumanType typed selector delayMinMs delayMaxMs) w"

definition grpc_HumanScrollY where
  "grpc_HumanScrollY call bv rd pre now t values sessionID deltaY w =
     grpc_relay call bv rd pre now t values sessionID (HumanScrollY deltaY) w"

definition grpc_HumanScrollYTo where
  "grpc_HumanScrollYTo call bv rd pre now t values sessionID selector align w =
     grpc_relay call bv rd pre now t values sessionID (HumanScrollYTo selector align) w"

text \<open>The jar is copied field by field between the two contracts.\<close>

definition publicCookies :: "pb_cookie list \<Rightarrow> pb_cookie list" where
  "publicCookies jar = map (\<lambda>c.
     \<lparr>pc_Name = pc_Name c, pc_Value = pc_Value c, pc_Domain = pc_Domain c, pc_Path = pc_Path c, pc_Expires = pc_Expires c,
      pc_Secure = pc_Secure c, pc_HttpOnly = pc_HttpOnly c, pc_SameSite = pc_SameSite c\<rparr>) jar"

definition grpc_GetCookies where
  "grpc_GetCookies call bv rd pre now t values sessionID w =
     (case grpc_relay call bv rd pre now t values sessionID GetCookies w of
        (w', Inr (Jar jar)) \<Rightarrow> (w', Inr (Jar (publicCookies jar))) | other \<Rightarrow> other)"

definition grpc_SetCookies where
  "grpc_SetCookies call bv rd pre now t values sessionID jar w =
     grpc_relay call bv rd pre now t values sessionID (SetCookies (publicCookies jar)) w"

definition grpc_OpenSession ::
  "letters \<Rightarrow> catalog \<Rightarrow> string result \<Rightarrow> 'b browser_process \<Rightarrow> ('s, doc) redis \<Rightarrow> string \<Rightarrow> time \<Rightarrow> time \<Rightarrow> string list
     \<Rightarrow> string \<Rightarrow> string \<Rightarrow> bool \<Rightarrow> ('s, 'b) bworld \<Rightarrow> ('s, 'b) bworld \<times> (grpc_status + bsession)"
where
  "grpc_OpenSession lt cat seed bv rd pre now t values browser profileID loadStorage w =
     (case identify rd pre (bw_cache w) t values of
        Inl st \<Rightarrow> (w, Inl st)
      | Inr i \<Rightarrow>
          (case driver_Open lt cat seed bv rd pre now t (eid_OrganizationID i)
                  \<lparr>ob_Browser = browser, ob_ProfileID = profileID, ob_LoadStorage = loadStorage,
                   ob_AppID = eid_AppID i, ob_ExecutionID = eid_ExecutionID i\<rparr> w of
             (w', Inl e) \<Rightarrow> (w', Inl (statusOf e)) | (w', Inr r) \<Rightarrow> (w', Inr r)))"

definition grpc_CloseSession ::
  "'b browser_process \<Rightarrow> ('s, doc) redis \<Rightarrow> string \<Rightarrow> time \<Rightarrow> time \<Rightarrow> string list \<Rightarrow> string \<Rightarrow> bool \<Rightarrow> ('s, 'b) bworld
     \<Rightarrow> ('s, 'b) bworld \<times> grpc_status option"
where
  "grpc_CloseSession bv rd pre now t values sessionID saveStorage w =
     (case identify rd pre (bw_cache w) t values of
        Inl st \<Rightarrow> (w, Some st)
      | Inr i \<Rightarrow>
          (case driver_Close bv rd pre now t (eid_OrganizationID i) sessionID saveStorage w of
             (w', err) \<Rightarrow> (w', map_option statusOf err)))"

definition requireLoopback :: "string \<Rightarrow> go_err" where
  "requireLoopback address =
     (case SplitHostPort address of
        None \<Rightarrow> Some (Plain ''browser grpc address must be host:port'')
      | Some (host, port) \<Rightarrow>
          if host = ''localhost'' then None
          else guard (case ParseIP (trim_space host) of None \<Rightarrow> True | Some ip \<Rightarrow> \<not> IsLoopback ip)
                 (Plain ''browser grpc address must be on loopback''))"

section \<open>The commands over HTTP\<close>

definition browsersDriveable :: "bool \<Rightarrow> problem option" where
  "browsersDriveable driver = (if driver then None else Some (503, ''browser_sessions_unavailable''))"

definition api_driving ::
  "bool \<Rightarrow> 'b browser_process \<Rightarrow> ('s, doc) redis \<Rightarrow> string \<Rightarrow> time \<Rightarrow> time \<Rightarrow> principal \<Rightarrow> string \<Rightarrow> ('s, 'b) bworld
     \<Rightarrow> ('s, 'b) bworld \<times> problem option"
where
  "api_driving driver bv rd pre now t p sessionID w =
     (case browsersDriveable driver of
        Some pr \<Rightarrow> (w, Some pr)
      | None \<Rightarrow>
          (case driver_Driving bv rd pre now t (pr_OrganizationID p) sessionID w of
             (w', err) \<Rightarrow> (w', map_option writeError err)))"

definition writeCommandError :: "call_error \<Rightarrow> problem" where
  "writeCommandError e =
     (case e of
        Unanswered m \<Rightarrow> (502, ''browser_unreachable'')
      | Answered c m \<Rightarrow>
          (case c of
             CodeNotFound \<Rightarrow> (404, ''browser_element_not_found'')
           | CodeInvalidArgument \<Rightarrow> invalidRequest
           | CodeDeadlineExceeded \<Rightarrow> (504, ''browser_timed_out'')
           | CodeUnimplemented \<Rightarrow> (501, ''browser_command_unsupported'')
           | c \<Rightarrow> (502, ''browser_failed'')))"

text \<open>What is refused before anything is authorized, then the relay.\<close>

definition api_relay ::
  "bool \<Rightarrow> 'b caller \<Rightarrow> 'b browser_process \<Rightarrow> ('s, doc) redis \<Rightarrow> string \<Rightarrow> time \<Rightarrow> time \<Rightarrow> principal \<Rightarrow> string
     \<Rightarrow> (problem + command) \<Rightarrow> ('s, 'b) bworld \<Rightarrow> ('s, 'b) bworld \<times> (problem + reply)"
where
  "api_relay driver call bv rd pre now t p sessionID wanted w =
     (case wanted of
        Inl pr \<Rightarrow> (w, Inl pr)
      | Inr cmd \<Rightarrow>
          (case api_driving driver bv rd pre now t p sessionID w of
             (w', Some pr) \<Rightarrow> (w', Inl pr)
           | (w', None) \<Rightarrow>
               (case call (bw_browsers w') sessionID cmd of
                  (b, Inl e) \<Rightarrow> (w'\<lparr>bw_browsers := b\<rparr>, Inl (writeCommandError e))
                | (b, Inr reply) \<Rightarrow> (w'\<lparr>bw_browsers := b\<rparr>, Inr reply))))"

definition parse_enum :: "letters \<Rightarrow> (string \<times> nat) list \<Rightarrow> string \<Rightarrow> problem + nat" where
  "parse_enum lt names v =
     (case map_of names (ToLower lt (trim_space v)) of None \<Rightarrow> Inl invalidRequest | Some n \<Rightarrow> Inr n)"

text \<open>The numbers are those of the enumerations WaitUntil, MouseButton and ScrollAlign.\<close>

definition parseWaitUntil :: "letters \<Rightarrow> (string \<Rightarrow> nat) \<Rightarrow> string \<Rightarrow> problem + nat" where
  "parseWaitUntil lt num v =
     parse_enum lt [([], num ''load''), (''load'', num ''load''), (''commit'', num ''commit''),
       (''dom_content_loaded'', num ''dom_content_loaded''), (''network_almost_idle'', num ''network_almost_idle''),
       (''network_idle'', num ''network_idle'')] v"

definition parseMouseButton :: "letters \<Rightarrow> (string \<Rightarrow> nat) \<Rightarrow> string \<Rightarrow> problem + nat" where
  "parseMouseButton lt num v =
     parse_enum lt [([], num ''left''), (''left'', num ''left''), (''middle'', num ''middle''), (''right'', num ''right''),
       (''back'', num ''back''), (''forward'', num ''forward'')] v"

definition parseScrollAlign :: "letters \<Rightarrow> (string \<Rightarrow> nat) \<Rightarrow> string \<Rightarrow> problem + nat" where
  "parseScrollAlign lt num v =
     parse_enum lt [([], num ''center''), (''center'', num ''center''), (''top'', num ''top''), (''bottom'', num ''bottom'')] v"

definition queryMilliseconds :: "string \<Rightarrow> problem + 32 word" where
  "queryMilliseconds raw0 =
     (let raw = trim_space raw0 in
      if raw = [] then Inr 0
      else case parse_uint32 raw of None \<Rightarrow> Inl invalidQuery | Some n \<Rightarrow> Inr n)"

definition aimed :: "f64 option \<Rightarrow> f64 option \<Rightarrow> string \<Rightarrow> bool" where
  "aimed x y selector \<longleftrightarrow> trim_space selector \<noteq> [] \<or> (x \<noteq> None \<and> y \<noteq> None)"

definition map_ok :: "('a \<Rightarrow> 'b) \<Rightarrow> problem + 'a \<Rightarrow> problem + 'b" where
  "map_ok f r = (case r of Inl p \<Rightarrow> Inl p | Inr x \<Rightarrow> Inr (f x))"

definition api_navigate where
  "api_navigate driver call bv rd pre now t p sessionID url referer w =
     api_relay driver call bv rd pre now t p sessionID
       (if trim_space url = [] then Inl invalidRequest else Inr (Navigate url referer)) w"

definition api_waitForNavigation where
  "api_waitForNavigation lt num driver call bv rd pre now t p sessionID waitUntil timeoutMs w =
     api_relay driver call bv rd pre now t p sessionID
       (map_ok (\<lambda>n. WaitForNavigation n timeoutMs) (parseWaitUntil lt num waitUntil)) w"

definition api_getNode where
  "api_getNode driver call bv rd pre now t p sessionID selector0 timeout w =
     (let selector = trim_space selector0 in
      api_relay driver call bv rd pre now t p sessionID
        (if selector = [] then Inl invalidQuery else map_ok (GetNode selector) (queryMilliseconds timeout)) w)"

definition api_moveMouse where
  "api_moveMouse driver call bv rd pre now t p sessionID x y selector w =
     api_relay driver call bv rd pre now t p sessionID
       (if aimed x y selector then Inr (HumanMouseMove x y selector) else Inl invalidRequest) w"

definition api_clickMouse where
  "api_clickMouse lt num driver call bv rd pre now t p sessionID x y selector button clicks delayMs w =
     api_relay driver call bv rd pre now t p sessionID
       (map_ok (\<lambda>b. HumanMouseClick x y selector b clicks delayMs) (parseMouseButton lt num button)) w"

definition api_type where
  "api_type driver call bv rd pre now t p sessionID typed selector delayMinMs delayMaxMs w =
     api_relay driver call bv rd pre now t p sessionID
       (if typed = [] then Inl invalidRequest else Inr (HumanType typed selector delayMinMs delayMaxMs)) w"

definition api_scroll where
  "api_scroll driver call bv rd pre now t p sessionID deltaY w =
     api_relay driver call bv rd pre now t p sessionID (Inr (HumanScrollY deltaY)) w"

definition api_scrollTo where
  "api_scrollTo lt num driver call bv rd pre now t p sessionID selector align w =
     api_relay driver call bv rd pre now t p sessionID
       (if trim_space selector = [] then Inl invalidRequest
        else map_ok (HumanScrollYTo selector) (parseScrollAlign lt num align)) w"

definition api_getCookies where
  "api_getCookies driver call bv rd pre now t p sessionID w =
     (case api_relay driver call bv rd pre now t p sessionID (Inr GetCookies) w of
        (w', Inr (Jar jar)) \<Rightarrow> (w', Inr (DomainCookies jar)) | (w', Inr r) \<Rightarrow> (w', Inr []) | (w', Inl pr) \<Rightarrow> (w', Inl pr))"

definition api_setCookies where
  "api_setCookies driver call bv rd pre now t p sessionID jar w =
     api_relay driver call bv rd pre now t p sessionID (Inr (SetCookies (ServiceCookies jar))) w"

definition api_openSession where
  "api_openSession driver lt cat seed bv rd pre now t p browser profileID loadStorage w =
     (case browsersDriveable driver of
        Some pr \<Rightarrow> (w, Inl pr)
      | None \<Rightarrow>
          (case driver_Open lt cat seed bv rd pre now t (pr_OrganizationID p)
                  \<lparr>ob_Browser = browser, ob_ProfileID = profileID, ob_LoadStorage = loadStorage, ob_AppID = [], ob_ExecutionID = []\<rparr> w of
             (w', Inl e) \<Rightarrow> (w', Inl (writeError e)) | (w', Inr r) \<Rightarrow> (w', Inr r)))"

text \<open>\<open>strconv.ParseBool\<close> on an optional query parameter.\<close>

definition queryFlag :: "string \<Rightarrow> problem + bool" where
  "queryFlag raw0 =
     (let raw = trim_space raw0 in
      if raw = [] then Inr False
      else if raw \<in> set [''1'', ''t'', ''T'', ''true'', ''TRUE'', ''True''] then Inr True
      else if raw \<in> set [''0'', ''f'', ''F'', ''false'', ''FALSE'', ''False''] then Inr False
      else Inl invalidQuery)"

definition api_closeSession where
  "api_closeSession driver bv rd pre now t p sessionID flag w =
     (case queryFlag flag of
        Inl pr \<Rightarrow> (w, Some pr)
      | Inr saveStorage \<Rightarrow>
          if driver then
            (case driver_Close bv rd pre now t (pr_OrganizationID p) sessionID saveStorage w of
               (w', err) \<Rightarrow> (w', map_option writeError err))
          else if saveStorage then (w, Some invalidRequest)
          else (case bsvc_Close rd pre (bw_cache w) t (bw_cache w) t (pr_OrganizationID p) sessionID of
                  (s', err) \<Rightarrow> (w\<lparr>bw_cache := s'\<rparr>, map_option writeError err)))"

section \<open>The supervisor\<close>

text \<open>
  The child process: whether it has exited, which is the system's to know, and whether
  \<open>Wait\<close> has been called and has filled in its \<open>ProcessState\<close>.
\<close>

record process =
  ps_exited :: bool
  ps_waited :: bool

record supervisor =
  sv_executable :: string
  sv_command :: "process option"
  sv_connection :: bool
  sv_address :: string

definition NewSupervisor :: "string \<Rightarrow> supervisor" where
  "NewSupervisor executable =
     \<lparr>sv_executable = trim_space executable, sv_command = None, sv_connection = False, sv_address = []\<rparr>"

definition alive :: "supervisor \<Rightarrow> bool" where
  "alive sv = (case sv_command sv of None \<Rightarrow> False | Some p \<Rightarrow> \<not> ps_waited p)"

text \<open>The answers of the system while the service is started: the port, the process, the listener, the connection.\<close>

record start_env =
  se_port :: "string result"
  se_spawn :: go_err
  se_listen :: go_err
  se_dial :: go_err

definition sup_start :: "start_env \<Rightarrow> supervisor \<Rightarrow> supervisor \<times> go_err" where
  "sup_start env sv0 =
     (let sv = sv0\<lparr>sv_connection := False\<rparr> in
      case se_port env of
        Inl e \<Rightarrow> (sv, Some e)
      | Inr port \<Rightarrow>
          (case first_err [map_option (annotate ''start browser service'') (se_spawn env), se_listen env,
                           map_option (annotate ''dial browser service'') (se_dial env)] of
             Some e \<Rightarrow> (sv, Some e)
           | None \<Rightarrow>
               (sv\<lparr>sv_command := Some \<lparr>ps_exited = False, ps_waited = False\<rparr>, sv_connection := True,
                   sv_address := ''127.0.0.1:'' @ port\<rparr>, None)))"

definition sup_Client :: "start_env \<Rightarrow> supervisor \<Rightarrow> supervisor \<times> go_err" where
  "sup_Client env sv =
     (if sv_executable sv = [] then (sv, Some (Plain ''no browser service is configured''))
      else if sv_connection sv \<and> alive sv then (sv, None)
      else sup_start env sv)"

definition sup_Close :: "supervisor \<Rightarrow> supervisor" where
  "sup_Close sv = sv\<lparr>sv_connection := False, sv_command := None\<rparr>"

text \<open>
  The probes of \<open>waitForListener\<close>: whether the dial succeeded, the time after it, and whether the
  context ended while waiting. \<open>None\<close>: the probes given do not decide it yet.
\<close>

fun waitForListener :: "time \<Rightarrow> string \<Rightarrow> (bool \<times> time \<times> go_err) list \<Rightarrow> go_err option" where
  "waitForListener deadline address [] = None"
| "waitForListener deadline address ((dialled, now, ctx) # probes) =
     (if dialled then Some None
      else if deadline < now then Some (Some (Plain (''browser service did not listen on '' @ address)))
      else case ctx of Some e \<Rightarrow> Some (Some e) | None \<Rightarrow> waitForListener deadline address probes)"

definition browser_variables :: "string list" where
  "browser_variables =
     [''PATH'', ''PATHEXT'', ''SYSTEMDRIVE'', ''SYSTEMROOT'', ''WINDIR'', ''TEMP'', ''TMP'', ''TMPDIR'', ''HOME'', ''USERPROFILE'',
      ''LOCALAPPDATA'', ''LANG'', ''LC_ALL'', ''DISPLAY'', ''XAUTHORITY'', ''SSL_CERT_FILE'', ''SSL_CERT_DIR'', ''NEURUN_CHROME_PATH'']"

definition browserEnvironment :: "(string \<Rightarrow> string option) \<Rightarrow> string list" where
  "browserEnvironment lookup =
     List.map_filter (\<lambda>name. map_option (\<lambda>v. name @ ''='' @ v) (lookup name)) browser_variables"

section \<open>Properties\<close>

lemma driver_Driving_None:
  assumes "driver_Driving bv rd pre now t o1 i w = (w', None)"
  shows "\<exists>r. bsrepo_Get rd pre (bw_cache w) t o1 i = Inr r"
  using assms by (auto simp: driver_Driving_def bsvc_Touch_def renew_def split: sum.splits prod.splits option.splits)

lemma driver_Driving_absent:
  assumes "bsrepo_Get rd pre (bw_cache w) t o1 i = Inl e"
  shows "driver_Driving bv rd pre now t o1 i w = (w, Some (Bare Browser_ErrSessionNotFound))"
  using assms by (simp add: driver_Driving_def bsvc_Touch_def renew_def)

text \<open>
  C19: a handler drives only the browsers of its own organization. Along any history of the cache,
  a command that got an answer from the browser service carried a token that resolves, and
  named a live session that was opened by the organization the token stands for; with a token
  of another organization the answer is that there is no such session, and the browsers
  are not asked.
\<close>

theorem commands_scoped:
  assumes "redis_laws rd holds" and "session_run rd pre s0 t0 H (bw_cache w) t"
    and "\<And>k t'. session_key k \<Longrightarrow> t0 \<le> t' \<Longrightarrow> holds s0 t' (PrefixedKey pre k) = None"
    and "tok_Resolve rd pre (bw_cache w) t token = Inr i" and "valid_id (eid_OrganizationID i)"
  shows "(\<forall>w' reply. grpc_relay call bv rd pre now t [token] sessionID cmd w = (w', Inr reply) \<longrightarrow>
           (\<exists>r. bsrepo_Get rd pre (bw_cache w) t (eid_OrganizationID i) sessionID = Inr r
              \<and> bs_OrganizationID r = eid_OrganizationID i \<and> bs_ID r = sessionID))
    \<and> (\<forall>o1 r. valid_id o1 \<longrightarrow> bsrepo_Get rd pre (bw_cache w) t o1 sessionID = Inr r \<longrightarrow> bs_OrganizationID r = o1)
    \<and> (\<forall>e. bsrepo_Get rd pre (bw_cache w) t (eid_OrganizationID i) sessionID = Inl e \<longrightarrow>
           grpc_relay call bv rd pre now t [token] sessionID cmd w = (w, Inl (CodeNotFound, ''browser session not found'')))"
proof -
  have sound: "sound_at (held holds pre) s0 t0" using assms(3) by (auto simp: sound_at_def held_def)
  then have "sound_at (held holds pre) (bw_cache w) t" using session_run_sound [OF assms(2,1)] by auto
  note scope = Get_sound [OF redis_store [OF assms(1)] this]
  have who: "identify rd pre (bw_cache w) t [token] = Inr i" using assms(4) by (simp add: identify_def)
  show ?thesis
  proof (intro conjI allI impI)
    fix w' reply
    assume "grpc_relay call bv rd pre now t [token] sessionID cmd w = (w', Inr reply)"
    then obtain w1 where "driver_Driving bv rd pre now t (eid_OrganizationID i) sessionID w = (w1, None)"
      using who by (auto simp: grpc_relay_def grpc_driving_def split: prod.splits option.splits)
    then show "\<exists>r. bsrepo_Get rd pre (bw_cache w) t (eid_OrganizationID i) sessionID = Inr r
        \<and> bs_OrganizationID r = eid_OrganizationID i \<and> bs_ID r = sessionID"
      using driver_Driving_None scope [OF assms(5)] by blast
  next
    fix e
    assume "bsrepo_Get rd pre (bw_cache w) t (eid_OrganizationID i) sessionID = Inl e"
    then show "grpc_relay call bv rd pre now t [token] sessionID cmd w = (w, Inl (CodeNotFound, ''browser session not found''))"
      using who by (simp add: grpc_relay_def grpc_driving_def driver_Driving_absent statusOf_def Bare_def)
  qed (use scope in blast)
qed

definition sample_caller :: "string list caller" where
  "sample_caller b i cmd = (b, Inr Done)"

lemma not_session_key [simp]: "\<not> session_key (executionTokenKey token)"
  by (simp add: session_key_def executionTokenKey_def has_prefix_def)

lemma token_key_not_session [simp]: "executionTokenKey token \<noteq> browserSessionKey o1 i"
  by (metis not_session_key session_key_of)

theorem commands_scoped_witness:
  "\<exists>w token i w' r. tok_Resolve memory_server [] (bw_cache w) 0 token = Inr i
     \<and> grpc_relay sample_caller sample_browsers memory_server [] 7 0 [token] ''bsn_1'' GetCookies w = (w', Inr Done)
     \<and> bsrepo_Get memory_server [] (bw_cache w) 0 (eid_OrganizationID i) ''bsn_1'' = Inr r
     \<and> bs_OrganizationID r = eid_OrganizationID i"
proof -
  let ?i = "\<lparr>eid_OrganizationID = ''org_1'', eid_AppID = ''app_1'', eid_ExecutionID = ''exe_1''\<rparr>"
  let ?token = "EncodeToString (replicate 32 7)"
  let ?e = "(executionTokenKey ?token, identity_doc ?i, Some sessionTTL)"
  let ?w = "\<lparr>bw_cache = sample_entries @ [?e], bw_db = sample_bdb, bw_browsers = [''bsn_1'']\<rparr>"
  have set: "rc_Set memory_server [] [] 0 (executionTokenKey ?token) (identity_doc ?i) sessionTTL = ([?e], None)"
    by (simp add: rc_Set_def PrefixedKey_def memory_server_def sessionTTL_def second_def)
  have "valid_utf8 (trim_space ''bsn_1'')" "valid_utf8 (trim_space ''127.0.0.1:9222'')" by code_simp+
  then have "request_text (oq_SessionID sample_open) sample_open" by (simp add: request_text_def sample_open_def)
  from session_run.adopted [OF session_run.other_set [OF session_run.start not_session_key set] sample_profile_ids(2) this sample_adopted]
  have run: "session_run memory_server [] [] 0 {(sample_entries @ [?e], 0), ([?e], 0), ([], 0)} (bw_cache ?w) 0" by simp
  have read: "read_identity (identity_doc ?i) = Inr ?i" by (simp add: read_identity_doc ascii_sanitize byte_val_def)
  have who: "tok_Resolve memory_server [] (bw_cache ?w) 0 ?token = Inr ?i"
    using read by (simp add: tok_Resolve_plain [OF refl] rc_Get_def PrefixedKey_def memory_server_def sample_entries_def seen_at_def
        sessionTTL_def second_def)
  have json: "json_session sample_session = sample_session"
    by (simp add: json_session_def sample_session_def ascii_sanitize byte_val_def BrowserChrome_def SessionLive_def)
  have get: "bsrepo_Get memory_server [] (bw_cache ?w) 0 ''org_1'' ''bsn_1'' = Inr sample_session"
    using json by (simp add: bsrepo_Get_def rc_Get_def PrefixedKey_def memory_server_def sample_entries_def seen_at_def sessionTTL_def second_def)
  have "bsession_Validate (sample_session\<lparr>bs_UpdatedAt := 7\<rparr>) = None"
    by (simp add: bsession_Validate_def sample_session_def browser_Valid_def bsession_status_Valid_def is_zero_def)
  then have "\<exists>s' r. bsvc_Touch memory_server [] 7 (bw_cache ?w) 0 (bw_cache ?w) 0 ''org_1'' ''bsn_1'' = (s', Inr r)"
    using get by (simp add: bsvc_Touch_def renew_def bsrepo_Save_def json_year_def second_def sample_session_def rc_Set_def memory_server_def)
  then obtain w' where relay: "grpc_relay sample_caller sample_browsers memory_server [] 7 0 [?token] ''bsn_1'' GetCookies ?w = (w', Inr Done)"
    using who by (auto simp: grpc_relay_def grpc_driving_def identify_def driver_Driving_def sample_browsers_def sample_caller_def)
  have org: "valid_id (eid_OrganizationID ?i)" using sample_profile_ids(2) by simp
  have "seen_at [] t' (PrefixedKey [] k) = None" for t' k by (simp add: seen_at_def)
  from commands_scoped [OF memory.redis_laws_axioms run this who org]
  obtain r where "bsrepo_Get memory_server [] (bw_cache ?w) 0 (eid_OrganizationID ?i) ''bsn_1'' = Inr r" "bs_OrganizationID r = eid_OrganizationID ?i"
    using relay by blast
  then show ?thesis using relay who
    by (intro exI [of _ ?w] exI [of _ ?token] exI [of _ ?i] exI [of _ w'] exI [of _ r] conjI)
qed

text \<open>
  The calls of a running control plane on its supervisor, with the child exiting at any moment.
\<close>

inductive sup_run :: "supervisor \<Rightarrow> supervisor \<Rightarrow> bool" where
  still: "sup_run sv sv"
| asked: "sup_run sv sv1 \<Longrightarrow> sup_Client env sv1 = (sv2, err) \<Longrightarrow> sup_run sv sv2"
| crashed: "sup_run sv sv1 \<Longrightarrow> sv_command sv1 = Some p \<Longrightarrow> sup_run sv (sv1\<lparr>sv_command := Some (p\<lparr>ps_exited := True\<rparr>)\<rparr>)"

text \<open>
  C22: a browser service that has died is never replaced. Once a started service has exited, every
  later request for a client gets the connection to the dead process and no error, for as
  long as the control plane runs, because nothing waits for the child and so its
  \<open>ProcessState\<close> stays nil.
\<close>

theorem dead_service_never_restarted:
  assumes "sup_start env sv0 = (sv1, None)" and "sv_executable sv0 \<noteq> []"
    and "sv_command sv1 = Some p" and "sup_run (sv1\<lparr>sv_command := Some (p\<lparr>ps_exited := True\<rparr>)\<rparr>) sv"
  shows "sup_Client env' sv = (sv, None) \<and> (\<exists>q. sv_command sv = Some q \<and> ps_exited q) \<and> sv_address sv = sv_address sv1"
proof -
  have p: "\<not> ps_waited p" "sv_connection sv1" "sv_executable sv1 \<noteq> []"
    using assms(1-3) by (auto simp: sup_start_def split: sum.splits option.splits)
  have "sv_connection sv \<and> sv_executable sv \<noteq> [] \<and> sv_address sv = sv_address sv1
      \<and> (\<exists>q. sv_command sv = Some q \<and> ps_exited q \<and> \<not> ps_waited q)"
    using assms(4)
  proof (induction "sv1\<lparr>sv_command := Some (p\<lparr>ps_exited := True\<rparr>)\<rparr>" sv rule: sup_run.induct)
    case still
    then show ?case using p by simp
  next
    case (asked sv2 env2 sv3 err)
    then have "alive sv2" by (auto simp: alive_def)
    then show ?case using asked by (auto simp: sup_Client_def)
  qed auto
  then show ?thesis by (auto simp: sup_Client_def alive_def)
qed

theorem dead_service_never_restarted_witness:
  "\<exists>sv1 p. sup_start \<lparr>se_port = Inr ''9222'', se_spawn = None, se_listen = None, se_dial = None\<rparr> (NewSupervisor ''/bin/browser'') = (sv1, None)
     \<and> sv_command sv1 = Some p \<and> \<not> ps_exited p
     \<and> (\<forall>env'. sup_Client env' (sv1\<lparr>sv_command := Some (p\<lparr>ps_exited := True\<rparr>)\<rparr>) = (sv1\<lparr>sv_command := Some (p\<lparr>ps_exited := True\<rparr>)\<rparr>, None))"
proof -
  let ?env = "\<lparr>se_port = Inr ''9222'', se_spawn = None, se_listen = None, se_dial = None\<rparr>" and ?sv = "NewSupervisor ''/bin/browser''"
  have "trim_space ''/bin/browser'' \<noteq> []" by code_simp
  then have exe: "sv_executable ?sv \<noteq> []" by (simp add: NewSupervisor_def)
  obtain sv1 p where s: "sup_start ?env ?sv = (sv1, None)" "sv_command sv1 = Some p" "\<not> ps_exited p" by (simp add: sup_start_def)
  from dead_service_never_restarted [OF s(1) exe s(2) sup_run.still] show ?thesis using s by blast
qed

end
