(* ===== verification/GitHubCatalog.thy ===== *)
theory GitHubCatalog
  imports GitHub
begin

text \<open>
  What an installation may read (internal/github/catalog.go and the operations of
  internal/service/github.go over it): listing repositories and branches page by page, and the
  installation of an app.
\<close>

section \<open>Pages\<close>

definition pageSize :: nat where "pageSize = 100"

definition maxPages :: nat where "maxPages = 10"

text \<open>
  The loop both listings share. A page answers its items and the number of the next page, zero
  when it is the last; the first argument counts the pages left.
\<close>

fun list_pages :: "nat \<Rightarrow> (nat \<Rightarrow> ('a list \<times> nat) answer) \<Rightarrow> nat \<Rightarrow> 'a list \<Rightarrow> 'a list result" where
  "list_pages 0 fetch page acc = Inr acc"
| "list_pages (Suc n) fetch page acc =
     (case answered (fetch page) of
        Inl e \<Rightarrow> Inl e
      | Inr (items, following) \<Rightarrow> if following = 0 then Inr (acc @ items) else list_pages n fetch following (acc @ items))"

record repository =
  rp_FullName :: string
  rp_DefaultBranch :: string
  rp_Private :: bool

definition Repositories ::
  "ghclient \<Rightarrow> (int \<Rightarrow> nat \<Rightarrow> (repository list \<times> nat) answer) \<Rightarrow> int \<Rightarrow> repository list result"
where
  "Repositories cl repos installationID =
     check (gc_transport cl installationID) (list_pages maxPages (repos installationID) 0 [])"

definition Branches ::
  "ghclient \<Rightarrow> (int \<Rightarrow> repo_name \<Rightarrow> nat \<Rightarrow> (string list \<times> nat) answer) \<Rightarrow> int \<Rightarrow> repo_name \<Rightarrow> string list result"
where
  "Branches cl branches installationID r =
     check (gc_transport cl installationID) (list_pages maxPages (branches installationID r) 0 [])"

definition ghsvc_Repositories where
  "ghsvc_Repositories client repos seen organizationID =
     configured client (\<lambda>cl.
       rbind (ByOrganization seen organizationID) (\<lambda>i. Repositories cl repos (ins_InstallationID i)))"

definition ghsvc_Branches where
  "ghsvc_Branches client branches seen organizationID repository =
     configured client (\<lambda>cl.
       rbind (ParseRepo repository) (\<lambda>parsed.
         rbind (ByOrganization seen organizationID) (\<lambda>i. Branches cl branches (ins_InstallationID i) parsed)))"

section \<open>The installation of an app\<close>

definition ByApp :: "gdb \<Rightarrow> string \<Rightarrow> installation result" where
  "ByApp g appID =
     (if \<not> texts [appID] then Inl (Plain ''read installation'')
      else case List.map_filter (\<lambda>a.
             if app_ID a = appID
             then (case project_view (pd_projects (gh_db g)) (app_ProjectID a) of
                     None \<Rightarrow> None
                   | Some organizationID \<Rightarrow> find (\<lambda>i. ins_OrganizationID i = organizationID) (gh_installations g))
             else None) (pd_apps (gh_db g)) of
        [i] \<Rightarrow> Inr i | [] \<Rightarrow> Inl (Bare Github_ErrNoInstallation) | i # is \<Rightarrow> Inl (Plain ''read installation: too many rows''))"

section \<open>Bounds\<close>

text \<open>However many pages the service offers, a listing takes what at most ten of them hold.\<close>

lemma list_pages_bounded:
  assumes "list_pages n fetch page acc = Inr xs" and "\<And>p items following. fetch p = Inr (items, following) \<Longrightarrow> length items \<le> k"
  shows "length xs \<le> length acc + n * k"
  using assms(1)
proof (induction n arbitrary: page acc)
  case (Suc n)
  then obtain items following where f: "fetch page = Inr (items, following)"
    by (auto simp: answered_def split: sum.splits)
  then have k: "length items \<le> k" using assms(2) by blast
  show ?case
  proof (cases "following = 0")
    case False
    then have "list_pages n fetch following (acc @ items) = Inr xs" using Suc.prems f by (simp add: answered_def)
    then show ?thesis using Suc.IH k by fastforce
  qed (use Suc.prems f k in \<open>auto simp: answered_def\<close>)
qed simp

lemma Repositories_bounded:
  assumes "Repositories cl repos installationID = Inr rs"
    and "\<And>p items following. repos installationID p = Inr (items, following) \<Longrightarrow> length items \<le> pageSize"
  shows "length rs \<le> 1000"
  using assms list_pages_bounded [of maxPages "repos installationID" 0 "[]" rs pageSize]
  by (auto simp: Repositories_def maxPages_def pageSize_def)

end
