(* ===== verification/FileStore.thy ===== *)
theory FileStore
  imports CopyHash Builds
begin

text \<open>
  \<open>internal/repository/file\<close>: the interface of the artifact stores (\<open>file.go\<close>) as a locale,
  and the local store (\<open>local.go\<close>) that implements it. A file system maps the components of
  absolute paths to nodes; a store owns the directory \<open>root\<close>.
\<close>

section \<open>The interface\<close>

record info =
  info_storageKey :: string
  info_sizeBytes :: nat
  info_sha256 :: string

text \<open>
  \<open>Repository\<close>: \<open>Put\<close> is create-only, \<open>Open\<close> returns what was put, and no operation touches another
  key. \<open>content\<close> is what the store holds. A put that failed may still have stored its object,
  whole: a remote store's answer can be lost.
\<close>

locale write_once_store =
  fixes put :: "'s \<Rightarrow> string \<Rightarrow> reader \<Rightarrow> int \<Rightarrow> 's \<times> info result"
    and get :: "'s \<Rightarrow> string \<Rightarrow> 's \<times> (string \<times> info) result"
    and content :: "'s \<Rightarrow> string \<Rightarrow> string option"
    and ok :: "'s \<Rightarrow> bool"
  assumes put_ok: "ok s \<Longrightarrow> put s k src m = (s', Inr i) \<Longrightarrow>
      ok s' \<and> content s k = None \<and> content s' = (content s)(k \<mapsto> reader_bytes src)
      \<and> info_sizeBytes i = length (reader_bytes src) \<and> info_sha256 i = sha256_hex (reader_bytes src)"
    and put_error: "ok s \<Longrightarrow> put s k src m = (s', Inl e) \<Longrightarrow>
      ok s' \<and> (content s' = content s \<or> content s k = None \<and> content s' = (content s)(k \<mapsto> reader_bytes src))"
    and get_ok: "ok s \<Longrightarrow> get s k = (s', Inr (b, i)) \<Longrightarrow>
      ok s' \<and> content s' = content s \<and> content s k = Some b \<and> info_sizeBytes i = length b"
    and get_error: "ok s \<Longrightarrow> get s k = (s', Inl e) \<Longrightarrow> ok s' \<and> content s' = content s"
begin

inductive use :: "'s \<Rightarrow> 's \<Rightarrow> bool" where
  use_put: "put s k src m = (s', r) \<Longrightarrow> use s s'"
| use_get: "get s k = (s', r') \<Longrightarrow> use s s'"

text \<open>Without a delete an object never changes, whatever else is put or read.\<close>

lemma use_step: "use s s' \<Longrightarrow> ok s \<Longrightarrow> ok s' \<and> content s \<subseteq>\<^sub>m content s'"
proof (induction rule: use.induct)
  case (use_put s k src m s' r)
  then show ?case using put_ok [of s k src m s'] put_error [of s k src m s']
    by (cases r) (auto simp: map_le_def)
next
  case (use_get s k s' r')
  show ?case
  proof (cases r')
    case (Inr p)
    then show ?thesis using use_get get_ok [of s k s' "fst p" "snd p"] by (cases p) auto
  next
    case (Inl e)
    then show ?thesis using use_get get_error [of s k s' e] by simp
  qed
qed

lemma immutable:
  assumes "use\<^sup>*\<^sup>* s s'" and "ok s" and "content s k = Some b" and "get s' k = (s'', Inr (b', i))"
  shows "b' = b \<and> info_sizeBytes i = length b"
proof -
  have "ok s' \<and> content s \<subseteq>\<^sub>m content s'"
    using assms(1,2) by (induction rule: rtranclp_induct) (auto dest: use_step intro: map_le_trans)
  then have "content s' k = Some b" "ok s'"
    using assms(3) by (auto simp: map_le_def dom_def)
  then show ?thesis using get_ok [OF _ assms(4)] by auto
qed

end

text \<open>A store that also deletes, and where a delete that failed deleted nothing.\<close>

locale blob_store = write_once_store put get content ok
  for put :: "'s \<Rightarrow> string \<Rightarrow> reader \<Rightarrow> int \<Rightarrow> 's \<times> info result"
    and get :: "'s \<Rightarrow> string \<Rightarrow> 's \<times> (string \<times> info) result"
    and del :: "'s \<Rightarrow> string \<Rightarrow> 's \<times> go_err"
    and content :: "'s \<Rightarrow> string \<Rightarrow> string option"
    and ok :: "'s \<Rightarrow> bool" +
  assumes del_ok: "ok s \<Longrightarrow> del s k = (s', None) \<Longrightarrow> ok s' \<and> content s' = (content s)(k := None)"
    and del_error: "ok s \<Longrightarrow> del s k = (s', Some e) \<Longrightarrow> ok s' \<and> content s' = content s"

text \<open>A store whose \<open>Open\<close> also tells the digest of what it returns.\<close>

locale described_store = blob_store put get del content ok
  for put :: "'s \<Rightarrow> string \<Rightarrow> reader \<Rightarrow> int \<Rightarrow> 's \<times> info result"
    and get :: "'s \<Rightarrow> string \<Rightarrow> 's \<times> (string \<times> info) result"
    and del :: "'s \<Rightarrow> string \<Rightarrow> 's \<times> go_err"
    and content :: "'s \<Rightarrow> string \<Rightarrow> string option"
    and ok :: "'s \<Rightarrow> bool" +
  assumes get_digest: "ok s \<Longrightarrow> get s k = (s', Inr (b, i)) \<Longrightarrow> info_sha256 i = sha256_hex b"
begin

text \<open>What \<open>Put\<close> reported is what every later \<open>Open\<close> reports.\<close>

lemma same_description:
  assumes "ok s" and "put s k src m = (s1, Inr i)" and "use\<^sup>*\<^sup>* s1 s2" and "get s2 k = (s3, Inr (b, j))"
  shows "b = reader_bytes src \<and> info_sizeBytes j = info_sizeBytes i \<and> info_sha256 j = info_sha256 i"
proof -
  note p = put_ok [OF assms(1,2)]
  then have "content s1 k = Some (reader_bytes src)" "ok s1" by auto
  from immutable [OF assms(3) this(2,1) assms(4)] have b: "b = reader_bytes src" "info_sizeBytes j = length b"
    by simp_all
  have "ok s2" using assms(3) \<open>ok s1\<close> by (induction rule: rtranclp_induct) (auto dest: use_step)
  from get_digest [OF this assms(4)] show ?thesis using b p by simp
qed

end

section \<open>The file system\<close>

datatype node = RegFile string | Directory | Special

type_synonym fsys = "string list \<Rightarrow> node option"

text \<open>\<open>os.MkdirAll\<close>: an ancestor that is not a directory stops it before anything is made.\<close>

definition mkdir_all :: "fsys \<Rightarrow> string list \<Rightarrow> fsys option" where
  "mkdir_all fs p =
     (if list_ex (\<lambda>i. fs (take i p) \<noteq> None \<and> fs (take i p) \<noteq> Some Directory) [0..<Suc (length p)]
      then None
      else Some (\<lambda>q. if q \<in> set (map (\<lambda>i. take i p) [0..<Suc (length p)]) then Some Directory else fs q))"

text \<open>
  What the environment decides during an operation: the context, the room on the disk, the
  name \<open>os.CreateTemp\<close> chooses, and whether protecting, syncing or closing the temporary
  file fails.
\<close>

record store_env =
  env_ctx :: "nat \<Rightarrow> go_err"
  env_room :: "nat option"
  env_tmp :: string
  env_sync :: go_err

record local_state =
  lo_root :: string
  lo_fs :: fsys

section \<open>The local store\<close>

definition local_path :: "string \<Rightarrow> string \<Rightarrow> string result" where
  "local_path root key =
     (if root = [] then Inl (Plain ''artifact: local store is not configured'')
      else check (ValidateStorageKey key)
        (let target = filepath_join root key in
         case filepath_rel root target of
           None \<Rightarrow> Inl (wrapf Build_ErrInvalidStorageKey ''key escapes local storage'')
         | Some relative \<Rightarrow>
             if relative = ''..'' \<or> has_prefix relative (''..'' @ [sl])
             then Inl (wrapf Build_ErrInvalidStorageKey ''key escapes local storage'')
             else Inr target))"

definition local_publish ::
  "store_env \<Rightarrow> local_state \<Rightarrow> string \<Rightarrow> string list \<Rightarrow> reader \<Rightarrow> int \<Rightarrow> fsys \<Rightarrow> local_state \<times> info result"
where
  "local_publish env st key target source maxBytes fs =
     (let tmp = butlast target @ [env_tmp env] in
      if fs tmp \<noteq> None
      then (st\<lparr>lo_fs := fs\<rparr>, Inl (Plain ''artifact: create temporary object''))
      else case CopyAndHashContext (env_ctx env) \<lparr>wr_bytes = [], wr_room = env_room env\<rparr> source maxBytes of
        (res, copyErr, w) \<Rightarrow>
          (let fs' = fs(tmp \<mapsto> RegFile (wr_bytes w)) in
           case (case copyErr of Some e \<Rightarrow> Some e | None \<Rightarrow> env_sync env) of
             Some e \<Rightarrow> (st\<lparr>lo_fs := fs'(tmp := None)\<rparr>, Inl e)
           | None \<Rightarrow>
               if fs' target \<noteq> None
               then (st\<lparr>lo_fs := fs'(tmp := None)\<rparr>, Inl (wrapf File_ErrExists key))
               else (st\<lparr>lo_fs := (fs'(target \<mapsto> RegFile (wr_bytes w)))(tmp := None)\<rparr>,
                     Inr \<lparr>info_storageKey = key, info_sizeBytes = cr_SizeBytes res,
                          info_sha256 = cr_SHA256 res\<rparr>)))"

definition local_Put ::
  "store_env \<Rightarrow> local_state \<Rightarrow> string \<Rightarrow> reader \<Rightarrow> int \<Rightarrow> local_state \<times> info result"
where
  "local_Put env st key source maxBytes =
     (case local_path (lo_root st) key of
        Inl e \<Rightarrow> (st, Inl e)
      | Inr target \<Rightarrow>
          if maxBytes < 0 then (st, Inl (Plain ''artifact: byte limit cannot be negative''))
          else case env_ctx env 0 of
            Some e \<Rightarrow> (st, Inl e)
          | None \<Rightarrow>
              (case mkdir_all (lo_fs st) (butlast (path_parts target)) of
                 None \<Rightarrow> (st, Inl (Plain ''artifact: create object directory''))
               | Some fs \<Rightarrow> local_publish env st key (path_parts target) source maxBytes fs))"

definition local_Open ::
  "store_env \<Rightarrow> local_state \<Rightarrow> string \<Rightarrow> local_state \<times> (string \<times> info) result"
where
  "local_Open env st key =
     (st,
      case local_path (lo_root st) key of
        Inl e \<Rightarrow> Inl e
      | Inr target \<Rightarrow>
          (case env_ctx env 0 of
             Some e \<Rightarrow> Inl e
           | None \<Rightarrow>
               let t = path_parts target in
               if list_ex (\<lambda>i. lo_fs st (take i t) \<noteq> None \<and> lo_fs st (take i t) \<noteq> Some Directory)
                    [0..<length t]
               then Inl (Plain ''artifact: open local object'')
               else case lo_fs st t of
                 None \<Rightarrow> Inl (wrapf File_ErrNotFound key)
               | Some (RegFile bytes) \<Rightarrow>
                   (case CopyAndHashContext (env_ctx env) \<lparr>wr_bytes = [], wr_room = None\<rparr>
                           [(bytes, None)] (int (length bytes)) of
                      (res, err, w) \<Rightarrow>
                        (case err of
                           Some e \<Rightarrow> Inl (annotate ''artifact: hash local object'' e)
                         | None \<Rightarrow>
                             Inr (bytes, \<lparr>info_storageKey = key, info_sizeBytes = cr_SizeBytes res,
                                          info_sha256 = cr_SHA256 res\<rparr>)))
               | Some _ \<Rightarrow> Inl (Plain (''artifact: object '' @ key @ '' is not a regular file''))))"

text \<open>\<open>os.Remove\<close> also removes a directory, when it is empty; \<open>empty_dir\<close> says whether one is.\<close>

definition local_Delete ::
  "store_env \<Rightarrow> (string list \<Rightarrow> bool) \<Rightarrow> local_state \<Rightarrow> string \<Rightarrow> local_state \<times> go_err"
where
  "local_Delete env empty_dir st key =
     (case local_path (lo_root st) key of
        Inl e \<Rightarrow> (st, Some e)
      | Inr target \<Rightarrow>
          (case env_ctx env 0 of
             Some e \<Rightarrow> (st, Some e)
           | None \<Rightarrow>
               let t = path_parts target in
               case lo_fs st t of
                 None \<Rightarrow> (st, Some (wrapf File_ErrNotFound key))
               | Some Directory \<Rightarrow>
                   if empty_dir t then (st\<lparr>lo_fs := (lo_fs st)(t := None)\<rparr>, None)
                   else (st, Some (Plain ''artifact: delete local object''))
               | Some _ \<Rightarrow> (st\<lparr>lo_fs := (lo_fs st)(t := None)\<rparr>, None)))"

section \<open>The local store implements the interface\<close>

definition local_ok :: "local_state \<Rightarrow> bool" where
  "local_ok st \<longleftrightarrow> (\<exists>cs. lo_root st = abs_path cs \<and> list_all normal_component cs)"

definition local_content :: "local_state \<Rightarrow> string \<Rightarrow> string option" where
  "local_content st key =
     (case local_path (lo_root st) key of
        Inl e \<Rightarrow> None
      | Inr target \<Rightarrow>
          (case lo_fs st (path_parts target) of Some (RegFile b) \<Rightarrow> Some b | _ \<Rightarrow> None))"

text \<open>The object of a key lies below the root, at the components of the key.\<close>

lemma local_path_below:
  assumes cs: "list_all normal_component cs" and key: "ValidateStorageKey key = None"
  shows "local_path (abs_path cs) key = Inr (abs_path (cs @ split_on sl key))
    \<and> path_parts (abs_path (cs @ split_on sl key)) = cs @ split_on sl key"
proof -
  let ?ps = "split_on sl key"
  have ps: "list_all normal_component ?ps" "?ps \<noteq> []" using storage_key_components [OF key] by simp_all
  have join: "filepath_join (abs_path cs) key = abs_path (cs @ ?ps)"
    using filepath_join_abs [OF cs ps(2,1)] by simp
  have rel: "filepath_rel (abs_path cs) (abs_path (cs @ ?ps)) = Some key"
    using filepath_rel_below [OF cs ps(2,1)] by simp
  have "key \<noteq> ''..''" "\<not> has_prefix key (''..'' @ [sl])"
  proof -
    show "key \<noteq> ''..''" using ps(1) by (auto simp: normal_component_def sl_def)
    show "\<not> has_prefix key (''..'' @ [sl])"
    proof
      assume "has_prefix key (''..'' @ [sl])"
      then obtain t where "key = ''..'' @ sl # t" by (auto simp: has_prefix_iff prefix_def)
      then have "split_on sl key = ''..'' # split_on sl t"
        by (simp only: split_on_append_sep) (simp add: sl_def)
      then show False using ps(1) by (simp add: normal_component_def)
    qed
  qed
  then show ?thesis using join rel key cs ps(1)
    by (simp add: local_path_def path_parts_abs_path) (simp add: abs_path_def)
qed

lemma local_path_Inr:
  assumes "local_path root key = Inr t"
  shows "ValidateStorageKey key = None"
  using assms by (auto simp: local_path_def split: if_splits)

lemma local_targets:
  assumes "local_ok st" and "local_path (lo_root st) k = Inr t" and "local_path (lo_root st) k' = Inr t'"
  shows "path_parts t = path_parts t' \<longleftrightarrow> k = k'"
proof -
  obtain cs where cs: "lo_root st = abs_path cs" "list_all normal_component cs"
    using assms(1) by (auto simp: local_ok_def)
  have "path_parts t = cs @ split_on sl k" "path_parts t' = cs @ split_on sl k'"
    using local_path_below [OF cs(2) local_path_Inr [OF assms(2)]]
      local_path_below [OF cs(2) local_path_Inr [OF assms(3)]] assms(2,3) cs(1) by auto
  then show ?thesis by (metis join_split same_append_eq)
qed

text \<open>A change of the file system that keeps every regular file but the one of the key.\<close>

lemma local_content_update:
  assumes "local_ok st" and "local_path (lo_root st) k = Inr t"
    and "\<And>p. p \<noteq> path_parts t \<Longrightarrow>
      (case fs p of Some (RegFile b) \<Rightarrow> Some b | _ \<Rightarrow> None)
        = (case lo_fs st p of Some (RegFile b) \<Rightarrow> Some b | _ \<Rightarrow> None)"
    and "(case fs (path_parts t) of Some (RegFile b) \<Rightarrow> Some b | _ \<Rightarrow> None) = v"
  shows "local_ok (st\<lparr>lo_fs := fs\<rparr>) \<and> local_content (st\<lparr>lo_fs := fs\<rparr>) = (local_content st)(k := v)"
proof
  show "local_ok (st\<lparr>lo_fs := fs\<rparr>)" using assms(1) by (simp add: local_ok_def)
  show "local_content (st\<lparr>lo_fs := fs\<rparr>) = (local_content st)(k := v)"
  proof
    fix k'
    show "local_content (st\<lparr>lo_fs := fs\<rparr>) k' = ((local_content st)(k := v)) k'"
    proof (cases "local_path (lo_root st) k'")
      case (Inl e)
      then show ?thesis using assms(2) by (auto simp: local_content_def)
    next
      case (Inr t')
      then show ?thesis
        using local_targets [OF assms(1,2) Inr] assms(2) assms(3) [of "path_parts t'"] assms(4)
        by (cases "k' = k") (simp_all add: local_content_def)
    qed
  qed
qed

lemma mkdir_all_keeps:
  assumes "mkdir_all fs p = Some fs'"
  shows "(case fs' q of Some (RegFile b) \<Rightarrow> Some b | _ \<Rightarrow> None)
       = (case fs q of Some (RegFile b) \<Rightarrow> Some b | _ \<Rightarrow> None)"
proof -
  have fs': "fs' = (\<lambda>q. if q \<in> set (map (\<lambda>i. take i p) [0..<Suc (length p)]) then Some Directory else fs q)"
    and dirs: "\<not> list_ex (\<lambda>i. fs (take i p) \<noteq> None \<and> fs (take i p) \<noteq> Some Directory) [0..<Suc (length p)]"
    using assms by (auto simp: mkdir_all_def split: if_splits)
  show ?thesis
  proof (cases "q \<in> set (map (\<lambda>i. take i p) [0..<Suc (length p)])")
    case True
    then obtain i where "i \<in> set [0..<Suc (length p)]" "q = take i p" unfolding set_map by blast
    then have "fs q = None \<or> fs q = Some Directory" using dirs by (auto simp: list_ex_iff)
    then show ?thesis using True unfolding fs' by auto
  next
    case False
    then show ?thesis unfolding fs' by simp
  qed
qed

lemma local_publish_laws:
  assumes ok: "local_ok st" and path: "local_path (lo_root st) k = Inr t"
    and mk: "mkdir_all (lo_fs st) (butlast (path_parts t)) = Some fs"
    and pub: "local_publish env st k (path_parts t) src m fs = (st', res)"
  shows "(\<forall>e. res = Inl e \<longrightarrow> local_ok st' \<and> local_content st' = local_content st)
    \<and> (\<forall>i. res = Inr i \<longrightarrow> local_ok st' \<and> local_content st k = None
         \<and> local_content st' = (local_content st)(k \<mapsto> reader_bytes src)
         \<and> info_sizeBytes i = length (reader_bytes src) \<and> info_sha256 i = sha256_hex (reader_bytes src))"
proof -
  note keep = mkdir_all_keeps [OF mk]
  let ?tmp = "butlast (path_parts t) @ [env_tmp env]"
  have same: "local_ok (st\<lparr>lo_fs := fs'\<rparr>) \<and> local_content (st\<lparr>lo_fs := fs'\<rparr>) = local_content st"
    if "\<And>p. (case fs' p of Some (RegFile b) \<Rightarrow> Some b | _ \<Rightarrow> None)
      = (case fs p of Some (RegFile b) \<Rightarrow> Some b | _ \<Rightarrow> None)" for fs'
  proof -
    have "local_content st k = (case fs' (path_parts t) of Some (RegFile b) \<Rightarrow> Some b | _ \<Rightarrow> None)"
      using that keep path by (simp add: local_content_def)
    moreover have "(local_content st)(k := local_content st k) = local_content st" by simp
    ultimately show ?thesis
      using local_content_update [OF ok path, of fs'] that keep by simp
  qed
  obtain r err w where copy: "CopyAndHashContext (env_ctx env) \<lparr>wr_bytes = [], wr_room = env_room env\<rparr> src m = (r, err, w)"
    by (metis prod_cases3)
  show ?thesis
  proof (cases "fs ?tmp = None \<and> err = None \<and> env_sync env = None \<and> (fs(?tmp \<mapsto> RegFile (wr_bytes w))) (path_parts t) = None")
    case True
    note whole = CopyAndHashContext_whole [of "env_ctx env" "env_room env" src m r w] copy True
    have ne: "path_parts t \<noteq> ?tmp" using True by auto
    let ?fs = "(fs(?tmp \<mapsto> RegFile (wr_bytes w), path_parts t \<mapsto> RegFile (wr_bytes w)))(?tmp := None)"
    have "local_content st k = None" using keep [of "path_parts t"] True ne path
      by (simp add: local_content_def)
    moreover have "local_ok (st\<lparr>lo_fs := ?fs\<rparr>) \<and> local_content (st\<lparr>lo_fs := ?fs\<rparr>) = (local_content st)(k := Some (wr_bytes w))"
      using keep keep [of ?tmp] True ne by (intro local_content_update [OF ok path]) auto
    ultimately show ?thesis using pub copy True ne whole by (auto simp: local_publish_def)
  next
    case False
    have drop: "local_ok (st\<lparr>lo_fs := (fs(?tmp \<mapsto> RegFile (wr_bytes w)))(?tmp := None)\<rparr>)
        \<and> local_content (st\<lparr>lo_fs := (fs(?tmp \<mapsto> RegFile (wr_bytes w)))(?tmp := None)\<rparr>) = local_content st"
      if "fs ?tmp = None"
      using that by (intro same) simp
    show ?thesis using False pub copy same [of fs] drop
      by (auto simp: local_publish_def split: if_splits option.splits)
  qed
qed

lemma local_Open_ok:
  assumes "local_Open env st k = (st', Inr (b, i))"
  shows "st' = st \<and> local_content st k = Some b \<and> info_sizeBytes i = length b \<and> info_sha256 i = sha256_hex b"
proof -
  obtain t where t: "local_path (lo_root st) k = Inr t" using assms
    by (auto simp: local_Open_def split: sum.splits)
  obtain bytes where node: "lo_fs st (path_parts t) = Some (RegFile bytes)"
    using assms t by (auto simp: local_Open_def split: option.splits if_splits node.splits)
  obtain r err w where copy: "CopyAndHashContext (env_ctx env) \<lparr>wr_bytes = [], wr_room = None\<rparr> [(bytes, None)] (int (length bytes)) = (r, err, w)"
    by (metis prod_cases3)
  have "st' = st" "b = bytes" "err = None" "info_sizeBytes i = cr_SizeBytes r" "info_sha256 i = cr_SHA256 r"
    using assms t node copy by (auto simp: local_Open_def split: option.splits if_splits)
  then show ?thesis using CopyAndHashContext_whole [of "env_ctx env" None "[(bytes, None)]"] copy t node
    by (auto simp: local_content_def)
qed

interpretation local_store: described_store "local_Put env" "local_Open env" "local_Delete env empty_dir"
    local_content local_ok
  for env empty_dir
proof
  fix s k src m s' i e b
  assume ok: "local_ok s"
  show "local_ok s' \<and> local_content s k = None \<and> local_content s' = (local_content s)(k \<mapsto> reader_bytes src)
      \<and> info_sizeBytes i = length (reader_bytes src) \<and> info_sha256 i = sha256_hex (reader_bytes src)"
    if "local_Put env s k src m = (s', Inr i)"
    using that local_publish_laws [OF ok] by (auto simp: local_Put_def split: sum.splits if_splits option.splits)
  show "local_ok s' \<and> (local_content s' = local_content s
      \<or> local_content s k = None \<and> local_content s' = (local_content s)(k \<mapsto> reader_bytes src))"
    if "local_Put env s k src m = (s', Inl e)"
    using that local_publish_laws [OF ok] ok
    by (fastforce simp: local_Put_def split: sum.splits if_splits option.splits)
  show "local_ok s' \<and> local_content s' = local_content s \<and> local_content s k = Some b \<and> info_sizeBytes i = length b"
    "info_sha256 i = sha256_hex b"
    if "local_Open env s k = (s', Inr (b, i))"
    using local_Open_ok [OF that] ok by simp_all
  show "local_ok s' \<and> local_content s' = local_content s" if "local_Open env s k = (s', Inl e)"
    using that ok by (simp add: local_Open_def)
  show "local_ok s' \<and> local_content s' = (local_content s)(k := None)"
    if del: "local_Delete env empty_dir s k = (s', None)"
  proof -
    obtain t where t: "local_path (lo_root s) k = Inr t" and s': "s' = s\<lparr>lo_fs := (lo_fs s)(path_parts t := None)\<rparr>"
      using del by (auto simp: local_Delete_def split: sum.splits option.splits node.splits if_splits)
    show ?thesis unfolding s' by (rule local_content_update [OF ok t]) simp_all
  qed
  show "local_ok s' \<and> local_content s' = local_content s" if "local_Delete env empty_dir s k = (s', Some e)"
    using that ok by (auto simp: local_Delete_def split: sum.splits option.splits node.splits if_splits)
qed

section \<open>Properties\<close>

text \<open>
  The local store keeps every object inside its directory. For a key it accepts, the
  file of the object lies strictly below the root, at the components of the key, and two
  keys never share a file.
\<close>

lemma local_path_contained:
  assumes "list_all normal_component cs" and "local_path (abs_path cs) key = Inr target"
  shows "target = abs_path (cs @ split_on sl key) \<and> list_all normal_component (split_on sl key)
    \<and> filepath_rel (abs_path cs) target = Some key
    \<and> (\<forall>key'. local_path (abs_path cs) key' = Inr target \<longrightarrow> key' = key)"
proof -
  note key = local_path_Inr [OF assms(2)]
  note below = local_path_below [OF assms(1) key]
  have ps: "split_on sl key \<noteq> []" "list_all normal_component (split_on sl key)"
    using storage_key_components [OF key] by simp_all
  have "key' = key" if "local_path (abs_path cs) key' = Inr target" for key'
    using local_targets [of "\<lparr>lo_root = abs_path cs, lo_fs = \<lambda>p. None\<rparr>" key target key' target] assms that
    by (auto simp: local_ok_def)
  moreover have t: "target = abs_path (cs @ split_on sl key)" using below assms(2) by simp
  moreover have "filepath_rel (abs_path cs) target = Some key"
    unfolding t filepath_rel_below [OF assms(1) ps] by simp
  ultimately show ?thesis using ps(2) by blast
qed

lemma sample_key:
  "ValidateStorageKey ''bld_1/art_2.zip'' = None" "split_on sl ''bld_1/art_2.zip'' = [''bld_1'', ''art_2.zip'']"
proof -
  have "ValidateStorageKey (join_with [sl] [''bld_1'', ''art_2.zip'']) = None"
    by (rule valid_storage_keyI) (simp_all add: normal_component_def sl_def byte_val_def)
  then show "ValidateStorageKey ''bld_1/art_2.zip'' = None" by (simp add: sl_def)
qed (simp add: sl_def)

text \<open>
  C28: an object of the local store is immutable. Once a \<open>Put\<close> succeeded, and after any
  further puts and opens, an \<open>Open\<close> that succeeds returns the bytes that were put, with the
  size and SHA-256 digest \<open>Put\<close> reported.
\<close>

theorem local_store_immutable:
  assumes "local_ok s" and "local_Put env s key src maxBytes = (s1, Inr i)"
    and "(local_store.use env)\<^sup>*\<^sup>* s1 s2" and "local_Open env s2 key = (s3, Inr (bytes, j))"
  shows "bytes = reader_bytes src \<and> info_sizeBytes j = info_sizeBytes i \<and> info_sha256 j = info_sha256 i
    \<and> info_sha256 i = sha256_hex bytes"
  using local_store.same_description [OF assms] local_Open_ok [OF assms(4)] by auto

definition sample_env :: store_env where
  "sample_env = \<lparr>env_ctx = (\<lambda>k. None), env_room = None, env_tmp = ''.neurun-upload-1'', env_sync = None\<rparr>"

definition sample_local :: local_state where
  "sample_local = \<lparr>lo_root = abs_path [''data''], lo_fs = [[] \<mapsto> Directory, [''data''] \<mapsto> Directory]\<rparr>"

lemma sample_local_ok: "local_ok sample_local"
  by (auto simp: local_ok_def sample_local_def normal_component_def sl_def intro!: exI [of _ "[''data'']"])

lemma sample_local_path:
  "local_path (lo_root sample_local) ''bld_1/art_2.zip'' = Inr (abs_path [''data'', ''bld_1'', ''art_2.zip''])"
  "path_parts (abs_path [''data'', ''bld_1'', ''art_2.zip'']) = [''data'', ''bld_1'', ''art_2.zip'']"
proof -
  have cs: "list_all normal_component [''data'']" by (simp add: normal_component_def sl_def)
  from local_path_below [OF cs sample_key(1)]
  show "local_path (lo_root sample_local) ''bld_1/art_2.zip'' = Inr (abs_path [''data'', ''bld_1'', ''art_2.zip''])"
    "path_parts (abs_path [''data'', ''bld_1'', ''art_2.zip'']) = [''data'', ''bld_1'', ''art_2.zip'']"
    unfolding sample_key(2) by (simp_all add: sample_local_def)
qed

lemma copy_abc:
  "CopyAndHashContext (\<lambda>k. None) \<lparr>wr_bytes = [], wr_room = None\<rparr> [(''abc'', None)] 3
     = (\<lparr>cr_SizeBytes = 3, cr_SHA256 = sha256_hex ''abc''\<rparr>, None, \<lparr>wr_bytes = ''abc'', wr_room = None\<rparr>)"
  by (simp add: CopyAndHashContext_def copy_loop.simps copy_step_def copy_chunk_def copy_probe_def
      copyBufferSize_def write_all_def copy_outcome_def read_error_def)

lemma sample_local_Put:
  "\<exists>s. local_Put sample_env sample_local ''bld_1/art_2.zip'' [(''abc'', None)] 3
     = (s, Inr \<lparr>info_storageKey = ''bld_1/art_2.zip'', info_sizeBytes = 3, info_sha256 = sha256_hex ''abc''\<rparr>)
     \<and> local_Open sample_env s ''bld_1/art_2.zip''
       = (s, Inr (''abc'', \<lparr>info_storageKey = ''bld_1/art_2.zip'', info_sizeBytes = 3, info_sha256 = sha256_hex ''abc''\<rparr>))"
  unfolding local_Put_def sample_local_path sum.case
  by (simp add: sample_env_def sample_local_path mkdir_all_def local_publish_def copy_abc local_Open_def)
     (simp add: sample_local_def sample_local_path [unfolded sample_local_def, simplified] copy_abc)

theorem local_store_immutable_witness:
  "\<exists>s bytes j. local_Put sample_env sample_local ''bld_1/art_2.zip'' [(''abc'', None)] 3
       = (s, Inr \<lparr>info_storageKey = ''bld_1/art_2.zip'', info_sizeBytes = 3, info_sha256 = sha256_hex ''abc''\<rparr>)
     \<and> local_Open sample_env s ''bld_1/art_2.zip'' = (s, Inr (bytes, j)) \<and> bytes = ''abc''"
proof -
  obtain s j where s: "local_Put sample_env sample_local ''bld_1/art_2.zip'' [(''abc'', None)] 3
       = (s, Inr \<lparr>info_storageKey = ''bld_1/art_2.zip'', info_sizeBytes = 3, info_sha256 = sha256_hex ''abc''\<rparr>)"
    "local_Open sample_env s ''bld_1/art_2.zip'' = (s, Inr (''abc'', j))"
    using sample_local_Put by blast
  from local_store_immutable [OF sample_local_ok s(1) rtranclp.rtrancl_refl s(2)] s show ?thesis by simp
qed

end
