(* ===== verification/Cache.thy ===== *)
theory Cache
  imports FileStore
begin

text \<open>
  \<open>internal/repository/file/cache.go\<close>: the read-through cache in front of a remote store.
  The remote is the record of operations \<open>repo\<close> with a state of its own; the copies are a
  map from key to bytes, which the path of a key makes them. Every failure of the cache
  directory is swallowed, so the environment decides which writes and removals work.
\<close>

record 'r repo =
  rp_put :: "'r \<Rightarrow> string \<Rightarrow> reader \<Rightarrow> int \<Rightarrow> 'r \<times> info result"
  rp_open :: "'r \<Rightarrow> string \<Rightarrow> 'r \<times> (string \<times> info) result"
  rp_delete :: "'r \<Rightarrow> string \<Rightarrow> 'r \<times> go_err"

record cacheEntry =
  ent_key :: string
  ent_size :: int
  ent_used :: "64 word"

record 'r cache =
  ca_remote :: 'r
  ca_maxBytes :: int
  ca_clock :: "64 word"
  ca_bytes :: int
  ca_entries :: "cacheEntry list"
  ca_files :: "string \<Rightarrow> string option"

record cache_env =
  ce_ctx :: "nat \<Rightarrow> go_err"
  ce_room :: "nat option"
  ce_stage :: go_err
  ce_publish :: bool
  ce_removable :: "string \<Rightarrow> bool"

definition DefaultCacheBytes :: int where
  "DefaultCacheBytes = 8589934592"

section \<open>Accounting\<close>

definition ca_known :: "'r cache \<Rightarrow> string \<Rightarrow> bool" where
  "ca_known c key \<longleftrightarrow> key \<in> ent_key ` set (ca_entries c)"

definition touch :: "'r cache \<Rightarrow> string \<Rightarrow> int \<Rightarrow> 'r cache" where
  "touch c key sz =
     (let now = ca_clock c + 1;
          c' = (if ca_known c key then c
                else c\<lparr>ca_entries := ca_entries c @ [\<lparr>ent_key = key, ent_size = sz, ent_used = 0\<rparr>],
                       ca_bytes := ca_bytes c + sz\<rparr>)
      in c'\<lparr>ca_clock := now,
            ca_entries := map (\<lambda>e. if ent_key e = key then e\<lparr>ent_used := now\<rparr> else e)
              (ca_entries c')\<rparr>)"

definition evict :: "cache_env \<Rightarrow> 'r cache \<Rightarrow> string \<Rightarrow> 'r cache" where
  "evict env c key =
     (if ValidateStorageKey key = None \<and> ca_files c key \<noteq> None \<and> \<not> ce_removable env key then c
      else let c' = (if ValidateStorageKey key = None
                     then c\<lparr>ca_files := (ca_files c)(key := None)\<rparr> else c) in
        case find (\<lambda>e. ent_key e = key) (ca_entries c') of
          None \<Rightarrow> c'
        | Some e \<Rightarrow>
            c'\<lparr>ca_bytes := ca_bytes c' - ent_size e,
               ca_entries := filter (\<lambda>e. ent_key e \<noteq> key) (ca_entries c')\<rparr>)"

text \<open>\<open>trim\<close>: the candidates by last use, evicted while the cache is over its budget.\<close>

fun trim_loop :: "cache_env \<Rightarrow> 'r cache \<Rightarrow> cacheEntry list \<Rightarrow> int \<Rightarrow> 'r cache" where
  "trim_loop env c [] over = c"
| "trim_loop env c (e # es) over =
     (if over \<le> 0 then c else trim_loop env (evict env c (ent_key e)) es (over - ent_size e))"

definition trim :: "cache_env \<Rightarrow> 'r cache \<Rightarrow> 'r cache" where
  "trim env c =
     (if ca_bytes c \<le> ca_maxBytes c then c
      else trim_loop env c (sort_key ent_used (ca_entries c)) (ca_bytes c - ca_maxBytes c))"

section \<open>Operations\<close>

definition hit :: "'r cache \<Rightarrow> string \<Rightarrow> 'r cache \<times> (string \<times> info) option" where
  "hit c key =
     (if ValidateStorageKey key \<noteq> None then (c, None)
      else case ca_files c key of
        None \<Rightarrow> (c, None)
      | Some b \<Rightarrow>
          (touch c key (int (length b)),
           Some (b, \<lparr>info_storageKey = key, info_sizeBytes = length b, info_sha256 = []\<rparr>)))"

definition stage ::
  "cache_env \<Rightarrow> reader \<Rightarrow> int \<Rightarrow> (string \<times> copy_result) result"
where
  "stage env source maxBytes =
     (case ce_stage env of
        Some e \<Rightarrow> Inl e
      | None \<Rightarrow>
          (case CopyAndHashContext (ce_ctx env) \<lparr>wr_bytes = [], wr_room = ce_room env\<rparr> source maxBytes of
             (res, None, w) \<Rightarrow> Inr (wr_bytes w, res)
           | (res, Some e, w) \<Rightarrow> Inl e))"

definition publish :: "cache_env \<Rightarrow> 'r cache \<Rightarrow> string \<Rightarrow> string \<Rightarrow> int \<Rightarrow> 'r cache" where
  "publish env c key staged sz =
     (if ValidateStorageKey key \<noteq> None \<or> \<not> ce_publish env then c
      else trim env (touch (c\<lparr>ca_files := (ca_files c)(key \<mapsto> staged)\<rparr>) key sz))"

text \<open>\<open>fill\<close>, which the group runs once for all who miss the same key at the same time.\<close>

definition fill :: "'r repo \<Rightarrow> cache_env \<Rightarrow> 'r cache \<Rightarrow> string \<Rightarrow> 'r cache \<times> go_err" where
  "fill rp env c key =
     (if ValidateStorageKey key = None \<and> ca_files c key \<noteq> None then (c, None)
      else case rp_open rp (ca_remote c) key of
        (r, Inl e) \<Rightarrow> (c\<lparr>ca_remote := r\<rparr>, Some e)
      | (r, Inr (bytes, i)) \<Rightarrow>
          (case stage env [(bytes, None)] (ca_maxBytes c) of
             Inl e \<Rightarrow> (c\<lparr>ca_remote := r\<rparr>, Some e)
           | Inr (staged, res) \<Rightarrow>
               (publish env (c\<lparr>ca_remote := r\<rparr>) key staged (int (cr_SizeBytes res)), None)))"

definition remote_open ::
  "'r repo \<Rightarrow> 'r cache \<Rightarrow> string \<Rightarrow> 'r cache \<times> (string \<times> info) result"
where
  "remote_open rp c key =
     (case rp_open rp (ca_remote c) key of (r, res) \<Rightarrow> (c\<lparr>ca_remote := r\<rparr>, res))"

definition cache_Open ::
  "'r repo \<Rightarrow> cache_env \<Rightarrow> 'r cache \<Rightarrow> string \<Rightarrow> 'r cache \<times> (string \<times> info) result"
where
  "cache_Open rp env c key =
     (case ValidateStorageKey key of
        Some e \<Rightarrow> (c, Inl e)
      | None \<Rightarrow>
          (case hit c key of
             (c1, Some found) \<Rightarrow> (c1, Inr found)
           | (c1, None) \<Rightarrow>
               (case fill rp env c1 key of
                  (c2, Some e) \<Rightarrow>
                    if errors_is e File_ErrNotFound then (c2, Inl e) else remote_open rp c2 key
                | (c2, None) \<Rightarrow>
                    (case hit c2 key of
                       (c3, Some found) \<Rightarrow> (c3, Inr found)
                     | (c3, None) \<Rightarrow> remote_open rp c3 key))))"

definition cache_Put ::
  "'r repo \<Rightarrow> cache_env \<Rightarrow> 'r cache \<Rightarrow> string \<Rightarrow> reader \<Rightarrow> int \<Rightarrow> 'r cache \<times> info result"
where
  "cache_Put rp env c key source maxBytes =
     (case ValidateStorageKey key of
        Some e \<Rightarrow> (c, Inl e)
      | None \<Rightarrow>
          (case stage env source maxBytes of
             Inl e \<Rightarrow> (c, Inl e)
           | Inr (staged, res) \<Rightarrow>
               (case rp_put rp (ca_remote c) key [(staged, None)] maxBytes of
                  (r, Inl e) \<Rightarrow> (c\<lparr>ca_remote := r\<rparr>, Inl e)
                | (r, Inr i) \<Rightarrow>
                    (publish env (c\<lparr>ca_remote := r\<rparr>) key staged (int (cr_SizeBytes res)), Inr i))))"

definition cache_Delete :: "'r repo \<Rightarrow> cache_env \<Rightarrow> 'r cache \<Rightarrow> string \<Rightarrow> 'r cache \<times> go_err" where
  "cache_Delete rp env c key =
     (case ValidateStorageKey key of
        Some e \<Rightarrow> (c, Some e)
      | None \<Rightarrow>
          (case rp_delete rp (ca_remote c) key of
             (r, Some e) \<Rightarrow> (c\<lparr>ca_remote := r\<rparr>, Some e)
           | (r, None) \<Rightarrow> (evict env (c\<lparr>ca_remote := r\<rparr>) key, None)))"

text \<open>\<open>index\<close>: the walk over what is on disk, as a list of keys and contents, then a trim.\<close>

fun index_loop :: "'r cache \<Rightarrow> (string \<times> string) list \<Rightarrow> 'r cache" where
  "index_loop c [] = c"
| "index_loop c ((key, b) # found) =
     (if ValidateStorageKey key \<noteq> None then index_loop c found
      else index_loop
        (c\<lparr>ca_clock := ca_clock c + 1, ca_bytes := ca_bytes c + int (length b),
           ca_entries := filter (\<lambda>e. ent_key e \<noteq> key) (ca_entries c)
             @ [\<lparr>ent_key = key, ent_size = int (length b), ent_used = ca_clock c + 1\<rparr>],
           ca_files := (ca_files c)(key \<mapsto> b)\<rparr>) found)"

definition NewCache ::
  "'r \<Rightarrow> string \<Rightarrow> int \<Rightarrow> cache_env \<Rightarrow> (string \<times> string) list \<Rightarrow> 'r cache result"
where
  "NewCache remote directory maxBytes env found =
     (if trim_space directory = [] then Inl (Plain ''artifact: cache directory is required'')
      else if maxBytes < 0 then Inl (Plain ''artifact: cache budget cannot be negative'')
      else case ce_stage env of
        Some e \<Rightarrow> Inl (annotate ''artifact: create cache directory'' e)
      | None \<Rightarrow>
          Inr (trim env (index_loop
            \<lparr>ca_remote = remote, ca_maxBytes = (if maxBytes = 0 then DefaultCacheBytes else maxBytes),
             ca_clock = 0, ca_bytes = 0, ca_entries = [], ca_files = (\<lambda>k. None)\<rparr> found)))"

section \<open>The accounting invariant\<close>

text \<open>
  Keys are unique, the byte count is the sum of the entries, no entry is newer than the
  clock, and entries were used at different times.
\<close>

definition cache_ok :: "'r cache \<Rightarrow> bool" where
  "cache_ok c \<longleftrightarrow>
     distinct (map ent_key (ca_entries c)) \<and> ca_bytes c = sum_list (map ent_size (ca_entries c))
     \<and> distinct (map ent_used (ca_entries c)) \<and> (\<forall>e \<in> set (ca_entries c). ent_used e \<le> ca_clock c)"

text \<open>Entries and files without the remote; only \<open>ca_remote\<close> changes when the remote is called.\<close>

lemma cache_ok_remote [simp]:
  "cache_ok (c\<lparr>ca_remote := r\<rparr>) = cache_ok c" "cache_ok (c\<lparr>ca_files := f\<rparr>) = cache_ok c"
  by (simp_all add: cache_ok_def)

lemma touch_new:
  "\<not> ca_known c key \<Longrightarrow>
     touch c key sz = c\<lparr>ca_clock := ca_clock c + 1, ca_bytes := ca_bytes c + sz,
       ca_entries := ca_entries c @ [\<lparr>ent_key = key, ent_size = sz, ent_used = ca_clock c + 1\<rparr>]\<rparr>"
proof -
  assume "\<not> ca_known c key"
  then have "map (\<lambda>e. if ent_key e = key then e\<lparr>ent_used := ca_clock c + 1\<rparr> else e) (ca_entries c) = ca_entries c"
    by (intro map_idI) (auto simp: ca_known_def)
  then show ?thesis using \<open>\<not> ca_known c key\<close> by (simp add: touch_def)
qed

lemma touch_known:
  "ca_known c key \<Longrightarrow>
     touch c key sz = c\<lparr>ca_clock := ca_clock c + 1,
       ca_entries := map (\<lambda>e. if ent_key e = key then e\<lparr>ent_used := ca_clock c + 1\<rparr> else e) (ca_entries c)\<rparr>"
  by (simp add: touch_def)

lemma distinct_used_map:
  assumes "distinct (map ent_key es)" and "distinct (map ent_used es)" and "\<forall>e \<in> set es. ent_used e \<noteq> t"
  shows "distinct (map ent_used (map (\<lambda>e. if ent_key e = key then e\<lparr>ent_used := t\<rparr> else e) es))"
  using assms
proof (induction es)
  case (Cons e es)
  show ?case
  proof (cases "ent_key e = key")
    case True
    then have "map (\<lambda>e. if ent_key e = key then e\<lparr>ent_used := t\<rparr> else e) es = es"
      using Cons.prems(1) by (intro map_idI) (auto simp: image_iff)
    then show ?thesis using Cons True by auto
  next
    case False
    then show ?thesis using Cons by (auto simp: image_iff split: if_splits)
  qed
qed simp

lemma touch_ok:
  assumes "cache_ok c" and later: "ca_clock c < ca_clock c + 1"
  shows "cache_ok (touch c key sz)"
proof -
  show ?thesis
  proof (cases "ca_known c key")
    case True
    have keys: "map ent_key (map (\<lambda>e. if ent_key e = key then e\<lparr>ent_used := ca_clock c + 1\<rparr> else e) (ca_entries c)) = map ent_key (ca_entries c)"
      and sizes: "map ent_size (map (\<lambda>e. if ent_key e = key then e\<lparr>ent_used := ca_clock c + 1\<rparr> else e) (ca_entries c)) = map ent_size (ca_entries c)"
      by simp_all
    have "\<forall>e \<in> set (ca_entries c). ent_used e \<noteq> ca_clock c + 1"
      using assms(1) later by (force simp: cache_ok_def)
    then show ?thesis using assms(1) later distinct_used_map [of "ca_entries c" "ca_clock c + 1" key] keys sizes
      unfolding touch_known [OF True] cache_ok_def by (auto simp del: map_map)
  next
    case False
    then show ?thesis using assms(1) later
      unfolding touch_new [OF False] cache_ok_def by (force simp: ca_known_def)
  qed
qed

lemma evict_cases:
  obtains (kept) "ValidateStorageKey key = None" "ca_files c key \<noteq> None" "\<not> ce_removable env key" "evict env c key = c"
  | (gone) f where "evict env c key = c\<lparr>ca_files := f, ca_bytes := ca_bytes c - sum_list (map ent_size (filter (\<lambda>e. ent_key e = key) (ca_entries c))),
        ca_entries := filter (\<lambda>e. ent_key e \<noteq> key) (ca_entries c)\<rparr>"
      "f = (if ValidateStorageKey key = None then (ca_files c)(key := None) else ca_files c)"
  | (loose) "\<not> distinct (map ent_key (ca_entries c))"
proof (cases "distinct (map ent_key (ca_entries c))")
  case True
  show thesis
  proof (cases "ValidateStorageKey key = None \<and> ca_files c key \<noteq> None \<and> \<not> ce_removable env key")
    case True
    then show thesis using kept by (simp add: evict_def)
  next
    case False
    have found: "sum_list (map ent_size (filter (\<lambda>e. ent_key e = key) es))
        = (case find (\<lambda>e. ent_key e = key) es of None \<Rightarrow> 0 | Some e \<Rightarrow> ent_size e)"
      if "distinct (map ent_key es)" for es
      using that
    proof (induction es)
      case (Cons e es)
      have "filter (\<lambda>x. ent_key x = key) es = []" if "ent_key e = key"
        using that Cons.prems by (auto simp: filter_empty_conv image_iff)
      then show ?case using Cons by (cases "ent_key e = key") simp_all
    qed simp
    have "filter (\<lambda>e. ent_key e \<noteq> key) (ca_entries c) = ca_entries c"
      if "find (\<lambda>e. ent_key e = key) (ca_entries c) = None"
      using that by (auto simp: find_None_iff filter_id_conv)
    then show thesis using gone [of "if ValidateStorageKey key = None then (ca_files c)(key := None) else ca_files c"]
        found [OF True] False
      by (auto simp: evict_def split: option.splits)
  qed
qed (rule loose)

lemma sum_list_filter_split:
  "sum_list (map f (filter P xs)) + sum_list (map f (filter (\<lambda>x. \<not> P x) xs)) = (sum_list (map f xs) :: int)"
  by (induction xs) auto

lemma evict_ok:
  assumes "cache_ok c"
  shows "cache_ok (evict env c key)"
proof (cases rule: evict_cases [where c = c and env = env and key = key])
  case (gone f)
  have "ca_bytes c - sum_list (map ent_size (filter (\<lambda>e. ent_key e = key) (ca_entries c)))
      = sum_list (map ent_size (filter (\<lambda>e. ent_key e \<noteq> key) (ca_entries c)))"
    using assms sum_list_filter_split [of ent_size "\<lambda>e. ent_key e = key" "ca_entries c"]
    by (simp add: cache_ok_def)
  then show ?thesis using assms gone(1) by (auto simp: cache_ok_def distinct_map_filter)
qed (use assms in \<open>auto simp: cache_ok_def\<close>)

lemma evict_remote [simp]: "ca_remote (evict env c key) = ca_remote c"
  "ca_maxBytes (evict env c key) = ca_maxBytes c" "ca_clock (evict env c key) = ca_clock c"
  by (auto simp: evict_def split: option.splits)

lemma touch_remote [simp]: "ca_remote (touch c key sz) = ca_remote c"
  "ca_maxBytes (touch c key sz) = ca_maxBytes c" "ca_files (touch c key sz) = ca_files c"
  by (auto simp: touch_def)

lemma trim_loop_ok: "cache_ok c \<Longrightarrow> cache_ok (trim_loop env c es over)"
  by (induction env c es over rule: trim_loop.induct) (auto simp: evict_ok)

lemma trim_ok: "cache_ok c \<Longrightarrow> cache_ok (trim env c)"
  by (simp add: trim_def trim_loop_ok)

section \<open>The cache implements the interface\<close>

lemma evict_files: "ca_files (evict env c key) \<subseteq>\<^sub>m ca_files c"
  by (auto simp: evict_def map_le_def split: option.splits)

lemma evict_gone:
  "ValidateStorageKey key = None \<Longrightarrow> ce_removable env key \<Longrightarrow>
     ca_files (evict env c key) = (ca_files c)(key := None)"
  by (auto simp: evict_def split: option.splits)

lemma trim_loop_files: "ca_files (trim_loop env c es over) \<subseteq>\<^sub>m ca_files c \<and> ca_remote (trim_loop env c es over) = ca_remote c"
proof (induction env c es over rule: trim_loop.induct)
  case (2 env c e es over)
  then show ?case using map_le_trans [OF _ evict_files [of env c "ent_key e"]] by auto
qed simp

lemma publish_files:
  "ca_files (publish env c key staged sz) \<subseteq>\<^sub>m (ca_files c)(key \<mapsto> staged)
     \<or> ca_files (publish env c key staged sz) = ca_files c"
  using trim_loop_files [of env "touch (c\<lparr>ca_files := (ca_files c)(key \<mapsto> staged)\<rparr>) key sz"]
  by (auto simp: publish_def trim_def)

lemma publish_remote [simp]: "ca_remote (publish env c key staged sz) = ca_remote c"
  using trim_loop_files [of env "touch (c\<lparr>ca_files := (ca_files c)(key \<mapsto> staged)\<rparr>) key sz"]
  by (auto simp: publish_def trim_def)

lemma stage_whole: "stage env source m = Inr (staged, res) \<Longrightarrow> staged = reader_bytes source"
  by (auto simp: stage_def dest: CopyAndHashContext_whole split: option.splits prod.splits)

text \<open>Over any store the cache is again a store; \<open>rp\<close> is the remote as the cache holds it.\<close>

locale cached_writes = write_once_store put get content ok
  for put :: "'s \<Rightarrow> string \<Rightarrow> reader \<Rightarrow> int \<Rightarrow> 's \<times> info result"
    and get :: "'s \<Rightarrow> string \<Rightarrow> 's \<times> (string \<times> info) result"
    and content :: "'s \<Rightarrow> string \<Rightarrow> string option"
    and ok :: "'s \<Rightarrow> bool" +
  fixes env :: cache_env
    and rp :: "'s repo"
  assumes remote [simp]: "rp_put rp = put" "rp_open rp = get"
begin

definition faithful :: "'s cache \<Rightarrow> bool" where
  "faithful c \<longleftrightarrow> ok (ca_remote c) \<and> ca_files c \<subseteq>\<^sub>m content (ca_remote c)"

definition ccontent :: "'s cache \<Rightarrow> string \<Rightarrow> string option" where
  "ccontent c = content (ca_remote c)"

lemma hit_Some:
  "faithful c \<Longrightarrow> hit c key = (c', Some (b, i)) \<Longrightarrow>
     faithful c' \<and> ccontent c' = ccontent c \<and> ccontent c key = Some b \<and> info_sizeBytes i = length b"
  by (auto simp: hit_def faithful_def ccontent_def map_le_def dom_def split: if_splits option.splits)

lemma hit_None: "hit c key = (c', None) \<Longrightarrow> c' = c"
  by (auto simp: hit_def split: if_splits option.splits)

lemma publish_faithful:
  assumes "ok r" and "ca_files c \<subseteq>\<^sub>m content r" and "content r key = Some staged"
  shows "faithful (publish env (c\<lparr>ca_remote := r\<rparr>) key staged sz)"
proof -
  have "(ca_files c)(key \<mapsto> staged) \<subseteq>\<^sub>m content r" using assms(2,3) by (auto simp: map_le_def)
  then show ?thesis
    using assms publish_files [of env "c\<lparr>ca_remote := r\<rparr>" key staged sz] map_le_trans
    by (auto simp: faithful_def)
qed

lemma remote_get:
  assumes "faithful c" and "get (ca_remote c) key = (r, res)"
  shows "faithful (c\<lparr>ca_remote := r\<rparr>) \<and> content r = content (ca_remote c)
    \<and> (\<forall>b i. res = Inr (b, i) \<longrightarrow> content (ca_remote c) key = Some b \<and> info_sizeBytes i = length b)"
proof (cases res)
  case (Inl e)
  then show ?thesis using assms get_error [of "ca_remote c" key r e] by (simp add: faithful_def)
next
  case (Inr p)
  then show ?thesis using assms get_ok [of "ca_remote c" key r "fst p" "snd p"] by (cases p) (auto simp: faithful_def)
qed

lemma fill_keeps:
  assumes "faithful c" and "fill rp env c key = (c', err)"
  shows "faithful c' \<and> ccontent c' = ccontent c"
proof (cases "ValidateStorageKey key = None \<and> ca_files c key \<noteq> None")
  case True
  then show ?thesis using assms by (simp add: fill_def)
next
  case False
  obtain r res where get: "get (ca_remote c) key = (r, res)" by (metis prod.exhaust)
  note rg = remote_get [OF assms(1) get]
  show ?thesis
  proof (cases res)
    case (Inl e)
    then show ?thesis using assms(2) False get rg
      by (auto simp: fill_def ccontent_def split: if_splits)
  next
    case (Inr p)
    show ?thesis
    proof (cases "stage env [(fst p, None)] (ca_maxBytes c)")
      case (Inl e)
      then show ?thesis using assms(2) False get rg Inr
        by (cases p) (auto simp: fill_def ccontent_def split: if_splits)
    next
      case st: (Inr q)
      then have "fst q = fst p" using stage_whole [of env "[(fst p, None)]" _ "fst q" "snd q"] by (cases q) simp
      moreover have "content r key = Some (fst p)" using rg Inr by (cases p) simp
      ultimately have "faithful (publish env (c\<lparr>ca_remote := r\<rparr>) key (fst q) sz)" for sz
        using rg by (intro publish_faithful) (auto simp: faithful_def)
      then show ?thesis using assms(2) False get rg Inr st
        by (cases p; cases q) (auto simp: fill_def ccontent_def split: if_splits)
    qed
  qed
qed

lemma remote_open_laws:
  assumes "faithful c" and "remote_open rp c key = (c', res)"
  shows "faithful c' \<and> ccontent c' = ccontent c
    \<and> (\<forall>b i. res = Inr (b, i) \<longrightarrow> ccontent c key = Some b \<and> info_sizeBytes i = length b)"
  using assms(2) remote_get [OF assms(1)]
  by (auto simp: remote_open_def ccontent_def split: prod.splits)

lemma cache_Open_laws:
  assumes "faithful c" and "cache_Open rp env c key = (c', res)"
  shows "faithful c' \<and> ccontent c' = ccontent c
    \<and> (\<forall>b i. res = Inr (b, i) \<longrightarrow> ccontent c key = Some b \<and> info_sizeBytes i = length b)"
proof (cases "ValidateStorageKey key")
  case (Some e)
  then show ?thesis using assms by (auto simp: cache_Open_def)
next
  case None
  obtain c1 h1 where h1: "hit c key = (c1, h1)" by (metis prod.exhaust)
  show ?thesis
  proof (cases h1)
    case (Some p)
    then show ?thesis using hit_Some [OF assms(1), of key c1 "fst p" "snd p"] h1 assms(2) None
      by (cases p) (auto simp: cache_Open_def)
  next
    case miss: None
    then have c1: "c1 = c" using hit_None h1 by blast
    obtain c2 err where f: "fill rp env c key = (c2, err)" by (metis prod.exhaust)
    note fk = fill_keeps [OF assms(1) f]
    show ?thesis
    proof (cases err)
      case (Some e)
      then show ?thesis using assms(2) None h1 miss c1 f fk remote_open_laws [of c2 key c' res]
        by (auto simp: cache_Open_def split: if_splits)
    next
      case filled: None
      obtain c3 h2 where h2: "hit c2 key = (c3, h2)" by (metis prod.exhaust)
      show ?thesis
      proof (cases h2)
        case (Some p)
        then show ?thesis using hit_Some [of c2 key c3 "fst p" "snd p"] h2 assms(2) None h1 miss c1 f filled fk
          by (cases p) (auto simp: cache_Open_def)
      next
        case again: None
        then show ?thesis
          using hit_None [of c2 key c3] h2 assms(2) None h1 miss c1 f filled fk remote_open_laws [of c2 key c' res]
          by (auto simp: cache_Open_def)
      qed
    qed
  qed
qed

lemma cache_Put_laws:
  assumes "faithful c" and "cache_Put rp env c key src m = (c', res)"
  shows "faithful c'
    \<and> (\<forall>e. res = Inl e \<longrightarrow> ccontent c' = ccontent c
         \<or> ccontent c key = None \<and> ccontent c' = (ccontent c)(key \<mapsto> reader_bytes src))
    \<and> (\<forall>i. res = Inr i \<longrightarrow> ccontent c key = None \<and> ccontent c' = (ccontent c)(key \<mapsto> reader_bytes src)
         \<and> info_sizeBytes i = length (reader_bytes src) \<and> info_sha256 i = sha256_hex (reader_bytes src))"
proof (cases "ValidateStorageKey key = None \<and> (\<exists>q. stage env src m = Inr q)")
  case False
  then show ?thesis using assms by (auto simp: cache_Put_def split: option.splits sum.splits)
next
  case True
  then obtain staged cr where st: "stage env src m = Inr (staged, cr)" and key: "ValidateStorageKey key = None" by auto
  note sw = stage_whole [OF st]
  have okc: "ok (ca_remote c)" "ca_files c \<subseteq>\<^sub>m content (ca_remote c)" using assms(1) by (simp_all add: faithful_def)
  obtain r rr where put: "put (ca_remote c) key [(staged, None)] m = (r, rr)" by (metis prod.exhaust)
  show ?thesis
  proof (cases rr)
    case (Inl e)
    then have p: "ok r" "content r = content (ca_remote c)
        \<or> content (ca_remote c) key = None \<and> content r = (content (ca_remote c))(key \<mapsto> staged)"
      using put_error [OF okc(1), of key "[(staged, None)]" m r e] put by simp_all
    then have "ca_files c \<subseteq>\<^sub>m content r" using okc(2) by (auto simp: map_le_def dom_def)
    then show ?thesis using put assms(2) st key p sw Inl
      by (auto simp: cache_Put_def faithful_def ccontent_def)
  next
    case (Inr i)
    then have p: "ok r" "content (ca_remote c) key = None" "content r = (content (ca_remote c))(key \<mapsto> staged)"
      "info_sizeBytes i = length staged" "info_sha256 i = sha256_hex staged"
      using put_ok [OF okc(1), of key "[(staged, None)]" m r i] put by simp_all
    have "ca_files c \<subseteq>\<^sub>m content r" using okc(2) p(2,3) by (auto simp: map_le_def dom_def)
    then have "faithful (publish env (c\<lparr>ca_remote := r\<rparr>) key staged sz)" for sz
      using p by (intro publish_faithful) auto
    then show ?thesis using put assms(2) st key p sw Inr
      by (auto simp: cache_Put_def ccontent_def)
  qed
qed

end

sublocale cached_writes \<subseteq> cached: write_once_store "cache_Put rp env" "cache_Open rp env" ccontent faithful
proof (unfold_locales, goal_cases)
  case (1 s k src m s' i)
  then show ?case using cache_Put_laws [of s k src m s' "Inr i"] by simp
next
  case (2 s k src m s' e)
  then show ?case using cache_Put_laws [of s k src m s' "Inl e"] by simp
next
  case (3 s k s' b i)
  then show ?case using cache_Open_laws [of s k s' "Inr (b, i)"] by simp
next
  case (4 s k s' e)
  then show ?case using cache_Open_laws [of s k s' "Inl e"] by simp
qed

text \<open>With copies that can be removed, a delete through the cache leaves no copy behind.\<close>

locale cached_store = blob_store put get del content ok + cached_writes put get content ok env rp
  for put :: "'s \<Rightarrow> string \<Rightarrow> reader \<Rightarrow> int \<Rightarrow> 's \<times> info result"
    and get :: "'s \<Rightarrow> string \<Rightarrow> 's \<times> (string \<times> info) result"
    and del :: "'s \<Rightarrow> string \<Rightarrow> 's \<times> go_err"
    and content :: "'s \<Rightarrow> string \<Rightarrow> string option"
    and ok :: "'s \<Rightarrow> bool"
    and env :: cache_env
    and rp :: "'s repo" +
  assumes deleted [simp]: "rp_delete rp = del" and removable: "ce_removable env key"
begin

lemma cache_Delete_laws:
  assumes "faithful c" and "cache_Delete rp env c key = (c', err)"
  shows "faithful c' \<and> (err = None \<longrightarrow> ccontent c' = (ccontent c)(key := None))
    \<and> (err \<noteq> None \<longrightarrow> ccontent c' = ccontent c)"
proof (cases "ValidateStorageKey key")
  case (Some e)
  then show ?thesis using assms by (auto simp: cache_Delete_def)
next
  case None
  obtain r e where d: "del (ca_remote c) key = (r, e)" by (metis prod.exhaust)
  have okc: "ok (ca_remote c)" "ca_files c \<subseteq>\<^sub>m content (ca_remote c)" using assms(1) by (simp_all add: faithful_def)
  show ?thesis
  proof (cases e)
    case err: (Some x)
    then show ?thesis using del_error [OF okc(1), of key r x] d None assms(2) okc
      by (auto simp: cache_Delete_def faithful_def ccontent_def)
  next
    case fine: None
    then have r: "ok r \<and> content r = (content (ca_remote c))(key := None)"
      using del_ok [OF okc(1), of key r] d by simp
    then have "(ca_files c)(key := None) \<subseteq>\<^sub>m content r" using okc(2) by (auto simp: map_le_def dom_def)
    then show ?thesis using r d None fine assms(2) evict_gone [OF None removable, of "c\<lparr>ca_remote := r\<rparr>"]
      by (auto simp: cache_Delete_def faithful_def ccontent_def)
  qed
qed

end

sublocale cached_store \<subseteq> cached: blob_store "cache_Put rp env" "cache_Open rp env" "cache_Delete rp env"
    ccontent faithful
proof (unfold_locales, goal_cases)
  case (1 s k s')
  then show ?case using cache_Delete_laws [of s k s' None] by simp
next
  case (2 s k s' e)
  then show ?case using cache_Delete_laws [of s k s' "Some e"] by simp
qed

definition local_repo :: "store_env \<Rightarrow> (string list \<Rightarrow> bool) \<Rightarrow> local_state repo" where
  "local_repo env empty_dir =
     \<lparr>rp_put = local_Put env, rp_open = local_Open env, rp_delete = local_Delete env empty_dir\<rparr>"

interpretation local_cache: cached_store "local_Put env" "local_Open env" "local_Delete env empty_dir"
    local_content local_ok "cenv\<lparr>ce_removable := \<lambda>k. True\<rparr>" "local_repo env empty_dir"
  for env empty_dir cenv
  by unfold_locales (simp_all add: local_repo_def)

section \<open>Eviction\<close>

text \<open>
  With copies that can be removed, the loop over the candidates evicts the first \<open>n\<close> of
  them, no more than needed.
\<close>

lemma evict_removable:
  assumes "cache_ok c" and "ce_removable env (ent_key e)" and "e \<in> set (ca_entries c)"
  shows "set (ca_entries (evict env c (ent_key e))) = set (ca_entries c) - {e}
    \<and> ca_bytes (evict env c (ent_key e)) = ca_bytes c - ent_size e"
proof -
  have d: "distinct (map ent_key (ca_entries c))" using assms(1) by (simp add: cache_ok_def)
  then have same: "x = e" if "x \<in> set (ca_entries c)" "ent_key x = ent_key e" for x
    using that assms(3) by (auto simp: distinct_map dest: inj_onD)
  obtain x where "find (\<lambda>x. ent_key x = ent_key e) (ca_entries c) = Some x"
    using assms(3) by (cases "find (\<lambda>x. ent_key x = ent_key e) (ca_entries c)") (auto simp: find_None_iff)
  moreover from this have "x = e" using same by (auto simp: find_Some_iff)
  ultimately show ?thesis using assms(2) same by (auto simp: evict_def)
qed

lemma trim_loop_drop:
  assumes "\<And>k. ce_removable env k" and "cache_ok c" and "distinct es" and "set (ca_entries c) = set es"
    and "over = ca_bytes c - ca_maxBytes c" and "0 \<le> ca_maxBytes c"
  shows "\<exists>n. set (ca_entries (trim_loop env c es over)) = set (drop n es)
    \<and> ca_bytes (trim_loop env c es over) = sum_list (map ent_size (drop n es))
    \<and> sum_list (map ent_size (drop n es)) \<le> ca_maxBytes c
    \<and> (\<forall>m < n. ca_maxBytes c < sum_list (map ent_size (drop m es)))"
  using assms(2-6)
proof (induction es arbitrary: c over)
  case Nil
  then show ?case by (auto simp: cache_ok_def)
next
  case (Cons e es)
  have sum: "ca_bytes c = sum_list (map ent_size (e # es))"
  proof -
    have d: "distinct (ca_entries c)" "distinct (e # es)"
      using Cons.prems(1,2) by (simp_all add: cache_ok_def distinct_map)
    show ?thesis using Cons.prems(1,3) unfolding cache_ok_def
      by (simp only: sum_list_distinct_conv_sum_set [OF d(1)] sum_list_distinct_conv_sum_set [OF d(2)])
  qed
  show ?case
  proof (cases "over \<le> 0")
    case True
    then show ?thesis using Cons.prems sum by (intro exI [of _ 0]) simp
  next
    case False
    let ?c = "evict env c (ent_key e)"
    have ev: "set (ca_entries ?c) = set es" "ca_bytes ?c = ca_bytes c - ent_size e" "ca_maxBytes ?c = ca_maxBytes c"
      using evict_removable [OF Cons.prems(1) assms(1), of e] Cons.prems(2,3) by auto
    obtain n where n: "set (ca_entries (trim_loop env ?c es (over - ent_size e))) = set (drop n es)"
      "ca_bytes (trim_loop env ?c es (over - ent_size e)) = sum_list (map ent_size (drop n es))"
      "sum_list (map ent_size (drop n es)) \<le> ca_maxBytes c"
      "\<forall>m < n. ca_maxBytes c < sum_list (map ent_size (drop m es))"
    proof -
      have "cache_ok ?c" using evict_ok [OF Cons.prems(1)] by blast
      then show ?thesis
        using Cons.IH [of ?c "over - ent_size e"] ev Cons.prems that by auto
    qed
    have "ca_maxBytes c < sum_list (map ent_size (drop m (e # es)))" if "m < Suc n" for m
      using that n(4) False sum Cons.prems(4) by (cases m) auto
    then show ?thesis using n False by (intro exI [of _ "Suc n"]) simp
  qed
qed

section \<open>Properties\<close>

text \<open>
  The cache stays inside its budget and evicts the least recently used first. When
  copies can be removed, \<open>trim\<close> leaves at most \<open>maxBytes\<close> accounted for; everything it kept
  was used later than everything it evicted, and with one entry fewer evicted the budget
  would have been exceeded.
\<close>

lemma trim_least_recently_used:
  assumes "cache_ok c" and "\<And>k. ce_removable env k" and "0 \<le> ca_maxBytes c"
  shows "cache_ok (trim env c) \<and> ca_bytes (trim env c) \<le> ca_maxBytes c
    \<and> (\<exists>n. set (ca_entries (trim env c)) = set (drop n (sort_key ent_used (ca_entries c)))
        \<and> (\<forall>m < n. ca_maxBytes c < sum_list (map ent_size (drop m (sort_key ent_used (ca_entries c)))))
        \<and> (\<forall>e \<in> set (take n (sort_key ent_used (ca_entries c))). \<forall>k \<in> set (ca_entries (trim env c)).
             ent_used e < ent_used k))"
proof -
  let ?es = "sort_key ent_used (ca_entries c)"
  have d: "distinct ?es" "distinct (map ent_used ?es)"
    using assms(1) by (auto simp: cache_ok_def distinct_map)
  have older: "ent_used e < ent_used k" if "e \<in> set (take n ?es)" "k \<in> set (drop n ?es)" for n e k
  proof -
    have "sorted (map ent_used (take n ?es @ drop n ?es))" "distinct (map ent_used (take n ?es @ drop n ?es))"
      using d(2) by simp_all
    then have "ent_used e \<le> ent_used k" "ent_used e \<noteq> ent_used k"
      using that unfolding map_append sorted_append distinct_append by auto
    then show ?thesis by simp
  qed
  have "\<exists>n. set (ca_entries (trim env c)) = set (drop n ?es) \<and> ca_bytes (trim env c) \<le> ca_maxBytes c
    \<and> (\<forall>m < n. ca_maxBytes c < sum_list (map ent_size (drop m ?es)))"
  proof (cases "ca_bytes c \<le> ca_maxBytes c")
    case True
    then show ?thesis by (intro exI [of _ 0]) (simp add: trim_def)
  next
    case False
    then show ?thesis using trim_loop_drop [OF assms(2,1) d(1), of "ca_bytes c - ca_maxBytes c"] assms(3)
      by (auto simp: trim_def)
  qed
  then show ?thesis using trim_ok [OF assms(1)] older by metis
qed

text \<open>
  The cache is transparent. In front of the local store, what a successful \<open>Put\<close>
  through the cache stored is what every successful \<open>Open\<close> through the cache returns, after
  any further puts and opens through it, with copies lost, filled and evicted on the way.
\<close>

lemma cache_transparent:
  assumes "local_cache.faithful c"
    and "cache_Put (local_repo env empty_dir) (cenv\<lparr>ce_removable := \<lambda>k. True\<rparr>) c key src m = (c1, Inr i)"
    and "(local_cache.cached.use env empty_dir cenv)\<^sup>*\<^sup>* c1 c2"
    and "cache_Open (local_repo env empty_dir) (cenv\<lparr>ce_removable := \<lambda>k. True\<rparr>) c2 key = (c3, Inr (bytes, j))"
  shows "bytes = reader_bytes src \<and> info_sizeBytes j = length bytes
    \<and> local_content (ca_remote c1) key = Some bytes"
proof -
  note put = local_cache.cached.put_ok [OF assms(1) assms(2)]
  then have "local_cache.ccontent c1 key = Some (reader_bytes src)" "local_cache.faithful c1" by auto
  from local_cache.cached.immutable [OF assms(3) this(2,1) assms(4)] this(1)
  show ?thesis by (simp add: local_cache.ccontent_def)
qed

text \<open>
  A hit does not say what it is a copy of: it returns the bytes with an empty digest,
  where the store it stands in front of always returns their SHA-256.
\<close>

lemma cache_hit_without_digest:
  assumes "ValidateStorageKey key = None" and "ca_files c key = Some bytes"
  shows "\<exists>c' i. cache_Open rp env c key = (c', Inr (bytes, i)) \<and> info_sha256 i = []
    \<and> info_sha256 i \<noteq> sha256_hex bytes"
proof -
  have "[] \<noteq> sha256_hex bytes"
    using length_sha256_hex [of bytes] by (metis list.size(3) zero_neq_numeral)
  then show ?thesis using assms by (simp add: cache_Open_def hit_def)
qed

definition sample_cenv :: cache_env where
  "sample_cenv = \<lparr>ce_ctx = (\<lambda>k. None), ce_room = None, ce_stage = None, ce_publish = True, ce_removable = (\<lambda>k. True)\<rparr>"

end
