(* ===== verification/Runners.thy ===== *)
theory Runners
  imports Executions CopyHash
begin

text \<open>
  The runners of \<open>internal/worker\<close> (\<open>python.go\<close>, \<open>ruby.go\<close>, \<open>node.go\<close>, \<open>binary.go\<close>): the
  command a handler is started with, the environment it sees, the capped buffer its output
  goes through, and how what it did becomes a result. The child process is the argument
  \<open>child\<close>: from the command and the bytes of the input file, what it printed, how it ended and
  what it left in the result file. Between two pieces of output the follower's ticker may
  fire, which the trace records as \<open>Tick\<close>.
\<close>

section \<open>Requests, results and the child process\<close>

record executeRequest =
  rq_CodeDirectory :: string
  rq_InstallDirectory :: string
  rq_CallbackAddress :: string
  rq_ExecutionToken :: string
  rq_Input :: raw
  rq_MaxResultBytes :: int
  rq_MaxLogBytes :: int

record executeResult =
  rs_Output :: raw
  rs_Logs :: string

definition nullResult :: raw where
  "nullResult = Some ''null''"

datatype log_event = Output string | Tick

record command =
  cm_argv :: "string list"
  cm_dir :: string
  cm_env :: "string list"

text \<open>
  \<open>pr_err\<close> is the error of \<open>command.Run\<close>, \<open>pr_ctx\<close> that of the context afterwards, and
  \<open>pr_result\<close> what reading the result file gives, \<open>Inr None\<close> when there is none.
\<close>

record process =
  pr_events :: "log_event list"
  pr_err :: go_err
  pr_ctx :: go_err
  pr_result :: "string option result"

type_synonym child = "command \<Rightarrow> string \<Rightarrow> process"

record host =
  ho_work :: "string result"
  ho_write :: "string \<Rightarrow> go_err"
  ho_env :: "string \<Rightarrow> string option"
  ho_regular :: "string \<Rightarrow> bool"
  ho_chmod :: go_err

type_synonym run_result = "executeResult \<times> go_err \<times> log_event list"

section \<open>The capped buffer\<close>

record limitedBuffer =
  lb_buffer :: string
  lb_maximum :: int
  lb_written :: int
  lb_mirror :: "string list"

definition lb_Write :: "limitedBuffer \<Rightarrow> string \<Rightarrow> limitedBuffer" where
  "lb_Write target payload =
     (let remaining = lb_maximum target - int (length (lb_buffer target)) in
      target\<lparr>lb_written := lb_written target + int (length payload),
        lb_buffer :=
          (if remaining > 0
           then if int (length payload) > remaining
                then lb_buffer target @ take (nat remaining) payload
                else lb_buffer target @ payload
           else lb_buffer target),
        lb_mirror := lb_mirror target @ [payload]\<rparr>)"

definition truncation_mark :: string where
  "truncation_mark = CHR 0x0A # ''[logs truncated]''"

definition lb_String :: "limitedBuffer \<Rightarrow> string" where
  "lb_String target =
     (let value = trim_space (lb_buffer target) in
      trim_space (if lb_written target > int (length (lb_buffer target))
                  then value @ truncation_mark else value))"

fun lb_run :: "limitedBuffer \<Rightarrow> log_event list \<Rightarrow> limitedBuffer" where
  "lb_run target [] = target"
| "lb_run target (Output payload # es) = lb_run (lb_Write target payload) es"
| "lb_run target (Tick # es) = lb_run target es"

definition lb_new :: "int \<Rightarrow> limitedBuffer" where
  "lb_new maximum = \<lparr>lb_buffer = [], lb_maximum = maximum, lb_written = 0, lb_mirror = []\<rparr>"

definition failureMessage :: "error \<Rightarrow> string \<Rightarrow> string" where
  "failureMessage err logs0 =
     (let logs = trim_space logs0 in
      if logs = [] then error_text err
      else if length logs > 4096 then drop (length logs - 4096) logs else logs)"

section \<open>The environment of a handler\<close>

definition allowed_variables :: "string list" where
  "allowed_variables =
     [''PATH'', ''PATHEXT'', ''SYSTEMDRIVE'', ''SYSTEMROOT'', ''WINDIR'', ''TEMP'', ''TMP'', ''TMPDIR'',
      ''LANG'', ''LC_ALL'', ''SSL_CERT_FILE'', ''SSL_CERT_DIR'']"

definition childEnvironment :: "host \<Rightarrow> string \<Rightarrow> string list \<Rightarrow> string list" where
  "childEnvironment h browser extra =
     extra
     @ concat (map (\<lambda>name. case ho_env h name of None \<Rightarrow> [] | Some v \<Rightarrow> [name @ ''='' @ v]) allowed_variables)
     @ (if browser \<noteq> [] then [''NEURUN_BROWSER_SERVICE='' @ browser] else [])"

definition callbackEnvironment :: "executeRequest \<Rightarrow> string list" where
  "callbackEnvironment request =
     (if rq_CallbackAddress request \<noteq> [] then [''NEURUN_GRPC_ADDRESS='' @ rq_CallbackAddress request] else [])
     @ (if rq_ExecutionToken request \<noteq> [] then [''NEURUN_EXECUTION_TOKEN='' @ rq_ExecutionToken request] else [])"

definition pythonEnvironment :: "host \<Rightarrow> string \<Rightarrow> string list" where
  "pythonEnvironment h browser =
     childEnvironment h browser
       [''PYTHONNOUSERSITE=1'', ''PYTHONDONTWRITEBYTECODE=1'', ''PYTHONUNBUFFERED=1'', ''PIP_DISABLE_PIP_VERSION_CHECK=1'']"

section \<open>From a finished process to a result\<close>

definition contains_sub :: "string \<Rightarrow> string \<Rightarrow> bool" where
  "contains_sub s p \<longleftrightarrow> list_ex (\<lambda>i. has_prefix (drop i s) p) [0..<Suc (length s)]"

definition too_large_mark :: string where
  "too_large_mark = ''handler result exceeds configured byte limit''"

text \<open>
  The end of every \<open>Execute\<close>. The interpreted runners look for the bootstrap's message in
  the logs; what a missing result file means differs for a compiled handler.
\<close>

definition run_collect ::
  "bool \<Rightarrow> (string \<Rightarrow> executeResult \<times> go_err) \<Rightarrow> executeRequest \<Rightarrow> process \<Rightarrow> run_result"
where
  "run_collect interpreted missing request p =
     (let logs = lb_String (lb_run (lb_new (rq_MaxLogBytes request)) (pr_events p));
          failing = \<lparr>rs_Output = None, rs_Logs = logs\<rparr>;
          res =
            (case pr_err p of
               Some err \<Rightarrow>
                 (case pr_ctx p of
                    Some e \<Rightarrow> (failing, Some e)
                  | None \<Rightarrow>
                      if interpreted \<and> contains_sub logs too_large_mark
                      then (failing, Some (Bare Worker_ErrResultTooLarge))
                      else (failing, Some (wrapf Worker_ErrHandlerFailed (failureMessage err logs))))
             | None \<Rightarrow>
                 (case pr_result p of
                    Inr None \<Rightarrow> missing logs
                  | Inl e \<Rightarrow> (failing, Some (annotate ''worker: read handler result'' e))
                  | Inr (Some out) \<Rightarrow>
                      if int (length out) > rq_MaxResultBytes request
                      then (failing, Some (Bare Worker_ErrResultTooLarge))
                      else if \<not> json_valid out
                      then (failing, Some (Plain ''worker: handler returned invalid JSON''))
                      else (\<lparr>rs_Output = Some out, rs_Logs = logs\<rparr>, None)))
      in (fst res, snd res, pr_events p))"

definition no_result :: "string \<Rightarrow> executeResult \<times> go_err" where
  "no_result logs =
     (\<lparr>rs_Output = None, rs_Logs = logs\<rparr>,
      Some (wrapf Worker_ErrHandlerFailed ''the handler returned no result''))"

definition not_run :: "error \<Rightarrow> run_result" where
  "not_run e = (\<lparr>rs_Output = None, rs_Logs = []\<rparr>, Some e, [])"

section \<open>The four runners\<close>

record runner_options =
  ro_executable :: string
  ro_browser :: string

definition with_default :: "string \<Rightarrow> string \<Rightarrow> string" where
  "with_default executable fallback =
     (let e = trim_space executable in if e = [] then fallback else e)"

definition NewPythonRunner :: "runner_options \<Rightarrow> runner_options" where
  "NewPythonRunner o1 = \<lparr>ro_executable = with_default (ro_executable o1) ''python'', ro_browser = trim_space (ro_browser o1)\<rparr>"

definition NewRubyRunner :: "runner_options \<Rightarrow> runner_options" where
  "NewRubyRunner o1 = \<lparr>ro_executable = with_default (ro_executable o1) ''ruby'', ro_browser = trim_space (ro_browser o1)\<rparr>"

definition NewNodeRunner :: "runner_options \<Rightarrow> runner_options" where
  "NewNodeRunner o1 = \<lparr>ro_executable = with_default (ro_executable o1) ''node'', ro_browser = trim_space (ro_browser o1)\<rparr>"

definition NewBinaryRunner :: "string \<Rightarrow> runner_options" where
  "NewBinaryRunner browser = \<lparr>ro_executable = [], ro_browser = trim_space browser\<rparr>"

definition python_command :: "host \<Rightarrow> runner_options \<Rightarrow> executeRequest \<Rightarrow> string \<Rightarrow> command" where
  "python_command h ro request work =
     \<lparr>cm_argv = [ro_executable ro, ''-I'', filepath_join work ''bootstrap.py'', rq_CodeDirectory request,
                 rq_InstallDirectory request, ''main.py:handler'', filepath_join work ''input.json'',
                 filepath_join work ''result.json'', decimal (nat (rq_MaxResultBytes request))],
      cm_dir = work, cm_env = pythonEnvironment h (ro_browser ro) @ callbackEnvironment request\<rparr>"

definition python_Execute :: "host \<Rightarrow> child \<Rightarrow> runner_options \<Rightarrow> executeRequest \<Rightarrow> run_result" where
  "python_Execute h child ro request =
     (case ho_work h of
        Inl e \<Rightarrow> not_run (annotate ''worker: create Python run directory'' e)
      | Inr work \<Rightarrow>
          (case first_err [ho_write h ''input.json'', ho_write h ''bootstrap.py''] of
             Some e \<Rightarrow> not_run e
           | None \<Rightarrow> run_collect True no_result request
                       (child (python_command h ro request work) (raw_bytes (rq_Input request)))))"

definition ruby_command :: "host \<Rightarrow> runner_options \<Rightarrow> executeRequest \<Rightarrow> string \<Rightarrow> command" where
  "ruby_command h ro request work =
     \<lparr>cm_argv = [ro_executable ro, ''--disable-gems'', filepath_join work ''bootstrap.rb'', rq_CodeDirectory request,
                 rq_InstallDirectory request, ''main.rb:handler'', filepath_join work ''input.json'',
                 filepath_join work ''result.json'', decimal (nat (rq_MaxResultBytes request))],
      cm_dir = work,
      cm_env = childEnvironment h (ro_browser ro) [''GEM_PATH='' @ rq_InstallDirectory request]
                 @ callbackEnvironment request\<rparr>"

definition ruby_Execute :: "host \<Rightarrow> child \<Rightarrow> runner_options \<Rightarrow> executeRequest \<Rightarrow> run_result" where
  "ruby_Execute h child ro request =
     (case ho_work h of
        Inl e \<Rightarrow> not_run (annotate ''worker: create Ruby run directory'' e)
      | Inr work \<Rightarrow>
          (case first_err [ho_write h ''input.json'', ho_write h ''bootstrap.rb''] of
             Some e \<Rightarrow> not_run e
           | None \<Rightarrow> run_collect True no_result request
                       (child (ruby_command h ro request work) (raw_bytes (rq_Input request)))))"

definition BundleName :: string where
  "BundleName = ''app.js''"

definition node_command :: "host \<Rightarrow> runner_options \<Rightarrow> executeRequest \<Rightarrow> string \<Rightarrow> command" where
  "node_command h ro request work =
     \<lparr>cm_argv = [ro_executable ro, filepath_join work ''bootstrap.js'',
                 filepath_join (rq_CodeDirectory request) BundleName, ''handler'',
                 filepath_join work ''input.json'', filepath_join work ''result.json'',
                 decimal (nat (rq_MaxResultBytes request))],
      cm_dir = work,
      cm_env = childEnvironment h (ro_browser ro) [''NODE_ENV=production''] @ callbackEnvironment request\<rparr>"

definition node_Execute :: "host \<Rightarrow> child \<Rightarrow> runner_options \<Rightarrow> executeRequest \<Rightarrow> run_result" where
  "node_Execute h child ro request =
     (case ho_work h of
        Inl e \<Rightarrow> not_run (annotate ''worker: create Node run directory'' e)
      | Inr work \<Rightarrow>
          (case first_err [ho_write h ''input.json'', ho_write h ''bootstrap.js''] of
             Some e \<Rightarrow> not_run e
           | None \<Rightarrow>
               if \<not> ho_regular h (filepath_join (rq_CodeDirectory request) BundleName)
               then not_run (wrapf Worker_ErrHandlerFailed (''build contains no '' @ BundleName))
               else run_collect True no_result request
                      (child (node_command h ro request work) (raw_bytes (rq_Input request)))))"

text \<open>The compiled handler's name on a Unix host, where it has no extension.\<close>

definition BinaryName :: string where
  "BinaryName = ''app''"

definition binary_command :: "host \<Rightarrow> runner_options \<Rightarrow> executeRequest \<Rightarrow> string \<Rightarrow> command" where
  "binary_command h ro request work =
     \<lparr>cm_argv = [filepath_join (rq_CodeDirectory request) BinaryName,
                 filepath_join work ''input.json'', filepath_join work ''result.json''],
      cm_dir = work, cm_env = childEnvironment h (ro_browser ro) [] @ callbackEnvironment request\<rparr>"

definition binary_Execute :: "host \<Rightarrow> child \<Rightarrow> runner_options \<Rightarrow> executeRequest \<Rightarrow> run_result" where
  "binary_Execute h child ro request =
     (case ho_work h of
        Inl e \<Rightarrow> not_run (annotate ''worker: create run directory'' e)
      | Inr work \<Rightarrow>
          (case ho_write h ''input.json'' of
             Some e \<Rightarrow> not_run e
           | None \<Rightarrow>
               if \<not> ho_regular h (filepath_join (rq_CodeDirectory request) BinaryName)
               then not_run (wrapf Worker_ErrHandlerFailed (''build contains no '' @ BinaryName))
               else case ho_chmod h of
                 Some e \<Rightarrow> not_run (annotate ''worker: prepare handler'' e)
               | None \<Rightarrow> run_collect False (\<lambda>logs. (\<lparr>rs_Output = nullResult, rs_Logs = logs\<rparr>, None)) request
                           (child (binary_command h ro request work) (raw_bytes (rq_Input request)))))"

section \<open>The contract of a runner\<close>

text \<open>
  What the worker relies on: a run without an error has a JSON document to show, within the
  limit unless it is the document of a handler that returned nothing, and the logs, however
  the run ended, are what the capped buffer made of the output it was handed.
\<close>

fun printed :: "log_event list \<Rightarrow> string" where
  "printed [] = []"
| "printed (Output payload # es) = payload @ printed es"
| "printed (Tick # es) = printed es"

locale runner =
  fixes exec :: "executeRequest \<Rightarrow> run_result"
  assumes output_json:
    "exec request = (res, None, es) \<Longrightarrow>
       \<exists>v. rs_Output res = Some v \<and> json_valid v
         \<and> (int (length v) \<le> rq_MaxResultBytes request \<or> rs_Output res = nullResult)"
    and logs_kept:
    "exec request = (res, err, es) \<Longrightarrow> rs_Logs res = lb_String (lb_run (lb_new (rq_MaxLogBytes request)) es)"

section \<open>What the buffer keeps\<close>

lemma lb_run_maximum [simp]: "lb_maximum (lb_run target es) = lb_maximum target"
  by (induction target es rule: lb_run.induct) (simp_all add: lb_Write_def)

lemma lb_run_head:
  assumes "0 \<le> lb_maximum target" and "lb_buffer target = take (nat (lb_maximum target)) all"
    and "lb_written target = int (length all)" and "concat (lb_mirror target) = all"
  shows "lb_buffer (lb_run target es) = take (nat (lb_maximum target)) (all @ printed es)
    \<and> lb_written (lb_run target es) = int (length (all @ printed es))
    \<and> concat (lb_mirror (lb_run target es)) = all @ printed es"
  using assms
proof (induction target es arbitrary: all rule: lb_run.induct)
  case (2 target payload es)
  let ?m = "nat (lb_maximum target)"
  have buf: "lb_buffer (lb_Write target payload) = take ?m (all @ payload)"
    using 2(2,3) by (auto simp: lb_Write_def nat_diff_distrib min_def)
  show ?case
    using 2(1) [of "all @ payload"] 2(2-5) buf by (simp add: lb_Write_def)
qed simp_all

lemma lb_new_run:
  assumes "0 \<le> maximum"
  shows "lb_buffer (lb_run (lb_new maximum) es) = take (nat maximum) (printed es)"
    and "lb_written (lb_run (lb_new maximum) es) = int (length (printed es))"
    and "concat (lb_mirror (lb_run (lb_new maximum) es)) = printed es"
  using lb_run_head [of "lb_new maximum" "[]" es] assms by (simp_all add: lb_new_def)

lemma length_truncation_mark [simp]: "length truncation_mark = 17"
  by (simp add: truncation_mark_def)

lemma lb_String_run:
  assumes "0 \<le> maximum"
  shows "lb_String (lb_run (lb_new maximum) es)
    = (if int (length (printed es)) \<le> maximum then trim_space (printed es)
       else trim_space (trim_space (take (nat maximum) (printed es)) @ truncation_mark))"
  using lb_new_run [OF assms, of es] assms by (auto simp: lb_String_def)

lemma lb_String_bound:
  assumes "0 \<le> maximum"
  shows "int (length (lb_String (lb_run (lb_new maximum) es))) \<le> maximum + 17"
proof (cases "int (length (printed es)) \<le> maximum")
  case True
  then show ?thesis using assms length_trim_space [of "printed es"] by (simp add: lb_String_run)
next
  case False
  have "length (trim_space (trim_space (take (nat maximum) (printed es)) @ truncation_mark))
      \<le> length (trim_space (take (nat maximum) (printed es))) + 17"
    using length_trim_space [of "trim_space (take (nat maximum) (printed es)) @ truncation_mark"] by simp
  also have "\<dots> \<le> nat maximum + 17" using length_trim_space [of "take (nat maximum) (printed es)"] by simp
  finally show ?thesis using False assms by (simp add: lb_String_run)
qed

text \<open>The mark of a cut comes on top of what the buffer kept, less the white space at its ends.\<close>

lemma lb_String_overflow:
  assumes "0 \<le> maximum" and "maximum < int (length (printed es))"
    and "trim_space (take (nat maximum) (printed es)) \<noteq> []"
  shows "length (lb_String (lb_run (lb_new maximum) es)) = length (trim_space (take (nat maximum) (printed es))) + 17"
proof -
  let ?b = "trim_space (take (nat maximum) (printed es))"
  have "leading_space (?b @ truncation_mark) = None"
    unfolding leading_space_None_iff
  proof (intro ballI notI)
    fix e assume e: "e \<in> set space_encodings" and p: "prefix e (?b @ truncation_mark)"
    have "\<not> prefix e ?b" using leading_space_trim [unfolded leading_space_None_iff] e by blast
    then obtain z where z: "e = ?b @ z" "prefix z truncation_mark" "z \<noteq> []"
      using p by (auto simp: prefix_append)
    then have "CHR 0x0A \<in> set (tl e)" using assms(3) by (cases ?b; cases z) (auto simp: truncation_mark_def)
    then show False using e by (auto simp: space_encodings_def)
  qed
  moreover have "trailing_space (?b @ truncation_mark) = None"
    using trailing_space_last [of "CHR '']''" "?b @ butlast truncation_mark"]
    by (simp add: truncation_mark_def byte_val_def)
  ultimately have "trim_space (?b @ truncation_mark) = ?b @ truncation_mark" by (rule trim_space_id)
  then show ?thesis using assms by (simp add: lb_String_run)
qed

text \<open>So the logs of any runner exceed their limit by at most the mark, and do so when little was trimmed.\<close>

context runner
begin

lemma logs_bounded:
  assumes "exec request = (res, err, es)" and "0 \<le> rq_MaxLogBytes request"
  shows "int (length (rs_Logs res)) \<le> rq_MaxLogBytes request + 17"
  using lb_String_bound [OF assms(2), of es] logs_kept [OF assms(1)] by simp

lemma logs_overflow:
  assumes "exec request = (res, err, es)" and "rq_MaxLogBytes request = int n" and "n < length (printed es)"
    and "trim_space (take n (printed es)) \<noteq> []"
  shows "length (rs_Logs res) = length (trim_space (take n (printed es))) + 17"
  using lb_String_overflow [of "int n" es] logs_kept [OF assms(1)] assms(2-4) by simp

end

section \<open>The four runners keep the contract\<close>

definition keeps :: "executeRequest \<Rightarrow> run_result \<Rightarrow> bool" where
  "keeps request rr \<longleftrightarrow>
     (fst (snd rr) = None \<longrightarrow>
        (\<exists>v. rs_Output (fst rr) = Some v \<and> json_valid v
           \<and> (int (length v) \<le> rq_MaxResultBytes request \<or> rs_Output (fst rr) = nullResult)))
     \<and> rs_Logs (fst rr) = lb_String (lb_run (lb_new (rq_MaxLogBytes request)) (snd (snd rr)))"

lemma run_collect_logs:
  assumes "\<And>logs. rs_Logs (fst (missing logs)) = logs"
  shows "rs_Logs (fst (run_collect i missing request p)) = lb_String (lb_run (lb_new (rq_MaxLogBytes request)) (pr_events p))"
    and "snd (snd (run_collect i missing request p)) = pr_events p"
  using assms by (auto simp: run_collect_def split: option.splits sum.splits)

lemma run_collect_keeps:
  assumes "\<And>logs. snd (missing logs) = None \<Longrightarrow> rs_Output (fst (missing logs)) = nullResult"
    and "\<And>logs. rs_Logs (fst (missing logs)) = logs"
  shows "keeps request (run_collect i missing request p)"
proof -
  have "\<exists>v. rs_Output (fst (run_collect i missing request p)) = Some v \<and> json_valid v
      \<and> (int (length v) \<le> rq_MaxResultBytes request \<or> rs_Output (fst (run_collect i missing request p)) = nullResult)"
    if "fst (snd (run_collect i missing request p)) = None"
  proof (cases "pr_err p = None \<and> pr_result p = Inr None")
    case True
    then have "rs_Output (fst (run_collect i missing request p)) = nullResult"
      using that assms(1) by (simp add: run_collect_def)
    then show ?thesis using json_valid_null by (simp add: nullResult_def)
  next
    case False
    then show ?thesis using that
      by (auto simp: run_collect_def split: option.splits sum.splits if_splits)
  qed
  then show ?thesis using run_collect_logs [of missing i request p] assms(2) by (simp add: keeps_def)
qed

lemma interpreted_keeps: "keeps request (run_collect i no_result request p)"
  by (rule run_collect_keeps) (simp_all add: no_result_def)

lemma compiled_keeps: "keeps request (run_collect i (\<lambda>logs. (\<lparr>rs_Output = nullResult, rs_Logs = logs\<rparr>, None)) request p)"
  by (rule run_collect_keeps) simp_all

lemma not_run_keeps: "keeps request (not_run e)"
  by (simp add: keeps_def not_run_def lb_new_def lb_String_def)

lemmas run_keeps = interpreted_keeps compiled_keeps not_run_keeps

lemma Execute_keeps:
  "keeps request (python_Execute h child ro request)"
  "keeps request (ruby_Execute h child ro request)"
  "keeps request (node_Execute h child ro request)"
  "keeps request (binary_Execute h child ro request)"
  by (simp_all add: python_Execute_def ruby_Execute_def node_Execute_def binary_Execute_def run_keeps
      split: option.split sum.split)

lemma runnerI:
  assumes "\<And>request. keeps request (exec request)"
  shows "runner exec"
  using assms unfolding runner_def keeps_def by (metis fst_conv snd_conv)

interpretation python: runner "python_Execute h child ro"
  by (rule runnerI) (rule Execute_keeps)

interpretation ruby: runner "ruby_Execute h child ro"
  by (rule runnerI) (rule Execute_keeps)

interpretation node: runner "node_Execute h child ro"
  by (rule runnerI) (rule Execute_keeps)

interpretation binary: runner "binary_Execute h child ro"
  by (rule runnerI) (rule Execute_keeps)

section \<open>Properties\<close>

text \<open>
  The logs of a run are the head of what the handler printed. The buffer keeps the first
  \<open>maximum\<close> bytes whatever the pieces were, the follower is handed all of it, and the text is
  the whole output, trimmed, when it fits.
\<close>

lemma limitedBuffer_head:
  assumes "0 \<le> maximum"
  shows "lb_buffer (lb_run (lb_new maximum) es) = take (nat maximum) (printed es)
    \<and> concat (lb_mirror (lb_run (lb_new maximum) es)) = printed es
    \<and> (int (length (printed es)) \<le> maximum \<longrightarrow> lb_String (lb_run (lb_new maximum) es) = trim_space (printed es))"
  using lb_new_run [OF assms] lb_String_run [OF assms] by simp

text \<open>
  Only the allowlist of the host's environment reaches a handler. Two hosts that agree on
  the allowed variables start every handler with the same command, whatever else their
  environments hold.
\<close>

lemma handler_environment:
  assumes "\<forall>name \<in> set allowed_variables. ho_env h name = ho_env h' name"
  shows "python_command h ro request work = python_command h' ro request work
    \<and> ruby_command h ro request work = ruby_command h' ro request work
    \<and> node_command h ro request work = node_command h' ro request work
    \<and> binary_command h ro request work = binary_command h' ro request work"
proof -
  have "childEnvironment h b x = childEnvironment h' b x" for b x
    using assms by (simp add: childEnvironment_def cong: map_cong)
  then show ?thesis
    by (simp add: python_command_def ruby_command_def node_command_def binary_command_def pythonEnvironment_def)
qed

definition sample_host :: host where
  "sample_host = \<lparr>ho_work = Inr ''/tmp/w'', ho_write = (\<lambda>f. None), ho_env = (\<lambda>n. if n = ''PATH'' then Some ''/bin'' else None),
     ho_regular = (\<lambda>p. True), ho_chmod = None\<rparr>"

definition sample_ro :: runner_options where
  "sample_ro = \<lparr>ro_executable = ''python'', ro_browser = []\<rparr>"

definition sample_request :: executeRequest where
  "sample_request = \<lparr>rq_CodeDirectory = ''/w/code'', rq_InstallDirectory = ''/w/install'', rq_CallbackAddress = [],
     rq_ExecutionToken = [], rq_Input = Some ''{}'', rq_MaxResultBytes = 100, rq_MaxLogBytes = 100\<rparr>"

end
