(* ===== verification/Worker.thy ===== *)
theory Worker
  imports ExecutionStore DeploymentRepo Cache Archive Runners
begin

text \<open>
  \<open>internal/worker/worker.go\<close>: claim the oldest queued execution, bring the artifacts of its
  build to a work directory, run it, and finish it. The worker's world is the database, the
  artifact store behind the interface \<open>repo\<close>, the file system and the execution tokens that
  are live. What the environment decides (the clock, the name of the work directory, the
  room on the disk, failing calls) is the record \<open>worker_env\<close>.
\<close>

section \<open>Options\<close>

record worker_options =
  wk_PollInterval :: int
  wk_RunTimeout :: int
  wk_MaxResultBytes :: int
  wk_MaxLogBytes :: int
  wk_MaxArtifactBytes :: int
  wk_MaxArchiveEntries :: int
  wk_MaxArchiveExpandedBytes :: int
  wk_CallbackAddress :: string

type_synonym runners = "(runtime \<times> (executeRequest \<Rightarrow> run_result)) list"

definition or_default :: "int \<Rightarrow> int \<Rightarrow> int" where
  "or_default v fallback = (if v = 0 then fallback else v)"

definition worker_New :: "runners \<Rightarrow> worker_options \<Rightarrow> worker_options result" where
  "worker_New rs o0 =
     (if rs = [] then Inl (Plain ''worker: at least one runner is required'')
      else if wk_PollInterval o0 < 0 \<or> wk_RunTimeout o0 < 0 \<or> wk_MaxResultBytes o0 < 0 \<or> wk_MaxLogBytes o0 < 0
           \<or> wk_MaxArtifactBytes o0 < 0 \<or> wk_MaxArchiveEntries o0 < 0 \<or> wk_MaxArchiveExpandedBytes o0 < 0
      then Inl (Plain ''worker: options cannot be negative'')
      else Inr (o0\<lparr>wk_PollInterval := or_default (wk_PollInterval o0) 250000000,
                   wk_RunTimeout := or_default (wk_RunTimeout o0) 300000000000,
                   wk_MaxResultBytes := or_default (wk_MaxResultBytes o0) 4194304,
                   wk_MaxLogBytes := or_default (wk_MaxLogBytes o0) (int MaxLogBytes),
                   wk_MaxArtifactBytes := or_default (wk_MaxArtifactBytes o0) 268435456,
                   wk_MaxArchiveEntries := or_default (wk_MaxArchiveEntries o0) DefaultMaxArchiveEntries,
                   wk_MaxArchiveExpandedBytes :=
                     or_default (wk_MaxArchiveExpandedBytes o0) DefaultMaxArchiveExpandedBytes\<rparr>))"

section \<open>The world\<close>

record 'r world =
  wo_db :: db
  wo_blobs :: 'r
  wo_tree :: tree
  wo_tokens :: "string list"

record worker_env =
  we_now :: time
  we_finished :: time
  we_locked :: "string list"
  we_work :: "string list result"
  we_ctx :: "nat \<Rightarrow> go_err"
  we_room :: "string \<Rightarrow> nat option"
  we_close :: "string \<Rightarrow> go_err"
  we_unzip :: "string \<Rightarrow> int \<Rightarrow> zip_file list result"
  we_uc :: unicode
  we_zip :: "string \<Rightarrow> zip_env"
  we_runctx :: go_err
  we_mint :: "(string \<Rightarrow> string \<Rightarrow> string result) option"
  we_revoke :: go_err

definition newFailure :: "string \<Rightarrow> error \<Rightarrow> failure" where
  "newFailure code err =
     (let message = (if trim_space (error_text err) \<noteq> [] then trim_space (error_text err) else ''operation failed'')
      in \<lparr>fail_Code = code, fail_Message = (if length message > 4096 then take 4096 message else message)\<rparr>)"

section \<open>Following the output\<close>

record logStream =
  ls_buffer :: string
  ls_written :: bool

definition ls_Write :: "logStream \<Rightarrow> string \<Rightarrow> logStream" where
  "ls_Write stream payload = stream\<lparr>ls_buffer := ls_buffer stream @ payload, ls_written := True\<rparr>"

definition ls_flush :: "db \<Rightarrow> string \<Rightarrow> logStream \<Rightarrow> db \<times> logStream" where
  "ls_flush d i stream =
     (if \<not> ls_written stream then (d, stream)
      else (fst (execrepo_SaveLogs d i (trim_space (ls_buffer stream))), stream\<lparr>ls_written := False\<rparr>))"

fun follow :: "db \<Rightarrow> string \<Rightarrow> logStream \<Rightarrow> log_event list \<Rightarrow> db" where
  "follow d i stream [] = d"
| "follow d i stream (Output payload # es) = follow d i (ls_Write stream payload) es"
| "follow d i stream (Tick # es) = (case ls_flush d i stream of (d', stream') \<Rightarrow> follow d' i stream' es)"

section \<open>Artifacts\<close>

definition materialize ::
  "worker_env \<Rightarrow> 'r repo \<Rightarrow> artifact \<Rightarrow> string list \<Rightarrow> 'r \<Rightarrow> tree \<Rightarrow> 'r \<times> tree \<times> go_err"
where
  "materialize env rp item target bl t =
     (case rp_open rp bl (art_StorageKey item) of
        (bl', Inl e) \<Rightarrow> (bl', t, Some e)
      | (bl', Inr (bytes, meta)) \<Rightarrow>
          if int (info_sizeBytes meta) \<noteq> art_SizeBytes item \<or> info_sha256 meta \<noteq> art_SHA256 item
          then (bl', t, Some (Plain ''artifact metadata does not match stored blob''))
          else if map_of t target \<noteq> None \<or> \<not> is_dir (map_of t (butlast target))
          then (bl', t, Some (Plain ''open: cannot create file''))
          else case CopyAndHashContext (we_ctx env) \<lparr>wr_bytes = [], wr_room = we_room env (art_ID item)\<rparr>
                      [(bytes, None)] (art_SizeBytes item) of
            (res, copyErr, w) \<Rightarrow>
              (let t' = (target, IFile (wr_bytes w) 384) # t in
               (bl', t',
                first_err [
                  copyErr,
                  we_close env (art_ID item),
                  guard (int (cr_SizeBytes res) \<noteq> art_SizeBytes item \<or> cr_SHA256 res \<noteq> art_SHA256 item)
                    (Plain ''materialized artifact failed integrity verification'')])))"

fun fetch_layers ::
  "worker_env \<Rightarrow> worker_options \<Rightarrow> 'r repo \<Rightarrow> string list \<Rightarrow> int \<Rightarrow> artifact list \<Rightarrow> 'r \<Rightarrow> tree
     \<Rightarrow> 'r \<times> tree \<times> failure option"
where
  "fetch_layers env opts rp work remaining [] bl t = (bl, t, None)"
| "fetch_layers env opts rp work remaining (layer # layers) bl t =
     (if art_SizeBytes layer > remaining
      then (bl, t, Some (newFailure ''artifact_invalid'' (Plain ''build artifacts exceed configured byte limit'')))
      else
        (let targetArchive = filepath_join (abs_path work) (art_ID layer @ ''.zip'') in
         case materialize env rp layer (path_parts targetArchive) bl t of
           (bl1, t1, Some e) \<Rightarrow> (bl1, t1, Some (newFailure ''artifact_invalid'' e))
         | (bl1, t1, None) \<Rightarrow>
             (case ExtractZIPFile (we_unzip env) (we_uc env) (we_zip env (art_ID layer)) t1 targetArchive
                     (filepath_join (abs_path work) (art_Name layer))
                     \<lparr>al_MaxEntries = wk_MaxArchiveEntries opts,
                      al_MaxExpandedBytes = wk_MaxArchiveExpandedBytes opts\<rparr> of
                (t2, Inl e) \<Rightarrow> (bl1, t2, Some (newFailure ''artifact_invalid'' e))
              | (t2, Inr stats) \<Rightarrow>
                  fetch_layers env opts rp work (remaining - art_SizeBytes layer) layers bl1 t2)))"

section \<open>One execution\<close>

definition failure_code :: "worker_env \<Rightarrow> error \<Rightarrow> string" where
  "failure_code env e =
     (if errors_is e Context_DeadlineExceeded
         \<or> (case we_runctx env of None \<Rightarrow> False | Some c \<Rightarrow> errors_is c Context_DeadlineExceeded)
      then ''execution_timeout''
      else if errors_is e Worker_ErrResultTooLarge then ''result_too_large''
      else ''failed'')"

text \<open>The token of a run: minted when tokens and an address are configured, spent at the end.\<close>

definition mint_token :: "worker_env \<Rightarrow> worker_options \<Rightarrow> string \<Rightarrow> string \<Rightarrow> string option" where
  "mint_token env opts executionID appID =
     (case we_mint env of
        None \<Rightarrow> None
      | Some mint \<Rightarrow>
          if wk_CallbackAddress opts = [] then None
          else (case mint executionID appID of Inl e \<Rightarrow> None | Inr token \<Rightarrow> Some token))"

definition revoke_token :: "worker_env \<Rightarrow> string option \<Rightarrow> string list \<Rightarrow> string list" where
  "revoke_token env token live =
     (case token of
        None \<Rightarrow> live
      | Some tk \<Rightarrow> if we_revoke env = None then removeAll tk live else live)"

definition run_request :: "worker_options \<Rightarrow> string list \<Rightarrow> execution \<Rightarrow> string option \<Rightarrow> executeRequest" where
  "run_request opts work r token =
     \<lparr>rq_CodeDirectory = filepath_join (abs_path work) LayerCode,
      rq_InstallDirectory = filepath_join (abs_path work) LayerInstall,
      rq_CallbackAddress = wk_CallbackAddress opts,
      rq_ExecutionToken = (case token of None \<Rightarrow> [] | Some tk \<Rightarrow> tk),
      rq_Input = exe_Input r, rq_MaxResultBytes = wk_MaxResultBytes opts,
      rq_MaxLogBytes = wk_MaxLogBytes opts\<rparr>"

definition run_layers ::
  "worker_env \<Rightarrow> worker_options \<Rightarrow> runners \<Rightarrow> string list \<Rightarrow> build \<Rightarrow> execution \<Rightarrow> 'r world
     \<Rightarrow> 'r world \<times> raw \<times> string \<times> failure option"
where
  "run_layers env opts rs work produced r w =
     (case map_of rs (bld_Runtime produced) of
        None \<Rightarrow> (w, None, [], Some (newFailure ''runtime_unsupported'' (Plain ''worker: no runner for runtime'')))
      | Some exec \<Rightarrow>
          (let token = mint_token env opts (exe_ID r) (bld_AppID produced);
               live = (case token of None \<Rightarrow> wo_tokens w | Some tk \<Rightarrow> tk # wo_tokens w) in
           case exec (run_request opts work r token) of
             (res, err, events) \<Rightarrow>
               (let w' = w\<lparr>wo_db := follow (wo_db w) (exe_ID r) \<lparr>ls_buffer = [], ls_written = False\<rparr> events,
                           wo_tokens := revoke_token env token live\<rparr> in
                case err of
                  Some e \<Rightarrow> (w', None, rs_Logs res, Some (newFailure (failure_code env e) e))
                | None \<Rightarrow> (w', rs_Output res, rs_Logs res, None))))"

definition execute ::
  "worker_env \<Rightarrow> worker_options \<Rightarrow> runners \<Rightarrow> 'r repo \<Rightarrow> execution \<Rightarrow> 'r world
     \<Rightarrow> 'r world \<times> raw \<times> string \<times> failure option"
where
  "execute env opts rs rp r w =
     (case buildrepo_GetByID (wo_db w) (exe_BuildID r) of
        Inl e \<Rightarrow> (w, None, [], Some (newFailure ''build_unavailable'' e))
      | Inr produced \<Rightarrow>
          (case we_work env of
             Inl e \<Rightarrow> (w, None, [], Some (newFailure ''worker_environment'' e))
           | Inr work \<Rightarrow>
               (case fetch_layers env opts rp work (wk_MaxArtifactBytes opts) (bld_Artifacts produced)
                       (wo_blobs w) ((work, IDir 448) # wo_tree w) of
                  (bl, t, fl) \<Rightarrow>
                    (let w1 = w\<lparr>wo_blobs := bl, wo_tree := t\<rparr> in
                     case (case fl of
                             Some f \<Rightarrow> (w1, None, [], Some f)
                           | None \<Rightarrow> run_layers env opts rs work produced r w1) of
                       (w2, res) \<Rightarrow> (w2\<lparr>wo_tree := remove_all (wo_tree w2) work\<rparr>, res)))))"

definition ProcessOne ::
  "pgsql \<Rightarrow> worker_env \<Rightarrow> worker_options \<Rightarrow> runners \<Rightarrow> 'r repo \<Rightarrow> 'r world \<Rightarrow> 'r world \<times> go_err"
where
  "ProcessOne pg env opts rs rp w =
     (case execrepo_ClaimQueued pg (wo_db w) (we_locked env) (we_now env) of
        (d1, Inl e) \<Rightarrow> (w\<lparr>wo_db := d1\<rparr>, Some e)
      | (d1, Inr r) \<Rightarrow>
          (case execute env opts rs rp r (w\<lparr>wo_db := d1\<rparr>) of
             (w2, out, logs, fl) \<Rightarrow>
               (case (case fl of
                        Some f \<Rightarrow> exec_Fail r f logs (we_finished env)
                      | None \<Rightarrow> exec_Succeed r out logs (we_finished env)) of
                  (r', Some e) \<Rightarrow> (w2, Some (annotate (''worker: finish execution '' @ exe_ID r) e))
                | (r', None) \<Rightarrow>
                    (case execrepo_Finalize pg (wo_db w2) r' of
                       (d3, Some e) \<Rightarrow> (w2\<lparr>wo_db := d3\<rparr>, Some (annotate (''worker: finalize execution '' @ exe_ID r) e))
                     | (d3, None) \<Rightarrow> (w2\<lparr>wo_db := d3\<rparr>, None)))))"

definition worker_Recover :: "pgsql \<Rightarrow> db \<Rightarrow> time \<Rightarrow> db \<times> int result" where
  "worker_Recover pg d now =
     execrepo_RecoverRunning pg d now
       \<lparr>fail_Code = ''worker_restarted'', fail_Message = ''worker stopped before the execution completed''\<rparr>"

text \<open>
  \<open>Run\<close>, for the iterations the list describes: each with its environment and with the error
  the context has when it ends. \<open>Inl\<close> is a return, \<open>Inr\<close> says it is still running.
\<close>

definition worker_stops :: "error \<Rightarrow> bool" where
  "worker_stops e \<longleftrightarrow> \<not> errors_is e Execution_ErrNoQueued \<and> \<not> errors_is e Context_Canceled"

fun worker_Run ::
  "pgsql \<Rightarrow> worker_options \<Rightarrow> runners \<Rightarrow> 'r repo \<Rightarrow> (worker_env \<times> go_err) list \<Rightarrow> 'r world
     \<Rightarrow> 'r world \<times> (error + unit)"
where
  "worker_Run pg opts rs rp [] w = (w, Inr ())"
| "worker_Run pg opts rs rp ((env, done1) # its) w =
     (case ProcessOne pg env opts rs rp w of
        (w1, err) \<Rightarrow>
          (case err of
             Some e \<Rightarrow>
               if worker_stops e then (w1, Inl e)
               else (case done1 of Some c \<Rightarrow> (w1, Inl c) | None \<Rightarrow> worker_Run pg opts rs rp its w1)
           | None \<Rightarrow> (case done1 of Some c \<Rightarrow> (w1, Inl c) | None \<Rightarrow> worker_Run pg opts rs rp its w1)))"


section \<open>Failures and log writes\<close>

lemma newFailure_ok:
  assumes "code \<noteq> []" and "length code \<le> 128"
  shows "\<not> bad_failure (newFailure code e)"
proof -
  let ?m = "if trim_space (error_text e) \<noteq> [] then trim_space (error_text e) else ''operation failed''"
  have plain: "leading_space ''operation failed'' = None" by code_simp
  then have lead: "leading_space ?m = None" by simp
  have "trim_space (take 4096 ?m) \<noteq> []"
    using trim_space_nonempty [OF leading_space_prefix [OF lead take_is_prefix]] by (simp split: if_splits)
  moreover have "trim_space ?m \<noteq> []" using trim_space_nonempty [OF lead] by (simp split: if_splits)
  ultimately show ?thesis using assms by (simp add: bad_failure_def newFailure_def split: if_splits)
qed

lemma failure_code_ok: "failure_code env e \<noteq> [] \<and> length (failure_code env e) \<le> 128"
  by (simp add: failure_code_def)

lemma follow_save_all: "\<exists>ls. follow d i stream es = save_all d i ls"
proof (induction d i stream es rule: follow.induct)
  case (1 d i stream)
  then show ?case by (intro exI [of _ "[]"]) simp
next
  case (3 d i stream es)
  then show ?case
  proof (cases "ls_written stream")
    case True
    obtain ls where "follow (fst (execrepo_SaveLogs d i (trim_space (ls_buffer stream)))) i
        (stream\<lparr>ls_written := False\<rparr>) es
      = save_all (fst (execrepo_SaveLogs d i (trim_space (ls_buffer stream)))) i ls"
      using 3 True by (auto simp: ls_flush_def)
    then show ?thesis using True by (intro exI [of _ "trim_space (ls_buffer stream) # ls"]) (simp add: ls_flush_def)
  qed (use 3 in \<open>simp add: ls_flush_def\<close>)
qed simp

lemma fetch_layers_failure:
  "fetch_layers env opts rp work remaining layers bl t = (bl', t', Some f) \<Longrightarrow> \<not> bad_failure f"
  by (induction env opts rp work remaining layers bl t rule: fetch_layers.induct)
     (auto simp: newFailure_ok split: if_splits prod.splits option.splits sum.splits)

text \<open>
  What \<open>execute\<close> hands back: the database differs by log writes, a failure is one the record
  accepts, and without a failure the result is that of a runner.
\<close>

lemma run_layers_outcome:
  assumes "run_layers env opts rs work produced r w = (w2, out, logs, fl)"
  shows "\<exists>ls. wo_db w2 = save_all (wo_db w) (exe_ID r) ls"
    and "fl = Some f \<Longrightarrow> \<not> bad_failure f"
    and "fl = None \<Longrightarrow> \<exists>x \<in> set rs. \<exists>token res es. snd x (run_request opts work r token) = (res, None, es)
           \<and> out = rs_Output res \<and> logs = rs_Logs res"
proof -
  have "(\<exists>ls. wo_db w2 = save_all (wo_db w) (exe_ID r) ls) \<and> (\<forall>f. fl = Some f \<longrightarrow> \<not> bad_failure f)
    \<and> (fl = None \<longrightarrow> (\<exists>x \<in> set rs. \<exists>token res es. snd x (run_request opts work r token) = (res, None, es)
           \<and> out = rs_Output res \<and> logs = rs_Logs res))"
  proof (cases "map_of rs (bld_Runtime produced)")
    case None
    then show ?thesis using assms
      by (auto simp: run_layers_def newFailure_ok intro: exI [of _ "[]"])
  next
    case (Some exec)
    obtain res err es where run: "exec (run_request opts work r (mint_token env opts (exe_ID r) (bld_AppID produced))) = (res, err, es)"
      by (metis prod_cases3)
    have mem: "(bld_Runtime produced, exec) \<in> set rs" using Some by (rule map_of_SomeD)
    obtain ls where ls: "follow (wo_db w) (exe_ID r) \<lparr>ls_buffer = [], ls_written = False\<rparr> es = save_all (wo_db w) (exe_ID r) ls"
      using follow_save_all by blast
    show ?thesis
    proof (cases err)
      case None
      then have "out = rs_Output res" "logs = rs_Logs res" "wo_db w2 = save_all (wo_db w) (exe_ID r) ls" "fl = None"
        using assms Some run ls by (auto simp: run_layers_def)
      then show ?thesis using run None mem by (metis option.distinct(1) snd_conv)
    next
      case (Some e)
      then show ?thesis using assms \<open>map_of rs (bld_Runtime produced) = Some exec\<close> run ls failure_code_ok [of env e]
        by (auto simp: run_layers_def newFailure_ok)
    qed
  qed
  then show "\<exists>ls. wo_db w2 = save_all (wo_db w) (exe_ID r) ls" "fl = Some f \<Longrightarrow> \<not> bad_failure f"
    "fl = None \<Longrightarrow> \<exists>x \<in> set rs. \<exists>token res es. snd x (run_request opts work r token) = (res, None, es)
           \<and> out = rs_Output res \<and> logs = rs_Logs res" by blast+
qed

lemma execute_cases:
  assumes "execute env opts rs rp r w = (w2, out, logs, fl)"
  obtains (early) f where "wo_db w2 = wo_db w" "out = None" "logs = []" "fl = Some f" "\<not> bad_failure f" "wo_tokens w2 = wo_tokens w"
    | (ran) produced work bl t w3 where "buildrepo_GetByID (wo_db w) (exe_BuildID r) = Inr produced" "we_work env = Inr work"
        "fetch_layers env opts rp work (wk_MaxArtifactBytes opts) (bld_Artifacts produced) (wo_blobs w)
           ((work, IDir 448) # wo_tree w) = (bl, t, None)"
        "run_layers env opts rs work produced r (w\<lparr>wo_blobs := bl, wo_tree := t\<rparr>) = (w3, out, logs, fl)"
        "w2 = w3\<lparr>wo_tree := remove_all (wo_tree w3) work\<rparr>"
proof (cases "buildrepo_GetByID (wo_db w) (exe_BuildID r)")
  case (Inl e)
  then show ?thesis using assms early by (auto simp: execute_def newFailure_ok)
next
  case (Inr produced)
  show ?thesis
  proof (cases "we_work env")
    case (Inl e)
    then show ?thesis using assms early Inr by (auto simp: execute_def newFailure_ok)
  next
    case work: (Inr work)
    obtain bl t fl' where fetch: "fetch_layers env opts rp work (wk_MaxArtifactBytes opts) (bld_Artifacts produced) (wo_blobs w)
           ((work, IDir 448) # wo_tree w) = (bl, t, fl')" by (metis prod_cases3)
    show ?thesis
    proof (cases fl')
      case None
      then show ?thesis using assms Inr work fetch ran
        by (cases "run_layers env opts rs work produced r (w\<lparr>wo_blobs := bl, wo_tree := t\<rparr>)") (auto simp: execute_def)
    next
      case (Some f)
      then show ?thesis using assms Inr work fetch early [of f] fetch_layers_failure [OF fetch [unfolded Some]]
        by (auto simp: execute_def)
    qed
  qed
qed

lemma execute_outcome:
  assumes "execute env opts rs rp r w = (w2, out, logs, fl)"
  shows "\<exists>ls. wo_db w2 = save_all (wo_db w) (exe_ID r) ls"
    and "fl = Some f \<Longrightarrow> \<not> bad_failure f"
    and "fl = None \<Longrightarrow> \<exists>x \<in> set rs. \<exists>request res es. snd x request = (res, None, es)
           \<and> rq_MaxResultBytes request = wk_MaxResultBytes opts \<and> out = rs_Output res \<and> logs = rs_Logs res"
proof -
  have "(\<exists>ls. wo_db w2 = save_all (wo_db w) (exe_ID r) ls) \<and> (\<forall>f. fl = Some f \<longrightarrow> \<not> bad_failure f)
    \<and> (fl = None \<longrightarrow> (\<exists>x \<in> set rs. \<exists>request res es. snd x request = (res, None, es)
           \<and> rq_MaxResultBytes request = wk_MaxResultBytes opts \<and> out = rs_Output res \<and> logs = rs_Logs res))"
    using assms
  proof (cases rule: execute_cases)
    case (early f)
    then show ?thesis by (auto intro: exI [of _ "[]"])
  next
    case (ran produced work bl t w3)
    note out = run_layers_outcome [OF ran(4)]
    have "rq_MaxResultBytes (run_request opts work r token) = wk_MaxResultBytes opts" for token
      by (simp add: run_request_def)
    then show ?thesis using out ran(5) by auto
  qed
  then show "\<exists>ls. wo_db w2 = save_all (wo_db w) (exe_ID r) ls" "fl = Some f \<Longrightarrow> \<not> bad_failure f"
    "fl = None \<Longrightarrow> \<exists>x \<in> set rs. \<exists>request res es. snd x request = (res, None, es)
           \<and> rq_MaxResultBytes request = wk_MaxResultBytes opts \<and> out = rs_Output res \<and> logs = rs_Logs res" by blast+
qed


lemma claimed_running:
  assumes "repo_ok pg d" and "execrepo_ClaimQueued pg d locked now = (d1, Inr r)"
  shows "exec_ok r" and "exe_Status r = StatusRunning" and "exe_StartedAt r = Some (postgresTime now)"
proof -
  obtain x where "r = claimed (row_record d x) (postgresTime now)" "exec_ok r"
    using ClaimQueued_InrE [OF assms] by metis
  then show "exec_ok r" "exe_Status r = StatusRunning" "exe_StartedAt r = Some (postgresTime now)"
    by (simp_all add: claimed_def)
qed

lemma running_after_logs:
  assumes "\<exists>y \<in> set (db_executions d). xr_id y = i \<and> xr_status y = StatusRunning"
  shows "\<exists>y \<in> set (db_executions (save_all d i ls)). xr_id y = i \<and> xr_status y = StatusRunning"
  using assms
proof (induction ls arbitrary: d)
  case (Cons l ls)
  have "\<exists>y \<in> set (db_executions (fst (execrepo_SaveLogs d i l))). xr_id y = i \<and> xr_status y = StatusRunning"
  proof -
    obtain y where y: "y \<in> set (db_executions d)" "xr_id y = i" "xr_status y = StatusRunning" using Cons.prems by blast
    let ?u = "\<lambda>x. if xr_id x = i \<and> xr_status x = StatusRunning then x\<lparr>xr_logs := l, xr_version := xr_version x + 1\<rparr> else x"
    have "fst (execrepo_SaveLogs d i l) = d \<or> ?u y \<in> set (db_executions (fst (execrepo_SaveLogs d i l)))"
      using y(1) by (auto simp: execrepo_SaveLogs_def split: option.splits)
    moreover have "xr_id (?u y) = i" "xr_status (?u y) = StatusRunning" using y by simp_all
    ultimately show ?thesis using y by metis
  qed
  then show ?case using Cons.IH by simp
qed simp

text \<open>Every error of \<open>Execution.Validate\<close> wraps \<open>ErrInvalid\<close>.\<close>

definition wraps :: "sentinel \<Rightarrow> go_err \<Rightarrow> bool" where
  "wraps s err \<longleftrightarrow> (\<forall>e. err = Some e \<longrightarrow> errors_is e s)"

lemma wraps_simps [simp]:
  "wraps s None" "wraps s (guard c (wrapf s m))" "wraps s (rethrow s err)"
  by (auto simp: wraps_def rethrow_def)

lemma wraps_first_err: "(\<forall>x \<in> set xs. wraps s x) \<Longrightarrow> wraps s (first_err xs)"
  by (induction xs rule: first_err.induct) (auto simp: wraps_def)

lemma exec_Validate_wraps: "wraps Execution_ErrInvalid (exec_Validate r)"
proof -
  have "wraps Execution_ErrInvalid (exec_status_checks r)"
    unfolding exec_status_checks_def by (cases "exe_Status r") (auto intro!: wraps_first_err)
  moreover have "wraps Execution_ErrInvalid (case exe_Failure r of None \<Rightarrow> None | Some f \<Rightarrow> exec_failure_Validate f)"
    by (simp add: exec_failure_Validate_def split: option.split)
  moreover have "\<forall>x \<in> set (exec_id_checks r). wraps Execution_ErrInvalid x"
    by (auto simp: exec_id_checks_def)
  ultimately show ?thesis unfolding exec_Validate_def by (intro wraps_first_err) simp
qed

lemma errors_is_unique: "errors_is e s \<Longrightarrow> errors_is e s' \<Longrightarrow> s = s'"
  by (cases e) simp_all

lemma ProcessOne_overlong_logs:
  assumes "repo_ok pg (wo_db w)"
    and "execrepo_ClaimQueued pg (wo_db w) (we_locked env) (we_now env) = (d1, Inr r)"
    and "execute env opts rs rp r (w\<lparr>wo_db := d1\<rparr>) = (w2, out, logs, fl)" and "MaxLogBytes < length logs"
  shows "\<exists>e. ProcessOne pg env opts rs rp w = (w2, Some e) \<and> worker_stops e
    \<and> (\<exists>y \<in> set (db_executions (wo_db w2)). xr_id y = exe_ID r \<and> xr_status y = StatusRunning)"
proof -
  note r = claimed_running [OF assms(1,2)]
  let ?n = "case fl of Some f \<Rightarrow> failed r f logs (we_finished env) | None \<Rightarrow> succeeded r out logs (we_finished env)"
  have "\<not> exec_ok ?n" using assms(4) by (auto simp: exec_ok_def failed_def succeeded_def split: option.splits)
  then obtain e where e: "exec_Validate ?n = Some e" using exec_Validate_None_iff [of ?n] by (metis not_None_eq)
  then have inv: "errors_is e Execution_ErrInvalid" using exec_Validate_wraps [of ?n] by (simp add: wraps_def)
  have "(case fl of Some f \<Rightarrow> exec_Fail r f logs (we_finished env) | None \<Rightarrow> exec_Succeed r out logs (we_finished env)) = (?n, Some e)"
    using r(2) e by (auto simp: exec_Fail_def exec_Succeed_def split: option.splits)
  then have "ProcessOne pg env opts rs rp w = (w2, Some (annotate (''worker: finish execution '' @ exe_ID r) e))"
    using assms(2,3) by (simp add: ProcessOne_def)
  moreover have "worker_stops (annotate (''worker: finish execution '' @ exe_ID r) e)"
    using errors_is_unique [OF inv] by (auto simp: worker_stops_def)
  moreover obtain ls where "wo_db w2 = save_all d1 (exe_ID r) ls" using execute_outcome(1) [OF assms(3)] by auto
  ultimately show ?thesis using running_after_logs [OF ClaimQueued_row [OF assms(1,2)], of ls] by auto
qed

text \<open>From a store that says what it holds, with nothing failing, materializing succeeds.\<close>

lemma materialize_runs:
  assumes "rp_open rp bl (art_StorageKey item)
      = (bl', Inr (bytes, \<lparr>info_storageKey = key, info_sizeBytes = length bytes, info_sha256 = sha256_hex bytes\<rparr>))"
    and "int (length bytes) = art_SizeBytes item" and "sha256_hex bytes = art_SHA256 item"
    and "map_of t target = None" and "is_dir (map_of t (butlast target))"
    and "we_ctx env = (\<lambda>k. None)" and "we_room env (art_ID item) = None" and "we_close env (art_ID item) = None"
  shows "materialize env rp item target bl t = (bl', (target, IFile bytes 384) # t, None)"
  using assms CopyAndHashContext_flows [of "[(bytes, None)]" "art_SizeBytes item" "we_ctx env"]
  by (simp add: materialize_def)

text \<open>A run by the Python runner on a host where nothing fails.\<close>

lemma run_layers_logs:
  assumes "map_of rs (bld_Runtime produced) = Some exec"
  shows "fst (snd (snd (run_layers env opts rs work produced r w)))
    = rs_Logs (fst (exec (run_request opts work r (mint_token env opts (exe_ID r) (bld_AppID produced)))))"
  using assms by (auto simp: run_layers_def split: prod.splits option.splits)

section \<open>Properties\<close>

text \<open>
  C10: what the worker claims it finishes. When a claim succeeds, whatever then happens (no
  build, bad artifacts, a missing runner, a handler that fails, times out or succeeds),
  \<open>ProcessOne\<close> returns without an error and the row is terminal with the outcome of the run,
  provided the runners keep their contract, the logs are within their bound and text, the
  server takes the documents, and the clock did not run backwards.
\<close>

theorem ProcessOne_finishes:
  assumes "jsonb_canonical pg" and "repo_ok pg (wo_db w)"
    and "execrepo_ClaimQueued pg (wo_db w) (we_locked env) (we_now env) = (d1, Inr r)"
    and "execute env opts rs rp r (w\<lparr>wo_db := d1\<rparr>) = (w2, out, logs, fl)"
    and "\<forall>x \<in> set rs. runner (snd x)" and "wk_MaxResultBytes opts \<le> int MaxInlineOutputBytes"
    and "length logs \<le> MaxLogBytes" and "pg_text_ok logs"
    and "fl = None \<longrightarrow> stored_output_ok pg out" and "pg_failure_document fl \<noteq> None"
    and "postgresTime (we_now env) \<le> we_finished env"
  shows "\<exists>m. ProcessOne pg env opts rs rp w = (w2\<lparr>wo_db := put_row (wo_db w2) m\<rparr>, None)
    \<and> xr_id m = exe_ID r \<and> xr_logs m = logs \<and> xr_build_id m = exe_BuildID r
    \<and> xr_status m = (if fl = None then StatusSucceeded else StatusFailed)
    \<and> xr_finished_at m = Some (pg_time (we_finished env))"
proof -
  note r = claimed_running [OF assms(2,3)]
  note ex = execute_outcome [OF assms(4)]
  obtain ls where ls: "wo_db w2 = save_all d1 (exe_ID r) ls" using ex(1) by auto
  let ?n = "case fl of Some f \<Rightarrow> failed r f logs (we_finished env) | None \<Rightarrow> succeeded r out logs (we_finished env)"
  have docs: "json_valid (raw_bytes out) \<and> length (raw_bytes out) \<le> MaxInlineOutputBytes" if "fl = None"
  proof -
    obtain x request res es where x: "x \<in> set rs" "snd x request = (res, None, es)"
      "rq_MaxResultBytes request = wk_MaxResultBytes opts" "out = rs_Output res" using ex(3) [OF \<open>fl = None\<close>] by blast
    then have "runner (snd x)" using assms(5) by blast
    from runner.output_json [OF this x(2)] show ?thesis using x(3,4) assms(6)
      by (auto simp: nullResult_def raw_bytes_def MaxInlineOutputBytes_def)
  qed
  have fin: "exec_Succeed r out logs (we_finished env) = (?n, None) \<or> (\<exists>f. exec_Fail r f logs (we_finished env) = (?n, None))"
    and step: "(case fl of Some f \<Rightarrow> exec_Fail r f logs (we_finished env) | None \<Rightarrow> exec_Succeed r out logs (we_finished env)) = (?n, None)"
    using succeeded_ok [OF r(1,2)] failed_ok [OF r(1,2)] docs ex(2) assms(7,11) r
    by (auto simp: exec_Succeed_def exec_Fail_def split: option.splits)
  then obtain f where fin': "exec_Succeed r out logs (we_finished env) = (?n, None) \<or> exec_Fail r f logs (we_finished env) = (?n, None)"
    by blast
  have "stored_output_ok pg (exe_Output ?n)" "pg_failure_document (exe_Failure ?n) \<noteq> None" "pg_text_ok (exe_Logs ?n)"
    using assms(8-10) docs
    by (auto simp: failed_def succeeded_def stored_output_ok_def pg_document_def append_nil_def pg_failure_document_def
        split: option.splits)
  from finalize_claimed [OF assms(1-3) fin' this, of ls]
  obtain v m where m: "encode_row pg ?n v = Some m" "execrepo_Finalize pg (wo_db w2) ?n = (put_row (wo_db w2) m, None)"
    using ls by auto
  have "xr_id m = exe_ID r \<and> xr_logs m = logs \<and> xr_build_id m = exe_BuildID r
    \<and> xr_status m = (if fl = None then StatusSucceeded else StatusFailed)
    \<and> xr_finished_at m = Some (pg_time (we_finished env))"
    using m(1) by (auto simp: encode_row_def succeeded_def failed_def split: option.splits if_splits)
  then show ?thesis using assms(3,4) step m(2) by (intro exI [of _ m]) (simp add: ProcessOne_def)
qed


text \<open>
  Through a cache every artifact is materialized at most once. When the store the worker
  reads from is the cache and holds a copy, \<open>materialize\<close> of a valid artifact fails, although
  the copy is the artifact, and nothing is written.
\<close>

lemma materialize_cache_hit:
  assumes "ValidateArtifact item = None" and "ca_files c (art_StorageKey item) = Some bytes"
    and "art_SizeBytes item = int (length bytes)" and "art_SHA256 item = sha256_hex bytes"
    and "rp_open rp = cache_Open remote cenv"
  shows "\<exists>c'. materialize env rp item target c t
    = (c', t, Some (Plain ''artifact metadata does not match stored blob''))"
proof -
  have key: "ValidateStorageKey (art_StorageKey item) = None"
    using assms(1) by (simp add: ValidateArtifact_def)
  have "[] \<noteq> sha256_hex bytes" using length_sha256_hex [of bytes] by (metis list.size(3) zero_neq_numeral)
  then show ?thesis using assms key by (simp add: materialize_def cache_Open_def hit_def)
qed

text \<open>
  C30: a materialized artifact is the artifact. Whenever \<open>materialize\<close> returns without an error,
  from whatever store, the target file is new and its contents have the length and the
  digest the build recorded, and no other file changed.
\<close>

theorem materialize_verified:
  assumes "materialize env rp item target bl t = (bl', t', None)"
  shows "\<exists>bytes. map_of t target = None \<and> map_of t' target = Some (IFile bytes 384)
    \<and> int (length bytes) = art_SizeBytes item \<and> sha256_hex bytes = art_SHA256 item
    \<and> (\<forall>q. q \<noteq> target \<longrightarrow> map_of t' q = map_of t q)"
proof -
  obtain bytes meta where op: "rp_open rp bl (art_StorageKey item) = (bl', Inr (bytes, meta))"
    using assms by (auto simp: materialize_def split: prod.splits sum.splits if_splits)
  obtain res err w where copy: "CopyAndHashContext (we_ctx env) \<lparr>wr_bytes = [], wr_room = we_room env (art_ID item)\<rparr>
      [(bytes, None)] (art_SizeBytes item) = (res, err, w)" by (metis prod_cases3)
  have t': "t' = (target, IFile (wr_bytes w) 384) # t" "err = None" "int (cr_SizeBytes res) = art_SizeBytes item"
    "cr_SHA256 res = art_SHA256 item" "map_of t target = None"
    using assms op copy by (auto simp: materialize_def split: if_splits)
  show ?thesis using CopyAndHashContext_whole [OF copy [unfolded t'(2)]] t' by auto
qed

section \<open>A worked example\<close>

text \<open>
  One queued execution of a build with one layer, a store that holds its archive, and a
  Python handler that prints and returns.
\<close>

definition packed_layer :: artifact where
  "packed_layer =
     \<lparr>art_ID = ''art_2'', art_Name = ''code'', art_SizeBytes = 2, art_SHA256 = sha256_hex ''PK'',
      art_StorageKey = ''bld_1/art_2.zip'', art_CreatedAt = 7\<rparr>"

definition packed_build :: build where
  "packed_build = sample_build\<lparr>bld_Artifacts := [packed_layer]\<rparr>"

definition packed_repo :: "unit repo" where
  "packed_repo =
     \<lparr>rp_put = (\<lambda>s k r m. (s, Inl (Plain ''read-only''))),
      rp_open = (\<lambda>s k. (s, Inr (''PK'', \<lparr>info_storageKey = k, info_sizeBytes = 2, info_sha256 = sha256_hex ''PK''\<rparr>))),
      rp_delete = (\<lambda>s k. (s, Some (Plain ''read-only'')))\<rparr>"

definition sample_wdb :: db where
  "sample_wdb = sample_db\<lparr>db_builds := [packed_build]\<rparr>"

definition sample_wenv :: worker_env where
  "sample_wenv =
     \<lparr>we_now = 20500, we_finished = 30000, we_locked = [], we_work = Inr [''w''], we_ctx = (\<lambda>k. None),
      we_room = (\<lambda>a. None), we_close = (\<lambda>a. None), we_unzip = sample_unzip, we_uc = sample_uc,
      we_zip = (\<lambda>a. sample_zenv), we_runctx = None, we_mint = None, we_revoke = None\<rparr>"

definition sample_opts :: worker_options where
  "sample_opts =
     \<lparr>wk_PollInterval = 250000000, wk_RunTimeout = 300000000000, wk_MaxResultBytes = 4194304,
      wk_MaxLogBytes = int MaxLogBytes, wk_MaxArtifactBytes = 268435456, wk_MaxArchiveEntries = 1000,
      wk_MaxArchiveExpandedBytes = 268435456, wk_CallbackAddress = []\<rparr>"

definition sample_world :: "unit world" where
  "sample_world = \<lparr>wo_db = sample_wdb, wo_blobs = (), wo_tree = [([], IDir 493)], wo_tokens = []\<rparr>"

definition saying :: "log_event list \<Rightarrow> child" where
  "saying es cmd input = \<lparr>pr_events = es, pr_err = None, pr_ctx = None, pr_result = Inr (Some ''null'')\<rparr>"

definition sample_runners :: "log_event list \<Rightarrow> runners" where
  "sample_runners es = [(RuntimePython, python_Execute sample_host (saying es) sample_ro)]"

lemma sample_wdb_ok: "repo_ok sample_pg sample_wdb"
  using sample_db_ok by (simp add: repo_ok_def sample_wdb_def)

lemma sample_wclaim:
  "execrepo_ClaimQueued sample_pg sample_wdb [] 20500
     = (put_row sample_wdb (claim_row sample_row 20000), Inr (claimed (row_record sample_db sample_row) 20000))"
proof -
  have rec: "row_record sample_wdb sample_row = row_record sample_db sample_row"
    by (simp add: row_record_def sample_wdb_def)
  have "order_rows sample_pg (queued_rows sample_wdb []) = [sample_row]"
    using sample_claimable(1) by (simp add: queued_rows_def joined_def sample_wdb_def)
  note eq = ClaimQueued_eq [OF sample_wdb_ok sample_claimable(2,4) this, unfolded rec sample_claimable(3)]
  have "xr_created_at sample_row \<le> 20000" by (simp add: sample_row_def)
  with eq show ?thesis using sample_row_ok by simp
qed

lemma sample_archive_path:
  "path_parts (filepath_join (abs_path [''w'']) (''art_2'' @ ''.zip'')) = [''w'', ''art_2.zip'']"
  "filepath_join (abs_path [''w'']) ''code'' = abs_path [''w'', ''code'']"
  using filepath_join_abs [of "[''w'']" "[''art_2.zip'']"] filepath_join_abs [of "[''w'']" "[''code'']"]
    path_parts_abs_path [of "[''w'', ''art_2.zip'']"]
  by (simp_all add: normal_component_def sl_def)

definition sample_work :: tree where
  "sample_work = [([''w'', ''art_2.zip''], IFile ''PK'' 384), ([''w''], IDir 448), ([], IDir 493)]"

lemma sample_work_ok: "tree_ok sample_work" "rooted sample_work [''w'']"
  by (auto simp: tree_ok_def rooted_def sample_work_def strict_prefix_def prefix_Cons Cons_eq_append_conv
      append_eq_Cons_conv split: if_splits)

lemma sample_work_extracts:
  "\<exists>t stats. ExtractZIPFile sample_unzip sample_uc sample_zenv sample_work
      (filepath_join (abs_path [''w'']) (''art_2'' @ ''.zip'')) (abs_path [''w'', ''code''])
      \<lparr>al_MaxEntries = 1000, al_MaxExpandedBytes = 268435456\<rparr> = (t, Inr stats)"
proof -
  have "normalizeArchiveLimits sample_norm = Inr sample_norm"
    by (simp add: normalizeArchiveLimits_def sample_norm_def)
  then obtain t where "ExtractZIP sample_unzip sample_uc sample_zenv sample_work (Some ''PK'') 2 (abs_path [''w'', ''code'']) sample_norm
     = (t, Inr \<lparr>xs_Files = 1, xs_Directories = 1, xs_ExpandedBytes = 3\<rparr>)"
    using ExtractZIP_runs [of sample_norm sample_norm sample_unzip "''PK''" "[sample_file, sample_folder]" sample_uc
      sample_entries 3 "\<lparr>xs_Files = 1, xs_Directories = 1, xs_ExpandedBytes = 0\<rparr>" sample_zenv 7 sample_work
      "[''w'', ''code'']"] sample_inspect sample_packed sample_work_ok sample_dest sample_two
    by (auto simp: sample_norm_def sample_unzip_def calm_def sample_zenv_def sample_work_def staging_of_def)
  moreover have "map_of sample_work [''w'', ''art_2.zip''] = Some (IFile ''PK'' 384)" by (simp add: sample_work_def)
  ultimately show ?thesis unfolding ExtractZIPFile_def sample_archive_path by (simp add: sample_norm_def)
qed

lemma sample_fetch:
  "\<exists>t. fetch_layers sample_wenv sample_opts packed_repo [''w''] 268435456 [packed_layer] ()
      [([''w''], IDir 448), ([], IDir 493)] = ((), t, None)"
proof -
  have mat: "materialize sample_wenv packed_repo packed_layer [''w'', ''art_2.zip''] () [([''w''], IDir 448), ([], IDir 493)]
      = ((), sample_work, None)"
    unfolding sample_work_def
    by (rule materialize_runs [where key = "''bld_1/art_2.zip''"])
       (simp_all add: packed_repo_def packed_layer_def sample_wenv_def)
  obtain t stats where "ExtractZIPFile sample_unzip sample_uc sample_zenv sample_work
      (filepath_join (abs_path [''w'']) (''art_2'' @ ''.zip'')) (abs_path [''w'', ''code''])
      \<lparr>al_MaxEntries = 1000, al_MaxExpandedBytes = 268435456\<rparr> = (t, Inr stats)" using sample_work_extracts by blast
  then have "fetch_layers sample_wenv sample_opts packed_repo [''w''] 268435456 [packed_layer] ()
      [([''w''], IDir 448), ([], IDir 493)] = ((), t, None)"
    using mat sample_archive_path(1)
    by (simp add: packed_layer_def [THEN arg_cong [of _ _ art_ID]] packed_layer_def [THEN arg_cong [of _ _ art_Name]]
        packed_layer_def [THEN arg_cong [of _ _ art_SizeBytes]] sample_archive_path(2) sample_wenv_def sample_opts_def)
  then show ?thesis by blast
qed

lemma sample_python:
  "python_Execute sample_host (saying es) sample_ro request
     = (let logs = lb_String (lb_run (lb_new (rq_MaxLogBytes request)) es) in
        if 4 > rq_MaxResultBytes request
        then (\<lparr>rs_Output = None, rs_Logs = logs\<rparr>, Some (Bare Worker_ErrResultTooLarge), es)
        else (\<lparr>rs_Output = Some ''null'', rs_Logs = logs\<rparr>, None, es))"
  using json_valid_null
  by (simp add: python_Execute_def sample_host_def saying_def run_collect_def)

lemma sample_runner_ok: "\<forall>x \<in> set (sample_runners es). runner (snd x)"
  using python.runner_axioms by (simp add: sample_runners_def)

lemma sample_lookup:
  "buildrepo_GetByID (put_row sample_wdb (claim_row sample_row 20000))
     (exe_BuildID (claimed (row_record sample_db sample_row) 20000)) = Inr packed_build"
proof -
  have "build_ValidateIdentifier ''build_id'' ''bld_1'' = None" by code_simp
  then show ?thesis
    by (simp add: buildrepo_GetByID_def put_row_def sample_wdb_def claimed_def row_record_def sample_row_def
        packed_build_def sample_build_def)
qed

lemma sample_execute:
  "\<exists>w2. execute sample_wenv sample_opts (sample_runners es) packed_repo (claimed (row_record sample_db sample_row) 20000)
      (sample_world\<lparr>wo_db := put_row sample_wdb (claim_row sample_row 20000)\<rparr>)
    = (w2, Some ''null'', lb_String (lb_run (lb_new (int MaxLogBytes)) es), None)"
proof -
  obtain t where fetch: "fetch_layers sample_wenv sample_opts packed_repo [''w''] 268435456 [packed_layer] ()
      [([''w''], IDir 448), ([], IDir 493)] = ((), t, None)" using sample_fetch by blast
  have f: "bld_Artifacts packed_build = [packed_layer]" "bld_Runtime packed_build = RuntimePython"
    by (simp_all add: packed_build_def sample_build_def)
  have o: "wk_MaxArtifactBytes sample_opts = 268435456" "wk_MaxLogBytes sample_opts = int MaxLogBytes"
    "wk_MaxResultBytes sample_opts = 4194304" by (simp_all add: sample_opts_def)
  have e: "we_work sample_wenv = Inr [''w'']" "wo_tree sample_world = [([], IDir 493)]" "wo_blobs sample_world = ()"
    by (simp_all add: sample_wenv_def sample_world_def)
  show ?thesis
    by (simp add: execute_def sample_lookup e f o fetch run_layers_def sample_runners_def sample_python run_request_def
        del: fetch_layers.simps)
qed

theorem ProcessOne_finishes_witness:
  "\<exists>w2 m. ProcessOne sample_pg sample_wenv sample_opts (sample_runners [Output ''ab'']) packed_repo sample_world
      = (w2\<lparr>wo_db := put_row (wo_db w2) m\<rparr>, None)
    \<and> xr_id m = ''exe_1'' \<and> xr_status m = StatusSucceeded \<and> xr_logs m = ''ab''"
proof -
  obtain w2 where ex: "execute sample_wenv sample_opts (sample_runners [Output ''ab'']) packed_repo
      (claimed (row_record sample_db sample_row) 20000)
      (sample_world\<lparr>wo_db := put_row sample_wdb (claim_row sample_row 20000)\<rparr>)
    = (w2, Some ''null'', lb_String (lb_run (lb_new (int MaxLogBytes)) [Output ''ab'']), None)"
    using sample_execute [of "[Output ''ab'']"] by auto
  have logs: "lb_String (lb_run (lb_new (int MaxLogBytes)) [Output ''ab'']) = ''ab''"
    using lb_String_run [of "int MaxLogBytes" "[Output ''ab'']"] visible_ascii_trim [of "''ab''"]
    by (simp add: MaxLogBytes_def byte_val_def)
  have "pg_text_ok ''ab''" unfolding pg_text_ok_def by code_simp
  moreover have "stored_output_ok sample_pg (Some ''null'')"
    using sample_finish_stored(1) [of sample_exec] by (simp add: succeeded_def append_nil_def)
  moreover have "repo_ok sample_pg (wo_db sample_world)"
    "execrepo_ClaimQueued sample_pg (wo_db sample_world) (we_locked sample_wenv) (we_now sample_wenv)
      = (put_row sample_wdb (claim_row sample_row 20000), Inr (claimed (row_record sample_db sample_row) 20000))"
    using sample_wdb_ok sample_wclaim by (simp_all add: sample_world_def sample_wenv_def)
  ultimately show ?thesis
    using ProcessOne_finishes [OF sample_pg_ok(1) _ _ ex [unfolded logs] sample_runner_ok] sample_claimed_id sample_claimable(3)
    by (auto simp: sample_opts_def MaxInlineOutputBytes_def MaxLogBytes_def pg_failure_document_def sample_wenv_def)
qed

lemma visible_replicate: "visible_ascii (replicate n CHR ''x'')"
  by (induction n) (simp_all add: byte_val_def)


text \<open>A digest is what \<open>ValidateArtifact\<close> asks for.\<close>

lemma sha256_hex_runes: "list_all hex_rune (runes (sha256_hex s))"
proof -
  have hex: "\<forall>c \<in> set hex_digits. hex_rune (byte_val c) \<and> byte_val c < 128"
    by (simp add: hex_digits_def hex_rune_def byte_val_def)
  then have "is_ascii (sha256_hex s)" using set_sha256_hex [of s] by (auto simp: is_ascii_def list_all_iff)
  then show ?thesis using hex set_sha256_hex [of s] by (auto simp: is_ascii_runes list_all_iff)
qed

lemma packed_layer_valid: "ValidateArtifact packed_layer = None"
proof -
  have "list_all hex_rune (runes (sha256_hex ''PK''))" by (rule sha256_hex_runes)
  moreover have "ValidateArtifact packed_layer = None \<longleftrightarrow>
      length (sha256_hex ''PK'') = 64 \<and> list_all hex_rune (runes (sha256_hex ''PK''))"
    using sample_artifact_valid by (auto simp: ValidateArtifact_def packed_layer_def sample_artifact_def)
  ultimately show ?thesis by simp
qed

theorem materialize_verified_witness:
  "\<exists>t' bytes. materialize sample_wenv packed_repo packed_layer [''w'', ''art_2.zip''] ()
       [([''w''], IDir 448), ([], IDir 493)] = ((), t', None)
     \<and> map_of t' [''w'', ''art_2.zip''] = Some (IFile bytes 384) \<and> length bytes = 2"
proof -
  have run: "materialize sample_wenv packed_repo packed_layer [''w'', ''art_2.zip''] () [([''w''], IDir 448), ([], IDir 493)]
      = ((), sample_work, None)"
    unfolding sample_work_def
    by (rule materialize_runs [where key = "''bld_1/art_2.zip''"])
       (simp_all add: packed_repo_def packed_layer_def sample_wenv_def)
  from materialize_verified [OF this] run show ?thesis by (auto simp: packed_layer_def)
qed

end
