(* ===== verification/Deployer.thy ===== *)
theory Deployer
  imports Worker
begin

text \<open>
  \<open>internal/builder/deployer.go\<close>: claim the oldest queued deployment, fetch and unpack its
  commit, run the toolchain of its runtime over it while its output is written to the row,
  store the layers, seal the build and finish the deployment. Where the commit comes from and
  the toolchain are the interfaces \<open>Source\<close> and \<open>Builder\<close>, arguments here; the clock readings,
  identifiers and what the file system answers are fields of \<open>deployer_env\<close>.
\<close>

section \<open>Options\<close>

record deployer_options =
  dp_PollInterval :: int
  dp_BuildTimeout :: int
  dp_CacheDirectory :: string
  dp_MaxArtifactBytes :: int
  dp_MaxArchiveEntries :: int
  dp_MaxArchiveExpandedBytes :: int

record layer =
  ly_Name :: string
  ly_Path :: string

record build_request =
  br_SourceDirectory :: string
  br_WorkDirectory :: string
  br_CacheDirectory :: string

text \<open>
  A toolchain run: from the request and the files, the files it leaves, its layers or error,
  and the output it printed, with the moments the follower's ticker fires in between.
\<close>

type_synonym toolchain = "build_request \<Rightarrow> tree \<Rightarrow> tree \<times> layer list result \<times> log_event list"

type_synonym toolchains = "(runtime \<times> toolchain) list"

definition NewDeployer :: "toolchains \<Rightarrow> deployer_options \<Rightarrow> deployer_options result" where
  "NewDeployer tcs o0 =
     (if tcs = [] then Inl (Plain ''builder: at least one toolchain is required'')
      else if dp_PollInterval o0 < 0 \<or> dp_BuildTimeout o0 < 0 \<or> dp_MaxArtifactBytes o0 < 0
           \<or> dp_MaxArchiveEntries o0 < 0 \<or> dp_MaxArchiveExpandedBytes o0 < 0
      then Inl (Plain ''builder: options cannot be negative'')
      else Inr (o0\<lparr>dp_PollInterval := or_default (dp_PollInterval o0) 250000000,
                   dp_BuildTimeout := or_default (dp_BuildTimeout o0) 300000000000,
                   dp_MaxArtifactBytes := or_default (dp_MaxArtifactBytes o0) 268435456,
                   dp_MaxArchiveEntries := or_default (dp_MaxArchiveEntries o0) DefaultMaxArchiveEntries,
                   dp_MaxArchiveExpandedBytes :=
                     or_default (dp_MaxArchiveExpandedBytes o0) DefaultMaxArchiveExpandedBytes\<rparr>))"

section \<open>The world\<close>

record 'r deploy_world =
  dw_db :: ddb
  dw_blobs :: 'r
  dw_tree :: tree

record deployer_env =
  de_claimed :: time
  de_advanced :: time
  de_layer_times :: "nat \<Rightarrow> time"
  de_built :: time
  de_finished :: time
  de_locked :: "string list"
  de_work :: "string list result"
  de_fetch :: "string \<Rightarrow> string \<Rightarrow> string \<Rightarrow> tree \<Rightarrow> tree \<times> go_err"
  de_unzip :: "string \<Rightarrow> int \<Rightarrow> zip_file list result"
  de_uc :: unicode
  de_zip :: zip_env
  de_cache :: "string \<Rightarrow> string result"
  de_buildctx :: go_err
  de_build_id :: "string result"
  de_artifact_ids :: "nat \<Rightarrow> string result"

definition deploy_failure :: "string \<Rightarrow> error \<Rightarrow> dep_failure" where
  "deploy_failure code cause =
     (let message = (if trim_space (error_text cause) \<noteq> [] then trim_space (error_text cause) else ''operation failed'')
      in \<lparr>df_Code = code, df_Message = (if length message > 4096 then take 4096 message else message)\<rparr>)"

definition deployer_allocateID :: "string \<Rightarrow> string result \<Rightarrow> string result" where
  "deployer_allocateID pre newID =
     (case newID of
        Inl e \<Rightarrow> Inl (annotate (''allocate '' @ pre @ '' ID'') e)
      | Inr v \<Rightarrow> check (dep_ValidateIdentifier (pre @ ''_id'') v) (Inr v))"

section \<open>Following the toolchain\<close>

text \<open>
  \<open>logStream\<close>: the output goes onto the record at once and, when the ticker fires, a snapshot
  of the record is saved; a save that fails is only logged. \<open>Close\<close> flushes what is left.
\<close>

definition deploy_flush :: "ddb \<Rightarrow> deployment \<Rightarrow> bool \<Rightarrow> ddb" where
  "deploy_flush d r written = (if written then fst (deprepo_Save d r) else d)"

fun deploy_follow :: "ddb \<Rightarrow> deployment \<Rightarrow> bool \<Rightarrow> log_event list \<Rightarrow> ddb \<times> deployment" where
  "deploy_follow d r written [] = (deploy_flush d r written, r)"
| "deploy_follow d r written (Output payload # es) = deploy_follow d (dep_Log r payload) True es"
| "deploy_follow d r written (Tick # es) = deploy_follow (deploy_flush d r written) r False es"

section \<open>Storing layers\<close>

definition deployer_store ::
  "deployer_env \<Rightarrow> 'r repo \<Rightarrow> tree \<Rightarrow> string \<Rightarrow> nat \<Rightarrow> layer \<Rightarrow> int \<Rightarrow> 'r \<Rightarrow> 'r \<times> artifact result"
where
  "deployer_store env rp t buildID n ly maximumBytes bl =
     (case map_of t (path_parts (ly_Path ly)) of
        None \<Rightarrow> (bl, Inl (Plain ''inspect built artifact: no such file or directory''))
      | Some (IFile bytes m) \<Rightarrow>
          (case deployer_allocateID ''art'' (de_artifact_ids env n) of
             Inl e \<Rightarrow> (bl, Inl e)
           | Inr artifactID \<Rightarrow>
               let storageKey = StorageKeyFor buildID artifactID in
               (case rp_put rp bl storageKey [(bytes, None)] maximumBytes of
                  (bl', Inl e) \<Rightarrow> (bl', Inl e)
                | (bl', Inr meta) \<Rightarrow>
                    (bl', Inr \<lparr>art_ID = artifactID, art_Name = ly_Name ly,
                               art_SizeBytes = int (info_sizeBytes meta), art_SHA256 = info_sha256 meta,
                               art_StorageKey = storageKey, art_CreatedAt = de_layer_times env n\<rparr>)))
      | Some _ \<Rightarrow> (bl, Inl (Plain ''built artifact must be a regular file'')))"

fun store_layers ::
  "deployer_env \<Rightarrow> 'r repo \<Rightarrow> tree \<Rightarrow> string \<Rightarrow> nat \<Rightarrow> layer list \<Rightarrow> int \<Rightarrow> 'r \<Rightarrow> 'r \<times> artifact list result"
where
  "store_layers env rp t buildID n [] remaining bl = (bl, Inr [])"
| "store_layers env rp t buildID n (ly # lys) remaining bl =
     (case deployer_store env rp t buildID n ly remaining bl of
        (bl1, Inl e) \<Rightarrow> (bl1, Inl e)
      | (bl1, Inr a) \<Rightarrow>
          (case store_layers env rp t buildID (Suc n) lys (remaining - art_SizeBytes a) bl1 of
             (bl2, Inl e) \<Rightarrow> (bl2, Inl e) | (bl2, Inr as) \<Rightarrow> (bl2, Inr (a # as))))"

section \<open>One deployment\<close>

fun runtime_text :: "runtime \<Rightarrow> string" where
  "runtime_text RuntimePython = ''python''"
| "runtime_text RuntimeRust = ''rust''"
| "runtime_text RuntimeGo = ''go''"
| "runtime_text RuntimeRuby = ''ruby''"
| "runtime_text RuntimeNode = ''node''"
| "runtime_text (RuntimeOther s) = s"

definition cacheFor :: "deployer_env \<Rightarrow> deployer_options \<Rightarrow> deployment \<Rightarrow> string result" where
  "cacheFor env opts r =
     (if dp_CacheDirectory opts = [] then Inr []
      else de_cache env (filepath_join (filepath_join (dp_CacheDirectory opts) (runtime_text (dep_Runtime r))) (dep_AppID r)))"

definition deployer_advance :: "deployer_env \<Rightarrow> ddb \<Rightarrow> deployment \<Rightarrow> ddb \<times> deployment \<times> go_err" where
  "deployer_advance env d r =
     (case Advance r (de_advanced env) of
        (r', Some e) \<Rightarrow> (d, r', Some e)
      | (r', None) \<Rightarrow>
          (case deprepo_Save d r' of
             (d', Some e) \<Rightarrow> (d', r', Some (annotate ''persist deployment stage'' e))
           | (d', None) \<Rightarrow> (d', r', None)))"

text \<open>Fetching and unpacking: the digest of the source archive, or why there is none.\<close>

definition fetch_source ::
  "deployer_env \<Rightarrow> deployer_options \<Rightarrow> deployment \<Rightarrow> string list \<Rightarrow> tree \<Rightarrow> tree \<times> (dep_failure + string)"
where
  "fetch_source env opts r work t =
     (let archive = filepath_join (abs_path work) ''source.zip'' in
      case de_fetch env (dep_AppID r) (dep_CommitSHA r) archive t of
        (t1, Some e) \<Rightarrow> (t1, Inl (deploy_failure ''source_unavailable'' e))
      | (t1, None) \<Rightarrow>
          (case (case map_of t1 (path_parts archive) of
                   None \<Rightarrow> (\<lparr>cr_SizeBytes = 0, cr_SHA256 = []\<rparr>, Some (Plain ''no such file or directory''))
                 | Some (IFile bytes m) \<Rightarrow> HashFile True bytes (dp_MaxArchiveExpandedBytes opts)
                 | Some _ \<Rightarrow> HashFile False [] (dp_MaxArchiveExpandedBytes opts)) of
             (res, Some e) \<Rightarrow> (t1, Inl (deploy_failure ''source_unavailable'' e))
           | (res, None) \<Rightarrow>
               (case ExtractZIPFile (de_unzip env) (de_uc env) (de_zip env) t1 archive
                       (filepath_join (abs_path work) ''source'')
                       \<lparr>al_MaxEntries = dp_MaxArchiveEntries opts,
                        al_MaxExpandedBytes = dp_MaxArchiveExpandedBytes opts\<rparr> of
                  (t2, Inl e) \<Rightarrow> (t2, Inl (deploy_failure ''source_unavailable'' e))
                | (t2, Inr stats) \<Rightarrow> (t2, Inr (cr_SHA256 res)))))"

text \<open>What follows a toolchain that succeeded: the next stage, the layers, the build.\<close>

definition publish_build ::
  "deployer_env \<Rightarrow> deployer_options \<Rightarrow> 'r repo \<Rightarrow> string \<Rightarrow> layer list \<Rightarrow> deployment \<Rightarrow> 'r deploy_world
     \<Rightarrow> 'r deploy_world \<times> deployment \<times> (dep_failure + build)"
where
  "publish_build env opts rp sourceSHA layers r w =
     (if layers = []
      then (w, r, Inl (deploy_failure ''build_failed'' (Plain ''toolchain produced no layers'')))
      else case deployer_advance env (dw_db w) r of
        (d1, r1, Some e) \<Rightarrow> (w\<lparr>dw_db := d1\<rparr>, r1, Inl (deploy_failure ''build_environment'' e))
      | (d1, r1, None) \<Rightarrow>
          (case deployer_allocateID ''bld'' (de_build_id env) of
             Inl e \<Rightarrow> (w\<lparr>dw_db := d1\<rparr>, r1, Inl (deploy_failure ''artifact_store_failed'' e))
           | Inr buildID \<Rightarrow>
               (case store_layers env rp (dw_tree w) buildID 0 layers (dp_MaxArtifactBytes opts) (dw_blobs w) of
                  (bl, Inl e) \<Rightarrow>
                    (w\<lparr>dw_db := d1, dw_blobs := bl\<rparr>, r1, Inl (deploy_failure ''artifact_store_failed'' e))
                | (bl, Inr artifacts) \<Rightarrow>
                    (let w1 = w\<lparr>dw_db := d1, dw_blobs := bl\<rparr> in
                     case build_New buildID (dep_AppID r1) (dep_ID r1) (dep_Runtime r1) sourceSHA artifacts
                            (de_built env) of
                       Inl e \<Rightarrow> (w1, r1, Inl (deploy_failure ''artifact_store_failed'' e))
                     | Inr produced \<Rightarrow>
                         (case buildrepo_Save d1 produced of
                            (d2, Some e) \<Rightarrow>
                              (w1\<lparr>dw_db := d2\<rparr>, r1, Inl (deploy_failure ''artifact_store_failed'' e))
                          | (d2, None) \<Rightarrow> (w1\<lparr>dw_db := d2\<rparr>, r1, Inr produced))))))"

definition build_code :: "deployer_env \<Rightarrow> error \<Rightarrow> string" where
  "build_code env e =
     (if errors_is e Context_DeadlineExceeded
         \<or> (case de_buildctx env of None \<Rightarrow> False | Some c \<Rightarrow> errors_is c Context_DeadlineExceeded)
      then ''build_timeout'' else ''build_failed'')"

definition deployer_build_in ::
  "deployer_env \<Rightarrow> deployer_options \<Rightarrow> toolchains \<Rightarrow> 'r repo \<Rightarrow> string list \<Rightarrow> deployment \<Rightarrow> 'r deploy_world
     \<Rightarrow> 'r deploy_world \<times> deployment \<times> (dep_failure + build)"
where
  "deployer_build_in env opts tcs rp work r w =
     (case map_of tcs (dep_Runtime r) of
        None \<Rightarrow> (w, r, Inl (deploy_failure ''runtime_unsupported''
            (Plain (''no toolchain for runtime '' @ CHR 0x22 # runtime_text (dep_Runtime r) @ [CHR 0x22]))))
      | Some tc \<Rightarrow>
          (case fetch_source env opts r work (dw_tree w) of
             (t1, Inl f) \<Rightarrow> (w\<lparr>dw_tree := t1\<rparr>, r, Inl f)
           | (t1, Inr sourceSHA) \<Rightarrow>
               (case cacheFor env opts r of
                  Inl e \<Rightarrow> (w\<lparr>dw_tree := t1\<rparr>, r, Inl (deploy_failure ''build_environment'' e))
                | Inr cache \<Rightarrow>
                    (case tc \<lparr>br_SourceDirectory = filepath_join (abs_path work) ''source'',
                              br_WorkDirectory = abs_path work, br_CacheDirectory = cache\<rparr> t1 of
                       (t2, res, events) \<Rightarrow>
                         (case deploy_follow (dw_db w) r False events of
                            (d1, r1) \<Rightarrow>
                              (let w1 = w\<lparr>dw_db := d1, dw_tree := t2\<rparr> in
                               case res of
                                 Inl e \<Rightarrow> (w1, r1, Inl (deploy_failure (build_code env e) e))
                               | Inr layers \<Rightarrow> publish_build env opts rp sourceSHA layers r1 w1))))))"

definition deployer_build ::
  "deployer_env \<Rightarrow> deployer_options \<Rightarrow> toolchains \<Rightarrow> 'r repo \<Rightarrow> deployment \<Rightarrow> 'r deploy_world
     \<Rightarrow> 'r deploy_world \<times> deployment \<times> (dep_failure + build)"
where
  "deployer_build env opts tcs rp r w =
     (case de_work env of
        Inl e \<Rightarrow> (w, r, Inl (deploy_failure ''build_environment'' e))
      | Inr work \<Rightarrow>
          (case deployer_build_in env opts tcs rp work r (w\<lparr>dw_tree := (work, IDir 448) # dw_tree w\<rparr>) of
             (w1, res) \<Rightarrow> (w1\<lparr>dw_tree := remove_all (dw_tree w1) work\<rparr>, res)))"

definition deployer_ProcessOne ::
  "pgsql \<Rightarrow> deployer_env \<Rightarrow> deployer_options \<Rightarrow> toolchains \<Rightarrow> 'r repo \<Rightarrow> 'r deploy_world \<Rightarrow> 'r deploy_world \<times> go_err"
where
  "deployer_ProcessOne pg env opts tcs rp w =
     (case deprepo_ClaimQueued pg (dw_db w) (de_locked env) (de_claimed env) of
        (d1, Inl e) \<Rightarrow> (w\<lparr>dw_db := d1\<rparr>, Some e)
      | (d1, Inr r) \<Rightarrow>
          (case deployer_build env opts tcs rp r (w\<lparr>dw_db := d1\<rparr>) of
             (w2, r2, outcome) \<Rightarrow>
               (case (case outcome of
                        Inl f \<Rightarrow> dep_Fail r2 f (de_finished env)
                      | Inr produced \<Rightarrow> MarkReady r2 produced (de_finished env)) of
                  (r3, Some e) \<Rightarrow>
                    (w2, Some (annotate ((case outcome of
                         Inl f \<Rightarrow> ''builder: fail deployment '' | Inr produced \<Rightarrow> ''builder: finish deployment '')
                       @ dep_ID r) e))
                | (r3, None) \<Rightarrow>
                    (case deprepo_Save (dw_db w2) r3 of
                       (d3, Some e) \<Rightarrow>
                         (w2\<lparr>dw_db := d3\<rparr>, Some (annotate (''builder: persist deployment '' @ dep_ID r) e))
                     | (d3, None) \<Rightarrow> (w2\<lparr>dw_db := d3\<rparr>, None)))))"

definition deployer_Recover :: "ddb \<Rightarrow> time \<Rightarrow> ddb \<times> int result" where
  "deployer_Recover d now =
     RecoverBuilding d now
       \<lparr>df_Code = ''build_interrupted'', df_Message = ''build was interrupted by a service restart''\<rparr>"

definition deployer_stops :: "error \<Rightarrow> bool" where
  "deployer_stops e \<longleftrightarrow> \<not> errors_is e Deployment_ErrNoQueued \<and> \<not> errors_is e Context_Canceled"

fun deployer_Run ::
  "pgsql \<Rightarrow> deployer_options \<Rightarrow> toolchains \<Rightarrow> 'r repo \<Rightarrow> (deployer_env \<times> go_err) list \<Rightarrow> 'r deploy_world
     \<Rightarrow> 'r deploy_world \<times> (error + unit)"
where
  "deployer_Run pg opts tcs rp [] w = (w, Inr ())"
| "deployer_Run pg opts tcs rp ((env, done1) # its) w =
     (case deployer_ProcessOne pg env opts tcs rp w of
        (w1, err) \<Rightarrow>
          if (case err of Some e \<Rightarrow> deployer_stops e | None \<Rightarrow> False) then (w1, Inl (the err))
          else (case done1 of Some c \<Rightarrow> (w1, Inl c) | None \<Rightarrow> deployer_Run pg opts tcs rp its w1))"

section \<open>The row of the deployment in hand\<close>

lemma running_stages [simp]: "Running DepBuilding" "Running DepPublishing"
  by (simp_all add: Running_def)

text \<open>
  While a deployment is being built its row is there, running and of its app: every save of
  the record keeps it so, whether or not the save succeeds.
\<close>

definition held :: "ddb \<Rightarrow> deployment \<Rightarrow> bool" where
  "held d r \<longleftrightarrow> (\<exists>x. find (\<lambda>x. dr_id x = dep_ID r) (dd_deployments d) = Some x
     \<and> Running (dr_status x) \<and> dr_app_id x = dep_AppID r)"

definition same_deployment :: "deployment \<Rightarrow> deployment \<Rightarrow> bool" where
  "same_deployment r r' \<longleftrightarrow>
     dep_ID r' = dep_ID r \<and> dep_AppID r' = dep_AppID r \<and> dep_ProjectID r' = dep_ProjectID r
     \<and> dep_Runtime r' = dep_Runtime r \<and> dep_CommitSHA r' = dep_CommitSHA r \<and> dep_GitRef r' = dep_GitRef r
     \<and> dep_CreatedAt r' = dep_CreatedAt r \<and> dep_StartedAt r' = dep_StartedAt r
     \<and> dep_Build r' = dep_Build r \<and> dep_Failure r' = dep_Failure r \<and> dep_FinishedAt r' = dep_FinishedAt r"

lemma same_deployment_refl [simp]: "same_deployment r r"
  by (simp add: same_deployment_def)

lemma same_deployment_Log: "same_deployment r (dep_Log r out)" "dep_Status (dep_Log r out) = dep_Status r"
  by (simp_all add: same_deployment_def dep_Log_def)

lemma same_deployment_trans: "same_deployment a b \<Longrightarrow> same_deployment b c \<Longrightarrow> same_deployment a c"
  by (simp add: same_deployment_def)

lemma held_cong: "held d r \<Longrightarrow> same_deployment r r' \<Longrightarrow> held d r'"
  by (simp add: held_def same_deployment_def)

lemma find_map_update:
  "(\<And>y. P y \<Longrightarrow> P (g y)) \<Longrightarrow> find P (map (\<lambda>y. if P y then g y else y) xs) = map_option g (find P xs)"
  by (induction xs) auto

lemma find_exists: "x \<in> set xs \<Longrightarrow> P x \<Longrightarrow> \<exists>z. find P xs = Some z"
  by (induction xs) auto

lemma saved_held:
  assumes "saveDeployment d r = (d', e)" and "held d r" and "Running (dep_Status r)"
  shows "held d' r"
proof (cases "d' = d")
  case False
  then obtain n x where n: "encode_dep r 1 = Some n" "find (\<lambda>x. dr_id x = dep_ID r) (dd_deployments d) = Some x"
    "d' = d\<lparr>dd_deployments := map (\<lambda>y. if dr_id y = dep_ID r then n\<lparr>dr_version := dr_version y + 1\<rparr> else y)
        (dd_deployments d)\<rparr>"
    using assms(1,2) by (auto simp: saveDeployment_def held_def split: option.splits if_splits)
  have "dr_id n = dep_ID r" "dr_status n = dep_Status r" "dr_app_id n = dep_AppID r"
    using encode_dep_Some [OF n(1)] by simp_all
  then show ?thesis
    using n assms(3) find_map_update [of "\<lambda>y. dr_id y = dep_ID r" "\<lambda>y. n\<lparr>dr_version := dr_version y + 1\<rparr>" "dd_deployments d"]
    by (simp add: held_def)
qed (use assms in simp)

lemma Save_held:
  "held d r \<Longrightarrow> same_deployment r r' \<Longrightarrow> Running (dep_Status r') \<Longrightarrow> held (fst (deprepo_Save d r')) r"
  using saved_held [of d r'] held_cong [of d r r']
  by (cases "saveDeployment d r'") (auto simp: deprepo_Save_def held_def same_deployment_def split: option.split)

fun outputs :: "log_event list \<Rightarrow> string list" where
  "outputs [] = []"
| "outputs (Output payload # es) = payload # outputs es"
| "outputs (Tick # es) = outputs es"

lemma deploy_follow_record: "snd (deploy_follow d r written es) = foldl dep_Log r (outputs es)"
  by (induction d r written es rule: deploy_follow.induct) simp_all

lemma same_deployment_logged:
  "same_deployment r (foldl dep_Log r os) \<and> dep_Status (foldl dep_Log r os) = dep_Status r"
  by (induction os arbitrary: r) (use same_deployment_Log same_deployment_trans in \<open>auto, metis+\<close>)

lemma logged_cap:
  "length (dep_Logs r) \<le> dep_MaxLogBytes \<Longrightarrow> length (dep_Logs (foldl dep_Log r os)) \<le> dep_MaxLogBytes"
  by (induction os arbitrary: r) (simp_all add: dep_Log_def)

lemma deploy_follow_held:
  "held d r0 \<Longrightarrow> same_deployment r0 r \<Longrightarrow> Running (dep_Status r) \<Longrightarrow> held (fst (deploy_follow d r written es)) r0"
proof (induction d r written es rule: deploy_follow.induct)
  case (2 d r written payload es)
  then show ?case using same_deployment_trans [OF _ same_deployment_Log(1)] same_deployment_Log(2) by simp
qed (simp_all add: deploy_flush_def Save_held)

lemma claim_held:
  assumes "ddb_ok d" and "deprepo_ClaimQueued pg d locked now = (d', Inr r)"
  shows "held d' r" and "dep_Status r = DepBuilding"
    and "\<exists>n. encode_dep r 1 = Some n"
    and "\<exists>r0. Advance r0 (postgresTime now) = (r, None) \<and> dep_Status r0 = DepQueued \<and> dep_ok r0"
proof -
  obtain r0 where r0: "Advance r0 (postgresTime now) = (r, None)" "dep_Status r0 = DepQueued"
    and saved: "saveDeployment d r = (d', None)" and "dep_ok r0"
    using claim_source [OF assms] by blast
  then show building: "dep_Status r = DepBuilding" by (auto simp: Advance_def stages_def split: option.splits)
  obtain n where n: "encode_dep r 1 = Some n" and ex: "\<exists>y \<in> set (dd_deployments d'). dr_id y = dep_ID r"
    and all: "\<forall>y \<in> set (dd_deployments d'). dr_id y = dep_ID r \<longrightarrow> (\<exists>v. y = n\<lparr>dr_version := v\<rparr>)"
    using saved_row [OF saved] by (elim exE conjE)
  then obtain y where y: "y \<in> set (dd_deployments d')" "dr_id y = dep_ID r" by blast
  obtain z where z: "find (\<lambda>x. dr_id x = dep_ID r) (dd_deployments d') = Some z"
    using find_exists [OF y(1), of "\<lambda>x. dr_id x = dep_ID r"] y(2) by auto
  have z_row: "z \<in> set (dd_deployments d')" "dr_id z = dep_ID r" using find_Some_mem [OF z] by simp_all
  have "\<exists>v. z = n\<lparr>dr_version := v\<rparr>" using bspec [OF all z_row(1)] z_row(2) by (rule mp)
  then obtain v where "z = n\<lparr>dr_version := v\<rparr>" by (rule exE)
  then show "held d' r" using z building encode_dep_Some [OF n] by (simp add: held_def)
  show "\<exists>n. encode_dep r 1 = Some n" using n by blast
  show "\<exists>r0. Advance r0 (postgresTime now) = (r, None) \<and> dep_Status r0 = DepQueued \<and> dep_ok r0"
    using r0 \<open>dep_ok r0\<close> by blast
qed

lemma claimed_record:
  assumes "ddb_ok d" and "deprepo_ClaimQueued pg d locked now = (d', Inr r)"
  shows "dep_identity_ok r" and "dep_StartedAt r = Some (postgresTime now)" and "dep_Build r = None"
    and "dep_Failure r = None" and "dep_FinishedAt r = None" and "length (dep_Logs r) \<le> dep_MaxLogBytes"
  using claim_held(4) [OF assms]
  by (auto simp: Advance_def stages_def dep_ok_def dep_outcome_ok_def dep_identity_ok_def split: if_splits)

lemma deploy_failure_ok:
  assumes "code \<noteq> []" and "length code \<le> 128"
  shows "\<not> bad_dep_failure (deploy_failure code e)"
  using newFailure_ok [OF assms, of e]
  by (simp add: bad_dep_failure_def bad_failure_def deploy_failure_def newFailure_def)

lemma build_code_ok: "build_code env e \<noteq> [] \<and> length (build_code env e) \<le> 128"
  by (simp add: build_code_def)

lemma Advance_same:
  assumes "Advance r now = (r', e)" and "dep_Status r = DepBuilding"
  shows "e = None" "same_deployment r r'" "dep_Logs r' = dep_Logs r" "dep_Status r' = DepPublishing"
  using assms by (auto simp: Advance_def stages_def same_deployment_def)

text \<open>What a build leaves behind: the record with its logs, running, and its row still held.\<close>

lemma publish_build_outcome:
  assumes "publish_build env opts rp sha layers r w = (w', r', outcome)" and "held (dw_db w) r"
    and "dep_Status r = DepBuilding"
  shows "held (dw_db w') r \<and> same_deployment r r' \<and> Running (dep_Status r') \<and> dep_Logs r' = dep_Logs r
    \<and> (\<forall>f. outcome = Inl f \<longrightarrow> \<not> bad_dep_failure f)
    \<and> (\<forall>b. outcome = Inr b \<longrightarrow> encode_dep r' 1 \<noteq> None
         \<and> (\<exists>i as. build_New i (dep_AppID r) (dep_ID r) (dep_Runtime r) sha as (de_built env) = Inr b))"
proof (cases "layers = []")
  case True
  then show ?thesis using assms by (auto simp: publish_build_def deploy_failure_ok)
next
  case False
  obtain r1 where r1: "Advance r (de_advanced env) = (r1, None)" "same_deployment r r1" "dep_Logs r1 = dep_Logs r"
    "dep_Status r1 = DepPublishing"
    using Advance_same [OF _ assms(3)] by (metis prod.collapse)
  obtain d1 e1 where d1: "deprepo_Save (dw_db w) r1 = (d1, e1)" by (cases "deprepo_Save (dw_db w) r1")
  have held1: "held d1 r" using Save_held [OF assms(2) r1(2)] d1 r1(4) by simp
  have enc: "encode_dep r1 1 \<noteq> None" if "e1 = None"
    using d1 that by (auto simp: deprepo_Save_def saveDeployment_def split: option.splits)
  have app: "dep_AppID r1 = dep_AppID r" "dep_ID r1 = dep_ID r" "dep_Runtime r1 = dep_Runtime r"
    using r1(2) by (simp_all add: same_deployment_def)
  have builds: "held (fst (buildrepo_Save d1 b)) r" for b
    using held1 by (auto simp: buildrepo_Save_def held_def split: option.split)
  show ?thesis
  proof (cases e1)
    case (Some e)
    then have "w' = w\<lparr>dw_db := d1\<rparr> \<and> r' = r1 \<and> (\<exists>f. outcome = Inl f \<and> \<not> bad_dep_failure f)"
      using assms(1) False r1(1) d1 by (auto simp: publish_build_def deployer_advance_def deploy_failure_ok)
    then show ?thesis using held1 r1 by auto
  next
    case None
    have "dw_db w' = d1 \<or> (\<exists>b. dw_db w' = fst (buildrepo_Save d1 b))" and "r' = r1"
      and "\<forall>f. outcome = Inl f \<longrightarrow> \<not> bad_dep_failure f"
      and "\<forall>b. outcome = Inr b \<longrightarrow>
        (\<exists>i as. build_New i (dep_AppID r1) (dep_ID r1) (dep_Runtime r1) sha as (de_built env) = Inr b)"
      using assms(1) False r1(1) d1 None
      by (auto simp: publish_build_def deployer_advance_def deploy_failure_ok
          split: sum.splits prod.splits option.splits) (metis fst_conv)+
    then show ?thesis using held1 builds r1 enc [OF None] app by auto
  qed
qed

lemma deployer_build_in_outcome:
  assumes "deployer_build_in env opts tcs rp work r w = (w', r', outcome)" and "held (dw_db w) r"
    and "dep_Status r = DepBuilding" and "length (dep_Logs r) \<le> dep_MaxLogBytes"
  shows "held (dw_db w') r \<and> same_deployment r r' \<and> Running (dep_Status r') \<and> length (dep_Logs r') \<le> dep_MaxLogBytes
    \<and> (\<forall>f. outcome = Inl f \<longrightarrow> \<not> bad_dep_failure f)
    \<and> (\<forall>b. outcome = Inr b \<longrightarrow> encode_dep r' 1 \<noteq> None
         \<and> (\<exists>i sha as. build_New i (dep_AppID r) (dep_ID r) (dep_Runtime r) sha as (de_built env) = Inr b))"
proof (cases "map_of tcs (dep_Runtime r)")
  case None
  then show ?thesis using assms by (auto simp: deployer_build_in_def deploy_failure_ok)
next
  case tc: (Some tc)
  obtain t1 src where src: "fetch_source env opts r work (dw_tree w) = (t1, src)" by (cases "fetch_source env opts r work (dw_tree w)")
  have bad: "\<not> bad_dep_failure f" if "src = Inl f" for f
    using src that by (auto simp: fetch_source_def deploy_failure_ok split: prod.splits option.splits sum.splits inode.splits)
  show ?thesis
  proof (cases "\<exists>sha cache. src = Inr sha \<and> cacheFor env opts r = Inr cache")
    case False
    then show ?thesis using assms tc src bad
      by (auto simp: deployer_build_in_def deploy_failure_ok split: sum.splits)
  next
    case True
    then obtain sha cache where sha: "src = Inr sha" "cacheFor env opts r = Inr cache" by blast
    obtain t2 res events where run: "tc \<lparr>br_SourceDirectory = filepath_join (abs_path work) ''source'',
        br_WorkDirectory = abs_path work, br_CacheDirectory = cache\<rparr> t1 = (t2, res, events)"
      by (metis prod_cases3)
    let ?r1 = "foldl dep_Log r (outputs events)"
    obtain d1 where d1: "deploy_follow (dw_db w) r False events = (d1, ?r1)"
      using deploy_follow_record [of "dw_db w" r False events] by (metis prod.collapse)
    have held1: "held d1 r" using deploy_follow_held [OF assms(2), of r False events] assms(3) d1 by simp
    have same: "same_deployment r ?r1" "dep_Status ?r1 = DepBuilding"
      using same_deployment_logged assms(3) by auto
    have cap: "length (dep_Logs ?r1) \<le> dep_MaxLogBytes" using logged_cap [OF assms(4)] .
    show ?thesis
    proof (cases res)
      case (Inl e)
      then have "w' = w\<lparr>dw_db := d1, dw_tree := t2\<rparr>" "r' = ?r1" "outcome = Inl (deploy_failure (build_code env e) e)"
        using assms(1) tc src sha run d1 by (simp_all add: deployer_build_in_def)
      then show ?thesis using held1 same cap deploy_failure_ok build_code_ok by simp
    next
      case (Inr layers)
      then have "publish_build env opts rp sha layers ?r1 (w\<lparr>dw_db := d1, dw_tree := t2\<rparr>) = (w', r', outcome)"
        using assms(1) tc src sha run d1 by (simp add: deployer_build_in_def)
      from publish_build_outcome [OF this _ same(2)] held_cong [OF held1 same(1)] same(1) cap
      show ?thesis by (fastforce simp: held_def same_deployment_def)
    qed
  qed
qed

lemma deployer_build_outcome:
  assumes "deployer_build env opts tcs rp r w = (w', r', outcome)" and "held (dw_db w) r"
    and "dep_Status r = DepBuilding" and "length (dep_Logs r) \<le> dep_MaxLogBytes"
  shows "held (dw_db w') r \<and> same_deployment r r' \<and> Running (dep_Status r') \<and> length (dep_Logs r') \<le> dep_MaxLogBytes
    \<and> (\<forall>f. outcome = Inl f \<longrightarrow> \<not> bad_dep_failure f)
    \<and> (\<forall>b. outcome = Inr b \<longrightarrow> encode_dep r' 1 \<noteq> None
         \<and> (\<exists>i sha as. build_New i (dep_AppID r) (dep_ID r) (dep_Runtime r) sha as (de_built env) = Inr b))"
proof (cases "de_work env")
  case (Inl e)
  then show ?thesis using assms by (auto simp: deployer_build_def deploy_failure_ok)
next
  case (Inr work)
  obtain w1 where w1: "deployer_build_in env opts tcs rp work r (w\<lparr>dw_tree := (work, IDir 448) # dw_tree w\<rparr>) = (w1, r', outcome)"
    and "dw_db w' = dw_db w1"
    using assms(1) Inr by (auto simp: deployer_build_def split: prod.splits)
  then show ?thesis using deployer_build_in_outcome [OF w1] assms(2-4) by simp
qed

lemma dep_Validate_wraps: "wraps Deployment_ErrInvalid (dep_Validate r)"
proof -
  have "wraps Deployment_ErrInvalid (validateTiming r)"
    unfolding validateTiming_def by (intro wraps_first_err) simp
  moreover have "wraps Deployment_ErrInvalid (outcome_status_checks r)"
    unfolding outcome_status_checks_def by (cases "dep_Status r") (auto intro!: wraps_first_err)
  then have "wraps Deployment_ErrInvalid (validateOutcome r)"
    unfolding validateOutcome_def by (intro wraps_first_err) (auto intro!: wraps_first_err split: option.split)
  moreover have "wraps Deployment_ErrInvalid (validateFailure (dep_Failure r))"
    by (simp add: validateFailure_def split: option.split)
  ultimately show ?thesis
    unfolding dep_Validate_def dep_ValidateIdentifier_def by (intro wraps_first_err) simp
qed

text \<open>A record whose logs are not text cannot be saved, and the failure is one that ends the loop.\<close>

lemma unstorable_logs_not_saved:
  assumes "\<not> pg_text_ok (dep_Logs r)"
  shows "\<exists>e. deprepo_Save d r = (d, Some e) \<and> deployer_stops (annotate m e)"
proof (cases "dep_Validate r")
  case None
  moreover have "encode_dep r 1 = None" using assms by (simp add: encode_dep_def split: option.split)
  ultimately show ?thesis by (simp add: deprepo_Save_def saveDeployment_def deployer_stops_def)
next
  case (Some e)
  then have "errors_is e Deployment_ErrInvalid" using dep_Validate_wraps [of r] by (simp add: wraps_def)
  then have "deployer_stops (annotate m e)" using errors_is_unique [of e] by (auto simp: deployer_stops_def)
  with Some show ?thesis by (simp add: deprepo_Save_def)
qed

lemma encode_finished:
  assumes "encode_dep r 1 = Some n" and "same_deployment r r2" and "dep_CommitSHA r3 = dep_CommitSHA r2"
    and "dep_GitRef r3 = dep_GitRef r2" and "dep_Runtime r3 = dep_Runtime r2" and "pg_text_ok (dep_Logs r3)"
    and "length (dep_Logs r3) \<le> dep_MaxLogBytes" and "pg_dep_failure (dep_Failure r3) \<noteq> None"
    and "dep_Valid_status (dep_Status r3)"
  shows "\<exists>n3. encode_dep r3 1 = Some n3"
  using assms
  by (auto simp: encode_dep_def same_deployment_def dep_MaxLogBytes_def split: option.splits if_splits)

lemma held_saved:
  assumes "held d r" and "dep_ID r3 = dep_ID r" and "dep_AppID r3 = dep_AppID r"
    and "dep_ok r3" and "encode_dep r3 1 = Some n"
  shows "\<exists>d'. deprepo_Save d r3 = (d', None)
    \<and> (\<exists>x \<in> set (dd_deployments d'). dr_id x = dep_ID r \<and> dr_status x = dep_Status r3)"
proof -
  from assms(1) obtain x where x: "find (\<lambda>x. dr_id x = dep_ID r) (dd_deployments d) = Some x"
    "Running (dr_status x)" "dr_app_id x = dep_AppID r" unfolding held_def by blast
  have "conflict_update x n" using x encode_dep_Some [OF assms(5)] assms(3) by (simp add: conflict_update_def)
  then obtain d' where saved: "saveDeployment d r3 = (d', None)"
    using x(1) assms(2,5) by (auto simp: saveDeployment_def)
  have "\<exists>x \<in> set (dd_deployments d'). dr_id x = dep_ID r \<and> dr_status x = dep_Status r3"
    using saved_row [OF saved] encode_dep_Some [OF assms(5)] assms(2,5) by fastforce
  then show ?thesis using saved assms(4) by (simp add: deprepo_Save_def)
qed

lemma build_New_Inr:
  "build_New i app dep rt sha as now = Inr b \<Longrightarrow> build_ok b \<and> bld_Runtime b = rt \<and> bld_CreatedAt b = now"
  by (auto simp: build_New_def split: if_splits option.splits)

text \<open>The record a claimed deployment ends with, whichever way the build went.\<close>

definition finished_record :: "deployment \<Rightarrow> dep_failure + build \<Rightarrow> time \<Rightarrow> deployment \<times> go_err" where
  "finished_record r outcome now =
     (case outcome of Inl f \<Rightarrow> dep_Fail r f now | Inr produced \<Rightarrow> MarkReady r produced now)"

lemma finished_record_ok:
  assumes "dep_identity_ok r" and "dep_Build r = None" and "dep_Failure r = None"
    and "dep_StartedAt r = Some s" and "dep_CreatedAt r \<le> s" and "s \<le> now" and "\<not> is_zero now"
    and "Running (dep_Status r)" and "length (dep_Logs r) \<le> dep_MaxLogBytes"
    and "\<forall>f. outcome = Inl f \<longrightarrow> \<not> bad_dep_failure f"
    and "\<forall>b. outcome = Inr b \<longrightarrow> build_ok b \<and> bld_Runtime b = dep_Runtime r \<and> dep_CreatedAt r \<le> bld_CreatedAt b"
  shows "\<exists>r3. finished_record r outcome now = (r3, None) \<and> dep_ok r3 \<and> same_deployment r (r3\<lparr>dep_Build := None, dep_Failure := None, dep_FinishedAt := dep_FinishedAt r\<rparr>)
    \<and> dep_Logs r3 = dep_Logs r \<and> dep_Status r3 = (case outcome of Inl f \<Rightarrow> DepFailed | Inr b \<Rightarrow> DepReady)
    \<and> dep_Failure r3 = (case outcome of Inl f \<Rightarrow> Some f | Inr b \<Rightarrow> None)"
proof (cases outcome)
  case (Inl f)
  then show ?thesis using assms
    by (auto simp: finished_record_def dep_Fail_def validateFailure_def dep_failed_def dep_ok_defs same_deployment_def)
next
  case (Inr b)
  then show ?thesis using assms
    by (auto simp: finished_record_def MarkReady_def dep_ok_defs same_deployment_def)
qed

section \<open>A deployment of a two-file archive\<close>

definition sample_source :: tree where
  "sample_source = [([''w'', ''source.zip''], IFile ''PK'' 384), ([''w''], IDir 448), ([], IDir 493)]"

definition sample_denv :: deployer_env where
  "sample_denv =
     \<lparr>de_claimed = 60500, de_advanced = 70000, de_layer_times = (\<lambda>n. 80000), de_built = 90000,
      de_finished = 100000, de_locked = [], de_work = Inr [''w''],
      de_fetch = (\<lambda>app sha dest t. ((path_parts dest, IFile ''PK'' 384) # t, None)),
      de_unzip = sample_unzip, de_uc = sample_uc, de_zip = sample_zenv, de_cache = Inr,
      de_buildctx = None, de_build_id = Inr ''bld_1'', de_artifact_ids = (\<lambda>n. Inr ''art_2'')\<rparr>"

definition sample_dopts :: deployer_options where
  "sample_dopts =
     \<lparr>dp_PollInterval = 250000000, dp_BuildTimeout = 300000000000, dp_CacheDirectory = [],
      dp_MaxArtifactBytes = 268435456, dp_MaxArchiveEntries = 1000, dp_MaxArchiveExpandedBytes = 268435456\<rparr>"

definition failing :: "log_event list \<Rightarrow> toolchains" where
  "failing es = [(RuntimePython, \<lambda>request t. (t, Inl (Plain ''exit status 1''), es))]"

definition sample_dworld :: "unit deploy_world" where
  "sample_dworld = \<lparr>dw_db = sample_ddb, dw_blobs = (), dw_tree = [([], IDir 493)]\<rparr>"

lemma sample_source_paths:
  "path_parts (filepath_join (abs_path [''w'']) ''source.zip'') = [''w'', ''source.zip'']"
  "filepath_join (abs_path [''w'']) ''source'' = abs_path [''w'', ''source'']"
  using filepath_join_abs [of "[''w'']" "[''source.zip'']"] filepath_join_abs [of "[''w'']" "[''source'']"]
    path_parts_abs_path [of "[''w'', ''source.zip'']"]
  by (simp_all add: normal_component_def sl_def)

lemma sample_source_ok: "tree_ok sample_source" "rooted sample_source [''w'']"
  by (auto simp: tree_ok_def rooted_def sample_source_def strict_prefix_def prefix_Cons Cons_eq_append_conv
      append_eq_Cons_conv split: if_splits)

lemma sample_source_dest: "trim_space (abs_path [''w'', ''source'']) \<noteq> []" "normal_component ''source''"
  by code_simp+

lemma sample_source_extracts:
  "\<exists>t stats. ExtractZIPFile sample_unzip sample_uc sample_zenv sample_source
      (filepath_join (abs_path [''w'']) ''source.zip'') (filepath_join (abs_path [''w'']) ''source'')
      \<lparr>al_MaxEntries = 1000, al_MaxExpandedBytes = 268435456\<rparr> = (t, Inr stats)"
proof -
  have "normalizeArchiveLimits sample_norm = Inr sample_norm"
    by (simp add: normalizeArchiveLimits_def sample_norm_def)
  then obtain t where "ExtractZIP sample_unzip sample_uc sample_zenv sample_source (Some ''PK'') 2 (abs_path [''w'', ''source'']) sample_norm
     = (t, Inr \<lparr>xs_Files = 1, xs_Directories = 1, xs_ExpandedBytes = 3\<rparr>)"
    using ExtractZIP_runs [of sample_norm sample_norm sample_unzip "''PK''" "[sample_file, sample_folder]" sample_uc
      sample_entries 3 "\<lparr>xs_Files = 1, xs_Directories = 1, xs_ExpandedBytes = 0\<rparr>" sample_zenv 7 sample_source
      "[''w'', ''source'']"] sample_inspect sample_packed sample_source_ok sample_source_dest sample_two
    by (auto simp: sample_norm_def sample_unzip_def calm_def sample_zenv_def sample_source_def staging_of_def)
  moreover have "map_of sample_source [''w'', ''source.zip''] = Some (IFile ''PK'' 384)" by (simp add: sample_source_def)
  ultimately show ?thesis unfolding ExtractZIPFile_def sample_source_paths by (simp add: sample_norm_def)
qed

lemma sample_fetch_source:
  "\<exists>t. fetch_source sample_denv sample_dopts r [''w''] [([''w''], IDir 448), ([], IDir 493)] = (t, Inr (sha256_hex ''PK''))"
proof -
  have hash: "HashFile True ''PK'' 268435456 = (\<lparr>cr_SizeBytes = 2, cr_SHA256 = sha256_hex ''PK''\<rparr>, None)"
    using CopyAndHashContext_flows [of "[(''PK'', None)]" 268435456 "\<lambda>k. None"]
    by (simp add: HashFile_def CopyAndHash_def)
  obtain t stats where "ExtractZIPFile sample_unzip sample_uc sample_zenv sample_source
      (filepath_join (abs_path [''w'']) ''source.zip'') (filepath_join (abs_path [''w'']) ''source'')
      \<lparr>al_MaxEntries = 1000, al_MaxExpandedBytes = 268435456\<rparr> = (t, Inr stats)" using sample_source_extracts by blast
  then show ?thesis
    by (simp add: fetch_source_def Let_def sample_source_paths(1) sample_denv_def sample_dopts_def hash sample_source_def)
qed

lemma sample_deploy:
  assumes "dep_Runtime r = RuntimePython"
  shows "\<exists>w. deployer_build sample_denv sample_dopts (failing es) rp r (sample_dworld\<lparr>dw_db := d\<rparr>)
     = (w, foldl dep_Log r (outputs es), Inl (deploy_failure ''build_failed'' (Plain ''exit status 1'')))"
proof -
  obtain t where t: "fetch_source sample_denv sample_dopts r [''w''] [([''w''], IDir 448), ([], IDir 493)]
     = (t, Inr (sha256_hex ''PK''))" using sample_fetch_source by blast
  have parts: "de_work sample_denv = Inr [''w'']" "cacheFor sample_denv sample_dopts r = Inr []"
    "build_code sample_denv (Plain m) = ''build_failed''" for m
    by (simp_all add: sample_denv_def sample_dopts_def cacheFor_def build_code_def)
  have "dw_tree sample_dworld = [([], IDir 493)]" by (simp add: sample_dworld_def)
  with t parts assms show ?thesis
    using deploy_follow_record [of d r False es]
    by (auto simp: deployer_build_def deployer_build_in_def failing_def split: prod.splits)
qed

lemma sample_claimed:
  obtains d r where "deprepo_ClaimQueued any_pg (dw_db sample_dworld) (de_locked sample_denv) (de_claimed sample_denv) = (d, Inr r)"
    "dep_ID r = ''dep_1''" "dep_CreatedAt r = 50000" "dep_Runtime r = RuntimePython" "dep_Logs r = []"
proof -
  have "dw_db sample_dworld = sample_ddb" "de_locked sample_denv = []" "de_claimed sample_denv = 60500" "\<not> is_zero 60500"
    by (simp_all add: sample_dworld_def sample_denv_def is_zero_def)
  then show thesis using sample_dep_claim [of 60500] that by (auto simp: dep_record_def sample_dep_row_def)
qed

section \<open>Properties\<close>

text \<open>
  C11: a claimed deployment is finished. When the clock has not gone back since the deployment
  was created, the output kept is text and so is the failure, \<open>ProcessOne\<close> returns without
  error and the row is failed or ready, as the build went.
\<close>

theorem deployment_finishes:
  assumes "ddb_ok (dw_db w)"
    and claim: "deprepo_ClaimQueued pg (dw_db w) (de_locked env) (de_claimed env) = (d1, Inr r)"
    and build: "deployer_build env opts tcs rp r (w\<lparr>dw_db := d1\<rparr>) = (w2, r2, outcome)"
    and times: "dep_CreatedAt r \<le> postgresTime (de_claimed env)" "postgresTime (de_claimed env) \<le> de_finished env"
      "dep_CreatedAt r \<le> de_built env" "\<not> is_zero (de_finished env)"
    and txts: "pg_text_ok (dep_Logs r2)" "\<forall>f. outcome = Inl f \<longrightarrow> CHR 0x00 \<notin> set (df_Code f @ df_Message f)"
  shows "\<exists>d3. deployer_ProcessOne pg env opts tcs rp w = (w2\<lparr>dw_db := d3\<rparr>, None)
    \<and> (\<exists>x \<in> set (dd_deployments d3). dr_id x = dep_ID r
         \<and> dr_status x = (case outcome of Inl f \<Rightarrow> DepFailed | Inr b \<Rightarrow> DepReady))"
proof -
  note held = claim_held [OF assms(1) claim] and rec = claimed_record [OF assms(1) claim]
  obtain n where n: "encode_dep r 1 = Some n" using held(3) by blast
  have out: "held (dw_db w2) r" "same_deployment r r2" "Running (dep_Status r2)" "length (dep_Logs r2) \<le> dep_MaxLogBytes"
    "\<forall>f. outcome = Inl f \<longrightarrow> \<not> bad_dep_failure f"
    "\<forall>b. outcome = Inr b \<longrightarrow> (\<exists>i sha as. build_New i (dep_AppID r) (dep_ID r) (dep_Runtime r) sha as (de_built env) = Inr b)"
    using deployer_build_outcome [OF build _ held(2) rec(6)] held(1) by auto
  have same: "dep_identity_ok r2" "dep_Build r2 = None" "dep_Failure r2 = None"
    "dep_StartedAt r2 = Some (postgresTime (de_claimed env))" "dep_CreatedAt r2 = dep_CreatedAt r" "dep_Runtime r2 = dep_Runtime r"
    using out(2) rec by (simp_all add: same_deployment_def dep_identity_ok_def)
  have built: "\<forall>b. outcome = Inr b \<longrightarrow> build_ok b \<and> bld_Runtime b = dep_Runtime r2 \<and> dep_CreatedAt r2 \<le> bld_CreatedAt b"
    using out(6) same(5,6) times(3) build_New_Inr by metis
  obtain r3 where r3: "finished_record r2 outcome (de_finished env) = (r3, None)" "dep_ok r3"
    "same_deployment r2 (r3\<lparr>dep_Build := None, dep_Failure := None, dep_FinishedAt := dep_FinishedAt r2\<rparr>)"
    "dep_Logs r3 = dep_Logs r2" "dep_Status r3 = (case outcome of Inl f \<Rightarrow> DepFailed | Inr b \<Rightarrow> DepReady)"
    "dep_Failure r3 = (case outcome of Inl f \<Rightarrow> Some f | Inr b \<Rightarrow> None)"
    using finished_record_ok [OF same(1-4) _ times(2,4) out(3,4,5) built] same(5) times(1) by auto
  have ident: "dep_CommitSHA r3 = dep_CommitSHA r2" "dep_GitRef r3 = dep_GitRef r2" "dep_Runtime r3 = dep_Runtime r2"
    "dep_ID r3 = dep_ID r" "dep_AppID r3 = dep_AppID r"
    using r3(3) out(2) by (simp_all add: same_deployment_def)
  have "pg_dep_failure (dep_Failure r3) \<noteq> None" "dep_Valid_status (dep_Status r3)"
    using r3(5,6) txts(2) by (auto simp: pg_dep_failure_def split: sum.splits)
  then obtain n3 where "encode_dep r3 1 = Some n3"
    using encode_finished [OF n out(2) ident(1-3)] txts(1) r3(4) out(4) by auto
  from held_saved [OF out(1) ident(4,5) r3(2) this] r3(5)
  obtain d3 where d3: "deprepo_Save (dw_db w2) r3 = (d3, None)" "\<exists>x \<in> set (dd_deployments d3). dr_id x = dep_ID r
         \<and> dr_status x = (case outcome of Inl f \<Rightarrow> DepFailed | Inr b \<Rightarrow> DepReady)" by auto
  then have "deployer_ProcessOne pg env opts tcs rp w = (w2\<lparr>dw_db := d3\<rparr>, None)"
    using claim build r3(1) by (simp add: deployer_ProcessOne_def finished_record_def)
  with d3(2) show ?thesis by blast
qed

theorem deployment_finishes_witness:
  "\<exists>w d. deployer_ProcessOne any_pg sample_denv sample_dopts (failing [Output ''ab'']) packed_repo sample_dworld
       = (w\<lparr>dw_db := d\<rparr>, None)
     \<and> (\<exists>x \<in> set (dd_deployments d). dr_id x = ''dep_1'' \<and> dr_status x = DepFailed)"
proof -
  obtain d1 r where r: "deprepo_ClaimQueued any_pg (dw_db sample_dworld) (de_locked sample_denv) (de_claimed sample_denv) = (d1, Inr r)"
    "dep_ID r = ''dep_1''" "dep_CreatedAt r = 50000" "dep_Runtime r = RuntimePython" "dep_Logs r = []"
    using sample_claimed by blast
  obtain w where w: "deployer_build sample_denv sample_dopts (failing [Output ''ab'']) packed_repo r (sample_dworld\<lparr>dw_db := d1\<rparr>)
     = (w, dep_Log r ''ab'', Inl (deploy_failure ''build_failed'' (Plain ''exit status 1'')))"
    using sample_deploy [OF r(4), of "[Output ''ab'']" packed_repo d1] by auto
  have logs: "pg_text_ok (dep_Logs (dep_Log r ''ab''))"
    using r(5) by (simp add: dep_Log_def dep_MaxLogBytes_def) (simp add: pg_text_ok_def, code_simp)
  have msg: "CHR 0x00 \<notin> set (df_Code f @ df_Message f)" if "f = deploy_failure ''build_failed'' (Plain ''exit status 1'')" for f
    unfolding that by code_simp
  have times: "dep_CreatedAt r \<le> postgresTime (de_claimed sample_denv)" "postgresTime (de_claimed sample_denv) \<le> de_finished sample_denv"
    "dep_CreatedAt r \<le> de_built sample_denv" "\<not> is_zero (de_finished sample_denv)"
    using r(3) by (simp_all add: sample_denv_def postgresTime_def time_truncate_def microsecond_def is_zero_def)
  have "ddb_ok (dw_db sample_dworld)" using sample_ddb_ok by (simp add: sample_dworld_def)
  from deployment_finishes [OF this r(1) w times logs] msg r(2) show ?thesis by auto
qed

text \<open>
  C32: output that is not text stops the deployer. When what the toolchain printed leaves a
  log PostgreSQL does not take (a byte sequence that is not UTF-8, or a NUL), the deployment
  cannot be finished: \<open>Run\<close> returns the error and the row is left running.
\<close>

theorem unstorable_output_stops_deployer:
  assumes "ddb_ok (dw_db w)"
    and claim: "deprepo_ClaimQueued pg (dw_db w) (de_locked env) (de_claimed env) = (d1, Inr r)"
    and build: "deployer_build env opts tcs rp r (w\<lparr>dw_db := d1\<rparr>) = (w2, r2, outcome)"
    and "\<not> pg_text_ok (dep_Logs r2)"
  shows "\<exists>e. deployer_Run pg opts tcs rp ((env, done1) # its) w = (w2, Inl e)
    \<and> (\<exists>x \<in> set (dd_deployments (dw_db w2)). dr_id x = dep_ID r \<and> Running (dr_status x))"
proof -
  note held = claim_held [OF assms(1) claim] and rec = claimed_record [OF assms(1) claim]
  have out: "held (dw_db w2) r" "same_deployment r r2" "Running (dep_Status r2)"
    "\<forall>f. outcome = Inl f \<longrightarrow> \<not> bad_dep_failure f" "\<forall>b. outcome = Inr b \<longrightarrow> encode_dep r2 1 \<noteq> None"
    using deployer_build_outcome [OF build _ held(2) rec(6)] held(1) by auto
  then obtain f where f: "outcome = Inl f" "\<not> bad_dep_failure f"
    using assms(4) by (cases outcome) (auto simp: encode_dep_def split: option.splits)
  let ?m = "''builder: persist deployment '' @ dep_ID r"
  obtain e where e: "deprepo_Save (dw_db w2) (dep_failed r2 f (de_finished env)) = (dw_db w2, Some e)"
    "deployer_stops (annotate ?m e)"
    using unstorable_logs_not_saved [of "dep_failed r2 f (de_finished env)" "dw_db w2" ?m] assms(4)
    by (auto simp: dep_failed_def)
  have "deployer_ProcessOne pg env opts tcs rp w = (w2, Some (annotate ?m e))"
    using claim build f out(3) e(1) by (simp add: deployer_ProcessOne_def dep_Fail_def validateFailure_def)
  then have "deployer_Run pg opts tcs rp ((env, done1) # its) w = (w2, Inl (annotate ?m e))" using e(2) by simp
  moreover from out(1) have "\<exists>x \<in> set (dd_deployments (dw_db w2)). dr_id x = dep_ID r \<and> Running (dr_status x)"
    unfolding held_def using find_Some_mem by fast
  ultimately show ?thesis by blast
qed

theorem unstorable_output_stops_deployer_witness:
  "\<exists>w e. deployer_Run any_pg sample_dopts (failing [Output [CHR 0xFF]]) packed_repo [(sample_denv, None)] sample_dworld
       = (w, Inl e)
     \<and> (\<exists>x \<in> set (dd_deployments (dw_db w)). dr_id x = ''dep_1'' \<and> Running (dr_status x))"
proof -
  obtain d1 r where r: "deprepo_ClaimQueued any_pg (dw_db sample_dworld) (de_locked sample_denv) (de_claimed sample_denv) = (d1, Inr r)"
    "dep_ID r = ''dep_1''" "dep_CreatedAt r = 50000" "dep_Runtime r = RuntimePython" "dep_Logs r = []"
    using sample_claimed by blast
  obtain w where w: "deployer_build sample_denv sample_dopts (failing [Output [CHR 0xFF]]) packed_repo r (sample_dworld\<lparr>dw_db := d1\<rparr>)
     = (w, dep_Log r [CHR 0xFF], Inl (deploy_failure ''build_failed'' (Plain ''exit status 1'')))"
    using sample_deploy [OF r(4), of "[Output [CHR 0xFF]]" packed_repo d1] by auto
  have logs: "\<not> pg_text_ok (dep_Logs (dep_Log r [CHR 0xFF]))"
    using r(5) by (simp add: dep_Log_def dep_MaxLogBytes_def) (simp add: pg_text_ok_def, code_simp)
  have "ddb_ok (dw_db sample_dworld)" using sample_ddb_ok by (simp add: sample_dworld_def)
  from unstorable_output_stops_deployer [OF this r(1) w logs, of None "[]"] r(2) show ?thesis by auto
qed

end
