(* ===== verification/Toolchains.thy ===== *)
theory Toolchains
  imports Deployer Config
begin

text \<open>
  The builders of internal/builder (python.go, ruby.go, node.go, golang.go, rust.go), the
  packaging of their layers (archive.go, python.go) and the running of a tool (builder.go). The
  tools themselves are arguments on the files, as are esbuild, what cargo prints, and the
  writer of archive/zip; \<open>bx_fail\<close> says where the file system fails for reasons of its own.
  On a Unix host an executable has no extension.
\<close>

section \<open>Running a tool\<close>

record header =
  hd_Name :: string
  hd_Mode :: file_mode
  hd_Body :: string

record bundle_message =
  bm_Location :: "(string \<times> nat) option"
  bm_Text :: string

type_synonym tool = "command \<Rightarrow> tree \<Rightarrow> tree \<times> log_event list \<times> go_err"

record builder_env =
  bx_tool :: tool
  bx_environ :: "string list"
  bx_zip :: "header list \<Rightarrow> string \<times> go_err"
  bx_fail :: "string \<Rightarrow> string list \<Rightarrow> go_err"
  bx_quote :: "string \<Rightarrow> string"
  bx_bundle :: "string \<Rightarrow> string \<Rightarrow> string \<Rightarrow> tree \<Rightarrow> tree \<times> bundle_message list"
  bx_output :: "command \<Rightarrow> tree \<Rightarrow> tree \<times> string result"
  bx_metadata :: "string \<Rightarrow> (string \<times> string list) list list result"

primrec with_detail :: "error \<Rightarrow> string \<Rightarrow> error" where
  "with_detail (Plain msg) d = Plain (msg @ '': '' @ d)"
| "with_detail (Wrap s msg) d = Wrap s (msg @ '': '' @ d)"

definition commandError :: "string \<Rightarrow> string \<Rightarrow> error \<Rightarrow> error" where
  "commandError action output err =
     (let trimmed = trim_space output;
          message = (if length trimmed > 4096 then drop (length trimmed - 4096) trimmed else trimmed) in
      if message = [] then annotate (''builder: '' @ action) err
      else with_detail (annotate (''builder: '' @ action) err) message)"

definition request_run :: "builder_env \<Rightarrow> string \<Rightarrow> command \<Rightarrow> tree \<Rightarrow> tree \<times> log_event list \<times> go_err" where
  "request_run bx action cmd t =
     (case bx_tool bx cmd t of
        (t', events, err) \<Rightarrow>
          (t', Output (''$ '' @ action @ [CHR 0x0A]) # events,
           map_option (commandError action (concat (outputs events))) err))"

section \<open>Packaging\<close>

text \<open>The order in which \<open>filepath.WalkDir\<close> visits paths: by component.\<close>

fun visited_before :: "string list \<Rightarrow> string list \<Rightarrow> bool" where
  "visited_before [] q = True"
| "visited_before (a # p) [] = False"
| "visited_before (a # p) (b # q) = (str_less a b \<or> a = b \<and> visited_before p q)"

definition strictly_below :: "string list \<Rightarrow> string list \<Rightarrow> bool" where
  "strictly_below root q \<longleftrightarrow> length root < length q \<and> take (length root) q = root"

definition walk :: "tree \<Rightarrow> string list \<Rightarrow> string list list" where
  "walk t root = order_by visited_before (remdups (filter (strictly_below root) (map fst t)))"

definition is_regular :: "inode option \<Rightarrow> bool" where
  "is_regular n \<longleftrightarrow> (case n of Some (IFile b m) \<Rightarrow> True | _ \<Rightarrow> False)"

definition file_names :: "builder_env \<Rightarrow> tree \<Rightarrow> string list \<Rightarrow> string list result" where
  "file_names bx t root =
     (if map_of t root = None then Inl (Plain ''lstat: no such file or directory'')
      else let found = filter (\<lambda>q. \<not> is_dir (map_of t q)) (walk t root) in
        case find (\<lambda>q. \<not> is_regular (map_of t q)) found of
          Some q \<Rightarrow> Inl (Plain (''non-regular build input '' @ bx_quote bx (abs_path q)))
        | None \<Rightarrow> Inr (order_by (\<lambda>a b. \<not> str_less b a)
                    (map (\<lambda>q. join_with [sl] (drop (length root) q)) found)))"

text \<open>
  \<open>os.OpenFile\<close> with O_EXCL, then the archive of the members opened so far: when a member cannot
  be opened the archive is still closed behind it.
\<close>

definition create_excl :: "builder_env \<Rightarrow> tree \<Rightarrow> string list \<Rightarrow> go_err" where
  "create_excl bx t target =
     first_err [bx_fail bx ''create'' target,
       guard (map_of t target \<noteq> None) (Plain ''open: file exists''),
       guard (\<not> is_dir (map_of t (butlast target))) (Plain ''open: no such file or directory'')]"

fun members :: "builder_env \<Rightarrow> tree \<Rightarrow> string list \<Rightarrow> string list \<Rightarrow> header list \<Rightarrow> header list \<times> go_err" where
  "members bx t root [] acc = (acc, None)"
| "members bx t root (name # names) acc =
     (let p = path_parts (filepath_join (abs_path root) name) in
      case bx_fail bx ''open'' p of
        Some e \<Rightarrow> (acc, Some e)
      | None \<Rightarrow>
          (case map_of t p of
             Some (IFile b m) \<Rightarrow> members bx t root names (acc @ [\<lparr>hd_Name = name, hd_Mode = 420, hd_Body = b\<rparr>])
           | _ \<Rightarrow> (acc, Some (Plain ''open: no such file or directory''))))"

definition zipDirectory :: "builder_env \<Rightarrow> string \<Rightarrow> string \<Rightarrow> tree \<Rightarrow> tree \<times> go_err" where
  "zipDirectory bx root target t =
     (case file_names bx t (path_parts root) of
        Inl e \<Rightarrow> (t, Some e)
      | Inr names \<Rightarrow>
          (case create_excl bx t (path_parts target) of
             Some e \<Rightarrow> (t, Some e)
           | None \<Rightarrow>
               (case members bx t (path_parts root) names [] of
                  (hs, Some e) \<Rightarrow> ((path_parts target, IFile (fst (bx_zip bx hs)) 384) # t, Some e)
                | (hs, None) \<Rightarrow> ((path_parts target, IFile (fst (bx_zip bx hs)) 384) # t, snd (bx_zip bx hs)))))"

definition zipFileAs :: "builder_env \<Rightarrow> string \<Rightarrow> string \<Rightarrow> string \<Rightarrow> tree \<Rightarrow> tree \<times> go_err" where
  "zipFileAs bx sourcePath name target t =
     (case bx_fail bx ''open'' (path_parts sourcePath) of
        Some e \<Rightarrow> (t, Some e)
      | None \<Rightarrow>
          (case map_of t (path_parts sourcePath) of
             Some (IFile b m) \<Rightarrow>
               (case create_excl bx t (path_parts target) of
                  Some e \<Rightarrow> (t, Some e)
                | None \<Rightarrow>
                    (case bx_zip bx [\<lparr>hd_Name = name, hd_Mode = 493, hd_Body = b\<rparr>] of
                       (bytes, err) \<Rightarrow> ((path_parts target, IFile bytes 384) # t, err)))
           | _ \<Rightarrow> (t, Some (Plain ''open: no such file or directory''))))"

section \<open>What the builders share\<close>

definition default_tool :: "string \<Rightarrow> string \<Rightarrow> string" where
  "default_tool fallback executable = (if trim_space executable = [] then fallback else executable)"

definition code_layer :: "build_request \<Rightarrow> layer" where
  "code_layer q = \<lparr>ly_Name = LayerCode, ly_Path = filepath_join (br_WorkDirectory q) ''code-layer.zip''\<rparr>"

definition install_layer :: "build_request \<Rightarrow> layer" where
  "install_layer q = \<lparr>ly_Name = LayerInstall, ly_Path = filepath_join (br_WorkDirectory q) ''install-layer.zip''\<rparr>"

definition install_dir :: "build_request \<Rightarrow> string" where
  "install_dir q = filepath_join (br_WorkDirectory q) ''install''"

definition cache_dir :: "build_request \<Rightarrow> string" where
  "cache_dir q = (if br_CacheDirectory q = [] then br_WorkDirectory q else br_CacheDirectory q)"

definition packaging_failed :: "string \<Rightarrow> error \<Rightarrow> error" where
  "packaging_failed which e = annotate (''builder: package '' @ which @ '' layer'') e"

definition make_dir :: "builder_env \<Rightarrow> string \<Rightarrow> tree \<Rightarrow> tree result" where
  "make_dir bx path t =
     (let p = path_parts path in
      check (first_err [bx_fail bx ''mkdir'' p, guard (map_of t p \<noteq> None) (Plain ''mkdir: file exists''),
               guard (\<not> is_dir (map_of t (butlast p))) (Plain ''mkdir: no such file or directory'')])
        (Inr ((p, IDir 448) # t)))"

definition regular_at :: "builder_env \<Rightarrow> tree \<Rightarrow> string \<Rightarrow> bool" where
  "regular_at bx t path \<longleftrightarrow> bx_fail bx ''lstat'' (path_parts path) = None \<and> is_regular (map_of t (path_parts path))"

text \<open>The second layer of Python and Ruby: a directory, the tool that fills it, its archive.\<close>

definition install_step ::
  "builder_env \<Rightarrow> build_request \<Rightarrow> string \<Rightarrow> command \<Rightarrow> log_event list \<Rightarrow> tree \<Rightarrow> tree \<times> layer list result \<times> log_event list"
where
  "install_step bx q action cmd ev t =
     (case make_dir bx (install_dir q) t of
        Inl e \<Rightarrow> (t, Inl (annotate ''builder: create install layer'' e), ev)
      | Inr t1 \<Rightarrow>
          (case request_run bx action cmd t1 of
             (t2, ev2, Some e) \<Rightarrow> (t2, Inl e, ev @ ev2)
           | (t2, ev2, None) \<Rightarrow>
               (case zipDirectory bx (install_dir q) (ly_Path (install_layer q)) t2 of
                  (t3, Some e) \<Rightarrow> (t3, Inl (packaging_failed ''install'' e), ev @ ev2)
                | (t3, None) \<Rightarrow> (t3, Inr [code_layer q, install_layer q], ev @ ev2))))"

section \<open>Python\<close>

definition compile_python :: "builder_env \<Rightarrow> string \<Rightarrow> build_request \<Rightarrow> command" where
  "compile_python bx python q =
     \<lparr>cm_argv = [python, ''-m'', ''compileall'', ''-q'', br_SourceDirectory q], cm_dir = [],
      cm_env = bx_environ bx @ [''PYTHONPYCACHEPREFIX='' @ filepath_join (br_WorkDirectory q) ''pycache'']\<rparr>"

definition pip_install :: "builder_env \<Rightarrow> string \<Rightarrow> build_request \<Rightarrow> command" where
  "pip_install bx python q =
     \<lparr>cm_argv = [python, ''-m'', ''pip'', ''install'', ''--disable-pip-version-check'', ''--no-input'', ''--target'', install_dir q,
                 ''-r'', filepath_join (br_SourceDirectory q) ''requirements.txt''],
      cm_dir = [],
      cm_env = bx_environ bx @ [''PIP_NO_INPUT=1'', ''PIP_CACHE_DIR='' @ filepath_join (cache_dir q) ''pip'']\<rparr>"

text \<open>
  After the code layer: whatever is at requirements.txt has been packaged, so it is a file or a
  directory, for which \<open>os.Stat\<close> and \<open>os.Lstat\<close> agree.
\<close>

definition python_requirements :: "builder_env \<Rightarrow> string \<Rightarrow> tree \<Rightarrow> string option result" where
  "python_requirements bx path t =
     (let p = path_parts path in
      case bx_fail bx ''stat'' p of
        Some e \<Rightarrow> Inl (annotate ''builder: inspect requirements.txt'' e)
      | None \<Rightarrow>
          (case map_of t p of
             None \<Rightarrow> Inr None
           | Some (IFile b m) \<Rightarrow>
               (case bx_fail bx ''read'' p of
                  Some e \<Rightarrow> Inl (annotate ''builder: read requirements.txt'' e)
                | None \<Rightarrow> Inr (if trim_space b = [] then None else Some b))
           | Some _ \<Rightarrow> Inl (Plain ''builder: requirements.txt must be a regular file'')))"

definition python_Build :: "builder_env \<Rightarrow> string \<Rightarrow> toolchain" where
  "python_Build bx executable q t =
     (let python = default_tool ''python'' executable in
      case request_run bx ''compile Python source'' (compile_python bx python q) t of
        (t1, ev1, Some e) \<Rightarrow> (t1, Inl e, ev1)
      | (t1, ev1, None) \<Rightarrow>
          (case zipDirectory bx (br_SourceDirectory q) (ly_Path (code_layer q)) t1 of
             (t2, Some e) \<Rightarrow> (t2, Inl (packaging_failed ''code'' e), ev1)
           | (t2, None) \<Rightarrow>
               (case python_requirements bx (filepath_join (br_SourceDirectory q) ''requirements.txt'') t2 of
                  Inl e \<Rightarrow> (t2, Inl e, ev1)
                | Inr None \<Rightarrow> (t2, Inr [code_layer q], ev1)
                | Inr (Some contents) \<Rightarrow>
                    install_step bx q ''install Python requirements'' (pip_install bx python q) ev1 t2)))"

section \<open>Ruby\<close>

definition bundle_install :: "builder_env \<Rightarrow> string \<Rightarrow> build_request \<Rightarrow> command" where
  "bundle_install bx bundle q =
     \<lparr>cm_argv = [bundle, ''install'', ''--deployment'', ''--path'', install_dir q], cm_dir = br_SourceDirectory q,
      cm_env = bx_environ bx @ [''BUNDLE_PATH='' @ install_dir q, ''GEM_SPEC_CACHE='' @ filepath_join (cache_dir q) ''gem-spec'',
                 ''BUNDLE_USER_CACHE='' @ filepath_join (cache_dir q) ''bundle'']\<rparr>"

definition ruby_Build :: "builder_env \<Rightarrow> string \<Rightarrow> toolchain" where
  "ruby_Build bx executable q t =
     (let bundle = default_tool ''bundle'' executable in
      case zipDirectory bx (br_SourceDirectory q) (ly_Path (code_layer q)) t of
        (t1, Some e) \<Rightarrow> (t1, Inl (packaging_failed ''code'' e), [])
      | (t1, None) \<Rightarrow>
          if \<not> regular_at bx t1 (filepath_join (br_SourceDirectory q) ''Gemfile'')
          then (t1, Inr [code_layer q], [])
          else install_step bx q ''install Ruby gems'' (bundle_install bx bundle q) [] t1)"

section \<open>Node\<close>

definition nodeEntries :: "string list" where
  "nodeEntries = [''src/handler.ts'', ''src/handler.js'', ''src/index.ts'', ''src/index.js'', ''index.ts'', ''index.js'']"

definition locateEntry :: "builder_env \<Rightarrow> tree \<Rightarrow> string \<Rightarrow> string result" where
  "locateEntry bx t sourceDir =
     (case find (regular_at bx t) (map (filepath_join sourceDir) nodeEntries) of
        Some path \<Rightarrow> Inr path
      | None \<Rightarrow> Inl (Plain (''builder: none of '' @ join_with '', '' nodeEntries @ '' was found at the source root'')))"

definition hasDependencies :: "builder_env \<Rightarrow> tree \<Rightarrow> string \<Rightarrow> bool" where
  "hasDependencies bx t sourceDir =
     (let p = path_parts (filepath_join sourceDir ''package.json'') in
      if bx_fail bx ''read'' p \<noteq> None then False
      else case map_of t p of
        Some (IFile contents m) \<Rightarrow>
          contains_sub contents (CHR 0x22 # ''dependencies'' @ [CHR 0x22])
          \<or> contains_sub contents (CHR 0x22 # ''optionalDependencies'' @ [CHR 0x22])
      | _ \<Rightarrow> False)"

definition bundleFailure :: "bundle_message list \<Rightarrow> string" where
  "bundleFailure messages =
     join_with ''; ''
       (map (\<lambda>m. case bm_Location m of
                   Some (file, line) \<Rightarrow> file @ '':'' @ decimal line @ '': '' @ bm_Text m
                 | None \<Rightarrow> bm_Text m) (take 8 messages))"

definition npm_ci :: "builder_env \<Rightarrow> string \<Rightarrow> build_request \<Rightarrow> command" where
  "npm_ci bx npm q =
     \<lparr>cm_argv = [npm, ''ci'', ''--no-audit'', ''--no-fund''], cm_dir = br_SourceDirectory q,
      cm_env = bx_environ bx @ [''npm_config_cache='' @ filepath_join (cache_dir q) ''npm'', ''npm_config_update_notifier=false'']\<rparr>"

definition node_install :: "builder_env \<Rightarrow> string \<Rightarrow> build_request \<Rightarrow> tree \<Rightarrow> tree \<times> log_event list \<times> go_err" where
  "node_install bx npm q t =
     (if regular_at bx t (filepath_join (br_SourceDirectory q) ''package-lock.json'')
      then request_run bx ''install Node dependencies'' (npm_ci bx npm q) t
      else if hasDependencies bx t (br_SourceDirectory q)
      then (t, [], Some (Plain ''builder: package-lock.json is required to install dependencies''))
      else (t, [], None))"

definition node_Build :: "builder_env \<Rightarrow> string \<Rightarrow> toolchain" where
  "node_Build bx executable q t =
     (let npm = default_tool ''npm'' executable; sourceDir = br_SourceDirectory q;
          bundlePath = filepath_join (br_WorkDirectory q) BundleName in
      if \<not> regular_at bx t (filepath_join sourceDir ''package.json'')
      then (t, Inl (Plain ''builder: package.json was not found at the source root''), [])
      else case locateEntry bx t sourceDir of
        Inl e \<Rightarrow> (t, Inl e, [])
      | Inr entryPath \<Rightarrow>
          (case node_install bx npm q t of
             (t1, ev, Some e) \<Rightarrow> (t1, Inl e, ev)
           | (t1, ev, None) \<Rightarrow>
               (case bx_bundle bx entryPath bundlePath sourceDir t1 of
                  (t2, messages) \<Rightarrow>
                    if messages \<noteq> [] then (t2, Inl (Plain (''builder: bundle Node source: '' @ bundleFailure messages)), ev)
                    else (case zipFileAs bx bundlePath BundleName (ly_Path (code_layer q)) t2 of
                            (t3, Some e) \<Rightarrow> (t3, Inl (packaging_failed ''code'' e), ev)
                          | (t3, None) \<Rightarrow> (t3, Inr [code_layer q], ev)))))"

section \<open>Go and Rust\<close>

definition CompiledBinaryName :: string where
  "CompiledBinaryName = ''app''"

definition pack_binary :: "builder_env \<Rightarrow> build_request \<Rightarrow> string \<Rightarrow> log_event list \<Rightarrow> tree \<Rightarrow> tree \<times> layer list result \<times> log_event list" where
  "pack_binary bx q binary ev t =
     (case zipFileAs bx binary CompiledBinaryName (ly_Path (code_layer q)) t of
        (t1, Some e) \<Rightarrow> (t1, Inl (packaging_failed ''code'' e), ev)
      | (t1, None) \<Rightarrow> (t1, Inr [code_layer q], ev))"

definition compile_go :: "builder_env \<Rightarrow> string \<Rightarrow> build_request \<Rightarrow> command" where
  "compile_go bx golang q =
     \<lparr>cm_argv = [golang, ''build'', ''-mod=readonly'', ''-trimpath'', ''-o'', filepath_join (br_WorkDirectory q) CompiledBinaryName, ''.''],
      cm_dir = br_SourceDirectory q,
      cm_env = bx_environ bx @ [''GOCACHE='' @ filepath_join (cache_dir q) ''go-build'', ''GOMODCACHE='' @ filepath_join (cache_dir q) ''go-mod'',
                 ''CGO_ENABLED=0'']\<rparr>"

definition go_Build :: "builder_env \<Rightarrow> string \<Rightarrow> toolchain" where
  "go_Build bx executable q t =
     (let golang = default_tool ''go'' executable; binary = filepath_join (br_WorkDirectory q) CompiledBinaryName in
      if \<not> regular_at bx t (filepath_join (br_SourceDirectory q) ''go.mod'')
      then (t, Inl (Plain ''builder: go.mod was not found at the source root''), [])
      else case request_run bx ''compile Go source'' (compile_go bx golang q) t of
        (t1, ev, Some e) \<Rightarrow> (t1, Inl e, ev)
      | (t1, ev, None) \<Rightarrow>
          if \<not> regular_at bx t1 binary then (t1, Inl (Plain ''builder: go build produced no binary''), ev)
          else pack_binary bx q binary ev t1)"

definition cargo_environment :: "builder_env \<Rightarrow> build_request \<Rightarrow> string list" where
  "cargo_environment bx q =
     bx_environ bx @ [''CARGO_HOME='' @ filepath_join (cache_dir q) ''cargo'', ''CARGO_TARGET_DIR='' @ filepath_join (cache_dir q) ''target'',
       ''CARGO_TERM_COLOR=never'']"

definition compile_rust :: "builder_env \<Rightarrow> string \<Rightarrow> build_request \<Rightarrow> command" where
  "compile_rust bx cargo q =
     \<lparr>cm_argv = [cargo, ''build'', ''--release'', ''--locked''], cm_dir = br_SourceDirectory q, cm_env = cargo_environment bx q\<rparr>"

definition cargo_metadata :: "builder_env \<Rightarrow> string \<Rightarrow> build_request \<Rightarrow> command" where
  "cargo_metadata bx cargo q =
     \<lparr>cm_argv = [cargo, ''metadata'', ''--no-deps'', ''--format-version'', ''1''], cm_dir = br_SourceDirectory q,
      cm_env = cargo_environment bx q\<rparr>"

definition binary_names :: "(string \<times> string list) list list \<Rightarrow> string list" where
  "binary_names packages = map fst (filter (\<lambda>(name, kind). ''bin'' \<in> set kind) (concat packages))"

definition locateBinary :: "builder_env \<Rightarrow> string \<Rightarrow> build_request \<Rightarrow> tree \<Rightarrow> tree \<times> string result" where
  "locateBinary bx cargo q t =
     (case bx_output bx (cargo_metadata bx cargo q) t of
        (t1, Inl e) \<Rightarrow> (t1, Inl (annotate ''builder: read cargo metadata'' e))
      | (t1, Inr encoded) \<Rightarrow>
          (t1, case bx_metadata bx encoded of
             Inl e \<Rightarrow> Inl (annotate ''builder: decode cargo metadata'' e)
           | Inr packages \<Rightarrow>
               (case binary_names packages of
                  [] \<Rightarrow> Inl (Plain ''builder: the crate declares no binary'')
                | [name] \<Rightarrow>
                    (let binary = filepath_join (filepath_join (filepath_join (cache_dir q) ''target'') ''release'') name in
                     if \<not> regular_at bx t1 binary
                     then Inl (Plain (''builder: cargo produced no '' @ last (split_on sl binary)))
                     else Inr binary)
                | names \<Rightarrow> Inl (Plain (''builder: the crate declares several binaries: '' @ join_with '', '' names)))))"

definition rust_Build :: "builder_env \<Rightarrow> string \<Rightarrow> toolchain" where
  "rust_Build bx executable q t =
     (let cargo = default_tool ''cargo'' executable in
      if \<not> regular_at bx t (filepath_join (br_SourceDirectory q) ''Cargo.toml'')
      then (t, Inl (Plain ''builder: Cargo.toml was not found at the source root''), [])
      else case request_run bx ''compile Rust source'' (compile_rust bx cargo q) t of
        (t1, ev, Some e) \<Rightarrow> (t1, Inl e, ev)
      | (t1, ev, None) \<Rightarrow>
          (case locateBinary bx cargo q t1 of
             (t2, Inl e) \<Rightarrow> (t2, Inl e, ev)
           | (t2, Inr binary) \<Rightarrow> pack_binary bx q binary ev t2))"

section \<open>As wired at startup\<close>

definition wired_toolchains :: "builder_env \<Rightarrow> config \<Rightarrow> toolchains" where
  "wired_toolchains bx cfg =
     [(RuntimePython, python_Build bx (cfg_PythonExecutable cfg)), (RuntimeRust, rust_Build bx (cfg_CargoExecutable cfg)),
      (RuntimeGo, go_Build bx (cfg_GoExecutable cfg)), (RuntimeRuby, ruby_Build bx (cfg_BundleExecutable cfg)),
      (RuntimeNode, node_Build bx (cfg_NPMExecutable cfg))]"

section \<open>Lemmas on packaging\<close>

lemma zipDirectory_None:
  assumes "zipDirectory bx root target t = (t', None)"
  obtains names hs bytes where "file_names bx t (path_parts root) = Inr names" and "create_excl bx t (path_parts target) = None"
    and "members bx t (path_parts root) names [] = (hs, None)" and "bx_zip bx hs = (bytes, None)"
    and "t' = (path_parts target, IFile bytes 384) # t"
  using assms by (auto simp: zipDirectory_def split: sum.splits option.splits prod.splits) (metis prod.collapse)

lemma zipFileAs_None:
  assumes "zipFileAs bx source name target t = (t', None)"
  shows "\<exists>b. t' = (path_parts target, IFile b 384) # t"
  using assms by (auto simp: zipFileAs_def split: option.splits inode.splits prod.splits)

lemma members_None:
  assumes "members bx t root names acc = (hs, None)"
  shows "\<exists>bodies. hs = acc @ map2 (\<lambda>n b. \<lparr>hd_Name = n, hd_Mode = 420, hd_Body = b\<rparr>) names bodies
    \<and> list_all2 (\<lambda>n b. \<exists>m. map_of t (path_parts (filepath_join (abs_path root) n)) = Some (IFile b m)) names bodies"
  using assms
proof (induction names arbitrary: acc)
  case (Cons n names)
  then obtain b m where b: "map_of t (path_parts (filepath_join (abs_path root) n)) = Some (IFile b m)"
    and rest: "members bx t root names (acc @ [\<lparr>hd_Name = n, hd_Mode = 420, hd_Body = b\<rparr>]) = (hs, None)"
    by (auto simp: Let_def split: option.splits inode.splits)
  from Cons.IH [OF rest] obtain bodies where "hs = acc @ map2 (\<lambda>n b. \<lparr>hd_Name = n, hd_Mode = 420, hd_Body = b\<rparr>) (n # names) (b # bodies)"
    "list_all2 (\<lambda>n b. \<exists>m. map_of t (path_parts (filepath_join (abs_path root) n)) = Some (IFile b m)) names bodies"
    by auto
  then show ?case using b by (intro exI [of _ "b # bodies"]) auto
qed simp

lemma set_walk: "set (walk t root) = {q. strictly_below root q \<and> map_of t q \<noteq> None}"
  by (auto simp: walk_def map_of_eq_None_iff)

lemma strictly_below_iff: "strictly_below root q \<longleftrightarrow> (\<exists>ps. ps \<noteq> [] \<and> q = root @ ps)"
  by (auto simp: strictly_below_def) (metis append_take_drop_id drop_eq_Nil not_le)

definition files_below :: "tree \<Rightarrow> string list \<Rightarrow> string list set" where
  "files_below t root = {q. strictly_below root q \<and> is_regular (map_of t q)}"

lemma is_regular_not_dir: "is_regular n \<Longrightarrow> \<not> is_dir n \<and> n \<noteq> None"
  by (auto simp: is_regular_def is_dir_def split: option.splits inode.splits)

lemma file_names_Inr:
  assumes "file_names bx t root = Inr names"
  shows "set names = (\<lambda>q. join_with [sl] (drop (length root) q)) ` files_below t root" and "length names = card (files_below t root)"
proof -
  let ?found = "filter (\<lambda>q. \<not> is_dir (map_of t q)) (walk t root)"
  have all: "\<forall>q \<in> set ?found. is_regular (map_of t q)"
    and names: "names = order_by (\<lambda>a b. \<not> str_less b a) (map (\<lambda>q. join_with [sl] (drop (length root) q)) ?found)"
    using assms by (auto simp: file_names_def Let_def find_None_iff split: if_splits option.splits)
  have "q \<in> set ?found \<longleftrightarrow> q \<in> files_below t root" for q
    using all is_regular_not_dir [of "map_of t q"] unfolding files_below_def set_filter set_walk mem_Collect_eq by blast
  then have found: "set ?found = files_below t root" by (rule set_eqI)
  then show "set names = (\<lambda>q. join_with [sl] (drop (length root) q)) ` files_below t root" by (simp add: names)
  have "distinct ?found" using distinct_order_by [of id visited_before] by (simp add: walk_def)
  then show "length names = card (files_below t root)" using found by (simp add: names distinct_card [symmetric])
qed

section \<open>The contract of a toolchain\<close>

text \<open>A tool that leaves the code layer of the request alone once it is written.\<close>

definition spares :: "builder_env \<Rightarrow> build_request \<Rightarrow> bool" where
  "spares bx q \<longleftrightarrow> (\<forall>cmd t. map_of (fst (bx_tool bx cmd t)) (path_parts (ly_Path (code_layer q)))
                         = map_of t (path_parts (ly_Path (code_layer q))))"

locale toolchain_contract =
  fixes build :: toolchain and rt :: runtime and careful :: "build_request \<Rightarrow> bool"
  assumes shape: "build q t = (t', Inr layers, ev) \<Longrightarrow>
      map ly_Name layers = [LayerCode] \<or> map ly_Name layers = [LayerCode, LayerInstall] \<and> \<not> runtime_Compiled rt"
    and stored: "build q t = (t', Inr layers, ev) \<Longrightarrow> careful q \<Longrightarrow> ly \<in> set layers \<Longrightarrow>
      is_regular (map_of t' (path_parts (ly_Path ly)))"
begin

text \<open>What is stored of the layers is sealed: the layer rules of a build never refuse it.\<close>

lemma seals:
  assumes "build q t = (t', Inr layers, ev)" and "store_layers env rp t' buildID n layers mx bl = (bl', Inr artifacts)"
    and "\<forall>a \<in> set artifacts. ValidateArtifact a = None" and "valid_id buildID" and "valid_id appID" and "valid_id deploymentID"
    and "runtime_Valid rt" and "length sha = 64" and "\<not> is_zero now"
  shows "build_New buildID appID deploymentID rt sha artifacts now
    = Inr \<lparr>bld_ID = buildID, bld_AppID = appID, bld_DeploymentID = deploymentID, bld_Runtime = rt,
           bld_SourceSHA256 = sha, bld_Artifacts = artifacts, bld_CreatedAt = now\<rparr>"
proof -
  have "map art_Name artifacts = map ly_Name layers" using assms(2)
  proof (induction layers arbitrary: n mx bl artifacts)
    case (Cons ly lys)
    then show ?case
      by (fastforce simp: deployer_store_def Let_def split: prod.splits sum.splits option.splits inode.splits)
  qed simp
  with shape [OF assms(1)] have "map art_Name artifacts = [LayerCode]
      \<or> map art_Name artifacts = [LayerCode, LayerInstall] \<and> \<not> runtime_Compiled rt" by simp
  then have "distinct (map art_Name artifacts) \<and> LayerCode \<in> art_Name ` set artifacts
      \<and> (runtime_Compiled rt \<longrightarrow> LayerInstall \<notin> art_Name ` set artifacts)"
    unfolding set_map [symmetric] by (auto simp: LayerCode_def LayerInstall_def)
  then show ?thesis using assms(3-) by (simp add: build_New_def build_ok_def)
qed

text \<open>The deployer finds every layer it is told of: storing fails only in the store or for want of an identifier.\<close>

lemma found:
  assumes "build q t = (t', Inr layers, ev)" and "careful q" and "ly \<in> set layers"
    and "deployer_store env rp t' buildID n ly mx bl = (bl', Inl e)"
  shows "deployer_allocateID ''art'' (de_artifact_ids env n) = Inl e
    \<or> (\<exists>k bytes. rp_put rp bl k [(bytes, None)] mx = (bl', Inl e))"
  using stored [OF assms(1-3)] assms(4)
  by (auto simp: is_regular_def deployer_store_def Let_def split: option.splits inode.splits sum.splits prod.splits)

end

lemma packed_code: "zipDirectory bx root (ly_Path (code_layer q)) t = (t', None) \<Longrightarrow>
    is_regular (map_of t' (path_parts (ly_Path (code_layer q))))"
  by (erule zipDirectory_None) (simp add: is_regular_def)

lemma packed_file: "zipFileAs bx source name (ly_Path (code_layer q)) t = (t', None) \<Longrightarrow>
    is_regular (map_of t' (path_parts (ly_Path (code_layer q))))"
  using zipFileAs_None by (fastforce simp: is_regular_def)

lemma layer_names [simp]: "ly_Name (code_layer q) = LayerCode" "ly_Name (install_layer q) = LayerInstall"
  by (simp_all add: code_layer_def install_layer_def)

lemma install_step_Inr:
  assumes "install_step bx q action cmd ev t = (t', Inr layers, ev')"
  shows "layers = [code_layer q, install_layer q]"
    and "spares bx q \<Longrightarrow> is_regular (map_of t (path_parts (ly_Path (code_layer q)))) \<Longrightarrow> ly \<in> set layers \<Longrightarrow>
      is_regular (map_of t' (path_parts (ly_Path ly)))"
proof -
  obtain t1 t2 e2 where dir: "make_dir bx (install_dir q) t = Inr t1" and run: "request_run bx action cmd t1 = (t2, e2, None)"
    and zip: "zipDirectory bx (install_dir q) (ly_Path (install_layer q)) t2 = (t', None)" and l: "layers = [code_layer q, install_layer q]"
    using assms by (auto simp: install_step_def split: sum.splits prod.splits option.splits)
  show "layers = [code_layer q, install_layer q]" by (rule l)
  assume s: "spares bx q" and c: "is_regular (map_of t (path_parts (ly_Path (code_layer q))))" and ly: "ly \<in> set layers"
  obtain b where t': "t' = (path_parts (ly_Path (install_layer q)), IFile b 384) # t2" using zip by (elim zipDirectory_None) auto
  have "t1 = (path_parts (install_dir q), IDir 448) # t" "map_of t (path_parts (install_dir q)) = None"
    using dir by (auto simp: make_dir_def Let_def)
  then have "is_regular (map_of t1 (path_parts (ly_Path (code_layer q))))" using c by (auto simp: is_regular_def split: option.splits)
  moreover have "t2 = fst (bx_tool bx cmd t1)" using run by (auto simp: request_run_def split: prod.splits)
  ultimately have "is_regular (map_of t2 (path_parts (ly_Path (code_layer q))))" using s by (simp add: spares_def)
  then show "is_regular (map_of t' (path_parts (ly_Path ly)))" using ly l t' by (auto simp: is_regular_def)
qed

lemma pack_binary_Inr:
  assumes "pack_binary bx q binary ev t = (t', Inr layers, ev')"
  shows "layers = [code_layer q] \<and> is_regular (map_of t' (path_parts (ly_Path (code_layer q))))"
  using assms packed_file by (auto simp: pack_binary_def split: prod.splits option.splits)

lemma python_Build_Inr:
  assumes "python_Build bx exe q t = (t', Inr layers, ev)"
  obtains t1 e1 t2 where "request_run bx ''compile Python source'' (compile_python bx (default_tool ''python'' exe) q) t = (t1, e1, None)"
      and "zipDirectory bx (br_SourceDirectory q) (ly_Path (code_layer q)) t1 = (t2, None)"
      and "t' = t2 \<and> layers = [code_layer q]
        \<or> install_step bx q ''install Python requirements'' (pip_install bx (default_tool ''python'' exe) q) e1 t2 = (t', Inr layers, ev)"
  using assms by (auto simp: python_Build_def Let_def split: prod.splits sum.splits option.splits)

lemma ruby_Build_Inr:
  assumes "ruby_Build bx exe q t = (t', Inr layers, ev)"
  obtains t1 where "zipDirectory bx (br_SourceDirectory q) (ly_Path (code_layer q)) t = (t1, None)"
      and "t' = t1 \<and> layers = [code_layer q]
        \<or> install_step bx q ''install Ruby gems'' (bundle_install bx (default_tool ''bundle'' exe) q) [] t1 = (t', Inr layers, ev)"
  using assms by (auto simp: ruby_Build_def Let_def split: prod.splits sum.splits option.splits if_splits)

interpretation python_tool: toolchain_contract "python_Build bx exe" RuntimePython "spares bx"
proof
  fix q t t' layers ev
  assume b: "python_Build bx exe q t = (t', Inr layers, ev)"
  then show "map ly_Name layers = [LayerCode] \<or> map ly_Name layers = [LayerCode, LayerInstall] \<and> \<not> runtime_Compiled RuntimePython"
    by (elim python_Build_Inr) (auto dest: install_step_Inr(1) simp: runtime_Compiled.simps)
  show "is_regular (map_of t' (path_parts (ly_Path ly)))" if "spares bx q" "ly \<in> set layers" for ly
    using b that packed_code install_step_Inr(2) by (elim python_Build_Inr) (metis empty_iff empty_set set_ConsD)
qed

interpretation ruby_tool: toolchain_contract "ruby_Build bx exe" RuntimeRuby "spares bx"
proof
  fix q t t' layers ev
  assume b: "ruby_Build bx exe q t = (t', Inr layers, ev)"
  then show "map ly_Name layers = [LayerCode] \<or> map ly_Name layers = [LayerCode, LayerInstall] \<and> \<not> runtime_Compiled RuntimeRuby"
    by (elim ruby_Build_Inr) (auto dest: install_step_Inr(1) simp: runtime_Compiled.simps)
  show "is_regular (map_of t' (path_parts (ly_Path ly)))" if "spares bx q" "ly \<in> set layers" for ly
    using b that packed_code install_step_Inr(2) by (elim ruby_Build_Inr) (metis empty_iff empty_set set_ConsD)
qed

interpretation node_tool: toolchain_contract "node_Build bx exe" RuntimeNode "\<lambda>q. True"
  by standard (auto simp: node_Build_def Let_def packed_file split: prod.splits sum.splits option.splits if_splits)

interpretation go_tool: toolchain_contract "go_Build bx exe" RuntimeGo "\<lambda>q. True"
  by standard (auto simp: go_Build_def Let_def dest!: pack_binary_Inr split: prod.splits sum.splits option.splits if_splits)

interpretation rust_tool: toolchain_contract "rust_Build bx exe" RuntimeRust "\<lambda>q. True"
  by standard (auto simp: rust_Build_def Let_def dest!: pack_binary_Inr split: prod.splits sum.splits option.splits if_splits)

section \<open>Archives and what is read of them\<close>

text \<open>
  The pair of the writer and the reader of archive/zip: of what was written and closed without an
  error the reader lists the members in order, with their names, modes and contents.
\<close>

definition member_file :: "header \<Rightarrow> zip_file \<Rightarrow> bool" where
  "member_file h f \<longleftrightarrow> zf_Name f = hd_Name h \<and> zf_Mode f = hd_Mode h \<and> zf_UncompressedSize64 f = word_of_nat (length (hd_Body h))
     \<and> (\<exists>src. zf_Open f = Inr src \<and> reader_bytes src = hd_Body h \<and> reader_end src = EOF)"

definition zip_codec :: "(header list \<Rightarrow> string \<times> go_err) \<Rightarrow> (string \<Rightarrow> int \<Rightarrow> zip_file list result) \<Rightarrow> bool" where
  "zip_codec pack unzip \<longleftrightarrow> (\<forall>hs bytes. pack hs = (bytes, None) \<longrightarrow>
     (\<exists>fs. unzip bytes (int (length bytes)) = Inr fs \<and> list_all2 member_file hs fs))"

lemma zip_codecD:
  assumes "zip_codec pack unzip" and "pack hs = (bytes, None)"
  obtains fs where "unzip bytes (int (length bytes)) = Inr fs" and "list_all2 member_file hs fs"
  using assms unfolding zip_codec_def by blast

lemma normal_join_plain:
  assumes "ps \<noteq> []" and "list_all normal_component ps"
  shows "\<not> has_suffix (join_with [sl] ps) [sl]"
proof
  assume "has_suffix (join_with [sl] ps) [sl]"
  then obtain xs where "join_with [sl] ps = xs @ [sl]" by (auto simp: has_suffix_iff suffix_def)
  then have "split_on sl (join_with [sl] ps) = split_on sl xs @ [[]]" by (simp add: split_on_append_sep)
  then have "[] \<in> set ps" using split_join_normal [OF assms] by simp
  then show False using assms(2) by (auto simp: list_all_iff normal_component_def)
qed

lemma member_at:
  assumes "list_all normal_component root" and "ps \<noteq> []" and "list_all normal_component ps"
  shows "path_parts (filepath_join (abs_path root) (join_with [sl] ps)) = root @ ps"
  using assms by (simp add: filepath_join_abs path_parts_abs_path)

text \<open>The members of a packaged directory are its files.\<close>

lemma packaged_members:
  assumes "zipDirectory bx (abs_path root) target t = (t1, None)" and "list_all normal_component root"
    and "\<forall>q n. map_of t (root @ q) = Some n \<longrightarrow> list_all normal_component q"
  obtains hs bytes where "bx_zip bx hs = (bytes, None)" and "map_of t1 (path_parts target) = Some (IFile bytes 384)"
    and "length hs = card (files_below t root)"
    and "\<forall>h. h \<in> set hs \<longleftrightarrow> (\<exists>q m. q \<noteq> [] \<and> map_of t (root @ q) = Some (IFile (hd_Body h) m)
          \<and> hd_Name h = join_with [sl] q \<and> hd_Mode h = 420)"
proof -
  obtain names hs bytes where names: "file_names bx t root = Inr names" and hs: "members bx t root names [] = (hs, None)"
    and zip: "bx_zip bx hs = (bytes, None)" and t1: "t1 = (path_parts target, IFile bytes 384) # t"
    using assms(1,2) by (elim zipDirectory_None) (simp add: path_parts_abs_path)
  let ?mk = "\<lambda>n b. \<lparr>hd_Name = n, hd_Mode = 420, hd_Body = b\<rparr>" and ?at = "\<lambda>n. map_of t (path_parts (filepath_join (abs_path root) n))"
  obtain bodies where b: "hs = map2 ?mk names bodies" "list_all2 (\<lambda>n b. \<exists>m. ?at n = Some (IFile b m)) names bodies"
    using members_None [OF hs] by auto
  have len: "length names = length bodies" using list_all2_lengthD [OF b(2)] .
  have name: "n \<in> set names \<longleftrightarrow> (\<exists>q. q \<noteq> [] \<and> is_regular (map_of t (root @ q)) \<and> n = join_with [sl] q)" for n
    unfolding file_names_Inr(1) [OF names] by (auto simp: files_below_def strictly_below_iff image_iff)
  have at: "?at (join_with [sl] q) = map_of t (root @ q)" if "q \<noteq> []" "is_regular (map_of t (root @ q))" for q
    using member_at [OF assms(2) that(1)] assms(3) that(2) by (auto simp: is_regular_def split: option.splits)
  have "h \<in> set hs \<longleftrightarrow> (\<exists>q m. q \<noteq> [] \<and> map_of t (root @ q) = Some (IFile (hd_Body h) m) \<and> hd_Name h = join_with [sl] q \<and> hd_Mode h = 420)"
    (is "?l \<longleftrightarrow> ?r") for h
  proof
    assume ?l
    then obtain i where i: "i < length names" "h = ?mk (names ! i) (bodies ! i)" using b(1) len by (auto simp: in_set_conv_nth)
    obtain q where q: "q \<noteq> []" "is_regular (map_of t (root @ q))" "names ! i = join_with [sl] q"
      using name [of "names ! i"] i(1) by auto
    moreover have "\<exists>m. ?at (names ! i) = Some (IFile (bodies ! i) m)" using list_all2_nthD [OF b(2) i(1)] .
    ultimately show ?r using i(2) at by auto
  next
    assume ?r
    then obtain q m where q: "q \<noteq> []" "map_of t (root @ q) = Some (IFile (hd_Body h) m)" "hd_Name h = join_with [sl] q" "hd_Mode h = 420"
      by blast
    then have reg: "is_regular (map_of t (root @ q))" by (simp add: is_regular_def)
    then obtain i where i: "i < length names" "names ! i = hd_Name h" using name [of "hd_Name h"] q by (auto simp: in_set_conv_nth)
    then have "bodies ! i = hd_Body h" using list_all2_nthD [OF b(2) i(1)] at [OF q(1) reg] q(2,3) by auto
    then have "h = ?mk (names ! i) (bodies ! i)" using i(2) q(4) by (cases h) simp
    then have "h = hs ! i" "i < length hs" using i(1) b(1) len by simp_all
    then show ?l by simp
  qed
  then show thesis using that [OF zip] t1 b(1) len file_names_Inr(2) [OF names] by simp
qed

lemma regularFileMode_420: "regularFileMode 420 = 420"
  by (simp add: regularFileMode_def ModePerm_def)

lemma packaged_not_directory: "ps \<noteq> [] \<Longrightarrow> list_all normal_component ps \<Longrightarrow> zf_Name f = join_with [sl] ps \<Longrightarrow> zf_Mode f = 420 \<Longrightarrow>
    \<not> archive_isDirectory f"
  using normal_join_plain by (simp add: archive_isDirectory_def ModeDir_def)

section \<open>Properties\<close>

text \<open>
  C36: a layer comes back as it was packed. When a directory was packaged without an error and the
  archive is extracted without one, by the worker that runs the build, the files below the
  destination are exactly the files below the directory, each under its path with its bytes
  and mode 0644.
\<close>

theorem layer_roundtrip:
  assumes "zip_codec (bx_zip bx) unzip" and "zipDirectory bx (abs_path root) target t = (t1, None)"
    and "list_all normal_component root" and "is_dir (map_of t root)"
    and "\<forall>q n. map_of t (root @ q) = Some n \<longrightarrow> list_all normal_component q"
    and "map_of t2 (path_parts target) = map_of t1 (path_parts target)" and "tree_ok t2" and "is_abs (ze_cwd env)"
    and "al_MaxExpandedBytes limits < 2 ^ 63"
    and "ExtractZIPFile unzip uc env t2 target destination limits = (t3, Inr stats)"
  shows "\<exists>d. validateDestination (ze_cwd env) destination = Inr (abs_path d) \<and> list_all normal_component d
    \<and> (\<forall>q b m. map_of t3 (d @ q) = Some (IFile b m) \<longleftrightarrow> m = 420 \<and> (\<exists>m'. map_of t (root @ q) = Some (IFile b m')))"
proof -
  obtain hs bytes where zip: "bx_zip bx hs = (bytes, None)" and at: "map_of t1 (path_parts target) = Some (IFile bytes 384)"
    and "length hs = card (files_below t root)"
    and hs: "\<forall>h. h \<in> set hs \<longleftrightarrow> (\<exists>q m. q \<noteq> [] \<and> map_of t (root @ q) = Some (IFile (hd_Body h) m)
          \<and> hd_Name h = join_with [sl] q \<and> hd_Mode h = 420)"
    by (rule packaged_members [OF assms(2,3,5)])
  obtain fs where fs: "unzip bytes (int (length bytes)) = Inr fs" "list_all2 member_file hs fs"
    using zip_codecD [OF assms(1) zip] by blast
  have run: "ExtractZIP unzip uc env t2 (Some bytes) (int (length bytes)) destination limits = (t3, Inr stats)"
    using assms(6,10) at by (simp add: ExtractZIPFile_def)
  obtain d where d: "validateDestination (ze_cwd env) destination = Inr (abs_path d)" "list_all normal_component d"
    and out: "\<forall>q b m. map_of t3 (d @ q) = Some (IFile b m) \<longleftrightarrow>
         (\<exists>f \<in> set fs. \<not> archive_isDirectory f \<and> safeArchiveName (zf_Name f) = Inr (join_with [sl] q)
            \<and> (\<exists>src. zf_Open f = Inr src \<and> b = reader_bytes src) \<and> m = regularFileMode (zf_Mode f) \<and> q \<noteq> []
            \<and> list_all normal_component q)"
    and safe: "\<forall>f \<in> set fs. \<exists>name. safeArchiveName (zf_Name f) = Inr name"
    using ExtractZIP_exact [OF run assms(7,8,9)] fs(1) by fastforce
  have "(\<exists>f \<in> set fs. \<not> archive_isDirectory f \<and> safeArchiveName (zf_Name f) = Inr (join_with [sl] q)
            \<and> (\<exists>src. zf_Open f = Inr src \<and> b = reader_bytes src) \<and> m = regularFileMode (zf_Mode f) \<and> q \<noteq> []
            \<and> list_all normal_component q)
      \<longleftrightarrow> m = 420 \<and> (\<exists>m'. map_of t (root @ q) = Some (IFile b m'))" (is "?l \<longleftrightarrow> ?r") for q b m
  proof
    assume ?l
    then obtain f src where f: "f \<in> set fs" "safeArchiveName (zf_Name f) = Inr (join_with [sl] q)" "zf_Open f = Inr src" "b = reader_bytes src"
      "m = regularFileMode (zf_Mode f)" "q \<noteq> []" "list_all normal_component q" by blast
    then obtain h where h: "h \<in> set hs" "member_file h f" using fs(2) by (metis in_set_conv_nth list_all2_conv_all_nth)
    then obtain p m' where p: "p \<noteq> []" "map_of t (root @ p) = Some (IFile (hd_Body h) m')" "hd_Name h = join_with [sl] p" "hd_Mode h = 420"
      using hs by blast
    have np: "list_all normal_component p" using assms(5) p(2) by blast
    have "join_with [sl] q = join_with [sl] p"
      using safeArchiveName_normal(2) [OF f(2)] h(2) p(3) normal_join_plain [OF p(1) np] by (simp add: member_file_def trim_suffix_slash_def)
    then have "q = p" using split_join_normal [OF f(6,7)] split_join_normal [OF p(1) np] by metis
    then show ?r using p f h(2) by (auto simp: member_file_def regularFileMode_420)
  next
    assume ?r
    then obtain m' where m: "m = 420" "map_of t (root @ q) = Some (IFile b m')" by blast
    have q: "q \<noteq> []" using m(2) assms(4) by (auto simp: is_dir_def)
    have nq: "list_all normal_component q" using assms(5) m(2) by blast
    let ?h = "\<lparr>hd_Name = join_with [sl] q, hd_Mode = 420, hd_Body = b\<rparr>"
    have "?h \<in> set hs \<longleftrightarrow> (\<exists>q' m. q' \<noteq> [] \<and> map_of t (root @ q') = Some (IFile b m) \<and> join_with [sl] q = join_with [sl] q')"
      using hs [rule_format, of ?h] by simp
    then have "?h \<in> set hs" using q m(2) by blast
    then obtain f where f: "f \<in> set fs" "member_file ?h f" using fs(2) by (metis in_set_conv_nth list_all2_conv_all_nth)
    obtain name where "safeArchiveName (zf_Name f) = Inr name" using safe f(1) by blast
    then have "safeArchiveName (zf_Name f) = Inr (join_with [sl] q)"
      using safeArchiveName_normal(2) [of "zf_Name f" name] f(2) normal_join_plain [OF q nq] by (simp add: member_file_def trim_suffix_slash_def)
    then show ?l using f q nq m(1) packaged_not_directory [OF q nq, of f] by (auto simp: member_file_def regularFileMode_420)
  qed
  then have "\<forall>q b m. map_of t3 (d @ q) = Some (IFile b m) \<longleftrightarrow> m = 420 \<and> (\<exists>m'. map_of t (root @ q) = Some (IFile b m'))"
    using out by presburger
  then show ?thesis using d by (intro exI [of _ d]) simp
qed



section \<open>Witnesses\<close>

definition pack_tree :: tree where
  "pack_tree = [([''w'', ''s'', ''c.py''], IFile ''y'' 384), ([''w'', ''s'', ''a'', ''b.py''], IFile ''x=1'' 493),
     ([''w'', ''s'', ''a''], IDir 448), ([''w'', ''s''], IDir 448), ([''w''], IDir 448), ([], IDir 493)]"

definition pack_headers :: "header list" where
  "pack_headers = [\<lparr>hd_Name = ''a/b.py'', hd_Mode = 420, hd_Body = ''x=1''\<rparr>, \<lparr>hd_Name = ''c.py'', hd_Mode = 420, hd_Body = ''y''\<rparr>]"

definition pack_files :: "zip_file list" where
  "pack_files = [sample_file, \<lparr>zf_Name = ''c.py'', zf_Mode = 420, zf_UncompressedSize64 = 1, zf_Open = Inr [(''y'', None)]\<rparr>]"

definition pack_env :: builder_env where
  "pack_env = \<lparr>bx_tool = (\<lambda>cmd t. (t, [], None)), bx_environ = [],
     bx_zip = (\<lambda>hs. if hs = pack_headers then (''PK'', None) else ([], Some (Plain ''write: no space left on device''))),
     bx_fail = (\<lambda>op p. None), bx_quote = id, bx_bundle = (\<lambda>e out dir t. (t, [])), bx_output = (\<lambda>cmd t. (t, Inr [])),
     bx_metadata = (\<lambda>s. Inr [])\<rparr>"

definition pack_unzip :: "string \<Rightarrow> int \<Rightarrow> zip_file list result" where
  "pack_unzip bytes n = Inr pack_files"

definition packed_tree :: tree where
  "packed_tree = ([''w'', ''code-layer.zip''], IFile ''PK'' 384) # pack_tree"

lemma pack_codec: "zip_codec (bx_zip pack_env) pack_unzip"
  by (auto simp: zip_codec_def pack_env_def pack_unzip_def pack_headers_def pack_files_def member_file_def sample_file_def
      split: if_splits)

lemma pack_paths: "list_all normal_component [''w'', ''s'']" "list_all normal_component [''w'', ''code-layer.zip'']"
    "list_all normal_component [''a'', ''b.py'']" "list_all normal_component [''c.py'']" "list_all normal_component [''w'', ''code'']"
  by (simp_all add: normal_component_def sl_def)

lemma pack_names: "file_names pack_env pack_tree [''w'', ''s''] = Inr [''a/b.py'', ''c.py'']"
  by code_simp

lemma pack_runs: "zipDirectory pack_env (abs_path [''w'', ''s'']) (abs_path [''w'', ''code-layer.zip'']) pack_tree = (packed_tree, None)"
  by code_simp

lemma pack_normal: "\<forall>q n. map_of pack_tree ([''w'', ''s''] @ q) = Some n \<longrightarrow> list_all normal_component q"
  by (auto simp: pack_tree_def normal_component_def sl_def split: if_splits)

lemma packed_ok: "tree_ok packed_tree" "rooted packed_tree [''w'']"
  by (auto simp: tree_ok_def rooted_def packed_tree_def pack_tree_def strict_prefix_def prefix_Cons Cons_eq_append_conv
      append_eq_Cons_conv split: if_splits)

lemma packed_inspect:
  "inspectArchive sample_uc pack_files sample_norm
     = Inr ([\<lparr>ae_file = pack_files ! 0, ae_name = ''a/b.py'', ae_isDirectory = False, ae_mode = 420\<rparr>,
             \<lparr>ae_file = pack_files ! 1, ae_name = ''c.py'', ae_isDirectory = False, ae_mode = 420\<rparr>], 4,
            \<lparr>xs_Files = 2, xs_Directories = 0, xs_ExpandedBytes = 0\<rparr>)"
  by code_simp

lemma packed_extracts:
  "\<exists>t' stats. ExtractZIPFile pack_unzip sample_uc sample_zenv packed_tree (abs_path [''w'', ''code-layer.zip''])
     (abs_path [''w'', ''code'']) sample_limits = (t', Inr stats)"
proof -
  have norm: "normalizeArchiveLimits sample_limits = Inr sample_norm"
    by (simp add: sample_limits_def sample_norm_def normalizeArchiveLimits_def DefaultMaxArchiveEntries_def DefaultMaxArchiveExpandedBytes_def)
  have "\<exists>t' stats. ExtractZIP pack_unzip sample_uc sample_zenv packed_tree (Some ''PK'') (int (length ''PK'')) (abs_path [''w'', ''code'']) sample_limits
     = (t', Inr stats)"
    using ExtractZIP_runs [OF norm _ _ packed_inspect, of pack_unzip "''PK''" sample_zenv 7 packed_tree "[''w'', ''code'']"]
      packed_ok sample_dest pack_paths(5)
    by (fastforce simp: sample_limits_def pack_unzip_def well_packed_def pack_files_def sample_file_def calm_def sample_zenv_def staging_of_def
        packed_tree_def pack_tree_def)
  then show ?thesis using path_parts_abs_path [OF pack_paths(2)] by (simp add: ExtractZIPFile_def packed_tree_def)
qed

theorem layer_roundtrip_witness:
  "\<exists>t' stats. ExtractZIPFile pack_unzip sample_uc sample_zenv packed_tree (abs_path [''w'', ''code-layer.zip''])
     (abs_path [''w'', ''code'']) sample_limits = (t', Inr stats)
     \<and> map_of t' [''w'', ''code'', ''a'', ''b.py''] = Some (IFile ''x=1'' 420)"
proof -
  obtain t' stats where run: "ExtractZIPFile pack_unzip sample_uc sample_zenv packed_tree (abs_path [''w'', ''code-layer.zip''])
     (abs_path [''w'', ''code'']) sample_limits = (t', Inr stats)" using packed_extracts by blast
  have root: "is_dir (map_of pack_tree [''w'', ''s''])" by (simp add: pack_tree_def)
  obtain d where d: "validateDestination (ze_cwd sample_zenv) (abs_path [''w'', ''code'']) = Inr (abs_path d)" "list_all normal_component d"
    and files: "\<forall>q b m. map_of t' (d @ q) = Some (IFile b m) \<longleftrightarrow> m = 420 \<and> (\<exists>m'. map_of pack_tree ([''w'', ''s''] @ q) = Some (IFile b m'))"
    using layer_roundtrip [OF pack_codec pack_runs pack_paths(1) root pack_normal refl packed_ok(1) sample_zenv_ok run] by blast
  show ?thesis using sample_dir [OF d] run files [rule_format, of "[''a'', ''b.py'']" "''x=1''" 420] by (auto simp: pack_tree_def)
qed

lemma pack_count: "card (files_below pack_tree [''w'', ''s'']) = 2"
  using file_names_Inr(2) [OF pack_names] by simp


definition pack_request :: build_request where
  "pack_request = \<lparr>br_SourceDirectory = ''/w/s'', br_WorkDirectory = ''/w'', br_CacheDirectory = []\<rparr>"

lemma pack_ruby: "ruby_Build pack_env exe pack_request pack_tree = (packed_tree, Inr [code_layer pack_request], [])"
proof -
  have "zipDirectory pack_env (br_SourceDirectory pack_request) (ly_Path (code_layer pack_request)) pack_tree = (packed_tree, None)"
    by code_simp
  moreover have "\<not> regular_at pack_env packed_tree (filepath_join (br_SourceDirectory pack_request) ''Gemfile'')" by code_simp
  ultimately show ?thesis by (simp add: ruby_Build_def)
qed


end
