(* ===== verification/Http.thy ===== *)
theory Http
  imports Access Config
begin

text \<open>
  What every handler of internal/api shares: the request as a handler sees it, reading one JSON
  value from a bounded body (middleware.go, \<open>bindJSON\<close>), the page size (server.go,
  \<open>pageLimit\<close>), the middleware that admits a principal to a route, and the limits \<open>NewServer\<close>
  settles. Typed decoding by encoding/json and mime.ParseMediaType are arguments.
\<close>

section \<open>Requests and replies\<close>

text \<open>
  A request: its Content-Type, its body (\<open>None\<close> when there is none) with the declared length,
  its query parameters (empty when absent) and the identifier in its path.
\<close>

record http_request =
  rq_ContentType :: string
  rq_Body :: "string option"
  rq_ContentLength :: int
  rq_Query :: "string \<Rightarrow> string"
  rq_Param :: string

type_synonym 'a reply = "problem + nat \<times> 'a"

record http_lib =
  ht_cfg :: cfg_lib
  ht_media :: "string \<Rightarrow> string result"
  ht_maximumBodyBytes :: int

definition replied :: "nat \<Rightarrow> ('a \<Rightarrow> 'b) \<Rightarrow> 'a result \<Rightarrow> 'b reply" where
  "replied status f r = (case r of Inl e \<Rightarrow> Inl (writeError e) | Inr x \<Rightarrow> Inr (status, f x))"

section \<open>Bodies\<close>

text \<open>
  One call of \<open>Decode\<close> on the bytes at hand: it refuses them, it needs more than there are, or
  it reads a value and leaves the bytes behind it.
\<close>

datatype 'a scanned = Refused | Unfinished | Value 'a string

definition body_within :: "int \<Rightarrow> string \<Rightarrow> string" where
  "body_within maximum body = take (nat maximum) body"

text \<open>
  \<open>bindJSON\<close>. The reader gives the first \<open>maximum\<close> bytes and then fails with a
  \<open>MaxBytesError\<close> when there are more, so the end of the input is only seen within the limit.
\<close>

definition bindJSON :: "http_lib \<Rightarrow> (string \<Rightarrow> 'a scanned) \<Rightarrow> http_request \<Rightarrow> problem + 'a" where
  "bindJSON lib decode req =
     (let body = (case rq_Body req of None \<Rightarrow> [] | Some b \<Rightarrow> b);
          long = int (length body) > ht_maximumBodyBytes lib in
      if rq_ContentType req \<noteq> [] \<and> ht_media lib (rq_ContentType req) \<noteq> Inr ''application/json''
      then Inl (415, ''unsupported_media_type'')
      else case decode (body_within (ht_maximumBodyBytes lib) body) of
        Refused \<Rightarrow> Inl (400, ''invalid_json'')
      | Unfinished \<Rightarrow> if long then Inl (413, ''request_too_large'') else Inl (400, ''invalid_json'')
      | Value x rest \<Rightarrow>
          if \<not> long \<and> list_all json_space rest then Inr x else Inl (400, ''invalid_json''))"

definition requireEmptyBody :: "http_request \<Rightarrow> problem option" where
  "requireEmptyBody req =
     (if rq_Body req = None \<or> rq_ContentLength req = 0 then None else Some invalidRequest)"

section \<open>Pages\<close>

definition defaultPageSize :: int where "defaultPageSize = 50"

definition api_maximumPageSize :: int where "api_maximumPageSize = 200"

definition pageLimit :: "http_lib \<Rightarrow> http_request \<Rightarrow> problem + int" where
  "pageLimit lib req =
     (let raw = trim_space (rq_Query req ''limit'') in
      if raw = [] then Inr defaultPageSize
      else case ParseInt (ht_cfg lib) raw of
        Inl e \<Rightarrow> Inl invalidQuery
      | Inr limit \<Rightarrow> if limit < 1 \<or> limit > api_maximumPageSize then Inl invalidQuery else Inr limit)"

section \<open>Routes\<close>

text \<open>What a route of the authenticated group asks of a principal.\<close>

datatype gate = Scope string | SessionOnly

definition admits :: "gate \<Rightarrow> principal \<Rightarrow> problem option" where
  "admits g p =
     (case g of
        Scope s \<Rightarrow> if HasScope p s then None else Some (403, ''permission_denied'')
      | SessionOnly \<Rightarrow> if pr_Kind p = KindAPIKey then Some (403, ''session_required'') else None)"

text \<open>\<open>NewServer\<close>: the services that must be given, and the limit on bodies.\<close>

definition defaultMaximumBodyBytes :: int where "defaultMaximumBodyBytes = 1048576"

record server_options =
  so_services :: "(string \<times> bool) list"
  so_MaximumBodyBytes :: int

definition required_services :: "string list" where
  "required_services = [''project'', ''app'', ''build'', ''deployment'', ''execution'', ''account'', ''session'', ''organization'']"

definition NewServer :: "server_options \<Rightarrow> int result" where
  "NewServer options =
     check (first_err (map (\<lambda>s. guard (map_of (so_services options) s \<noteq> Some True) (Plain (s @ '' service is required''))) required_services
              @ [guard (so_MaximumBodyBytes options < 0) (Plain ''maximum request body bytes cannot be negative'')]))
       (Inr (if so_MaximumBodyBytes options = 0 then defaultMaximumBodyBytes else so_MaximumBodyBytes options))"

section \<open>Facts the handlers share\<close>

lemma pageLimit_bounds: "pageLimit lib req = Inr limit \<Longrightarrow> 1 \<le> limit \<and> limit \<le> 200"
  by (auto simp: pageLimit_def Let_def defaultPageSize_def api_maximumPageSize_def split: if_splits sum.splits)

text \<open>A value is only taken from a body within the limit, of which it is all but space.\<close>

lemma bindJSON_Inr:
  assumes "bindJSON lib decode req = Inr x"
  shows "\<exists>body rest. body = (case rq_Body req of None \<Rightarrow> [] | Some b \<Rightarrow> b) \<and> decode body = Value x rest
    \<and> list_all json_space rest \<and> int (length body) \<le> ht_maximumBodyBytes lib"
  using assms by (auto simp: bindJSON_def body_within_def Let_def split: if_splits scanned.splits option.splits)

lemma replied_Inr_iff: "replied status f r = Inr (s, y) \<longleftrightarrow> (\<exists>x. r = Inr x \<and> s = status \<and> y = f x)"
  by (auto simp: replied_def split: sum.splits)

lemma admits_Scope: "admits (Scope s) p = None \<longleftrightarrow> HasScope p s"
  by (simp add: admits_def)

end
