(* ===== verification/WorkApi.thy ===== *)
theory WorkApi
  imports Http Isolation GitHubCatalog
begin

text \<open>
  The handlers of internal/api that reach an organization's work: projects.go, apps.go,
  deployments.go, builds.go, executions.go and github.go, with the responses of internal/dto
  they answer with and their rows of the route table in server.go. A handler gets the principal
  the middleware admitted, the state its earlier reads saw and the state of its last statement.
\<close>

section \<open>Responses\<close>

record project_response =
  pj_ID :: string
  pj_Name :: string
  pj_CreatedAt :: time
  pj_UpdatedAt :: time

definition NewProjectResponse :: "project \<Rightarrow> project_response" where
  "NewProjectResponse r =
     \<lparr>pj_ID = prj_ID r, pj_Name = prj_Name r, pj_CreatedAt = prj_CreatedAt r, pj_UpdatedAt = prj_UpdatedAt r\<rparr>"

record app_response =
  ap_ID :: string
  ap_ProjectID :: string
  ap_Name :: string
  ap_Repository :: string
  ap_ProductionRef :: string
  ap_ActiveBuildID :: string
  ap_CreatedAt :: time
  ap_UpdatedAt :: time

definition NewAppResponse :: "app \<Rightarrow> app_response" where
  "NewAppResponse r =
     \<lparr>ap_ID = app_ID r, ap_ProjectID = app_ProjectID r, ap_Name = app_Name r, ap_Repository = app_Repository r,
      ap_ProductionRef = app_ProductionRef r, ap_ActiveBuildID = app_ActiveBuildID r,
      ap_CreatedAt = app_CreatedAt r, ap_UpdatedAt = app_UpdatedAt r\<rparr>"

record artifact_response =
  at_ID :: string
  at_Name :: string
  at_SizeBytes :: int
  at_SHA256 :: string
  at_CreatedAt :: time

definition NewArtifactResponse :: "artifact \<Rightarrow> artifact_response" where
  "NewArtifactResponse r =
     \<lparr>at_ID = art_ID r, at_Name = art_Name r, at_SizeBytes = art_SizeBytes r, at_SHA256 = art_SHA256 r,
      at_CreatedAt = art_CreatedAt r\<rparr>"

record build_response =
  bd_ID :: string
  bd_AppID :: string
  bd_DeploymentID :: string
  bd_Runtime :: runtime
  bd_SourceSHA256 :: string
  bd_Artifacts :: "artifact_response list"
  bd_CreatedAt :: time

definition NewBuildResponse :: "build \<Rightarrow> build_response" where
  "NewBuildResponse r =
     \<lparr>bd_ID = bld_ID r, bd_AppID = bld_AppID r, bd_DeploymentID = bld_DeploymentID r, bd_Runtime = bld_Runtime r,
      bd_SourceSHA256 = bld_SourceSHA256 r, bd_Artifacts = map NewArtifactResponse (bld_Artifacts r),
      bd_CreatedAt = bld_CreatedAt r\<rparr>"

record deployment_response =
  dy_ID :: string
  dy_ProjectID :: string
  dy_AppID :: string
  dy_Runtime :: runtime
  dy_Status :: dep_status
  dy_CommitSHA :: string
  dy_GitRef :: string
  dy_Build :: "build_response option"
  dy_Failure :: "dep_failure option"
  dy_Logs :: string
  dy_StartedAt :: "time option"
  dy_FinishedAt :: "time option"
  dy_CreatedAt :: time
  dy_UpdatedAt :: time

definition NewDeploymentResponse :: "deployment \<Rightarrow> deployment_response" where
  "NewDeploymentResponse r =
     \<lparr>dy_ID = dep_ID r, dy_ProjectID = dep_ProjectID r, dy_AppID = dep_AppID r, dy_Runtime = dep_Runtime r,
      dy_Status = dep_Status r, dy_CommitSHA = dep_CommitSHA r, dy_GitRef = dep_GitRef r,
      dy_Build = map_option NewBuildResponse (dep_Build r), dy_Failure = dep_Failure r, dy_Logs = dep_Logs r,
      dy_StartedAt = dep_StartedAt r, dy_FinishedAt = dep_FinishedAt r,
      dy_CreatedAt = dep_CreatedAt r, dy_UpdatedAt = dep_UpdatedAt r\<rparr>"

text \<open>
  \<open>NewExecutionResponse\<close> and \<open>NewInstallationResponse\<close> carry every field of the record, so the
  record stands for the response.
\<close>

datatype work_payload =
  ProjectList "project_response list" | OneProject project_response
| AppList "app_response list" | OneApp app_response
| BuildList "build_response list" | OneBuild build_response
| DeploymentList "deployment_response list" | OneDeployment deployment_response
| ExecutionList "execution list" | OneExecution execution
| OneInstallation installation | RepositoryList "repository list" | BranchList "string list" | NoBody

section \<open>Handlers\<close>

record install_request =
  iq_InstallationID :: string

record connect_request =
  cq_Repository :: string
  cq_ProductionRef :: string

record deploy_request =
  gq_AppID :: string
  gq_Ref :: string

text \<open>
  What a handler works with: the decoders of the bodies, what the services are built over, the
  identifier it may mint and the time.
\<close>

record work_env =
  we_http :: http_lib
  we_CreateProject :: "string \<Rightarrow> string scanned"
  we_UpdateProject :: "string \<Rightarrow> string option scanned"
  we_CreateApp :: "string \<Rightarrow> app_request scanned"
  we_UpdateApp :: "string \<Rightarrow> string option scanned"
  we_ActivateBuild :: "string \<Rightarrow> string scanned"
  we_CreateExecution :: "string \<Rightarrow> exec_request scanned"
  we_Install :: "string \<Rightarrow> install_request scanned"
  we_Connect :: "string \<Rightarrow> connect_request scanned"
  we_DeployRef :: "string \<Rightarrow> deploy_request scanned"
  we_pg :: pgsql
  we_aq :: appsql
  we_client :: "ghclient option"
  we_gh :: gh_env
  we_repos :: "int \<Rightarrow> nat \<Rightarrow> (repository list \<times> nat) answer"
  we_branches :: "int \<Rightarrow> repo_name \<Rightarrow> nat \<Rightarrow> (string list \<times> nat) answer"
  we_compact :: "string \<Rightarrow> string"
  we_maxInputBytes :: int
  we_newID :: "string result"
  we_now :: time

type_synonym 'a handled = "gdb \<times> 'a reply"

text \<open>A read, a write that returns a record, and a write that returns an error.\<close>

definition reading :: "gdb \<Rightarrow> 'a reply \<Rightarrow> 'a handled" where
  "reading g r = (g, r)"

definition writing :: "gdb \<Rightarrow> nat \<Rightarrow> ('a \<Rightarrow> 'b) \<Rightarrow> pdb \<times> 'a result \<Rightarrow> 'b handled" where
  "writing g status f r = (g\<lparr>gh_db := fst r\<rparr>, replied status f (snd r))"

definition deleted :: "gdb \<times> go_err \<Rightarrow> work_payload handled" where
  "deleted r = (fst r, case snd r of Some e \<Rightarrow> Inl (writeError e) | None \<Rightarrow> Inr (204, NoBody))"

definition with_page :: "work_env \<Rightarrow> http_request \<Rightarrow> gdb \<Rightarrow> (int \<Rightarrow> 'a handled) \<Rightarrow> 'a handled" where
  "with_page env req g k = (case pageLimit (we_http env) req of Inl q \<Rightarrow> (g, Inl q) | Inr limit \<Rightarrow> k limit)"

definition with_body :: "work_env \<Rightarrow> (string \<Rightarrow> 'b scanned) \<Rightarrow> http_request \<Rightarrow> gdb \<Rightarrow> ('b \<Rightarrow> 'a handled) \<Rightarrow> 'a handled" where
  "with_body env decode req g k =
     (case bindJSON (we_http env) decode req of Inl q \<Rightarrow> (g, Inl q) | Inr body \<Rightarrow> k body)"

subsection \<open>Projects\<close>

definition api_listProjects :: "work_env \<Rightarrow> principal \<Rightarrow> gdb \<Rightarrow> gdb \<Rightarrow> http_request \<Rightarrow> work_payload handled" where
  "api_listProjects env p seen g req =
     with_page env req g (\<lambda>limit.
       reading g (replied 200 (\<lambda>rs. ProjectList (map NewProjectResponse rs))
         (projsvc_List (we_pg env) (gh_db g) (pr_OrganizationID p) limit)))"

definition api_createProject :: "work_env \<Rightarrow> principal \<Rightarrow> gdb \<Rightarrow> gdb \<Rightarrow> http_request \<Rightarrow> work_payload handled" where
  "api_createProject env p seen g req =
     with_body env (we_CreateProject env) req g (\<lambda>name.
       writing g 201 (OneProject \<circ> NewProjectResponse)
         (projsvc_Create (gh_db g) (we_newID env) (we_now env) (pr_OrganizationID p) name))"

definition api_getProject :: "work_env \<Rightarrow> principal \<Rightarrow> gdb \<Rightarrow> gdb \<Rightarrow> http_request \<Rightarrow> work_payload handled" where
  "api_getProject env p seen g req =
     reading g (replied 200 (OneProject \<circ> NewProjectResponse)
       (projrepo_GetByID (gh_db g) (pr_OrganizationID p) (rq_Param req)))"

definition api_updateProject :: "work_env \<Rightarrow> principal \<Rightarrow> gdb \<Rightarrow> gdb \<Rightarrow> http_request \<Rightarrow> work_payload handled" where
  "api_updateProject env p seen g req =
     with_body env (we_UpdateProject env) req g (\<lambda>name.
       writing g 200 (OneProject \<circ> NewProjectResponse)
         (projsvc_Update (gh_db seen) (gh_db g) (we_now env) (pr_OrganizationID p) (rq_Param req) name))"

definition api_deleteProject :: "work_env \<Rightarrow> principal \<Rightarrow> gdb \<Rightarrow> gdb \<Rightarrow> http_request \<Rightarrow> work_payload handled" where
  "api_deleteProject env p seen g req =
     (case projrepo_Delete (gh_db g) (pr_OrganizationID p) (rq_Param req) of
        (d, e) \<Rightarrow> deleted (g\<lparr>gh_db := d\<rparr>, e))"

subsection \<open>Apps\<close>

definition api_listApps :: "work_env \<Rightarrow> principal \<Rightarrow> gdb \<Rightarrow> gdb \<Rightarrow> http_request \<Rightarrow> work_payload handled" where
  "api_listApps env p seen g req =
     with_page env req g (\<lambda>limit.
       reading g (replied 200 (\<lambda>rs. AppList (map NewAppResponse rs))
         (appsvc_List (we_pg env) (gh_db g) (pr_OrganizationID p) (trim_space (rq_Query req ''project_id''))
            (rq_Query req ''name'') limit)))"

definition api_createApp :: "work_env \<Rightarrow> principal \<Rightarrow> gdb \<Rightarrow> gdb \<Rightarrow> http_request \<Rightarrow> work_payload handled" where
  "api_createApp env p seen g req =
     with_body env (we_CreateApp env) req g (\<lambda>body.
       writing g 201 (OneApp \<circ> NewAppResponse)
         (ghsvc_CreateApp (we_aq env) (we_client env) (we_gh env) seen (gh_db g) (pr_OrganizationID p) body))"

definition api_getApp :: "work_env \<Rightarrow> principal \<Rightarrow> gdb \<Rightarrow> gdb \<Rightarrow> http_request \<Rightarrow> work_payload handled" where
  "api_getApp env p seen g req =
     reading g (replied 200 (OneApp \<circ> NewAppResponse)
       (apprepo_GetByID (gh_db g) (pr_OrganizationID p) (rq_Param req)))"

definition api_updateApp :: "work_env \<Rightarrow> principal \<Rightarrow> gdb \<Rightarrow> gdb \<Rightarrow> http_request \<Rightarrow> work_payload handled" where
  "api_updateApp env p seen g req =
     with_body env (we_UpdateApp env) req g (\<lambda>name.
       if name = None then (g, Inl invalidRequest)
       else writing g 200 (OneApp \<circ> NewAppResponse)
         (appsvc_Update (we_aq env) (gh_db seen) (gh_db g) (we_now env) (pr_OrganizationID p) (rq_Param req) name))"

definition api_activateBuild :: "work_env \<Rightarrow> principal \<Rightarrow> gdb \<Rightarrow> gdb \<Rightarrow> http_request \<Rightarrow> work_payload handled" where
  "api_activateBuild env p seen g req =
     with_body env (we_ActivateBuild env) req g (\<lambda>buildID.
       writing g 200 (OneApp \<circ> NewAppResponse)
         (appsvc_ActivateBuild (we_aq env) (gh_db seen) (gh_db g) (we_now env) (pr_OrganizationID p) (rq_Param req) buildID))"

definition api_deleteApp :: "work_env \<Rightarrow> principal \<Rightarrow> gdb \<Rightarrow> gdb \<Rightarrow> http_request \<Rightarrow> work_payload handled" where
  "api_deleteApp env p seen g req =
     (case apprepo_Delete (gh_db g) (pr_OrganizationID p) (rq_Param req) of
        (d, e) \<Rightarrow> deleted (g\<lparr>gh_db := d\<rparr>, e))"

subsection \<open>Deployments and builds\<close>

definition api_listDeployments :: "work_env \<Rightarrow> principal \<Rightarrow> gdb \<Rightarrow> gdb \<Rightarrow> http_request \<Rightarrow> work_payload handled" where
  "api_listDeployments env p seen g req =
     with_page env req g (\<lambda>limit.
       reading g (replied 200 (\<lambda>rs. DeploymentList (map NewDeploymentResponse rs))
         (depsvc_List (we_pg env) (gh_db seen) (gh_db g) (pr_OrganizationID p)
            (trim_space (rq_Query req ''project_id'')) (trim_space (rq_Query req ''app_id'')) limit)))"

definition api_getDeployment :: "work_env \<Rightarrow> principal \<Rightarrow> gdb \<Rightarrow> gdb \<Rightarrow> http_request \<Rightarrow> work_payload handled" where
  "api_getDeployment env p seen g req =
     reading g (replied 200 (OneDeployment \<circ> NewDeploymentResponse)
       (getDeployment (pd_db (gh_db g)) (pr_OrganizationID p) (rq_Param req)))"

definition api_retryDeployment :: "work_env \<Rightarrow> principal \<Rightarrow> gdb \<Rightarrow> gdb \<Rightarrow> http_request \<Rightarrow> work_payload handled" where
  "api_retryDeployment env p seen g req =
     writing g 202 (OneDeployment \<circ> NewDeploymentResponse)
       (ghsvc_Retry (we_client env) (we_gh env) seen (gh_db g) (pr_OrganizationID p) (rq_Param req))"

definition api_listBuilds :: "work_env \<Rightarrow> principal \<Rightarrow> gdb \<Rightarrow> gdb \<Rightarrow> http_request \<Rightarrow> work_payload handled" where
  "api_listBuilds env p seen g req =
     with_page env req g (\<lambda>limit.
       reading g (replied 200 (\<lambda>rs. BuildList (map NewBuildResponse rs))
         (buildsvc_List (we_pg env) (gh_db g) (pr_OrganizationID p)
            (trim_space (rq_Query req ''app_id'')) (trim_space (rq_Query req ''deployment_id'')) limit)))"

definition api_getBuild :: "work_env \<Rightarrow> principal \<Rightarrow> gdb \<Rightarrow> gdb \<Rightarrow> http_request \<Rightarrow> work_payload handled" where
  "api_getBuild env p seen g req =
     reading g (replied 200 (OneBuild \<circ> NewBuildResponse)
       (buildrepo_Get (pd_db (gh_db g)) (pr_OrganizationID p) (rq_Param req)))"

subsection \<open>Executions\<close>

definition api_createExecution :: "work_env \<Rightarrow> principal \<Rightarrow> gdb \<Rightarrow> gdb \<Rightarrow> http_request \<Rightarrow> work_payload handled" where
  "api_createExecution env p seen g req =
     with_body env (we_CreateExecution env) req g (\<lambda>body.
       if raw_bytes (eq_Input body) = [] then (g, Inl invalidRequest)
       else writing g 202 OneExecution
         (exesvc_Create (we_pg env) (we_compact env) (we_maxInputBytes env) (gh_db seen) (gh_db g) (we_newID env)
            (we_now env) (pr_OrganizationID p) body))"

definition api_listExecutions :: "work_env \<Rightarrow> principal \<Rightarrow> gdb \<Rightarrow> gdb \<Rightarrow> http_request \<Rightarrow> work_payload handled" where
  "api_listExecutions env p seen g req =
     with_page env req g (\<lambda>limit.
       reading g (replied 200 ExecutionList
         (exesvc_List (we_pg env) (gh_db g) (pr_OrganizationID p) (trim_space (rq_Query req ''project_id''))
            (trim_space (rq_Query req ''app_id'')) (trim_space (rq_Query req ''build_id'')) limit)))"

definition api_getExecution :: "work_env \<Rightarrow> principal \<Rightarrow> gdb \<Rightarrow> gdb \<Rightarrow> http_request \<Rightarrow> work_payload handled" where
  "api_getExecution env p seen g req =
     reading g (replied 200 OneExecution (exesvc_Get (gh_db g) (pr_OrganizationID p) (rq_Param req)))"

definition api_rerunExecution :: "work_env \<Rightarrow> principal \<Rightarrow> gdb \<Rightarrow> gdb \<Rightarrow> http_request \<Rightarrow> work_payload handled" where
  "api_rerunExecution env p seen g req =
     (case requireEmptyBody req of
        Some q \<Rightarrow> (g, Inl q)
      | None \<Rightarrow>
          writing g 202 OneExecution
            (exesvc_Rerun (we_pg env) (gh_db seen) (gh_db g) (we_newID env) (we_now env) (pr_OrganizationID p) (rq_Param req)))"

subsection \<open>GitHub\<close>

definition api_recordInstallation :: "work_env \<Rightarrow> principal \<Rightarrow> gdb \<Rightarrow> gdb \<Rightarrow> http_request \<Rightarrow> work_payload handled" where
  "api_recordInstallation env p seen g req =
     with_body env (we_Install env) req g (\<lambda>body.
       case ParseInt (ht_cfg (we_http env)) (trim_space (iq_InstallationID body)) of
         Inl e \<Rightarrow> (g, Inl invalidRequest)
       | Inr installationID \<Rightarrow>
           if installationID \<le> 0 then (g, Inl invalidRequest)
           else case ghsvc_Install (we_client env) (we_gh env) g (pr_OrganizationID p) installationID of
             (g', r) \<Rightarrow> (g', replied 201 OneInstallation r))"

definition api_getInstallation :: "work_env \<Rightarrow> principal \<Rightarrow> gdb \<Rightarrow> gdb \<Rightarrow> http_request \<Rightarrow> work_payload handled" where
  "api_getInstallation env p seen g req =
     reading g (replied 200 OneInstallation (ByOrganization g (pr_OrganizationID p)))"

definition api_deleteInstallation :: "work_env \<Rightarrow> principal \<Rightarrow> gdb \<Rightarrow> gdb \<Rightarrow> http_request \<Rightarrow> work_payload handled" where
  "api_deleteInstallation env p seen g req = deleted (insrepo_Delete g (pr_OrganizationID p))"

definition api_listRepositories :: "work_env \<Rightarrow> principal \<Rightarrow> gdb \<Rightarrow> gdb \<Rightarrow> http_request \<Rightarrow> work_payload handled" where
  "api_listRepositories env p seen g req =
     reading g (replied 200 RepositoryList
       (ghsvc_Repositories (we_client env) (we_repos env) g (pr_OrganizationID p)))"

definition api_listBranches :: "work_env \<Rightarrow> principal \<Rightarrow> gdb \<Rightarrow> gdb \<Rightarrow> http_request \<Rightarrow> work_payload handled" where
  "api_listBranches env p seen g req =
     (let repository = trim_space (rq_Query req ''repository'') in
      if repository = [] then (g, Inl invalidRequest)
      else reading g (replied 200 BranchList
        (ghsvc_Branches (we_client env) (we_branches env) g (pr_OrganizationID p) repository)))"

definition api_connectRepository :: "work_env \<Rightarrow> principal \<Rightarrow> gdb \<Rightarrow> gdb \<Rightarrow> http_request \<Rightarrow> work_payload handled" where
  "api_connectRepository env p seen g req =
     with_body env (we_Connect env) req g (\<lambda>body.
       writing g 200 (OneApp \<circ> NewAppResponse)
         (ghsvc_Connect (we_aq env) (we_client env) (we_gh env) seen (gh_db g) (pr_OrganizationID p) (rq_Param req)
            (cq_Repository body) (cq_ProductionRef body)))"

definition api_deployRef :: "work_env \<Rightarrow> principal \<Rightarrow> gdb \<Rightarrow> gdb \<Rightarrow> http_request \<Rightarrow> work_payload handled" where
  "api_deployRef env p seen g req =
     with_body env (we_DeployRef env) req g (\<lambda>body.
       if trim_space (gq_AppID body) = [] then (g, Inl invalidRequest)
       else writing g 202 (OneDeployment \<circ> NewDeploymentResponse)
         (ghsvc_Deploy (we_client env) (we_gh env) seen (gh_db g) (pr_OrganizationID p) (gq_AppID body) (gq_Ref body)))"

text \<open>
  The webhook has no principal. \<open>too_large\<close> says that reading the body ran past its limit,
  which \<open>ParsePush\<close> reports below a rejected signature. A push that is deployable is handed to
  \<open>Push\<close>, which outlives the request.
\<close>

definition api_gitHubWebhook :: "ghclient option \<Rightarrow> delivery \<Rightarrow> bool \<Rightarrow> push option reply" where
  "api_gitHubWebhook client q too_large =
     (case configured client (\<lambda>cl. ParsePush cl q) of
        Inl e \<Rightarrow> Inl (if too_large \<and> errors_is e Github_ErrSignature then (413, ''request_too_large'') else writeError e)
      | Inr None \<Rightarrow> Inr (204, None)
      | Inr (Some push) \<Rightarrow> Inr (202, Some push))"

section \<open>Routes\<close>

datatype work_route =
  ListDeployments | GetDeployment | RetryDeployment | ListBuilds | GetBuild
| ListExecutions | CreateExecution | GetExecution | RerunExecution
| ListProjects | CreateProject | GetProject | UpdateProject | DeleteProject
| ListApps | CreateApp | GetApp | UpdateApp | ActivateBuild | DeleteApp
| GetInstallation | RecordInstallation | DeleteInstallation | ListRepositories | ListBranches
| ConnectRepository | DeployRef

fun work_gate :: "work_route \<Rightarrow> gate" where
  "work_gate ListDeployments = Scope ''deployments:read''"
| "work_gate GetDeployment = Scope ''deployments:read''"
| "work_gate RetryDeployment = Scope ''deployments:write''"
| "work_gate ListBuilds = Scope ''builds:read''"
| "work_gate GetBuild = Scope ''builds:read''"
| "work_gate ListExecutions = Scope ''executions:read''"
| "work_gate CreateExecution = Scope ''executions:write''"
| "work_gate GetExecution = Scope ''executions:read''"
| "work_gate RerunExecution = Scope ''executions:write''"
| "work_gate ListProjects = Scope ''projects:read''"
| "work_gate CreateProject = Scope ''projects:write''"
| "work_gate GetProject = Scope ''projects:read''"
| "work_gate UpdateProject = Scope ''projects:write''"
| "work_gate DeleteProject = Scope ''projects:write''"
| "work_gate ListApps = Scope ''apps:read''"
| "work_gate CreateApp = Scope ''apps:write''"
| "work_gate GetApp = Scope ''apps:read''"
| "work_gate UpdateApp = Scope ''apps:write''"
| "work_gate ActivateBuild = Scope ''apps:write''"
| "work_gate DeleteApp = Scope ''apps:write''"
| "work_gate GetInstallation = Scope ''apps:read''"
| "work_gate RecordInstallation = Scope ''apps:write''"
| "work_gate DeleteInstallation = Scope ''apps:write''"
| "work_gate ListRepositories = Scope ''apps:read''"
| "work_gate ListBranches = Scope ''apps:read''"
| "work_gate ConnectRepository = Scope ''apps:write''"
| "work_gate DeployRef = Scope ''deployments:write''"

fun work_handler :: "work_route \<Rightarrow> work_env \<Rightarrow> principal \<Rightarrow> gdb \<Rightarrow> gdb \<Rightarrow> http_request \<Rightarrow> work_payload handled" where
  "work_handler ListDeployments = api_listDeployments"
| "work_handler GetDeployment = api_getDeployment"
| "work_handler RetryDeployment = api_retryDeployment"
| "work_handler ListBuilds = api_listBuilds"
| "work_handler GetBuild = api_getBuild"
| "work_handler ListExecutions = api_listExecutions"
| "work_handler CreateExecution = api_createExecution"
| "work_handler GetExecution = api_getExecution"
| "work_handler RerunExecution = api_rerunExecution"
| "work_handler ListProjects = api_listProjects"
| "work_handler CreateProject = api_createProject"
| "work_handler GetProject = api_getProject"
| "work_handler UpdateProject = api_updateProject"
| "work_handler DeleteProject = api_deleteProject"
| "work_handler ListApps = api_listApps"
| "work_handler CreateApp = api_createApp"
| "work_handler GetApp = api_getApp"
| "work_handler UpdateApp = api_updateApp"
| "work_handler ActivateBuild = api_activateBuild"
| "work_handler DeleteApp = api_deleteApp"
| "work_handler GetInstallation = api_getInstallation"
| "work_handler RecordInstallation = api_recordInstallation"
| "work_handler DeleteInstallation = api_deleteInstallation"
| "work_handler ListRepositories = api_listRepositories"
| "work_handler ListBranches = api_listBranches"
| "work_handler ConnectRepository = api_connectRepository"
| "work_handler DeployRef = api_deployRef"

text \<open>A request through the group: authentication has answered, the gate is asked, the handler runs.\<close>

definition serve_work ::
  "work_env \<Rightarrow> problem + principal \<Rightarrow> gdb \<Rightarrow> gdb \<Rightarrow> work_route \<Rightarrow> http_request \<Rightarrow> work_payload handled"
where
  "serve_work env who seen g route req =
     (case who of
        Inl q \<Rightarrow> (g, Inl q)
      | Inr p \<Rightarrow>
          (case admits (work_gate route) p of
             Some q \<Rightarrow> (g, Inl q) | None \<Rightarrow> work_handler route env p seen g req))"

section \<open>A handler acts for its organization\<close>

text \<open>
  What a handler may do to the tables: nothing, or one step on behalf of its organization; and
  the installations of the other organizations stay.
\<close>

definition installations_of :: "gdb \<Rightarrow> string \<Rightarrow> installation list" where
  "installations_of g org = filter (\<lambda>i. ins_OrganizationID i = org) (gh_installations g)"

definition acts_for :: "string \<Rightarrow> gdb \<Rightarrow> gdb \<Rightarrow> gdb \<Rightarrow> bool" where
  "acts_for org seen g g' \<longleftrightarrow>
     (gh_db g' = gh_db g \<or> org_step org seen (gh_db g) (gh_db g'))
     \<and> (\<forall>other. other \<noteq> org \<longrightarrow> installations_of g' other = installations_of g other)"

lemma acts_for_refl [simp]: "acts_for org seen g g"
  by (simp add: acts_for_def)

lemma acts_for_reading [simp]: "acts_for org seen g (fst (reading g r))"
  by (simp add: reading_def)

lemma acts_for_step: "org_step org seen (gh_db g) d \<Longrightarrow> acts_for org seen g (g\<lparr>gh_db := d\<rparr>)"
  by (simp add: acts_for_def installations_of_def)

lemma acts_for_writing: "org_step org seen (gh_db g) (fst r) \<Longrightarrow> acts_for org seen g (fst (writing g s f r))"
  by (simp add: writing_def acts_for_step)

lemma acts_for_page: "(\<And>n. acts_for org seen g (fst (k n))) \<Longrightarrow> acts_for org seen g (fst (with_page env req g k))"
  by (simp add: with_page_def split: sum.split)

lemma acts_for_body: "(\<And>b. acts_for org seen g (fst (k b))) \<Longrightarrow> acts_for org seen g (fst (with_body env dec req g k))"
  by (simp add: with_body_def split: sum.split)

lemma pageLimit_valid: "pageLimit lib req = Inr limit \<Longrightarrow> validateLimit limit = None"
  using pageLimit_bounds [of lib req limit] by (auto simp: validateLimit_def maximumPageSize_def)

text \<open>The steps of \<open>org_step\<close>, as the handlers call them.\<close>

lemma org_step_calls:
  "org_step org seen d (fst (projsvc_Create d newID now org name))"
  "org_step org seen d (fst (projsvc_Update (gh_db seen) d now org i rename))"
  "org_step org seen d (fst (projrepo_Delete d org i))"
  "org_step org seen d (fst (ghsvc_CreateApp aq client env seen d org request))"
  "org_step org seen d (fst (appsvc_Update aq (gh_db seen) d now org i rename))"
  "org_step org seen d (fst (appsvc_ActivateBuild aq (gh_db seen) d now org i name))"
  "org_step org seen d (fst (ghsvc_Connect aq client env seen d org i name ref))"
  "org_step org seen d (fst (apprepo_Delete d org i))"
  "org_step org seen d (fst (ghsvc_Deploy client env seen d org i ref))"
  "org_step org seen d (fst (ghsvc_Retry client env seen d org i))"
  "org_step org seen d (fst (exesvc_Create pg compact maxb (gh_db seen) d newID now org erequest))"
  "org_step org seen d (fst (exesvc_Rerun pg (gh_db seen) d newID now org i))"
  by (rule org_step.intros, rule prod.collapse [symmetric])+

lemma insrepo_Save_keeps:
  assumes "other \<noteq> ins_OrganizationID r"
  shows "gh_db (fst (insrepo_Save g r)) = gh_db g
    \<and> installations_of (fst (insrepo_Save g r)) other = installations_of g other"
proof -
  have "filter (\<lambda>i. ins_OrganizationID i = other) (map (\<lambda>y. if ins_OrganizationID y = ins_OrganizationID r
      then y\<lparr>ins_InstallationID := k, ins_AccountLogin := l, ins_UpdatedAt := t\<rparr> else y) xs)
    = filter (\<lambda>i. ins_OrganizationID i = other) xs" for k l t and xs :: "installation list"
    using assms by (intro filter_upd) auto
  then show ?thesis using assms
    by (simp add: insrepo_Save_def installations_of_def Let_def split: option.split)
qed

lemma insrepo_Save_db: "gh_db (fst (insrepo_Save g r)) = gh_db g"
  by (simp add: insrepo_Save_def Let_def split: option.split)

lemma acts_for_install:
  assumes "trim_space org = org"
  shows "acts_for org seen g (fst (ghsvc_Install client env g org i))"
proof (cases "fst (ghsvc_Install client env g org i) = g")
  case False
  then obtain r where "ghsvc_Install client env g org i = insrepo_Save g r" "ins_OrganizationID r = org"
    using assms
    by (auto simp: ghsvc_Install_def NewInstallation_def configured_def Let_def rbind_Inr_iff
        split: sum.splits option.splits if_splits)
  then show ?thesis using insrepo_Save_keeps [of _ r g] by (auto simp: acts_for_def insrepo_Save_db)
qed simp

lemma acts_for_uninstall: "acts_for org seen g (fst (insrepo_Delete g org))"
  by (auto simp: insrepo_Delete_def acts_for_def installations_of_def intro: filter_cong)

lemma work_handler_acts:
  "trim_space (pr_OrganizationID p) = pr_OrganizationID p \<Longrightarrow>
   acts_for (pr_OrganizationID p) seen g (fst (work_handler route env p seen g req))"
  by (cases route)
     (auto simp: api_listDeployments_def api_getDeployment_def api_retryDeployment_def api_listBuilds_def
        api_getBuild_def api_listExecutions_def api_createExecution_def api_getExecution_def api_rerunExecution_def
        api_listProjects_def api_createProject_def api_getProject_def api_updateProject_def api_deleteProject_def
        api_listApps_def api_createApp_def api_getApp_def api_updateApp_def api_activateBuild_def api_deleteApp_def
        api_getInstallation_def api_recordInstallation_def api_deleteInstallation_def api_listRepositories_def
        api_listBranches_def api_connectRepository_def api_deployRef_def deleted_def Let_def split_beta
        split: option.split sum.split
        intro!: acts_for_page acts_for_body acts_for_writing acts_for_step org_step_calls acts_for_install acts_for_uninstall)

section \<open>What a handler shows\<close>

text \<open>A payload that shows only what belongs to an organization.\<close>

definition dep_within :: "pdb \<Rightarrow> string \<Rightarrow> deployment_response \<Rightarrow> bool" where
  "dep_within d org r \<longleftrightarrow>
     owner d (dy_AppID r) = Some org \<and> (\<forall>b. dy_Build r = Some b \<longrightarrow> owner d (bd_AppID b) = Some org)"

fun within :: "gdb \<Rightarrow> string \<Rightarrow> work_payload \<Rightarrow> bool" where
  "within g org (ProjectList rs) \<longleftrightarrow> (\<forall>r \<in> set rs. project_view (pd_projects (gh_db g)) (pj_ID r) = Some org)"
| "within g org (OneProject r) \<longleftrightarrow> project_view (pd_projects (gh_db g)) (pj_ID r) = Some org"
| "within g org (AppList rs) \<longleftrightarrow> (\<forall>r \<in> set rs. owner (gh_db g) (ap_ID r) = Some org)"
| "within g org (OneApp r) \<longleftrightarrow> owner (gh_db g) (ap_ID r) = Some org"
| "within g org (BuildList rs) \<longleftrightarrow> (\<forall>r \<in> set rs. owner (gh_db g) (bd_AppID r) = Some org)"
| "within g org (OneBuild r) \<longleftrightarrow> owner (gh_db g) (bd_AppID r) = Some org"
| "within g org (DeploymentList rs) \<longleftrightarrow> (\<forall>r \<in> set rs. dep_within (gh_db g) org r)"
| "within g org (OneDeployment r) \<longleftrightarrow> dep_within (gh_db g) org r"
| "within g org (ExecutionList rs) \<longleftrightarrow> (\<forall>r \<in> set rs. owner (gh_db g) (exe_AppID r) = Some org)"
| "within g org (OneExecution r) \<longleftrightarrow> owner (gh_db g) (exe_AppID r) = Some org"
| "within g org (OneInstallation i) \<longleftrightarrow> i \<in> set (installations_of g org)"
| "within g org (RepositoryList rs) \<longleftrightarrow> installations_of g org \<noteq> []"
| "within g org (BranchList rs) \<longleftrightarrow> installations_of g org \<noteq> []"
| "within g org NoBody \<longleftrightarrow> True"

lemma build_owner: "views_ok d \<Longrightarrow> build_org (pd_db d) b = owner d (bld_AppID b)"
  by (simp add: build_org_def owner_def views_ok_def split: option.split)

lemma dep_row_owner: "views_ok d \<Longrightarrow> dep_row_org (pd_db d) x = owner d (dr_app_id x)"
  by (simp add: dep_row_org_def owner_def views_ok_def split: option.split)

lemma exec_row_owner: "views_ok d \<Longrightarrow> row_org (exec_tables d) x = owner d (xr_app_id x)"
  by (simp add: row_org_def owner_def views_ok_def exec_tables_def db.truncate_def split: option.split)

lemma project_shown:
  "keys_ok d \<Longrightarrow> p \<in> set (pd_projects d) \<Longrightarrow> project_view (pd_projects d) (prj_ID p) = Some (prj_OrganizationID p)"
  using find_key_distinct [of prj_ID "pd_projects d" p] by (simp add: project_view_def keys_ok_def)

lemma projrepo_GetByID_shown:
  "projrepo_GetByID d org i = Inr p \<Longrightarrow> keys_ok d \<Longrightarrow> project_view (pd_projects d) (prj_ID p) = Some org"
  using projrepo_GetByID_Inr [of d org i p] by simp

lemma apprepo_GetByID_shown: "apprepo_GetByID d org i = Inr a \<Longrightarrow> keys_ok d \<Longrightarrow> owner d (app_ID a) = Some org"
  using apprepo_GetByID_Inr [of d org i a] by simp

lemma projsvc_List_shown:
  assumes "projsvc_List pg d org n = Inr rs" and "keys_ok d" and "r \<in> set rs"
  shows "project_view (pd_projects d) (prj_ID r) = Some org"
proof -
  have "r \<in> set (pd_projects d)" "prj_OrganizationID r = org"
    using assms(1,3) set_order_by by (auto simp: projsvc_List_def projrepo_List_def split: if_splits dest!: in_set_takeD)
  then show ?thesis using project_shown [OF assms(2)] by blast
qed

lemma appsvc_List_shown:
  assumes "appsvc_List pg d org i name n = Inr rs" and "keys_ok d" and "r \<in> set rs"
  shows "owner d (app_ID r) = Some org"
proof -
  have "r \<in> set (pd_apps d)" "in_org d org r"
    using assms(1,3) set_order_by
    by (auto simp: appsvc_List_def apprepo_List_def split: if_splits sum.splits dest!: collect_apps_Inr in_set_takeD)
  then show ?thesis using in_org_owner [OF assms(2)] by blast
qed

lemma buildsvc_List_shown:
  assumes "buildsvc_List pg d org i j n = Inr rs" and "views_ok d" and "r \<in> set rs"
  shows "owner d (bld_AppID r) = Some org"
proof -
  have "build_org (pd_db d) r = Some org"
    using assms(1,3) set_order_by by (auto simp: buildsvc_List_def buildrepo_List_def dest!: in_set_takeD)
  then show ?thesis using build_owner [OF assms(2)] by simp
qed

lemma buildrepo_Get_shown:
  "buildrepo_Get (pd_db d) org i = Inr r \<Longrightarrow> views_ok d \<Longrightarrow> owner d (bld_AppID r) = Some org"
  using build_owner [of d r] by (auto simp: buildrepo_Get_def split: option.splits dest!: find_Some_mem)

text \<open>The build shown with a deployment is of the same app.\<close>

lemma getDeployment_shown:
  assumes "getDeployment (pd_db d) org i = Inr r" and "pdb_ok d"
  shows "dep_within d org (NewDeploymentResponse r)"
proof -
  have v: "views_ok d" and k: "distinct (map dr_id (dd_deployments (pd_db d)))"
    using assms(2) by (simp_all add: pdb_ok_def keys_ok_def ddb_ok_def)
  obtain x b where x: "find (dep_visible (pd_db d) org i) (dd_deployments (pd_db d)) = Some x" "org \<noteq> []"
    and r: "r = dep_record (pd_db d) x b"
    and b: "\<And>c. b = Some c \<Longrightarrow> c \<in> set (db_builds (pd_db d)) \<and> bld_DeploymentID c = dr_id x"
    using assms(1)
    by (auto simp: getDeployment_def loadDeployment_def buildrepo_ByDeployment_def
        split: if_splits option.splits sum.splits dest!: find_Some_mem)
  have row: "x \<in> set (dd_deployments (pd_db d))" "owner d (dr_app_id x) = Some org"
    using find_Some_mem [OF x(1)] x(2) dep_row_owner [OF v, of x] by (auto simp: dep_visible_def)
  have "bld_AppID c = dr_app_id x" if c: "b = Some c" for c
  proof -
    obtain y where y: "y \<in> set (dd_deployments (pd_db d))" "dr_id y = dr_id x" "dr_app_id y = bld_AppID c"
      using assms(2) b [OF c] by (auto simp: pdb_ok_def refs_ok_def)
    then show ?thesis using key_inj [OF k y(1) row(1)] by simp
  qed
  then show ?thesis using row(2) r
    by (auto simp: dep_within_def NewDeploymentResponse_def dep_record_def NewBuildResponse_def)
qed

lemma collect_deps_shown:
  "collect_deps (pd_db d) org is = Inr rs \<Longrightarrow> pdb_ok d \<Longrightarrow> r \<in> set rs \<Longrightarrow> dep_within d org (NewDeploymentResponse r)"
  by (induction "is" arbitrary: rs) (auto split: sum.splits dest: getDeployment_shown)

lemma depsvc_List_shown:
  "depsvc_List pg seen d org i j n = Inr rs \<Longrightarrow> pdb_ok d \<Longrightarrow> r \<in> set rs \<Longrightarrow> dep_within d org (NewDeploymentResponse r)"
  by (auto simp: depsvc_List_def deprepo_List_def dest: collect_deps_shown)

lemma collect_rows_shown: "collect_rows d xs = Inr rs \<Longrightarrow> r \<in> set rs \<Longrightarrow> \<exists>x \<in> set xs. exe_AppID r = xr_app_id x"
  by (induction xs arbitrary: rs) (auto simp: scanExecution_def row_record_def split: sum.splits option.splits)

lemma exesvc_List_shown:
  assumes "exesvc_List pg d org i j k n = Inr rs" and "views_ok d" and "r \<in> set rs"
  shows "owner d (exe_AppID r) = Some org"
proof -
  obtain xs where "collect_rows (exec_tables d) xs = Inr rs" "\<forall>x \<in> set xs. row_org (exec_tables d) x = Some org"
    using assms(1) set_order_by by (fastforce simp: exesvc_List_def execrepo_List_def order_rows_def dest: in_set_takeD)
  then show ?thesis using collect_rows_shown [of "exec_tables d" xs rs r] assms(3) exec_row_owner [OF assms(2)] by auto
qed

lemma exesvc_Get_shown: "exesvc_Get d org i = Inr r \<Longrightarrow> views_ok d \<Longrightarrow> owner d (exe_AppID r) = Some org"
  using exesvc_Get_Inr [of d org i r] by auto

lemma ByOrganization_shown: "ByOrganization g org = Inr i \<Longrightarrow> i \<in> set (installations_of g org)"
  by (auto simp: ByOrganization_def installations_of_def split: if_splits option.splits dest!: find_Some_mem)

lemma with_page_Inr:
  "with_page env req g k = (g', Inr y) \<Longrightarrow> \<exists>n. pageLimit (we_http env) req = Inr n \<and> k n = (g', Inr y)"
  by (auto simp: with_page_def split: sum.splits)

lemma reading_Inr: "reading g (replied s f r) = (g', Inr (t, y)) \<longleftrightarrow> g' = g \<and> t = s \<and> (\<exists>x. r = Inr x \<and> y = f x)"
  by (auto simp: reading_def replied_def split: sum.splits)

lemma ghsvc_installed:
  "ghsvc_Repositories client repos g org = Inr rs \<Longrightarrow> installations_of g org \<noteq> []"
  "ghsvc_Branches client branches g org name = Inr ns \<Longrightarrow> installations_of g org \<noteq> []"
  by (auto simp: ghsvc_Repositories_def ghsvc_Branches_def configured_def rbind_Inr_iff
      split: option.splits dest!: ByOrganization_shown)

text \<open>The routes whose gate is a read scope only read, and show what is the organization's.\<close>

lemma read_handler_keeps:
  "work_gate route = Scope (resource @ '':read'') \<Longrightarrow> fst (work_handler route env p seen g req) = g"
  by (cases route)
     (simp_all add: api_listDeployments_def api_getDeployment_def api_listBuilds_def api_getBuild_def
       api_listExecutions_def api_getExecution_def api_listProjects_def api_getProject_def api_listApps_def api_getApp_def
       api_getInstallation_def api_listRepositories_def api_listBranches_def with_page_def reading_def Let_def
       Cons_eq_append_conv append_eq_Cons_conv split: sum.split)

lemma read_handler_shows:
  assumes "work_handler route env p seen g req = (g', Inr (s, y))" and "work_gate route = Scope (resource @ '':read'')"
    and ok: "pdb_ok (gh_db g)"
  shows "within g (pr_OrganizationID p) y"
proof -
  have v: "views_ok (gh_db g)" "keys_ok (gh_db g)" using ok by (simp_all add: pdb_ok_def)
  note lists = projsvc_List_shown [OF _ v(2)] appsvc_List_shown [OF _ v(2)] buildsvc_List_shown [OF _ v(1)]
    depsvc_List_shown [OF _ ok] exesvc_List_shown [OF _ v(1)]
  note ones = projrepo_GetByID_shown [OF _ v(2)] apprepo_GetByID_shown [OF _ v(2)] buildrepo_Get_shown [OF _ v(1)]
    getDeployment_shown [OF _ ok] exesvc_Get_shown [OF _ v(1)] ByOrganization_shown ghsvc_installed
  note defs = api_listDeployments_def api_getDeployment_def api_listBuilds_def api_getBuild_def api_listExecutions_def
    api_getExecution_def api_listProjects_def api_getProject_def api_listApps_def api_getApp_def api_getInstallation_def
    api_listRepositories_def api_listBranches_def
  show ?thesis
    using assms(1,2)
    by (cases route)
       (auto simp: defs Let_def reading_Inr NewProjectResponse_def NewAppResponse_def NewBuildResponse_def
          Cons_eq_append_conv append_eq_Cons_conv split: if_splits dest!: with_page_Inr dest: ghsvc_installed intro: ones,
        (erule (1) lists)+)
qed

lemma gate_kinds: "\<exists>resource. work_gate route = Scope (resource @ '':read'') \<or> work_gate route = Scope (resource @ '':write'')"
proof -
  have "\<exists>r k. work_gate route = Scope (r @ k) \<and> (k = '':read'' \<or> k = '':write'')"
    by (cases route) (simp_all, (rule exI [of _ "''deployments''"] exI [of _ "''builds''"] exI [of _ "''executions''"] exI [of _ "''projects''"] exI [of _ "''apps''"], simp)+)
  then show ?thesis by blast
qed

section \<open>Error answers\<close>

text \<open>
  A name the domain refuses is the client's mistake, but \<open>writeError\<close> has no row for the
  refusal, so it is answered like a failure of the server.
\<close>

lemma writeError_project_invalid: "writeError (wrapf Project_ErrInvalid m) = (500, ''internal_error'')"
  by (simp add: writeError_def writeOrganizationError_def writeGitHubError_def writeBrowserError_def
      writeBrowserSessionError_def writeBrowserDriverError_def domain_problems_def lookup_problem_def
      wrapf_def map_filter_simps)

lemma blank_name_internal_error:
  assumes "HasScope p ''projects:write''" and "bindJSON (we_http env) (we_CreateProject env) req = Inr name"
    and "trim_space name = []" and "we_newID env = Inr i"
  shows "serve_work env (Inr p) seen g CreateProject req = (g, Inl (500, ''internal_error''))"
  using assms
  by (simp add: serve_work_def admits_def api_createProject_def with_body_def writing_def projsvc_Create_def
      project_New_def NormalizeName_def replied_def writeError_project_invalid)

section \<open>A request\<close>

definition sample_http :: http_lib where
  "sample_http =
     \<lparr>ht_cfg = \<lparr>cl_quote = (\<lambda>s. s), cl_url = (\<lambda>s. Inr (s, [])), cl_duration = (\<lambda>s. Inr 0), cl_base64 = Inr\<rparr>,
      ht_media = Inr, ht_maximumBodyBytes = 64\<rparr>"

definition sample_work_env :: work_env where
  "sample_work_env =
     \<lparr>we_http = sample_http, we_CreateProject = (\<lambda>s. if s = ''x'' then Value ''beta'' [] else Refused),
      we_UpdateProject = (\<lambda>s. Refused), we_CreateApp = (\<lambda>s. Refused), we_UpdateApp = (\<lambda>s. Refused),
      we_ActivateBuild = (\<lambda>s. Refused), we_CreateExecution = (\<lambda>s. Refused), we_Install = (\<lambda>s. Refused),
      we_Connect = (\<lambda>s. Refused), we_DeployRef = (\<lambda>s. Refused), we_pg = any_pg, we_aq = sample_aq,
      we_client = None, we_gh = sample_ghenv, we_repos = (\<lambda>i n. Inr ([], 0)), we_branches = (\<lambda>i r n. Inr ([], 0)),
      we_compact = (\<lambda>s. s), we_maxInputBytes = 64, we_newID = Inr ''prj_2'', we_now = 90000\<rparr>"

definition sample_caller :: "string \<Rightarrow> principal" where
  "sample_caller org =
     \<lparr>pr_Kind = KindAPIKey, pr_KeyID = ''key_1'', pr_UserID = [], pr_Email = [], pr_OrganizationID = org,
      pr_Scopes = [''projects:read'', ''projects:write'']\<rparr>"

definition sample_http_request :: http_request where
  "sample_http_request =
     \<lparr>rq_ContentType = ''application/json'', rq_Body = Some ''x'', rq_ContentLength = 1, rq_Query = (\<lambda>k. []), rq_Param = ''prj_1''\<rparr>"

lemma sample_scopes:
  "HasScope (sample_caller org) ''projects:write''" "HasScope (sample_caller org) ''projects:read''"
  "pr_OrganizationID (sample_caller org) = org"
  by (simp_all add: HasScope_def sample_caller_def ScopeAll_def)

lemma sample_served:
  "\<exists>g r. serve_work sample_work_env (Inr (sample_caller ''org_2'')) sample_gdb sample_gdb CreateProject sample_http_request
     = (g, Inr (201, r)) \<and> length (pd_projects (gh_db g)) = 2"
proof -
  obtain d r where "projsvc_Create sample_pdb (Inr ''prj_2'') 90000 ''org_2'' ''beta'' = (d, Inr r)" "length (pd_projects d) = 2"
    using sample_created by blast
  moreover have "bindJSON sample_http (\<lambda>s. if s = ''x'' then Value ''beta'' [] else Refused) sample_http_request = Inr ''beta''"
    by code_simp
  ultimately show ?thesis using sample_scopes
    by (simp add: serve_work_def admits_def api_createProject_def with_body_def writing_def replied_def sample_work_env_def)
qed

lemma sample_project_read: "projrepo_GetByID sample_pdb ''org_1'' ''prj_1'' = Inr sample_project"
proof -
  have "project_Validate sample_project = None" "project_ValidateIdentifier ''project_id'' ''prj_1'' = None" "texts [''org_1'']"
    by code_simp+
  then show ?thesis by (simp add: projrepo_GetByID_def) (simp add: sample_project_def)
qed

section \<open>Properties\<close>

text \<open>
  C3: a request acts for its own organization only. Whatever route a request takes and whatever
  its body says, the tables keep their invariant; and when it changed anything, its principal
  holds the write scope of the route, and the rows and the GitHub installation of every other
  organization are what they were.
\<close>

theorem requests_isolated:
  assumes "serve_work env who seen g route req = (g', r)" and "pdb_ok (gh_db g)" and "pdb_ok (gh_db seen)"
    and "same_ids (gh_db seen) (gh_db g)" and "\<And>p. who = Inr p \<Longrightarrow> trim_space (pr_OrganizationID p) = pr_OrganizationID p"
  shows "pdb_ok (gh_db g') \<and> (g' \<noteq> g \<longrightarrow>
    (\<exists>p resource. who = Inr p \<and> work_gate route = Scope (resource @ '':write'') \<and> HasScope p (resource @ '':write'')
       \<and> (\<forall>other. other \<noteq> pr_OrganizationID p \<longrightarrow>
            org_rows (gh_db g') other = org_rows (gh_db g) other \<and> installations_of g' other = installations_of g other)))"
proof (cases "g' = g")
  case False
  then obtain p where p: "who = Inr p" "admits (work_gate route) p = None" and run: "work_handler route env p seen g req = (g', r)"
    using assms(1) by (auto simp: serve_work_def split: sum.splits option.splits)
  obtain resource where gate: "work_gate route = Scope (resource @ '':write'')"
    using gate_kinds [of route] read_handler_keeps [of route _ env p seen g req] run False by auto
  have acts: "acts_for (pr_OrganizationID p) seen g g'"
    using work_handler_acts [of p seen g route env req] assms(5) [OF p(1)] run by simp
  then have "pdb_ok (gh_db g') \<and> untouched (pr_OrganizationID p) (gh_db g) (gh_db g')"
    using org_step_isolated [OF _ assms(2,3,4), of "pr_OrganizationID p"] assms(2,5) p(1) by (auto simp: acts_for_def)
  then show ?thesis using acts p gate by (auto simp: untouched_def acts_for_def admits_def split: if_splits)
qed (use assms in simp)

theorem requests_isolated_witness:
  "\<exists>g r. serve_work sample_work_env (Inr (sample_caller ''org_2'')) sample_gdb sample_gdb CreateProject sample_http_request
     = (g, Inr (201, r)) \<and> length (pd_projects (gh_db g)) = 2
     \<and> org_rows (gh_db g) ''org_1'' = org_rows sample_pdb ''org_1''"
proof -
  obtain g r where g: "serve_work sample_work_env (Inr (sample_caller ''org_2'')) sample_gdb sample_gdb CreateProject
      sample_http_request = (g, Inr (201, r))" "length (pd_projects (gh_db g)) = 2"
    using sample_served by blast
  have "trim_space ''org_2'' = ''org_2''" by code_simp
  then have "g = sample_gdb \<or> org_rows (gh_db g) ''org_1'' = org_rows sample_pdb ''org_1''"
    using requests_isolated [OF g(1)] sample_pdb_ok same_ids_refl [OF sample_pdb_ok] sample_scopes by force
  then show ?thesis using g by auto
qed



end
