(* ===== verification/ProfileApi.thy ===== *)
theory ProfileApi
  imports Http Profiles Archive
begin

text \<open>
  The profile endpoints: internal/api/browserprofiles.go with the responses of
  internal/dto/browserprofile.go. A profile's cookie values, the contents of its storage and the
  address of its proxy are secrets; what the endpoints behind the read scope answer does not
  depend on them.
\<close>

section \<open>Responses\<close>

record cookie_response =
  kr_Name :: string
  kr_Domain :: string
  kr_Path :: string
  kr_Expires :: "f64 option"
  kr_Secure :: bool
  kr_HTTPOnly :: bool
  kr_SameSite :: string
  kr_ValueSize :: nat

text \<open>\<open>IdentityResponse\<close>: the identity without its proxy, and whether it has one.\<close>

record identity_response =
  ir_Identity :: identity
  ir_ProxySet :: bool

record profile_response =
  br_ID :: string
  br_Name :: string
  br_Browser :: string
  br_Identity :: identity_response
  br_Cookies :: "cookie_response list"
  br_StorageOrigins :: "string list"
  br_CreatedAt :: time
  br_UpdatedAt :: time

definition NewCookieResponse :: "cookie \<Rightarrow> cookie_response" where
  "NewCookieResponse c =
     \<lparr>kr_Name = ck_Name c, kr_Domain = ck_Domain c, kr_Path = ck_Path c, kr_Expires = ck_Expires c,
      kr_Secure = ck_Secure c, kr_HTTPOnly = ck_HTTPOnly c, kr_SameSite = ck_SameSite c,
      kr_ValueSize = length (ck_Value c)\<rparr>"

text \<open>The origins of both storages, each once, in the order of \<open>slices.Sort\<close>.\<close>

definition storageOrigins :: "profile \<Rightarrow> string list" where
  "storageOrigins r =
     order_by (\<lambda>x y. \<not> str_less y x)
       (remdups (map fst (listed (bp_LocalStorage r)) @ map fst (listed (bp_SessionStorage r))))"

definition NewBrowserProfileResponse :: "profile \<Rightarrow> profile_response" where
  "NewBrowserProfileResponse r =
     \<lparr>br_ID = bp_ID r, br_Name = bp_Name r, br_Browser = id_Browser (bp_Identity r),
      br_Identity = \<lparr>ir_Identity = (bp_Identity r)\<lparr>id_Proxy := []\<rparr>, ir_ProxySet = (id_Proxy (bp_Identity r) \<noteq> [])\<rparr>,
      br_Cookies = map NewCookieResponse (listed (bp_Cookies r)), br_StorageOrigins = storageOrigins r,
      br_CreatedAt = bp_CreatedAt r, br_UpdatedAt = bp_UpdatedAt r\<rparr>"

record profile_state_response =
  ps_Cookies :: "cookie list option"
  ps_LocalStorage :: "storage option"
  ps_SessionStorage :: "storage option"

definition NewBrowserProfileStateResponse :: "profile \<Rightarrow> profile_state_response" where
  "NewBrowserProfileStateResponse r =
     \<lparr>ps_Cookies = bp_Cookies r, ps_LocalStorage = bp_LocalStorage r, ps_SessionStorage = bp_SessionStorage r\<rparr>"

datatype profile_payload =
  ProfileList "profile_response list" | OneProfile profile_response | ProfileState profile_state_response
| Catalog catalog | NoProfile

section \<open>Handlers\<close>

record create_profile_request =
  pc_Name :: string
  pc_Identity :: "identity option"

record update_profile_request =
  pu_Name :: "string option"
  pu_Identity :: "identity option"

text \<open>
  \<open>pv_configured\<close> says that the server was given a browser service; \<open>pv_catalog\<close> is the
  catalogue embedded in the program. The statements of one request run one after the other.
\<close>

record profile_env =
  pv_http :: http_lib
  pv_configured :: bool
  pv_Create :: "string \<Rightarrow> create_profile_request scanned"
  pv_Update :: "string \<Rightarrow> update_profile_request scanned"
  pv_SaveState :: "string \<Rightarrow> profile_state_response scanned"
  pv_catalog :: catalog
  pv_pg :: pgsql
  pv_newID :: "string result"
  pv_now :: time

type_synonym profile_handled = "bdb \<times> profile_payload reply"

definition browsersConfigured :: "profile_env \<Rightarrow> bdb \<Rightarrow> profile_handled \<Rightarrow> profile_handled" where
  "browsersConfigured env d k =
     (if pv_configured env then k else (d, Inl (503, ''browser_profiles_unavailable'')))"

definition profile_page :: "profile_env \<Rightarrow> http_request \<Rightarrow> bdb \<Rightarrow> (int \<Rightarrow> profile_handled) \<Rightarrow> profile_handled" where
  "profile_page env req d k = (case pageLimit (pv_http env) req of Inl q \<Rightarrow> (d, Inl q) | Inr limit \<Rightarrow> k limit)"

definition profile_body ::
  "profile_env \<Rightarrow> (string \<Rightarrow> 'a scanned) \<Rightarrow> http_request \<Rightarrow> bdb \<Rightarrow> ('a \<Rightarrow> profile_handled) \<Rightarrow> profile_handled"
where
  "profile_body env decode req d k =
     (case bindJSON (pv_http env) decode req of Inl q \<Rightarrow> (d, Inl q) | Inr body \<Rightarrow> k body)"

definition api_listBrowserProfiles :: "profile_env \<Rightarrow> principal \<Rightarrow> bdb \<Rightarrow> http_request \<Rightarrow> profile_handled" where
  "api_listBrowserProfiles env p d req =
     browsersConfigured env d
       (profile_page env req d (\<lambda>limit.
          (d, replied 200 (\<lambda>rs. ProfileList (map NewBrowserProfileResponse rs))
                (bprepo_List (pv_pg env) d (pr_OrganizationID p) limit))))"

definition api_identityCatalog :: "profile_env \<Rightarrow> principal \<Rightarrow> bdb \<Rightarrow> http_request \<Rightarrow> profile_handled" where
  "api_identityCatalog env p d req = (d, Inr (200, Catalog (pv_catalog env)))"

definition api_createBrowserProfile :: "profile_env \<Rightarrow> principal \<Rightarrow> bdb \<Rightarrow> http_request \<Rightarrow> profile_handled" where
  "api_createBrowserProfile env p d req =
     browsersConfigured env d
       (profile_body env (pv_Create env) req d (\<lambda>body.
          case bpsvc_Create (pv_catalog env) d (pv_newID env) (pv_now env) (pr_OrganizationID p) (trim_space (pc_Name body))
                 (pc_Identity body) of
            (d', r) \<Rightarrow> (d', replied 201 (OneProfile \<circ> NewBrowserProfileResponse) r)))"

definition api_getBrowserProfile :: "profile_env \<Rightarrow> principal \<Rightarrow> bdb \<Rightarrow> http_request \<Rightarrow> profile_handled" where
  "api_getBrowserProfile env p d req =
     browsersConfigured env d
       (d, replied 200 (OneProfile \<circ> NewBrowserProfileResponse) (bprepo_GetByID d (pr_OrganizationID p) (rq_Param req)))"

text \<open>
  \<open>updateBrowserProfile\<close>: the profile must exist; a name and an identity are stored by one
  statement each, and the answer is the record of the last one.
\<close>

definition apply_identity :: "profile_env \<Rightarrow> string \<Rightarrow> string \<Rightarrow> identity option \<Rightarrow> profile \<Rightarrow> bdb \<Rightarrow> bdb \<times> profile result" where
  "apply_identity env organizationID profileID chosen r d =
     (case chosen of
        None \<Rightarrow> (d, Inr r)
      | Some who \<Rightarrow> bpsvc_SetIdentity d d (pv_now env) organizationID profileID who)"

definition apply_update :: "profile_env \<Rightarrow> string \<Rightarrow> string \<Rightarrow> update_profile_request \<Rightarrow> bdb \<Rightarrow> bdb \<times> profile result" where
  "apply_update env organizationID profileID body d =
     (case bprepo_GetByID d organizationID profileID of
        Inl e \<Rightarrow> (d, Inl e)
      | Inr r \<Rightarrow>
          (case pu_Name body of
             None \<Rightarrow> apply_identity env organizationID profileID (pu_Identity body) r d
           | Some name \<Rightarrow>
               (case bpsvc_Rename d d (pv_now env) organizationID profileID name of
                  (d1, Inl e) \<Rightarrow> (d1, Inl e)
                | (d1, Inr r1) \<Rightarrow> apply_identity env organizationID profileID (pu_Identity body) r1 d1)))"

definition api_updateBrowserProfile :: "profile_env \<Rightarrow> principal \<Rightarrow> bdb \<Rightarrow> http_request \<Rightarrow> profile_handled" where
  "api_updateBrowserProfile env p d req =
     browsersConfigured env d
       (profile_body env (pv_Update env) req d (\<lambda>body.
          case apply_update env (pr_OrganizationID p) (rq_Param req) body d of
            (d', r) \<Rightarrow> (d', replied 200 (OneProfile \<circ> NewBrowserProfileResponse) r)))"

definition api_deleteBrowserProfile :: "profile_env \<Rightarrow> principal \<Rightarrow> bdb \<Rightarrow> http_request \<Rightarrow> profile_handled" where
  "api_deleteBrowserProfile env p d req =
     browsersConfigured env d
       (case bprepo_Delete d (pr_OrganizationID p) (rq_Param req) of
          (d', Some e) \<Rightarrow> (d', Inl (writeError e)) | (d', None) \<Rightarrow> (d', Inr (204, NoProfile)))"

definition api_getBrowserProfileState :: "profile_env \<Rightarrow> principal \<Rightarrow> bdb \<Rightarrow> http_request \<Rightarrow> profile_handled" where
  "api_getBrowserProfileState env p d req =
     browsersConfigured env d
       (d, replied 200 (ProfileState \<circ> NewBrowserProfileStateResponse)
             (bprepo_GetByID d (pr_OrganizationID p) (rq_Param req)))"

definition api_saveBrowserProfileState :: "profile_env \<Rightarrow> principal \<Rightarrow> bdb \<Rightarrow> http_request \<Rightarrow> profile_handled" where
  "api_saveBrowserProfileState env p d req =
     browsersConfigured env d
       (profile_body env (pv_SaveState env) req d (\<lambda>body.
          case bpsvc_SaveState d d (pv_now env) (pr_OrganizationID p) (rq_Param req) (ps_Cookies body)
                 (ps_LocalStorage body) (ps_SessionStorage body) of
            (d', r) \<Rightarrow> (d', replied 200 (OneProfile \<circ> NewBrowserProfileResponse) r)))"

section \<open>Routes\<close>

datatype profile_route =
  GetCatalog | ListProfiles | CreateProfile | GetProfile | UpdateProfile | DeleteProfile | GetState | SaveState

fun profile_scope :: "profile_route \<Rightarrow> string" where
  "profile_scope GetCatalog = ''browser_profiles:read''"
| "profile_scope ListProfiles = ''browser_profiles:read''"
| "profile_scope CreateProfile = ''browser_profiles:write''"
| "profile_scope GetProfile = ''browser_profiles:read''"
| "profile_scope UpdateProfile = ''browser_profiles:write''"
| "profile_scope DeleteProfile = ''browser_profiles:write''"
| "profile_scope GetState = ''browser_profiles:write''"
| "profile_scope SaveState = ''browser_profiles:write''"

fun profile_handler :: "profile_route \<Rightarrow> profile_env \<Rightarrow> principal \<Rightarrow> bdb \<Rightarrow> http_request \<Rightarrow> profile_handled" where
  "profile_handler GetCatalog = api_identityCatalog"
| "profile_handler ListProfiles = api_listBrowserProfiles"
| "profile_handler CreateProfile = api_createBrowserProfile"
| "profile_handler GetProfile = api_getBrowserProfile"
| "profile_handler UpdateProfile = api_updateBrowserProfile"
| "profile_handler DeleteProfile = api_deleteBrowserProfile"
| "profile_handler GetState = api_getBrowserProfileState"
| "profile_handler SaveState = api_saveBrowserProfileState"

definition serve_profiles ::
  "profile_env \<Rightarrow> problem + principal \<Rightarrow> bdb \<Rightarrow> profile_route \<Rightarrow> http_request \<Rightarrow> profile_handled"
where
  "serve_profiles env who d route req =
     (case who of
        Inl q \<Rightarrow> (d, Inl q)
      | Inr p \<Rightarrow>
          (case admits (Scope (profile_scope route)) p of
             Some q \<Rightarrow> (d, Inl q) | None \<Rightarrow> profile_handler route env p d req))"

section \<open>Secrets\<close>

text \<open>
  A profile with its secrets blanked: the proxy is there or not, a cookie's value has its
  length, a storage has its origins.
\<close>

definition blank_cookie :: "cookie \<Rightarrow> cookie" where
  "blank_cookie c = c\<lparr>ck_Value := replicate (length (ck_Value c)) (CHR ''*'')\<rparr>"

definition blank_storage :: "storage option \<Rightarrow> storage option" where
  "blank_storage st = Some (map (\<lambda>x. (fst x, [])) (listed st))"

definition without_secrets :: "profile \<Rightarrow> profile" where
  "without_secrets r =
     r\<lparr>bp_Identity := (bp_Identity r)\<lparr>id_Proxy := (if id_Proxy (bp_Identity r) = [] then [] else ''*'')\<rparr>,
       bp_Cookies := Some (map blank_cookie (listed (bp_Cookies r))),
       bp_LocalStorage := blank_storage (bp_LocalStorage r), bp_SessionStorage := blank_storage (bp_SessionStorage r)\<rparr>"

lemma response_blank: "NewBrowserProfileResponse (without_secrets r) = NewBrowserProfileResponse r"
  by (simp add: NewBrowserProfileResponse_def without_secrets_def storageOrigins_def blank_storage_def
      NewCookieResponse_def blank_cookie_def o_def)

lemma validate_blank: "profile_Validate (without_secrets r) = profile_Validate r"
  by (simp add: profile_Validate_def without_secrets_def identity_Validate_def blank_storage_def blank_cookie_def
      list_ex_iff)

lemma without_secrets_simps [simp]:
  "bp_ID (without_secrets r) = bp_ID r" "bp_OrganizationID (without_secrets r) = bp_OrganizationID r"
  "bp_CreatedAt (without_secrets r) = bp_CreatedAt r"
  by (simp_all add: without_secrets_def)

lemma insert_by_map:
  "(\<And>x y. le (f x) (f y) = le x y) \<Longrightarrow> insert_by le (f x) (map f xs) = map f (insert_by le x xs)"
  by (induction xs) auto

lemma order_by_map: "(\<And>x y. le (f x) (f y) = le x y) \<Longrightarrow> order_by le (map f xs) = map f (order_by le xs)"
  by (induction xs) (simp_all add: order_by_def insert_by_map)

lemma scan_blank: "scanBrowserProfile (without_secrets r) = map_sum id without_secrets (scanBrowserProfile r)"
  by (simp add: scanBrowserProfile_def validate_blank check_def split: option.split)

lemma collect_blank: "collect_profiles (map without_secrets ps) = map_sum id (map without_secrets) (collect_profiles ps)"
  by (induction ps) (auto simp: scan_blank rbind_def split: sum.split)

lemma find_blank:
  "find (\<lambda>p. bp_ID p = i \<and> bp_OrganizationID p = org) (map without_secrets ps)
     = map_option without_secrets (find (\<lambda>p. bp_ID p = i \<and> bp_OrganizationID p = org) ps)"
  by (induction ps) auto

definition hide :: "bdb \<Rightarrow> bdb" where
  "hide d = d\<lparr>bd_profiles := map without_secrets (bd_profiles d)\<rparr>"

lemma GetByID_hide: "bprepo_GetByID (hide d) org i = map_sum id without_secrets (bprepo_GetByID d org i)"
  by (simp add: bprepo_GetByID_def hide_def find_blank scan_blank check_def split: option.split sum.split)

lemma List_hide: "bprepo_List pg (hide d) org n = map_sum id (map without_secrets) (bprepo_List pg d org n)"
proof -
  have "order_by (older pg bp_CreatedAt bp_ID) (map without_secrets xs)
      = map without_secrets (order_by (older pg bp_CreatedAt bp_ID) xs)" for xs
    by (rule order_by_map) (simp add: older_def)
  then show ?thesis
    by (simp add: bprepo_List_def hide_def filter_map o_def rev_map take_map collect_blank split: sum.split)
qed

lemma replied_map_sum: "replied s f (map_sum id h r) = replied s (\<lambda>x. f (h x)) r"
  by (cases r) (simp_all add: replied_def)

text \<open>A route behind the read scope answers the same when the secrets are blanked.\<close>

lemma read_routes_hide:
  assumes "profile_scope route = ''browser_profiles:read''"
  shows "snd (profile_handler route env p (hide d) req) = snd (profile_handler route env p d req)"
    and "fst (profile_handler route env p d req) = d"
  using assms
  by (cases route; simp add: api_identityCatalog_def api_listBrowserProfiles_def api_getBrowserProfile_def
        browsersConfigured_def profile_page_def GetByID_hide List_hide replied_map_sum response_blank o_def
        split: sum.split)+

lemma reader_routes: "HasScope p (profile_scope route) \<Longrightarrow> \<not> HasScope p ''browser_profiles:write'' \<Longrightarrow>
    profile_scope route = ''browser_profiles:read''"
  by (cases route) simp_all

section \<open>A change in two statements\<close>

lemma identity_refused:
  "identity_Validate who = Some e \<Longrightarrow> \<exists>m. e = wrapf Browser_ErrInvalid m"
  by (auto simp: identity_Validate_def guard_def split: if_splits)

lemma writeError_browser_invalid: "writeError (wrapf Browser_ErrInvalid m) = invalidRequest"
  by (simp add: writeError_def writeOrganizationError_def writeGitHubError_def writeBrowserError_def
      writeBrowserSessionError_def writeBrowserDriverError_def domain_problems_def lookup_problem_def
      wrapf_def map_filter_simps)

lemma SetIdentity_refused:
  assumes "bprepo_GetByID d org i = Inr r" and "identity_Validate who = Some e"
  shows "bpsvc_SetIdentity d d now org i who = (d, Inl e)"
proof -
  have "profile_Validate r = None" using assms(1) by (simp add: bprepo_GetByID_Inr)
  then have "profile_Validate (r\<lparr>bp_Identity := who, bp_UpdatedAt := t\<rparr>) = Some e" for t
    using assms(2) by (simp add: profile_Validate_def)
  then show ?thesis using assms(1) by (simp add: bpsvc_SetIdentity_def bpsvc_change_def profile_SetIdentity_def)
qed

section \<open>A store with one profile\<close>

definition sample_profile_env :: profile_env where
  "sample_profile_env =
     \<lparr>pv_http = \<lparr>ht_cfg = \<lparr>cl_quote = (\<lambda>s. s), cl_url = (\<lambda>s. Inr (s, [])), cl_duration = (\<lambda>s. Inr 0), cl_base64 = Inr\<rparr>,
                  ht_media = Inr, ht_maximumBodyBytes = 64\<rparr>,
      pv_configured = True, pv_Create = (\<lambda>s. Refused),
      pv_Update = (\<lambda>s. Value \<lparr>pu_Name = Some ''home'', pu_Identity = Some (sample_identity\<lparr>id_Language := []\<rparr>)\<rparr> []),
      pv_SaveState = (\<lambda>s. Refused), pv_catalog = IdentityCatalog, pv_pg = any_pg, pv_newID = Inr ''bp_2'', pv_now = 9000\<rparr>"

definition sample_profile_request :: http_request where
  "sample_profile_request =
     \<lparr>rq_ContentType = [], rq_Body = Some ''x'', rq_ContentLength = 1, rq_Query = (\<lambda>k. []), rq_Param = ''bp_1''\<rparr>"

definition profile_caller :: "string \<Rightarrow> principal" where
  "profile_caller scope =
     \<lparr>pr_Kind = KindSession, pr_KeyID = [], pr_UserID = ''u1'', pr_Email = [], pr_OrganizationID = ''org_1'',
      pr_Scopes = [scope]\<rparr>"

definition sample_jar :: "string \<Rightarrow> bdb" where
  "sample_jar v = \<lparr>bd_orgs = [''org_1''], bd_profiles = [sample_with [sample_cookie\<lparr>ck_Value := v\<rparr>] 5000]\<rparr>"

lemma sample_jar_get:
  "bprepo_GetByID (sample_jar v) ''org_1'' ''bp_1'' = Inr (sample_with [sample_cookie\<lparr>ck_Value := v\<rparr>] 5000)"
  using sample_profile_ids
  by (simp add: bprepo_GetByID_Inr sample_jar_def)
     (simp add: sample_with_def sample_Validate sample_cookie_def)

section \<open>Properties\<close>

text \<open>
  C7: reading profiles gives no secret away. A principal that may read profiles but not write
  them gets the same answer from every profile endpoint whatever the cookie values, the
  storage contents and the proxy addresses are: two stores that agree once these are blanked
  answer alike, and neither is changed.
\<close>

theorem readers_learn_no_secret:
  assumes "\<not> HasScope p ''browser_profiles:write''" and "bd_orgs d = bd_orgs d'"
    and "map without_secrets (bd_profiles d) = map without_secrets (bd_profiles d')"
  shows "fst (serve_profiles env (Inr p) d route req) = d
    \<and> snd (serve_profiles env (Inr p) d route req) = snd (serve_profiles env (Inr p) d' route req)"
proof -
  have same: "hide d = hide d'" using assms(2,3) by (simp add: hide_def)
  show ?thesis
    using reader_routes [of p route] assms(1) read_routes_hide [of route env p d req]
      read_routes_hide(1) [of route env p d' req] same by (auto simp: serve_profiles_def admits_def)
qed

theorem readers_learn_no_secret_witness:
  "sample_jar ''a'' \<noteq> sample_jar ''b''
   \<and> serve_profiles sample_profile_env (Inr (profile_caller ''browser_profiles:read'')) (sample_jar ''a'') GetProfile sample_profile_request
       = (sample_jar ''a'', Inr (200, OneProfile (NewBrowserProfileResponse (sample_with [sample_cookie\<lparr>ck_Value := ''b''\<rparr>] 5000))))"
proof -
  have "\<not> HasScope (profile_caller ''browser_profiles:read'') ''browser_profiles:write''"
    by (simp add: HasScope_def profile_caller_def ScopeAll_def)
  moreover have "map without_secrets (bd_profiles (sample_jar ''a'')) = map without_secrets (bd_profiles (sample_jar ''b''))"
    "bd_orgs (sample_jar ''a'') = bd_orgs (sample_jar ''b'')"
    by (simp_all add: sample_jar_def without_secrets_def blank_cookie_def sample_with_def sample_profile_def sample_cookie_def)
  ultimately have same: "fst (serve_profiles sample_profile_env (Inr (profile_caller ''browser_profiles:read'')) (sample_jar ''a'') GetProfile
        sample_profile_request) = sample_jar ''a''
      \<and> snd (serve_profiles sample_profile_env (Inr (profile_caller ''browser_profiles:read'')) (sample_jar ''a'') GetProfile
        sample_profile_request)
      = snd (serve_profiles sample_profile_env (Inr (profile_caller ''browser_profiles:read'')) (sample_jar ''b'') GetProfile
        sample_profile_request)"
    by (intro readers_learn_no_secret)
  have "snd (serve_profiles sample_profile_env (Inr (profile_caller ''browser_profiles:read'')) (sample_jar ''b'') GetProfile
        sample_profile_request)
      = Inr (200, OneProfile (NewBrowserProfileResponse (sample_with [sample_cookie\<lparr>ck_Value := ''b''\<rparr>] 5000)))"
    using sample_jar_get [of "''b''"]
    by (simp add: serve_profiles_def admits_def api_getBrowserProfile_def browsersConfigured_def replied_def)
       (simp add: HasScope_def profile_caller_def sample_profile_env_def sample_profile_request_def)
  moreover have "sample_jar ''a'' \<noteq> sample_jar ''b''"
    by (simp add: sample_jar_def sample_with_def sample_profile_def sample_cookie_def)
  ultimately show ?thesis using same by (simp add: prod_eq_iff)
qed

text \<open>
  An update that is refused may have been applied in part. A PATCH with a new name and an
  identity that does not validate is answered with a client error, but the name has been stored:
  the handler writes the two in separate statements and checks the identity after the first.
\<close>

lemma refused_update_renames:
  assumes "HasScope p ''browser_profiles:write''" and "pv_configured env"
    and "bindJSON (pv_http env) (pv_Update env) req = Inr body"
    and "pu_Name body = Some name" and "pu_Identity body = Some who" and "identity_Validate who \<noteq> None"
    and "bdb_ok d" and "bpsvc_Rename d d (pv_now env) (pr_OrganizationID p) (rq_Param req) name = (d1, Inr r)"
  shows "serve_profiles env (Inr p) d UpdateProfile req = (d1, Inl invalidRequest)
    \<and> bprepo_GetByID d1 (pr_OrganizationID p) (rq_Param req) = Inr r \<and> profile_normalizeName name = Inr (bp_Name r)"
proof -
  obtain q0 q t where q: "bprepo_GetByID d (pr_OrganizationID p) (rq_Param req) = Inr q0"
    "profile_Rename q0 name (pv_now env) = (q, None)" "r = (stored_profile q)\<lparr>bp_CreatedAt := t\<rparr>"
    and again: "bprepo_GetByID d1 (pr_OrganizationID p) (rq_Param req) = Inr r"
    using assms(8) unfolding bpsvc_Rename_def
    by (rule bpsvc_change_Inr [OF _ assms(7)]) (auto simp: profile_Rename_def Let_def split: sum.splits)
  obtain e m where e: "identity_Validate who = Some e" "e = wrapf Browser_ErrInvalid m"
    using assms(6) identity_refused by blast
  have "profile_normalizeName name = Inr (bp_Name r)"
    using q(2,3) by (auto simp: profile_Rename_def stored_profile_def Let_def split: sum.splits)
  moreover have "serve_profiles env (Inr p) d UpdateProfile req = (d1, Inl invalidRequest)"
    using assms(1-5) q(1) assms(8) SetIdentity_refused [OF again e(1)] writeError_browser_invalid e(2)
    by (simp add: serve_profiles_def admits_def api_updateBrowserProfile_def browsersConfigured_def profile_body_def
        apply_update_def apply_identity_def replied_def)
  ultimately show ?thesis using again by simp
qed

end
