(* ===== verification/TenantApi.thy ===== *)
theory TenantApi
  imports Http Membership
begin

text \<open>
  The endpoints of tenancy: internal/api/organizations.go, session.go and accounts.go, with the
  responses of internal/dto/organization.go, session.go and account.go and their rows of the
  route table. The world is the tables and the session cache, a map from the digests of tokens.
  The statements of one request run one after the other; the random bytes, the identifiers, the
  clock and what a write to the cache answers are in the environment.
\<close>

section \<open>Responses\<close>

record member_response =
  mb_UserID :: string
  mb_Email :: string
  mb_Role :: role
  mb_Owner :: bool
  mb_CreatedAt :: time
  mb_UpdatedAt :: time

definition NewMemberResponse :: "member \<Rightarrow> member_response" where
  "NewMemberResponse m =
     \<lparr>mb_UserID = mem_UserID m, mb_Email = mem_Email m, mb_Role = mem_Role m, mb_Owner = mem_Owner m,
      mb_CreatedAt = mem_CreatedAt m, mb_UpdatedAt = mem_UpdatedAt m\<rparr>"

definition inviteStatus :: "time \<Rightarrow> invite \<Rightarrow> string" where
  "inviteStatus now v =
     (if inv_AcceptedAt v \<noteq> None then ''accepted''
      else if inv_RevokedAt v \<noteq> None then ''revoked''
      else if \<not> now < inv_ExpiresAt v then ''expired'' else ''pending'')"

record invite_response =
  vr_ID :: string
  vr_Email :: string
  vr_Role :: role
  vr_InvitedBy :: string
  vr_Status :: string
  vr_CreatedAt :: time
  vr_ExpiresAt :: time
  vr_AcceptedAt :: "time option"

definition NewInviteResponse :: "time \<Rightarrow> invite \<Rightarrow> invite_response" where
  "NewInviteResponse now v =
     \<lparr>vr_ID = inv_ID v, vr_Email = inv_Email v, vr_Role = inv_Role v, vr_InvitedBy = inv_InvitedBy v,
      vr_Status = inviteStatus now v, vr_CreatedAt = inv_CreatedAt v, vr_ExpiresAt = inv_ExpiresAt v,
      vr_AcceptedAt = inv_AcceptedAt v\<rparr>"

record session_response =
  sr_UserID :: string
  sr_Email :: string
  sr_OrganizationID :: string
  sr_Role :: role
  sr_Scopes :: "string list"
  sr_ExpiresAt :: time

definition NewSessionResponse :: "session \<Rightarrow> session_response" where
  "NewSessionResponse s =
     \<lparr>sr_UserID = ses_AccountID s, sr_Email = ses_Email s, sr_OrganizationID = ses_OrganizationID s,
      sr_Role = ses_Role s, sr_Scopes = role_Scopes (ses_Role s), sr_ExpiresAt = ses_ExpiresAt s\<rparr>"

text \<open>
  The responses of users, keys and organizations carry every field of the record, so the record
  stands for the response. \<open>Registered\<close> is the payload of sign-up, whose other parts appear
  when they exist.
\<close>

datatype tenant_payload =
  OrganizationList "organization list" | OneOrganization organization
| MemberList "member_response list" | OneMember member_response
| InviteList "invite_response list" | CreatedInvite invite_response string
| UserList "user list" | OneUser user | KeyList "key list" | OneKey key | CreatedKey key string
| InviteLookup organization string role
| OneSession session_response
| Registered user "member_response option" "organization option" "session_response option"
| NoTenant

section \<open>The world of a request\<close>

record register_request =
  rg_Email :: string
  rg_Password :: string
  rg_OrganizationName :: string
  rg_InviteToken :: string

record login_request =
  lq_Email :: string
  lq_Password :: string

record invite_request =
  vq_Email :: string
  vq_Role :: string

record user_update =
  uu_Email :: "string option"
  uu_Disabled :: "bool option"

record tenant_env =
  tv_http :: http_lib
  tv_lt :: letters
  tv_bc :: bcrypt
  tv_pg :: pgsql
  tv_Register :: "string \<Rightarrow> register_request scanned"
  tv_Login :: "string \<Rightarrow> login_request scanned"
  tv_Name :: "string \<Rightarrow> string scanned"
  tv_Role :: "string \<Rightarrow> string scanned"
  tv_Invite :: "string \<Rightarrow> invite_request scanned"
  tv_Accept :: "string \<Rightarrow> string scanned"
  tv_UpdateUser :: "string \<Rightarrow> user_update scanned"
  tv_CreateKey :: "string \<Rightarrow> key_request scanned"
  tv_newUserID :: "string result"
  tv_newID :: "string result"
  tv_random :: rand
  tv_secret :: rand
  tv_sessionRandom :: rand
  tv_sessionTTL :: int
  tv_now :: time
  tv_stored :: go_err

record tenant_world =
  tw_db :: tenants
  tw_sessions :: "string \<rightharpoonup> session"

text \<open>The cookie header of a response.\<close>

datatype cookie_change = KeepCookie | SetCookie string time | ClearCookie

type_synonym tenant_handled = "tenant_world \<times> cookie_change \<times> tenant_payload reply"

definition stay :: "tenant_world \<Rightarrow> tenant_payload reply \<Rightarrow> tenant_handled" where
  "stay w r = (w, KeepCookie, r)"

definition changing :: "tenant_world \<Rightarrow> nat \<Rightarrow> ('a \<Rightarrow> tenant_payload) \<Rightarrow> tenants \<times> 'a result \<Rightarrow> tenant_handled" where
  "changing w status f r = (w\<lparr>tw_db := fst r\<rparr>, KeepCookie, replied status f (snd r))"

definition removing :: "tenant_world \<Rightarrow> tenants \<times> go_err \<Rightarrow> tenant_handled" where
  "removing w r =
     (w\<lparr>tw_db := fst r\<rparr>, KeepCookie, case snd r of Some e \<Rightarrow> Inl (writeError e) | None \<Rightarrow> Inr (204, NoTenant))"

definition tenant_page :: "tenant_env \<Rightarrow> http_request \<Rightarrow> tenant_world \<Rightarrow> (int \<Rightarrow> tenant_handled) \<Rightarrow> tenant_handled" where
  "tenant_page env req w k = (case pageLimit (tv_http env) req of Inl q \<Rightarrow> stay w (Inl q) | Inr limit \<Rightarrow> k limit)"

definition tenant_body ::
  "tenant_env \<Rightarrow> (string \<Rightarrow> 'a scanned) \<Rightarrow> http_request \<Rightarrow> tenant_world \<Rightarrow> ('a \<Rightarrow> tenant_handled) \<Rightarrow> tenant_handled"
where
  "tenant_body env decode req w k =
     (case bindJSON (tv_http env) decode req of Inl q \<Rightarrow> stay w (Inl q) | Inr body \<Rightarrow> k body)"

text \<open>\<open>sessionToken\<close>, \<open>Logout\<close>, and a session that was issued: it is in the cache under its token.\<close>

definition sessionToken :: "string option \<Rightarrow> string" where
  "sessionToken cookie = (case cookie of None \<Rightarrow> [] | Some v \<Rightarrow> trim_space v)"

definition session_Logout :: "string \<Rightarrow> tenant_world \<Rightarrow> tenant_world" where
  "session_Logout token w = (if token = [] then w else w\<lparr>tw_sessions := (tw_sessions w)(sessionKey token := None)\<rparr>)"

definition cached :: "tenant_world \<Rightarrow> string \<Rightarrow> session result option result" where
  "cached w token = Inr (map_option Inr (tw_sessions w (sessionKey token)))"

text \<open>Looking a session up removes its entry when it has expired or its account or membership is gone.\<close>

definition pruned :: "tenant_env \<Rightarrow> string \<Rightarrow> tenant_world \<Rightarrow> tenant_world" where
  "pruned env token w =
     (if token \<noteq> [] \<and> snd (ByToken (tw_db w) (cached w token) (tv_now env)) then session_Logout token w else w)"

definition issued :: "session \<times> string \<Rightarrow> tenant_world \<Rightarrow> tenant_world" where
  "issued st w = w\<lparr>tw_sessions := (tw_sessions w)(sessionKey (snd st) \<mapsto> fst st)\<rparr>"

definition start_session :: "tenant_env \<Rightarrow> tenant_world \<Rightarrow> string \<Rightarrow> string \<Rightarrow> role \<Rightarrow> (session \<times> string) result" where
  "start_session env w userID organizationID r =
     StartSession (tw_db w) userID organizationID r (tv_sessionRandom env) (tv_sessionTTL env) (tv_now env)
       (tv_now env) (tv_now env) (tv_stored env)"

section \<open>Signing up, in and out\<close>

definition api_login :: "tenant_env \<Rightarrow> tenant_world \<Rightarrow> http_request \<Rightarrow> tenant_handled" where
  "api_login env w req =
     tenant_body env (tv_Login env) req w (\<lambda>body.
       let email = trim_space (lq_Email body) in
       if email = [] \<or> lq_Password body = [] then stay w (Inl invalidQuery)
       else case session_Login (tv_lt env) (tv_bc env) (tw_db w) email (lq_Password body) (tv_sessionRandom env)
                   (tv_sessionTTL env) (tv_now env) (tv_now env) (tv_now env) (tv_stored env) of
         Inl e \<Rightarrow>
           stay w (Inl (if errors_is e Service_ErrInvalidCredentials then (401, ''invalid_credentials'')
                        else (500, ''internal_error'')))
       | Inr (s, token) \<Rightarrow>
           (issued (s, token) w, SetCookie token (ses_ExpiresAt s), Inr (200, OneSession (NewSessionResponse s))))"

definition api_logout :: "tenant_world \<Rightarrow> string option \<Rightarrow> tenant_handled" where
  "api_logout w cookie = (session_Logout (sessionToken cookie) w, ClearCookie, Inr (204, NoTenant))"

definition api_currentSession :: "tenant_env \<Rightarrow> tenant_world \<Rightarrow> string option \<Rightarrow> tenant_handled" where
  "api_currentSession env w cookie =
     (let token = sessionToken cookie in
      case session_Session (tw_db w) token (cached w token) (tv_now env) of
        Inl e \<Rightarrow> (pruned env token w, if token = [] then KeepCookie else ClearCookie, Inl (401, ''unauthorized''))
      | Inr s \<Rightarrow> stay w (Inr (200, OneSession (NewSessionResponse s))))"

definition joinOrCreate ::
  "tenant_env \<Rightarrow> tenants \<Rightarrow> string \<Rightarrow> string \<Rightarrow> string \<Rightarrow> string \<Rightarrow> tenants \<times> member result"
where
  "joinOrCreate env d userID email organizationName inviteToken =
     (if inviteToken \<noteq> [] then orgsvc_Accept (tv_lt env) d d inviteToken userID email (tv_now env) (tv_now env)
      else case orgsvc_Create d d (tv_newID env) (tv_now env) userID organizationName of
        (d', Inl e) \<Rightarrow> (d', Inl e)
      | (d', Inr created) \<Rightarrow> (d', orgrepo_Member d' (org_ID created) userID))"

text \<open>
  \<open>register\<close>: the account stands even when joining or creating an organization fails, and the
  answer is 201 as soon as there is an account.
\<close>

definition register_join ::
  "tenant_env \<Rightarrow> tenants \<Rightarrow> string \<Rightarrow> string \<Rightarrow> string \<Rightarrow> string \<Rightarrow> tenants \<times> member option"
where
  "register_join env d userID email organizationName inviteToken =
     (if organizationName = [] \<and> inviteToken = [] then (d, None)
      else case joinOrCreate env d userID email organizationName inviteToken of
        (d', Inl e) \<Rightarrow> (d', None) | (d', Inr m) \<Rightarrow> (d', Some m))"

definition register_session :: "tenant_env \<Rightarrow> tenant_world \<Rightarrow> user \<Rightarrow> member option \<Rightarrow> tenant_handled" where
  "register_session env w u m =
     (let member = (case m of Some x \<Rightarrow> if mem_OrganizationID x = [] then None else Some x | None \<Rightarrow> None);
          found = (case member of None \<Rightarrow> None
                   | Some x \<Rightarrow> (case orgrepo_GetByID (tw_db w) (mem_OrganizationID x) of Inl e \<Rightarrow> None | Inr r \<Rightarrow> Some r));
          payload = Registered u (map_option NewMemberResponse member) found in
      case start_session env w (usr_ID u) (case m of None \<Rightarrow> [] | Some x \<Rightarrow> mem_OrganizationID x)
             (case m of None \<Rightarrow> [] | Some x \<Rightarrow> mem_Role x) of
        Inl e \<Rightarrow> (w, KeepCookie, Inr (201, payload None))
      | Inr (s, token) \<Rightarrow>
          (issued (s, token) w, SetCookie token (ses_ExpiresAt s), Inr (201, payload (Some (NewSessionResponse s)))))"

definition api_register :: "tenant_env \<Rightarrow> tenant_world \<Rightarrow> http_request \<Rightarrow> tenant_handled" where
  "api_register env w req =
     tenant_body env (tv_Register env) req w (\<lambda>body.
       let email = trim_space (rg_Email body);
           organizationName = trim_space (rg_OrganizationName body);
           inviteToken = trim_space (rg_InviteToken body) in
       if email = [] \<or> rg_Password body = [] then stay w (Inl invalidQuery)
       else if organizationName \<noteq> [] \<and> inviteToken \<noteq> [] then stay w (Inl invalidQuery)
       else case accsvc_CreateUser (tv_lt env) (tv_bc env) (tw_db w) (tv_newUserID env) (tv_now env) email (rg_Password body) of
         (d1, Inl e) \<Rightarrow> stay (w\<lparr>tw_db := d1\<rparr>) (Inl (writeError e))
       | (d1, Inr u) \<Rightarrow>
           (case register_join env d1 (usr_ID u) email organizationName inviteToken of
              (d2, m) \<Rightarrow> register_session env (w\<lparr>tw_db := d2\<rparr>) u m))"

definition api_lookupInvite :: "tenant_env \<Rightarrow> tenant_world \<Rightarrow> http_request \<Rightarrow> tenant_handled" where
  "api_lookupInvite env w req =
     (let token = trim_space (rq_Query req ''token'') in
      if token = [] then stay w (Inl invalidQuery)
      else case orgsvc_InviteByToken (tw_db w) token of
        Inl e \<Rightarrow> stay w (Inl (writeError e))
      | Inr v \<Rightarrow>
          (case Redeemable (tv_lt env) v (inv_Email v) (tv_now env) of
             Some e \<Rightarrow> stay w (Inl (writeError e))
           | None \<Rightarrow>
               stay w (replied 200 (\<lambda>r. InviteLookup r (inv_Email v) (inv_Role v))
                 (orgrepo_GetByID (tw_db w) (inv_OrganizationID v)))))"

section \<open>Organizations, members and invitations\<close>

text \<open>\<open>reissue\<close>: the old session ends, and a failure to start the new one is only logged.\<close>

definition reissue :: "tenant_env \<Rightarrow> string option \<Rightarrow> string \<Rightarrow> member \<Rightarrow> tenant_world \<Rightarrow> tenant_world \<times> cookie_change" where
  "reissue env cookie userID m w =
     (let w1 = session_Logout (sessionToken cookie) w in
      case start_session env w1 userID (mem_OrganizationID m) (mem_Role m) of
        Inl e \<Rightarrow> (w1, KeepCookie)
      | Inr (s, token) \<Rightarrow> (issued (s, token) w1, SetCookie token (ses_ExpiresAt s)))"

definition api_createOrganization ::
  "tenant_env \<Rightarrow> string option \<Rightarrow> principal \<Rightarrow> tenant_world \<Rightarrow> http_request \<Rightarrow> tenant_handled"
where
  "api_createOrganization env cookie p w req =
     tenant_body env (tv_Name env) req w (\<lambda>name.
       case orgsvc_Create (tw_db w) (tw_db w) (tv_newID env) (tv_now env) (pr_UserID p) name of
         (d1, Inl e) \<Rightarrow> stay (w\<lparr>tw_db := d1\<rparr>) (Inl (writeError e))
       | (d1, Inr created) \<Rightarrow>
           (case orgrepo_Member d1 (org_ID created) (pr_UserID p) of
              Inl e \<Rightarrow> stay (w\<lparr>tw_db := d1\<rparr>) (Inl (writeError e))
            | Inr m \<Rightarrow>
                (case reissue env cookie (pr_UserID p) m (w\<lparr>tw_db := d1\<rparr>) of
                   (w2, c) \<Rightarrow> (w2, c, Inr (201, OneOrganization created)))))"

definition api_listOrganizations ::
  "tenant_env \<Rightarrow> string option \<Rightarrow> principal \<Rightarrow> tenant_world \<Rightarrow> http_request \<Rightarrow> tenant_handled"
where
  "api_listOrganizations env cookie p w req =
     stay w (replied 200 OrganizationList (orgrepo_ListForUser (tv_pg env) (tw_db w) (pr_UserID p)))"

definition api_getOrganization ::
  "tenant_env \<Rightarrow> string option \<Rightarrow> principal \<Rightarrow> tenant_world \<Rightarrow> http_request \<Rightarrow> tenant_handled"
where
  "api_getOrganization env cookie p w req =
     stay w (replied 200 OneOrganization (orgrepo_GetByID (tw_db w) (pr_OrganizationID p)))"

definition api_updateOrganization ::
  "tenant_env \<Rightarrow> string option \<Rightarrow> principal \<Rightarrow> tenant_world \<Rightarrow> http_request \<Rightarrow> tenant_handled"
where
  "api_updateOrganization env cookie p w req =
     tenant_body env (tv_Name env) req w (\<lambda>name.
       changing w 200 OneOrganization (orgsvc_Rename (tw_db w) (tw_db w) (pr_OrganizationID p) name (tv_now env)))"

definition api_listMembers ::
  "tenant_env \<Rightarrow> string option \<Rightarrow> principal \<Rightarrow> tenant_world \<Rightarrow> http_request \<Rightarrow> tenant_handled"
where
  "api_listMembers env cookie p w req =
     tenant_page env req w (\<lambda>limit.
       stay w (replied 200 (\<lambda>ms. MemberList (map NewMemberResponse ms))
         (orgrepo_ListMembers (tv_pg env) (tw_db w) (pr_OrganizationID p) limit)))"

definition api_updateMember ::
  "tenant_env \<Rightarrow> string option \<Rightarrow> principal \<Rightarrow> tenant_world \<Rightarrow> http_request \<Rightarrow> tenant_handled"
where
  "api_updateMember env cookie p w req =
     tenant_body env (tv_Role env) req w (\<lambda>r.
       changing w 200 (OneMember \<circ> NewMemberResponse)
         (orgsvc_SetMemberRole (tv_lt env) (tw_db w) (tw_db w) (pr_OrganizationID p) (rq_Param req) r (tv_now env)))"

definition api_removeMember ::
  "tenant_env \<Rightarrow> string option \<Rightarrow> principal \<Rightarrow> tenant_world \<Rightarrow> http_request \<Rightarrow> tenant_handled"
where
  "api_removeMember env cookie p w req =
     (if rq_Param req = pr_UserID p then stay w (Inl (409, ''cannot_remove_self''))
      else removing w (orgrepo_RemoveMember (tw_db w) (tw_db w) (pr_OrganizationID p) (rq_Param req)))"

definition api_listInvites ::
  "tenant_env \<Rightarrow> string option \<Rightarrow> principal \<Rightarrow> tenant_world \<Rightarrow> http_request \<Rightarrow> tenant_handled"
where
  "api_listInvites env cookie p w req =
     tenant_page env req w (\<lambda>limit.
       stay w (replied 200 (\<lambda>vs. InviteList (map (NewInviteResponse (tv_now env)) vs))
         (orgrepo_ListInvites (tv_pg env) (tw_db w) (pr_OrganizationID p) limit)))"

definition api_createInvite ::
  "tenant_env \<Rightarrow> string option \<Rightarrow> principal \<Rightarrow> tenant_world \<Rightarrow> http_request \<Rightarrow> tenant_handled"
where
  "api_createInvite env cookie p w req =
     tenant_body env (tv_Invite env) req w (\<lambda>body.
       changing w 201 (\<lambda>(v, token). CreatedInvite (NewInviteResponse (tv_now env) v) token)
         (orgsvc_Invite (tv_lt env) (tw_db w) (tv_newID env) (tv_random env) (tv_now env) (pr_OrganizationID p)
            (pr_UserID p) (vq_Role body) (vq_Email body)))"

definition api_revokeInvite ::
  "tenant_env \<Rightarrow> string option \<Rightarrow> principal \<Rightarrow> tenant_world \<Rightarrow> http_request \<Rightarrow> tenant_handled"
where
  "api_revokeInvite env cookie p w req =
     removing w (orgrepo_RevokeInvite (tw_db w) (pr_OrganizationID p) (rq_Param req) (tv_now env))"

definition api_acceptInvite ::
  "tenant_env \<Rightarrow> string option \<Rightarrow> principal \<Rightarrow> tenant_world \<Rightarrow> http_request \<Rightarrow> tenant_handled"
where
  "api_acceptInvite env cookie p w req =
     tenant_body env (tv_Accept env) req w (\<lambda>token.
       case orgsvc_Accept (tv_lt env) (tw_db w) (tw_db w) token (pr_UserID p) (pr_Email p) (tv_now env) (tv_now env) of
         (d1, Inl e) \<Rightarrow> stay (w\<lparr>tw_db := d1\<rparr>) (Inl (writeError e))
       | (d1, Inr m) \<Rightarrow>
           (case (if pr_OrganizationID p = [] then reissue env cookie (pr_UserID p) m (w\<lparr>tw_db := d1\<rparr>)
                  else (w\<lparr>tw_db := d1\<rparr>, KeepCookie)) of
              (w2, c) \<Rightarrow> (w2, c, Inr (200, OneMember (NewMemberResponse m)))))"

section \<open>Users and keys\<close>

definition api_listUsers ::
  "tenant_env \<Rightarrow> string option \<Rightarrow> principal \<Rightarrow> tenant_world \<Rightarrow> http_request \<Rightarrow> tenant_handled"
where
  "api_listUsers env cookie p w req =
     tenant_page env req w (\<lambda>limit.
       stay w (replied 200 UserList (userrepo_List (tv_pg env) (tw_db w) (pr_OrganizationID p) limit)))"

definition api_getUser ::
  "tenant_env \<Rightarrow> string option \<Rightarrow> principal \<Rightarrow> tenant_world \<Rightarrow> http_request \<Rightarrow> tenant_handled"
where
  "api_getUser env cookie p w req = stay w (replied 200 OneUser (userrepo_GetByID (tw_db w) (rq_Param req)))"

definition api_listAPIKeys ::
  "tenant_env \<Rightarrow> string option \<Rightarrow> principal \<Rightarrow> tenant_world \<Rightarrow> http_request \<Rightarrow> tenant_handled"
where
  "api_listAPIKeys env cookie p w req =
     tenant_page env req w (\<lambda>limit.
       stay w (replied 200 KeyList (keyrepo_List (tv_pg env) (tw_db w) (pr_OrganizationID p) limit)))"

text \<open>The endpoints that change users and keys, over their definitions with the scope check.\<close>

definition passed :: "tenant_world \<Rightarrow> nat \<Rightarrow> ('a \<Rightarrow> tenant_payload) \<Rightarrow> tenants \<times> (problem + 'a) \<Rightarrow> tenant_handled" where
  "passed w status f r =
     (w\<lparr>tw_db := fst r\<rparr>, KeepCookie, case snd r of Inl q \<Rightarrow> Inl q | Inr x \<Rightarrow> Inr (status, f x))"

definition route_updateUser ::
  "tenant_env \<Rightarrow> string option \<Rightarrow> principal \<Rightarrow> tenant_world \<Rightarrow> http_request \<Rightarrow> tenant_handled"
where
  "route_updateUser env cookie p w req =
     tenant_body env (tv_UpdateUser env) req w (\<lambda>body.
       passed w 200 OneUser
         (api_updateUser (tv_lt env) p (tw_db w) (tw_db w) (rq_Param req) (uu_Email body) (uu_Disabled body) (tv_now env)))"

definition route_deleteUser ::
  "tenant_env \<Rightarrow> string option \<Rightarrow> principal \<Rightarrow> tenant_world \<Rightarrow> http_request \<Rightarrow> tenant_handled"
where
  "route_deleteUser env cookie p w req = passed w 204 (\<lambda>u. NoTenant) (api_deleteUser p (tw_db w) (rq_Param req))"

definition route_createAPIKey ::
  "tenant_env \<Rightarrow> string option \<Rightarrow> principal \<Rightarrow> tenant_world \<Rightarrow> http_request \<Rightarrow> tenant_handled"
where
  "route_createAPIKey env cookie p w req =
     tenant_body env (tv_CreateKey env) req w (\<lambda>body.
       passed w 201 (\<lambda>(k, secret). CreatedKey k secret)
         (api_createAPIKey (tv_lt env) p (tw_db w) (tw_db w) (tv_newID env) (tv_random env) (tv_secret env) (tv_now env) body))"

definition route_revokeAPIKey ::
  "tenant_env \<Rightarrow> string option \<Rightarrow> principal \<Rightarrow> tenant_world \<Rightarrow> http_request \<Rightarrow> tenant_handled"
where
  "route_revokeAPIKey env cookie p w req =
     passed w 200 OneKey (api_revokeAPIKey p (tw_db w) (rq_Param req) (tv_now env))"

section \<open>Routes\<close>

datatype tenant_route =
  ListOrganizations | CreateOrganization | GetOrganization | UpdateOrganization
| ListMembers | UpdateMember | RemoveMember | ListInvites | PostInvite | RevokeInvite | AcceptInvite
| ListUsers | GetUser | UpdateUser | DeleteUser | ListAPIKeys | CreateAPIKey | RevokeAPIKey

fun tenant_gate :: "tenant_route \<Rightarrow> gate" where
  "tenant_gate ListOrganizations = SessionOnly"
| "tenant_gate CreateOrganization = SessionOnly"
| "tenant_gate GetOrganization = Scope ''projects:read''"
| "tenant_gate UpdateOrganization = Scope ''users:write''"
| "tenant_gate ListMembers = Scope ''users:read''"
| "tenant_gate UpdateMember = Scope ''users:write''"
| "tenant_gate RemoveMember = Scope ''users:write''"
| "tenant_gate ListInvites = Scope ''users:read''"
| "tenant_gate PostInvite = Scope ''users:write''"
| "tenant_gate RevokeInvite = Scope ''users:write''"
| "tenant_gate AcceptInvite = SessionOnly"
| "tenant_gate ListUsers = Scope ''users:read''"
| "tenant_gate GetUser = Scope ''users:read''"
| "tenant_gate UpdateUser = Scope ''users:write''"
| "tenant_gate DeleteUser = Scope ''users:write''"
| "tenant_gate ListAPIKeys = Scope ''api_keys:read''"
| "tenant_gate CreateAPIKey = Scope ''api_keys:write''"
| "tenant_gate RevokeAPIKey = Scope ''api_keys:write''"

fun tenant_handler ::
  "tenant_route \<Rightarrow> tenant_env \<Rightarrow> string option \<Rightarrow> principal \<Rightarrow> tenant_world \<Rightarrow> http_request \<Rightarrow> tenant_handled"
where
  "tenant_handler ListOrganizations = api_listOrganizations"
| "tenant_handler CreateOrganization = api_createOrganization"
| "tenant_handler GetOrganization = api_getOrganization"
| "tenant_handler UpdateOrganization = api_updateOrganization"
| "tenant_handler ListMembers = api_listMembers"
| "tenant_handler UpdateMember = api_updateMember"
| "tenant_handler RemoveMember = api_removeMember"
| "tenant_handler ListInvites = api_listInvites"
| "tenant_handler PostInvite = api_createInvite"
| "tenant_handler RevokeInvite = api_revokeInvite"
| "tenant_handler AcceptInvite = api_acceptInvite"
| "tenant_handler ListUsers = api_listUsers"
| "tenant_handler GetUser = api_getUser"
| "tenant_handler UpdateUser = route_updateUser"
| "tenant_handler DeleteUser = route_deleteUser"
| "tenant_handler ListAPIKeys = api_listAPIKeys"
| "tenant_handler CreateAPIKey = route_createAPIKey"
| "tenant_handler RevokeAPIKey = route_revokeAPIKey"

text \<open>
  A request through the group: \<open>authenticate\<close> from the Authorization header or the session
  cookie, the gate, the handler. A session that is refused clears the cookie.
\<close>

definition serve_tenants ::
  "tenant_env \<Rightarrow> string \<Rightarrow> string option \<Rightarrow> tenant_world \<Rightarrow> tenant_route \<Rightarrow> http_request \<Rightarrow> tenant_handled"
where
  "serve_tenants env header cookie w route req =
     (case api_authenticate (tv_lt env) (tw_db w) header cookie (cached w (sessionToken cookie)) (tv_now env) of
        Inl q \<Rightarrow>
          if BearerToken (tv_lt env) header = None \<and> sessionToken cookie \<noteq> []
          then (pruned env (sessionToken cookie) w, ClearCookie, Inl q) else stay w (Inl q)
      | Inr p \<Rightarrow>
          (case admits (tenant_gate route) p of
             Some q \<Rightarrow> stay w (Inl q) | None \<Rightarrow> tenant_handler route env cookie p w req))"

section \<open>Acting within an organization\<close>

definition tenant_rows :: "tenants \<Rightarrow> string \<Rightarrow> organization list \<times> member_row list \<times> invite_row list \<times> key_row list" where
  "tenant_rows d org =
     (filter (\<lambda>r. org_ID r = org) (tn_orgs d), filter (\<lambda>m. mr_organization_id m = org) (tn_members d),
      filter (\<lambda>x. inv_OrganizationID (ir_invite x) = org) (tn_invites d),
      filter (\<lambda>k. key_OrganizationID (kr_key k) = org) (tn_keys d))"

definition confined :: "string \<Rightarrow> tenants \<Rightarrow> tenants \<Rightarrow> bool" where
  "confined org d d' \<longleftrightarrow>
     tn_users d' = tn_users d \<and> (\<forall>other. other \<noteq> org \<longrightarrow> tenant_rows d' other = tenant_rows d other)"

text \<open>What a session may do without a scope: change the caller's own memberships and no key.\<close>

definition personal :: "string \<Rightarrow> tenants \<Rightarrow> tenants \<Rightarrow> bool" where
  "personal u d d' \<longleftrightarrow>
     tn_users d' = tn_users d \<and> tn_keys d' = tn_keys d
     \<and> filter (\<lambda>m. mr_user_id m \<noteq> u) (tn_members d') = filter (\<lambda>m. mr_user_id m \<noteq> u) (tn_members d)
     \<and> (\<forall>r \<in> set (tn_orgs d). r \<in> set (tn_orgs d')) \<and> (\<forall>r \<in> set (tn_orgs d'). r \<in> set (tn_orgs d) \<or> org_OwnerUserID r = u)"

lemma confined_refl [simp]: "confined org d d"
  by (simp add: confined_def)

lemma personal_refl [simp]: "personal u d d"
  by (simp add: personal_def)

lemma filter_update_other:
  "(\<And>x. P x \<Longrightarrow> \<not> Q x \<and> \<not> Q (f x)) \<Longrightarrow> filter Q (map (\<lambda>x. if P x then f x else x) xs) = filter Q xs"
  by (induction xs) auto

lemma Rename_confined: "confined org d (fst (orgsvc_Rename d d org name now))"
proof (cases "fst (orgsvc_Rename d d org name now) = d")
  case False
  then obtain r where "fst (orgsvc_Rename d d org name now) = fst (orgrepo_Rename d r)" "org_ID r = org"
    by (auto simp: orgsvc_Rename_def orgrepo_GetByID_def org_Rename_def Let_def find_Some_iff
        split: sum.splits option.splits prod.splits if_splits)
  then show ?thesis
    by (auto simp: orgrepo_Rename_def Let_def confined_def tenant_rows_def split: option.splits
        intro!: filter_update_other)
qed simp

lemma SetMemberRole_confined: "confined org d (fst (orgsvc_SetMemberRole lt d d org u raw now))"
  by (auto simp: orgsvc_SetMemberRole_def orgrepo_SetMemberRole_def Let_def confined_def tenant_rows_def
      split: sum.splits option.splits bool.splits intro!: filter_update_other)

lemma RemoveMember_confined: "confined org d (fst (orgrepo_RemoveMember d d org u))"
  by (auto simp: orgrepo_RemoveMember_def confined_def tenant_rows_def
      split: sum.splits bool.splits intro!: filter_cong)

lemma Invite_confined:
  assumes "trim_space org = org"
  shows "confined org d (fst (orgsvc_Invite lt d newID random now org by_user raw email))"
  using assms
  by (auto simp: orgsvc_Invite_def NewInvite_def CreateInvite_def Let_def confined_def tenant_rows_def rbind_Inr_iff
      split: sum.splits option.splits prod.splits)

lemma RevokeInvite_confined: "confined org d (fst (orgrepo_RevokeInvite d org i now))"
  by (auto simp: orgrepo_RevokeInvite_def Let_def confined_def tenant_rows_def
      split: option.splits intro!: filter_update_other)

lemma keyrepo_Create_confined: "confined (key_OrganizationID k) d (fst (keyrepo_Create d k digest))"
  by (auto simp: keyrepo_Create_def confined_def tenant_rows_def split: option.splits)

lemma CreateKey_confined:
  assumes "trim_space org = org"
  shows "confined org d (fst (accsvc_CreateKey lt d d newID pre secret now org body))"
proof (cases "rbind newID (\<lambda>i. NewKey lt i org (kq_UserID body) (kq_Name body) (kq_Scopes body) now)")
  case (Inr k)
  then have "key_OrganizationID k = org" using assms by (auto simp: NewKey_def Let_def rbind_Inr_iff)
  then have "confined org d (fst (keyrepo_Create d (k\<lparr>key_Prefix := x\<rparr>) y))" for x y
    using keyrepo_Create_confined [of "k\<lparr>key_Prefix := x\<rparr>" d y] by simp
  then show ?thesis using Inr
    by (simp add: accsvc_CreateKey_def Let_def split_beta split: sum.split bool.split option.split)
qed (simp add: accsvc_CreateKey_def)

lemma RevokeKey_confined: "confined org d (fst (keyrepo_Revoke d org i now))"
  by (auto simp: keyrepo_Revoke_def Let_def confined_def tenant_rows_def
      split: option.splits intro!: filter_update_other)

lemma orgrepo_Create_personal: "personal (org_OwnerUserID r) d (fst (orgrepo_Create d d r))"
  by (auto simp: orgrepo_Create_def personal_def split: option.splits)

lemma orgsvc_Create_personal:
  assumes "trim_space u = u"
  shows "personal u d (fst (orgsvc_Create d d newID now u name))"
proof (cases "rbind newID (\<lambda>i. org_New i u name now)")
  case (Inr r)
  then have "org_OwnerUserID r = u" using assms by (auto simp: org_New_def Let_def rbind_Inr_iff)
  then show ?thesis using orgrepo_Create_personal [of r d] Inr by (simp add: orgsvc_Create_def)
qed (simp add: orgsvc_Create_def)

lemma Redeem_personal: "personal u d (fst (Redeem d v u now))"
  by (auto simp: Redeem_def upsert_member_def personal_def Let_def split: option.splits intro!: filter_update_other)

lemma Accept_personal: "personal u d (fst (orgsvc_Accept lt d d token u email now now'))"
  using Redeem_personal by (simp add: orgsvc_Accept_def split: sum.split option.split)

text \<open>Sessions come and go without touching the tables.\<close>

lemma session_tables [simp]:
  "tw_db (session_Logout token w) = tw_db w" "tw_db (issued st w) = tw_db w" "tw_db (pruned env token w) = tw_db w"
  "tw_db (fst (reissue env cookie u m w)) = tw_db w"
  by (auto simp: session_Logout_def issued_def pruned_def reissue_def Let_def split: sum.split prod.split)

lemma confined_body:
  "(\<And>b. confined org (tw_db w) (tw_db (fst (k b)))) \<Longrightarrow> confined org (tw_db w) (tw_db (fst (tenant_body env dec req w k)))"
  by (simp add: tenant_body_def stay_def split: sum.split)

lemma personal_body:
  "(\<And>b. personal u (tw_db w) (tw_db (fst (k b)))) \<Longrightarrow> personal u (tw_db w) (tw_db (fst (tenant_body env dec req w k)))"
  by (simp add: tenant_body_def stay_def split: sum.split)

lemma confined_page:
  "(\<And>n. confined org (tw_db w) (tw_db (fst (k n)))) \<Longrightarrow> confined org (tw_db w) (tw_db (fst (tenant_page env req w k)))"
  by (simp add: tenant_page_def stay_def split: sum.split)

lemma handled_tables [simp]:
  "tw_db (fst (stay w r)) = tw_db w" "tw_db (fst (changing w s f r')) = fst r'" "tw_db (fst (removing w e)) = fst e"
  "tw_db (fst (passed w s f r'')) = fst r''"
  by (simp_all add: stay_def changing_def removing_def passed_def)

lemma scoped_route_confined:
  assumes "tenant_gate route = Scope s" and "route \<noteq> UpdateUser" and "route \<noteq> DeleteUser"
    and "trim_space (pr_OrganizationID p) = pr_OrganizationID p"
  shows "confined (pr_OrganizationID p) (tw_db w) (tw_db (fst (tenant_handler route env cookie p w req)))"
  using assms
  by (cases route)
     (auto simp: api_getOrganization_def api_updateOrganization_def api_listMembers_def api_updateMember_def
        api_removeMember_def api_listInvites_def api_createInvite_def api_revokeInvite_def api_listUsers_def api_getUser_def
        api_listAPIKeys_def route_createAPIKey_def route_revokeAPIKey_def api_createAPIKey_def api_revokeAPIKey_def
        scoped_def answer_def
        intro!: confined_body confined_page Rename_confined SetMemberRole_confined RemoveMember_confined Invite_confined
        RevokeInvite_confined CreateKey_confined RevokeKey_confined)

lemma createOrganization_db:
  "tw_db (fst (case orgsvc_Create (tw_db w) (tw_db w) i now u name of
       (d1, Inl e) \<Rightarrow> stay (w\<lparr>tw_db := d1\<rparr>) (Inl (writeError e))
     | (d1, Inr created) \<Rightarrow>
         (case orgrepo_Member d1 (org_ID created) u of
            Inl e \<Rightarrow> stay (w\<lparr>tw_db := d1\<rparr>) (Inl (writeError e))
          | Inr m \<Rightarrow> (case reissue env cookie u m (w\<lparr>tw_db := d1\<rparr>) of (w2, c) \<Rightarrow> (w2, c, Inr (201, OneOrganization created))))))
   = fst (orgsvc_Create (tw_db w) (tw_db w) i now u name)"
  by (simp add: split_beta split: sum.split)

lemma acceptInvite_db:
  "tw_db (fst (case orgsvc_Accept lt (tw_db w) (tw_db w) token u email now now' of
       (d1, Inl e) \<Rightarrow> stay (w\<lparr>tw_db := d1\<rparr>) (Inl (writeError e))
     | (d1, Inr m) \<Rightarrow>
         (case (if org = [] then reissue env cookie u m (w\<lparr>tw_db := d1\<rparr>) else (w\<lparr>tw_db := d1\<rparr>, KeepCookie)) of
            (w2, c) \<Rightarrow> (w2, c, Inr (200, OneMember (NewMemberResponse m))))))
   = fst (orgsvc_Accept lt (tw_db w) (tw_db w) token u email now now')"
  by (simp add: split_beta split: sum.split)

lemma session_route_personal:
  assumes "tenant_gate route = SessionOnly" and "trim_space (pr_UserID p) = pr_UserID p"
  shows "personal (pr_UserID p) (tw_db w) (tw_db (fst (tenant_handler route env cookie p w req)))"
proof (cases route)
  case CreateOrganization
  then show ?thesis unfolding CreateOrganization tenant_handler.simps api_createOrganization_def
    by (intro personal_body) (simp only: createOrganization_db orgsvc_Create_personal [OF assms(2)])
next
  case AcceptInvite
  then show ?thesis unfolding AcceptInvite tenant_handler.simps api_acceptInvite_def
    by (intro personal_body) (simp only: acceptInvite_db Accept_personal)
qed (use assms in \<open>simp_all add: api_listOrganizations_def\<close>)

section \<open>Invitations\<close>

lemma find_last: "P x \<Longrightarrow> (\<And>y. y \<in> set xs \<Longrightarrow> \<not> P y) \<Longrightarrow> find P (xs @ [x]) = Some x"
  by (induction xs) auto

text \<open>An invitation that was created is redeemed by the account it is addressed to, for the role it names.\<close>

lemma invite_redeems:
  assumes ok: "tenants_ok d" and inv: "orgsvc_Invite lt d newID random now org by_user raw email = (d1, Inr (v, token))"
    and u: "u \<in> ur_id ` set (tn_users d)" and "EqualFold lt (trim_space address) (inv_Email v)"
    and "now' < pg_time (inv_ExpiresAt v)"
  shows "\<exists>d2 m. orgsvc_Accept lt d1 d1 token u address now' now'' = (d2, Inr m)
    \<and> mem_UserID m = u \<and> mem_OrganizationID m = inv_OrganizationID v \<and> mem_Role m = inv_Role v"
proof -
  have made: "CreateInvite lt d v (InviteDigest token) = (d1, None)"
    using inv by (auto simp: orgsvc_Invite_def Let_def split: sum.splits if_splits prod.splits option.splits)
  define x where "x = \<lparr>ir_invite = v\<lparr>inv_CreatedAt := pg_time (inv_CreatedAt v), inv_ExpiresAt := pg_time (inv_ExpiresAt v),
    inv_AcceptedAt := None, inv_RevokedAt := None\<rparr>, ir_token_hash = InviteDigest token\<rparr>"
  have d1: "d1 = d\<lparr>tn_invites := tn_invites d @ [x]\<rparr>" and texts: "texts [inv_ID v, inv_OrganizationID v]"
    and role: "role_Valid (inv_Role v)" and fresh: "InviteDigest token \<notin> ir_token_hash ` set (tn_invites d)"
    and org: "inv_OrganizationID v \<in> org_ID ` set (tn_orgs d)"
    using made by (auto simp: CreateInvite_def x_def refused_None invite_Validate_def split: option.splits)
  let ?v = "ir_invite x"
  have v: "inv_ID ?v = inv_ID v" "inv_OrganizationID ?v = inv_OrganizationID v" "inv_Role ?v = inv_Role v" "Pending ?v"
    "inv_Email ?v = inv_Email v" "inv_ExpiresAt ?v = pg_time (inv_ExpiresAt v)"
    by (simp_all add: x_def Pending_def)
  have "find (\<lambda>y. ir_token_hash y = InviteDigest token) (tn_invites d @ [x]) = Some x"
    using fresh by (intro find_last) (force simp: x_def)+
  then have seen: "orgsvc_InviteByToken d1 token = Inr ?v"
    by (simp add: orgsvc_InviteByToken_def orgrepo_InviteByToken_def d1)
  have "tenant_step lt d d d1" using tenant_step.create_invite [of lt d d v "InviteDigest token"] made by simp
  then have ok1: "tenants_ok d1" using tenant_step_ok ok tenants_follow_refl by blast
  have utext: "pg_text_ok u" using ok u by (auto simp: tenants_ok_def references_def texts_def list_all_iff)
  obtain d2 where red: "Redeem d1 ?v u now'' = (d2, orgrepo_Member d2 (inv_OrganizationID ?v) u)"
    and orgs: "tn_orgs d2 = tn_orgs d1"
    and mem: "\<exists>m \<in> set (tn_members d2). mr_key m = (inv_OrganizationID ?v, u) \<and> mr_role m = inv_Role ?v"
    using Redeem_runs [of ?v d1 u now''] texts role org u utext v by (auto simp: d1)
  have ok2: "tenants_ok d2"
    using tenant_step_ok [OF tenant_step.redeem [OF seen [unfolded orgsvc_InviteByToken_def]] ok1 tenants_follow_refl] red
    by (metis fst_conv)
  from mem obtain m where m: "m \<in> set (tn_members d2)" "mr_organization_id m = inv_OrganizationID v" "mr_user_id m = u"
    "mr_role m = inv_Role v" using v by auto
  obtain r where r: "r \<in> set (tn_orgs d2)" "org_ID r = mr_organization_id m" using org orgs m(2) by (auto simp: d1)
  from Member_found [OF ok2 m(1) r] show ?thesis
    using seen red v m assms(4,5) by (auto simp: orgsvc_Accept_def Redeemable_def)
qed

section \<open>Registration\<close>

text \<open>The memberships registration may add: one of the new account, in an organization it starts or is invited to.\<close>

definition earned :: "letters \<Rightarrow> time \<Rightarrow> tenants \<Rightarrow> string \<Rightarrow> string \<Rightarrow> string \<Rightarrow> member_row \<Rightarrow> bool" where
  "earned lt now d u email token n \<longleftrightarrow>
     mr_user_id n = u
     \<and> (mr_organization_id n \<notin> org_ID ` set (tn_orgs d)
        \<or> (\<exists>x \<in> set (tn_invites d). ir_token_hash x = InviteDigest token \<and> Redeemable lt (ir_invite x) email now = None
             \<and> mr_organization_id n = inv_OrganizationID (ir_invite x) \<and> mr_role n = inv_Role (ir_invite x)))"

lemma orgrepo_Create_members:
  "n \<in> set (tn_members (fst (orgrepo_Create d d r))) \<Longrightarrow>
   n \<in> set (tn_members d) \<or> mr_user_id n = org_OwnerUserID r \<and> mr_organization_id n \<notin> org_ID ` set (tn_orgs d)"
  by (auto simp: orgrepo_Create_def refused_None split: option.splits if_splits)

lemma orgsvc_Create_members:
  assumes "n \<in> set (tn_members (fst (orgsvc_Create d d newID now u name)))" and "trim_space u = u"
  shows "n \<in> set (tn_members d) \<or> mr_user_id n = u \<and> mr_organization_id n \<notin> org_ID ` set (tn_orgs d)"
proof (cases "rbind newID (\<lambda>i. org_New i u name now)")
  case (Inr r)
  then have "org_OwnerUserID r = u" using assms(2) by (auto simp: org_New_def Let_def rbind_Inr_iff)
  then show ?thesis using orgrepo_Create_members [of n d r] assms(1) Inr by (simp add: orgsvc_Create_def)
qed (use assms(1) in \<open>simp add: orgsvc_Create_def\<close>)

lemma upsert_member_mem:
  "m \<in> set (upsert_member ms n) \<Longrightarrow> m \<in> set ms \<or> mr_key m = mr_key n \<and> mr_role m = mr_role n"
  by (auto simp: upsert_member_def split: if_splits)

lemma Accept_members:
  assumes "n \<in> set (tn_members (fst (orgsvc_Accept lt d d token u email now now')))"
  shows "n \<in> set (tn_members d) \<or> earned lt now d u email token n"
proof (cases "orgsvc_InviteByToken d token")
  case (Inr v)
  then obtain x where x: "x \<in> set (tn_invites d)" "ir_token_hash x = InviteDigest token" "v = ir_invite x"
    by (auto simp: orgsvc_InviteByToken_def orgrepo_InviteByToken_def find_Some_iff split: option.splits) (metis nth_mem)
  show ?thesis
  proof (cases "n \<in> set (tn_members d)")
    case False
    then have "Redeemable lt v email now = None" "mr_organization_id n = inv_OrganizationID v" "mr_user_id n = u" "mr_role n = inv_Role v"
      using assms Inr
      by (auto simp: orgsvc_Accept_def Redeem_def Let_def split: option.splits if_splits dest!: upsert_member_mem)
    then show ?thesis using x by (auto simp: earned_def)
  qed simp
qed (use assms in \<open>simp add: orgsvc_Accept_def\<close>)

lemma register_join_members:
  assumes "n \<in> set (tn_members (fst (register_join env d u email name token)))" and "trim_space u = u"
  shows "n \<in> set (tn_members d) \<or> earned (tv_lt env) (tv_now env) d u email token n"
proof -
  have "fst (joinOrCreate env d u email name token) = (if token \<noteq> [] then fst (orgsvc_Accept (tv_lt env) d d token u email (tv_now env) (tv_now env))
      else fst (orgsvc_Create d d (tv_newID env) (tv_now env) u name))"
    by (simp add: joinOrCreate_def split_beta split: sum.split)
  moreover have "fst (register_join env d u email name token) = d
      \<or> fst (register_join env d u email name token) = fst (joinOrCreate env d u email name token)"
    by (simp add: register_join_def split_beta split: sum.split)
  ultimately show ?thesis
    using assms Accept_members [of n "tv_lt env" d token u email "tv_now env" "tv_now env"]
      orgsvc_Create_members [of n d "tv_newID env" "tv_now env" u name]
    by (auto simp: earned_def split: if_splits)
qed

lemma CreateUser_tables:
  assumes "accsvc_CreateUser lt bc d newID now email password = (d1, Inr u)"
  shows "tn_members d1 = tn_members d" "tn_orgs d1 = tn_orgs d" "tn_invites d1 = tn_invites d"
    "usr_ID u \<notin> ur_id ` set (tn_users d)" "usr_ID u \<in> ur_id ` set (tn_users d1)"
    "\<exists>i. newID = Inr i \<and> usr_ID u = i"
  using assms
  by (auto simp: accsvc_CreateUser_def userrepo_Create_def NewUser_def rbind_Inr_iff refused_None Let_def
      split: sum.splits prod.splits option.splits)

lemma register_session_tables: "tw_db (fst (register_session env w u m)) = tw_db w"
  by (simp add: register_session_def Let_def split_beta split: sum.split)

lemma register_session_user:
  "snd (snd (register_session env w u m)) = Inr (s, y) \<Longrightarrow> s = 201 \<and> (\<exists>a b c. y = Registered u a b c)"
  by (auto simp: register_session_def Let_def split: sum.splits prod.splits)

section \<open>A small tenancy\<close>

definition sample_bcrypt :: bcrypt where
  "sample_bcrypt = \<lparr>bc_generate = (\<lambda>s. Inr (''$2'' @ replicate 58 (CHR ''a''))), bc_compare = (\<lambda>h s. BcMatch)\<rparr>"

definition sample_tenant_env :: tenant_env where
  "sample_tenant_env =
     \<lparr>tv_http = \<lparr>ht_cfg = \<lparr>cl_quote = (\<lambda>s. s), cl_url = (\<lambda>s. Inr (s, [])), cl_duration = (\<lambda>s. Inr 0), cl_base64 = Inr\<rparr>,
                  ht_media = Inr, ht_maximumBodyBytes = 64\<rparr>,
      tv_lt = sample_letters, tv_bc = sample_bcrypt, tv_pg = \<lparr>pg_jsonb = Some, pg_size = length, pg_le = (\<lambda>a b. True)\<rparr>,
      tv_Register = (\<lambda>s. Value \<lparr>rg_Email = ''bob@x.io'', rg_Password = ''secret1'', rg_OrganizationName = [], rg_InviteToken = []\<rparr> []),
      tv_Login = (\<lambda>s. Refused), tv_Name = (\<lambda>s. Refused), tv_Role = (\<lambda>s. Refused),
      tv_Invite = (\<lambda>s. Value \<lparr>vq_Email = ''ada@x.io'', vq_Role = ''admin''\<rparr> []),
      tv_Accept = (\<lambda>s. Refused), tv_UpdateUser = (\<lambda>s. Refused), tv_CreateKey = (\<lambda>s. Refused),
      tv_newUserID = Inr ''u2'', tv_newID = Inr ''i2'', tv_random = Inr [], tv_secret = Inr [], tv_sessionRandom = Inr [],
      tv_sessionTTL = 100, tv_now = 1, tv_stored = None\<rparr>"

definition sample_tenant_world :: tenant_world where
  "sample_tenant_world = \<lparr>tw_db = sample_tenants, tw_sessions = [sessionKey ''t'' \<mapsto> sample_session]\<rparr>"

definition sample_tenant_request :: http_request where
  "sample_tenant_request =
     \<lparr>rq_ContentType = [], rq_Body = Some ''x'', rq_ContentLength = 1, rq_Query = (\<lambda>k. []), rq_Param = ''i1''\<rparr>"

lemma sample_trimmed: "trim_space ''t'' = ''t''" "trim_space ''o1'' = ''o1''" "trim_space ''u1'' = ''u1''" "trim_space ''u2'' = ''u2''"
  "trim_space ''bob@x.io'' = ''bob@x.io''" "trim_space ''ada@x.io'' = ''ada@x.io''" "trim_space [] = []"
  by code_simp+

lemma sample_signed_in:
  "api_authenticate sample_letters sample_tenants [] (Some ''t'') (cached sample_tenant_world (sessionToken (Some ''t''))) 1
     = Inr sample_principal"
  using sample_authenticated sample_trimmed(1) by (simp add: cached_def sessionToken_def sample_tenant_world_def)

lemma sample_revoked:
  "\<exists>w c. serve_tenants sample_tenant_env [] (Some ''t'') sample_tenant_world RevokeInvite sample_tenant_request = (w, c, Inr (204, NoTenant))
     \<and> tn_invites (tw_db w) \<noteq> tn_invites sample_tenants"
proof -
  have env: "tv_lt sample_tenant_env = sample_letters" "tv_now sample_tenant_env = 1" "tw_db sample_tenant_world = sample_tenants"
    "rq_Param sample_tenant_request = ''i1''" "HasScope sample_principal ''users:write''" "pr_OrganizationID sample_principal = ''o1''"
    by (simp_all add: sample_tenant_env_def sample_tenant_world_def sample_tenant_request_def HasScope_def sample_principal_def ScopeAll_def)
  show ?thesis using sample_signed_in env
    by (simp add: serve_tenants_def admits_def api_revokeInvite_def removing_def orgrepo_RevokeInvite_def)
       (simp add: sample_tenants_def)
qed

lemma sample_signed_up:
  "\<exists>d1 u. accsvc_CreateUser sample_letters sample_bcrypt sample_tenants (Inr ''u2'') 1 ''bob@x.io'' ''secret1'' = (d1, Inr u)
     \<and> usr_ID u = ''u2''"
proof -
  let ?h = "''$2'' @ replicate 58 (CHR ''a'')"
  have "is_ascii ?h" "is_ascii ''bob@x.io''" "is_ascii ''u2''" by (simp_all add: is_ascii_def byte_val_def list_all_iff)
  then have "hash_check ?h" "texts [''u2'', ''bob@x.io'', ?h]" "email_check sample_letters ''bob@x.io''"
    by (simp_all add: hash_check_def is_ascii_runes has_prefix_def texts_def pg_text_ok_def is_ascii_valid_utf8
        email_check_def sample_letters_def btrim_def)
  moreover have "ValidatePassword ''secret1'' = None"
    by (simp add: ValidatePassword_def is_ascii_valid_utf8 is_ascii_runes byte_val_def MinimumPasswordLength_def MaximumPasswordBytes_def)
  moreover have "ValidEmail ''bob@x.io''"
    by (simp add: ValidEmail_def is_ascii_valid_utf8 is_ascii_runes byte_val_def has_prefix_def has_suffix_def is_space_def is_control_def)
  moreover have "NormalizeEmail sample_letters ''bob@x.io'' = ''bob@x.io''"
    using sample_trimmed(5) by (simp add: NormalizeEmail_def ToLower_def sample_letters_def ascii_lower_def byte_val_def)
  moreover have "HashPassword sample_bcrypt ''secret1'' = Inr ?h" using \<open>ValidatePassword ''secret1'' = None\<close> by (simp add: HashPassword_def sample_bcrypt_def)
  ultimately have "HashPassword sample_bcrypt ''secret1'' = Inr ?h" "hash_check ?h" "texts [''u2'', ''bob@x.io'', ?h]"
    "email_check sample_letters ''bob@x.io''" "ValidEmail ''bob@x.io''" "NormalizeEmail sample_letters ''bob@x.io'' = ''bob@x.io''"
    by blast+
  then show ?thesis
    by (simp add: accsvc_CreateUser_def NewUser_def user_Validate_def userrepo_Create_def refused_def)
       (simp add: sample_tenants_def)
qed

lemma sample_registered:
  "\<exists>w c y. api_register sample_tenant_env sample_tenant_world sample_tenant_request = (w, c, Inr (201, y))"
proof -
  obtain d1 u where made: "accsvc_CreateUser sample_letters sample_bcrypt sample_tenants (Inr ''u2'') 1 ''bob@x.io'' ''secret1'' = (d1, Inr u)"
    using sample_signed_up by blast
  have env: "tv_lt sample_tenant_env = sample_letters" "tv_bc sample_tenant_env = sample_bcrypt" "tv_now sample_tenant_env = 1"
    "tv_newUserID sample_tenant_env = Inr ''u2''" "tw_db sample_tenant_world = sample_tenants"
    by (simp_all add: sample_tenant_env_def sample_tenant_world_def)
  have body: "bindJSON (tv_http sample_tenant_env) (tv_Register sample_tenant_env) sample_tenant_request
      = Inr \<lparr>rg_Email = ''bob@x.io'', rg_Password = ''secret1'', rg_OrganizationName = [], rg_InviteToken = []\<rparr>"
    by (simp add: bindJSON_def sample_tenant_env_def sample_tenant_request_def)
  have "\<exists>w' c y. register_session env w u m = (w', c, Inr (201, y))" for env w m
    by (auto simp: register_session_def Let_def split: sum.split prod.split)
  then show ?thesis using made body env sample_trimmed
    by (simp add: api_register_def tenant_body_def register_join_def)
qed

definition sample_no_invites :: tenants where
  "sample_no_invites = sample_tenants\<lparr>tn_invites := []\<rparr>"

lemma sample_no_invites_ok: "tenants_ok sample_no_invites"
  by (simp add: tenants_ok_def unique_keys_def references_def sample_tenants_def sample_no_invites_def)

definition sample_clerk :: principal where
  "sample_clerk =
     \<lparr>pr_Kind = KindAPIKey, pr_KeyID = ''k'', pr_UserID = [], pr_Email = [], pr_OrganizationID = ''o1'', pr_Scopes = [''users:write'']\<rparr>"

lemma sample_invited:
  "\<exists>d v. orgsvc_Invite sample_letters sample_no_invites (Inr ''i2'') (Inr []) 1 ''o1'' [] ''admin'' ''ada@x.io'' = (d, Inr (v, []))
     \<and> inv_Email v = ''ada@x.io'' \<and> inv_ExpiresAt v = 1 + InviteTTL"
proof -
  have a: "ParseRole sample_letters ''admin'' = Inr RoleAdmin" "NormalizeEmail sample_letters ''ada@x.io'' = ''ada@x.io''"
    "ToLower sample_letters (trim_space ''ada@x.io'') = ''ada@x.io''" "texts [''i2'', ''o1'', ''ada@x.io'', []]"
    by code_simp+
  show ?thesis using a sample_address sample_trimmed length_Sum256
    by (simp add: orgsvc_Invite_def NewInvite_def invite_Validate_def NewInviteToken_def EncodeToString_def hex_encode_def
        CreateInvite_def refused_def InviteDigest_def)
       (simp add: sample_no_invites_def sample_tenants_def)
qed

section \<open>Properties\<close>



text \<open>
  C6: registration gives no access that was not granted. Signing up creates a new account, and
  every membership there is afterwards was there before, or is the new account's: in an
  organization it just started, or with the organization and the role of a pending invitation to
  its address whose token it presented.
\<close>

theorem registration_needs_invitation:
  assumes "api_register env w req = (w', c, Inr (status, payload))" and "\<And>i. tv_newUserID env = Inr i \<Longrightarrow> trim_space i = i"
  shows "\<exists>body u a b s. bindJSON (tv_http env) (tv_Register env) req = Inr body \<and> status = 201 \<and> payload = Registered u a b s
    \<and> usr_ID u \<notin> ur_id ` set (tn_users (tw_db w))
    \<and> (\<forall>n \<in> set (tn_members (tw_db w')). n \<in> set (tn_members (tw_db w))
         \<or> earned (tv_lt env) (tv_now env) (tw_db w) (usr_ID u) (trim_space (rg_Email body)) (trim_space (rg_InviteToken body)) n)"
proof -
  obtain body d1 u where body: "bindJSON (tv_http env) (tv_Register env) req = Inr body"
    and made: "accsvc_CreateUser (tv_lt env) (tv_bc env) (tw_db w) (tv_newUserID env) (tv_now env) (trim_space (rg_Email body)) (rg_Password body) = (d1, Inr u)"
    and rest: "(w', c, Inr (status, payload)) = (case register_join env d1 (usr_ID u) (trim_space (rg_Email body))
       (trim_space (rg_OrganizationName body)) (trim_space (rg_InviteToken body)) of (d2, m) \<Rightarrow> register_session env (w\<lparr>tw_db := d2\<rparr>) u m)"
    using assms(1) by (auto simp: api_register_def tenant_body_def stay_def Let_def split: sum.splits if_splits prod.splits)
  note tables = CreateUser_tables [OF made]
  let ?j = "register_join env d1 (usr_ID u) (trim_space (rg_Email body)) (trim_space (rg_OrganizationName body)) (trim_space (rg_InviteToken body))"
  have fin: "register_session env (w\<lparr>tw_db := fst ?j\<rparr>) u (snd ?j) = (w', c, Inr (status, payload))"
    using rest by (simp add: split_beta)
  have "tw_db w' = fst ?j" using register_session_tables [of env "w\<lparr>tw_db := fst ?j\<rparr>" u "snd ?j"] fin by simp
  moreover have "trim_space (usr_ID u) = usr_ID u" using tables(6) assms(2) by auto
  ultimately have "n \<in> set (tn_members (tw_db w)) \<or> earned (tv_lt env) (tv_now env) (tw_db w) (usr_ID u) (trim_space (rg_Email body))
      (trim_space (rg_InviteToken body)) n" if "n \<in> set (tn_members (tw_db w'))" for n
    using register_join_members [of n env d1] that tables(1-3) by (auto simp: earned_def)
  then show ?thesis using body tables(4) register_session_user [of env "w\<lparr>tw_db := fst ?j\<rparr>" u "snd ?j"] fin by auto
qed

theorem registration_needs_invitation_witness:
  "\<exists>w c u a b s. api_register sample_tenant_env sample_tenant_world sample_tenant_request = (w, c, Inr (201, Registered u a b s))
     \<and> usr_ID u \<noteq> ''u1''"
proof -
  obtain w c y where run: "api_register sample_tenant_env sample_tenant_world sample_tenant_request = (w, c, Inr (201, y))"
    using sample_registered by blast
  have "trim_space i = i" if "tv_newUserID sample_tenant_env = Inr i" for i
    using that sample_trimmed by (simp add: sample_tenant_env_def)
  from registration_needs_invitation [OF run this] obtain u a b s where "y = Registered u a b s"
    "usr_ID u \<notin> ur_id ` set (tn_users (tw_db sample_tenant_world))" by blast
  then show ?thesis using run by (auto simp: sample_tenant_world_def sample_tenants_def)
qed

text \<open>
  C34: users:write is as good as every scope. A principal whose only scope is users:write may send
  an invitation for the role admin, and whoever the address belongs to redeems it and holds the
  scope * in the organization, although a key is never granted a scope its maker does not hold.
\<close>

theorem users_write_grants_admin:
  assumes "tenants_ok (tw_db w)" and "pr_Scopes p = [''users:write'']"
    and "tenant_handler PostInvite env cookie p w req = (w1, c, Inr (201, CreatedInvite v token))"
    and "bindJSON (tv_http env) (tv_Invite env) req = Inr body" and "ParseRole (tv_lt env) (vq_Role body) = Inr RoleAdmin"
    and "u \<in> ur_id ` set (tn_users (tw_db w))" and "EqualFold (tv_lt env) (trim_space address) (vr_Email v)"
    and "now < pg_time (vr_ExpiresAt v)"
  shows "admits (tenant_gate PostInvite) p = None \<and> \<not> HasScope p ''api_keys:write''
    \<and> (\<exists>d2 m. orgsvc_Accept (tv_lt env) (tw_db w1) (tw_db w1) token u address now now' = (d2, Inr m)
         \<and> mem_UserID m = u \<and> mem_OrganizationID m = trim_space (pr_OrganizationID p) \<and> role_Scopes (mem_Role m) = [''*''])"
proof -
  obtain i where inv: "orgsvc_Invite (tv_lt env) (tw_db w) (tv_newID env) (tv_random env) (tv_now env) (pr_OrganizationID p) (pr_UserID p)
      (vq_Role body) (vq_Email body) = (tw_db w1, Inr (i, token))" and v: "v = NewInviteResponse (tv_now env) i"
    using assms(3,4) by (auto simp: api_createInvite_def tenant_body_def changing_def replied_def split: sum.splits prod.splits)
       (metis prod.collapse)
  have role: "inv_Role i = RoleAdmin" "inv_OrganizationID i = trim_space (pr_OrganizationID p)"
    using inv assms(5) by (auto simp: orgsvc_Invite_def NewInvite_def Let_def rbind_Inr_iff split: sum.splits if_splits prod.splits option.splits)
  have "EqualFold (tv_lt env) (trim_space address) (inv_Email i)" "now < pg_time (inv_ExpiresAt i)"
    using assms(7,8) v by (simp_all add: NewInviteResponse_def)
  from invite_redeems [OF assms(1) inv assms(6) this, of now'] obtain d2 m where
    m: "orgsvc_Accept (tv_lt env) (tw_db w1) (tw_db w1) token u address now now' = (d2, Inr m)" "mem_UserID m = u"
      "mem_OrganizationID m = trim_space (pr_OrganizationID p)" "mem_Role m = RoleAdmin" using role by auto
  have "role_Scopes (mem_Role m) = [''*'']" unfolding m(4) by (simp add: role_Scopes_def)
  moreover have "admits (tenant_gate PostInvite) p = None" "\<not> HasScope p ''api_keys:write''"
    using assms(2) by (simp_all add: admits_def HasScope_def ScopeAll_def)
  ultimately show ?thesis using m(1-3) by blast
qed

theorem users_write_grants_admin_witness:
  "\<exists>w1 c v token d2 m. tenant_handler PostInvite sample_tenant_env None sample_clerk (sample_tenant_world\<lparr>tw_db := sample_no_invites\<rparr>)
       sample_tenant_request = (w1, c, Inr (201, CreatedInvite v token))
     \<and> orgsvc_Accept sample_letters (tw_db w1) (tw_db w1) token ''u1'' ''ada@x.io'' 2 2 = (d2, Inr m)
     \<and> role_Scopes (mem_Role m) = [''*'']"
proof -
  let ?w = "sample_tenant_world\<lparr>tw_db := sample_no_invites\<rparr>"
  obtain d v where inv: "orgsvc_Invite sample_letters sample_no_invites (Inr ''i2'') (Inr []) 1 ''o1'' [] ''admin'' ''ada@x.io'' = (d, Inr (v, []))"
    and v: "inv_Email v = ''ada@x.io''" "inv_ExpiresAt v = 1 + InviteTTL" using sample_invited by blast
  have env: "tv_lt sample_tenant_env = sample_letters" "tv_now sample_tenant_env = 1" "tv_newID sample_tenant_env = Inr ''i2''"
    "tv_random sample_tenant_env = Inr []" "pr_OrganizationID sample_clerk = ''o1''" "pr_UserID sample_clerk = []"
    "pr_Scopes sample_clerk = [''users:write'']"
    by (simp_all add: sample_tenant_env_def sample_clerk_def)
  have body: "bindJSON (tv_http sample_tenant_env) (tv_Invite sample_tenant_env) sample_tenant_request
      = Inr \<lparr>vq_Email = ''ada@x.io'', vq_Role = ''admin''\<rparr>"
    by (simp add: bindJSON_def sample_tenant_env_def sample_tenant_request_def)
  have run: "tenant_handler PostInvite sample_tenant_env None sample_clerk ?w sample_tenant_request
      = (?w\<lparr>tw_db := d\<rparr>, KeepCookie, Inr (201, CreatedInvite (NewInviteResponse 1 v) []))"
    using inv body env by (simp add: api_createInvite_def tenant_body_def changing_def replied_def)
  have role: "ParseRole (tv_lt sample_tenant_env) (vq_Role \<lparr>vq_Email = ''ada@x.io'', vq_Role = ''admin''\<rparr>) = Inr RoleAdmin"
    unfolding env by code_simp
  have late: "2 < pg_time (1 + InviteTTL)" by code_simp
  have "\<exists>d2 m. orgsvc_Accept sample_letters d d [] ''u1'' ''ada@x.io'' 2 2 = (d2, Inr m) \<and> role_Scopes (mem_Role m) = [''*'']"
    using users_write_grants_admin [OF _ env(7) run body role, of "''u1''" "''ada@x.io''" 2 2] sample_no_invites_ok sample_email v late env(1)
    by (auto simp: NewInviteResponse_def) (auto simp: sample_no_invites_def sample_tenants_def)
  then show ?thesis using run by auto
qed

end
