(* ===== verification/ObjectStore.thy ===== *)
theory ObjectStore
  imports Worker
begin

text \<open>
  \<open>internal/repository/file/s3.go\<close>: artifacts in a bucket. The client of the AWS SDK is the record
  \<open>s3_api\<close> of the calls the store makes, over whatever state the service has; the locale \<open>s3_laws\<close>
  states what the service documents: a read sees the last completed write, an object is
  stored whole or not at all, and a call that failed may still have had its effect. Under them
  the store is a \<open>write_once_store\<close>, and so is the cache in front of it, which is how a hosted
  control plane is wired.
\<close>

section \<open>The client\<close>

text \<open>\<open>types.NoSuchKey\<close>, another error of the API with its code, or a request that got no answer.\<close>

datatype s3_error = NoSuchKey | APIError string | RequestError error

primrec s3_cause :: "s3_error \<Rightarrow> error" where
  "s3_cause NoSuchKey = Plain ''NoSuchKey''"
| "s3_cause (APIError code) = Plain code"
| "s3_cause (RequestError e) = e"

record 's s3_api =
  s3_HeadObject :: "'s \<Rightarrow> string \<Rightarrow> string \<Rightarrow> 's \<times> s3_error option"
  s3_GetObject :: "'s \<Rightarrow> string \<Rightarrow> string \<Rightarrow> 's \<times> (s3_error + string \<times> nat option)"
  s3_PutObject :: "'s \<Rightarrow> string \<Rightarrow> string \<Rightarrow> string \<Rightarrow> nat \<Rightarrow> 's \<times> s3_error option"
  s3_DeleteObject :: "'s \<Rightarrow> string \<Rightarrow> string \<Rightarrow> 's \<times> s3_error option"
  s3_HeadBucket :: "'s \<Rightarrow> string \<Rightarrow> 's \<times> s3_error option"

record s3_options =
  so_Bucket :: string
  so_Endpoint :: string
  so_Region :: string
  so_AccessKey :: string
  so_SecretKey :: string
  so_PathStyle :: bool

record s3_settings =
  ss_Region :: string
  ss_AccessKey :: string
  ss_SecretKey :: string
  ss_BaseEndpoint :: "string option"
  ss_UsePathStyle :: bool

text \<open>\<open>NewS3\<close>: the settings of the client and the bucket.\<close>

definition NewS3 :: "s3_options \<Rightarrow> (s3_settings \<times> string) result" where
  "NewS3 options =
     (let bucket = trim_space (so_Bucket options); endpoint = trim_space (so_Endpoint options);
          region = trim_space (so_Region options) in
      if bucket = [] then Inl (Plain ''artifact: S3 bucket is required'')
      else if so_AccessKey options = [] \<or> so_SecretKey options = []
      then Inl (Plain ''artifact: S3 credentials are required'')
      else Inr (\<lparr>ss_Region = (if region = [] then ''auto'' else region),
                 ss_AccessKey = so_AccessKey options, ss_SecretKey = so_SecretKey options,
                 ss_BaseEndpoint = (if endpoint = [] then None else Some endpoint),
                 ss_UsePathStyle = so_PathStyle options\<rparr>, bucket))"

section \<open>The store\<close>

text \<open>
  What the environment decides during an operation: the context, whether the source can be
  rewound and what its two seeks answer, and what happens to the spool file. A source that can
  be rewound is read twice, for the digest and for the request, and has the same bytes both
  times. The source and the client are never nil here.
\<close>

record s3_env =
  se_ctx :: "nat \<Rightarrow> go_err"
  se_seekable :: bool
  se_seek :: go_err
  se_rewind :: go_err
  se_spool :: go_err
  se_room :: "nat option"

primrec s3_notFound :: "s3_error \<Rightarrow> bool" where
  "s3_notFound NoSuchKey = True"
| "s3_notFound (APIError code) = (code \<in> set [''NoSuchKey'', ''NotFound'', ''404''])"
| "s3_notFound (RequestError e) = False"

definition s3_exists :: "'s s3_api \<Rightarrow> string \<Rightarrow> 's \<Rightarrow> string \<Rightarrow> 's \<times> bool result" where
  "s3_exists api bucket s key =
     (case s3_HeadObject api s bucket key of
        (s', None) \<Rightarrow> (s', Inr True)
      | (s', Some e) \<Rightarrow>
          (s', if s3_notFound e then Inr False else Inl (annotate ''artifact: head object'' (s3_cause e))))"

text \<open>The request both ways of \<open>Put\<close> end in, with a body that was read from its start.\<close>

definition s3_upload ::
  "'s s3_api \<Rightarrow> string \<Rightarrow> 's \<Rightarrow> string \<Rightarrow> string \<Rightarrow> copy_result \<Rightarrow> 's \<times> info result"
where
  "s3_upload api bucket s key body res =
     (case s3_PutObject api s bucket key body (cr_SizeBytes res) of
        (s', Some e) \<Rightarrow> (s', Inl (annotate ''artifact: put object'' (s3_cause e)))
      | (s', None) \<Rightarrow>
          (s', Inr \<lparr>info_storageKey = key, info_sizeBytes = cr_SizeBytes res, info_sha256 = cr_SHA256 res\<rparr>))"

definition putSeekable ::
  "s3_env \<Rightarrow> 's s3_api \<Rightarrow> string \<Rightarrow> 's \<Rightarrow> string \<Rightarrow> reader \<Rightarrow> int \<Rightarrow> 's \<times> info result"
where
  "putSeekable env api bucket s key source maxBytes =
     (case se_seek env of
        Some e \<Rightarrow> (s, Inl (annotate ''artifact: locate object'' e))
      | None \<Rightarrow>
          (case CopyAndHashContext (se_ctx env) \<lparr>wr_bytes = [], wr_room = None\<rparr> source maxBytes of
             (res, Some e, w) \<Rightarrow> (s, Inl e)
           | (res, None, w) \<Rightarrow>
               (case se_rewind env of
                  Some e \<Rightarrow> (s, Inl (annotate ''artifact: rewind object'' e))
                | None \<Rightarrow> s3_upload api bucket s key (reader_bytes source) res)))"

definition putSpooled ::
  "s3_env \<Rightarrow> 's s3_api \<Rightarrow> string \<Rightarrow> 's \<Rightarrow> string \<Rightarrow> reader \<Rightarrow> int \<Rightarrow> 's \<times> info result"
where
  "putSpooled env api bucket s key source maxBytes =
     (case se_spool env of
        Some e \<Rightarrow> (s, Inl (annotate ''artifact: spool object'' e))
      | None \<Rightarrow>
          (case CopyAndHashContext (se_ctx env) \<lparr>wr_bytes = [], wr_room = se_room env\<rparr> source maxBytes of
             (res, Some e, w) \<Rightarrow> (s, Inl e)
           | (res, None, w) \<Rightarrow>
               (case se_rewind env of
                  Some e \<Rightarrow> (s, Inl (annotate ''artifact: rewind spooled object'' e))
                | None \<Rightarrow> s3_upload api bucket s key (wr_bytes w) res)))"

definition s3_Put ::
  "s3_env \<Rightarrow> 's s3_api \<Rightarrow> string \<Rightarrow> 's \<Rightarrow> string \<Rightarrow> reader \<Rightarrow> int \<Rightarrow> 's \<times> info result"
where
  "s3_Put env api bucket s key source maxBytes =
     (case ValidateStorageKey key of
        Some e \<Rightarrow> (s, Inl e)
      | None \<Rightarrow>
          if maxBytes < 0 then (s, Inl (Plain ''artifact: byte limit cannot be negative''))
          else case se_ctx env 0 of
            Some e \<Rightarrow> (s, Inl e)
          | None \<Rightarrow>
              (case s3_exists api bucket s key of
                 (s1, Inl e) \<Rightarrow> (s1, Inl e)
               | (s1, Inr True) \<Rightarrow> (s1, Inl (wrapf File_ErrExists key))
               | (s1, Inr False) \<Rightarrow>
                   if se_seekable env then putSeekable env api bucket s1 key source maxBytes
                   else putSpooled env api bucket s1 key source maxBytes))"

text \<open>\<open>Open\<close>: the length the service announces, none counting as zero, and no digest.\<close>

definition s3_Open ::
  "s3_env \<Rightarrow> 's s3_api \<Rightarrow> string \<Rightarrow> 's \<Rightarrow> string \<Rightarrow> 's \<times> (string \<times> info) result"
where
  "s3_Open env api bucket s key =
     (case ValidateStorageKey key of
        Some e \<Rightarrow> (s, Inl e)
      | None \<Rightarrow>
          (case se_ctx env 0 of
             Some e \<Rightarrow> (s, Inl e)
           | None \<Rightarrow>
               (case s3_GetObject api s bucket key of
                  (s', Inl e) \<Rightarrow>
                    (s', Inl (if s3_notFound e then wrapf File_ErrNotFound key
                              else annotate ''artifact: get object'' (s3_cause e)))
                | (s', Inr (body, announced)) \<Rightarrow>
                    (s', Inr (body, \<lparr>info_storageKey = key,
                                     info_sizeBytes = (case announced of None \<Rightarrow> 0 | Some n \<Rightarrow> n),
                                     info_sha256 = []\<rparr>)))))"

definition s3_Delete :: "s3_env \<Rightarrow> 's s3_api \<Rightarrow> string \<Rightarrow> 's \<Rightarrow> string \<Rightarrow> 's \<times> go_err" where
  "s3_Delete env api bucket s key =
     (case ValidateStorageKey key of
        Some e \<Rightarrow> (s, Some e)
      | None \<Rightarrow>
          (case se_ctx env 0 of
             Some e \<Rightarrow> (s, Some e)
           | None \<Rightarrow>
               (case s3_exists api bucket s key of
                  (s1, Inl e) \<Rightarrow> (s1, Some e)
                | (s1, Inr False) \<Rightarrow> (s1, Some (wrapf File_ErrNotFound key))
                | (s1, Inr True) \<Rightarrow>
                    (case s3_DeleteObject api s1 bucket key of
                       (s2, None) \<Rightarrow> (s2, None)
                     | (s2, Some e) \<Rightarrow> (s2, Some (annotate ''artifact: delete object'' (s3_cause e)))))))"

definition s3_Check :: "'s s3_api option \<Rightarrow> string \<Rightarrow> 's \<Rightarrow> 's \<times> go_err" where
  "s3_Check client bucket s =
     (case client of
        None \<Rightarrow> (s, Some (Plain ''artifact: S3 store is not configured''))
      | Some api \<Rightarrow>
          (case s3_HeadBucket api s bucket of
             (s', None) \<Rightarrow> (s', None)
           | (s', Some e) \<Rightarrow> (s', Some (annotate ''artifact: bucket is not reachable'' (s3_cause e)))))"

definition s3_repo :: "s3_env \<Rightarrow> 's s3_api \<Rightarrow> string \<Rightarrow> 's repo" where
  "s3_repo env api bucket =
     \<lparr>rp_put = s3_Put env api bucket, rp_open = s3_Open env api bucket, rp_delete = s3_Delete env api bucket\<rparr>"

definition cached_repo :: "'r repo \<Rightarrow> cache_env \<Rightarrow> 'r cache repo" where
  "cached_repo rp env = \<lparr>rp_put = cache_Put rp env, rp_open = cache_Open rp env, rp_delete = cache_Delete rp env\<rparr>"

section \<open>The service\<close>

text \<open>
  What S3 documents, for one bucket: \<open>HeadObject\<close> and \<open>GetObject\<close> see every completed write and
  change nothing, an object is never stored in part, and a request that was not answered
  with success may still have been carried out.
\<close>

locale s3_laws =
  fixes api :: "'s s3_api"
    and bucket :: string
    and content :: "'s \<Rightarrow> string \<Rightarrow> string option"
  assumes head_found: "s3_HeadObject api s bucket k = (s', None) \<Longrightarrow> content s' = content s \<and> content s k \<noteq> None"
    and head_failed: "s3_HeadObject api s bucket k = (s', Some e) \<Longrightarrow>
      content s' = content s \<and> (s3_notFound e \<longrightarrow> content s k = None)"
    and get_found: "s3_GetObject api s bucket k = (s', Inr (b, n)) \<Longrightarrow>
      content s' = content s \<and> content s k = Some b \<and> n = Some (length b)"
    and get_failed: "s3_GetObject api s bucket k = (s', Inl e) \<Longrightarrow> content s' = content s"
    and put_done: "s3_PutObject api s bucket k b (length b) = (s', None) \<Longrightarrow> content s' = (content s)(k \<mapsto> b)"
    and put_failed: "s3_PutObject api s bucket k b (length b) = (s', Some e) \<Longrightarrow>
      content s' = content s \<or> content s' = (content s)(k \<mapsto> b)"
    and delete_done: "s3_DeleteObject api s bucket k = (s', None) \<Longrightarrow> content s' = (content s)(k := None)"
    and delete_failed: "s3_DeleteObject api s bucket k = (s', Some e) \<Longrightarrow>
      content s' = content s \<or> content s' = (content s)(k := None)"
begin

lemma exists_laws:
  assumes "s3_exists api bucket s k = (s', r)"
  shows "content s' = content s \<and> (r = Inr True \<longrightarrow> content s k \<noteq> None) \<and> (r = Inr False \<longrightarrow> content s k = None)"
  using assms head_found [of s k s'] head_failed [of s k s']
  by (auto simp: s3_exists_def split: prod.splits option.splits if_splits)

lemma upload_laws:
  assumes "s3_upload api bucket s k b res = (s', r)" and "cr_SizeBytes res = length b" and "cr_SHA256 res = sha256_hex b"
  shows "(\<forall>e. r = Inl e \<longrightarrow> content s' = content s \<or> content s' = (content s)(k \<mapsto> b))
    \<and> (\<forall>i. r = Inr i \<longrightarrow> content s' = (content s)(k \<mapsto> b)
         \<and> info_sizeBytes i = length b \<and> info_sha256 i = sha256_hex b)"
  using assms put_done [of s k b s'] put_failed [of s k b s']
  by (auto simp: s3_upload_def split: prod.splits option.splits)

text \<open>Both ways of sending the body send the whole source.\<close>

lemma sent_laws:
  assumes "putSeekable env api bucket s k src m = (s', r) \<or> putSpooled env api bucket s k src m = (s', r)"
  shows "(\<forall>e. r = Inl e \<longrightarrow> content s' = content s \<or> content s' = (content s)(k \<mapsto> reader_bytes src))
    \<and> (\<forall>i. r = Inr i \<longrightarrow> content s' = (content s)(k \<mapsto> reader_bytes src)
         \<and> info_sizeBytes i = length (reader_bytes src) \<and> info_sha256 i = sha256_hex (reader_bytes src))"
proof -
  consider (sent) res where "s3_upload api bucket s k (reader_bytes src) res = (s', r)"
      "cr_SizeBytes res = length (reader_bytes src)" "cr_SHA256 res = sha256_hex (reader_bytes src)"
    | (stopped) e where "s' = s" "r = Inl e"
    using assms by (auto simp: putSeekable_def putSpooled_def dest: CopyAndHashContext_whole
        split: option.splits prod.splits)
  then show ?thesis
  proof cases
    case sent
    show ?thesis by (rule upload_laws [OF sent])
  qed simp
qed

lemma Put_laws:
  assumes "s3_Put env api bucket s k src m = (s', r)"
  shows "(\<forall>e. r = Inl e \<longrightarrow> content s' = content s \<or> content s k = None \<and> content s' = (content s)(k \<mapsto> reader_bytes src))
    \<and> (\<forall>i. r = Inr i \<longrightarrow> content s k = None \<and> content s' = (content s)(k \<mapsto> reader_bytes src)
         \<and> info_sizeBytes i = length (reader_bytes src) \<and> info_sha256 i = sha256_hex (reader_bytes src))"
proof (cases "\<exists>s1. s3_exists api bucket s k = (s1, Inr False)
    \<and> (putSeekable env api bucket s1 k src m = (s', r) \<or> putSpooled env api bucket s1 k src m = (s', r))")
  case True
  then show ?thesis using exists_laws [of s k] sent_laws [of env _ k src m s' r] by fastforce
next
  case False
  then show ?thesis using assms exists_laws [of s k]
    by (fastforce simp: s3_Put_def split: option.splits prod.splits sum.splits bool.splits if_splits)
qed

lemma Open_laws:
  assumes "s3_Open env api bucket s k = (s', r)"
  shows "content s' = content s \<and> (\<forall>b i. r = Inr (b, i) \<longrightarrow> content s k = Some b \<and> info_sizeBytes i = length b)"
  using assms get_found [of s k s'] get_failed [of s k s']
  by (auto simp: s3_Open_def split: option.splits prod.splits sum.splits)

text \<open>A delete that succeeded deleted; one that failed after asking the service may have.\<close>

lemma Delete_laws:
  assumes "s3_Delete env api bucket s k = (s', err)"
  shows "(err = None \<longrightarrow> content s k \<noteq> None \<and> content s' = (content s)(k := None))
    \<and> (content s' = content s \<or> content s' = (content s)(k := None))"
  using assms exists_laws [of s k] delete_done [of _ k s'] delete_failed [of _ k s']
  by (fastforce simp: s3_Delete_def split: option.splits prod.splits sum.splits bool.splits)

end

sublocale s3_laws \<subseteq> objects: write_once_store "s3_Put env api bucket" "s3_Open env api bucket" content "\<lambda>s. True"
  for env
proof (unfold_locales, goal_cases)
  case (1 s k src m s' i)
  then show ?case using Put_laws by blast
next
  case (2 s k src m s' e)
  then show ?case using Put_laws by blast
next
  case (3 s k s' b i)
  then show ?case using Open_laws by blast
next
  case (4 s k s' e)
  then show ?case using Open_laws by blast
qed

sublocale s3_laws \<subseteq> hosted: cached_writes "s3_Put env api bucket" "s3_Open env api bucket" content "\<lambda>s. True"
    cenv "s3_repo env api bucket"
  for env cenv
  by unfold_locales (simp_all add: s3_repo_def)

section \<open>The hosted store\<close>

text \<open>A put or an open through the cache, each in an environment of its own.\<close>

inductive hosted_step :: "'s s3_api \<Rightarrow> string \<Rightarrow> 's cache \<Rightarrow> 's cache \<Rightarrow> bool" for api bucket where
  hosted_put: "cache_Put (s3_repo env api bucket) cenv c k src m = (c', r) \<Longrightarrow> hosted_step api bucket c c'"
| hosted_open: "cache_Open (s3_repo env api bucket) cenv c k = (c', found) \<Longrightarrow> hosted_step api bucket c c'"

context s3_laws
begin

lemma hosted_step_keeps:
  "hosted_step api bucket c c' \<Longrightarrow> hosted.faithful c \<Longrightarrow> hosted.faithful c' \<and> hosted.ccontent c \<subseteq>\<^sub>m hosted.ccontent c'"
proof (induction rule: hosted_step.induct)
  case (hosted_put env cenv c k src m c' r)
  then show ?case using hosted.cached.use_step [of env cenv c c'] hosted.cached.use_put by blast
next
  case (hosted_open env cenv c k c' found)
  then show ?case using hosted.cached.use_step [of env cenv c c'] hosted.cached.use_get by blast
qed

lemma hosted_steps_keep:
  "(hosted_step api bucket)\<^sup>*\<^sup>* c c' \<Longrightarrow> hosted.faithful c \<Longrightarrow> hosted.faithful c' \<and> hosted.ccontent c \<subseteq>\<^sub>m hosted.ccontent c'"
  by (induction rule: rtranclp_induct) (auto dest: hosted_step_keeps intro: map_le_trans)

lemma hosted_transparent:
  assumes "ca_files c \<subseteq>\<^sub>m content (ca_remote c)"
    and "cache_Put (s3_repo env api bucket) cenv c key src m = (c1, Inr i)" and "(hosted_step api bucket)\<^sup>*\<^sup>* c1 c2"
    and "cache_Open (s3_repo env' api bucket) cenv' c2 key = (c3, Inr (bytes, j))"
  shows "bytes = reader_bytes src \<and> info_sizeBytes j = info_sizeBytes i \<and> info_sha256 i = sha256_hex bytes
    \<and> content (ca_remote c3) key = Some bytes"
proof -
  have "hosted.faithful c" using assms(1) by (simp add: hosted.faithful_def)
  note put = hosted.cached.put_ok [OF this assms(2)]
  note kept = hosted_steps_keep [OF assms(3) conjunct1 [OF put]]
  have "content (ca_remote c2) key = Some (reader_bytes src)"
    using kept put by (auto simp: hosted.ccontent_def map_le_def)
  moreover note hosted.cached.get_ok [OF conjunct1 [OF kept] assms(4)]
  ultimately show ?thesis using put by (auto simp: hosted.ccontent_def)
qed

text \<open>
  \<open>Put\<close> looks before it writes, and the write itself is unconditional: when somebody else
  stored the key after the look, the object is replaced.
\<close>

lemma racing_put_replaces:
  assumes "s3_exists api bucket s key = (s1, Inr False)" and "content s2 key = Some other"
    and "s3_upload api bucket s2 key body \<lparr>cr_SizeBytes = length body, cr_SHA256 = sha256_hex body\<rparr> = (s3, Inr i)"
  shows "content s1 key = None \<and> content s3 key = Some body"
  using exists_laws [OF assms(1)] upload_laws [OF assms(3)] by simp

end

text \<open>Nothing the bucket serves has a digest, and a hit has none either.\<close>

lemma s3_Open_no_digest: "s3_Open env api bucket s key = (s', Inr (b, i)) \<Longrightarrow> info_sha256 i = []"
  by (auto simp: s3_Open_def split: option.splits prod.splits sum.splits)

lemma hit_no_digest: "hit c key = (c', Some (b, i)) \<Longrightarrow> info_sha256 i = []"
  by (auto simp: hit_def split: if_splits option.splits)

lemma hosted_no_digest:
  assumes "cache_Open (s3_repo env api bucket) cenv c key = (c', Inr (b, i))"
  shows "info_sha256 i = []"
proof -
  have "info_sha256 i = []" if "remote_open (s3_repo env api bucket) d key = (c', Inr (b, i))" for d
    using that by (auto simp: remote_open_def s3_repo_def dest: s3_Open_no_digest split: prod.splits)
  then show ?thesis using assms
    by (auto simp: cache_Open_def dest: hit_no_digest split: option.splits prod.splits if_splits)
qed

lemma hosted_materialize_fails:
  assumes "art_SHA256 item \<noteq> []"
  shows "\<exists>bl' e. materialize wenv (cached_repo (s3_repo env api bucket) cenv) item target bl t = (bl', t, Some e)"
proof -
  obtain bl' res where op: "cache_Open (s3_repo env api bucket) cenv bl (art_StorageKey item) = (bl', res)"
    by (metis prod.exhaust)
  show ?thesis
  proof (cases res)
    case (Inl e)
    then show ?thesis using op by (simp add: materialize_def cached_repo_def)
  next
    case (Inr p)
    then have "info_sha256 (snd p) \<noteq> art_SHA256 item"
      using hosted_no_digest [of env api bucket cenv bl _ bl' "fst p" "snd p"] op assms by simp
    then show ?thesis using op Inr by (cases p) (simp add: materialize_def cached_repo_def)
  qed
qed

text \<open>A sealed build has a layer, and every layer of it a digest.\<close>

lemma sealed_layers:
  assumes "build_Validate b = None"
  obtains layer layers where "bld_Artifacts b = layer # layers" and "art_SHA256 layer \<noteq> []"
proof -
  obtain names where v: "validate_layers [] (bld_Artifacts b) = Inr names" "LayerCode \<in> set names"
    using assms by (auto simp: build_Validate_def split: sum.splits)
  then obtain layer layers where l: "bld_Artifacts b = layer # layers" by (cases "bld_Artifacts b") auto
  then have "ValidateArtifact layer = None" using v by (auto split: if_splits option.splits)
  then have "art_SHA256 layer \<noteq> []" by (auto simp: ValidateArtifact_def)
  then show thesis using that l by blast
qed

section \<open>A bucket in memory\<close>

type_synonym bucket_state = "string \<Rightarrow> string option"

definition memory_bucket :: "bucket_state s3_api" where
  "memory_bucket =
     \<lparr>s3_HeadObject = (\<lambda>s b k. (s, if s k = None then Some (APIError ''NotFound'') else None)),
      s3_GetObject = (\<lambda>s b k. (s, case s k of None \<Rightarrow> Inl NoSuchKey | Some v \<Rightarrow> Inr (v, Some (length v)))),
      s3_PutObject = (\<lambda>s b k v n. (s(k \<mapsto> v), None)),
      s3_DeleteObject = (\<lambda>s b k. (s(k := None), None)),
      s3_HeadBucket = (\<lambda>s b. (s, None))\<rparr>"

interpretation memory_bucket: s3_laws memory_bucket "''builds''" "\<lambda>s. s"
  by unfold_locales (auto simp: memory_bucket_def split: if_splits option.splits)

definition sample_s3_env :: s3_env where
  "sample_s3_env =
     \<lparr>se_ctx = (\<lambda>k. None), se_seekable = True, se_seek = None, se_rewind = None, se_spool = None, se_room = None\<rparr>"

definition hosted_cache :: "bucket_state cache" where
  "hosted_cache =
     \<lparr>ca_remote = (\<lambda>k. None), ca_maxBytes = 5, ca_clock = 0, ca_bytes = 0, ca_entries = [], ca_files = (\<lambda>k. None)\<rparr>"

lemma hosted_cache_Put:
  "\<exists>c1 i. cache_Put (s3_repo sample_s3_env memory_bucket ''builds'') sample_cenv hosted_cache ''bld_1/art_2.zip'' [(''abc'', None)] 3
      = (c1, Inr i) \<and> ca_files c1 ''bld_1/art_2.zip'' = Some ''abc''"
proof -
  have st: "stage sample_cenv [(''abc'', None)] 3 = Inr (''abc'', \<lparr>cr_SizeBytes = 3, cr_SHA256 = sha256_hex ''abc''\<rparr>)"
    by (simp add: stage_def sample_cenv_def copy_abc)
  have put: "s3_Put sample_s3_env memory_bucket ''builds'' (\<lambda>k. None) ''bld_1/art_2.zip'' [(''abc'', None)] 3
      = ([''bld_1/art_2.zip'' \<mapsto> ''abc''], Inr \<lparr>info_storageKey = ''bld_1/art_2.zip'', info_sizeBytes = 3, info_sha256 = sha256_hex ''abc''\<rparr>)"
    using sample_key(1)
    by (simp add: s3_Put_def s3_exists_def putSeekable_def s3_upload_def memory_bucket_def sample_s3_env_def copy_abc)
  have "ca_files (publish sample_cenv (hosted_cache\<lparr>ca_remote := s\<rparr>) ''bld_1/art_2.zip'' ''abc'' 3) ''bld_1/art_2.zip'' = Some ''abc''" for s
    using sample_key(1) by (simp add: publish_def sample_cenv_def hosted_cache_def trim_def touch_def ca_known_def)
  then show ?thesis
    using put st sample_key(1) by (simp add: cache_Put_def s3_repo_def hosted_cache_def)
qed

section \<open>Properties\<close>

text \<open>
  C26: a hosted store is transparent. Behind the cache, over a bucket whose requests may be
  carried out without an answer, what a successful put stored is what every later successful
  open returns, with the length and under the digest the put reported, after any puts and opens
  through the cache, failed ones included, with copies filled, lost and evicted on the way.
\<close>

theorem hosted_store_transparent:
  assumes "s3_laws api bucket content" and "ca_files c \<subseteq>\<^sub>m content (ca_remote c)"
    and "cache_Put (s3_repo env api bucket) cenv c key src m = (c1, Inr i)"
    and "(hosted_step api bucket)\<^sup>*\<^sup>* c1 c2"
    and "cache_Open (s3_repo env' api bucket) cenv' c2 key = (c3, Inr (bytes, j))"
  shows "bytes = reader_bytes src \<and> info_sizeBytes j = info_sizeBytes i \<and> info_sha256 i = sha256_hex bytes
    \<and> content (ca_remote c3) key = Some bytes"
  by (rule s3_laws.hosted_transparent [OF assms])

theorem hosted_store_transparent_witness:
  "\<exists>c1 i c3 bytes j. cache_Put (s3_repo sample_s3_env memory_bucket ''builds'') sample_cenv hosted_cache ''bld_1/art_2.zip'' [(''abc'', None)] 3
       = (c1, Inr i)
     \<and> cache_Open (s3_repo sample_s3_env memory_bucket ''builds'') sample_cenv c1 ''bld_1/art_2.zip'' = (c3, Inr (bytes, j)) \<and> bytes = ''abc''"
proof -
  obtain c1 i where put: "cache_Put (s3_repo sample_s3_env memory_bucket ''builds'') sample_cenv hosted_cache ''bld_1/art_2.zip'' [(''abc'', None)] 3 = (c1, Inr i)"
    and "ca_files c1 ''bld_1/art_2.zip'' = Some ''abc''"
    using hosted_cache_Put by blast
  then obtain c3 j where opn: "cache_Open (s3_repo sample_s3_env memory_bucket ''builds'') sample_cenv c1 ''bld_1/art_2.zip'' = (c3, Inr (''abc'', j))"
    using sample_key(1) by (simp add: cache_Open_def hit_def)
  have "ca_files hosted_cache \<subseteq>\<^sub>m ca_remote hosted_cache" by (simp add: hosted_cache_def)
  from hosted_store_transparent [OF memory_bucket.s3_laws_axioms this put rtranclp.rtrancl_refl opn] put opn
  show ?thesis by auto
qed

text \<open>
  C27: with a hosted store no execution runs. Neither the bucket nor the cache reports a digest with
  what it returns, and the worker compares the one it is given with the artifact's before it
  reads on. So whatever the bucket holds and answers, whatever is cached, and whichever runner
  is there, executing a sealed build ends in a failure, and the handler is not started.
\<close>

theorem hosted_executions_fail:
  assumes "buildrepo_GetByID (wo_db w) (exe_BuildID r) = Inr produced" and "build_Validate produced = None"
    and "we_work wenv = Inr work"
  shows "\<exists>w' f. execute wenv opts rs (cached_repo (s3_repo env api bucket) cenv) r w = (w', None, [], Some f)
    \<and> fail_Code f = ''artifact_invalid'' \<and> wo_db w' = wo_db w \<and> wo_tokens w' = wo_tokens w"
proof -
  obtain layer layers where l: "bld_Artifacts produced = layer # layers" "art_SHA256 layer \<noteq> []"
    using sealed_layers [OF assms(2)] by blast
  let ?rp = "cached_repo (s3_repo env api bucket) cenv"
  let ?t = "(work, IDir 448) # wo_tree w"
  obtain bl e where m: "materialize wenv ?rp layer (path_parts (filepath_join (abs_path work) (art_ID layer @ ''.zip''))) (wo_blobs w) ?t
      = (bl, ?t, Some e)"
    using hosted_materialize_fails [OF l(2)] by blast
  have code: "fail_Code (newFailure c e) = c" for c e by (simp add: newFailure_def Let_def)
  show ?thesis
    by (cases "art_SizeBytes layer > wk_MaxArtifactBytes opts") (simp_all add: execute_def assms l(1) m code)
qed

definition hosted_world :: "bucket_state cache world" where
  "hosted_world =
     \<lparr>wo_db = sample_wdb, wo_blobs = hosted_cache\<lparr>ca_remote := [''bld_1/art_2.zip'' \<mapsto> ''PK'']\<rparr>,
      wo_tree = [([], IDir 493)], wo_tokens = []\<rparr>"

lemma packed_build_valid: "build_Validate packed_build = None"
  using packed_layer_valid sample_build_ok
  by (simp add: build_ok_def packed_build_def sample_build_def LayerCode_def packed_layer_def runtime_Compiled.simps)

theorem hosted_executions_fail_witness:
  "\<exists>w' f. execute sample_wenv sample_opts (sample_runners []) (cached_repo (s3_repo sample_s3_env memory_bucket ''builds'') sample_cenv)
      (claimed (row_record sample_db sample_row) 20000)
      (hosted_world\<lparr>wo_db := put_row sample_wdb (claim_row sample_row 20000)\<rparr>) = (w', None, [], Some f)
    \<and> fail_Code f = ''artifact_invalid''"
proof -
  have "we_work sample_wenv = Inr [''w'']" by (simp add: sample_wenv_def)
  moreover have "buildrepo_GetByID (wo_db (hosted_world\<lparr>wo_db := put_row sample_wdb (claim_row sample_row 20000)\<rparr>))
      (exe_BuildID (claimed (row_record sample_db sample_row) 20000)) = Inr packed_build"
    using sample_lookup by simp
  ultimately show ?thesis using hosted_executions_fail [OF _ packed_build_valid] by blast
qed

end
