(* ===== verification/Spec2Isabelle.thy ===== *)
theory Spec2Isabelle
  imports BrowserServer GitHubCatalog Toolchains WorkApi ProfileApi TenantApi ObjectStore
begin

text \<open>
  \<^bold>\<open>A verification development of the neurun control plane\<close>

  neurun runs handlers, written in Python, Ruby, JavaScript, Go or Rust, in response to
  requests. An organization has projects, a project has apps. Code reaches an app through a
  deployment: from a pushed commit, or a request, a deployer fetches the source, builds it and
  stores the layers of the result as artifacts. An execution of an app is a row of a queue in
  PostgreSQL; a worker claims it, brings its layers to disk, runs the handler as a child
  process and writes the outcome back. A running handler may drive browsers through a gRPC
  server, identified by a token in Redis. People and programs come in through an HTTP API that
  authenticates a session or a key and checks its scopes.

  \<^bold>\<open>Conventions.\<close> A Go error is a value of the type \<open>error\<close> (\<open>Prelude\<close>): a sentinel of the source,
  perhaps wrapped in text; a function that can fail returns \<open>'a result\<close>, that is
  \<open>error + 'a\<close>. Go strings and byte slices are lists of characters, with UTF-8 decoded where
  the source ranges over runes. Code that changes state takes the state and returns it. A
  repository operation is one transaction, a function on the tables it touches; an operation of
  a service that reads, and later writes, takes the two states of the tables separately, so
  that whatever happened in between is covered. Times are integers (nanoseconds), clocks and
  random bytes are arguments. What is not part of the repository (PostgreSQL, Redis, S3, GitHub,
  the file system's failures, child processes, compilers, bcrypt, the browser service) is a
  parameter: a record of functions, with what the code relies on as named hypotheses or as the
  assumptions of a locale.

  \<^bold>\<open>The theories\<close>, in the order of the code they model (paths below \<open>src/internal\<close>):

  \<^item> \<open>Prelude\<close>, \<open>GoStrings\<close>, \<open>GoPaths\<close>, \<open>GoJson\<close>, \<open>GoNet\<close>, \<open>Sha256\<close>: errors and results, and what the
    sources use of Go's library: strings, UTF-8, lexical paths, raw JSON, addresses, SHA-256.
  \<^item> \<open>Ids\<close>: \<open>ids\<close>, identifiers and their validation.
  \<^item> \<open>Builds\<close>, \<open>Executions\<close>, \<open>Deployments\<close>: the domain packages of those names. \<open>Lifecycle\<close> is the
    contract the last two share, a locale interpreted on both.
  \<^item> \<open>Database\<close>, \<open>ExecutionRepo\<close>, \<open>ExecutionStore\<close>, \<open>DeploymentRepo\<close>: \<open>repository/database\<close>, the
    tables of work and the operations on them.
  \<^item> \<open>CopyHash\<close>, \<open>Archive\<close>: \<open>files\<close>, the bounded copy with its digest and the unpacking of archives.
  \<^item> \<open>FileStore\<close>, \<open>Cache\<close>, \<open>ObjectStore\<close>: \<open>repository/file\<close>. The interface of artifact stores is the
    locale \<open>write_once_store\<close>, extended by \<open>blob_store\<close> (deleting) and \<open>described_store\<close> (digests); the
    local store is an interpretation of the last. \<open>cached_writes\<close> and \<open>cached_store\<close> show that the
    cache in front of a store is a store again (sublocales); the former is instantiated over the
    bucket of \<open>s3.go\<close>, whose service is given by the locale \<open>s3_laws\<close>, the latter over the local store.
  \<^item> \<open>Runners\<close>, \<open>Worker\<close>: \<open>worker\<close>. The contract of a runner is the locale \<open>runner\<close>, interpreted
    for the four languages' runners.
  \<^item> \<open>Deployer\<close>, \<open>Toolchains\<close>: \<open>builder\<close>. What a deployer expects of a toolchain is the locale
    \<open>toolchain_contract\<close>, interpreted for the five builders with their command lines.
  \<^item> \<open>Config\<close>: \<open>config\<close>, the environment, the .env file, defaults and validation.
  \<^item> \<open>Accounts\<close>, \<open>Tenants\<close>, \<open>Membership\<close>, \<open>Access\<close>: \<open>domain/account\<close>, \<open>organization\<close> and \<open>session\<close>,
    their repositories and services, the authentication and the scope checks of \<open>api\<close>. \<open>Membership\<close> has the invariant of the tables along a history.
  \<^item> \<open>Projects\<close>, \<open>Services\<close>, \<open>GitHub\<close>, \<open>GitHubCatalog\<close>, \<open>Isolation\<close>: projects and apps from the
    domain to the services; the services that queue work; \<open>github\<close> and \<open>service/github.go\<close>;
    and the isolation of organizations over all of them.
  \<^item> \<open>Redis\<close>, \<open>Tokens\<close>: \<open>repository/memory/cache.go\<close> and \<open>cacheredis.go\<close>, with the server given by the
    locale \<open>redis_laws\<close> and the interface \<open>Cache\<close> as the locale \<open>lease_store\<close>; execution tokens.
  \<^item> \<open>Identity\<close>, \<open>Profiles\<close>, \<open>Browsers\<close>, \<open>SessionScope\<close>, \<open>Driving\<close>, \<open>BrowserServer\<close>: \<open>domain/browser\<close>,
    profiles and sessions with their repositories and services, the driver, the gRPC server,
    the HTTP commands and the supervisor of the browser service.
  \<^item> \<open>Http\<close>, \<open>WorkApi\<close>, \<open>ProfileApi\<close>, \<open>TenantApi\<close>: the rest of \<open>api\<close> and \<open>dto\<close>. A request is bound, its
    principal is admitted by the gate of its route, the handler calls the services and the
    outcome becomes a response object or a problem. Each theory has the routes of its group
    as a datatype and one function that serves them.

  \<^bold>\<open>What is shown.\<close>

  \<^item> Tenancy: what other organizations do changes no row of an organization (C1), a push reaches
    only the apps of the organization it was installed for (C2); a request changes nothing of
    another organization (C3, C5) and is answered from its own (C4); an account gets into an
    organization only by starting it or by invitation (C6); who may only read profiles learns
    no cookie, storage or proxy (C7); a browser session is found and driven only by the
    organization that opened it (C19, C20). The users endpoints are the exception (C33), and
    the right to invite is as good as every right (C34).
  \<^item> Work: the rows of the queue only move forward (C8), two claims never take the same execution
    (C9), a pass of the worker or the deployer leaves what it claimed finished (C10, C11, C25),
    finished deployments are kept (C29), and the conditions under which a pass stops the process
    instead (C31, C32).
  \<^item> Artifacts: an extraction stays inside its destination (C12); the hosted store, a cache over a
    bucket, and the local store return what was put (C26, C28), but no execution runs from the
    hosted one (C27); what is run is what was recorded (C30); what the builders pack unpacks
    again (C36) and is sealed (C37), unless it has more entries than a worker accepts (C38); the
    copy ends (C39).
  \<^item> Credentials: invitations are spent once (C13), the owner stays a member (C14), keys are not
    escalated (C15) and work until they are revoked (C16), a session follows the membership
    (C17), a token identifies its execution until it is revoked or runs out (C18).
  \<^item> Browsers: opening one strands nothing (C21), a browser service that died is not started again
    (C22), drawn identities are coherent (C23), the list of sessions is a stable sort (C24).
  \<^item> Configuration and identifiers: what loads is usable (C35), what is minted is valid (C40).

  Further lemmas hold round trips of records, histories of the tables, exact results of the
  archive and the copy, and the defects that are not properties of their own.

  \<^bold>\<open>Bounds and fuel.\<close> Loops over data are structural or have a termination proof. The worker's
  and the deployer's loop take the number of passes; the properties are about a pass. The copy
  and the SCAN loop may not end: they are partial functions into \<open>option\<close>, with a proof that the
  copy returns (C39). Sizes are integers with Go's limits written out; the generator of
  identities and SHA-256 work on words of their width.

  \<^bold>\<open>Not modelled.\<close> Generated protocol buffers; the text of JSON requests and answers (decoding a
  body into its fields is a parameter, the checks around it are modelled); the listing of
  browser sessions over HTTP and their display stream; CORS and security headers, health checks;
  listeners, signals, the wiring in \<open>cmd/neurun\<close> beyond the toolchains, and migrations;
  connections to the database that fail. Cancellation of a context is modelled where the code
  acts on it.
\<close>

end
